(* ===== verification/Prelude.thy ===== *)
theory Prelude
  imports Main "HOL-Library.Multiset" "HOL-Library.Sublist" "HOL-Library.List_Lexorder"
    "HOL-Library.Char_ord"
begin

text \<open>
  Shared vocabulary of the development: Python's substring test, insertion-ordered
  dictionaries (association lists), index scans, and the generic list lemmas the
  component theories rest on.  \<open>py_list\<close> collects the rewrite rules about them.
\<close>

named_theorems py_list \<open>rewrite rules for the Python list and dict idioms\<close>

section \<open>Strings\<close>

text \<open>Python's \<open>needle in hay\<close> on \<open>str\<close>.\<close>

fun is_infix :: "'a list \<Rightarrow> 'a list \<Rightarrow> bool" where
  "is_infix p [] = (p = [])"
| "is_infix p (x # xs) = (prefix p (x # xs) \<or> is_infix p xs)"

lemma is_infix_iff_sublist: "is_infix p xs \<longleftrightarrow> sublist p xs"
  by (induction xs) (auto simp: sublist_Cons_right)

text \<open>\<open>str(n)\<close> of a natural number, and \<open>repr(s)\<close> of a string of Latin-1 characters.\<close>

definition digit_char :: "nat \<Rightarrow> char" where
  "digit_char d = ''0123456789abcdef'' ! d"

fun show_nat :: "nat \<Rightarrow> string" where
  "show_nat n = (if n < 10 then [digit_char n] else show_nat (n div 10) @ [digit_char (n mod 10)])"

declare show_nat.simps [simp del]

definition repr_char :: "char \<Rightarrow> char \<Rightarrow> string" where
  "repr_char q c =
     (let n = (of_char c :: nat)
      in if c = q \<or> n = 92 then [char_of (92 :: nat), c]
         else if n = 10 then [char_of (92 :: nat), CHR ''n'']
         else if n = 13 then [char_of (92 :: nat), CHR ''r'']
         else if n = 9 then [char_of (92 :: nat), CHR ''t'']
         else if n < 32 \<or> (127 \<le> n \<and> n < 161) \<or> n = 173
         then [char_of (92 :: nat), CHR ''x'', digit_char (n div 16), digit_char (n mod 16)]
         else [c])"

definition py_repr :: "string \<Rightarrow> string" where
  "py_repr s =
     (let sq = char_of (39 :: nat); dq = char_of (34 :: nat);
          q = (if sq \<in> set s \<and> dq \<notin> set s then dq else sq)
      in [q] @ concat (map (repr_char q) s) @ [q])"

section \<open>Insertion-ordered dictionaries\<close>

text \<open>
  A Python \<open>dict\<close> keeps its insertion order, and assigning to an existing key keeps the
  key's place.  \<open>group_add k v d\<close> is \<open>d.setdefault(k, []).append(v)\<close>.
\<close>

fun group_add :: "'k \<Rightarrow> 'v \<Rightarrow> ('k \<times> 'v list) list \<Rightarrow> ('k \<times> 'v list) list" where
  "group_add k v [] = [(k, [v])]"
| "group_add k v ((k', vs) # gs) =
     (if k = k' then (k', vs @ [v]) # gs else (k', vs) # group_add k v gs)"

definition group_get :: "('k \<times> 'v list) list \<Rightarrow> 'k \<Rightarrow> 'v list" where
  "group_get d k = (case map_of d k of None \<Rightarrow> [] | Some vs \<Rightarrow> vs)"

fun dict_set :: "'k \<Rightarrow> 'v \<Rightarrow> ('k \<times> 'v) list \<Rightarrow> ('k \<times> 'v) list" where
  "dict_set k v [] = [(k, v)]"
| "dict_set k v ((k', v') # d) =
     (if k = k' then (k, v) # d else (k', v') # dict_set k v d)"

definition dict_pop :: "'k \<Rightarrow> ('k \<times> 'v) list \<Rightarrow> ('k \<times> 'v) list" where
  "dict_pop k d = filter (\<lambda>e. fst e \<noteq> k) d"

lemma group_get_Nil [py_list, simp]: "group_get [] k = []"
  by (simp add: group_get_def)

lemma group_get_add [py_list, simp]:
  "group_get (group_add k v d) k' = (if k' = k then group_get d k @ [v] else group_get d k')"
  by (induction k v d rule: group_add.induct) (auto simp: group_get_def)

lemma fst_set_group_add [py_list, simp]:
  "fst ` set (group_add k v d) = insert k (fst ` set d)"
  by (induction k v d rule: group_add.induct) auto

lemma distinct_group_add [intro]:
  "distinct (map fst d) \<Longrightarrow> distinct (map fst (group_add k v d))"
proof (induction k v d rule: group_add.induct)
  case (2 k v k' vs gs)
  then show ?case using fst_set_group_add [of k v gs] by (auto simp: image_iff)
qed simp

lemma group_add_nonempty [intro]:
  "\<forall>e \<in> set d. snd e \<noteq> [] \<Longrightarrow> \<forall>e \<in> set (group_add k v d). snd e \<noteq> []"
  by (induction k v d rule: group_add.induct) auto

lemma group_get_mem:
  assumes "distinct (map fst d)" "\<forall>e \<in> set d. snd e \<noteq> []"
  shows "(k, vs) \<in> set d \<longleftrightarrow> vs \<noteq> [] \<and> group_get d k = vs"
proof -
  have "(k, vs) \<in> set d \<longleftrightarrow> map_of d k = Some vs" using assms(1) by simp
  with assms(2) show ?thesis
    by (auto simp: group_get_def split: option.splits dest: map_of_SomeD)
qed

lemma map_of_dict_set [py_list, simp]: "map_of (dict_set k v d) = (map_of d)(k \<mapsto> v)"
  by (induction k v d rule: dict_set.induct) (auto simp: fun_eq_iff)

lemma fst_set_dict_set [py_list, simp]: "fst ` set (dict_set k v d) = insert k (fst ` set d)"
  by (induction k v d rule: dict_set.induct) auto

lemma distinct_dict_set [intro]:
  "distinct (map fst d) \<Longrightarrow> distinct (map fst (dict_set k v d))"
proof (induction k v d rule: dict_set.induct)
  case (2 k v k' v' d)
  then show ?case using fst_set_dict_set [of k v d] by (auto simp: image_iff)
qed simp

lemma map_of_dict_pop [py_list, simp]: "map_of (dict_pop k d) k' = (if k' = k then None else map_of d k')"
  by (induction d) (auto simp: dict_pop_def)

lemma distinct_dict_pop [intro]:
  "distinct (map fst d) \<Longrightarrow> distinct (map fst (dict_pop k d))"
  unfolding dict_pop_def by (induction d) auto

section \<open>Index scans\<close>

text \<open>
  \<open>[i for i, x in enumerate(xs) if p(x)]\<close>, and the two ends of it:
  \<open>next((i for ...), None)\<close> forward and backward.
\<close>

definition indexes_where :: "('a \<Rightarrow> bool) \<Rightarrow> 'a list \<Rightarrow> nat list" where
  "indexes_where p xs = filter (\<lambda>i. p (xs ! i)) [0..<length xs]"

fun first_index :: "('a \<Rightarrow> bool) \<Rightarrow> 'a list \<Rightarrow> nat option" where
  "first_index p [] = None"
| "first_index p (x # xs) = (if p x then Some 0 else map_option Suc (first_index p xs))"

fun last_index_where :: "('a \<Rightarrow> bool) \<Rightarrow> 'a list \<Rightarrow> nat option" where
  "last_index_where p [] = None"
| "last_index_where p (x # xs) =
     (case last_index_where p xs of
        Some i \<Rightarrow> Some (Suc i)
      | None \<Rightarrow> if p x then Some 0 else None)"

lemma first_index_Some:
  "first_index p xs = Some i \<longleftrightarrow> i < length xs \<and> p (xs ! i) \<and> (\<forall>j < i. \<not> p (xs ! j))"
proof (induction xs arbitrary: i)
  case (Cons x xs)
  show ?case
  proof (cases i)
    case 0
    then show ?thesis by auto
  next
    case (Suc k)
    with Cons.IH [of k] show ?thesis by (auto simp: less_Suc_eq_0_disj)
  qed
qed simp

lemma first_index_None: "first_index p xs = None \<longleftrightarrow> (\<forall>x \<in> set xs. \<not> p x)"
  by (induction xs) auto

lemma last_index_None: "last_index_where p xs = None \<longleftrightarrow> (\<forall>x \<in> set xs. \<not> p x)"
  by (induction xs) (auto split: option.splits)

lemma last_index_SomeD:
  "last_index_where p xs = Some i \<Longrightarrow>
     i < length xs \<and> p (xs ! i) \<and> (\<forall>j. i < j \<and> j < length xs \<longrightarrow> \<not> p (xs ! j))"
proof (induction xs arbitrary: i)
  case (Cons x xs)
  show ?case
  proof (cases "last_index_where p xs")
    case None
    with Cons.prems have "i = 0" "p x" by (auto split: if_splits)
    moreover have "\<forall>y \<in> set xs. \<not> p y" using None by (simp add: last_index_None)
    ultimately show ?thesis by (auto simp: nth_Cons')
  next
    case (Some k)
    with Cons.prems have i: "i = Suc k" by simp
    have "\<not> p ((x # xs) ! j)" if "i < j" "j < length (x # xs)" for j
      using Cons.IH [OF Some] i that by (cases j) auto
    with Cons.IH [OF Some] i show ?thesis by auto
  qed
qed simp

lemma last_index_Some:
  "last_index_where p xs = Some i \<longleftrightarrow>
     i < length xs \<and> p (xs ! i) \<and> (\<forall>j. i < j \<and> j < length xs \<longrightarrow> \<not> p (xs ! j))"
proof
  assume r: "i < length xs \<and> p (xs ! i) \<and> (\<forall>j. i < j \<and> j < length xs \<longrightarrow> \<not> p (xs ! j))"
  then have "last_index_where p xs \<noteq> None" by (auto simp: last_index_None)
  then obtain k where k: "last_index_where p xs = Some k" by auto
  from last_index_SomeD [OF k] r have "k = i" by (metis linorder_neqE_nat)
  with k show "last_index_where p xs = Some i" by simp
qed (rule last_index_SomeD)

lemma set_indexes_where [py_list, simp]:
  "set (indexes_where p xs) = {i. i < length xs \<and> p (xs ! i)}"
  by (auto simp: indexes_where_def)

lemma distinct_indexes_where [simp]: "distinct (indexes_where p xs)"
  by (simp add: indexes_where_def)

lemma sorted_indexes_where [simp]: "sorted (indexes_where p xs)"
  by (simp add: indexes_where_def sorted_wrt_filter)

lemma sort_Nil_iff: "sort xs = [] \<longleftrightarrow> xs = []" for xs :: "'a :: linorder list"
  by (metis length_0_conv length_sort)

section \<open>Dropping positions\<close>

text \<open>\<open>[x for i, x in enumerate(xs) if i not in drop]\<close>.\<close>

definition drop_positions :: "nat set \<Rightarrow> 'a list \<Rightarrow> 'a list" where
  "drop_positions D xs = map snd (filter (\<lambda>e. fst e \<notin> D) (enumerate 0 xs))"

lemma drop_positions_empty [py_list, simp]: "drop_positions {} xs = xs"
  by (simp add: drop_positions_def)

lemma length_drop_positions: "length (drop_positions D xs) \<le> length xs"
  unfolding drop_positions_def
  by (metis length_filter_le length_enumerate length_map)

lemma set_drop_positions_subset: "set (drop_positions D xs) \<subseteq> set xs"
  by (auto simp: drop_positions_def in_set_enumerate_eq)

lemma drop_positions_filter_keep:
  assumes "\<And>i. i \<in> D \<Longrightarrow> i < length xs \<Longrightarrow> \<not> p (xs ! i)"
  shows "filter p (drop_positions D xs) = filter p xs"
proof -
  have "filter p (drop_positions D xs) =
        map snd (filter (\<lambda>e. fst e \<notin> D \<and> p (snd e)) (enumerate 0 xs))"
    by (simp add: drop_positions_def filter_map o_def conj_commute)
  also have "\<dots> = map snd (filter (\<lambda>e. p (snd e)) (enumerate 0 xs))"
    using assms by (intro arg_cong [where f = "map snd"] filter_cong) (auto simp: in_set_enumerate_eq)
  also have "\<dots> = filter p xs"
    by (metis (no_types, lifting) filter_cong filter_map map_snd_enumerate o_apply)
  finally show ?thesis .
qed

end
