(* ===== verification/Messages.thy ===== *)
theory Messages
  imports Prelude
begin

text \<open>
  The conversation message of \<open>core/llm_models.py\<close> (\<open>Role\<close>, \<open>ToolCall\<close>, \<open>LLMMessage\<close>)
  and the predicates every transcript check shares.  A message is a Python object: \<open>ident\<close>
  stands for its \<open>id()\<close>, and for the fields no modelled operation reads (images, reasoning,
  clocks, display content).  \<open>str\<close> is \<open>string\<close>.
\<close>

datatype role = System | User | Assistant | Tool

record tool_call =
  tc_id :: "string option"

record llm_message =
  ident :: nat
  role_of :: role
  content :: "string option"
  injected :: bool
  tool_calls :: "tool_call list option"
  tool_call_id :: "string option"
  tool_result :: "nat option"
  message_id :: "string option"
  context_boundary :: "string option"
  injection_origin :: "string option"
  archive_ref :: "nat option"

text \<open>\<open>CONTEXT_INJECTION_TOOL_PAIR_V1\<close> and the text of the synthetic placeholder.\<close>

definition context_injection_tool_pair_v1 :: string where
  "context_injection_tool_pair_v1 = ''context_injector.tool_pair.v1''"

definition cancellation_tag :: string where
  "cancellation_tag = ''user_cancellation''"

text \<open>\<open>TaggedText.__str__\<close>.\<close>

definition tagged_text_str :: "string \<Rightarrow> string \<Rightarrow> string" where
  "tagged_text_str message tag =
     (if tag = [] then message
      else ''<'' @ tag @ ''>'' @ message @ ''</'' @ tag @ ''>'')"

datatype cancellation_reason =
  OperationCancelled | ToolInterrupted | ToolNoResponse | ToolSkipped

definition get_user_cancellation_message :: "cancellation_reason \<Rightarrow> string option \<Rightarrow> string" where
  "get_user_cancellation_message r tool_name =
     (case r of
        OperationCancelled \<Rightarrow> tagged_text_str ''User cancelled the operation.'' cancellation_tag
      | ToolInterrupted \<Rightarrow> tagged_text_str ''Tool execution interrupted by user.'' cancellation_tag
      | ToolNoResponse \<Rightarrow>
          tagged_text_str ''Tool execution interrupted - no response available'' cancellation_tag
      | ToolSkipped \<Rightarrow>
          tagged_text_str
            (case tool_name of
               Some t \<Rightarrow> if t = [] then ''Tool execution skipped by user.'' else t
             | None \<Rightarrow> ''Tool execution skipped by user.'')
            cancellation_tag)"

definition tool_no_response_text :: string where
  "tool_no_response_text = get_user_cancellation_message ToolNoResponse None"

definition is_synthetic_tool_placeholder :: "llm_message \<Rightarrow> bool" where
  "is_synthetic_tool_placeholder m =
     (if role_of m \<noteq> Tool \<or> tool_result m \<noteq> None then False
      else case content m of None \<Rightarrow> False | Some c \<Rightarrow> is_infix tool_no_response_text c)"

definition has_structured_tool_result :: "llm_message \<Rightarrow> bool" where
  "has_structured_tool_result m \<longleftrightarrow> role_of m = Tool \<and> tool_result m \<noteq> None"

text \<open>Python truthiness of \<open>message.tool_calls\<close> and of an optional string.\<close>

definition has_tool_calls :: "llm_message \<Rightarrow> bool" where
  "has_tool_calls m \<longleftrightarrow> tool_calls m \<noteq> None \<and> tool_calls m \<noteq> Some []"

definition truthy :: "string option \<Rightarrow> bool" where
  "truthy s \<longleftrightarrow> s \<noteq> None \<and> s \<noteq> Some []"

definition calls_of :: "llm_message \<Rightarrow> tool_call list" where
  "calls_of m = (case tool_calls m of None \<Rightarrow> [] | Some cs \<Rightarrow> cs)"

text \<open>
  \<open>_call_ids\<close>: the non-empty ids.  Python's set has no defined order; the model lists the
  ids in call order without repetition.
\<close>

definition call_ids :: "llm_message \<Rightarrow> string list" where
  "call_ids m = remdups (map (\<lambda>tc. the (tc_id tc)) (filter (\<lambda>tc. truthy (tc_id tc)) (calls_of m)))"

text \<open>The assistant messages that claim a call id, and the results that carry one.\<close>

definition claims :: "string \<Rightarrow> llm_message \<Rightarrow> bool" where
  "claims c m \<longleftrightarrow> role_of m = Assistant \<and> c \<in> set (call_ids m)"

definition answers :: "string \<Rightarrow> llm_message \<Rightarrow> bool" where
  "answers c m \<longleftrightarrow> role_of m = Tool \<and> tool_call_id m = Some c"

definition tool_call_block :: "llm_message \<Rightarrow> bool" where
  "tool_call_block m \<longleftrightarrow> role_of m = Assistant \<and> has_tool_calls m"

lemma truthy_Some [simp]: "truthy (Some c) \<longleftrightarrow> c \<noteq> []"
  by (simp add: truthy_def)

lemma truthy_None [simp]: "\<not> truthy None"
  by (simp add: truthy_def)

lemma call_ids_nonempty [simp]: "[] \<notin> set (call_ids m)"
  by (auto simp: call_ids_def truthy_def)

lemma distinct_call_ids [simp]: "distinct (call_ids m)"
  by (simp add: call_ids_def)

lemma claims_not_Tool [simp]: "role_of m = Tool \<Longrightarrow> \<not> claims c m"
  by (simp add: claims_def)

lemma answers_not_claims: "answers c m \<Longrightarrow> \<not> claims c' m"
  by (simp add: claims_def answers_def)

lemma claims_block: "claims c m \<Longrightarrow> tool_call_block m"
  by (cases "tool_calls m")
    (auto simp: claims_def tool_call_block_def has_tool_calls_def call_ids_def calls_of_def)

lemma placeholder_Tool: "is_synthetic_tool_placeholder m \<Longrightarrow> role_of m = Tool"
  by (auto simp: is_synthetic_tool_placeholder_def split: if_splits)

lemma structured_not_placeholder:
  "has_structured_tool_result m \<Longrightarrow> \<not> is_synthetic_tool_placeholder m"
  by (auto simp: has_structured_tool_result_def is_synthetic_tool_placeholder_def)

end
