(* ===== verification/Tool_Order.thy ===== *)
theory Tool_Order
  imports Messages
begin

text \<open>
  Owner scoping and the request-build reorder of \<open>core/compaction/context.py\<close>: which tool
  result answers which assistant call, which synthetic placeholders a genuine result
  shadows, and how messages steered into the gap between a call and its result are moved
  behind the results.
\<close>

section \<open>Owner groups\<close>

text \<open>\<open>for tool_call in message.tool_calls: if tool_call.id: last_owner[tool_call.id] = index\<close>.\<close>

definition set_owners :: "string list \<Rightarrow> nat \<Rightarrow> (string \<rightharpoonup> nat) \<Rightarrow> (string \<rightharpoonup> nat)" where
  "set_owners cs i lo = (\<lambda>c. if c \<in> set cs then Some i else lo c)"

type_synonym owner_groups = "((nat \<times> string) \<times> nat list) list"

fun owner_groups_from ::
  "nat \<Rightarrow> llm_message list \<Rightarrow> (string \<rightharpoonup> nat) \<Rightarrow> owner_groups \<Rightarrow> owner_groups" where
  "owner_groups_from i [] lo g = g"
| "owner_groups_from i (m # ms) lo g =
     (if role_of m = Assistant
      then owner_groups_from (Suc i) ms (set_owners (call_ids m) i lo) g
      else if role_of m = Tool \<and> truthy (tool_call_id m)
      then (case lo (the (tool_call_id m)) of
              Some ow \<Rightarrow>
                owner_groups_from (Suc i) ms lo (group_add (ow, the (tool_call_id m)) i g)
            | None \<Rightarrow> owner_groups_from (Suc i) ms lo g)
      else owner_groups_from (Suc i) ms lo g)"

definition tool_result_owner_groups :: "llm_message list \<Rightarrow> owner_groups" where
  "tool_result_owner_groups ms = owner_groups_from 0 ms (\<lambda>_. None) []"

text \<open>The originating call of a result at \<open>i\<close>: the last claimant before it (\<open>_owner_before\<close>).\<close>

definition owner_before :: "llm_message list \<Rightarrow> nat \<Rightarrow> string \<Rightarrow> nat option" where
  "owner_before ms i c = last_index_where (claims c) (take i ms)"

text \<open>
  The declarative group of call \<open>c\<close> of the block at \<open>ow\<close>: the results carrying \<open>c\<close> up to
  the next assistant message that claims \<open>c\<close> again.
\<close>

definition segment :: "string \<Rightarrow> (nat \<times> llm_message) list \<Rightarrow> (nat \<times> llm_message) list" where
  "segment c es = filter (\<lambda>e. answers c (snd e)) (takeWhile (\<lambda>e. \<not> claims c (snd e)) es)"

definition result_group :: "llm_message list \<Rightarrow> nat \<Rightarrow> string \<Rightarrow> (nat \<times> llm_message) list" where
  "result_group ms ow c =
     (if ow < length ms \<and> claims c (ms ! ow)
      then segment c (drop (Suc ow) (enumerate 0 ms)) else [])"

lemma segment_Nil [simp]: "segment c [] = []"
  by (simp add: segment_def)

lemma segment_Cons [simp]:
  "segment c (e # es) =
     (if claims c (snd e) then [] else if answers c (snd e) then e # segment c es else segment c es)"
  by (auto simp: segment_def answers_not_claims)

text \<open>
  The loop invariant: what the scan adds to the group \<open>(ow, c)\<close>, given whether the block at
  \<open>ow\<close> is the current owner of \<open>c\<close>.
\<close>

fun contrib :: "nat \<Rightarrow> string \<Rightarrow> nat \<Rightarrow> llm_message list \<Rightarrow> bool \<Rightarrow> nat list" where
  "contrib ow c i [] cur = []"
| "contrib ow c i (m # ms) cur =
     (if claims c m then contrib ow c (Suc i) ms (i = ow)
      else if answers c m \<and> c \<noteq> [] \<and> cur then i # contrib ow c (Suc i) ms cur
      else contrib ow c (Suc i) ms cur)"

lemma owner_groups_from_get:
  "group_get (owner_groups_from i ms lo g) (ow, c) =
     group_get g (ow, c) @ contrib ow c i ms (lo c = Some ow)"
proof (induction i ms lo g rule: owner_groups_from.induct)
  case (2 i m ms lo g)
  show ?case
  proof (cases "role_of m = Assistant")
    case True
    have "(set_owners (call_ids m) i lo c = Some ow) =
          (if claims c m then i = ow else lo c = Some ow)" "\<not> answers c m"
      using True by (auto simp: set_owners_def claims_def answers_def)
    then show ?thesis using "2.IH"(1) [OF True] True by simp
  next
    case False
    then have nc: "\<not> claims c m" by (simp add: claims_def)
    show ?thesis
    proof (cases "role_of m = Tool \<and> truthy (tool_call_id m)")
      case True
      then obtain d where d: "tool_call_id m = Some d" "d \<noteq> []" by (cases "tool_call_id m") auto
      have ans: "answers c m \<longleftrightarrow> c = d" using True d by (auto simp: answers_def)
      show ?thesis
        using "2.IH"(2,3) [OF False True] False True d ans nc
        by (cases "lo d") auto
    next
      case nt: False
      then have "\<not> answers c m \<or> c = []" by (auto simp: answers_def truthy_def)
      then show ?thesis using "2.IH"(4) [OF False nt] False nt nc by auto
    qed
  qed
qed simp

lemma claims_nonempty: "claims c m \<Longrightarrow> c \<noteq> []"
  using call_ids_nonempty by (auto simp: claims_def)

lemma contrib_past:
  "ow < i \<Longrightarrow> contrib ow c i ms cur =
     (if cur \<and> c \<noteq> [] then map fst (segment c (enumerate i ms)) else [])"
  by (induction ms arbitrary: i cur) auto

lemma contrib_future:
  "i \<le> ow \<Longrightarrow> contrib ow c i ms False =
     (if ow < i + length ms \<and> claims c (ms ! (ow - i))
      then map fst (segment c (drop (Suc ow - i) (enumerate i ms))) else [])"
proof (induction ms arbitrary: i)
  case (Cons m ms)
  show ?case
  proof (cases "i = ow")
    case True
    then show ?thesis by (auto simp: contrib_past claims_nonempty)
  next
    case False
    with Cons.prems have "Suc i \<le> ow" "ow - i = Suc (ow - Suc i)" "Suc ow - i = Suc (Suc ow - Suc i)"
      by auto
    with Cons.IH [of "Suc i"] False show ?thesis by simp
  qed
qed simp

lemma group_get_owner_groups:
  "group_get (tool_result_owner_groups ms) (ow, c) = map fst (result_group ms ow c)"
  by (simp add: tool_result_owner_groups_def result_group_def owner_groups_from_get contrib_future)

lemma owner_groups_from_distinct:
  "distinct (map fst g) \<Longrightarrow> distinct (map fst (owner_groups_from i ms lo g))"
  by (induction i ms lo g rule: owner_groups_from.induct)
    (simp_all add: distinct_group_add split: option.split)

lemma owner_groups_from_nonempty:
  "\<forall>e \<in> set g. snd e \<noteq> [] \<Longrightarrow> \<forall>e \<in> set (owner_groups_from i ms lo g). snd e \<noteq> []"
proof (induction i ms lo g rule: owner_groups_from.induct)
  case (2 i m ms lo g)
  have "\<forall>e \<in> set (group_add k i g). snd e \<noteq> []" for k using "2.prems" by (rule group_add_nonempty)
  with 2 show ?case by (simp split: option.split)
qed simp

lemma owner_groups_mem:
  "((ow, c), idxs) \<in> set (tool_result_owner_groups ms) \<longleftrightarrow>
     idxs \<noteq> [] \<and> idxs = map fst (result_group ms ow c)"
proof -
  have "distinct (map fst (tool_result_owner_groups ms))"
    "\<forall>e \<in> set (tool_result_owner_groups ms). snd e \<noteq> []"
    using owner_groups_from_distinct [of "[]"] owner_groups_from_nonempty [of "[]"]
    by (simp_all add: tool_result_owner_groups_def)
  from group_get_mem [OF this, of "(ow, c)" idxs] show ?thesis
    by (auto simp: group_get_owner_groups)
qed

section \<open>Shadowed placeholders\<close>

definition genuine_positions :: "llm_message list \<Rightarrow> nat list \<Rightarrow> nat list" where
  "genuine_positions ms idxs = filter (\<lambda>p. \<not> is_synthetic_tool_placeholder (ms ! p)) idxs"

definition shadowed_placeholder_positions :: "llm_message list \<Rightarrow> nat set" where
  "shadowed_placeholder_positions ms =
     set (concat (map (\<lambda>(k, idxs).
        if length idxs < 2 then []
        else if length (genuine_positions ms idxs) = 1
        then filter (\<lambda>p. is_synthetic_tool_placeholder (ms ! p)) idxs
        else [])
      (tool_result_owner_groups ms)))"

definition drop_shadowed_placeholders :: "llm_message list \<Rightarrow> llm_message list" where
  "drop_shadowed_placeholders ms =
     (let drop = shadowed_placeholder_positions ms
      in if drop = {} then ms else drop_positions drop ms)"

lemma drop_shadowed_eq:
  "drop_shadowed_placeholders ms = drop_positions (shadowed_placeholder_positions ms) ms"
  by (simp add: drop_shadowed_placeholders_def Let_def)

lemma segment_set: "e \<in> set (segment c es) \<Longrightarrow> e \<in> set es \<and> answers c (snd e)"
  by (auto simp: segment_def dest: set_takeWhileD)

lemma result_group_mem:
  "e \<in> set (result_group ms ow c) \<Longrightarrow>
     fst e < length ms \<and> snd e = ms ! fst e \<and> answers c (snd e) \<and> ow < fst e"
  by (auto simp: result_group_def in_set_conv_nth [of _ "drop _ _"] nth_enumerate_eq
      dest!: segment_set split: if_splits)

text \<open>The declarative reading of the predicate shared by the reorder and the repair.\<close>

lemma shadowed_iff:
  "p \<in> shadowed_placeholder_positions ms \<longleftrightarrow>
     (\<exists>ow c. p \<in> fst ` set (result_group ms ow c) \<and>
        is_synthetic_tool_placeholder (ms ! p) \<and>
        2 \<le> length (result_group ms ow c) \<and>
        length (filter (\<lambda>e. \<not> is_synthetic_tool_placeholder (snd e)) (result_group ms ow c)) = 1)"
proof -
  have gen: "length (genuine_positions ms (map fst (result_group ms ow c))) =
     length (filter (\<lambda>e. \<not> is_synthetic_tool_placeholder (snd e)) (result_group ms ow c))" for ow c
    unfolding genuine_positions_def filter_map length_map
    by (intro arg_cong [where f = length] filter_cong) (auto dest: result_group_mem)
  show ?thesis (is "?l = ?r")
  proof
    assume ?l
    then obtain ow c idxs where k: "((ow, c), idxs) \<in> set (tool_result_owner_groups ms)"
      "2 \<le> length idxs" "length (genuine_positions ms idxs) = 1" "p \<in> set idxs"
      "is_synthetic_tool_placeholder (ms ! p)"
      by (auto simp: shadowed_placeholder_positions_def split: if_splits)
    then show ?r using gen [of ow c] by (auto simp: owner_groups_mem intro!: exI [of _ ow] exI [of _ c])
  next
    assume ?r
    then obtain ow c where r: "p \<in> fst ` set (result_group ms ow c)"
      "is_synthetic_tool_placeholder (ms ! p)" "2 \<le> length (result_group ms ow c)"
      "length (filter (\<lambda>e. \<not> is_synthetic_tool_placeholder (snd e)) (result_group ms ow c)) = 1"
      by blast
    then have "((ow, c), map fst (result_group ms ow c)) \<in> set (tool_result_owner_groups ms)"
      by (auto simp: owner_groups_mem)
    with r gen [of ow c] show ?l
      by (force simp: shadowed_placeholder_positions_def
          intro!: bexI [of _ "((ow, c), map fst (result_group ms ow c))"])
  qed
qed

lemma shadowed_is_placeholder:
  "p \<in> shadowed_placeholder_positions ms \<Longrightarrow>
     p < length ms \<and> is_synthetic_tool_placeholder (ms ! p)"
  unfolding shadowed_iff by (auto dest: result_group_mem)

text \<open>Genuine results are never dropped.\<close>

lemma drop_shadowed_keeps_genuine:
  "filter (\<lambda>m. \<not> is_synthetic_tool_placeholder m) (drop_shadowed_placeholders ms) =
   filter (\<lambda>m. \<not> is_synthetic_tool_placeholder m) ms"
  unfolding drop_shadowed_eq
  by (rule drop_positions_filter_keep) (auto dest: shadowed_is_placeholder)

lemma length_drop_shadowed: "length (drop_shadowed_placeholders ms) \<le> length ms"
  by (simp add: drop_shadowed_eq length_drop_positions)

subsection \<open>Dropping once is enough\<close>

lemma filter_index:
  "j < length (filter P xs) \<Longrightarrow>
     \<exists>i < length xs. xs ! i = filter P xs ! j \<and> P (xs ! i) \<and>
       drop (Suc j) (filter P xs) = filter P (drop (Suc i) xs)"
proof (induction xs arbitrary: j)
  case (Cons x xs)
  show ?case
  proof (cases "P x \<and> j = 0")
    case True
    then show ?thesis by (intro exI [of _ 0]) auto
  next
    case False
    define j' where "j' = (if P x then j - 1 else j)"
    have "j' < length (filter P xs)" using Cons.prems False by (auto simp: j'_def)
    from Cons.IH [OF this] obtain i where i: "i < length xs" "xs ! i = filter P xs ! j'" "P (xs ! i)"
      "drop (Suc j') (filter P xs) = filter P (drop (Suc i) xs)" by blast
    have "filter P (x # xs) ! j = filter P xs ! j'"
      "drop (Suc j) (filter P (x # xs)) = drop (Suc j') (filter P xs)"
      using False by (cases j; auto simp: j'_def)+
    with i show ?thesis by (intro exI [of _ "Suc i"]) auto
  qed
qed simp

lemma takeWhile_filter_commute:
  "\<forall>x \<in> set xs. \<not> P x \<longrightarrow> Q x \<Longrightarrow> takeWhile Q (filter P xs) = filter P (takeWhile Q xs)"
  by (induction xs) auto

lemma segment_map_snd:
  "map snd es = map snd es' \<Longrightarrow> map snd (segment c es) = map snd (segment c es')"
proof (induction es arbitrary: es')
  case (Cons e es)
  then obtain e' es'' where "es' = e' # es''" "snd e' = snd e" "map snd es'' = map snd es"
    by (cases es') auto
  with Cons.IH [of es''] show ?case by auto
qed simp

text \<open>The group of a kept block loses exactly the dropped placeholders.\<close>

lemma result_group_after_drop:
  assumes D: "\<And>p. p \<in> D \<Longrightarrow> p < length ms \<Longrightarrow> role_of (ms ! p) = Tool"
    and ow: "ow < length (drop_positions D ms)"
  obtains ow' where "map snd (result_group (drop_positions D ms) ow c) =
      map snd (filter (\<lambda>e. fst e \<notin> D) (result_group ms ow' c))"
proof -
  define E where "E = enumerate 0 ms"
  define P where "P = (\<lambda>e :: nat \<times> llm_message. fst e \<notin> D)"
  have ms': "drop_positions D ms = map snd (filter P E)" by (simp add: drop_positions_def E_def P_def)
  with ow have "ow < length (filter P E)" by simp
  from filter_index [OF this] obtain i where i: "i < length E" "E ! i = filter P E ! ow" "P (E ! i)"
    "drop (Suc ow) (filter P E) = filter P (drop (Suc i) E)" by blast
  have Ei: "E ! i = (i, ms ! i)" using i(1) by (simp add: E_def nth_enumerate_eq)
  have head: "drop_positions D ms ! ow = ms ! i"
    using ow arg_cong [OF i(2), of snd] Ei by (simp add: ms')
  have tool: "\<forall>e \<in> set (drop (Suc i) E). \<not> P e \<longrightarrow> \<not> claims c (snd e)"
  proof (intro ballI impI)
    fix e assume "e \<in> set (drop (Suc i) E)" "\<not> P e"
    then have "e \<in> set E" "fst e \<in> D" by (auto dest: in_set_dropD simp: P_def)
    then have "snd e = ms ! fst e" "fst e < length ms"
      by (auto simp: E_def in_set_enumerate_eq)
    with D \<open>fst e \<in> D\<close> have "role_of (snd e) = Tool" by simp
    then show "\<not> claims c (snd e)" by simp
  qed
  have "map snd (drop (Suc ow) (enumerate 0 (drop_positions D ms))) =
        map snd (filter P (drop (Suc i) E))"
    unfolding drop_map [symmetric] map_snd_enumerate ms' unfolding drop_map i(4) ..
  from segment_map_snd [OF this, of c]
  have "map snd (segment c (drop (Suc ow) (enumerate 0 (drop_positions D ms)))) =
        map snd (segment c (filter P (drop (Suc i) E)))" .
  also have "segment c (filter P (drop (Suc i) E)) = filter P (segment c (drop (Suc i) E))"
    using takeWhile_filter_commute [OF tool] by (simp add: segment_def conj_commute)
  finally have "map snd (result_group (drop_positions D ms) ow c) =
      map snd (filter P (result_group ms i c))"
    using ow i(1) head by (simp add: result_group_def E_def)
  with that show thesis by (simp add: P_def)
qed

lemma shadowed_after_drop: "shadowed_placeholder_positions (drop_shadowed_placeholders ms) = {}"
proof (rule ccontr)
  let ?D = "shadowed_placeholder_positions ms" and ?ph = is_synthetic_tool_placeholder
  assume "shadowed_placeholder_positions (drop_shadowed_placeholders ms) \<noteq> {}"
  then obtain ow c where g: "2 \<le> length (result_group (drop_positions ?D ms) ow c)"
    "length (filter (\<lambda>e. \<not> ?ph (snd e)) (result_group (drop_positions ?D ms) ow c)) = 1"
    by (auto simp: shadowed_iff drop_shadowed_eq)
  have owl: "ow < length (drop_positions ?D ms)"
    using g(1) by (auto simp: result_group_def split: if_splits)
  have tool: "role_of (ms ! p) = Tool" if "p \<in> ?D" for p
    using that by (auto dest!: shadowed_is_placeholder intro: placeholder_Tool)
  obtain o' where o': "map snd (result_group (drop_positions ?D ms) ow c) =
      map snd (filter (\<lambda>e. fst e \<notin> ?D) (result_group ms o' c))"
    using result_group_after_drop [OF tool owl] by blast
  define G where "G = result_group ms o' c"
  have gen: "filter (\<lambda>e. \<not> ?ph (snd e)) (filter (\<lambda>e. fst e \<notin> ?D) G) = filter (\<lambda>e. \<not> ?ph (snd e)) G"
    unfolding filter_filter by (rule filter_cong)
      (auto simp: G_def dest!: shadowed_is_placeholder result_group_mem)
  have len: "2 \<le> length (filter (\<lambda>e. fst e \<notin> ?D) G)"
    using g(1) arg_cong [OF o', of length] by (simp add: G_def)
  have "length (filter (\<lambda>m. \<not> ?ph m) (map snd (filter (\<lambda>e. fst e \<notin> ?D) G))) = 1"
    using g(2) unfolding G_def o' [symmetric] by (simp add: filter_map o_def)
  then have one: "length (filter (\<lambda>e. \<not> ?ph (snd e)) G) = 1"
    using gen by (simp add: filter_map o_def)
  have two: "2 \<le> length G" using len length_filter_le [of "\<lambda>e. fst e \<notin> ?D" G] by linarith
  have "fst e \<in> ?D" if "e \<in> set G" "?ph (snd e)" for e
    unfolding shadowed_iff using that two one
    by (auto simp: G_def intro!: exI [of _ o'] exI [of _ c] dest: result_group_mem)
  then have "filter (\<lambda>e. fst e \<notin> ?D) G = filter (\<lambda>e. fst e \<notin> ?D \<and> \<not> ?ph (snd e)) G"
    by (intro filter_cong) auto
  also have "\<dots> = filter (\<lambda>e. \<not> ?ph (snd e)) G"
    using gen by (simp add: conj_commute)
  finally show False using len one by simp
qed

lemma drop_shadowed_idem [simp]:
  "drop_shadowed_placeholders (drop_shadowed_placeholders ms) = drop_shadowed_placeholders ms"
  by (simp add: drop_shadowed_eq [of "drop_shadowed_placeholders ms"] shadowed_after_drop)

section \<open>The request-build reorder\<close>

text \<open>
  \<open>collect_results pending ms\<close> is the inner loop: it walks the messages behind an assistant
  call until every pending id is answered, and returns the collected results, the displaced
  messages and what was not visited.
\<close>

fun collect_results ::
  "string list \<Rightarrow> llm_message list \<Rightarrow> llm_message list \<times> llm_message list \<times> llm_message list" where
  "collect_results pending [] = ([], [], [])"
| "collect_results pending (f # fs) =
     (if pending = [] then ([], [], f # fs)
      else case tool_call_id f of
        Some c \<Rightarrow>
          (if role_of f = Tool \<and> c \<in> set pending
           then (case collect_results (removeAll c pending) fs of
                   (rs, ds, rest) \<Rightarrow> (f # rs, ds, rest))
           else (case collect_results pending fs of (rs, ds, rest) \<Rightarrow> (rs, f # ds, rest)))
      | None \<Rightarrow> (case collect_results pending fs of (rs, ds, rest) \<Rightarrow> (rs, f # ds, rest)))"

definition pending_ids :: "llm_message \<Rightarrow> string list" where
  "pending_ids m =
     remdups (map (\<lambda>tc. the (tc_id tc)) (filter (\<lambda>tc. tc_id tc \<noteq> None) (calls_of m)))"

lemma collect_length:
  "collect_results pend fs = (rs, ds, rest) \<Longrightarrow> length rs + length ds + length rest = length fs"
  by (induction pend fs arbitrary: rs ds rest rule: collect_results.induct)
    (auto split: option.splits if_splits prod.splits)

function (sequential) reorder_for_tool_adjacency :: "llm_message list \<Rightarrow> llm_message list"
  and reorder_loop :: "llm_message list \<Rightarrow> llm_message list" where
  "reorder_for_tool_adjacency ms = reorder_loop (drop_shadowed_placeholders ms)"
| "reorder_loop [] = []"
| "reorder_loop (m # rest) =
     (if \<not> tool_call_block m \<or> pending_ids m = [] then m # reorder_loop rest
      else (case collect_results (pending_ids m) rest of
              (rs, ds, rest') \<Rightarrow>
                m # rs @ reorder_for_tool_adjacency ds @ reorder_loop rest'))"
  by pat_completeness auto
termination
  by (relation "measures [\<lambda>x. case x of Inl ms \<Rightarrow> length ms | Inr ms \<Rightarrow> length ms,
                           \<lambda>x. case x of Inl _ \<Rightarrow> 1 | Inr _ \<Rightarrow> 0]")
    (use length_drop_shadowed in \<open>auto simp: le_less dest!: collect_length [OF sym]\<close>)

declare reorder_for_tool_adjacency.simps [simp del] reorder_loop.simps [simp del]
lemmas reorder_unfold = reorder_for_tool_adjacency.simps reorder_loop.simps

section \<open>Conservation\<close>

lemma collect_mset:
  "collect_results pend fs = (rs, ds, rest) \<Longrightarrow> mset fs = mset rs + mset ds + mset rest"
  by (induction pend fs arbitrary: rs ds rest rule: collect_results.induct)
    (auto split: option.splits if_splits prod.splits)

lemma reorder_genuine_mset:
  "mset (filter (\<lambda>m. \<not> is_synthetic_tool_placeholder m) (reorder_for_tool_adjacency ms)) =
     mset (filter (\<lambda>m. \<not> is_synthetic_tool_placeholder m) ms)"
  "mset (filter (\<lambda>m. \<not> is_synthetic_tool_placeholder m) (reorder_loop ms)) =
     mset (filter (\<lambda>m. \<not> is_synthetic_tool_placeholder m) ms)"
proof (induction ms and ms rule: reorder_for_tool_adjacency_reorder_loop.induct)
  case (1 ms)
  then show ?case by (simp add: reorder_unfold drop_shadowed_keeps_genuine)
next
  case (3 m rest)
  obtain rs ds rest' where c: "collect_results (pending_ids m) rest = (rs, ds, rest')"
    by (cases "collect_results (pending_ids m) rest") auto
  have "filter_mset P (mset rest) = filter_mset P (mset rs + mset ds + mset rest')" for P
    using collect_mset [OF c] by simp
  then show ?case using 3 c by (auto simp: reorder_unfold mset_filter)
qed (simp add: reorder_unfold)

lemma reorder_subset:
  "set (reorder_for_tool_adjacency ms) \<subseteq> set ms"
  "set (reorder_loop ms) \<subseteq> set ms"
proof (induction ms and ms rule: reorder_for_tool_adjacency_reorder_loop.induct)
  case (1 ms)
  then show ?case using set_drop_positions_subset [of "shadowed_placeholder_positions ms" ms]
    by (auto simp: reorder_unfold drop_shadowed_eq)
next
  case (3 m rest)
  obtain rs ds rest' where c: "collect_results (pending_ids m) rest = (rs, ds, rest')"
    by (cases "collect_results (pending_ids m) rest") auto
  have "set rest = set rs \<union> set ds \<union> set rest'"
    using arg_cong [OF collect_mset [OF c], of set_mset] by simp
  moreover have "set (reorder_for_tool_adjacency ds) \<subseteq> set ds" "set (reorder_loop rest') \<subseteq> set rest'"
    if "tool_call_block m" "pending_ids m \<noteq> []"
    using 3 c that by auto
  moreover have "set (reorder_loop rest) \<subseteq> set rest" if "\<not> tool_call_block m \<or> pending_ids m = []"
    using 3 that by auto
  ultimately show ?case using c by (auto simp: reorder_loop.simps)
qed (simp add: reorder_unfold)

end
