(* ===== verification/Settled.thy ===== *)
theory Settled
  imports Tool_Order
begin

text \<open>
  What the reorder of \<open>core/compaction/context.py\<close> achieves.  \<open>settled\<close> is the grammar of
  the transcripts a session produces: every tool call is answered exactly once, and whatever
  was steered into the gap between a call and its last result is settled itself (user
  messages, nested skill/file pairs).  \<open>tight\<close> is the provider order, with the results
  directly behind their call.  The reorder maps the first onto the second.
\<close>

inductive settled :: "llm_message list \<Rightarrow> bool" where
  settled_Nil: "settled []"
| settled_plain:
    "\<not> (tool_call_block m \<and> pending_ids m \<noteq> []) \<Longrightarrow>
     \<not> (role_of m = Tool \<and> tool_call_id m \<noteq> None) \<Longrightarrow> settled rest \<Longrightarrow> settled (m # rest)"
| settled_block:
    "tool_call_block a \<Longrightarrow> [] \<notin> set (pending_ids a) \<Longrightarrow> body \<in> shuffles rs ds \<Longrightarrow>
     \<forall>x \<in> set (rs @ [r]). role_of x = Tool \<Longrightarrow>
     mset (map tool_call_id (rs @ [r])) = mset (map Some (pending_ids a)) \<Longrightarrow>
     \<forall>d \<in> set ds. \<forall>c \<in> set (pending_ids a). \<not> answers c d \<Longrightarrow>
     settled ds \<Longrightarrow> settled rest \<Longrightarrow> settled (a # body @ r # rest)"

inductive tight :: "llm_message list \<Rightarrow> bool" where
  tight_Nil: "tight []"
| tight_plain:
    "\<not> (tool_call_block m \<and> pending_ids m \<noteq> []) \<Longrightarrow>
     \<not> (role_of m = Tool \<and> tool_call_id m \<noteq> None) \<Longrightarrow> tight rest \<Longrightarrow> tight (m # rest)"
| tight_block:
    "tool_call_block a \<Longrightarrow> pending_ids a \<noteq> [] \<Longrightarrow> [] \<notin> set (pending_ids a) \<Longrightarrow>
     \<forall>x \<in> set rs. role_of x = Tool \<Longrightarrow>
     mset (map tool_call_id rs) = mset (map Some (pending_ids a)) \<Longrightarrow>
     tight rest \<Longrightarrow> tight (a # rs @ rest)"

section \<open>No placeholder of a settled transcript is shadowed\<close>

definition segm :: "string \<Rightarrow> llm_message list \<Rightarrow> llm_message list" where
  "segm c ms = filter (answers c) (takeWhile (\<lambda>m. \<not> claims c m) ms)"

definition relevant :: "string \<Rightarrow> llm_message \<Rightarrow> bool" where
  "relevant c m \<longleftrightarrow> claims c m \<or> answers c m"

fun single_owned :: "string \<Rightarrow> llm_message list \<Rightarrow> bool" where
  "single_owned c [] = True"
| "single_owned c (m # ms) =
     ((claims c m \<longrightarrow> length (segm c ms) \<le> 1) \<and> single_owned c ms)"

lemma segm_simps [simp]:
  "segm c [] = []"
  "segm c (m # ms) =
     (if claims c m then [] else if answers c m then m # segm c ms else segm c ms)"
  by (auto simp: segm_def)

lemma segm_append:
  "segm c (xs @ ys) = segm c xs @ (if \<exists>x \<in> set xs. claims c x then [] else segm c ys)"
  by (induction xs) auto

lemma segm_filter: "segm c (filter (relevant c) xs) = segm c xs"
  by (induction xs) (auto simp: relevant_def)

lemma single_filter: "single_owned c (filter (relevant c) xs) = single_owned c xs"
proof (induction xs)
  case (Cons x xs)
  have "\<not> claims c x" if "\<not> relevant c x" using that by (simp add: relevant_def)
  with Cons show ?case by (auto simp: segm_filter)
qed simp

lemma single_append:
  "segm c ys = [] \<Longrightarrow> single_owned c (xs @ ys) \<longleftrightarrow> single_owned c xs \<and> single_owned c ys"
  by (induction xs) (auto simp: segm_append)

lemma segm_le: "length (segm c xs) \<le> length (filter (answers c) xs)"
  by (induction xs) auto

lemma single_few: "length (filter (answers c) xs) \<le> 1 \<Longrightarrow> single_owned c xs"
proof (induction xs)
  case (Cons x xs)
  then show ?case using segm_le [of c xs] by (auto split: if_splits)
qed simp

lemma distinct_pending [simp]: "distinct (pending_ids m)"
  by (simp add: pending_ids_def)

lemma set_pending_call_ids:
  "[] \<notin> set (pending_ids m) \<Longrightarrow> set (call_ids m) = set (pending_ids m)"
proof -
  assume ne: "[] \<notin> set (pending_ids m)"
  have p: "x \<in> set (pending_ids m) \<longleftrightarrow> (\<exists>tc \<in> set (calls_of m). tc_id tc = Some x)" for x
    by (force simp: pending_ids_def)
  have "x \<in> set (call_ids m) \<longleftrightarrow> x \<noteq> [] \<and> (\<exists>tc \<in> set (calls_of m). tc_id tc = Some x)" for x
    by (force simp: call_ids_def truthy_def)
  with p ne show ?thesis by auto
qed

lemma answers_count:
  assumes "\<forall>x \<in> set rs. role_of x = Tool" "mset (map tool_call_id rs) = mset (map Some ps)" "distinct ps"
  shows "length (filter (answers c) rs) = (if c \<in> set ps then 1 else 0)"
proof -
  have "length (filter (answers c) rs) = count (mset (map tool_call_id rs)) (Some c)"
    using assms(1) by (induction rs) (auto simp: answers_def)
  also have "\<dots> = count (mset ps) c"
    unfolding assms(2) by (induction ps) auto
  finally show ?thesis using assms(3) by (simp add: distinct_count_atmost_1 count_mset_0_iff)
qed

lemma shuffle_filter:
  assumes "body \<in> shuffles rs ds" "\<forall>x \<in> set rs. \<not> P x"
  shows "filter P body = filter P ds"
proof -
  have "filter P body \<in> shuffles (filter P rs) (filter P ds)"
    using assms(1) filter_shuffles [of P rs ds] by blast
  moreover have "filter P rs = []" using assms(2) by (simp add: filter_empty_conv)
  ultimately show ?thesis by simp
qed

lemma shuffle_filter_right:
  "body \<in> shuffles rs ds \<Longrightarrow> \<forall>x \<in> set ds. \<not> P x \<Longrightarrow> filter P body = filter P rs"
  using shuffle_filter [of body ds rs P] shuffles_commutes [of rs ds] by metis

lemma settled_gap:
  assumes "tool_call_block a" "[] \<notin> set (pending_ids a)" "body \<in> shuffles rs ds"
    "\<forall>x \<in> set (rs @ [r]). role_of x = Tool"
    "mset (map tool_call_id (rs @ [r])) = mset (map Some (pending_ids a))"
    "\<forall>d \<in> set ds. \<forall>c \<in> set (pending_ids a). \<not> answers c d"
  shows "c \<notin> set (pending_ids a) \<Longrightarrow> filter (relevant c) (body @ [r]) = filter (relevant c) ds"
    and "c \<in> set (pending_ids a) \<Longrightarrow> length (filter (answers c) (body @ [r])) = 1"
    and "claims c a \<longleftrightarrow> c \<in> set (pending_ids a)"
proof -
  show "claims c a \<longleftrightarrow> c \<in> set (pending_ids a)"
    using assms(1) set_pending_call_ids [OF assms(2)] by (simp add: claims_def tool_call_block_def)
  have count: "length (filter (answers c) (rs @ [r])) = (if c \<in> set (pending_ids a) then 1 else 0)"
    by (rule answers_count [OF assms(4,5)]) simp
  show "length (filter (answers c) (body @ [r])) = 1" if "c \<in> set (pending_ids a)"
    using count that shuffle_filter_right [OF assms(3), of "answers c"] assms(6) by simp
  show "filter (relevant c) (body @ [r]) = filter (relevant c) ds" if "c \<notin> set (pending_ids a)"
  proof -
    have "filter (answers c) (rs @ [r]) = []" using count that by simp
    then have no: "\<forall>x \<in> set (rs @ [r]). \<not> relevant c x"
      using assms(4) by (auto simp: relevant_def filter_empty_conv)
    then show ?thesis using shuffle_filter [OF assms(3), of "relevant c"] by simp
  qed
qed

lemma settled_segm: "settled ms \<Longrightarrow> segm c ms = []"
proof (induction rule: settled.induct)
  case (settled_plain m rest)
  then show ?case by (auto simp: answers_def)
next
  case (settled_block a body rs ds r rest)
  note gap = settled_gap [OF settled_block.hyps(1-6)]
  show ?case
  proof (cases "c \<in> set (pending_ids a)")
    case True
    then show ?thesis by (simp add: gap(3))
  next
    case False
    have "segm c (body @ [r]) = []"
      using segm_filter [of c "body @ [r]"] segm_filter [of c ds] gap(1) [OF False] settled_block.IH
      by simp
    then have "segm c ((body @ [r]) @ rest) = []"
      unfolding segm_append using settled_block.IH by simp
    moreover have "\<not> answers c a"
      using settled_block.hyps(1) by (auto simp: answers_def tool_call_block_def)
    ultimately show ?thesis using False by (simp add: gap(3))
  qed
qed simp

lemma settled_single: "settled ms \<Longrightarrow> single_owned c ms"
proof (induction rule: settled.induct)
  case (settled_plain m rest)
  then show ?case by (simp add: settled_segm)
next
  case (settled_block a body rs ds r rest)
  note gap = settled_gap [OF settled_block.hyps(1-6)]
  have rest: "segm c rest = []" using settled_block.hyps by (simp add: settled_segm)
  have "single_owned c (body @ [r])"
  proof (cases "c \<in> set (pending_ids a)")
    case True
    then show ?thesis using gap(2) [OF True] by (intro single_few) simp
  next
    case False
    then show ?thesis using gap(1) [OF False] single_filter settled_block.IH(1) by metis
  qed
  with single_append [OF rest, of "body @ [r]"] settled_block.IH(2)
  have "single_owned c (body @ r # rest)" by simp
  moreover have "length (segm c (body @ r # rest)) \<le> 1" if "claims c a"
  proof -
    have "length (segm c (body @ [r])) \<le> 1"
      using gap(2) that segm_le [of c "body @ [r]"] by (simp add: gap(3))
    then show ?thesis using segm_append [of c "body @ [r]" rest] rest by (auto split: if_splits)
  qed
  ultimately show ?case by simp
qed simp

lemma segment_segm: "map snd (segment c es) = segm c (map snd es)"
  by (induction es) auto

lemma single_group:
  "single_owned c ms \<Longrightarrow> ow < length ms \<Longrightarrow> claims c (ms ! ow) \<Longrightarrow>
     length (segm c (drop (Suc ow) ms)) \<le> 1"
proof (induction ms arbitrary: ow)
  case (Cons m ms)
  then show ?case by (cases ow) auto
qed simp

lemma settled_not_shadowed:
  assumes "settled ms"
  shows "shadowed_placeholder_positions ms = {}"
proof -
  have "length (result_group ms ow c) \<le> 1" for ow c
  proof -
    have "length (result_group ms ow c) = length (map snd (result_group ms ow c))" by simp
    also have "\<dots> = (if ow < length ms \<and> claims c (ms ! ow)
                     then length (segm c (drop (Suc ow) ms)) else 0)"
      by (simp add: result_group_def segment_segm drop_map [symmetric] del: length_map)
    finally show ?thesis using single_group [OF settled_single [OF assms]] by simp
  qed
  then show ?thesis unfolding set_eq_iff shadowed_iff by (metis Suc_1 empty_iff not_less_eq_eq One_nat_def)
qed

lemma settled_drop_id: "settled ms \<Longrightarrow> drop_shadowed_placeholders ms = ms"
  by (simp add: drop_shadowed_eq settled_not_shadowed)

section \<open>The reorder produces the tight order\<close>

lemma mset_eq_singleton_right: "{#x#} = mset xs \<longleftrightarrow> xs = [x]"
  by (metis mset_single_iff_right)

lemma collect_shuffle:
  assumes "body \<in> shuffles rs ds" "\<forall>x \<in> set (rs @ [r]). role_of x = Tool"
    "mset (map tool_call_id (rs @ [r])) = mset (map Some ps)" "distinct ps"
    "\<forall>d \<in> set ds. \<forall>c \<in> set ps. \<not> answers c d"
  shows "collect_results ps (body @ r # rest) = (rs @ [r], ds, rest)"
  using assms
proof (induction body arbitrary: rs ds ps)
  case Nil
  then have "rs = []" "ds = []" by (auto simp: Nil_in_shuffles)
  with Nil have "mset (map Some ps) = {#tool_call_id r#}" by simp
  then have "map Some ps = [tool_call_id r]" by (metis mset_eq_singleton_right)
  then obtain c where "ps = [c]" "tool_call_id r = Some c" by (cases ps) auto
  with Nil \<open>rs = []\<close> \<open>ds = []\<close> show ?case by (cases rest) auto
next
  case (Cons b body)
  have ne: "ps \<noteq> []" using Cons.prems(3) by auto
  from Cons.prems(1) consider
    (res) rs' where "rs = b # rs'" "body \<in> shuffles rs' ds"
    | (disp) ds' where "ds = b # ds'" "body \<in> shuffles rs ds'"
    by (auto simp: Cons_in_shuffles_iff neq_Nil_conv)
  then show ?case
  proof cases
    case res
    have "tool_call_id b \<in># mset (map Some ps)"
      using Cons.prems(3) res by (metis list.simps(9) append_Cons list.set_intros(1) set_mset_mset)
    then obtain c where c: "tool_call_id b = Some c" "c \<in> set ps" by auto
    have perm: "mset ps = add_mset c (mset (removeAll c ps))"
      using c Cons.prems(4) by (simp add: distinct_remove1_removeAll [symmetric])
    have "mset (map Some ps) = add_mset (Some c) (mset (map Some (removeAll c ps)))"
      using arg_cong [OF perm, of "image_mset Some"] by simp
    then have "mset (map tool_call_id (rs' @ [r])) = mset (map Some (removeAll c ps))"
      using Cons.prems(3) res c by simp
    then have "collect_results (removeAll c ps) (body @ r # rest) = (rs' @ [r], ds, rest)"
      using Cons.prems(2,4,5) res by (intro Cons.IH) (auto simp: distinct_removeAll)
    with c ne res Cons.prems(2) show ?thesis by simp
  next
    case disp
    have "collect_results ps (body @ r # rest) = (rs @ [r], ds', rest)"
      using Cons.prems disp by (intro Cons.IH) auto
    moreover have "\<not> (role_of b = Tool \<and> tool_call_id b = Some c \<and> c \<in> set ps)" for c
      using Cons.prems(5) disp by (auto simp: answers_def)
    ultimately show ?thesis using ne disp by (auto split: option.splits)
  qed
qed

lemma tight_append: "tight xs \<Longrightarrow> tight ys \<Longrightarrow> tight (xs @ ys)"
proof (induction rule: tight.induct)
  case (tight_block a rs rest)
  then show ?case using tight.tight_block [of a rs "rest @ ys"] by simp
qed (auto intro: tight.intros)

lemma pending_ne: "mset (map tool_call_id (rs @ [r])) = mset (map Some (pending_ids a)) \<Longrightarrow> pending_ids a \<noteq> []"
  by auto

lemma reorder_settled:
  "settled ms \<Longrightarrow> tight (reorder_for_tool_adjacency ms) \<and>
     reorder_for_tool_adjacency ms = reorder_loop ms"
proof (induction rule: settled.induct)
  case settled_Nil
  then show ?case
    by (auto simp: reorder_unfold settled_drop_id [OF settled.settled_Nil] intro: tight.intros)
next
  case (settled_plain m rest)
  have "drop_shadowed_placeholders (m # rest) = m # rest"
    using settled_plain.hyps by (intro settled_drop_id settled.settled_plain) auto
  with settled_plain show ?case by (auto simp: reorder_unfold intro!: tight.tight_plain)
next
  case (settled_block a body rs ds r rest)
  have d: "drop_shadowed_placeholders (a # body @ r # rest) = a # body @ r # rest"
    using settled_block.hyps by (intro settled_drop_id settled.settled_block)
  have c: "collect_results (pending_ids a) (body @ r # rest) = (rs @ [r], ds, rest)"
    using settled_block.hyps by (intro collect_shuffle) auto
  have eq: "reorder_loop (a # body @ r # rest) =
      a # (rs @ [r]) @ reorder_for_tool_adjacency ds @ reorder_for_tool_adjacency rest"
    using settled_block.hyps(1) pending_ne [OF settled_block.hyps(5)] c settled_block.IH(2)
    by (simp add: reorder_loop.simps)
  have "tight (a # (rs @ [r]) @ reorder_for_tool_adjacency ds @ reorder_for_tool_adjacency rest)"
    using settled_block.hyps pending_ne [OF settled_block.hyps(5)] settled_block.IH
    by (intro tight.tight_block tight_append) auto
  with eq d show ?case by (simp add: reorder_for_tool_adjacency.simps)
qed

lemma tight_settled: "tight ms \<Longrightarrow> settled ms"
proof (induction rule: tight.induct)
  case (tight_block a rs rest)
  have "rs \<noteq> []" using tight_block.hyps by auto
  then obtain rs' r where "rs = rs' @ [r]" by (cases rs rule: rev_cases) auto
  with tight_block settled_block [of a rs' rs' "[]" r rest] show ?case
    by (simp add: settled.settled_Nil)
qed (auto intro: settled.intros)

lemma tight_reorder_loop: "tight ms \<Longrightarrow> reorder_loop ms = ms"
proof (induction rule: tight.induct)
  case (tight_block a rs rest)
  have "rs \<noteq> []" using tight_block.hyps by auto
  then obtain rs' r where rs: "rs = rs' @ [r]" by (cases rs rule: rev_cases) auto
  have "collect_results (pending_ids a) (rs' @ r # rest) = (rs' @ [r], [], rest)"
    using tight_block.hyps rs by (intro collect_shuffle) auto
  moreover have "reorder_for_tool_adjacency [] = []"
    by (simp add: reorder_unfold settled_drop_id [OF settled.settled_Nil])
  ultimately show ?case using tight_block rs by (simp add: reorder_loop.simps)
qed (auto simp: reorder_loop.simps)

lemma tight_reorder_fixed: "tight ms \<Longrightarrow> reorder_for_tool_adjacency ms = ms"
  using reorder_settled [OF tight_settled] tight_reorder_loop by simp

section \<open>The declarative provider contract\<close>

text \<open>
  A transcript is provider-safe when every tool result that carries a call id directly
  follows, across tool messages only, an assistant message with that call, and every call
  is answered in the tool run behind it.
\<close>

definition results_placed :: "llm_message list \<Rightarrow> bool" where
  "results_placed ms \<longleftrightarrow>
     (\<forall>pre m post c. ms = pre @ m # post \<and> answers c m \<longrightarrow>
        (\<exists>pre' a run. pre = pre' @ a # run \<and> claims c a \<and> (\<forall>x \<in> set run. role_of x = Tool)))"

definition calls_answered :: "llm_message list \<Rightarrow> bool" where
  "calls_answered ms \<longleftrightarrow>
     (\<forall>pre a post c. ms = pre @ a # post \<and> claims c a \<longrightarrow>
        (\<exists>x \<in> set (takeWhile (\<lambda>x. role_of x = Tool) post). answers c x))"

definition provider_safe :: "llm_message list \<Rightarrow> bool" where
  "provider_safe ms \<longleftrightarrow> results_placed ms \<and> calls_answered ms"

end
