(* ===== verification/Integrity.thy ===== *)
theory Integrity
  imports Settled
begin

text \<open>
  The transcript validators and the repair of \<open>core/agent_loop/_transcript_integrity.py\<close>:
  duplicate and unclaimed results, the archived prefix, the live tail, the provider order,
  the append boundary, and the report that rides the session metadata.
\<close>

section \<open>Violations and reports\<close>

datatype violation_kind =
  DuplicateToolResult | UnclaimedToolResult | UnresolvedToolCall | MisorderedToolResult
  | TranscriptRepairFailed | UnauthorizedArchivedPrefix
  | OtherKind string \<comment> \<open>a kind parsed from metadata that is none of the literals\<close>

record violation =
  v_kind :: violation_kind
  v_call :: "string option"
  v_detail :: string

record integrity_report =
  repaired :: bool
  dropped_placeholder_call_ids :: "string list"
  violations :: "violation list"

definition clean :: "integrity_report \<Rightarrow> bool" where
  "clean r \<longleftrightarrow> violations r = []"

definition mk_violation :: "violation_kind \<Rightarrow> string option \<Rightarrow> string \<Rightarrow> violation" where
  "mk_violation k c d = \<lparr>v_kind = k, v_call = c, v_detail = d\<rparr>"

lemma mk_violation_sel [simp]:
  "v_kind (mk_violation k c d) = k" "v_call (mk_violation k c d) = c"
  "v_detail (mk_violation k c d) = d"
  by (simp_all add: mk_violation_def)

fun kind_str :: "violation_kind \<Rightarrow> string" where
  "kind_str DuplicateToolResult = ''duplicate_tool_result''"
| "kind_str UnclaimedToolResult = ''unclaimed_tool_result''"
| "kind_str UnresolvedToolCall = ''unresolved_tool_call''"
| "kind_str MisorderedToolResult = ''misordered_tool_result''"
| "kind_str TranscriptRepairFailed = ''transcript_repair_failed''"
| "kind_str UnauthorizedArchivedPrefix = ''unauthorized_archived_prefix''"
| "kind_str (OtherKind s) = s"

text \<open>\<open>TranscriptIntegrityViolation.__str__\<close> and the message of the typed diagnostic.\<close>

definition violation_str :: "violation \<Rightarrow> string" where
  "violation_str v =
     kind_str (v_kind v) @
     (if truthy (v_call v) then '' (tool_call_id='' @ the (v_call v) @ '')'' else []) @
     '': '' @ v_detail v"

fun join :: "string \<Rightarrow> string list \<Rightarrow> string" where
  "join sep [] = []"
| "join sep [x] = x"
| "join sep (x # y # xs) = x @ sep @ join sep (y # xs)"

definition integrity_error_message :: "violation list \<Rightarrow> string \<Rightarrow> string" where
  "integrity_error_message vs ctx =
     (let message = ''Session transcript failed message-order integrity checks: '' @
            join ''; '' (map violation_str vs) @
            ''. The transcript was not modified. Reload (resume) the session to apply the automatic transcript repair, or rewind to before the damage; retrying the same turn would fail the same way.''
      in if ctx \<noteq> [] then ctx @ '': '' @ message else message)"

record integrity_error =
  ie_violations :: "violation list"
  ie_context :: string

definition migration_failed :: "string \<Rightarrow> string \<Rightarrow> integrity_error" where
  "migration_failed path exc =
     \<lparr>ie_violations = [mk_violation TranscriptRepairFailed None
        (''the repaired transcript could not be durably installed at '' @ path @ '': '' @ exc)],
      ie_context = ''transcript repair migration''\<rparr>"

section \<open>The archived prefix\<close>

record archive_authority =
  aa_count :: nat
  aa_boundary :: "string option"
  aa_epoch :: nat

fun sealed_scan :: "nat \<Rightarrow> nat \<Rightarrow> nat \<Rightarrow> llm_message list \<Rightarrow> nat list" where
  "sealed_scan n i sealed [] = []"
| "sealed_scan n i sealed (m # ms) =
     (if role_of m = System then sealed_scan n (Suc i) sealed ms
      else if sealed < n then i # sealed_scan n (Suc i) (Suc sealed) ms
      else sealed_scan n (Suc i) (Suc sealed) ms)"

definition sealed_prefix_indexes :: "llm_message list \<Rightarrow> archive_authority \<Rightarrow> nat list" where
  "sealed_prefix_indexes ms a = sealed_scan (aa_count a) 0 0 ms"

definition archived_marker_indexes :: "llm_message list \<Rightarrow> nat list" where
  "archived_marker_indexes ms = indexes_where (\<lambda>m. archive_ref m \<noteq> None) ms"

definition archive_violation :: "string \<Rightarrow> violation" where
  "archive_violation d = mk_violation UnauthorizedArchivedPrefix None d"

definition archived_prefix_violations ::
  "llm_message list \<Rightarrow> archive_authority option \<Rightarrow> nat list option \<Rightarrow> violation list" where
  "archived_prefix_violations ms authority marker_scan =
     (let marked = (case marker_scan of Some s \<Rightarrow> s | None \<Rightarrow> archived_marker_indexes ms)
      in case authority of
        None \<Rightarrow>
          (if marked \<noteq> []
           then [archive_violation (show_nat (length marked) @
             '' message(s) carry an archive marker but no authorized archived prefix was supplied; a snapshot with archived markers without matching authority fails closed'')]
           else [])
      | Some a \<Rightarrow>
          (let sealed = sealed_prefix_indexes ms a;
               vs = (if marked \<noteq> [] \<and> set marked \<noteq> set sealed
                     then [archive_violation ''the archived markers do not form the authorized contiguous prefix (a slot inside the sealed prefix was mutated, or a marker sits outside it); rejected'']
                     else []);
               non_system = length (filter (\<lambda>m. role_of m \<noteq> System) ms)
           in if non_system > aa_count a
              then (let tail = map snd (filter (\<lambda>e. fst e \<notin> set sealed \<and>
                            context_boundary (snd e) = Some ''compaction'') (enumerate 0 ms))
                    in if tail = []
                       then vs @ [archive_violation ''the live tail no longer carries the compaction boundary that authorized the archived prefix'']
                       else (case aa_boundary a of
                               Some b \<Rightarrow>
                                 (if \<forall>m \<in> set tail. message_id m \<noteq> Some b
                                  then vs @ [archive_violation (''the live tail carries a compaction boundary but not the authorizing one ('' @ py_repr b @ '')'')]
                                  else vs)
                             | None \<Rightarrow> vs))
              else vs))"

section \<open>Duplicate and unclaimed results\<close>

definition result_groups :: "llm_message list \<Rightarrow> owner_groups" where
  "result_groups ms = owner_groups_from 0 ms (\<lambda>_. None) []"

definition find_duplicate_tool_results :: "llm_message list \<Rightarrow> violation list" where
  "find_duplicate_tool_results ms =
     concat (map (\<lambda>((_, c), idxs).
        if length idxs < 2 then []
        else (let genuine = genuine_positions ms idxs
              in if length genuine = 1 then []
                 else [mk_violation DuplicateToolResult (Some c)
                   (show_nat (length idxs) @ '' tool results for one call ('' @
                    show_nat (length genuine) @ '' genuine); the transcript is ambiguous'')]))
      (result_groups ms))"

definition unclaimed_violation :: "string \<Rightarrow> violation" where
  "unclaimed_violation c =
     mk_violation UnclaimedToolResult (Some c) ''tool result matches no assistant tool call''"

fun unclaimed_from :: "string set \<Rightarrow> llm_message list \<Rightarrow> violation list" where
  "unclaimed_from known [] = []"
| "unclaimed_from known (m # ms) =
     (if role_of m = Assistant then unclaimed_from (known \<union> set (call_ids m)) ms
      else if role_of m = Tool
      then (case tool_call_id m of
              None \<Rightarrow> unclaimed_from known ms
            | Some c \<Rightarrow>
                (if c \<notin> known then unclaimed_violation c # unclaimed_from known ms
                 else unclaimed_from known ms))
      else unclaimed_from known ms)"

definition unclaimed_tool_results :: "llm_message list \<Rightarrow> violation list" where
  "unclaimed_tool_results ms = unclaimed_from {} ms"

definition dedupe_shadowed_placeholders :: "llm_message list \<Rightarrow> llm_message list" where
  "dedupe_shadowed_placeholders ms =
     (let drop = shadowed_placeholder_positions ms
      in if drop = {} then ms else drop_positions drop ms)"

text \<open>The first occurrence of each (kind, call, detail) triple is kept, in order.\<close>

fun dedupe_from :: "violation set \<Rightarrow> violation list \<Rightarrow> violation list" where
  "dedupe_from seen [] = []"
| "dedupe_from seen (v # vs) =
     (if v \<in> seen then dedupe_from seen vs else v # dedupe_from (insert v seen) vs)"

definition dedupe_violations :: "violation list \<Rightarrow> violation list" where
  "dedupe_violations vs = dedupe_from {} vs"

lemma set_dedupe_from: "set (dedupe_from seen vs) = set vs - seen"
  by (induction seen vs rule: dedupe_from.induct) auto

lemma set_dedupe_violations [simp]: "set (dedupe_violations vs) = set vs"
  by (simp add: dedupe_violations_def set_dedupe_from)

lemma dedupe_violations_Nil [simp]: "dedupe_violations vs = [] \<longleftrightarrow> vs = []"
  by (metis set_dedupe_violations set_empty)

lemma distinct_dedupe_violations [simp]: "distinct (dedupe_violations vs)"
proof -
  have "distinct (dedupe_from seen vs)" for seen
    by (induction seen vs rule: dedupe_from.induct) (auto simp: set_dedupe_from)
  then show ?thesis by (simp add: dedupe_violations_def)
qed

end
