(* ===== verification/Validators.thy ===== *)
theory Validators
  imports Integrity
begin

text \<open>
  The three validation contracts of \<open>core/agent_loop/_transcript_integrity.py\<close>
  (LIVE-PREFIX, SETTLED-HISTORY, PROVIDER-READY), their composition, the repair, the
  persistence check and the append boundary.
\<close>

section \<open>The live tail\<close>

definition genuine_result :: "llm_message \<Rightarrow> bool" where
  "genuine_result m \<longleftrightarrow>
     role_of m = Tool \<and> truthy (tool_call_id m) \<and> \<not> is_synthetic_tool_placeholder m"

definition genuine_result_call_ids :: "llm_message list \<Rightarrow> string set" where
  "genuine_result_call_ids ms = set (map (\<lambda>m. the (tool_call_id m)) (filter genuine_result ms))"

text \<open>Call ids paired with the identities of the blocks that own a genuine result.\<close>

fun genuine_owners_from :: "(string \<rightharpoonup> nat) \<Rightarrow> llm_message list \<Rightarrow> (string \<times> nat) list" where
  "genuine_owners_from lo [] = []"
| "genuine_owners_from lo (m # ms) =
     (if role_of m = Assistant then genuine_owners_from (set_owners (call_ids m) (ident m) lo) ms
      else if genuine_result m
      then (case lo (the (tool_call_id m)) of
              Some ow \<Rightarrow> (the (tool_call_id m), ow) # genuine_owners_from lo ms
            | None \<Rightarrow> genuine_owners_from lo ms)
      else genuine_owners_from lo ms)"

definition genuine_result_owners :: "llm_message list \<Rightarrow> (string \<times> nat) set" where
  "genuine_result_owners ms = set (genuine_owners_from (\<lambda>_. None) ms)"

text \<open>\<open>gap_scan ms n\<close> scans backward from position \<open>n - 1\<close>.\<close>

fun gap_scan :: "llm_message list \<Rightarrow> nat \<Rightarrow> nat option" where
  "gap_scan ms 0 = None"
| "gap_scan ms (Suc p) =
     (if role_of (ms ! p) = Tool then gap_scan ms p
      else if role_of (ms ! p) = User \<and> \<not> injected (ms ! p) then gap_scan ms p
      else Some p)"

definition nested_in_assistant_gap :: "llm_message list \<Rightarrow> nat \<Rightarrow> bool" where
  "nested_in_assistant_gap ms index =
     (let cand = ms ! index
      in if \<not> tool_call_block cand then False
         else if injection_origin cand \<noteq> Some context_injection_tool_pair_v1 then False
         else if call_ids cand = [] then False
         else (case gap_scan ms index of
                 None \<Rightarrow> False
               | Some p \<Rightarrow>
                   tool_call_block (ms ! p) \<and> set (call_ids cand) \<inter> set (call_ids (ms ! p)) = {}))"

fun live_tail_anchor ::
  "llm_message list \<Rightarrow> (nat \<times> string) set \<Rightarrow> string set \<Rightarrow> nat \<Rightarrow> nat option" where
  "live_tail_anchor ms answered staged 0 = None"
| "live_tail_anchor ms answered staged (Suc i) =
     (let m = ms ! i
      in if role_of m = Tool \<or> injected m then live_tail_anchor ms answered staged i
         else if tool_call_block m
         then (if \<exists>c \<in> set (call_ids m). (i, c) \<notin> answered \<and> c \<notin> staged then Some i
               else if nested_in_assistant_gap ms i then live_tail_anchor ms answered staged i
               else None)
         else if role_of m = User then live_tail_anchor ms answered staged i
         else None)"

definition live_tail_region_identities :: "llm_message list \<Rightarrow> string set \<Rightarrow> nat set" where
  "live_tail_region_identities ms staged =
     (case live_tail_anchor ms (set (map fst (result_groups ms))) staged (length ms) of
        None \<Rightarrow> {}
      | Some anchor \<Rightarrow> set (map ident (filter tool_call_block (drop anchor ms))))"

record live_tail_exemption =
  ex_genuine_ids :: "string set"
  ex_genuine_owners :: "(string \<times> nat) set"
  ex_unclaimed :: "string set"
  ex_region :: "nat set"

definition live_tail_exempt_call ::
  "live_tail_exemption \<Rightarrow> string \<Rightarrow> nat option \<Rightarrow> bool" where
  "live_tail_exempt_call ex c owner =
     (if c \<notin> ex_genuine_ids ex then True
      else case owner of
        None \<Rightarrow> False
      | Some ow \<Rightarrow>
          (if ow \<notin> ex_region ex then False
           else if (c, ow) \<in> ex_genuine_owners ex then False
           else if c \<in> ex_unclaimed ex then False
           else True))"

section \<open>PROVIDER-READY\<close>

definition unanswered_detail :: "bool \<Rightarrow> string" where
  "unanswered_detail exempting =
     (if exempting
      then ''assistant tool call is left unanswered in the provider-bound order although the transcript records a result for it''
      else ''assistant tool call is left unanswered in the provider-bound order'')"

definition unanswered_tool_call_violations ::
  "string list option \<Rightarrow> string set \<Rightarrow> bool \<Rightarrow> string set \<Rightarrow> live_tail_exemption option \<Rightarrow>
     nat option \<Rightarrow> violation list" where
  "unanswered_tool_call_violations open_calls answered exempting staged ex owner =
     (case open_calls of
        None \<Rightarrow> []
      | Some ids \<Rightarrow>
          map (\<lambda>c. mk_violation UnresolvedToolCall (Some c) (unanswered_detail exempting))
            (filter (\<lambda>c. \<not> (exempting \<and> (case ex of None \<Rightarrow> False
                                 | Some e \<Rightarrow> live_tail_exempt_call e c owner)))
              (sort (filter (\<lambda>c. c \<notin> answered \<and> c \<notin> staged) ids))))"

definition misordered_violation :: "string \<Rightarrow> violation" where
  "misordered_violation c = mk_violation MisorderedToolResult (Some c)
     ''tool result has no open owning assistant call in the provider-bound order''"

text \<open>The single pass over the projected order; the exemption's unclaimed set is threaded.\<close>

fun provider_scan ::
  "bool \<Rightarrow> string set \<Rightarrow> live_tail_exemption \<Rightarrow> string list option \<Rightarrow> string set \<Rightarrow> nat option \<Rightarrow>
     llm_message list \<Rightarrow> violation list" where
  "provider_scan exempting staged ex open_calls answered owner [] =
     unanswered_tool_call_violations open_calls answered exempting staged (Some ex) owner"
| "provider_scan exempting staged ex open_calls answered owner (m # ms) =
     (if tool_call_block m
      then unanswered_tool_call_violations open_calls answered exempting staged (Some ex) owner @
           provider_scan exempting staged ex (Some (call_ids m)) {} (Some (ident m)) ms
      else if role_of m = Tool
      then (case tool_call_id m of
              None \<Rightarrow> provider_scan exempting staged ex open_calls answered owner ms
            | Some c \<Rightarrow>
                (if open_calls = None \<or> c \<notin> set (the open_calls)
                 then misordered_violation c #
                      provider_scan exempting staged
                        (if is_synthetic_tool_placeholder m then ex
                         else ex\<lparr>ex_unclaimed := insert c (ex_unclaimed ex)\<rparr>)
                        open_calls answered owner ms
                 else provider_scan exempting staged ex open_calls (insert c answered) owner ms))
      else unanswered_tool_call_violations open_calls answered exempting staged (Some ex) owner @
           provider_scan exempting staged ex None {} None ms)"

definition validate_provider_ready ::
  "llm_message list \<Rightarrow> bool \<Rightarrow> string set \<Rightarrow> archive_authority option \<Rightarrow> nat list option \<Rightarrow>
     violation list" where
  "validate_provider_ready ms exempting staged archived marker_scan =
     (let projected = reorder_for_tool_adjacency (dedupe_shadowed_placeholders ms);
          ex = \<lparr>ex_genuine_ids = genuine_result_call_ids ms,
                ex_genuine_owners = genuine_result_owners ms,
                ex_unclaimed = {},
                ex_region = live_tail_region_identities ms staged\<rparr>;
          scan = (case marker_scan of Some s \<Rightarrow> s | None \<Rightarrow> archived_marker_indexes ms)
      in archived_prefix_violations ms archived (Some scan) @
         provider_scan exempting staged ex None {} None projected)"

section \<open>SETTLED-HISTORY, LIVE-PREFIX and the composite check\<close>

definition unresolved_settled :: "llm_message list \<Rightarrow> string set \<Rightarrow> violation list" where
  "unresolved_settled ms staged =
     (let answered = set (map fst (result_groups ms))
      in concat (map (\<lambda>(i, m).
           if \<not> tool_call_block m then []
           else map (\<lambda>c. mk_violation UnresolvedToolCall (Some c)
                          ''settled assistant tool call has no tool result'')
                  (filter (\<lambda>c. \<not> ((i, c) \<in> answered \<or> c \<in> staged)) (call_ids m)))
         (enumerate 0 ms)))"

definition validate_settled_history ::
  "llm_message list \<Rightarrow> string set \<Rightarrow> archive_authority option \<Rightarrow> nat list option \<Rightarrow>
     violation list" where
  "validate_settled_history ms staged archived marker_scan =
     (let scan = (case marker_scan of Some s \<Rightarrow> s | None \<Rightarrow> archived_marker_indexes ms)
      in dedupe_violations
           (archived_prefix_violations ms archived (Some scan) @
            find_duplicate_tool_results ms @ unclaimed_tool_results ms @
            unresolved_settled ms staged))"

definition validate_live_prefix ::
  "llm_message list \<Rightarrow> string set \<Rightarrow> archive_authority option \<Rightarrow> nat list option \<Rightarrow>
     violation list" where
  "validate_live_prefix ms staged archived marker_scan =
     (let scan = (case marker_scan of Some s \<Rightarrow> s | None \<Rightarrow> archived_marker_indexes ms)
      in dedupe_violations
           (archived_prefix_violations ms archived (Some scan) @
            find_duplicate_tool_results ms @ unclaimed_tool_results ms))"

definition validate_transcript ::
  "llm_message list \<Rightarrow> string set \<Rightarrow> bool \<Rightarrow> archive_authority option \<Rightarrow> nat list option \<Rightarrow>
     violation list" where
  "validate_transcript ms staged exempting archived marker_scan =
     (let scan = (case marker_scan of Some s \<Rightarrow> s | None \<Rightarrow> archived_marker_indexes ms)
      in dedupe_violations
           (validate_live_prefix ms staged archived (Some scan) @
            (if \<not> exempting then validate_settled_history ms staged archived (Some scan) else []) @
            validate_provider_ready ms exempting staged archived (Some scan)))"

section \<open>Repair, persistence and the append boundary\<close>

definition repair_transcript :: "llm_message list \<Rightarrow> llm_message list \<times> integrity_report" where
  "repair_transcript ms =
     (let drop = shadowed_placeholder_positions ms;
          deduped = (if drop = {} then ms else drop_positions drop ms);
          vs = validate_transcript ms {} True None None;
          dropped = remdups (map (\<lambda>p. the (tool_call_id (ms ! p)))
                      (filter (\<lambda>p. p \<in> drop \<and> tool_call_id (ms ! p) \<noteq> None) [0..<length ms]))
      in (deduped,
          \<lparr>repaired = (drop \<noteq> {}), dropped_placeholder_call_ids = sort dropped,
           violations = vs\<rparr>))"

definition persistence_duplicates :: "llm_message list \<Rightarrow> violation list" where
  "persistence_duplicates ms =
     concat (map (\<lambda>((_, c), idxs).
        if length idxs < 2 then []
        else [mk_violation DuplicateToolResult (Some c)
               (show_nat (length idxs) @
                '' tool results for one call; the persistence boundary never writes a duplicate'')])
      (result_groups ms))"

definition find_persistence_violations ::
  "llm_message list \<Rightarrow> archive_authority option \<Rightarrow> violation list" where
  "find_persistence_violations ms archived =
     (let scan = archived_marker_indexes ms
      in dedupe_violations
           (archived_prefix_violations ms archived (Some scan) @
            persistence_duplicates ms @
            validate_transcript ms {} True archived (Some scan)))"

definition append_error :: "violation_kind \<Rightarrow> string option \<Rightarrow> string \<Rightarrow> integrity_error" where
  "append_error k c d =
     \<lparr>ie_violations = [mk_violation k c d], ie_context = ''transcript append boundary''\<rparr>"

definition check_tool_message_admission ::
  "llm_message list \<Rightarrow> nat \<Rightarrow> llm_message \<Rightarrow> archive_authority option \<Rightarrow> integrity_error option" where
  "check_tool_message_admission ms index m archived =
     (if (case archived of None \<Rightarrow> False
          | Some a \<Rightarrow> index < length ms \<and>
              length (filter (\<lambda>x. role_of x \<noteq> System) (take index ms)) < aa_count a)
      then Some (append_error UnauthorizedArchivedPrefix (tool_call_id m)
             (''admission point '' @ show_nat index @ '' lies inside the sealed archived prefix ('' @
              show_nat (aa_count (the archived)) @
              '' sealed records); mutations inside the sealed prefix are rejected''))
      else if role_of m \<noteq> Tool \<or> \<not> truthy (tool_call_id m) then None
      else (let c = the (tool_call_id m);
                owner = owner_before ms index c;
                existing = map snd (filter (\<lambda>(p, s). p < index \<and> answers c s \<and>
                              owner_before ms p c = owner) (enumerate 0 ms));
                genuine_incoming = has_structured_tool_result m
            in if existing \<noteq> []
               then (let genuine_existing = (\<exists>e \<in> set existing. \<not> is_synthetic_tool_placeholder e)
                     in if genuine_incoming \<and> genuine_existing
                        then Some (append_error DuplicateToolResult (Some c)
                               ''appending a second genuine tool result'')
                        else if \<not> genuine_incoming \<and> genuine_existing
                        then Some (append_error DuplicateToolResult (Some c)
                               ''appending a synthetic placeholder over a genuine result'')
                        else if \<not> genuine_incoming \<and> \<not> genuine_existing
                        then Some (append_error DuplicateToolResult (Some c)
                               ''appending a duplicate synthetic placeholder'')
                        else None)
               else if owner = None
               then (if index > 0 \<and> role_of (ms ! (index - 1)) = User
                     then Some (append_error MisorderedToolResult (Some c)
                            ''appending a tool result after a user message with no owning assistant call before it'')
                     else None)
               else None))"

end
