(* ===== verification/Provider_Ready.thy ===== *)
theory Provider_Ready
  imports Validators
begin

text \<open>
  The strict PROVIDER-READY pass decides the declarative contract \<open>provider_safe\<close>, and every
  tight transcript satisfies it.
\<close>

section \<open>The contract by recursion on the transcript\<close>

fun placed_rec :: "(string \<Rightarrow> bool) \<Rightarrow> llm_message list \<Rightarrow> bool" where
  "placed_rec op [] = True"
| "placed_rec op (m # ms) =
     (if role_of m = Tool then (\<forall>c. answers c m \<longrightarrow> op c) \<and> placed_rec op ms
      else placed_rec (\<lambda>c. claims c m) ms)"

fun answered_rec :: "llm_message list \<Rightarrow> bool" where
  "answered_rec [] = True"
| "answered_rec (m # ms) =
     ((\<forall>c. claims c m \<longrightarrow> (\<exists>x \<in> set (takeWhile (\<lambda>x. role_of x = Tool) ms). answers c x)) \<and>
      answered_rec ms)"

definition placed_behind :: "(string \<Rightarrow> bool) \<Rightarrow> llm_message list \<Rightarrow> string \<Rightarrow> bool" where
  "placed_behind op pre c \<longleftrightarrow>
     (\<forall>x \<in> set pre. role_of x = Tool) \<and> op c \<or>
     (\<exists>pre' a run. pre = pre' @ a # run \<and> claims c a \<and> (\<forall>x \<in> set run. role_of x = Tool))"

lemma placed_behind_Cons:
  "placed_behind op (m # pre) c \<longleftrightarrow>
     (if role_of m = Tool then placed_behind op pre c else placed_behind (\<lambda>c. claims c m) pre c)"
proof -
  have "(\<exists>pre' a run. m # pre = pre' @ a # run \<and> claims c a \<and> (\<forall>x \<in> set run. role_of x = Tool)) \<longleftrightarrow>
        (claims c m \<and> (\<forall>x \<in> set pre. role_of x = Tool)) \<or>
        (\<exists>pre' a run. pre = pre' @ a # run \<and> claims c a \<and> (\<forall>x \<in> set run. role_of x = Tool))"
    unfolding Cons_eq_append_conv by blast
  then show ?thesis by (auto simp: placed_behind_def)
qed

lemma placed_rec_iff:
  "placed_rec op ms \<longleftrightarrow>
     (\<forall>pre m post c. ms = pre @ m # post \<and> answers c m \<longrightarrow> placed_behind op pre c)"
proof (induction ms arbitrary: op)
  case (Cons x ms)
  have "(\<forall>pre m post c. x # ms = pre @ m # post \<and> answers c m \<longrightarrow> placed_behind op pre c) \<longleftrightarrow>
        (\<forall>c. answers c x \<longrightarrow> placed_behind op [] c) \<and>
        (\<forall>pre m post c. ms = pre @ m # post \<and> answers c m \<longrightarrow> placed_behind op (x # pre) c)"
    unfolding Cons_eq_append_conv by blast
  also have "\<dots> \<longleftrightarrow> placed_rec op (x # ms)"
    using Cons.IH [of op] Cons.IH [of "\<lambda>c. claims c x"]
    by (auto simp: placed_behind_Cons) (auto simp: placed_behind_def answers_def)
  finally show ?case by blast
qed simp

lemma answered_rec_iff: "answered_rec ms \<longleftrightarrow> calls_answered ms"
proof (induction ms)
  case (Cons x ms)
  have "calls_answered (x # ms) \<longleftrightarrow>
      (\<forall>c. claims c x \<longrightarrow> (\<exists>y \<in> set (takeWhile (\<lambda>x. role_of x = Tool) ms). answers c y)) \<and>
      calls_answered ms"
    unfolding calls_answered_def Cons_eq_append_conv by blast
  with Cons show ?case by simp
qed (simp add: calls_answered_def)

lemma provider_safe_rec: "provider_safe ms \<longleftrightarrow> placed_rec (\<lambda>_. False) ms \<and> answered_rec ms"
  by (simp add: provider_safe_def placed_rec_iff answered_rec_iff results_placed_def placed_behind_def)

section \<open>The scan\<close>

lemma unanswered_strict_Nil:
  "unanswered_tool_call_violations op ans False {} ex ow = [] \<longleftrightarrow>
     (\<forall>ids. op = Some ids \<longrightarrow> set ids \<subseteq> ans)"
  by (auto simp: unanswered_tool_call_violations_def filter_empty_conv sort_Nil_iff
      split: option.splits)

definition ids_of :: "string list option \<Rightarrow> string list" where
  "ids_of op = (case op of None \<Rightarrow> [] | Some ids \<Rightarrow> ids)"

lemma provider_scan_strict:
  "provider_scan False {} ex op ans ow ms = [] \<longleftrightarrow>
     placed_rec (\<lambda>c. c \<in> set (ids_of op)) ms \<and> answered_rec ms \<and>
     (\<forall>c \<in> set (ids_of op). c \<in> ans \<or> (\<exists>x \<in> set (takeWhile (\<lambda>x. role_of x = Tool) ms). answers c x))"
proof (induction ms arbitrary: ex op ans ow)
  case Nil
  then show ?case by (cases op) (auto simp: unanswered_strict_Nil ids_of_def)
next
  case (Cons m ms)
  consider (block) "tool_call_block m" | (tool) "role_of m = Tool" "\<not> tool_call_block m"
    | (other) "\<not> tool_call_block m" "role_of m \<noteq> Tool" by blast
  then show ?case
  proof cases
    case block
    have cl: "claims c m \<longleftrightarrow> c \<in> set (call_ids m)" for c
      using block by (simp add: claims_def tool_call_block_def)
    have nt: "role_of m \<noteq> Tool" using block by (simp add: tool_call_block_def)
    show ?thesis using block nt Cons.IH [of ex "Some (call_ids m)" "{}" "Some (ident m)"]
      by (cases op) (auto simp: unanswered_strict_Nil ids_of_def cl)
  next
    case tool
    show ?thesis
    proof (cases "tool_call_id m")
      case None
      then have "\<not> answers c m" for c by (simp add: answers_def)
      with None tool Cons.IH [of ex op ans ow] show ?thesis by auto
    next
      case (Some c)
      then have ans: "answers d m \<longleftrightarrow> d = c" for d using tool by (auto simp: answers_def)
      show ?thesis
      proof (cases "c \<in> set (ids_of op)")
        case True
        then have "\<not> (op = None \<or> c \<notin> set (the op))" by (cases op) (auto simp: ids_of_def)
        with Some tool True ans Cons.IH [of ex op "insert c ans" ow] show ?thesis by auto
      next
        case False
        then have "op = None \<or> c \<notin> set (the op)" by (cases op) (auto simp: ids_of_def)
        with Some tool False ans show ?thesis by auto
      qed
    qed
  next
    case other
    have "\<not> claims c m" for c using other claims_block by blast
    with other Cons.IH [of ex None "{}" None] show ?thesis
      by (cases op) (auto simp: unanswered_strict_Nil ids_of_def)
  qed
qed

lemma provider_scan_iff: "provider_scan False {} ex None {} None ms = [] \<longleftrightarrow> provider_safe ms"
  by (simp add: provider_scan_strict provider_safe_rec ids_of_def)

section \<open>Tight transcripts are provider-safe\<close>

lemma placed_rec_tools:
  "\<forall>x \<in> set rs. role_of x = Tool \<Longrightarrow>
     placed_rec op (rs @ ms) \<longleftrightarrow> (\<forall>x \<in> set rs. \<forall>c. answers c x \<longrightarrow> op c) \<and> placed_rec op ms"
  by (induction rs) auto

lemma answered_rec_tools:
  "\<forall>x \<in> set rs. role_of x = Tool \<Longrightarrow> answered_rec (rs @ ms) \<longleftrightarrow> answered_rec ms"
  by (induction rs) auto

lemma tight_placed: "tight ms \<Longrightarrow> placed_rec op ms \<and> answered_rec ms"
proof (induction arbitrary: op rule: tight.induct)
  case (tight_plain m rest)
  have "\<not> claims c m" for c
  proof
    assume c: "claims c m"
    then have "pending_ids m = []" using claims_block tight_plain.hyps(1) by blast
    with c set_pending_call_ids [of m] show False by (simp add: claims_def)
  qed
  moreover have "\<not> answers c m" for c using tight_plain.hyps(2) by (auto simp: answers_def)
  ultimately show ?case using tight_plain.IH by auto
next
  case (tight_block a rs rest)
  have nt: "role_of a \<noteq> Tool" using tight_block.hyps(1) by (simp add: tool_call_block_def)
  have cl: "claims c a \<longleftrightarrow> c \<in> set (pending_ids a)" for c
    using tight_block.hyps(1) set_pending_call_ids [OF tight_block.hyps(3)]
    by (simp add: claims_def tool_call_block_def)
  have ids: "tool_call_id ` set rs = Some ` set (pending_ids a)"
    using arg_cong [OF tight_block.hyps(5), of set_mset] by simp
  have placed: "claims c a" if "x \<in> set rs" "answers c x" for x c
    using that ids unfolding cl by (force simp: answers_def)
  have answered: "\<exists>x \<in> set rs. answers c x" if "claims c a" for c
  proof -
    have "Some c \<in> tool_call_id ` set rs" using that ids by (simp add: cl)
    with tight_block.hyps(4) show ?thesis by (force simp: answers_def)
  qed
  show ?case
    using nt placed answered tight_block.IH tight_block.hyps(4)
    by (auto simp: placed_rec_tools answered_rec_tools bex_Un)
qed simp

lemma tight_provider_safe: "tight ms \<Longrightarrow> provider_safe ms"
  by (simp add: provider_safe_rec tight_placed)

section \<open>Properties of the order check\<close>

lemma dedupe_is_drop [simp]: "dedupe_shadowed_placeholders ms = drop_shadowed_placeholders ms"
  by (simp add: dedupe_shadowed_placeholders_def drop_shadowed_placeholders_def)

lemma reorder_drop [simp]:
  "reorder_for_tool_adjacency (drop_shadowed_placeholders ms) = reorder_for_tool_adjacency ms"
  by (simp add: reorder_for_tool_adjacency.simps)

lemma no_authority_Nil:
  "archived_prefix_violations ms None (Some (archived_marker_indexes ms)) = [] \<longleftrightarrow>
     (\<forall>m \<in> set ms. archive_ref m = None)"
proof -
  have "archived_marker_indexes ms = [] \<longleftrightarrow> (\<forall>m \<in> set ms. archive_ref m = None)"
    unfolding all_set_conv_all_nth
    by (auto simp: archived_marker_indexes_def indexes_where_def filter_empty_conv)
  then show ?thesis by (simp add: archived_prefix_violations_def)
qed

text \<open>
  C1. Request build moves messages and drops placeholders, but never loses or invents a
  genuine message: every message that is not a synthetic placeholder is in the reordered
  transcript exactly as often as before, and nothing else is.
\<close>

theorem reorder_conserves_genuine:
  "filter_mset (\<lambda>m. \<not> is_synthetic_tool_placeholder m) (mset (reorder_for_tool_adjacency ms)) =
     filter_mset (\<lambda>m. \<not> is_synthetic_tool_placeholder m) (mset ms) \<and>
   set (reorder_for_tool_adjacency ms) \<subseteq> set ms"
  using reorder_genuine_mset(1) [of ms] reorder_subset(1) [of ms] by (simp flip: mset_filter)

text \<open>
  C2. The strict PROVIDER-READY check is exact: on a transcript without archive markers it
  reports nothing if and only if the order request build emits satisfies the declarative
  provider contract (every result in the open run of its call, every call answered there).
\<close>

theorem provider_ready_strict_iff:
  "validate_provider_ready ms False {} None None = [] \<longleftrightarrow>
     list_all (\<lambda>m. archive_ref m = None) ms \<and> provider_safe (reorder_for_tool_adjacency ms)"
  by (simp add: validate_provider_ready_def Let_def no_authority_Nil provider_scan_iff list_all_iff)

text \<open>
  Steering never breaks the order for good: if the transcript, once its shadowed
  placeholders are dropped, answers every call once with whatever was steered into the gaps
  settled itself, then the reordered transcript is provider-safe and a second reorder
  changes nothing.
\<close>

theorem reorder_settled_provider_safe:
  assumes "settled (drop_shadowed_placeholders ms)"
  shows "provider_safe (reorder_for_tool_adjacency ms) \<and>
     reorder_for_tool_adjacency (reorder_for_tool_adjacency ms) = reorder_for_tool_adjacency ms"
proof -
  have "tight (reorder_for_tool_adjacency ms)" using conjunct1 [OF reorder_settled [OF assms]] by simp
  then show ?thesis using tight_provider_safe tight_reorder_fixed by blast
qed

text \<open>The production shape: placeholder in front, steered user message, genuine result behind.\<close>

definition plain_message :: "nat \<Rightarrow> role \<Rightarrow> llm_message" where
  "plain_message i r =
     \<lparr>ident = i, role_of = r, content = None, injected = False, tool_calls = None,
      tool_call_id = None, tool_result = None, message_id = None, context_boundary = None,
      injection_origin = None, archive_ref = None\<rparr>"

definition call_message :: "nat \<Rightarrow> string list \<Rightarrow> llm_message" where
  "call_message i cs =
     (plain_message i Assistant)\<lparr>tool_calls := Some (map (\<lambda>c. \<lparr>tc_id = Some c\<rparr>) cs)\<rparr>"

definition result_message :: "nat \<Rightarrow> string \<Rightarrow> llm_message" where
  "result_message i c =
     (plain_message i Tool)\<lparr>tool_call_id := Some c, tool_result := Some 0\<rparr>"

definition placeholder_message :: "nat \<Rightarrow> string \<Rightarrow> llm_message" where
  "placeholder_message i c =
     (plain_message i Tool)\<lparr>tool_call_id := Some c, content := Some tool_no_response_text\<rparr>"

definition poisoned :: "llm_message list" where
  "poisoned = [call_message 0 [''c1''], placeholder_message 1 ''c1'', plain_message 2 User,
               result_message 3 ''c1'']"

lemma poisoned_drop:
  "drop_shadowed_placeholders poisoned =
     [call_message 0 [''c1''], plain_message 2 User, result_message 3 ''c1'']"
  by code_simp

lemma poisoned_settled: "settled (drop_shadowed_placeholders poisoned)"
proof -
  have "settled ([call_message 0 [''c1'']] @ [plain_message 2 User] @ [result_message 3 ''c1''])"
    using settled_block [of "call_message 0 [''c1'']" "[plain_message 2 User]" "[]"
        "[plain_message 2 User]" "result_message 3 ''c1''" "[]"]
      settled_plain [of "plain_message 2 User" "[]"] settled_Nil
    by (auto simp: call_message_def plain_message_def result_message_def pending_ids_def
        calls_of_def tool_call_block_def has_tool_calls_def answers_def)
  then show ?thesis by (simp add: poisoned_drop)
qed

theorem reorder_settled_provider_safe_witness:
  "provider_safe (reorder_for_tool_adjacency poisoned) \<and>
   reorder_for_tool_adjacency (reorder_for_tool_adjacency poisoned) =
     reorder_for_tool_adjacency poisoned"
  by (rule reorder_settled_provider_safe [OF poisoned_settled])

text \<open>
  The load-time repair is a projection: it drops only synthetic placeholders (every
  other message keeps its place), and repairing a repaired transcript is an exact no-op that
  reports no repair.
\<close>

theorem repair_transcript_idempotent:
  "filter (\<lambda>m. \<not> is_synthetic_tool_placeholder m) (fst (repair_transcript ms)) =
     filter (\<lambda>m. \<not> is_synthetic_tool_placeholder m) ms \<and>
   fst (repair_transcript (fst (repair_transcript ms))) = fst (repair_transcript ms) \<and>
   \<not> repaired (snd (repair_transcript (fst (repair_transcript ms))))"
proof -
  have "fst (repair_transcript ms) = drop_shadowed_placeholders ms" for ms
    by (simp add: repair_transcript_def Let_def drop_shadowed_placeholders_def)
  then show ?thesis
    by (simp add: drop_shadowed_keeps_genuine repair_transcript_def Let_def shadowed_after_drop)
qed

end
