(* ===== verification/Message_List.thy ===== *)
theory Message_List
  imports Validators
begin

text \<open>
  The live message list of \<open>core/message_list.py\<close> with its archive ownership, the archive
  descriptor of \<open>core/session/transcript_archive.py\<close>, and the authority a live list mints
  for the validators (\<open>live_archive_authority\<close>).  The reset hooks are represented by the
  number registered and the number of calls made; what a hook does is the rewind manager's.
\<close>

section \<open>The archive descriptor\<close>

datatype trim_mode = Payloads | Tombstones

record archived_prefix =
  ap_session_id :: string
  ap_epoch :: int
  ap_count :: int
  ap_end_byte :: int
  ap_sha256 :: string
  ap_boundary :: "string option"
  ap_trim :: trim_mode

datatype descriptor_error =
  BadSessionId | BadEpoch | BadCount | BadEndByte | EndByteZero | EndByteNonzero
  | BadSha | BadBoundary

definition hex_digits :: string where
  "hex_digits = ''0123456789abcdef''"

text \<open>\<open>ArchivedPrefixV1.__post_init__\<close>, over field values of the declared types.\<close>

definition post_init :: "archived_prefix \<Rightarrow> descriptor_error + archived_prefix" where
  "post_init d =
     (if ap_session_id d = [] then Inl BadSessionId
      else if ap_epoch d < 0 then Inl BadEpoch
      else if ap_count d < 0 then Inl BadCount
      else if ap_end_byte d < 0 then Inl BadEndByte
      else if ap_count d > 0 \<and> ap_end_byte d = 0 then Inl EndByteZero
      else if ap_count d = 0 \<and> ap_end_byte d \<noteq> 0 then Inl EndByteNonzero
      else if length (ap_sha256 d) \<noteq> 64 \<or> (\<exists>c \<in> set (ap_sha256 d). c \<notin> set hex_digits)
      then Inl BadSha
      else if ap_boundary d = Some [] then Inl BadBoundary
      else Inr d)"

section \<open>The list\<close>

record message_list =
  ml_data :: "llm_message list"
  ml_hooks :: nat
  ml_hook_calls :: nat
  ml_epoch :: int
  ml_descriptor :: "archived_prefix option"

datatype list_error =
  EpochMismatch int int | ArchivesTooMany int nat | WrongReplacementCount nat int | IndexError

definition new_message_list :: "llm_message list option \<Rightarrow> message_list" where
  "new_message_list initial =
     \<lparr>ml_data = (case initial of None \<Rightarrow> [] | Some xs \<Rightarrow> xs), ml_hooks = 0, ml_hook_calls = 0,
      ml_epoch = 0, ml_descriptor = None\<rparr>"

definition set_archive_descriptor ::
  "archived_prefix \<Rightarrow> message_list \<Rightarrow> list_error + message_list" where
  "set_archive_descriptor d l =
     (if ap_epoch d \<noteq> ml_epoch l then Inl (EpochMismatch (ap_epoch d) (ml_epoch l))
      else Inr (l\<lparr>ml_descriptor := Some d\<rparr>))"

definition clear_archive_descriptor :: "message_list \<Rightarrow> message_list" where
  "clear_archive_descriptor l = l\<lparr>ml_descriptor := None\<rparr>"

fun put_slots :: "(nat \<times> llm_message) list \<Rightarrow> llm_message list \<Rightarrow> llm_message list" where
  "put_slots [] xs = xs"
| "put_slots ((i, m) # ps) xs = put_slots ps (xs[i := m])"

definition non_system_indexes :: "llm_message list \<Rightarrow> nat list" where
  "non_system_indexes ms = indexes_where (\<lambda>m. role_of m \<noteq> System) ms"

definition publish_archive_trim ::
  "archived_prefix \<Rightarrow> llm_message list \<Rightarrow> message_list \<Rightarrow> list_error + message_list" where
  "publish_archive_trim d replacements l =
     (if ap_epoch d \<noteq> ml_epoch l then Inl (EpochMismatch (ap_epoch d) (ml_epoch l))
      else let slots = non_system_indexes (ml_data l)
      in if ap_count d > int (length slots) then Inl (ArchivesTooMany (ap_count d) (length slots))
      else if int (length replacements) \<noteq> ap_count d
      then Inl (WrongReplacementCount (length replacements) (ap_count d))
      else Inr (l\<lparr>ml_data := put_slots (zip (take (nat (ap_count d)) slots) replacements) (ml_data l),
                  ml_descriptor := Some d\<rparr>))"

definition list_append :: "llm_message \<Rightarrow> message_list \<Rightarrow> message_list" where
  "list_append m l = l\<lparr>ml_data := ml_data l @ [m]\<rparr>"

text \<open>Python's \<open>list.insert\<close> clamps the index; item assignment raises out of range.\<close>

definition py_insert_index :: "nat \<Rightarrow> int \<Rightarrow> nat" where
  "py_insert_index n i =
     (if i < 0 then nat (max 0 (int n + i)) else nat (min (int n) i))"

definition list_insert :: "int \<Rightarrow> llm_message \<Rightarrow> message_list \<Rightarrow> message_list" where
  "list_insert i m l =
     (let k = py_insert_index (length (ml_data l)) i
      in l\<lparr>ml_data := take k (ml_data l) @ m # drop k (ml_data l)\<rparr>)"

definition py_index :: "nat \<Rightarrow> int \<Rightarrow> nat option" where
  "py_index n i =
     (let j = (if i < 0 then int n + i else i)
      in if 0 \<le> j \<and> j < int n then Some (nat j) else None)"

definition list_replace :: "int \<Rightarrow> llm_message \<Rightarrow> message_list \<Rightarrow> list_error + message_list" where
  "list_replace i m l =
     (case py_index (length (ml_data l)) i of
        None \<Rightarrow> Inl IndexError
      | Some k \<Rightarrow> Inr (l\<lparr>ml_data := (ml_data l)[k := m]\<rparr>))"

fun list_extend :: "llm_message list \<Rightarrow> message_list \<Rightarrow> message_list" where
  "list_extend [] l = l"
| "list_extend (m # ms) l = list_extend ms (list_append m l)"

definition on_reset :: "message_list \<Rightarrow> message_list" where
  "on_reset l = l\<lparr>ml_hooks := ml_hooks l + 1\<rparr>"

definition rebind :: "llm_message list \<Rightarrow> message_list \<Rightarrow> message_list" where
  "rebind ms l = l\<lparr>ml_data := ms, ml_epoch := ml_epoch l + 1, ml_descriptor := None,
                   ml_hook_calls := ml_hook_calls l + ml_hooks l\<rparr>"

definition list_reset :: "llm_message list \<Rightarrow> message_list \<Rightarrow> message_list" where
  "list_reset new l = rebind new l"

definition reset_preserving_system :: "llm_message list \<Rightarrow> message_list \<Rightarrow> message_list" where
  "reset_preserving_system tail l =
     rebind (filter (\<lambda>m. role_of m = System) (ml_data l) @ tail) l"

text \<open>The new system message is a fresh object \<open>msg\<close> with role \<open>System\<close>.\<close>

definition update_system_prompt :: "llm_message \<Rightarrow> message_list \<Rightarrow> message_list" where
  "update_system_prompt msg l =
     (case ml_data l of
        m # ms \<Rightarrow> (if role_of m = System then l\<lparr>ml_data := msg # ms\<rparr>
                   else l\<lparr>ml_data := msg # m # ms\<rparr>)
      | [] \<Rightarrow> l\<lparr>ml_data := [msg]\<rparr>)"

definition list_getitem :: "int \<Rightarrow> message_list \<Rightarrow> list_error + llm_message" where
  "list_getitem i l =
     (case py_index (length (ml_data l)) i of None \<Rightarrow> Inl IndexError | Some k \<Rightarrow> Inr (ml_data l ! k))"

section \<open>The authority of a live list\<close>

definition live_archive_authority :: "message_list \<Rightarrow> archive_authority option" where
  "live_archive_authority l =
     (case ml_descriptor l of
        None \<Rightarrow> None
      | Some d \<Rightarrow>
          (if ap_epoch d \<noteq> ml_epoch l then None
           else Some \<lparr>aa_count = nat (ap_count d), aa_boundary = ap_boundary d,
                      aa_epoch = nat (ap_epoch d)\<rparr>))"

section \<open>The operations as one step function\<close>

datatype list_op =
  OpSetDescriptor archived_prefix | OpClearDescriptor
  | OpPublishTrim archived_prefix "llm_message list"
  | OpAppend llm_message | OpInsert int llm_message | OpReplace int llm_message
  | OpExtend "llm_message list" | OpOnReset | OpReset "llm_message list"
  | OpResetPreservingSystem "llm_message list" | OpUpdateSystemPrompt llm_message

fun list_step :: "list_op \<Rightarrow> message_list \<Rightarrow> list_error + message_list" where
  "list_step (OpSetDescriptor d) l = set_archive_descriptor d l"
| "list_step OpClearDescriptor l = Inr (clear_archive_descriptor l)"
| "list_step (OpPublishTrim d rs) l = publish_archive_trim d rs l"
| "list_step (OpAppend m) l = Inr (list_append m l)"
| "list_step (OpInsert i m) l = Inr (list_insert i m l)"
| "list_step (OpReplace i m) l = list_replace i m l"
| "list_step (OpExtend ms) l = Inr (list_extend ms l)"
| "list_step OpOnReset l = Inr (on_reset l)"
| "list_step (OpReset ms) l = Inr (list_reset ms l)"
| "list_step (OpResetPreservingSystem ms) l = Inr (reset_preserving_system ms l)"
| "list_step (OpUpdateSystemPrompt m) l = Inr (update_system_prompt m l)"

text \<open>A refused operation raises and leaves the list as it was.\<close>

fun list_run :: "list_op list \<Rightarrow> message_list \<Rightarrow> message_list" where
  "list_run [] l = l"
| "list_run (x # xs) l = list_run xs (case list_step x l of Inl _ \<Rightarrow> l | Inr l' \<Rightarrow> l')"

end
