(* ===== verification/Archive_Props.thy ===== *)
theory Archive_Props
  imports Provider_Ready Message_List
begin

text \<open>
  The message list and the validators together: epoch ownership, the trim publication, the
  archived-prefix admission, the append boundary, and the report that rides the metadata.
\<close>

section \<open>The message list\<close>

definition owned_epoch :: "message_list \<Rightarrow> bool" where
  "owned_epoch l \<longleftrightarrow> (\<forall>d. ml_descriptor l = Some d \<longrightarrow> ap_epoch d = ml_epoch l)"

lemmas list_op_defs = set_archive_descriptor_def clear_archive_descriptor_def
  publish_archive_trim_def list_append_def list_insert_def list_replace_def on_reset_def
  rebind_def list_reset_def reset_preserving_system_def update_system_prompt_def Let_def

lemma list_extend_simps [simp]:
  "ml_descriptor (list_extend ms l) = ml_descriptor l" "ml_epoch (list_extend ms l) = ml_epoch l"
  "ml_data (list_extend ms l) = ml_data l @ ms"
  by (induction ms l rule: list_extend.induct) (auto simp: list_append_def)

lemma list_step_owned:
  "list_step x l = Inr l' \<Longrightarrow> owned_epoch l \<Longrightarrow> owned_epoch l' \<and> ml_epoch l \<le> ml_epoch l'"
  by (cases x) (auto simp: owned_epoch_def list_op_defs split: if_splits option.splits list.splits)

lemma list_run_owned: "owned_epoch l \<Longrightarrow> owned_epoch (list_run xs l) \<and> ml_epoch l \<le> ml_epoch (list_run xs l)"
proof (induction xs l rule: list_run.induct)
  case (2 x xs l)
  show ?case
  proof (cases "list_step x l")
    case (Inl e)
    with 2 show ?thesis by simp
  next
    case (Inr l')
    with list_step_owned [OF this "2.prems"] "2.IH" show ?thesis by auto
  qed
qed simp

text \<open>
  Archive ownership can never go stale in the list: whatever sequence of operations runs
  on a fresh list, refused ones included, an owned descriptor is of the current epoch, so
  the list mints an authority exactly when it owns a descriptor, and the epoch never
  decreases.
\<close>

theorem message_list_epoch_invariant:
  "(live_archive_authority (list_run xs (new_message_list init)) = None \<longleftrightarrow>
      ml_descriptor (list_run xs (new_message_list init)) = None) \<and>
   0 \<le> ml_epoch (list_run xs (new_message_list init))"
proof -
  have "owned_epoch (new_message_list init)" "ml_epoch (new_message_list init) = 0"
    by (simp_all add: owned_epoch_def new_message_list_def)
  from list_run_owned [OF this(1), of xs] this(2) show ?thesis
    by (auto simp: owned_epoch_def live_archive_authority_def split: option.splits)
qed

section \<open>Sealed slots\<close>

lemma sealed_scan_take:
  "sealed_scan n i s ms = take (n - s) (map (\<lambda>k. i + k) (non_system_indexes ms))"
proof (induction n i s ms rule: sealed_scan.induct)
  case (2 n i s m ms)
  have shift: "non_system_indexes (m # ms) =
      (if role_of m \<noteq> System then [0] else []) @ map Suc (non_system_indexes ms)"
    by (simp add: non_system_indexes_def indexes_where_def upt_conv_Cons map_Suc_upt [symmetric]
        filter_map o_def del: upt_Suc)
  show ?case
  proof (cases "role_of m = System")
    case True
    with 2 shift show ?thesis by (simp add: take_map o_def)
  next
    case False
    show ?thesis
    proof (cases "s < n")
      case True
      then have "n - s = Suc (n - Suc s)" by simp
      with True False 2 shift show ?thesis by (simp add: take_map o_def)
    next
      case g: False
      with False 2 show ?thesis by simp
    qed
  qed
qed (simp add: non_system_indexes_def indexes_where_def)

lemma sealed_prefix_take: "sealed_prefix_indexes ms a = take (aa_count a) (non_system_indexes ms)"
  by (simp add: sealed_prefix_indexes_def sealed_scan_take)

lemma put_slots_nth:
  "distinct (map fst ps) \<Longrightarrow> \<forall>p \<in> set ps. fst p < length xs \<Longrightarrow> j < length xs \<Longrightarrow>
     put_slots ps xs ! j = (case map_of ps j of None \<Rightarrow> xs ! j | Some m \<Rightarrow> m)"
proof (induction ps xs rule: put_slots.induct)
  case (2 i m ps xs)
  then have "map_of ps i = None" by (auto simp: map_of_eq_None_iff)
  with 2 show ?case by (auto split: option.splits)
qed simp

lemma length_put_slots [simp]: "length (put_slots ps xs) = length xs"
  by (induction ps xs rule: put_slots.induct) auto

lemma distinct_non_system [simp]: "distinct (non_system_indexes ms)"
  by (simp add: non_system_indexes_def)

lemma set_non_system [simp]: "set (non_system_indexes ms) = {i. i < length ms \<and> role_of (ms ! i) \<noteq> System}"
  by (simp add: non_system_indexes_def)

text \<open>What a successful publication does to every slot.\<close>

lemma publish_trim_slots:
  assumes "publish_archive_trim d rs l = Inr l'"
  defines "S \<equiv> take (nat (ap_count d)) (non_system_indexes (ml_data l))"
  shows "length (ml_data l') = length (ml_data l)"
    and "length S = length rs" and "ml_descriptor l' = Some d" and "ml_epoch l' = ml_epoch l"
    and "ap_epoch d = ml_epoch l" and "ml_hook_calls l' = ml_hook_calls l"
    and "\<And>j. j < length (ml_data l) \<Longrightarrow> j \<notin> set S \<Longrightarrow> ml_data l' ! j = ml_data l ! j"
    and "\<And>k. k < length S \<Longrightarrow> ml_data l' ! (S ! k) = rs ! k"
proof -
  from assms(1) have a: "ap_epoch d = ml_epoch l" "\<not> ap_count d > int (length (non_system_indexes (ml_data l)))"
    "int (length rs) = ap_count d"
    "l' = l\<lparr>ml_data := put_slots (zip S rs) (ml_data l), ml_descriptor := Some d\<rparr>"
    by (auto simp: publish_archive_trim_def Let_def S_def split: if_splits)
  show len: "length S = length rs" using a(2,3) by (auto simp: S_def)
  have dist: "distinct (map fst (zip S rs))" using len by (simp add: S_def)
  have bnd: "\<forall>p \<in> set (zip S rs). fst p < length (ml_data l)"
    by (auto simp: S_def dest!: set_zip_leftD in_set_takeD)
  note nth = put_slots_nth [OF dist bnd]
  show "length (ml_data l') = length (ml_data l)" "ml_descriptor l' = Some d"
    "ml_epoch l' = ml_epoch l" "ap_epoch d = ml_epoch l" "ml_hook_calls l' = ml_hook_calls l"
    using a by simp_all
  show "ml_data l' ! j = ml_data l ! j" if "j < length (ml_data l)" "j \<notin> set S" for j
  proof -
    have "map_of (zip S rs) j = None" using that len by simp
    with nth [OF that(1)] a(4) show ?thesis by simp
  qed
  show "ml_data l' ! (S ! k) = rs ! k" if "k < length S" for k
  proof -
    have "S ! k < length (ml_data l)" using nth_mem [OF that] by (auto simp: S_def dest: in_set_takeD)
    moreover have "map_of (zip S rs) (S ! k) = Some (rs ! k)"
      using that len dist by (intro map_of_is_SomeI) (auto simp: set_zip)
    ultimately show ?thesis using nth a(4) by simp
  qed
qed

lemma role_system_same_indexes:
  assumes "length xs = length ys" "\<And>j. j < length xs \<Longrightarrow> role_of (xs ! j) = System \<longleftrightarrow> role_of (ys ! j) = System"
  shows "non_system_indexes xs = non_system_indexes ys"
  unfolding non_system_indexes_def indexes_where_def assms(1)
  by (rule filter_cong) (use assms in auto)

lemma archived_admit:
  assumes "set (archived_marker_indexes ms) = set (sealed_prefix_indexes ms a)"
    and mem: "(j, m) \<in> set (filter (\<lambda>e. fst e \<notin> set (sealed_prefix_indexes ms a) \<and>
      context_boundary (snd e) = Some ''compaction'') (enumerate 0 ms))"
    and bd: "\<And>b. aa_boundary a = Some b \<Longrightarrow> message_id m = Some b"
  shows "archived_prefix_violations ms (Some a) None = []"
proof -
  define tl where "tl = filter (\<lambda>e. fst e \<notin> set (sealed_prefix_indexes ms a) \<and>
      context_boundary (snd e) = Some ''compaction'') (enumerate 0 ms)"
  have "m \<in> snd ` set tl" using mem by (force simp: tl_def)
  then have "tl \<noteq> []" "\<And>b. aa_boundary a = Some b \<Longrightarrow> \<exists>x \<in> set tl. message_id (snd x) = Some b"
    using bd by auto
  then show ?thesis
    using assms(1) unfolding archived_prefix_violations_def Let_def tl_def
    by (simp split: option.splits)
qed

text \<open>
  A published trim is exactly what the validators admit: if the list carried no archive
  marker, every replacement is a marked non-system message, and the messages behind the
  sealed slots still hold the authorizing compaction boundary, then after
  \<open>publish_archive_trim\<close> the archived-prefix admission, run with the authority the list
  itself mints, reports nothing; the length and all unsealed slots are unchanged and no
  reset hook ran.
\<close>

theorem publish_trim_admitted:
  assumes pub: "publish_archive_trim d rs l = Inr l'"
    and clean: "\<forall>m \<in> set (ml_data l). archive_ref m = None"
    and marked: "\<forall>m \<in> set rs. archive_ref m \<noteq> None \<and> role_of m \<noteq> System"
    and tail: "\<exists>j < length (ml_data l).
      j \<notin> set (take (nat (ap_count d)) (non_system_indexes (ml_data l))) \<and>
      context_boundary (ml_data l ! j) = Some ''compaction'' \<and>
      (\<forall>b. ap_boundary d = Some b \<longrightarrow> message_id (ml_data l ! j) = Some b)"
  shows "archived_prefix_violations (ml_data l') (live_archive_authority l') None = [] \<and>
     length (ml_data l') = length (ml_data l) \<and> ml_hook_calls l' = ml_hook_calls l \<and>
     (\<forall>j < length (ml_data l). j \<notin> set (take (nat (ap_count d)) (non_system_indexes (ml_data l))) \<longrightarrow>
        ml_data l' ! j = ml_data l ! j)"
proof -
  define S where "S = take (nat (ap_count d)) (non_system_indexes (ml_data l))"
  note slots = publish_trim_slots [OF pub, folded S_def]
  let ?ms = "ml_data l'"
  have SN: "j < length (ml_data l) \<and> role_of (ml_data l ! j) \<noteq> System" if "j \<in> set S" for j
    using that by (auto simp: S_def dest: in_set_takeD)
  have repl: "?ms ! j \<in> set rs" if "j \<in> set S" for j
    using that slots(2,8) by (metis in_set_conv_nth)
  have ns: "non_system_indexes ?ms = non_system_indexes (ml_data l)"
    using slots(1,7) SN repl marked by (intro role_system_same_indexes) (auto, metis, metis)
  have mk: "archive_ref (?ms ! j) \<noteq> None \<longleftrightarrow> j \<in> set S" if "j < length ?ms" for j
    using that slots(1,7) repl marked clean by (metis nth_mem)
  obtain a where a: "live_archive_authority l' = Some a" "aa_count a = nat (ap_count d)"
    "aa_boundary a = ap_boundary d"
    using slots(3-5) by (simp add: live_archive_authority_def)
  have sealed: "sealed_prefix_indexes ?ms a = S" by (simp add: sealed_prefix_take a(2) ns S_def)
  have markers: "set (archived_marker_indexes ?ms) = set S"
    using mk SN slots(1) by (auto simp: archived_marker_indexes_def)
  obtain j where j: "j < length (ml_data l)" "j \<notin> set S"
    "context_boundary (ml_data l ! j) = Some ''compaction''"
    "\<forall>b. ap_boundary d = Some b \<longrightarrow> message_id (ml_data l ! j) = Some b"
    using tail by (auto simp: S_def)
  have same: "?ms ! j = ml_data l ! j" using slots(7) j by simp
  then have mem: "(j, ml_data l ! j) \<in> set (filter (\<lambda>e. fst e \<notin> set S \<and>
      context_boundary (snd e) = Some ''compaction'') (enumerate 0 ?ms))"
    using j slots(1) by (auto simp: in_set_enumerate_eq)
  then have "archived_prefix_violations ?ms (Some a) None = []"
    using j(4) by (intro archived_admit [where j = j]) (simp_all add: sealed markers a(3))
  with a(1) slots(1,6,7) show ?thesis by (simp add: S_def)
qed

definition boundary_message :: llm_message where
  "boundary_message = (plain_message 7 User)\<lparr>context_boundary := Some ''compaction'',
     message_id := Some ''b'', injected := True\<rparr>"

definition trim_list :: message_list where
  "trim_list = new_message_list (Some [plain_message 0 System, plain_message 1 User,
     plain_message 2 Assistant, boundary_message])"

definition trim_descriptor :: archived_prefix where
  "trim_descriptor = \<lparr>ap_session_id = ''s'', ap_epoch = 0, ap_count = 2, ap_end_byte = 10,
     ap_sha256 = [], ap_boundary = Some ''b'', ap_trim = Payloads\<rparr>"

definition trim_replacements :: "llm_message list" where
  "trim_replacements = [(plain_message 11 User)\<lparr>archive_ref := Some 0\<rparr>,
     (plain_message 12 Assistant)\<lparr>archive_ref := Some 1\<rparr>]"

definition trim_result :: message_list where
  "trim_result = trim_list\<lparr>ml_data := [plain_message 0 System] @ trim_replacements @ [boundary_message],
     ml_descriptor := Some trim_descriptor\<rparr>"

theorem publish_trim_admitted_witness:
  "archived_prefix_violations (ml_data trim_result) (live_archive_authority trim_result) None = []"
proof -
  have "publish_archive_trim trim_descriptor trim_replacements trim_list = Inr trim_result"
    by code_simp
  moreover have "\<forall>m \<in> set (ml_data trim_list). archive_ref m = None" by code_simp
  moreover have "\<forall>m \<in> set trim_replacements. archive_ref m \<noteq> None \<and> role_of m \<noteq> System" by code_simp
  moreover have "\<exists>j < length (ml_data trim_list).
      j \<notin> set (take (nat (ap_count trim_descriptor)) (non_system_indexes (ml_data trim_list))) \<and>
      context_boundary (ml_data trim_list ! j) = Some ''compaction'' \<and>
      (\<forall>b. ap_boundary trim_descriptor = Some b \<longrightarrow> message_id (ml_data trim_list ! j) = Some b)"
  proof (intro exI [of _ 3] conjI)
    show "3 < length (ml_data trim_list)" by code_simp
    show "3 \<notin> set (take (nat (ap_count trim_descriptor)) (non_system_indexes (ml_data trim_list)))"
      by code_simp
  qed (simp_all add: trim_list_def trim_descriptor_def new_message_list_def boundary_message_def)
  ultimately show ?thesis using publish_trim_admitted by blast
qed

end
