(* ===== verification/Py_Value.thy ===== *)
theory Py_Value
  imports Prelude
begin

text \<open>
  Dynamically typed Python values, for the code that inspects raw payloads with
  \<open>isinstance\<close> and \<open>dict.get\<close>.  A dictionary is the list of its entries in insertion order,
  with distinct keys.  \<open>POther\<close> is any other object, with its truth value.
\<close>

datatype pyval =
  PNone | PBool bool | PInt int | PStr string
  | PList "pyval list" | PTuple "pyval list" | PDict "(pyval \<times> pyval) list"
  | POther nat bool

datatype py_error = TypeErr | KeyErr | ValueErr

definition py_get :: "(pyval \<times> pyval) list \<Rightarrow> string \<Rightarrow> pyval \<Rightarrow> pyval" where
  "py_get d k dflt = (case map_of d (PStr k) of None \<Rightarrow> dflt | Some v \<Rightarrow> v)"

definition is_str :: "pyval \<Rightarrow> bool" where
  "is_str v = (case v of PStr _ \<Rightarrow> True | _ \<Rightarrow> False)"

definition is_mapping :: "pyval \<Rightarrow> bool" where
  "is_mapping v = (case v of PDict _ \<Rightarrow> True | _ \<Rightarrow> False)"

definition is_list :: "pyval \<Rightarrow> bool" where
  "is_list v = (case v of PList _ \<Rightarrow> True | _ \<Rightarrow> False)"

fun str_of :: "pyval \<Rightarrow> string" where
  "str_of (PStr s) = s"
| "str_of _ = []"

fun entries_of :: "pyval \<Rightarrow> (pyval \<times> pyval) list" where
  "entries_of (PDict d) = d"
| "entries_of _ = []"

fun elems_of :: "pyval \<Rightarrow> pyval list" where
  "elems_of (PList xs) = xs"
| "elems_of (PTuple xs) = xs"
| "elems_of _ = []"

fun py_truthy :: "pyval \<Rightarrow> bool" where
  "py_truthy PNone = False"
| "py_truthy (PBool b) = b"
| "py_truthy (PInt n) = (n \<noteq> 0)"
| "py_truthy (PStr s) = (s \<noteq> [])"
| "py_truthy (PList xs) = (xs \<noteq> [])"
| "py_truthy (PTuple xs) = (xs \<noteq> [])"
| "py_truthy (PDict d) = (d \<noteq> [])"
| "py_truthy (POther _ b) = b"

text \<open>\<open>iter(v)\<close>: what a \<open>for\<close> loop over the value visits, or a \<open>TypeError\<close>.\<close>

fun py_iter :: "pyval \<Rightarrow> py_error + pyval list" where
  "py_iter (PList xs) = Inr xs"
| "py_iter (PTuple xs) = Inr xs"
| "py_iter (PDict d) = Inr (map fst d)"
| "py_iter (PStr s) = Inr (map (\<lambda>c. PStr [c]) s)"
| "py_iter _ = Inl TypeErr"

lemma is_simps [simp]:
  "is_str (PStr s)" "is_mapping (PDict d)" "is_list (PList xs)"
  "\<not> is_str PNone" "\<not> is_mapping (PStr s)" "\<not> is_list (PStr s)" "\<not> is_str (PDict d)"
  by (simp_all add: is_str_def is_mapping_def is_list_def)

end
