(* ===== verification/Admission.thy ===== *)
theory Admission
  imports Archive_Props Py_Value
begin

text \<open>
  Owner scoping as the append boundary sees it (\<open>_owner_before\<close>) and as the validators see
  it (\<open>_result_groups\<close>) are the same relation; the append boundary keeps the transcript
  free of the duplicates the persistence boundary refuses; and the repair report survives
  its ride through the session metadata.
\<close>

section \<open>One notion of ownership\<close>

lemma set_takeWhile_nth:
  "x \<in> set (takeWhile Q xs) \<longleftrightarrow> (\<exists>k < length xs. x = xs ! k \<and> (\<forall>j < Suc k. Q (xs ! j)))"
proof (induction xs)
  case (Cons y xs)
  show ?case
  proof (cases "Q y")
    case True
    have "(\<exists>k < length (y # xs). x = (y # xs) ! k \<and> (\<forall>j < Suc k. Q ((y # xs) ! j))) \<longleftrightarrow>
        x = y \<or> (\<exists>k < length xs. x = xs ! k \<and> (\<forall>j < Suc k. Q (xs ! j)))"
      unfolding length_Cons Ex_less_Suc2 using True by (simp add: All_less_Suc2)
    with True Cons show ?thesis by simp
  qed auto
qed simp

lemma owner_before_Some:
  "owner_before ms i c = Some ow \<longleftrightarrow>
     ow < i \<and> ow < length ms \<and> claims c (ms ! ow) \<and>
     (\<forall>j. ow < j \<and> j < i \<and> j < length ms \<longrightarrow> \<not> claims c (ms ! j))"
  unfolding owner_before_def last_index_Some by auto

lemma result_group_iff:
  "(p, m) \<in> set (result_group ms ow c) \<longleftrightarrow>
     p < length ms \<and> m = ms ! p \<and> answers c (ms ! p) \<and> owner_before ms p c = Some ow"
proof -
  let ?E = "drop (Suc ow) (enumerate 0 ms)"
  have nth: "?E ! k = (Suc ow + k, ms ! (Suc ow + k))" if "Suc ow + k < length ms" for k
    using that by (simp add: nth_enumerate_eq)
  have "(p, m) \<in> set (takeWhile (\<lambda>e. \<not> claims c (snd e)) ?E) \<longleftrightarrow>
      (\<exists>k. Suc ow + k < length ms \<and> (p, m) = ?E ! k \<and> (\<forall>j < Suc k. \<not> claims c (snd (?E ! j))))"
    unfolding set_takeWhile_nth by (auto simp: less_diff_conv add.commute)
  also have "\<dots> \<longleftrightarrow> (\<exists>k. Suc ow + k < length ms \<and> p = Suc ow + k \<and> m = ms ! p \<and>
      (\<forall>j < Suc k. \<not> claims c (ms ! (Suc ow + j))))"
    by (intro ex_cong1) (auto simp: nth_enumerate_eq)
  also have "\<dots> \<longleftrightarrow> ow < p \<and> p < length ms \<and> m = ms ! p \<and>
      (\<forall>j. ow < j \<and> j \<le> p \<longrightarrow> \<not> claims c (ms ! j))" (is "?l = ?r")
  proof
    assume ?l
    then obtain k where k: "Suc ow + k < length ms" "p = Suc ow + k" "m = ms ! p"
      "\<forall>j < Suc k. \<not> claims c (ms ! (Suc ow + j))" by blast
    have "\<not> claims c (ms ! j)" if "ow < j" "j \<le> p" for j
      using k(2) k(4) [rule_format, of "j - Suc ow"] that by simp
    with k show ?r by auto
  next
    assume r: ?r
    then show ?l by (intro exI [of _ "p - Suc ow"]) auto
  qed
  finally have tw: "(p, m) \<in> set (takeWhile (\<lambda>e. \<not> claims c (snd e)) ?E) \<longleftrightarrow>
      ow < p \<and> p < length ms \<and> m = ms ! p \<and> (\<forall>j. ow < j \<and> j \<le> p \<longrightarrow> \<not> claims c (ms ! j))" .
  have "(p, m) \<in> set (result_group ms ow c) \<longleftrightarrow> ow < length ms \<and> claims c (ms ! ow) \<and>
      answers c m \<and> (p, m) \<in> set (takeWhile (\<lambda>e. \<not> claims c (snd e)) ?E)"
    by (simp add: result_group_def segment_def conj_commute)
  also have "\<dots> \<longleftrightarrow> p < length ms \<and> m = ms ! p \<and> answers c (ms ! p) \<and> owner_before ms p c = Some ow"
    unfolding tw owner_before_Some
    using answers_not_claims [of c "ms ! p" c] by (auto simp: le_less)
  finally show ?thesis .
qed

lemma distinct_result_group: "distinct (result_group ms ow c)"
  by (auto simp: result_group_def segment_def intro!: distinct_filter distinct_takeWhile distinct_drop
      distinct_enumerate)

definition no_duplicates :: "llm_message list \<Rightarrow> bool" where
  "no_duplicates ms \<longleftrightarrow> (\<forall>p q c ow. p < length ms \<and> q < length ms \<and> answers c (ms ! p) \<and>
     answers c (ms ! q) \<and> owner_before ms p c = Some ow \<and> owner_before ms q c = Some ow \<longrightarrow> p = q)"

lemma length_le_1: "distinct xs \<Longrightarrow> length xs \<le> 1 \<longleftrightarrow> (\<forall>x \<in> set xs. \<forall>y \<in> set xs. x = y)"
  by (cases xs; cases "tl xs") auto

lemma persistence_duplicates_Nil: "persistence_duplicates ms = [] \<longleftrightarrow> no_duplicates ms"
proof -
  have "persistence_duplicates ms = [] \<longleftrightarrow>
      (\<forall>ow c idxs. ((ow, c), idxs) \<in> set (tool_result_owner_groups ms) \<longrightarrow> length idxs \<le> 1)"
    by (fastforce simp: persistence_duplicates_def result_groups_def tool_result_owner_groups_def
        split: if_splits)
  also have "\<dots> \<longleftrightarrow> (\<forall>ow c. length (result_group ms ow c) \<le> 1)"
    unfolding owner_groups_mem by (metis le0 length_map list.size(3))
  also have "\<dots> \<longleftrightarrow> no_duplicates ms"
    unfolding length_le_1 [OF distinct_result_group] no_duplicates_def
    by (auto simp: result_group_iff Ball_def)
  finally show ?thesis .
qed

section \<open>The append boundary\<close>

lemma owner_before_append:
  "i \<le> length ms \<Longrightarrow> owner_before (ms @ xs) i c = owner_before ms i c"
  by (simp add: owner_before_def)

text \<open>Replacing a result by another result of the same call changes no ownership.\<close>

lemma claims_update:
  assumes "answers c m" "answers c (ms ! p)"
  shows "claims d (ms[p := m] ! j) \<longleftrightarrow> claims d (ms ! j)"
proof (cases "p < length ms")
  case True
  then show ?thesis using assms answers_not_claims by (cases "j = p") auto
qed (simp add: list_update_beyond)

lemma owner_before_update:
  assumes "answers c m" "answers c (ms ! p)"
  shows "owner_before (ms[p := m]) i d = owner_before ms i d"
proof -
  have "owner_before (ms[p := m]) i d = Some ow \<longleftrightarrow> owner_before ms i d = Some ow" for ow
    unfolding owner_before_Some using claims_update [OF assms] by simp
  then show ?thesis by (metis not_None_eq)
qed

lemma no_duplicates_update:
  assumes "answers c m" "answers c (ms ! p)" "no_duplicates ms"
  shows "no_duplicates (ms[p := m])"
proof -
  have ans: "answers d (ms[p := m] ! j) \<longleftrightarrow> answers d (ms ! j)" for d j
  proof (cases "p < length ms")
    case True
    then show ?thesis using assms(1,2) by (cases "j = p") (auto simp: answers_def)
  qed (simp add: list_update_beyond)
  show ?thesis
    using assms(3) unfolding no_duplicates_def by (simp add: ans owner_before_update [OF assms(1,2)])
qed

lemma admission_scope:
  assumes adm: "check_tool_message_admission ms (length ms) m a = None"
    and ans: "answers c m" "c \<noteq> []"
  shows "(\<forall>p < length ms. answers c (ms ! p) \<longrightarrow> owner_before ms p c \<noteq> owner_before ms (length ms) c) \<or>
     (has_structured_tool_result m \<and>
      (\<forall>p < length ms. answers c (ms ! p) \<and> owner_before ms p c = owner_before ms (length ms) c \<longrightarrow>
         is_synthetic_tool_placeholder (ms ! p)))"
proof -
  define ex where "ex = map snd (filter (\<lambda>(p, s). p < length ms \<and> answers c s \<and>
      owner_before ms p c = owner_before ms (length ms) c) (enumerate 0 ms))"
  have m: "role_of m = Tool" "tool_call_id m = Some c" using ans by (auto simp: answers_def)
  have mem: "ms ! p \<in> set ex" if "p < length ms" "answers c (ms ! p)"
    "owner_before ms p c = owner_before ms (length ms) c" for p
    using that by (force simp: ex_def in_set_enumerate_eq image_iff)
  show ?thesis
  proof (cases "ex = []")
    case True
    with mem show ?thesis by fastforce
  next
    case False
    with adm m ans(2) have "has_structured_tool_result m" "\<forall>e \<in> set ex. is_synthetic_tool_placeholder e"
      unfolding check_tool_message_admission_def Let_def
      by (auto simp: ex_def [symmetric] split: if_splits)
    with mem show ?thesis by blast
  qed
qed

text \<open>
  The append boundary keeps the transcript saveable: if the transcript has no duplicate
  result and the check admits \<open>m\<close> at its end, then either appending \<open>m\<close> creates no
  duplicate, or \<open>m\<close> is a genuine result for a call answered so far only by a synthetic
  placeholder, and putting \<open>m\<close> in the placeholder's slot creates none.
\<close>

theorem admission_keeps_unique:
  assumes "persistence_duplicates ms = []"
    and "check_tool_message_admission ms (length ms) m a = None"
  shows "persistence_duplicates (ms @ [m]) = [] \<or>
     (\<exists>p < length ms. is_synthetic_tool_placeholder (ms ! p) \<and> \<not> is_synthetic_tool_placeholder m \<and>
        tool_call_id (ms ! p) = tool_call_id m \<and> persistence_duplicates (ms[p := m]) = [])"
proof (rule disj_imp [THEN iffD2], rule impI)
  assume dup: "\<not> persistence_duplicates (ms @ [m]) = []"
  have nd: "no_duplicates ms" using assms(1) by (simp add: persistence_duplicates_Nil)
  obtain p q c ow where d: "p < Suc (length ms)" "q < Suc (length ms)"
    "answers c ((ms @ [m]) ! p)" "answers c ((ms @ [m]) ! q)"
    "owner_before (ms @ [m]) p c = Some ow" "owner_before (ms @ [m]) q c = Some ow" "p \<noteq> q"
    using dup by (auto simp: persistence_duplicates_Nil no_duplicates_def)
  have ob: "owner_before (ms @ [m]) i c = owner_before ms i c" if "i < Suc (length ms)" for i
    using that by (simp add: owner_before_append)
  obtain r where r: "r < length ms" "answers c (ms ! r)" "answers c m"
    "owner_before ms r c = Some ow" "owner_before ms (length ms) c = Some ow"
  proof -
    consider "p = length ms" "q < length ms" | "q = length ms" "p < length ms"
      | "p < length ms" "q < length ms" using d(1,2,7) by linarith
    then show thesis
    proof cases
      case 1
      have "answers c m" using d(3) 1(1) by simp
      moreover have "answers c (ms ! q)" using d(4) 1(2) by (simp add: nth_append)
      ultimately show ?thesis using that [OF 1(2)] d(5,6) ob [OF d(1)] ob [OF d(2)] 1(1) by metis
    next
      case 2
      have "answers c m" using d(4) 2(1) by simp
      moreover have "answers c (ms ! p)" using d(3) 2(2) by (simp add: nth_append)
      ultimately show ?thesis using that [OF 2(2)] d(5,6) ob [OF d(1)] ob [OF d(2)] 2(1) by metis
    next
      case 3
      have "answers c (ms ! p)" "answers c (ms ! q)" using d(3,4) 3 by (simp_all add: nth_append)
      moreover have "owner_before ms p c = Some ow" "owner_before ms q c = Some ow"
        using d(5,6) ob [OF d(1)] ob [OF d(2)] by metis+
      ultimately show ?thesis using nd d(7) 3 unfolding no_duplicates_def by blast
    qed
  qed
  have "c \<noteq> []" using r(4) claims_nonempty by (auto simp: owner_before_Some)
  with admission_scope [OF assms(2) r(3)] r
  have "has_structured_tool_result m" "is_synthetic_tool_placeholder (ms ! r)" by auto
  with r no_duplicates_update [OF r(3,2) nd] show
    "\<exists>p < length ms. is_synthetic_tool_placeholder (ms ! p) \<and> \<not> is_synthetic_tool_placeholder m \<and>
        tool_call_id (ms ! p) = tool_call_id m \<and> persistence_duplicates (ms[p := m]) = []"
    by (auto simp: persistence_duplicates_Nil answers_def structured_not_placeholder intro!: exI [of _ r])
qed

theorem admission_keeps_unique_witness:
  "\<exists>p < length [call_message 0 [''c1''], placeholder_message 1 ''c1''].
     persistence_duplicates ([call_message 0 [''c1''], placeholder_message 1 ''c1'']
       [p := result_message 2 ''c1'']) = []"
proof -
  let ?ms = "[call_message 0 [''c1''], placeholder_message 1 ''c1'']"
  have "persistence_duplicates ?ms = []" by code_simp
  moreover have "check_tool_message_admission ?ms (length ?ms) (result_message 2 ''c1'') None = None"
    by code_simp
  moreover have "persistence_duplicates (?ms @ [result_message 2 ''c1'']) \<noteq> []" by code_simp
  ultimately show ?thesis using admission_keeps_unique [of ?ms "result_message 2 ''c1''" None] by blast
qed

end
