(* ===== verification/Report.thy ===== *)
theory Report
  imports Admission
begin

text \<open>
  The persistence boundary against the load-time repair, the strict check against the
  lenient one, and the metadata form of the repair report
  (\<open>report_to_metadata\<close>, \<open>report_from_metadata\<close>, \<open>pop_report_from_metadata\<close>).
\<close>

section \<open>Serialisation\<close>

definition opt_str :: "string option \<Rightarrow> pyval" where
  "opt_str s = (case s of None \<Rightarrow> PNone | Some x \<Rightarrow> PStr x)"

definition violation_to_metadata :: "violation \<Rightarrow> pyval" where
  "violation_to_metadata v = PDict
     [(PStr ''kind'', PStr (kind_str (v_kind v))),
      (PStr ''tool_call_id'', opt_str (v_call v)),
      (PStr ''detail'', PStr (v_detail v))]"

definition report_to_metadata :: "integrity_report \<Rightarrow> pyval" where
  "report_to_metadata r = PDict
     [(PStr ''repaired'', PBool (repaired r)),
      (PStr ''dropped_placeholder_call_ids'', PList (map PStr (dropped_placeholder_call_ids r))),
      (PStr ''violations'', PList (map violation_to_metadata (violations r)))]"

definition kind_of_str :: "string \<Rightarrow> violation_kind" where
  "kind_of_str s =
     (if s = ''duplicate_tool_result'' then DuplicateToolResult
      else if s = ''unclaimed_tool_result'' then UnclaimedToolResult
      else if s = ''unresolved_tool_call'' then UnresolvedToolCall
      else if s = ''misordered_tool_result'' then MisorderedToolResult
      else if s = ''transcript_repair_failed'' then TranscriptRepairFailed
      else if s = ''unauthorized_archived_prefix'' then UnauthorizedArchivedPrefix
      else OtherKind s)"

fun violation_from_metadata :: "pyval \<Rightarrow> violation option" where
  "violation_from_metadata (PDict d) =
     (let kind = py_get d ''kind'' PNone; detail = py_get d ''detail'' PNone;
          call = py_get d ''tool_call_id'' PNone
      in if \<not> is_str kind \<or> \<not> is_str detail then None
         else Some (mk_violation (kind_of_str (str_of kind))
                (if is_str call then Some (str_of call) else None) (str_of detail)))"
| "violation_from_metadata _ = None"

definition report_from_metadata :: "pyval \<Rightarrow> py_error + integrity_report option" where
  "report_from_metadata value =
     (if \<not> is_mapping value then Inr None
      else let d = entries_of value;
               dropped = py_get d ''dropped_placeholder_call_ids'' PNone;
               raw = py_get d ''violations'' PNone;
               vs = (if is_list raw then List.map_filter violation_from_metadata (elems_of raw) else [])
           in case (if py_truthy dropped then py_iter dropped else Inr []) of
                Inl e \<Rightarrow> Inl e
              | Inr ids \<Rightarrow> Inr (Some \<lparr>repaired = py_truthy (py_get d ''repaired'' PNone),
                    dropped_placeholder_call_ids = map str_of (filter is_str ids),
                    violations = vs\<rparr>))"

definition integrity_metadata_key :: string where
  "integrity_metadata_key = ''transcript_integrity_repair''"

definition pop_report_from_metadata ::
  "(pyval \<times> pyval) list \<Rightarrow> (py_error + integrity_report option) \<times> (pyval \<times> pyval) list" where
  "pop_report_from_metadata md =
     (report_from_metadata (py_get md integrity_metadata_key PNone),
      dict_pop (PStr integrity_metadata_key) md)"

section \<open>Properties\<close>

lemma kind_roundtrip: "kind_of_str (kind_str k) = k \<longleftrightarrow> (\<forall>s. k = OtherKind s \<longrightarrow> kind_of_str s = OtherKind s)"
  by (cases k) (simp_all add: kind_of_str_def)

definition literal_kinds :: "violation list \<Rightarrow> bool" where
  "literal_kinds vs \<longleftrightarrow> (\<forall>v \<in> set vs. \<forall>s. v_kind v \<noteq> OtherKind s)"

lemma violation_roundtrip:
  "\<forall>s. v_kind v \<noteq> OtherKind s \<Longrightarrow> violation_from_metadata (violation_to_metadata v) = Some v"
  using kind_roundtrip [of "v_kind v"]
  by (cases "v_call v")
    (auto simp: violation_to_metadata_def py_get_def opt_str_def mk_violation_def)

lemma violations_roundtrip:
  "literal_kinds vs \<Longrightarrow>
     List.map_filter violation_from_metadata (map violation_to_metadata vs) = vs"
  by (induction vs) (auto simp: List.map_filter_simps violation_roundtrip literal_kinds_def)

text \<open>
  The repair report survives its ride through the session metadata: putting a report
  whose violations are of the declared kinds under the reserved key, and popping it again,
  gives back the same report and removes the key, leaving every other entry in place.
\<close>

theorem report_metadata_roundtrip:
  assumes "literal_kinds (violations r)"
  shows "pop_report_from_metadata (dict_set (PStr integrity_metadata_key) (report_to_metadata r) md) =
     (Inr (Some r), dict_pop (PStr integrity_metadata_key) md)"
proof -
  have get: "py_get (dict_set (PStr k) v md) k dflt = v" for k v dflt
    by (simp add: py_get_def)
  have pop: "dict_pop k (dict_set k v md) = dict_pop k md" for k and v :: pyval
    by (induction k v md rule: dict_set.induct) (auto simp: dict_pop_def)
  have "filter is_str (map PStr xs) = map PStr xs" for xs
    by (induction xs) auto
  moreover have "map str_of (map PStr xs) = xs" for xs by (induction xs) auto
  ultimately have "report_from_metadata (report_to_metadata r) = Inr (Some r)"
    using violations_roundtrip [OF assms]
    by (auto simp: report_from_metadata_def report_to_metadata_def py_get_def Let_def)
  then show ?thesis by (simp add: pop_report_from_metadata_def get pop)
qed

definition sample_report :: integrity_report where
  "sample_report = snd (repair_transcript poisoned)"

theorem report_metadata_roundtrip_witness:
  "pop_report_from_metadata (dict_set (PStr integrity_metadata_key) (report_to_metadata sample_report) []) =
     (Inr (Some sample_report), dict_pop (PStr integrity_metadata_key) [])"
proof -
  have "violations sample_report = []" by code_simp
  then have "literal_kinds (violations sample_report)" by (simp add: literal_kinds_def)
  then show ?thesis by (rule report_metadata_roundtrip)
qed

lemma no_duplicates_not_shadowed:
  assumes "no_duplicates ms" shows "shadowed_placeholder_positions ms = {}"
proof -
  have "length (result_group ms ow c) \<le> 1" for ow c
    using assms unfolding length_le_1 [OF distinct_result_group] no_duplicates_def
    by (auto simp: result_group_iff Ball_def)
  then show ?thesis unfolding set_eq_iff shadowed_iff by (metis Suc_1 empty_iff not_less_eq_eq One_nat_def)
qed

lemma validate_transcript_scan:
  "validate_transcript ms staged ex a (Some (archived_marker_indexes ms)) =
   validate_transcript ms staged ex a None"
  by (simp add: validate_transcript_def)

text \<open>
  What the save boundary accepts, the load path leaves alone: a transcript without
  persistence violations is returned unchanged by the repair, with a clean report that
  records no repair.
\<close>

theorem persisted_needs_no_repair:
  assumes "find_persistence_violations ms None = []"
  shows "repair_transcript ms =
     (ms, \<lparr>repaired = False, dropped_placeholder_call_ids = [], violations = []\<rparr>)"
proof -
  have "persistence_duplicates ms = []" "validate_transcript ms {} True None None = []"
    using assms by (simp_all add: find_persistence_violations_def Let_def validate_transcript_scan)
  moreover from this have "shadowed_placeholder_positions ms = {}"
    by (simp add: persistence_duplicates_Nil no_duplicates_not_shadowed)
  ultimately show ?thesis by (simp add: repair_transcript_def)
qed

theorem persisted_needs_no_repair_witness:
  "repair_transcript [call_message 0 [''c1''], result_message 1 ''c1''] =
     ([call_message 0 [''c1''], result_message 1 ''c1''],
      \<lparr>repaired = False, dropped_placeholder_call_ids = [], violations = []\<rparr>)"
proof -
  have "find_persistence_violations [call_message 0 [''c1''], result_message 1 ''c1''] None = []"
    by code_simp
  then show ?thesis by (rule persisted_needs_no_repair)
qed

lemma unanswered_lenient:
  "unanswered_tool_call_violations op ans False staged ex ow = [] \<Longrightarrow>
     unanswered_tool_call_violations op ans True staged ex' ow = []"
  by (auto simp: unanswered_tool_call_violations_def filter_empty_conv sort_Nil_iff split: option.splits)

lemma provider_scan_lenient:
  "provider_scan False staged ex op ans ow ms = [] \<Longrightarrow>
     provider_scan True staged ex' op ans ow ms = []"
proof (induction ms arbitrary: ex ex' op ans ow)
  case Nil
  then show ?case using unanswered_lenient by simp
next
  case (Cons m ms)
  then show ?case
    using unanswered_lenient [of op ans staged "Some ex" ow "Some ex'"]
    by (auto split: if_splits option.splits)
qed

text \<open>
  The strict check implies the lenient one: a transcript the complete-history contract
  accepts (\<open>live_tail_exempt=False\<close>) is accepted with the live tail exempt, and by the
  live-prefix and settled-history contracts on their own.
\<close>

theorem strict_implies_lenient:
  assumes "validate_transcript ms staged False a None = []"
  shows "validate_transcript ms staged True a None = [] \<and>
     validate_live_prefix ms staged a None = [] \<and> validate_settled_history ms staged a None = []"
  using assms provider_scan_lenient
  by (auto simp: validate_transcript_def validate_provider_ready_def validate_live_prefix_def
      validate_settled_history_def Let_def)

theorem strict_implies_lenient_witness:
  "validate_transcript [call_message 0 [''c1''], result_message 1 ''c1''] {} True None None = []"
proof -
  have "validate_transcript [call_message 0 [''c1''], result_message 1 ''c1''] {} False None None = []"
    by code_simp
  from strict_implies_lenient [OF this] show ?thesis by blast
qed

end
