(* ===== verification/Turn_Queue.thy ===== *)
theory Turn_Queue
  imports Prelude
begin

text \<open>
  The queue of pending turns of one live session (\<open>app_server/_turn_queue.py\<close>).  A queued
  record is a Python object shared by the item list and the idempotency receipts, and
  \<open>rebind_session\<close> writes through the receipts into the shared \<open>params\<close>; so records live in
  an explicit store and both structures hold addresses.
\<close>

section \<open>State\<close>

record enqueue_params =
  idempotency_key :: "string option"
  session_id :: string
  entries :: "string list"

record queued_turn =
  qt_id :: string
  qt_created_at :: int
  qt_entries :: "string list"

record queued_record =
  params :: enqueue_params
  queued :: queued_turn

record turn_queue =
  max_items :: nat
  items :: "nat list"
  paused :: bool
  idempotency :: "(string \<times> nat) list"
  store :: "nat \<Rightarrow> queued_record"
  next_addr :: nat

datatype queue_error =
  QueueFull nat | IdempotencyConflict string | ItemNotFound string | InvalidParams | BadMaxItems

record enqueue_result =
  er_record :: nat
  er_duplicate :: bool

record public_turn_queue =
  pq_items :: "queued_turn list"
  pq_paused :: bool
  pq_max :: nat

definition turn_queue_max_items :: nat where
  "turn_queue_max_items = 32"

definition new_turn_queue :: "int \<Rightarrow> queue_error + turn_queue" where
  "new_turn_queue n =
     (if n < 1 then Inl BadMaxItems
      else Inr \<lparr>max_items = nat n, items = [], paused = False, idempotency = [],
                store = (\<lambda>_. undefined), next_addr = 0\<rparr>)"

definition state_of :: "turn_queue \<Rightarrow> public_turn_queue" where
  "state_of q = \<lparr>pq_items = map (\<lambda>a. queued (store q a)) (items q), pq_paused = paused q,
                 pq_max = max_items q\<rparr>"

section \<open>Operations\<close>

text \<open>
  \<open>validate\<close> is the caller's callback (\<open>False\<close> when it raises); \<open>new_id\<close> and \<open>now\<close> are what
  the id factory and the clock return to this call.
\<close>

definition put_record :: "queued_record \<Rightarrow> turn_queue \<Rightarrow> turn_queue" where
  "put_record r q = q\<lparr>store := (store q)(next_addr q := r), next_addr := Suc (next_addr q)\<rparr>"

definition lookup_receipt :: "turn_queue \<Rightarrow> string option \<Rightarrow> nat option" where
  "lookup_receipt q key = (case key of None \<Rightarrow> None | Some k \<Rightarrow> map_of (idempotency q) k)"

definition note_receipt :: "string option \<Rightarrow> nat \<Rightarrow> turn_queue \<Rightarrow> turn_queue" where
  "note_receipt key a q =
     (case key of None \<Rightarrow> q | Some k \<Rightarrow> q\<lparr>idempotency := dict_set k a (idempotency q)\<rparr>)"

definition enqueue ::
  "(enqueue_params \<Rightarrow> bool) \<Rightarrow> string \<Rightarrow> int \<Rightarrow> enqueue_params \<Rightarrow> turn_queue \<Rightarrow>
     queue_error + turn_queue \<times> enqueue_result" where
  "enqueue validate new_id now p q =
     (case lookup_receipt q (idempotency_key p) of
        Some a \<Rightarrow>
          (if params (store q a) \<noteq> p then Inl (IdempotencyConflict (the (idempotency_key p)))
           else Inr (q, \<lparr>er_record = a, er_duplicate = True\<rparr>))
      | None \<Rightarrow>
          (if length (items q) \<ge> max_items q then Inl (QueueFull (max_items q))
           else if \<not> validate p then Inl InvalidParams
           else let a = next_addr q;
                    r = \<lparr>params = p, queued = \<lparr>qt_id = new_id, qt_created_at = now,
                                                qt_entries = entries p\<rparr>\<rparr>;
                    q1 = put_record r q;
                    q2 = q1\<lparr>items := items q1 @ [a]\<rparr>
                in Inr (note_receipt (idempotency_key p) a q2,
                        \<lparr>er_record = a, er_duplicate = False\<rparr>)))"

definition index_of_id :: "turn_queue \<Rightarrow> string \<Rightarrow> nat option" where
  "index_of_id q item_id = first_index (\<lambda>a. qt_id (queued (store q a)) = item_id) (items q)"

definition replace_turn ::
  "(enqueue_params \<Rightarrow> bool) \<Rightarrow> string \<Rightarrow> enqueue_params \<Rightarrow> turn_queue \<Rightarrow>
     queue_error + turn_queue \<times> enqueue_result" where
  "replace_turn validate item_id p q =
     (case index_of_id q item_id of
        None \<Rightarrow> Inl (ItemNotFound item_id)
      | Some i \<Rightarrow>
          (case lookup_receipt q (idempotency_key p) of
             Some a \<Rightarrow>
               (if params (store q a) \<noteq> p \<or> qt_id (queued (store q a)) \<noteq> item_id
                then Inl (IdempotencyConflict (the (idempotency_key p)))
                else Inr (q, \<lparr>er_record = a, er_duplicate = True\<rparr>))
           | None \<Rightarrow>
               (if \<not> validate p then Inl InvalidParams
                else let previous = store q (items q ! i);
                         a = next_addr q;
                         r = \<lparr>params = p, queued = (queued previous)\<lparr>qt_entries := entries p\<rparr>\<rparr>;
                         q1 = put_record r q;
                         q2 = (case idempotency_key (params previous) of
                                 None \<Rightarrow> q1
                               | Some k \<Rightarrow> q1\<lparr>idempotency := dict_pop k (idempotency q1)\<rparr>);
                         q3 = q2\<lparr>items := (items q2)[i := a]\<rparr>
                     in Inr (note_receipt (idempotency_key p) a q3,
                             \<lparr>er_record = a, er_duplicate = False\<rparr>))))"

definition peek_next :: "turn_queue \<Rightarrow> nat option" where
  "peek_next q = (if paused q \<or> items q = [] then None else Some (hd (items q)))"

definition reset_pause_if_empty :: "turn_queue \<Rightarrow> turn_queue" where
  "reset_pause_if_empty q = (if items q = [] then q\<lparr>paused := False\<rparr> else q)"

definition pop_next :: "turn_queue \<Rightarrow> nat option \<times> turn_queue" where
  "pop_next q =
     (case peek_next q of
        None \<Rightarrow> (None, q)
      | Some a \<Rightarrow> (Some a, reset_pause_if_empty (q\<lparr>items := tl (items q)\<rparr>)))"

definition remove_turn :: "string \<Rightarrow> turn_queue \<Rightarrow> bool \<times> turn_queue" where
  "remove_turn item_id q =
     (case index_of_id q item_id of
        None \<Rightarrow> (False, q)
      | Some i \<Rightarrow>
          (True, reset_pause_if_empty (q\<lparr>items := take i (items q) @ drop (Suc i) (items q)\<rparr>)))"

definition pause :: "turn_queue \<Rightarrow> bool \<times> turn_queue" where
  "pause q = (if items q = [] \<or> paused q then (False, q) else (True, q\<lparr>paused := True\<rparr>))"

definition resume :: "turn_queue \<Rightarrow> bool \<times> turn_queue" where
  "resume q = (if \<not> paused q then (False, q) else (True, q\<lparr>paused := False\<rparr>))"

definition reset_queue :: "turn_queue \<Rightarrow> turn_queue" where
  "reset_queue q = q\<lparr>items := [], paused := False, idempotency := []\<rparr>"

definition set_session :: "string \<Rightarrow> queued_record \<Rightarrow> queued_record" where
  "set_session sid r = r\<lparr>params := (params r)\<lparr>session_id := sid\<rparr>\<rparr>"

fun rebind_records :: "string \<Rightarrow> nat list \<Rightarrow> (nat \<Rightarrow> queued_record) \<Rightarrow> (nat \<Rightarrow> queued_record)" where
  "rebind_records sid [] st = st"
| "rebind_records sid (a # as) st = rebind_records sid as (st(a := set_session sid (st a)))"

definition rebind_session :: "string \<Rightarrow> turn_queue \<Rightarrow> turn_queue" where
  "rebind_session sid q = q\<lparr>store := rebind_records sid (map snd (idempotency q)) (store q)\<rparr>"

section \<open>Sequences of operations\<close>

datatype queue_op =
  Enqueue string int enqueue_params | Replace string enqueue_params | PopNext | Remove string
  | Pause | Resume | Reset | Rebind string

fun queue_step :: "(enqueue_params \<Rightarrow> bool) \<Rightarrow> queue_op \<Rightarrow> turn_queue \<Rightarrow> turn_queue" where
  "queue_step validate (Enqueue i t p) q =
     (case enqueue validate i t p q of Inl _ \<Rightarrow> q | Inr (q', _) \<Rightarrow> q')"
| "queue_step validate (Replace i p) q =
     (case replace_turn validate i p q of Inl _ \<Rightarrow> q | Inr (q', _) \<Rightarrow> q')"
| "queue_step validate PopNext q = snd (pop_next q)"
| "queue_step validate (Remove i) q = snd (remove_turn i q)"
| "queue_step validate Pause q = snd (pause q)"
| "queue_step validate Resume q = snd (resume q)"
| "queue_step validate Reset q = reset_queue q"
| "queue_step validate (Rebind s) q = rebind_session s q"

definition queue_run :: "(enqueue_params \<Rightarrow> bool) \<Rightarrow> queue_op list \<Rightarrow> turn_queue \<Rightarrow> turn_queue" where
  "queue_run validate ops q = fold (queue_step validate) ops q"

section \<open>The invariant\<close>

text \<open>
  The queue is bounded, is paused only when it has items, and the receipts are consistent:
  a receipt points at a record with its key, and a queued item with a key is the one its
  receipt points at (so no two queued items share a key).
\<close>

definition receipts_ok :: "nat set \<Rightarrow> (string \<rightharpoonup> nat) \<Rightarrow> (nat \<Rightarrow> string option) \<Rightarrow> nat \<Rightarrow> bool" where
  "receipts_ok its idem key n \<longleftrightarrow>
     (\<forall>k a. idem k = Some a \<longrightarrow> a < n \<and> key a = Some k) \<and>
     (\<forall>a \<in> its. a < n \<and> (\<forall>k. key a = Some k \<longrightarrow> idem k = Some a))"

definition key_at :: "turn_queue \<Rightarrow> nat \<Rightarrow> string option" where
  "key_at q a = idempotency_key (params (store q a))"

definition queue_wf :: "turn_queue \<Rightarrow> bool" where
  "queue_wf q \<longleftrightarrow>
     length (items q) \<le> max_items q \<and> (paused q \<longrightarrow> items q \<noteq> []) \<and> distinct (items q) \<and>
     distinct (map fst (idempotency q)) \<and>
     receipts_ok (set (items q)) (map_of (idempotency q)) (key_at q) (next_addr q)"

lemma receipts_idem: "receipts_ok its idem key n \<Longrightarrow> idem k = Some a \<Longrightarrow> a < n \<and> key a = Some k"
  unfolding receipts_ok_def by blast

lemma receipts_item: "receipts_ok its idem key n \<Longrightarrow> a \<in> its \<Longrightarrow> key a = Some k \<Longrightarrow> idem k = Some a"
  unfolding receipts_ok_def by blast

lemma receipts_item_lt: "receipts_ok its idem key n \<Longrightarrow> a \<in> its \<Longrightarrow> a < n"
  unfolding receipts_ok_def by blast

lemma receipts_okI:
  assumes "\<And>k a. idem k = Some a \<Longrightarrow> a < n \<and> key a = Some k" "\<And>a. a \<in> its \<Longrightarrow> a < n"
    "\<And>a k. a \<in> its \<Longrightarrow> key a = Some k \<Longrightarrow> idem k = Some a"
  shows "receipts_ok its idem key n"
  using assms unfolding receipts_ok_def by blast

lemma receipts_subset: "receipts_ok its idem key n \<Longrightarrow> its' \<subseteq> its \<Longrightarrow> receipts_ok its' idem key n"
  unfolding receipts_ok_def by blast

text \<open>A fresh record enters the items and, if it has a key, the receipts.\<close>

lemma receipts_add:
  assumes ok: "receipts_ok its idem key n" and fresh: "\<And>k. kp = Some k \<Longrightarrow> idem k = None"
  shows "receipts_ok (insert n its) (case kp of None \<Rightarrow> idem | Some k \<Rightarrow> idem(k \<mapsto> n)) (key(n := kp)) (Suc n)"
    (is "receipts_ok _ ?idem _ _")
proof (rule receipts_okI)
  fix k a assume i: "?idem k = Some a"
  have "kp = Some k \<and> a = n \<or> idem k = Some a"
  proof (cases "kp = Some k")
    case True
    with i show ?thesis by simp
  next
    case False
    then have "?idem k = idem k" by (simp split: option.split)
    with i show ?thesis by metis
  qed
  then consider "kp = Some k" "a = n" | "idem k = Some a" by blast
  then show "a < Suc n \<and> (key(n := kp)) a = Some k"
  proof cases
    case 2
    then have "a < n" "key a = Some k" using receipts_idem [OF ok] by blast+
    then show ?thesis by simp
  qed simp
next
  fix a assume "a \<in> insert n its"
  then show "a < Suc n" using receipts_item_lt [OF ok, of a] by auto
next
  fix a k assume a: "a \<in> insert n its" "(key(n := kp)) a = Some k"
  show "?idem k = Some a"
  proof (cases "a = n")
    case True
    with a(2) show ?thesis by simp
  next
    case False
    with a have "idem k = Some a" using receipts_item [OF ok, of a k] by simp
    moreover from this fresh [of k] have "kp \<noteq> Some k" by auto
    ultimately show ?thesis by (simp split: option.split)
  qed
qed

text \<open>The replaced item leaves the items together with its receipt.\<close>

lemma receipts_remove:
  assumes ok: "receipts_ok its idem key n" and x: "x \<in> its"
    and idem': "idem' = (\<lambda>k. if key x = Some k then None else idem k)"
  shows "receipts_ok (its - {x}) idem' key n"
proof (rule receipts_okI)
  fix k a assume "idem' k = Some a"
  then have "idem k = Some a" unfolding idem' by (simp split: if_splits)
  then show "a < n \<and> key a = Some k" by (rule receipts_idem [OF ok])
next
  fix a assume "a \<in> its - {x}"
  then show "a < n" using receipts_item_lt [OF ok] by blast
next
  fix a k assume a: "a \<in> its - {x}" "key a = Some k"
  then have i: "idem k = Some a" using receipts_item [OF ok] by blast
  have "key x \<noteq> Some k"
  proof
    assume "key x = Some k"
    then have "idem k = Some x" by (rule receipts_item [OF ok x])
    with i a show False by simp
  qed
  with i show "idem' k = Some a" unfolding idem' by (simp only: if_False)
qed

lemmas queue_defs = put_record_def note_receipt_def lookup_receipt_def reset_pause_if_empty_def Let_def

lemma set_session_twice [simp]: "set_session s (set_session s r) = set_session s r"
  by (simp add: set_session_def)

lemma rebind_records_at:
  "rebind_records sid as st a = (if a \<in> set as then set_session sid (st a) else st a)"
proof (induction "as" arbitrary: st)
  case (Cons b as)
  then show ?case by (cases "a = b") auto
qed simp

lemma rebind_key [simp]:
  "idempotency_key (params (rebind_records sid as st a)) = idempotency_key (params (st a))"
  by (simp add: rebind_records_at set_session_def)

lemma rebind_queued [simp]: "queued (rebind_records sid as st a) = queued (st a)"
  by (simp add: rebind_records_at set_session_def)

lemma note_receipt_simps [simp]:
  "items (note_receipt k a q) = items q" "paused (note_receipt k a q) = paused q"
  "max_items (note_receipt k a q) = max_items q" "store (note_receipt k a q) = store q"
  "next_addr (note_receipt k a q) = next_addr q"
  "map_of (idempotency (note_receipt k a q)) =
     (case k of None \<Rightarrow> map_of (idempotency q) | Some k' \<Rightarrow> (map_of (idempotency q))(k' \<mapsto> a))"
  "distinct (map fst (idempotency q)) \<Longrightarrow> distinct (map fst (idempotency (note_receipt k a q)))"
  by (cases k; simp add: note_receipt_def distinct_dict_set)+

lemma enqueue_wf:
  assumes wf: "queue_wf q" and e: "enqueue v i t p q = Inr (q', r)" shows "queue_wf q'"
proof (cases "lookup_receipt q (idempotency_key p)")
  case (Some a)
  with assms show ?thesis by (auto simp: enqueue_def split: if_splits)
next
  case None
  define rec where "rec = \<lparr>params = p, queued = \<lparr>qt_id = i, qt_created_at = t, qt_entries = entries p\<rparr>\<rparr>"
  define q1 where "q1 = q\<lparr>store := (store q)(next_addr q := rec), next_addr := Suc (next_addr q),
      items := items q @ [next_addr q]\<rparr>"
  have q': "q' = note_receipt (idempotency_key p) (next_addr q) q1"
    and room: "length (items q) < max_items q"
    using None e by (auto simp: enqueue_def put_record_def Let_def q1_def rec_def split: if_splits)
  have rok: "receipts_ok (set (items q)) (map_of (idempotency q)) (key_at q) (next_addr q)"
    using wf by (simp add: queue_wf_def)
  have "key_at q' = (key_at q)(next_addr q := idempotency_key p)"
    by (auto simp: q' q1_def key_at_def rec_def fun_eq_iff)
  moreover have "receipts_ok (insert (next_addr q) (set (items q)))
      (map_of (idempotency (note_receipt (idempotency_key p) (next_addr q) q1)))
      ((key_at q)(next_addr q := idempotency_key p)) (Suc (next_addr q))"
  proof -
    have "receipts_ok (insert (next_addr q) (set (items q)))
        (case idempotency_key p of None \<Rightarrow> map_of (idempotency q)
         | Some k \<Rightarrow> (map_of (idempotency q))(k \<mapsto> next_addr q))
        ((key_at q)(next_addr q := idempotency_key p)) (Suc (next_addr q))"
      using None by (intro receipts_add [OF rok]) (simp add: lookup_receipt_def)
    moreover have "idempotency q1 = idempotency q" by (simp add: q1_def)
    ultimately show ?thesis by (simp only: note_receipt_simps)
  qed
  moreover have "items q1 = items q @ [next_addr q]" "idempotency q1 = idempotency q"
    "next_addr q1 = Suc (next_addr q)" "paused q1 = paused q" "max_items q1 = max_items q"
    by (simp_all add: q1_def)
  moreover have "next_addr q \<notin> set (items q)" using receipts_item_lt [OF rok] by blast
  ultimately show ?thesis
    using wf room unfolding queue_wf_def by (simp add: q' del: note_receipt_simps(6))
qed

lemma drop_item_sub:
  "set (take n xs @ drop (Suc n) xs) \<subseteq> set xs"
  by (auto dest: in_set_takeD in_set_dropD)

lemma drop_item_distinct: "distinct xs \<Longrightarrow> distinct (take n xs @ drop (Suc n) xs)"
proof -
  assume d: "distinct xs"
  have "set (take n xs) \<inter> set (drop (Suc n) xs) = {}"
    using d by (rule set_take_disj_set_drop_if_distinct) simp
  with d show ?thesis by simp
qed

lemma pause_reset_wf:
  assumes "queue_wf q" "distinct xs" "set xs \<subseteq> set (items q)" "length xs \<le> length (items q)"
  shows "queue_wf (reset_pause_if_empty (q\<lparr>items := xs\<rparr>))"
proof -
  have "key_at (q\<lparr>items := xs\<rparr>) = key_at q" "key_at (q\<lparr>items := [], paused := False\<rparr>) = key_at q"
    by (auto simp: key_at_def fun_eq_iff)
  moreover have "receipts_ok (set xs) (map_of (idempotency q)) (key_at q) (next_addr q)"
    using assms(1,3) unfolding queue_wf_def by (blast intro: receipts_subset)
  ultimately show ?thesis
    using assms unfolding queue_wf_def reset_pause_if_empty_def by (cases "xs = []") simp_all
qed

lemma remove_wf: "queue_wf q \<Longrightarrow> queue_wf (snd (remove_turn i q))"
proof (cases "index_of_id q i")
  case (Some n)
  assume wf: "queue_wf q"
  then have "distinct (take n (items q) @ drop (Suc n) (items q))"
    by (intro drop_item_distinct) (simp add: queue_wf_def)
  with Some wf show ?thesis
    unfolding remove_turn_def by (simp only: option.case snd_conv)
      (intro pause_reset_wf drop_item_sub, auto)
qed (simp add: remove_turn_def)

lemma tl_sub: "set (tl xs) \<subseteq> set xs"
  by (cases xs) auto

lemma pop_wf: "queue_wf q \<Longrightarrow> queue_wf (snd (pop_next q))"
proof (cases "peek_next q")
  case (Some a)
  assume wf: "queue_wf q"
  then have "distinct (tl (items q))" by (intro distinct_tl) (simp add: queue_wf_def)
  with Some wf show ?thesis
    unfolding pop_next_def by (simp only: option.case snd_conv)
      (intro pause_reset_wf, auto dest: list.set_sel(2) [rotated] simp: tl_sub)
qed (simp add: pop_next_def)

lemma replace_wf:
  assumes wf: "queue_wf q" and r: "replace_turn v item_id p q = Inr (q', r)" shows "queue_wf q'"
proof (cases "lookup_receipt q (idempotency_key p)")
  case (Some a)
  with r wf show ?thesis by (auto simp: replace_turn_def split: if_splits option.splits)
next
  case None
  from r obtain i where i: "index_of_id q item_id = Some i"
    by (auto simp: replace_turn_def split: option.splits)
  then have il: "i < length (items q)" by (simp add: index_of_id_def first_index_Some)
  define x where "x = items q ! i"
  define rec where "rec = \<lparr>params = p, queued = (queued (store q x))\<lparr>qt_entries := entries p\<rparr>\<rparr>"
  define idem where "idem = (case key_at q x of None \<Rightarrow> idempotency q | Some k \<Rightarrow> dict_pop k (idempotency q))"
  define q1 where "q1 = q\<lparr>store := (store q)(next_addr q := rec), next_addr := Suc (next_addr q),
      idempotency := idem, items := (items q)[i := next_addr q]\<rparr>"
  have q': "q' = note_receipt (idempotency_key p) (next_addr q) q1"
    using r i None by (auto simp: replace_turn_def put_record_def Let_def q1_def rec_def idem_def x_def
        key_at_def split: if_splits option.splits)
  have rok: "receipts_ok (set (items q)) (map_of (idempotency q)) (key_at q) (next_addr q)"
    and d: "distinct (items q)"
    using wf by (simp_all add: queue_wf_def)
  have xin: "x \<in> set (items q)" using il by (simp add: x_def)
  have idem': "map_of idem = (\<lambda>k. if key_at q x = Some k then None else map_of (idempotency q) k)"
    by (auto simp: idem_def fun_eq_iff split: option.splits)
  have idem_d: "distinct (map fst idem)"
    using wf by (auto simp: queue_wf_def idem_def distinct_dict_pop split: option.splits)
  have keys: "key_at q' = (key_at q)(next_addr q := idempotency_key p)"
    by (auto simp: q' q1_def key_at_def rec_def fun_eq_iff)
  have "receipts_ok (insert (next_addr q) (set (items q) - {x}))
      (map_of (idempotency (note_receipt (idempotency_key p) (next_addr q) q1)))
      ((key_at q)(next_addr q := idempotency_key p)) (Suc (next_addr q))"
  proof -
    have "receipts_ok (insert (next_addr q) (set (items q) - {x}))
        (case idempotency_key p of None \<Rightarrow> map_of idem | Some k \<Rightarrow> (map_of idem)(k \<mapsto> next_addr q))
        ((key_at q)(next_addr q := idempotency_key p)) (Suc (next_addr q))"
      using None by (intro receipts_add receipts_remove [OF rok xin idem']) (simp add: lookup_receipt_def idem')
    moreover have "idempotency q1 = idem" by (simp add: q1_def)
    ultimately show ?thesis by (simp only: note_receipt_simps)
  qed
  moreover have "set ((items q)[i := next_addr q]) = insert (next_addr q) (set (items q) - {x})"
    using set_update_distinct [OF d il] by (simp add: x_def)
  moreover have "distinct ((items q)[i := next_addr q])"
    using d receipts_item_lt [OF rok] by (intro distinct_list_update) auto
  moreover have "items q1 = (items q)[i := next_addr q]" "idempotency q1 = idem"
    "next_addr q1 = Suc (next_addr q)" "paused q1 = paused q" "max_items q1 = max_items q"
    by (simp_all add: q1_def)
  moreover have "items q \<noteq> []" using il by auto
  ultimately show ?thesis
    using wf idem_d unfolding queue_wf_def by (simp add: q' keys [unfolded q'] del: note_receipt_simps(6))
qed

lemma key_at_pause [simp]: "key_at (q\<lparr>paused := b\<rparr>) = key_at q"
  by (simp add: key_at_def fun_eq_iff)

lemma key_at_rebind [simp]: "key_at (rebind_session s q) = key_at q"
  by (simp add: key_at_def rebind_session_def fun_eq_iff)

lemma queue_step_wf: "queue_wf q \<Longrightarrow> queue_wf (queue_step v x q)"
proof (cases x)
  case (Enqueue i t p)
  assume "queue_wf q"
  with Enqueue show ?thesis using enqueue_wf [of q v i t p] by (auto split: sum.split)
next
  case (Replace i p)
  assume "queue_wf q"
  with Replace show ?thesis using replace_wf [of q v i p] by (auto split: sum.split)
next
  case (Rebind s)
  assume wf: "queue_wf q"
  have "items (rebind_session s q) = items q" "idempotency (rebind_session s q) = idempotency q"
    "paused (rebind_session s q) = paused q" "max_items (rebind_session s q) = max_items q"
    "next_addr (rebind_session s q) = next_addr q"
    by (simp_all add: rebind_session_def)
  with wf Rebind show ?thesis unfolding queue_wf_def by simp
next
  case Reset
  then show ?thesis by (simp add: queue_wf_def reset_queue_def receipts_ok_def)
next
  case Pause
  assume "queue_wf q"
  with Pause show ?thesis unfolding queue_wf_def by (cases "items q = [] \<or> paused q") (simp_all add: pause_def)
next
  case Resume
  assume "queue_wf q"
  with Resume show ?thesis unfolding queue_wf_def by (cases "paused q") (simp_all add: resume_def)
qed (simp_all add: remove_wf pop_wf)

lemma queue_run_wf: "queue_wf q \<Longrightarrow> queue_wf (queue_run v ops q)"
  unfolding queue_run_def by (induction ops arbitrary: q) (simp_all add: queue_step_wf del: queue_step.simps)

end
