(* ===== verification/Queue_Props.thy ===== *)
theory Queue_Props
  imports Turn_Queue
begin

text \<open>
  What the turn queue of \<open>app_server/_turn_queue.py\<close> promises: its bounds, first-in first-out
  order (through the interface \<open>fifo\<close>), retries of an enqueue, and replacement in place.
\<close>

section \<open>The interface of a first-in first-out queue\<close>

primrec drain :: "('q \<Rightarrow> 'a option \<times> 'q) \<Rightarrow> nat \<Rightarrow> 'q \<Rightarrow> 'a option list \<times> 'q" where
  "drain get 0 q = ([], q)"
| "drain get (Suc n) q = (let (x, q1) = get q; (xs, q2) = drain get n q1 in (x # xs, q2))"

primrec accepts_all :: "('x \<Rightarrow> 'q \<Rightarrow> bool) \<Rightarrow> ('x \<Rightarrow> 'q \<Rightarrow> 'q) \<Rightarrow> 'x list \<Rightarrow> 'q \<Rightarrow> bool" where
  "accepts_all ok put [] q = True"
| "accepts_all ok put (x # xs) q = (ok x q \<and> accepts_all ok put xs (put x q))"

locale fifo =
  fixes invar :: "'q \<Rightarrow> bool" and contents :: "'q \<Rightarrow> 'a list"
    and ok :: "'x \<Rightarrow> 'q \<Rightarrow> bool" and put :: "'x \<Rightarrow> 'q \<Rightarrow> 'q" and val :: "'x \<Rightarrow> 'a"
    and get :: "'q \<Rightarrow> 'a option \<times> 'q"
  assumes put_invar: "invar q \<Longrightarrow> ok x q \<Longrightarrow> invar (put x q)"
    and put_contents: "invar q \<Longrightarrow> ok x q \<Longrightarrow> contents (put x q) = contents q @ [val x]"
    and get_none: "invar q \<Longrightarrow> contents q = [] \<Longrightarrow> fst (get q) = None"
    and get_some: "invar q \<Longrightarrow> contents q = y # ys \<Longrightarrow> fst (get q) = Some y"
    and get_rest: "invar q \<Longrightarrow> contents (snd (get q)) = tl (contents q)"
    and get_invar: "invar q \<Longrightarrow> invar (snd (get q))"
begin

lemma puts: "invar q \<Longrightarrow> accepts_all ok put xs q \<Longrightarrow>
    invar (fold put xs q) \<and> contents (fold put xs q) = contents q @ map val xs"
  by (induction xs arbitrary: q) (auto simp: put_invar put_contents)

lemma drains: "invar q \<Longrightarrow> n \<le> length (contents q) \<Longrightarrow>
    fst (drain get n q) = map Some (take n (contents q)) \<and>
    invar (snd (drain get n q)) \<and> contents (snd (drain get n q)) = drop n (contents q)"
proof (induction n arbitrary: q)
  case (Suc n)
  then obtain y ys where c: "contents q = y # ys" by (cases "contents q") auto
  obtain x q1 where g: "get q = (x, q1)" by (cases "get q")
  with Suc.prems c have "x = Some y" "contents q1 = ys" "invar q1"
    using get_some [of q y ys] get_rest [of q] get_invar [of q] by auto
  with Suc.IH [of q1] Suc.prems c g show ?case by (simp add: split_beta)
qed simp

lemma in_order:
  assumes "invar q" "accepts_all ok put xs q"
  shows "fst (drain get (length (contents q) + length xs) (fold put xs q)) =
    map Some (contents q @ map val xs)"
  using drains [of "fold put xs q" "length (contents q) + length xs"] puts [OF assms] by simp

lemma empty_after:
  assumes "invar q" "accepts_all ok put xs q"
  shows "fst (get (snd (drain get (length (contents q) + length xs) (fold put xs q)))) = None"
  using drains [of "fold put xs q" "length (contents q) + length xs"] puts [OF assms]
  by (intro get_none) simp_all

end

section \<open>The turn queue is one\<close>

text \<open>A request is what one call of \<open>enqueue\<close> gets: the fresh id, the time and the parameters.\<close>

type_synonym request = "string \<times> int \<times> enqueue_params"

definition waiting :: "turn_queue \<Rightarrow> queued_record list" where
  "waiting q = map (store q) (items q)"

definition request_record :: "request \<Rightarrow> queued_record" where
  "request_record r = (case r of (i, t, p) \<Rightarrow>
     \<lparr>params = p, queued = \<lparr>qt_id = i, qt_created_at = t, qt_entries = entries p\<rparr>\<rparr>)"

definition fresh_request :: "(enqueue_params \<Rightarrow> bool) \<Rightarrow> request \<Rightarrow> turn_queue \<Rightarrow> bool" where
  "fresh_request v r q = (case r of (i, t, p) \<Rightarrow>
     lookup_receipt q (idempotency_key p) = None \<and> length (items q) < max_items q \<and> v p)"

definition put_request :: "(enqueue_params \<Rightarrow> bool) \<Rightarrow> request \<Rightarrow> turn_queue \<Rightarrow> turn_queue" where
  "put_request v r q = (case r of (i, t, p) \<Rightarrow> queue_step v (Enqueue i t p) q)"

definition next_turn :: "turn_queue \<Rightarrow> queued_record option \<times> turn_queue" where
  "next_turn q = (case pop_next q of (a, q') \<Rightarrow> (map_option (store q) a, q'))"

definition serving :: "turn_queue \<Rightarrow> bool" where
  "serving q \<longleftrightarrow> queue_wf q \<and> \<not> paused q"

lemma note_receipt_waiting [simp]: "waiting (note_receipt k a q) = waiting q"
  by (simp add: waiting_def)

lemma put_request_fresh:
  assumes "fresh_request v r q"
  shows "put_request v r q = note_receipt (idempotency_key (snd (snd r))) (next_addr q)
    (q\<lparr>store := (store q)(next_addr q := request_record r), next_addr := Suc (next_addr q),
       items := items q @ [next_addr q]\<rparr>)"
  using assms by (cases r) (auto simp: fresh_request_def put_request_def enqueue_def put_record_def
      request_record_def Let_def)

lemma put_request_wf: "queue_wf q \<Longrightarrow> queue_wf (put_request v r q)"
  unfolding put_request_def by (cases r) (simp add: queue_step_wf del: queue_step.simps)

lemma waiting_put_request:
  assumes "queue_wf q" "fresh_request v r q"
  shows "waiting (put_request v r q) = waiting q @ [request_record r]"
proof -
  have "next_addr q \<notin> set (items q)"
    using assms(1) receipts_item_lt unfolding queue_wf_def by blast
  then show ?thesis by (auto simp: put_request_fresh [OF assms(2)] waiting_def)
qed

lemma next_turn_wf: "queue_wf q \<Longrightarrow> queue_wf (snd (next_turn q))"
  using pop_wf [of q] by (simp add: next_turn_def split_beta)

lemma next_turn_unpaused:
  assumes "\<not> paused q"
  shows "fst (next_turn q) = (case waiting q of [] \<Rightarrow> None | x # _ \<Rightarrow> Some x)"
    "waiting (snd (next_turn q)) = tl (waiting q)" "\<not> paused (snd (next_turn q))"
  using assms by (cases "items q"; auto simp: next_turn_def pop_next_def peek_next_def waiting_def
      reset_pause_if_empty_def)+

interpretation turns: fifo serving waiting "fresh_request v" "put_request v" request_record next_turn
  for v
proof unfold_locales
  fix q x assume "serving q" "fresh_request v x q"
  then show "serving (put_request v x q)"
    using put_request_wf [of q v x] by (simp add: serving_def put_request_fresh)
  show "waiting (put_request v x q) = waiting q @ [request_record x]"
    using \<open>serving q\<close> \<open>fresh_request v x q\<close> by (simp add: serving_def waiting_put_request)
qed (auto simp: serving_def next_turn_unpaused next_turn_wf)

section \<open>Receipts survive every operation but replace and reset\<close>

fun keeps_receipts :: "queue_op \<Rightarrow> bool" where
  "keeps_receipts (Replace _ _) = False"
| "keeps_receipts Reset = False"
| "keeps_receipts _ = True"

fun rebound_to :: "queue_op list \<Rightarrow> string \<Rightarrow> string" where
  "rebound_to [] s = s"
| "rebound_to (Rebind s' # ops) s = rebound_to ops s'"
| "rebound_to (_ # ops) s = rebound_to ops s"

definition holds_receipt :: "string \<Rightarrow> nat \<Rightarrow> enqueue_params \<Rightarrow> turn_queue \<Rightarrow> bool" where
  "holds_receipt k a p q \<longleftrightarrow>
     map_of (idempotency q) k = Some a \<and> a < next_addr q \<and> params (store q a) = p"

lemma note_receipt_other:
  assumes "idempotency_key p' \<noteq> Some k"
  shows "map_of (idempotency (note_receipt (idempotency_key p') b q)) k = map_of (idempotency q) k"
  using assms by (cases "idempotency_key p'") auto

lemma enqueue_keeps_receipt:
  assumes h: "holds_receipt k a p q" and e: "enqueue v i t p' q = Inr (q', r)"
  shows "holds_receipt k a p q'"
proof (cases "lookup_receipt q (idempotency_key p')")
  case (Some b)
  with e h show ?thesis by (auto simp: enqueue_def split: if_splits)
next
  case None
  then have "idempotency_key p' \<noteq> Some k" using h by (auto simp: lookup_receipt_def holds_receipt_def)
  with None e h show ?thesis
    by (auto simp: enqueue_def put_record_def Let_def holds_receipt_def note_receipt_other
        simp del: note_receipt_simps(6) split: if_splits)
qed

lemma rebind_keeps_receipt:
  assumes "holds_receipt k a p q"
  shows "holds_receipt k a (p\<lparr>session_id := s\<rparr>) (rebind_session s q)"
proof -
  from assms have "a \<in> set (map snd (idempotency q))"
    unfolding holds_receipt_def by (auto dest: map_of_SomeD intro: rev_image_eqI)
  with assms show ?thesis
    by (auto simp: holds_receipt_def rebind_session_def rebind_records_at set_session_def)
qed

lemma receipt_fields:
  "holds_receipt k a p (q\<lparr>paused := b\<rparr>) = holds_receipt k a p q"
  "holds_receipt k a p (reset_pause_if_empty (q\<lparr>items := xs\<rparr>)) = holds_receipt k a p q"
  by (simp_all add: holds_receipt_def reset_pause_if_empty_def)

lemma step_keeps_receipt:
  assumes "holds_receipt k a p q" "keeps_receipts x"
  shows "holds_receipt k a (p\<lparr>session_id := rebound_to [x] (session_id p)\<rparr>) (queue_step v x q)"
proof (cases x)
  case (Enqueue i t p')
  with assms show ?thesis using enqueue_keeps_receipt by (auto split: sum.split)
next
  case (Rebind s)
  with assms show ?thesis by (simp add: rebind_keeps_receipt)
next
  case PopNext
  with assms show ?thesis by (auto simp: pop_next_def receipt_fields split: option.split)
next
  case (Remove i)
  with assms show ?thesis by (auto simp: remove_turn_def receipt_fields split: option.split)
next
  case Pause
  with assms show ?thesis by (simp add: pause_def receipt_fields)
next
  case Resume
  with assms show ?thesis by (simp add: resume_def receipt_fields)
qed (use assms in auto)

lemma rebound_to_Cons: "rebound_to (x # ops) s = rebound_to ops (rebound_to [x] s)"
  by (cases x) simp_all

lemma run_keeps_receipt:
  "holds_receipt k a p q \<Longrightarrow> \<forall>x \<in> set ops. keeps_receipts x \<Longrightarrow>
   holds_receipt k a (p\<lparr>session_id := rebound_to ops (session_id p)\<rparr>) (queue_run v ops q)"
proof (induction ops arbitrary: p q)
  case (Cons x ops)
  have "holds_receipt k a (p\<lparr>session_id := rebound_to [x] (session_id p)\<rparr>) (queue_step v x q)"
    using Cons.prems by (intro step_keeps_receipt) simp_all
  from Cons.IH [OF this] Cons.prems(2) show ?case
    by (simp add: queue_run_def rebound_to_Cons [of x ops] del: queue_step.simps rebound_to.simps)
qed (simp add: queue_run_def)

lemma enqueue_holds_receipt:
  assumes wf: "queue_wf q" and e: "enqueue v i t p q = Inr (q', r)" and k: "idempotency_key p = Some k"
  shows "holds_receipt k (er_record r) p q'"
proof (cases "lookup_receipt q (Some k)")
  case (Some a)
  moreover from Some wf have "a < next_addr q"
    using receipts_idem [of _ "map_of (idempotency q)" _ _ k a]
    by (auto simp: lookup_receipt_def queue_wf_def)
  ultimately show ?thesis
    using e k by (auto simp: enqueue_def lookup_receipt_def holds_receipt_def split: if_splits)
next
  case None
  with e k show ?thesis
    by (auto simp: enqueue_def put_record_def Let_def holds_receipt_def split: if_splits)
qed

lemma queue_step_max: "max_items (queue_step v x q) = max_items q"
  by (cases x) (auto simp: enqueue_def replace_turn_def pop_next_def remove_turn_def pause_def resume_def
      reset_queue_def rebind_session_def queue_defs split: option.split)

lemma queue_run_max: "max_items (queue_run v ops q) = max_items q"
  unfolding queue_run_def
  by (induction ops arbitrary: q) (simp_all add: queue_step_max del: queue_step.simps)

text \<open>What a replacement that was not a retry leaves behind.\<close>

lemma replace_new:
  assumes "replace_turn v item_id p q = Inr (q', r)" "\<not> er_duplicate r" "index_of_id q item_id = Some j"
  shows "items q' = (items q)[j := next_addr q]" "er_record r = next_addr q"
    "store q' = (store q)(next_addr q := \<lparr>params = p,
       queued = (queued (store q (items q ! j)))\<lparr>qt_entries := entries p\<rparr>\<rparr>)"
    "lookup_receipt q' (Some k) =
      (if idempotency_key p = Some k then Some (next_addr q)
       else if idempotency_key (params (store q (items q ! j))) = Some k then None
       else lookup_receipt q (Some k))"
  using assms
  by (auto simp: replace_turn_def put_record_def Let_def lookup_receipt_def split: option.splits if_splits)

section \<open>Properties\<close>

text \<open>
  C29. However a new queue is driven (including by refused calls), it never holds more turns
  than its bound, is never left paused while empty, holds no turn twice, and its idempotency
  receipts stay consistent with the queued turns (\<open>queue_wf\<close>).
\<close>

theorem queue_run_bounded:
  assumes "new_turn_queue n = Inr q"
  shows "length (pq_items (state_of (queue_run v ops q))) \<le> nat n \<and>
    pq_max (state_of (queue_run v ops q)) = nat n \<and> queue_wf (queue_run v ops q)"
proof -
  have "queue_wf q" using assms by (auto simp: new_turn_queue_def queue_wf_def receipts_ok_def split: if_splits)
  moreover have "max_items (queue_run v ops q) = nat n"
    using assms by (simp add: queue_run_max) (auto simp: new_turn_queue_def split: if_splits)
  ultimately show ?thesis
    using queue_run_wf [of q v ops] by (simp add: state_of_def queue_wf_def)
qed

definition ask :: "string \<Rightarrow> string \<Rightarrow> enqueue_params" where
  "ask k text = \<lparr>idempotency_key = Some k, session_id = ''s'', entries = [text]\<rparr>"

definition two_seat_queue :: turn_queue where
  "two_seat_queue = \<lparr>max_items = 2, items = [], paused = False, idempotency = [],
     store = (\<lambda>_. undefined), next_addr = 0\<rparr>"

lemma two_seat_queue_new: "new_turn_queue 2 = Inr two_seat_queue"
  by (simp add: new_turn_queue_def two_seat_queue_def)

lemma two_seat_queue_wf: "queue_wf two_seat_queue"
  by (simp add: two_seat_queue_def queue_wf_def receipts_ok_def)

theorem queue_run_bounded_witness:
  "length (pq_items (state_of (queue_run (\<lambda>_. True)
     [Enqueue ''a'' 1 (ask ''k'' ''x''), Pause, Enqueue ''b'' 2 (ask ''l'' ''y''),
      Enqueue ''c'' 3 (ask ''m'' ''z''), Remove ''a''] two_seat_queue))) \<le> nat 2"
  using queue_run_bounded [OF two_seat_queue_new] by blast

text \<open>
  C30. Turns accepted by an unpaused queue are handed out exactly once and in the order they
  were accepted, after the turns already waiting, and then the queue has nothing to hand out.
\<close>

theorem turns_served_in_order:
  assumes "queue_wf q" "\<not> paused q"
    and "accepts_all (fresh_request v) (put_request v) rs q"
  shows "fst (drain next_turn (length (items q) + length rs) (fold (put_request v) rs q)) =
      map Some (waiting q @ map request_record rs) \<and>
    fst (next_turn (snd (drain next_turn (length (items q) + length rs)
      (fold (put_request v) rs q)))) = None"
proof -
  have l: "length (items q) = length (waiting q)" by (simp add: waiting_def)
  have "serving q" using assms by (simp add: serving_def)
  with assms(3) show ?thesis unfolding l by (intro conjI turns.in_order turns.empty_after)
qed

theorem turns_served_in_order_witness:
  "fst (drain next_turn (length (items two_seat_queue) + 2)
     (fold (put_request (\<lambda>_. True)) [(''a'', 1, ask ''k'' ''x''), (''b'', 2, ask ''l'' ''y'')]
        two_seat_queue)) =
   [Some (request_record (''a'', 1, ask ''k'' ''x'')), Some (request_record (''b'', 2, ask ''l'' ''y''))]"
proof -
  have "accepts_all (fresh_request (\<lambda>_. True)) (put_request (\<lambda>_. True))
      [(''a'', 1, ask ''k'' ''x''), (''b'', 2, ask ''l'' ''y'')] two_seat_queue"
    by (simp add: fresh_request_def put_request_def two_seat_queue_def enqueue_def lookup_receipt_def
        ask_def put_record_def note_receipt_def)
  from turns_served_in_order [OF two_seat_queue_wf _ this] show ?thesis
    by (simp add: waiting_def two_seat_queue_def)
qed

text \<open>
  Retrying an accepted request is harmless: after any operations other than a replacement
  or a reset (other requests, pops, removals, pauses, even a change of session), the same
  request with the session it now belongs to is answered with the very record of the first
  call, marked as a duplicate, and the queue does not change.
\<close>

theorem retry_is_duplicate:
  assumes "queue_wf q" "enqueue v i t p q = Inr (q1, r)" "idempotency_key p \<noteq> None"
    and "\<forall>x \<in> set ops. keeps_receipts x"
  shows "enqueue v i' t' (p\<lparr>session_id := rebound_to ops (session_id p)\<rparr>) (queue_run v ops q1) =
    Inr (queue_run v ops q1, \<lparr>er_record = er_record r, er_duplicate = True\<rparr>)"
proof -
  from assms(3) obtain k where k: "idempotency_key p = Some k" by blast
  from run_keeps_receipt [OF enqueue_holds_receipt [OF assms(1,2) k] assms(4)] k show ?thesis
    by (simp add: enqueue_def lookup_receipt_def holds_receipt_def)
qed

theorem retry_is_duplicate_witness:
  "\<exists>q1 r. enqueue (\<lambda>_. True) ''a'' 1 (ask ''k'' ''x'') two_seat_queue = Inr (q1, r) \<and>
     enqueue (\<lambda>_. True) ''b'' 2 ((ask ''k'' ''x'')\<lparr>session_id := ''t''\<rparr>)
       (queue_run (\<lambda>_. True) [PopNext, Rebind ''t''] q1) =
     Inr (queue_run (\<lambda>_. True) [PopNext, Rebind ''t''] q1,
       \<lparr>er_record = er_record r, er_duplicate = True\<rparr>)"
proof -
  obtain q1 r where e: "enqueue (\<lambda>_. True) ''a'' 1 (ask ''k'' ''x'') two_seat_queue = Inr (q1, r)"
    by (simp add: enqueue_def two_seat_queue_def lookup_receipt_def Let_def ask_def)
  have "idempotency_key (ask ''k'' ''x'') \<noteq> None" by (simp add: ask_def)
  from retry_is_duplicate [OF two_seat_queue_wf e this, of "[PopNext, Rebind ''t'']" "''b''" 2] e
  show ?thesis by auto
qed

text \<open>
  Replacing a queued turn keeps its place, its id and its creation time, leaves every
  other waiting turn as it was, drops the receipt of the old request and files the new one's.
\<close>

theorem replace_in_place:
  assumes "queue_wf q" "replace_turn v item_id p q = Inr (q', r)" "\<not> er_duplicate r"
  shows "\<exists>j old. index_of_id q item_id = Some j \<and> old = waiting q ! j \<and>
    waiting q' = (waiting q)[j := \<lparr>params = p, queued = (queued old)\<lparr>qt_entries := entries p\<rparr>\<rparr>] \<and>
    (\<forall>k. lookup_receipt q' (Some k) =
      (if idempotency_key p = Some k then Some (er_record r)
       else if idempotency_key (params old) = Some k then None
       else lookup_receipt q (Some k)))"
proof -
  from assms(2) obtain j where j: "index_of_id q item_id = Some j"
    by (auto simp: replace_turn_def split: option.splits)
  then have jl: "j < length (items q)" by (simp add: index_of_id_def first_index_Some)
  have fresh: "next_addr q \<notin> set (items q)"
    using assms(1) receipts_item_lt unfolding queue_wf_def by blast
  note q' = replace_new [OF assms(2,3) j]
  have "waiting q' = (waiting q)[j := store q' (next_addr q)]"
    using jl fresh by (intro nth_equalityI) (auto simp: waiting_def q' nth_list_update dest: nth_mem)
  moreover have "waiting q ! j = store q (items q ! j)" using jl by (simp add: waiting_def)
  ultimately show ?thesis using j by (auto simp: q')
qed

theorem replace_in_place_witness:
  "\<exists>q1 r1 q2 r2. enqueue (\<lambda>_. True) ''a'' 1 (ask ''k'' ''x'') two_seat_queue = Inr (q1, r1) \<and>
     replace_turn (\<lambda>_. True) ''a'' (ask ''l'' ''y'') q1 = Inr (q2, r2) \<and> \<not> er_duplicate r2 \<and>
     length (waiting q2) = 1 \<and> lookup_receipt q2 (Some ''k'') = None"
proof -
  obtain q1 r1 where e: "enqueue (\<lambda>_. True) ''a'' 1 (ask ''k'' ''x'') two_seat_queue = Inr (q1, r1)"
    by (simp add: enqueue_def two_seat_queue_def lookup_receipt_def Let_def ask_def)
  then have q1: "q1 = \<lparr>max_items = 2, items = [0], paused = False, idempotency = [(''k'', 0)],
      store = (\<lambda>_. undefined)(0 := \<lparr>params = ask ''k'' ''x'', queued = \<lparr>qt_id = ''a'', qt_created_at = 1,
        qt_entries = [''x'']\<rparr>\<rparr>), next_addr = 1\<rparr>"
    by (simp add: enqueue_def two_seat_queue_def lookup_receipt_def put_record_def note_receipt_def
        Let_def ask_def)
  obtain q2 r2 where r: "replace_turn (\<lambda>_. True) ''a'' (ask ''l'' ''y'') q1 = Inr (q2, r2)"
    "\<not> er_duplicate r2"
    by (simp add: q1 replace_turn_def index_of_id_def lookup_receipt_def Let_def ask_def)
  from replace_in_place [OF enqueue_wf [OF two_seat_queue_wf e] r]
  have "length (waiting q2) = 1 \<and> lookup_receipt q2 (Some ''k'') = None"
    by (auto simp: q1 ask_def waiting_def index_of_id_def split: if_splits)
  with e r show ?thesis by blast
qed

end
