(* ===== verification/Completion.thy ===== *)
theory Completion
  imports Py_Value
begin

text \<open>
  The completion contract of \<open>core/completion_contract.py\<close>: the envelope and receipt grammar,
  the pre-checks that name a grammar violation in a raw payload, and the audit truth table
  \<open>classify_completion\<close>.  The pydantic \<open>model_validate\<close> of a raw payload is a parameter
  (\<open>None\<close> is a \<open>ValidationError\<close>).  A raised \<open>TypeError\<close> is a value \<open>Inl TypeErr\<close>.
\<close>

section \<open>Vocabularies and models\<close>

definition completion_contract_schema_version :: int where
  "completion_contract_schema_version = 1"

definition completion_envelope_marker :: string where
  "completion_envelope_marker = ''completion_envelope_v1''"

definition max_envelope_requirements :: nat where "max_envelope_requirements = 16"
definition max_satisfied_requirements :: nat where "max_satisfied_requirements = 16"
definition max_requirement_id_length :: nat where "max_requirement_id_length = 64"
definition max_claimed_values :: nat where "max_claimed_values = 16"
definition max_claimed_value_length :: nat where "max_claimed_value_length = 1024"

datatype check_template = Pytest | Ruff_Check | Pyright | Git_Head | Git_Status | Git_Diff_Stat
datatype artifact_kind = Commit | Touched_Path | Check_Pass | Envelope

fun template_value :: "check_template \<Rightarrow> string" where
  "template_value Pytest = ''pytest''"
| "template_value Ruff_Check = ''ruff_check''"
| "template_value Pyright = ''pyright''"
| "template_value Git_Head = ''git_head''"
| "template_value Git_Status = ''git_status''"
| "template_value Git_Diff_Stat = ''git_diff_stat''"

fun artifact_value :: "artifact_kind \<Rightarrow> string" where
  "artifact_value Commit = ''commit''"
| "artifact_value Touched_Path = ''touched_path''"
| "artifact_value Check_Pass = ''check_pass''"
| "artifact_value Envelope = ''envelope''"

definition all_templates :: "check_template list" where
  "all_templates = [Pytest, Ruff_Check, Pyright, Git_Head, Git_Status, Git_Diff_Stat]"

definition all_artifacts :: "artifact_kind list" where
  "all_artifacts = [Commit, Touched_Path, Check_Pass, Envelope]"

definition template_values :: "pyval list" where
  "template_values = map (PStr \<circ> template_value) all_templates"

definition artifact_values :: "pyval list" where
  "artifact_values = map (PStr \<circ> artifact_value) all_artifacts"

record completion_requirement =
  requirement_id :: string
  req_template :: "check_template option"
  req_artifact :: "artifact_kind option"

record completion_envelope =
  env_marker :: string
  env_schema_version :: int
  requirements :: "completion_requirement list"

record completion_receipt =
  rec_marker :: string
  rec_schema_version :: int
  rec_envelope :: "completion_envelope option"
  satisfied_requirement_ids :: "string list"
  claimed_values :: "(string \<times> string) list"

datatype failure_word = Denied | Timeout | Unavailable | Unrunnable

record completion_evidence =
  requirement_ids_observed :: "string list"
  contradicted_requirement_ids :: "string list"
  runtime_failure :: "failure_word option"

datatype claim_fidelity = Claim_Matched | Claim_Unverified | Claim_Contradicted
datatype disclosure = Disclosure_Complete | Disclosure_Incomplete
datatype mandate_satisfaction = Mandate_Satisfied | Mandate_Unaddressed | Mandate_Disabled
datatype declared_outcome = Outcome_Completed | Outcome_Incomplete
datatype runtime_axis =
  Runtime_Healthy | Runtime_Denied | Runtime_Timeout | Runtime_Unavailable | Runtime_Unrunnable
datatype rejection_reason =
  Envelope_Malformed | Envelope_Duplicate | Envelope_Unknown_Field | Envelope_Oversized
  | Requirement_Id_Unknown | Requirement_Id_Duplicate | Receipt_Unverifiable | Reject_Contradicted

record classification =
  cl_schema_version :: int
  cl_fidelity :: claim_fidelity
  cl_disclosure :: disclosure
  cl_mandate :: mandate_satisfaction
  cl_declared :: declared_outcome
  cl_runtime :: runtime_axis
  cl_rejection :: "rejection_reason option"

text \<open>The field constraints and the \<open>model_validator\<close>s of the pydantic models.\<close>

definition requirement_valid :: "completion_requirement \<Rightarrow> bool" where
  "requirement_valid r \<longleftrightarrow>
     1 \<le> length (requirement_id r) \<and> length (requirement_id r) \<le> max_requirement_id_length \<and>
     (req_template r = None) \<noteq> (req_artifact r = None)"

definition requirement_ids :: "completion_envelope \<Rightarrow> string list" where
  "requirement_ids e = map requirement_id (requirements e)"

definition envelope_valid :: "completion_envelope \<Rightarrow> bool" where
  "envelope_valid e \<longleftrightarrow>
     env_marker e = completion_envelope_marker \<and> env_schema_version e \<ge> 1 \<and>
     1 \<le> length (requirements e) \<and> length (requirements e) \<le> max_envelope_requirements \<and>
     list_all requirement_valid (requirements e) \<and> distinct (requirement_ids e)"

definition receipt_valid :: "completion_receipt \<Rightarrow> bool" where
  "receipt_valid r \<longleftrightarrow>
     rec_marker r = completion_envelope_marker \<and> rec_schema_version r \<ge> 1 \<and>
     (case rec_envelope r of None \<Rightarrow> True | Some e \<Rightarrow> envelope_valid e) \<and>
     length (satisfied_requirement_ids r) \<le> max_satisfied_requirements \<and>
     (case rec_envelope r of None \<Rightarrow> True
      | Some e \<Rightarrow> list_all (\<lambda>i. i \<in> set (requirement_ids e)) (satisfied_requirement_ids r)) \<and>
     distinct (satisfied_requirement_ids r) \<and>
     length (claimed_values r) \<le> max_claimed_values \<and>
     list_all (\<lambda>(k, v). k \<noteq> [] \<and> length k \<le> max_requirement_id_length \<and>
                        length v \<le> max_claimed_value_length) (claimed_values r) \<and>
     (case rec_envelope r of None \<Rightarrow> True
      | Some e \<Rightarrow> list_all (\<lambda>(k, v). k \<in> set (requirement_ids e)) (claimed_values r))"

section \<open>Naming a grammar violation\<close>

fun schema_version_is_valid :: "pyval \<Rightarrow> bool" where
  "schema_version_is_valid (PInt n) = (n \<ge> 1)"
| "schema_version_is_valid _ = False"

text \<open>Membership in a \<open>frozenset\<close> hashes the value first; lists and dictionaries raise.\<close>

fun hashable :: "pyval \<Rightarrow> bool" where
  "hashable (PList _) = False"
| "hashable (PDict _) = False"
| "hashable (PTuple xs) = list_all hashable xs"
| "hashable _ = True"

definition in_frozenset :: "pyval \<Rightarrow> pyval list \<Rightarrow> py_error + bool" where
  "in_frozenset v xs = (if hashable v then Inr (v \<in> set xs) else Inl TypeErr)"

definition unknown_keys :: "(pyval \<times> pyval) list \<Rightarrow> string list \<Rightarrow> bool" where
  "unknown_keys d known \<longleftrightarrow> \<not> set (map fst d) \<subseteq> PStr ` set known"

definition envelope_fields :: "string list" where
  "envelope_fields = [''marker'', ''schema_version'', ''requirements'']"

definition requirement_fields :: "string list" where
  "requirement_fields = [''requirement_id'', ''template'', ''artifact'']"

definition receipt_fields :: "string list" where
  "receipt_fields = [''marker'', ''schema_version'', ''envelope'', ''satisfied_requirement_ids'',
                     ''claimed_values'']"

text \<open>A binding is checked only when it is given: \<open>value is not None and value not in allowed\<close>.\<close>

definition binding_bad :: "pyval \<Rightarrow> pyval list \<Rightarrow> py_error + bool" where
  "binding_bad v allowed =
     (if v = PNone then Inr False
      else case in_frozenset v allowed of Inl e \<Rightarrow> Inl e | Inr b \<Rightarrow> Inr (\<not> b))"

definition check_requirement :: "pyval \<Rightarrow> py_error + (rejection_reason + string)" where
  "check_requirement v =
     (if \<not> is_mapping v then Inr (Inl Envelope_Malformed)
      else let d = entries_of v; i = py_get d ''requirement_id'' PNone;
               t = py_get d ''template'' PNone; a = py_get d ''artifact'' PNone
      in if unknown_keys d requirement_fields then Inr (Inl Envelope_Unknown_Field)
      else if \<not> is_str i \<or> str_of i = [] then Inr (Inl Envelope_Malformed)
      else if length (str_of i) > max_requirement_id_length then Inr (Inl Envelope_Oversized)
      else if (t = PNone) = (a = PNone) then Inr (Inl Envelope_Malformed)
      else case binding_bad t template_values of
        Inl e \<Rightarrow> Inl e
      | Inr True \<Rightarrow> Inr (Inl Envelope_Malformed)
      | Inr False \<Rightarrow>
          (case binding_bad a artifact_values of
             Inl e \<Rightarrow> Inl e
           | Inr True \<Rightarrow> Inr (Inl Envelope_Malformed)
           | Inr False \<Rightarrow> Inr (Inr (str_of i))))"

fun check_requirements :: "pyval list \<Rightarrow> string list \<Rightarrow> py_error + rejection_reason option" where
  "check_requirements [] ids =
     Inr (if length ids \<noteq> card (set ids) then Some Requirement_Id_Duplicate else None)"
| "check_requirements (v # vs) ids =
     (case check_requirement v of
        Inl e \<Rightarrow> Inl e
      | Inr (Inl r) \<Rightarrow> Inr (Some r)
      | Inr (Inr i) \<Rightarrow> check_requirements vs (ids @ [i]))"

definition envelope_grammar_rejection :: "pyval \<Rightarrow> py_error + rejection_reason option" where
  "envelope_grammar_rejection payload =
     (if \<not> is_mapping payload then Inr (Some Envelope_Malformed)
      else let d = entries_of payload; reqs = py_get d ''requirements'' PNone
      in if unknown_keys d envelope_fields then Inr (Some Envelope_Unknown_Field)
      else if py_get d ''marker'' PNone \<noteq> PStr completion_envelope_marker
      then Inr (Some Envelope_Malformed)
      else if \<not> schema_version_is_valid (py_get d ''schema_version'' PNone)
      then Inr (Some Envelope_Malformed)
      else if \<not> is_list reqs \<or> elems_of reqs = [] then Inr (Some Envelope_Malformed)
      else if length (elems_of reqs) > max_envelope_requirements then Inr (Some Envelope_Oversized)
      else check_requirements (elems_of reqs) [])"

fun claimed_scan :: "(pyval \<times> pyval) list \<Rightarrow> rejection_reason option" where
  "claimed_scan [] = None"
| "claimed_scan ((k, v) # rest) =
     (if \<not> is_str k \<or> str_of k = [] then Some Envelope_Malformed
      else if length (str_of k) > max_requirement_id_length then Some Envelope_Oversized
      else if \<not> is_str v then Some Envelope_Malformed
      else if length (str_of v) > max_claimed_value_length then Some Envelope_Oversized
      else claimed_scan rest)"

definition claimed_values_grammar_rejection :: "pyval \<Rightarrow> rejection_reason option" where
  "claimed_values_grammar_rejection claimed =
     (if \<not> is_mapping claimed then Some Envelope_Malformed
      else if length (entries_of claimed) > max_claimed_values then Some Envelope_Oversized
      else claimed_scan (entries_of claimed))"

definition is_sequence :: "pyval \<Rightarrow> bool" where
  "is_sequence v = (case v of PList _ \<Rightarrow> True | PTuple _ \<Rightarrow> True | _ \<Rightarrow> False)"

definition receipt_grammar_rejection ::
  "(pyval \<Rightarrow> completion_envelope option) \<Rightarrow> pyval \<Rightarrow> py_error + rejection_reason option" where
  "receipt_grammar_rejection validate payload =
     (if \<not> is_mapping payload then Inr (Some Envelope_Malformed)
      else let d = entries_of payload; env = py_get d ''envelope'' PNone;
               sat = py_get d ''satisfied_requirement_ids'' (PTuple []);
               claimed = py_get d ''claimed_values'' (PDict [])
      in if unknown_keys d receipt_fields then Inr (Some Envelope_Unknown_Field)
      else if py_get d ''marker'' PNone \<noteq> PStr completion_envelope_marker
      then Inr (Some Envelope_Malformed)
      else if \<not> schema_version_is_valid (py_get d ''schema_version'' PNone)
      then Inr (Some Envelope_Malformed)
      else case (if env = PNone then Inr None else envelope_grammar_rejection env) of
        Inl e \<Rightarrow> Inl e
      | Inr (Some r) \<Rightarrow> Inr (Some r)
      | Inr None \<Rightarrow>
          (if \<not> is_sequence sat then Inr (Some Envelope_Malformed)
           else if length (elems_of sat) > max_satisfied_requirements then Inr (Some Envelope_Oversized)
           else if list_ex (\<lambda>v. \<not> is_str v \<or> str_of v = []) (elems_of sat)
           then Inr (Some Envelope_Malformed)
           else if length (elems_of sat) \<noteq> card (set (elems_of sat))
           then Inr (Some Requirement_Id_Duplicate)
           else case claimed_values_grammar_rejection claimed of
             Some r \<Rightarrow> Inr (Some r)
           | None \<Rightarrow>
               (if env = PNone then Inr None
                else case validate env of
                  None \<Rightarrow> Inr (Some Envelope_Malformed)
                | Some bound \<Rightarrow>
                    let known = set (map PStr (requirement_ids bound)) in
                    if list_ex (\<lambda>v. v \<notin> known) (elems_of sat) then Inr (Some Requirement_Id_Unknown)
                    else if list_ex (\<lambda>(k, v). k \<notin> known) (entries_of claimed)
                    then Inr (Some Requirement_Id_Unknown)
                    else Inr None)))"

section \<open>The audit truth table\<close>

text \<open>An argument is absent, a typed model, or a raw payload.\<close>

datatype 'm audited = Absent | Typed 'm | Raw pyval

definition empty_evidence :: completion_evidence where
  "empty_evidence = \<lparr>requirement_ids_observed = [], contradicted_requirement_ids = [],
                     runtime_failure = None\<rparr>"

definition normalize_evidence ::
  "(pyval \<Rightarrow> completion_evidence option) \<Rightarrow> completion_evidence audited \<Rightarrow> completion_evidence" where
  "normalize_evidence validate ev =
     (case ev of
        Absent \<Rightarrow> empty_evidence
      | Typed e \<Rightarrow> e
      | Raw v \<Rightarrow> (case validate v of Some e \<Rightarrow> e | None \<Rightarrow> empty_evidence))"

definition claimed_values_from_receipt :: "completion_receipt audited \<Rightarrow> (string \<times> string) list" where
  "claimed_values_from_receipt claim =
     (case claim of
        Absent \<Rightarrow> []
      | Typed r \<Rightarrow> claimed_values r
      | Raw v \<Rightarrow>
          (let raw = py_get (entries_of v) ''claimed_values'' PNone
           in if is_mapping v \<and> is_mapping raw
              then map (\<lambda>(k, w). (str_of k, str_of w))
                     (filter (\<lambda>(k, w). is_str k \<and> is_str w) (entries_of raw))
              else []))"

fun failure_axis :: "failure_word option \<Rightarrow> runtime_axis" where
  "failure_axis None = Runtime_Healthy"
| "failure_axis (Some Denied) = Runtime_Denied"
| "failure_axis (Some Timeout) = Runtime_Timeout"
| "failure_axis (Some Unavailable) = Runtime_Unavailable"
| "failure_axis (Some Unrunnable) = Runtime_Unrunnable"

text \<open>
  What the mandate and the receipt resolve to: a raised error, a rejection, or the model
  (an absent mandate has returned before).
  \<open>elif isinstance(\<dots>)/else\<close>: a raw value that is not a mapping is malformed.
\<close>

definition resolve_mandate ::
  "(pyval \<Rightarrow> completion_envelope option) \<Rightarrow> completion_envelope audited \<Rightarrow>
     py_error + (rejection_reason + completion_envelope)" where
  "resolve_mandate validate mandate =
     (case mandate of
        Raw v \<Rightarrow>
          (if is_mapping v then
             (case envelope_grammar_rejection v of
                Inl e \<Rightarrow> Inl e
              | Inr (Some r) \<Rightarrow> Inr (Inl r)
              | Inr None \<Rightarrow>
                  (case validate v of None \<Rightarrow> Inr (Inl Envelope_Malformed) | Some e \<Rightarrow> Inr (Inr e)))
           else Inr (Inl Envelope_Malformed))
      | Typed e \<Rightarrow> Inr (Inr e)
      | Absent \<Rightarrow> Inr (Inl Envelope_Malformed))"

definition resolve_receipt ::
  "(pyval \<Rightarrow> completion_envelope option) \<Rightarrow> (pyval \<Rightarrow> completion_receipt option) \<Rightarrow>
     completion_receipt audited \<Rightarrow> py_error + (rejection_reason + completion_receipt)" where
  "resolve_receipt validate_env validate receipt =
     (case receipt of
        Absent \<Rightarrow> Inr (Inl Receipt_Unverifiable)
      | Raw v \<Rightarrow>
          (if is_mapping v then
             (case receipt_grammar_rejection validate_env v of
                Inl e \<Rightarrow> Inl e
              | Inr (Some r) \<Rightarrow> Inr (Inl r)
              | Inr None \<Rightarrow>
                  (case validate v of None \<Rightarrow> Inr (Inl Envelope_Malformed) | Some c \<Rightarrow> Inr (Inr c)))
           else Inr (Inl Envelope_Malformed))
      | Typed c \<Rightarrow> Inr (Inr c))"

definition audit_stamp ::
  "bool \<Rightarrow> runtime_axis \<Rightarrow> claim_fidelity \<Rightarrow> disclosure \<Rightarrow> mandate_satisfaction \<Rightarrow>
     rejection_reason option \<Rightarrow> classification" where
  "audit_stamp declared axis fidelity disc mandate reason =
     \<lparr>cl_schema_version = completion_contract_schema_version, cl_fidelity = fidelity,
      cl_disclosure = disc, cl_mandate = mandate,
      cl_declared = (if declared then Outcome_Completed else Outcome_Incomplete),
      cl_runtime = axis, cl_rejection = (if axis = Runtime_Healthy then reason else None)\<rparr>"

definition classify_claim ::
  "bool \<Rightarrow> completion_evidence \<Rightarrow> completion_envelope \<Rightarrow> completion_receipt \<Rightarrow> classification" where
  "classify_claim declared ev envelope claim =
     (let axis = failure_axis (runtime_failure ev);
          required = set (requirement_ids envelope);
          satisfied = set (satisfied_requirement_ids claim);
          unaddressed = required - satisfied;
          observed = set (requirement_ids_observed ev);
          contradicted = (if axis = Runtime_Healthy
                          then satisfied \<inter> set (contradicted_requirement_ids ev) else {});
          disc = (if unaddressed = {} then Disclosure_Complete else Disclosure_Incomplete);
          mand = (if unaddressed = {} then Mandate_Satisfied else Mandate_Unaddressed)
      in if satisfied - required \<noteq> {}
         then audit_stamp declared axis Claim_Unverified Disclosure_Incomplete Mandate_Unaddressed
                (Some Requirement_Id_Unknown)
         else if contradicted \<noteq> {}
         then audit_stamp declared axis Claim_Contradicted disc mand (Some Reject_Contradicted)
         else audit_stamp declared axis
                (if required \<subseteq> satisfied \<and> required \<subseteq> observed then Claim_Matched else Claim_Unverified)
                disc mand None)"

definition classify_completion ::
  "(pyval \<Rightarrow> completion_envelope option) \<Rightarrow> (pyval \<Rightarrow> completion_receipt option) \<Rightarrow>
   (pyval \<Rightarrow> completion_evidence option) \<Rightarrow> completion_envelope audited \<Rightarrow>
   completion_receipt audited \<Rightarrow> bool \<Rightarrow> completion_evidence audited \<Rightarrow> py_error + classification" where
  "classify_completion ve vr vd mandate receipt declared evidence =
     (let ev = normalize_evidence vd evidence;
          axis = failure_axis (runtime_failure ev);
          refuse = (\<lambda>r. audit_stamp declared axis Claim_Unverified Disclosure_Incomplete
                           Mandate_Unaddressed (Some r))
      in if mandate = Absent
         then Inr (audit_stamp declared axis Claim_Unverified Disclosure_Complete Mandate_Disabled None)
         else case resolve_mandate ve mandate of
           Inl e \<Rightarrow> Inl e
         | Inr (Inl r) \<Rightarrow> Inr (refuse r)
         | Inr (Inr envelope) \<Rightarrow>
             (case resolve_receipt ve vr receipt of
                Inl e \<Rightarrow> Inl e
              | Inr (Inl r) \<Rightarrow> Inr (refuse r)
              | Inr (Inr claim) \<Rightarrow> Inr (classify_claim declared ev envelope claim)))"

end
