(* ===== verification/Completion_Props.thy ===== *)
theory Completion_Props
  imports Completion
begin

text \<open>
  What the completion contract guarantees: the grammar pre-check accepts exactly the payloads
  of valid envelopes, the audit blames a worker only on direct evidence, and what a matched
  claim means.  Two theorems show where the code departs from its documentation.
\<close>

section \<open>The grammar of record\<close>

text \<open>The typed reading of a raw payload: the declared fields and no other.\<close>

fun option_of :: "('a \<Rightarrow> string) \<Rightarrow> 'a list \<Rightarrow> pyval \<Rightarrow> 'a option option" where
  "option_of f xs PNone = Some None"
| "option_of f xs (PStr s) = map_option Some (find (\<lambda>x. f x = s) xs)"
| "option_of f xs _ = None"

definition parse_requirement :: "pyval \<Rightarrow> completion_requirement option" where
  "parse_requirement v =
     (if is_mapping v \<and> \<not> unknown_keys (entries_of v) requirement_fields then
        (case (py_get (entries_of v) ''requirement_id'' PNone,
               option_of template_value all_templates (py_get (entries_of v) ''template'' PNone),
               option_of artifact_value all_artifacts (py_get (entries_of v) ''artifact'' PNone)) of
           (PStr i, Some t, Some a) \<Rightarrow>
             Some \<lparr>requirement_id = i, req_template = t, req_artifact = a\<rparr>
         | _ \<Rightarrow> None)
      else None)"

definition parse_envelope :: "pyval \<Rightarrow> completion_envelope option" where
  "parse_envelope v =
     (if is_mapping v \<and> \<not> unknown_keys (entries_of v) envelope_fields then
        (case (py_get (entries_of v) ''marker'' PNone, py_get (entries_of v) ''schema_version'' PNone,
               py_get (entries_of v) ''requirements'' PNone) of
           (PStr m, PInt n, PList rs) \<Rightarrow>
             map_option (\<lambda>qs. \<lparr>env_marker = m, env_schema_version = n, requirements = qs\<rparr>)
               (those (map parse_requirement rs))
         | _ \<Rightarrow> None)
      else None)"

lemma find_mem: "(\<exists>x. find (\<lambda>x. f x = s) xs = Some x) \<longleftrightarrow> s \<in> f ` set xs"
  by (induction xs) auto

lemma binding_ok:
  "binding_bad v (map (PStr \<circ> f) xs) = Inr False \<longleftrightarrow> (\<exists>t. option_of f xs v = Some t)"
proof (cases v)
  case (PStr s)
  then show ?thesis using find_mem [of f s xs] by (auto simp: binding_bad_def in_frozenset_def)
qed (auto simp: binding_bad_def in_frozenset_def)

lemma option_of_None: "option_of f xs v = Some t \<Longrightarrow> t = None \<longleftrightarrow> v = PNone"
  by (cases v) auto

lemma check_requirement_ok:
  "check_requirement v = Inr (Inr i) \<longleftrightarrow>
   (\<exists>r. parse_requirement v = Some r \<and> requirement_valid r \<and> requirement_id r = i)"
proof (cases "is_mapping v \<and> \<not> unknown_keys (entries_of v) requirement_fields")
  case False
  then show ?thesis by (auto simp: check_requirement_def parse_requirement_def Let_def)
next
  case True
  define w where "w = py_get (entries_of v) ''requirement_id'' PNone"
  define t where "t = py_get (entries_of v) ''template'' PNone"
  define a where "a = py_get (entries_of v) ''artifact'' PNone"
  have tb: "binding_bad t template_values = Inr False \<longleftrightarrow> (\<exists>x. option_of template_value all_templates t = Some x)"
    unfolding template_values_def by (rule binding_ok)
  have ab: "binding_bad a artifact_values = Inr False \<longleftrightarrow> (\<exists>x. option_of artifact_value all_artifacts a = Some x)"
    unfolding artifact_values_def by (rule binding_ok)
  have l: "check_requirement v = Inr (Inr i) \<longleftrightarrow>
      w = PStr i \<and> i \<noteq> [] \<and> length i \<le> max_requirement_id_length \<and> (t = PNone) \<noteq> (a = PNone) \<and>
      binding_bad t template_values = Inr False \<and> binding_bad a artifact_values = Inr False"
    using True unfolding check_requirement_def Let_def w_def [symmetric] t_def [symmetric] a_def [symmetric]
    by (cases w) (auto simp: is_str_def not_less split: sum.split bool.split)
  have r: "parse_requirement v = Some r \<longleftrightarrow>
      w = PStr (requirement_id r) \<and> option_of template_value all_templates t = Some (req_template r) \<and>
      option_of artifact_value all_artifacts a = Some (req_artifact r)" for r
    using True unfolding parse_requirement_def w_def [symmetric] t_def [symmetric] a_def [symmetric]
    by (cases r; cases w) (auto split: option.split)
  have valid: "requirement_valid r \<longleftrightarrow> requirement_id r \<noteq> [] \<and>
      length (requirement_id r) \<le> max_requirement_id_length \<and> (t = PNone) \<noteq> (a = PNone)"
    if "parse_requirement v = Some r" for r
    using that option_of_None [of template_value all_templates t "req_template r"]
      option_of_None [of artifact_value all_artifacts a "req_artifact r"]
    by (auto simp: r requirement_valid_def Suc_le_eq)
  show ?thesis
  proof
    assume "check_requirement v = Inr (Inr i)"
    note c = this [unfolded l tb ab]
    then obtain x y where xy: "option_of template_value all_templates t = Some x"
      "option_of artifact_value all_artifacts a = Some y" by blast
    with c have p: "parse_requirement v = Some \<lparr>requirement_id = i, req_template = x, req_artifact = y\<rparr>"
      by (simp add: r)
    from valid [OF p] c p show "\<exists>r. parse_requirement v = Some r \<and> requirement_valid r \<and> requirement_id r = i"
      by auto
  next
    assume "\<exists>r. parse_requirement v = Some r \<and> requirement_valid r \<and> requirement_id r = i"
    then obtain q where q: "parse_requirement v = Some q" "requirement_valid q" "requirement_id q = i" by blast
    from valid [OF q(1)] q show "check_requirement v = Inr (Inr i)"
      unfolding l tb ab using r [of q] by auto
  qed
qed

lemma check_requirements_ok:
  "check_requirements vs ids = Inr None \<longleftrightarrow>
   (\<exists>qs. those (map parse_requirement vs) = Some qs \<and> list_all requirement_valid qs \<and>
         distinct (ids @ map requirement_id qs))"
proof (induction vs arbitrary: ids)
  case Nil
  have "length ids = card (set ids) \<longleftrightarrow> distinct ids"
    using card_distinct [of ids] distinct_card [of ids] by auto
  then show ?case by simp
next
  case (Cons v vs)
  show ?case
  proof (cases "\<exists>i. check_requirement v = Inr (Inr i)")
    case True
    then obtain i where c: "check_requirement v = Inr (Inr i)" by blast
    then obtain q where "parse_requirement v = Some q" "requirement_valid q" "requirement_id q = i"
      by (auto simp: check_requirement_ok)
    with c Cons.IH [of "ids @ [i]"] show ?thesis by auto
  next
    case False
    then have no: "\<not> (\<exists>q. parse_requirement v = Some q \<and> requirement_valid q)"
      by (simp add: check_requirement_ok)
    from False have "check_requirements (v # vs) ids \<noteq> Inr None" by (auto split: sum.split)
    moreover have "\<not> (\<exists>qs. those (map parse_requirement (v # vs)) = Some qs \<and> list_all requirement_valid qs)"
      using no by (cases "parse_requirement v") auto
    ultimately show ?thesis by blast
  qed
qed

lemma schema_version_ok: "schema_version_is_valid v \<longleftrightarrow> (\<exists>n. v = PInt n \<and> 1 \<le> n)"
  by (cases v) auto

lemma is_list_iff: "is_list v \<longleftrightarrow> (\<exists>xs. v = PList xs)"
  by (cases v) (auto simp: is_list_def)

lemma those_length: "those xs = Some ys \<Longrightarrow> length ys = length xs"
  by (induction xs arbitrary: ys) (auto split: option.splits)

lemma grammar_Inr_None:
  "envelope_grammar_rejection v = Inr None \<longleftrightarrow> (\<exists>e. parse_envelope v = Some e \<and> envelope_valid e)"
proof (cases "is_mapping v \<and> \<not> unknown_keys (entries_of v) envelope_fields")
  case False
  then show ?thesis by (auto simp: envelope_grammar_rejection_def parse_envelope_def Let_def)
next
  case True
  define m where "m = py_get (entries_of v) ''marker'' PNone"
  define n where "n = py_get (entries_of v) ''schema_version'' PNone"
  define q where "q = py_get (entries_of v) ''requirements'' PNone"
  have l: "envelope_grammar_rejection v = Inr None \<longleftrightarrow>
      (\<exists>k rs. m = PStr completion_envelope_marker \<and> n = PInt k \<and> 1 \<le> k \<and> q = PList rs \<and> rs \<noteq> [] \<and>
         length rs \<le> max_envelope_requirements \<and> check_requirements rs [] = Inr None)"
    using True unfolding envelope_grammar_rejection_def Let_def m_def [symmetric] n_def [symmetric]
      q_def [symmetric]
    by (auto simp: schema_version_ok is_list_iff not_less)
  have r: "parse_envelope v = Some e \<longleftrightarrow> m = PStr (env_marker e) \<and> n = PInt (env_schema_version e) \<and>
      (\<exists>rs. q = PList rs \<and> those (map parse_requirement rs) = Some (requirements e))" for e
    using True unfolding parse_envelope_def m_def [symmetric] n_def [symmetric] q_def [symmetric]
    by (cases e; cases m; cases n; cases q) auto
  show ?thesis
  proof
    assume "envelope_grammar_rejection v = Inr None"
    then obtain k rs where k: "m = PStr completion_envelope_marker" "n = PInt k" "1 \<le> k" "q = PList rs"
      "rs \<noteq> []" "length rs \<le> max_envelope_requirements" "check_requirements rs [] = Inr None"
      unfolding l by blast
    then obtain qs where qs: "those (map parse_requirement rs) = Some qs" "list_all requirement_valid qs"
      "distinct (map requirement_id qs)" by (auto simp: check_requirements_ok)
    let ?e = "\<lparr>env_marker = completion_envelope_marker, env_schema_version = k, requirements = qs\<rparr>"
    have "length qs = length rs" using those_length [OF qs(1)] by simp
    then have "parse_envelope v = Some ?e \<and> envelope_valid ?e"
      unfolding r envelope_valid_def requirement_ids_def using k qs by (auto simp: Suc_le_eq)
    then show "\<exists>e. parse_envelope v = Some e \<and> envelope_valid e" by blast
  next
    assume "\<exists>e. parse_envelope v = Some e \<and> envelope_valid e"
    then obtain e rs where e: "envelope_valid e" "m = PStr (env_marker e)" "n = PInt (env_schema_version e)"
      "q = PList rs" "those (map parse_requirement rs) = Some (requirements e)" unfolding r by blast
    have "length (requirements e) = length rs" using those_length [OF e(5)] by simp
    with e show "envelope_grammar_rejection v = Inr None"
      unfolding l check_requirements_ok envelope_valid_def requirement_ids_def by (auto simp: Suc_le_eq)
  qed
qed

section \<open>When the pre-checks raise\<close>

definition bindings_hashable :: "pyval \<Rightarrow> bool" where
  "bindings_hashable v =
     list_all (\<lambda>r. hashable (py_get (entries_of r) ''template'' PNone) \<and>
                   hashable (py_get (entries_of r) ''artifact'' PNone))
       (elems_of (py_get (entries_of v) ''requirements'' PNone))"

lemma binding_hashable: "hashable v \<Longrightarrow> binding_bad v xs \<noteq> Inl e"
  by (simp add: binding_bad_def in_frozenset_def)

lemma check_requirement_Inl:
  assumes "check_requirement r = Inl e"
  shows "\<not> hashable (py_get (entries_of r) ''template'' PNone) \<or>
    \<not> hashable (py_get (entries_of r) ''artifact'' PNone)"
  using assms binding_hashable unfolding check_requirement_def Let_def
  by (auto split: if_splits sum.splits bool.splits)

lemma check_requirements_Inl:
  "check_requirements vs ids = Inl e \<Longrightarrow>
   \<exists>r \<in> set vs. \<not> hashable (py_get (entries_of r) ''template'' PNone) \<or>
               \<not> hashable (py_get (entries_of r) ''artifact'' PNone)"
proof (induction vs arbitrary: ids)
  case (Cons v vs)
  then show ?case using check_requirement_Inl [of v e] by (auto split: sum.splits)
qed simp

lemma envelope_grammar_Inl: "envelope_grammar_rejection v = Inl e \<Longrightarrow> \<not> bindings_hashable v"
  unfolding envelope_grammar_rejection_def Let_def bindings_hashable_def
  by (auto simp: list_all_iff split: if_splits dest!: check_requirements_Inl)

lemma receipt_grammar_Inl:
  assumes "receipt_grammar_rejection ve v = Inl e"
  shows "\<not> bindings_hashable (py_get (entries_of v) ''envelope'' PNone)"
  using assms envelope_grammar_Inl [of "py_get (entries_of v) ''envelope'' PNone" e]
  unfolding receipt_grammar_rejection_def Let_def
  by (auto split: if_splits sum.splits option.splits)

definition raw_bindings_hashable :: "completion_envelope audited \<Rightarrow> completion_receipt audited \<Rightarrow> bool" where
  "raw_bindings_hashable mandate receipt \<longleftrightarrow>
     (case mandate of Raw v \<Rightarrow> bindings_hashable v | _ \<Rightarrow> True) \<and>
     (case receipt of Raw v \<Rightarrow> bindings_hashable (py_get (entries_of v) ''envelope'' PNone) | _ \<Rightarrow> True)"

lemma resolve_mandate_Inl:
  "resolve_mandate ve m = Inl e \<Longrightarrow> \<exists>v. m = Raw v \<and> \<not> bindings_hashable v"
  unfolding resolve_mandate_def
  by (auto split: audited.splits if_splits sum.splits option.splits dest: envelope_grammar_Inl)

lemma resolve_receipt_Inl:
  "resolve_receipt ve vr r = Inl e \<Longrightarrow>
   \<exists>v. r = Raw v \<and> \<not> bindings_hashable (py_get (entries_of v) ''envelope'' PNone)"
  unfolding resolve_receipt_def
  by (auto split: audited.splits if_splits sum.splits option.splits dest: receipt_grammar_Inl)

section \<open>Only the truth table contradicts\<close>

lemma check_requirement_reason: "check_requirement v = Inr (Inl r) \<Longrightarrow> r \<noteq> Reject_Contradicted"
  unfolding check_requirement_def Let_def by (auto split: if_splits sum.splits bool.splits)

lemma check_requirements_reason: "check_requirements vs ids = Inr (Some r) \<Longrightarrow> r \<noteq> Reject_Contradicted"
  by (induction vs arbitrary: ids)
    (auto split: if_splits sum.splits dest: check_requirement_reason)

lemma envelope_grammar_reason: "envelope_grammar_rejection v = Inr (Some r) \<Longrightarrow> r \<noteq> Reject_Contradicted"
  unfolding envelope_grammar_rejection_def Let_def
  by (auto split: if_splits dest: check_requirements_reason)

lemma claimed_scan_reason: "claimed_scan d = Some r \<Longrightarrow> r \<noteq> Reject_Contradicted"
  by (induction d) (auto split: if_splits)

lemma receipt_grammar_reason: "receipt_grammar_rejection ve v = Inr (Some r) \<Longrightarrow> r \<noteq> Reject_Contradicted"
  unfolding receipt_grammar_rejection_def Let_def
  by (auto simp: claimed_values_grammar_rejection_def
      split: if_splits sum.splits option.splits
      dest: envelope_grammar_reason claimed_scan_reason)

lemma resolve_mandate_reason: "resolve_mandate ve m = Inr (Inl r) \<Longrightarrow> r \<noteq> Reject_Contradicted"
  unfolding resolve_mandate_def
  by (auto split: audited.splits if_splits sum.splits option.splits dest: envelope_grammar_reason)

lemma resolve_receipt_reason: "resolve_receipt ve vr m = Inr (Inl r) \<Longrightarrow> r \<noteq> Reject_Contradicted"
  unfolding resolve_receipt_def
  by (auto split: audited.splits if_splits sum.splits option.splits dest: receipt_grammar_reason)

text \<open>The mandate and the receipt under audit, when both resolve.\<close>

definition under_audit ::
  "(pyval \<Rightarrow> completion_envelope option) \<Rightarrow> (pyval \<Rightarrow> completion_receipt option) \<Rightarrow>
   completion_envelope audited \<Rightarrow> completion_receipt audited \<Rightarrow>
   completion_envelope \<Rightarrow> completion_receipt \<Rightarrow> bool" where
  "under_audit ve vr mandate receipt e r \<longleftrightarrow>
     mandate \<noteq> Absent \<and> resolve_mandate ve mandate = Inr (Inr e) \<and>
     resolve_receipt ve vr receipt = Inr (Inr r)"

lemma classify_cases:
  assumes "classify_completion ve vr vd mandate receipt declared evidence = Inr c"
  obtains (absent) "mandate = Absent" "c = audit_stamp declared
      (failure_axis (runtime_failure (normalize_evidence vd evidence)))
      Claim_Unverified Disclosure_Complete Mandate_Disabled None"
  | (refused) r where "mandate \<noteq> Absent" "r \<noteq> Reject_Contradicted" "c = audit_stamp declared
      (failure_axis (runtime_failure (normalize_evidence vd evidence)))
      Claim_Unverified Disclosure_Incomplete Mandate_Unaddressed (Some r)"
      "\<And>e r. \<not> under_audit ve vr mandate receipt e r"
  | (audited) e r where "under_audit ve vr mandate receipt e r"
      "c = classify_claim declared (normalize_evidence vd evidence) e r"
proof (cases "mandate = Absent")
  case True
  with assms show ?thesis by (intro absent) (simp_all add: classify_completion_def Let_def)
next
  case False
  note a = assms [unfolded classify_completion_def Let_def if_not_P [OF False]]
  show ?thesis
  proof (cases "resolve_mandate ve mandate")
    case (Inl err)
    with a show ?thesis by simp
  next
    case m: (Inr x)
    show ?thesis
    proof (cases x)
      case (Inl r)
      with a m resolve_mandate_reason [of ve mandate r] show ?thesis
        by (intro refused [of r]) (auto simp: under_audit_def False)
    next
      case e: (Inr e)
      show ?thesis
      proof (cases "resolve_receipt ve vr receipt")
        case (Inl err)
        with a m e show ?thesis by simp
      next
        case p: (Inr y)
        show ?thesis
        proof (cases y)
          case (Inl r)
          with a m e p resolve_receipt_reason [of ve vr receipt r] False show ?thesis
            by (intro refused [of r]) (auto simp: under_audit_def)
        next
          case (Inr r)
          with a m e p False show ?thesis by (intro audited [of e r]) (auto simp: under_audit_def)
        qed
      qed
    qed
  qed
qed

lemma under_audit_unique:
  "under_audit ve vr m p e r \<Longrightarrow> under_audit ve vr m p e' r' \<Longrightarrow> e' = e \<and> r' = r"
  by (simp add: under_audit_def)

lemma failure_axis_healthy: "failure_axis w = Runtime_Healthy \<longleftrightarrow> w = None"
proof (cases w)
  case (Some x)
  then show ?thesis by (cases x) simp_all
qed simp

lemma classify_claim_contradicted:
  "cl_fidelity (classify_claim declared ev e r) = Claim_Contradicted \<longleftrightarrow>
   runtime_failure ev = None \<and> set (satisfied_requirement_ids r) \<subseteq> set (requirement_ids e) \<and>
   (\<exists>i \<in> set (satisfied_requirement_ids r). i \<in> set (contradicted_requirement_ids ev))"
  by (auto simp: classify_claim_def Let_def audit_stamp_def failure_axis_healthy)

lemma classify_claim_rejected:
  "cl_rejection (classify_claim declared ev e r) = Some Reject_Contradicted \<longleftrightarrow>
   cl_fidelity (classify_claim declared ev e r) = Claim_Contradicted"
  by (auto simp: classify_claim_def Let_def audit_stamp_def failure_axis_healthy)

lemma classify_claim_matched:
  "cl_fidelity (classify_claim declared ev e r) = Claim_Matched \<longleftrightarrow>
   set (satisfied_requirement_ids r) = set (requirement_ids e) \<and>
   set (requirement_ids e) \<subseteq> set (requirement_ids_observed ev) \<and>
   (runtime_failure ev = None \<longrightarrow>
     set (satisfied_requirement_ids r) \<inter> set (contradicted_requirement_ids ev) = {})"
  by (auto simp: classify_claim_def Let_def audit_stamp_def failure_axis_healthy)

lemma classify_claim_matched_stamp:
  "cl_fidelity (classify_claim declared ev e r) = Claim_Matched \<Longrightarrow>
   cl_rejection (classify_claim declared ev e r) = None \<and>
   cl_disclosure (classify_claim declared ev e r) = Disclosure_Complete \<and>
   cl_mandate (classify_claim declared ev e r) = Mandate_Satisfied"
  by (auto simp: classify_claim_def Let_def audit_stamp_def split: if_splits)

lemma audit_stamp_simps [simp]:
  "cl_fidelity (audit_stamp d x f s m r) = f"
  "cl_rejection (audit_stamp d x f s m r) = (if x = Runtime_Healthy then r else None)"
  "cl_mandate (audit_stamp d x f s m r) = m" "cl_disclosure (audit_stamp d x f s m r) = s"
  by (simp_all add: audit_stamp_def)

lemma classify_claim_infrastructure:
  "runtime_failure ev \<noteq> None \<Longrightarrow> cl_rejection (classify_claim declared ev e r) = None"
  by (cases "runtime_failure ev") (simp_all add: classify_claim_def Let_def failure_axis_healthy)

section \<open>Properties\<close>

definition sample_requirement :: completion_requirement where
  "sample_requirement = \<lparr>requirement_id = ''tests'', req_template = Some Pytest, req_artifact = None\<rparr>"

definition sample_envelope :: completion_envelope where
  "sample_envelope = \<lparr>env_marker = completion_envelope_marker, env_schema_version = 1,
                      requirements = [sample_requirement]\<rparr>"

definition sample_receipt :: completion_receipt where
  "sample_receipt = \<lparr>rec_marker = completion_envelope_marker, rec_schema_version = 1,
     rec_envelope = None, satisfied_requirement_ids = [''tests''], claimed_values = []\<rparr>"

definition raw_envelope :: "pyval \<Rightarrow> pyval" where
  "raw_envelope template = PDict
     [(PStr ''marker'', PStr completion_envelope_marker), (PStr ''schema_version'', PInt 1),
      (PStr ''requirements'', PList [PDict [(PStr ''requirement_id'', PStr ''tests''),
                                            (PStr ''template'', template)]])]"

text \<open>
  C31. The audit contradicts a worker exactly when the verifier was healthy, the mandate and
  the receipt are well formed, every claimed id belongs to the mandate, and the runtime
  observed direct contrary evidence for an id the worker claimed; and the contradiction is
  the only disposition with the worker-side rejection.
\<close>

theorem claim_contradicted_iff:
  assumes "classify_completion ve vr vd mandate receipt declared evidence = Inr c"
  shows "(cl_fidelity c = Claim_Contradicted \<longleftrightarrow>
      (\<exists>e r. under_audit ve vr mandate receipt e r \<and>
         runtime_failure (normalize_evidence vd evidence) = None \<and>
         set (satisfied_requirement_ids r) \<subseteq> set (requirement_ids e) \<and>
         (\<exists>i \<in> set (satisfied_requirement_ids r).
            i \<in> set (contradicted_requirement_ids (normalize_evidence vd evidence))))) \<and>
    (cl_rejection c = Some Reject_Contradicted \<longleftrightarrow> cl_fidelity c = Claim_Contradicted)"
  using assms
proof (cases rule: classify_cases)
  case absent
  then show ?thesis by (auto simp: under_audit_def)
next
  case (refused r)
  then show ?thesis by auto
next
  case (audited e r)
  then show ?thesis
    using classify_claim_contradicted [of declared "normalize_evidence vd evidence" e r]
      classify_claim_rejected [of declared "normalize_evidence vd evidence" e r]
      under_audit_unique [OF audited(1)] by blast
qed

theorem claim_contradicted_iff_witness:
  "\<exists>c. classify_completion (\<lambda>_. None) (\<lambda>_. None) (\<lambda>_. None) (Typed sample_envelope)
      (Typed sample_receipt) True (Typed (empty_evidence\<lparr>contradicted_requirement_ids := [''tests'']\<rparr>)) = Inr c \<and>
     cl_fidelity c = Claim_Contradicted \<and> cl_rejection c = Some Reject_Contradicted"
proof -
  let ?ev = "Typed (empty_evidence\<lparr>contradicted_requirement_ids := [''tests'']\<rparr>) :: completion_evidence audited"
  obtain c where c: "classify_completion (\<lambda>_. None) (\<lambda>_. None) (\<lambda>_. None) (Typed sample_envelope)
      (Typed sample_receipt) True ?ev = Inr c"
    by (simp add: classify_completion_def Let_def resolve_mandate_def resolve_receipt_def)
  have "under_audit (\<lambda>_. None) (\<lambda>_. None) (Typed sample_envelope) (Typed sample_receipt)
      sample_envelope sample_receipt"
    by (simp add: under_audit_def resolve_mandate_def resolve_receipt_def)
  then have "cl_fidelity c = Claim_Contradicted"
    unfolding claim_contradicted_iff [OF c, THEN conjunct1]
    by (intro exI conjI) (auto simp: normalize_evidence_def empty_evidence_def sample_envelope_def
        sample_receipt_def requirement_ids_def sample_requirement_def)
  with c claim_contradicted_iff [OF c] show ?thesis by blast
qed

text \<open>
  A matched claim is one that names exactly the mandated requirements, each of them
  observed by the runtime, with no contrary evidence from a healthy verifier; it is stamped
  with full disclosure, a satisfied mandate and no rejection.
\<close>

theorem claim_matched_iff:
  assumes "classify_completion ve vr vd mandate receipt declared evidence = Inr c"
  shows "(cl_fidelity c = Claim_Matched \<longleftrightarrow>
      (\<exists>e r. under_audit ve vr mandate receipt e r \<and>
         set (satisfied_requirement_ids r) = set (requirement_ids e) \<and>
         set (requirement_ids e) \<subseteq> set (requirement_ids_observed (normalize_evidence vd evidence)) \<and>
         (runtime_failure (normalize_evidence vd evidence) = None \<longrightarrow>
            set (satisfied_requirement_ids r) \<inter>
              set (contradicted_requirement_ids (normalize_evidence vd evidence)) = {}))) \<and>
    (cl_fidelity c = Claim_Matched \<longrightarrow> cl_rejection c = None \<and>
       cl_disclosure c = Disclosure_Complete \<and> cl_mandate c = Mandate_Satisfied)"
  using assms
proof (cases rule: classify_cases)
  case absent
  then show ?thesis by (auto simp: under_audit_def)
next
  case (refused r)
  then show ?thesis by auto
next
  case (audited e r)
  let ?ev = "normalize_evidence vd evidence"
  have u: "under_audit ve vr mandate receipt e' r' \<longleftrightarrow> e' = e \<and> r' = r" for e' r'
    using under_audit_unique [OF audited(1)] audited(1) by blast
  show ?thesis unfolding audited(2) u
  proof (rule conjI)
    show "cl_fidelity (classify_claim declared ?ev e r) = Claim_Matched \<longrightarrow>
        cl_rejection (classify_claim declared ?ev e r) = None \<and>
        cl_disclosure (classify_claim declared ?ev e r) = Disclosure_Complete \<and>
        cl_mandate (classify_claim declared ?ev e r) = Mandate_Satisfied"
      by (intro impI classify_claim_matched_stamp)
  qed (simp add: classify_claim_matched)
qed

theorem claim_matched_iff_witness:
  "\<exists>c. classify_completion (\<lambda>_. None) (\<lambda>_. None) (\<lambda>_. None) (Typed sample_envelope)
      (Typed sample_receipt) True (Typed (empty_evidence\<lparr>requirement_ids_observed := [''tests'']\<rparr>)) = Inr c \<and>
     cl_fidelity c = Claim_Matched \<and> cl_mandate c = Mandate_Satisfied"
proof -
  let ?ev = "Typed (empty_evidence\<lparr>requirement_ids_observed := [''tests'']\<rparr>) :: completion_evidence audited"
  obtain c where c: "classify_completion (\<lambda>_. None) (\<lambda>_. None) (\<lambda>_. None) (Typed sample_envelope)
      (Typed sample_receipt) True ?ev = Inr c"
    by (simp add: classify_completion_def Let_def resolve_mandate_def resolve_receipt_def)
  have "under_audit (\<lambda>_. None) (\<lambda>_. None) (Typed sample_envelope) (Typed sample_receipt)
      sample_envelope sample_receipt"
    by (simp add: under_audit_def resolve_mandate_def resolve_receipt_def)
  then have "cl_fidelity c = Claim_Matched"
    unfolding claim_matched_iff [OF c, THEN conjunct1]
    by (intro exI conjI) (auto simp: normalize_evidence_def empty_evidence_def sample_envelope_def
        sample_receipt_def requirement_ids_def sample_requirement_def)
  with c claim_matched_iff [OF c] show ?thesis by blast
qed

text \<open>
  A failure of the verifier's own infrastructure is never the worker's fault: whatever
  was claimed and observed, nothing is rejected and nothing is contradicted; and an absent
  mandate disables the audit without a rejection.
\<close>

theorem infrastructure_never_blames:
  assumes "classify_completion ve vr vd mandate receipt declared evidence = Inr c"
    and "runtime_failure (normalize_evidence vd evidence) \<noteq> None \<or> mandate = Absent"
  shows "cl_rejection c = None \<and> cl_fidelity c \<noteq> Claim_Contradicted"
  using assms(1)
proof (cases rule: classify_cases)
  case absent
  then show ?thesis by simp
next
  case (refused r)
  with assms show ?thesis by (auto simp: failure_axis_healthy)
next
  case (audited e r)
  then have "runtime_failure (normalize_evidence vd evidence) \<noteq> None"
    using assms(2) by (auto simp: under_audit_def)
  with audited(2) classify_claim_infrastructure show ?thesis
    by (auto simp: classify_claim_contradicted)
qed

theorem infrastructure_never_blames_witness:
  "\<exists>c. classify_completion (\<lambda>_. None) (\<lambda>_. None) (\<lambda>_. None) (Raw (PStr ''junk'')) Absent False
      (Typed (empty_evidence\<lparr>runtime_failure := Some Timeout\<rparr>)) = Inr c \<and> cl_rejection c = None"
proof -
  let ?ev = "Typed (empty_evidence\<lparr>runtime_failure := Some Timeout\<rparr>) :: completion_evidence audited"
  obtain c where c: "classify_completion (\<lambda>_. None) (\<lambda>_. None) (\<lambda>_. None) (Raw (PStr ''junk'')) Absent
      False ?ev = Inr c"
    by (simp add: classify_completion_def Let_def resolve_mandate_def)
  from infrastructure_never_blames [OF c] c show ?thesis by (simp add: normalize_evidence_def)
qed

text \<open>
  The pre-check that names grammar violations accepts a raw payload exactly when the
  payload reads as a typed envelope that satisfies every field constraint and validator of
  the models.
\<close>

theorem grammar_check_exact:
  "envelope_grammar_rejection v = Inr None \<longleftrightarrow> (\<exists>e. parse_envelope v = Some e \<and> envelope_valid e)"
  by (rule grammar_Inr_None)

text \<open>
  C32. The audit always returns a classification when the template and artifact values of the
  raw requirements are hashable; nothing else in a payload makes it raise.
\<close>

theorem classify_completion_total:
  assumes "raw_bindings_hashable mandate receipt"
  shows "\<exists>c. classify_completion ve vr vd mandate receipt declared evidence = Inr c"
proof -
  have "resolve_mandate ve mandate \<noteq> Inl e" for e
    using assms resolve_mandate_Inl by (fastforce simp: raw_bindings_hashable_def)
  moreover have "resolve_receipt ve vr receipt \<noteq> Inl e" for e
    using assms resolve_receipt_Inl by (fastforce simp: raw_bindings_hashable_def)
  ultimately show ?thesis
    by (auto simp: classify_completion_def Let_def split: sum.split)
qed

theorem classify_completion_total_witness:
  "\<exists>c. classify_completion (\<lambda>_. None) (\<lambda>_. None) (\<lambda>_. None) (Raw (raw_envelope (PInt 3)))
     (Raw PNone) True Absent = Inr c"
  by (rule classify_completion_total)
    (simp add: raw_bindings_hashable_def bindings_hashable_def raw_envelope_def py_get_def)

text \<open>
  A raw mandate whose requirement carries a list or a dictionary as its template makes
  the audit raise a \<open>TypeError\<close>, although a grammar violation is meant to be classified and
  never to escape as an exception.
\<close>

theorem unhashable_binding_escapes:
  "classify_completion ve vr vd (Raw (raw_envelope (PList []))) receipt declared evidence = Inl TypeErr \<and>
   classify_completion ve vr vd (Raw (raw_envelope (PDict []))) receipt declared evidence = Inl TypeErr"
  by (simp add: classify_completion_def Let_def resolve_mandate_def raw_envelope_def
      envelope_grammar_rejection_def py_get_def unknown_keys_def envelope_fields_def
      requirement_fields_def is_list_def check_requirement_def is_str_def
      max_envelope_requirements_def max_requirement_id_length_def binding_bad_def in_frozenset_def)

text \<open>
  A failed verifier does not force the claim fidelity to unverified: with the verifier
  timed out, and even with contrary evidence recorded for the claimed id, a claim whose ids
  were all observed is stamped as matched.
\<close>

theorem infrastructure_failure_still_matches:
  "map_sum id cl_fidelity (classify_completion ve vr vd (Typed sample_envelope) (Typed sample_receipt) True
     (Typed \<lparr>requirement_ids_observed = [''tests''], contradicted_requirement_ids = [''tests''],
             runtime_failure = Some Timeout\<rparr>)) = Inr Claim_Matched"
  by (simp add: classify_completion_def Let_def resolve_mandate_def resolve_receipt_def
      normalize_evidence_def classify_claim_def sample_envelope_def sample_receipt_def
      requirement_ids_def sample_requirement_def)

end
