(* ===== verification/Text_IO.thy ===== *)
theory Text_IO
  imports Prelude
begin

text \<open>
  Decoding and encoding of file contents (\<open>utils/io.py\<close>).  Bytes are a \<open>string\<close> (a HOL
  character is one byte), text is a list of code points.  The codecs of the Python runtime,
  the locale and the third-party detector are parameters, collected in the record \<open>codecs\<close>:
  \<open>bytes.decode\<close> and \<open>str.encode\<close> of a named codec (\<open>None\<close> when they raise), the two UTF-8
  calls that do not raise, the preferred encoding, the detector, \<open>os.linesep\<close> and
  the 16-byte \<open>blake2b\<close> digest the checkpoint pool uses.
\<close>

type_synonym utext = "int list"

record codecs =
  codec_decode :: "string \<Rightarrow> string \<Rightarrow> utext option"
  utf8_replace :: "string \<Rightarrow> utext"
  codec_encode :: "string \<Rightarrow> utext \<Rightarrow> string option"
  utf8_encode :: "utext \<Rightarrow> string"
  preferred_encoding :: string
  best_match :: "string \<Rightarrow> string option"
  linesep :: utext
  blake2b :: "string \<Rightarrow> string"

definition LF :: utext where "LF = [10]"
definition CR :: utext where "CR = [13]"
definition CRLF :: utext where "CRLF = [13, 10]"

record read_result =
  rr_text :: utext
  rr_encoding :: string
  rr_newline :: utext

section \<open>Newlines\<close>

fun count_crlf :: "utext \<Rightarrow> nat" where
  "count_crlf (a # b # t) = (if a = 13 \<and> b = 10 then Suc (count_crlf t) else count_crlf (b # t))"
| "count_crlf _ = 0"

definition detect_newline :: "utext \<Rightarrow> utext \<Rightarrow> utext" where
  "detect_newline sep t =
     (let crlf = count_crlf t; lf = count_list t 10 - crlf; cr = count_list t 13 - crlf;
          best = (if crlf \<ge> lf \<and> crlf \<ge> cr then (CRLF, crlf)
                  else if lf \<ge> cr then (LF, lf) else (CR, cr))
      in if snd best > 0 then fst best else sep)"

fun replace_crlf :: "utext \<Rightarrow> utext" where
  "replace_crlf (a # b # t) = (if a = 13 \<and> b = 10 then 10 # replace_crlf t else a # replace_crlf (b # t))"
| "replace_crlf t = t"

definition replace_cr :: "utext \<Rightarrow> utext" where
  "replace_cr = map (\<lambda>c. if c = 13 then 10 else c)"

definition normalize_newlines :: "utext \<Rightarrow> utext \<Rightarrow> utext \<times> utext" where
  "normalize_newlines sep t =
     (if 13 \<notin> set t then (t, if 10 \<in> set t then LF else sep)
      else (replace_cr (replace_crlf t), detect_newline sep t))"

text \<open>\<open>text.replace("\n", newline)\<close>\<close>

definition expand_newlines :: "utext \<Rightarrow> utext \<Rightarrow> utext" where
  "expand_newlines nl t = concat (map (\<lambda>c. if c = 10 then nl else [c]) t)"

section \<open>Candidate encodings\<close>

definition utf8_sig_bom :: string where "utf8_sig_bom = [CHR 0xEF, CHR 0xBB, CHR 0xBF]"
definition utf32_boms :: "string list" where
  "utf32_boms = [[CHR 0xFF, CHR 0xFE, CHR 0x00, CHR 0x00], [CHR 0x00, CHR 0x00, CHR 0xFE, CHR 0xFF]]"
definition utf16_boms :: "string list" where
  "utf16_boms = [[CHR 0xFF, CHR 0xFE], [CHR 0xFE, CHR 0xFF]]"

definition starts_with :: "'a list \<Rightarrow> 'a list \<Rightarrow> bool" where
  "starts_with p s \<longleftrightarrow> take (length p) s = p"

definition encodings_from_bom :: "string \<Rightarrow> string option" where
  "encodings_from_bom raw =
     (if starts_with utf8_sig_bom raw then Some ''utf-8-sig''
      else if list_ex (\<lambda>b. starts_with b raw) utf32_boms then Some ''utf-32''
      else if list_ex (\<lambda>b. starts_with b raw) utf16_boms then Some ''utf-16''
      else None)"

definition ascii_lower :: "char \<Rightarrow> char" where
  "ascii_lower c = (if 65 \<le> (of_char c :: int) \<and> (of_char c :: int) \<le> 90
                    then char_of ((of_char c :: int) + 32) else c)"

text \<open>The generator's \<open>_emit\<close>: an empty or already seen name (up to case) is skipped.\<close>

fun emit_all :: "string option list \<Rightarrow> string list \<Rightarrow> string list" where
  "emit_all [] seen = []"
| "emit_all (None # es) seen = emit_all es seen"
| "emit_all (Some e # es) seen =
     (if e = [] \<or> map ascii_lower e \<in> set seen then emit_all es seen
      else e # emit_all es (map ascii_lower e # seen))"

definition candidate_encodings :: "codecs \<Rightarrow> string \<Rightarrow> string option \<Rightarrow> string list" where
  "candidate_encodings cd raw preferred =
     emit_all [encodings_from_bom raw, Some ''utf-8'', preferred, Some (preferred_encoding cd),
               best_match cd raw] []"

fun first_decoding :: "codecs \<Rightarrow> string \<Rightarrow> string list \<Rightarrow> (utext \<times> string) option" where
  "first_decoding cd raw [] = None"
| "first_decoding cd raw (e # es) =
     (case codec_decode cd e raw of Some t \<Rightarrow> Some (t, e) | None \<Rightarrow> first_decoding cd raw es)"

text \<open>\<open>None\<close> is the \<open>UnicodeDecodeError\<close> of the strict last step.\<close>

definition decode_bytes :: "codecs \<Rightarrow> bool \<Rightarrow> string option \<Rightarrow> string \<Rightarrow> (utext \<times> string) option" where
  "decode_bytes cd raise_on_error preferred raw =
     (case first_decoding cd raw (candidate_encodings cd raw preferred) of
        Some r \<Rightarrow> Some r
      | None \<Rightarrow>
          (if raise_on_error then map_option (\<lambda>t. (t, ''utf-8'')) (codec_decode cd ''utf-8'' raw)
           else Some (utf8_replace cd raw, ''utf-8'')))"

definition decode_safe_opt :: "codecs \<Rightarrow> bool \<Rightarrow> string \<Rightarrow> read_result option" where
  "decode_safe_opt cd raise_on_error raw =
     map_option (\<lambda>(t, e). let (u, nl) = normalize_newlines (linesep cd) t
                          in \<lparr>rr_text = u, rr_encoding = e, rr_newline = nl\<rparr>)
       (decode_bytes cd raise_on_error None raw)"

text \<open>The default call, \<open>raise_on_error=False\<close>, always returns.\<close>

definition decode_safe :: "codecs \<Rightarrow> string \<Rightarrow> read_result" where
  "decode_safe cd raw = the (decode_safe_opt cd False raw)"

definition decode_console_safe :: "codecs \<Rightarrow> bool \<Rightarrow> string \<Rightarrow> utext option" where
  "decode_console_safe cd raise_on_error raw = map_option fst (decode_bytes cd raise_on_error None raw)"

definition encode_safe :: "codecs \<Rightarrow> utext \<Rightarrow> string \<Rightarrow> utext \<Rightarrow> string" where
  "encode_safe cd t encoding newline =
     (let body = (if newline = LF then t else expand_newlines newline t)
      in case codec_encode cd encoding body of Some b \<Rightarrow> b | None \<Rightarrow> utf8_encode cd body)"

section \<open>Lines\<close>

text \<open>The characters at which \<open>str.splitlines\<close> ends a line; \<open>CR LF\<close> is one boundary.\<close>

definition line_break :: "int \<Rightarrow> bool" where
  "line_break c \<longleftrightarrow> c \<in> {10, 11, 12, 13, 28, 29, 30, 133, 8232, 8233}"

fun splitlines_keep :: "utext \<Rightarrow> utext \<Rightarrow> utext list" where
  "splitlines_keep acc [] = (if acc = [] then [] else [rev acc])"
| "splitlines_keep acc (c # t) =
     (if c = 13 \<and> t \<noteq> [] \<and> hd t = 10 then rev (10 # 13 # acc) # splitlines_keep [] (tl t)
      else if line_break c then rev (c # acc) # splitlines_keep [] t
      else splitlines_keep (c # acc) t)"

definition splitlines :: "utext \<Rightarrow> utext list" where
  "splitlines t = splitlines_keep [] t"

lemma concat_splitlines_keep: "concat (splitlines_keep acc t) = rev acc @ t"
proof (induction acc t rule: splitlines_keep.induct)
  case (2 acc c t)
  then show ?case by (cases t) auto
qed auto

lemma concat_splitlines [simp]: "concat (splitlines t) = t"
  by (simp add: splitlines_def concat_splitlines_keep)

lemma decode_safe_some: "decode_safe_opt cd False raw = Some (decode_safe cd raw)"
  by (auto simp: decode_safe_def decode_safe_opt_def decode_bytes_def split: option.split)

section \<open>Newlines round trip\<close>

lemma replace_crlf_id: "13 \<notin> set t \<Longrightarrow> replace_crlf t = t"
  by (induction t rule: replace_crlf.induct) auto

lemma count_crlf_none: "13 \<notin> set t \<Longrightarrow> count_crlf t = 0"
  by (induction t rule: count_crlf.induct) auto

lemma expand_Cons: "expand_newlines nl (c # t) = (if c = 10 then nl else [c]) @ expand_newlines nl t"
  by (simp add: expand_newlines_def)

lemma expand_Nil [simp]: "expand_newlines nl [] = []"
  by (simp add: expand_newlines_def)

lemma expand_LF [simp]: "expand_newlines LF t = t"
  by (induction t) (simp_all add: expand_Cons LF_def)

lemma expand_head: "13 \<notin> set t \<Longrightarrow> expand_newlines CRLF t \<noteq> [] \<Longrightarrow> hd (expand_newlines CRLF t) \<noteq> 10"
  by (cases t) (auto simp: expand_Cons CRLF_def)

lemma crlf_Cons_other: "c \<noteq> 13 \<Longrightarrow> replace_crlf (c # t) = c # replace_crlf t"
  "c \<noteq> 13 \<Longrightarrow> count_crlf (c # t) = count_crlf t"
  by (cases t; simp)+

lemma replace_crlf_expand: "13 \<notin> set t \<Longrightarrow> replace_crlf (expand_newlines CRLF t) = t"
  by (induction t) (auto simp: expand_Cons CRLF_def crlf_Cons_other)

lemma count_crlf_expand: "13 \<notin> set t \<Longrightarrow> count_crlf (expand_newlines CRLF t) = count_list t 10"
  by (induction t) (auto simp: expand_Cons CRLF_def crlf_Cons_other)

lemma count_list_append_nl:
  "13 \<notin> set t \<Longrightarrow> count_list (expand_newlines CRLF t) 10 = count_list t 10"
  "13 \<notin> set t \<Longrightarrow> count_list (expand_newlines CRLF t) 13 = count_list t 10"
  "13 \<notin> set t \<Longrightarrow> count_list (expand_newlines CR t) 10 = 0"
  "13 \<notin> set t \<Longrightarrow> count_list (expand_newlines CR t) 13 = count_list t 10"
  by (induction t; auto simp: expand_Cons CRLF_def CR_def)+

lemma expand_CR: "13 \<notin> set t \<Longrightarrow> expand_newlines CR t = map (\<lambda>c. if c = 10 then 13 else c) t"
  by (induction t) (auto simp: expand_Cons CR_def)

lemma no_lf_crlf: "10 \<notin> set t \<Longrightarrow> replace_crlf t = t" "10 \<notin> set t \<Longrightarrow> count_crlf t = 0"
  by (induction t rule: replace_crlf.induct) auto

lemma set_expand: "13 \<notin> set t \<Longrightarrow> 13 \<in> set (expand_newlines nl t) \<longleftrightarrow> 10 \<in> set t \<and> 13 \<in> set nl"
  by (induction t) (auto simp: expand_Cons)

lemma count_list_pos: "10 \<in> set t \<Longrightarrow> 0 < count_list t 10"
  by (simp add: count_list_0_iff neq0_conv [symmetric] del: neq0_conv)

lemma normalize_expand:
  assumes "13 \<notin> set t" "nl \<in> {LF, CR, CRLF}" "10 \<in> set t"
  shows "normalize_newlines sep (expand_newlines nl t) = (t, nl)"
proof -
  have LFs: "LF \<noteq> CR" "LF \<noteq> CRLF" "CR \<noteq> CRLF" by (simp_all add: LF_def CR_def CRLF_def)
  consider "nl = LF" | "nl = CR" | "nl = CRLF" using assms(2) by blast
  then show ?thesis
  proof cases
    case 1
    with assms show ?thesis by (simp add: normalize_newlines_def)
  next
    case 2
    have n: "10 \<notin> set (expand_newlines CR t)" using assms(1) by (auto simp: expand_CR)
    have "replace_cr (expand_newlines CR t) = t"
      using assms(1) by (induction t) (auto simp: expand_Cons CR_def replace_cr_def)
    moreover have "13 \<in> set (expand_newlines CR t)" using assms by (simp add: set_expand CR_def)
    ultimately show ?thesis
      using 2 assms count_list_pos [OF assms(3)]
      by (simp add: normalize_newlines_def detect_newline_def Let_def no_lf_crlf [OF n] count_list_append_nl)
  next
    case 3
    have "13 \<in> set (expand_newlines CRLF t)" using assms by (simp add: set_expand CRLF_def)
    moreover have "replace_cr t = t" using assms(1) by (induction t) (auto simp: replace_cr_def)
    ultimately show ?thesis
      using 3 assms count_list_pos [OF assms(3)]
      by (simp add: normalize_newlines_def detect_newline_def Let_def replace_crlf_expand
          count_crlf_expand count_list_append_nl)
  qed
qed

end
