(* ===== verification/Difflib.thy ===== *)
theory Difflib
  imports Prelude
begin

text \<open>
  The part of Python's \<open>difflib.SequenceMatcher\<close> the checkpoint history relies on, with no
  junk (\<open>autojunk=False\<close>, no junk predicate): the longest matching block is the earliest of
  the longest ones, the blocks on both sides of it are found recursively, adjacent blocks are
  collapsed, and the opcodes describe the gaps between them.  The library sorts the blocks it
  finds; the recursion here lists them in that order.

  Clients use the interface \<open>line_diff\<close>: the opcodes tile both sequences, equal opcodes
  relate equal segments, and a sequence compared with itself has no change.
\<close>

section \<open>The matcher\<close>

fun common_prefix :: "'a list \<Rightarrow> 'a list \<Rightarrow> nat" where
  "common_prefix (x # xs) (y # ys) = (if x = y then Suc (common_prefix xs ys) else 0)"
| "common_prefix _ _ = 0"

definition better :: "nat \<times> nat \<times> nat \<Rightarrow> nat \<times> nat \<times> nat \<Rightarrow> nat \<times> nat \<times> nat" where
  "better x best = (if snd (snd x) > snd (snd best) then x else best)"

definition find_longest_match :: "'a list \<Rightarrow> 'a list \<Rightarrow> nat \<times> nat \<times> nat" where
  "find_longest_match xs ys =
     fold better
       (concat (map (\<lambda>i. map (\<lambda>j. (i, j, common_prefix (drop i xs) (drop j ys))) [0..<length ys])
          [0..<length xs]))
       (0, 0, 0)"

lemma common_prefix_le: "common_prefix xs ys \<le> length xs" "common_prefix xs ys \<le> length ys"
  by (induction xs ys rule: common_prefix.induct) auto

lemma common_prefix_take: "take (common_prefix xs ys) xs = take (common_prefix xs ys) ys"
  by (induction xs ys rule: common_prefix.induct) auto

lemma common_prefix_refl [simp]: "common_prefix xs xs = length xs"
  by (induction xs) auto

lemma better_fold:
  "fold better cs b \<in> insert b (set cs)"
  "snd (snd b) \<le> snd (snd (fold better cs b))"
  "c \<in> set cs \<Longrightarrow> snd (snd c) \<le> snd (snd (fold better cs b))"
proof (induction cs arbitrary: b)
  case (Cons x cs)
  { case 1 then show ?case using Cons.IH(1) [of "better x b"] by (auto simp: better_def split: if_splits) }
  { case 2 then show ?case using Cons.IH(2) [of "better x b"] by (auto simp: better_def split: if_splits) }
  { case 3 then show ?case using Cons.IH(2) [of "better x b"] Cons.IH(3) [of "better x b"]
      by (auto simp: better_def split: if_splits) }
qed auto

lemma find_longest_match_cases:
  assumes "find_longest_match xs ys = (i, j, k)"
  shows "(i, j, k) = (0, 0, 0) \<or>
    i < length xs \<and> j < length ys \<and> k = common_prefix (drop i xs) (drop j ys)"
  using better_fold(1) [of "concat (map (\<lambda>i. map (\<lambda>j. (i, j, common_prefix (drop i xs) (drop j ys)))
      [0..<length ys]) [0..<length xs])" "(0, 0, 0)"] assms
  unfolding find_longest_match_def by auto

lemma find_longest_match_bounds:
  assumes "find_longest_match xs ys = (i, j, k)"
  shows "i + k \<le> length xs" "j + k \<le> length ys" "take k (drop i xs) = take k (drop j ys)"
  using find_longest_match_cases [OF assms]
    common_prefix_le [of "drop i xs" "drop j ys"] common_prefix_take [of "drop i xs" "drop j ys"] by auto

lemma find_longest_match_longest:
  assumes "find_longest_match xs ys = (i, j, k)" "i' < length xs" "j' < length ys"
  shows "common_prefix (drop i' xs) (drop j' ys) \<le> k"
proof -
  let ?cs = "concat (map (\<lambda>i. map (\<lambda>j. (i, j, common_prefix (drop i xs) (drop j ys)))
      [0..<length ys]) [0..<length xs])"
  have "(i', j', common_prefix (drop i' xs) (drop j' ys)) \<in> set ?cs" using assms(2,3) by force
  from better_fold(3) [OF this, of "(0, 0, 0)"] assms(1) show ?thesis
    unfolding find_longest_match_def by simp
qed

lemma find_longest_match_refl:
  assumes "xs \<noteq> []" shows "find_longest_match xs xs = (0, 0, length xs)"
proof -
  obtain i j k where m: "find_longest_match xs xs = (i, j, k)" by (cases "find_longest_match xs xs")
  have "length xs \<le> k" using find_longest_match_longest [OF m, of 0 0] assms by simp
  with find_longest_match_bounds [OF m] m show ?thesis by auto
qed

lemma matching_blocks_less:
  assumes "find_longest_match xs ys = (i, j, k)" "0 < k"
  shows "i < length xs" "0 < i + k" "xs \<noteq> []" "length xs - (i + k) < length xs" "min (length xs) i < length xs"
  using find_longest_match_bounds [OF assms(1)] assms(2) by auto

text \<open>\<open>get_matching_blocks\<close>, before the collapse, with the positions of the two slices.\<close>

function matching_blocks :: "'a list \<Rightarrow> 'a list \<Rightarrow> nat \<Rightarrow> nat \<Rightarrow> (nat \<times> nat \<times> nat) list" where
  "matching_blocks xs ys oi oj =
     (case find_longest_match xs ys of
        (i, j, k) \<Rightarrow>
          if k = 0 then []
          else matching_blocks (take i xs) (take j ys) oi oj @ (oi + i, oj + j, k) #
               matching_blocks (drop (i + k) xs) (drop (j + k) ys) (oi + i + k) (oj + j + k))"
  by pat_completeness auto
termination
  by (relation "measure (\<lambda>(xs, ys, oi, oj). length xs)")
    (auto simp: min.strict_coboundedI2 matching_blocks_less simp del: length_0_conv dest: matching_blocks_less [OF sym])

declare matching_blocks.simps [simp del]

text \<open>The collapse of adjacent blocks, with the block being built.\<close>

fun collapse :: "nat \<times> nat \<times> nat \<Rightarrow> (nat \<times> nat \<times> nat) list \<Rightarrow> (nat \<times> nat \<times> nat) list" where
  "collapse (i1, j1, k1) [] = (if k1 \<noteq> 0 then [(i1, j1, k1)] else [])"
| "collapse (i1, j1, k1) ((i2, j2, k2) # bs) =
     (if i1 + k1 = i2 \<and> j1 + k1 = j2 then collapse (i1, j1, k1 + k2) bs
      else (if k1 \<noteq> 0 then (i1, j1, k1) # collapse (i2, j2, k2) bs else collapse (i2, j2, k2) bs))"

definition get_matching_blocks :: "'a list \<Rightarrow> 'a list \<Rightarrow> (nat \<times> nat \<times> nat) list" where
  "get_matching_blocks xs ys =
     collapse (0, 0, 0) (matching_blocks xs ys 0 0) @ [(length xs, length ys, 0)]"

datatype tag = Equal | Replace_Tag | Delete_Tag | Insert_Tag

type_synonym opcode = "tag \<times> nat \<times> nat \<times> nat \<times> nat"

fun opcodes_from :: "nat \<Rightarrow> nat \<Rightarrow> (nat \<times> nat \<times> nat) list \<Rightarrow> opcode list" where
  "opcodes_from i j [] = []"
| "opcodes_from i j ((ai, bj, sz) # bs) =
     (if i < ai \<and> j < bj then [(Replace_Tag, i, ai, j, bj)]
      else if i < ai then [(Delete_Tag, i, ai, j, bj)]
      else if j < bj then [(Insert_Tag, i, ai, j, bj)] else []) @
     (if sz \<noteq> 0 then [(Equal, ai, ai + sz, bj, bj + sz)] else []) @
     opcodes_from (ai + sz) (bj + sz) bs"

definition get_opcodes :: "'a list \<Rightarrow> 'a list \<Rightarrow> opcode list" where
  "get_opcodes xs ys = opcodes_from 0 0 (get_matching_blocks xs ys)"

section \<open>The interface\<close>

definition slice :: "nat \<Rightarrow> nat \<Rightarrow> 'a list \<Rightarrow> 'a list" where
  "slice i j xs = take (j - i) (drop i xs)"

fun tag_ok :: "'a list \<Rightarrow> 'a list \<Rightarrow> opcode \<Rightarrow> bool" where
  "tag_ok xs ys (t, i1, i2, j1, j2) =
     (case t of
        Equal \<Rightarrow> i1 < i2 \<and> i2 - i1 = j2 - j1 \<and> slice i1 i2 xs = slice j1 j2 ys
      | Replace_Tag \<Rightarrow> i1 < i2 \<and> j1 < j2
      | Delete_Tag \<Rightarrow> i1 < i2 \<and> j1 = j2
      | Insert_Tag \<Rightarrow> i1 = i2 \<and> j1 < j2)"

text \<open>The opcodes from a pair of positions on tile the rest of both sequences.\<close>

fun tiles :: "'a list \<Rightarrow> 'a list \<Rightarrow> nat \<Rightarrow> nat \<Rightarrow> opcode list \<Rightarrow> bool" where
  "tiles xs ys i j [] = (i = length xs \<and> j = length ys)"
| "tiles xs ys i j ((t, i1, i2, j1, j2) # ops) =
     (i1 = i \<and> j1 = j \<and> i1 \<le> i2 \<and> i2 \<le> length xs \<and> j1 \<le> j2 \<and> j2 \<le> length ys \<and>
      tag_ok xs ys (t, i1, i2, j1, j2) \<and> tiles xs ys i2 j2 ops)"

text \<open>Between two changes there is an equal stretch.\<close>

fun apart :: "opcode list \<Rightarrow> bool" where
  "apart (o1 # o2 # ops) = ((fst o1 = Equal \<or> fst o2 = Equal) \<and> apart (o2 # ops))"
| "apart _ = True"

locale line_diff =
  fixes opcodes :: "'a list \<Rightarrow> 'a list \<Rightarrow> opcode list"
  assumes opcodes_tile: "tiles xs ys 0 0 (opcodes xs ys)"
    and opcodes_apart: "apart (opcodes xs ys)"
    and opcodes_refl: "opcodes xs xs = (if xs = [] then [] else [(Equal, 0, length xs, 0, length xs)])"

section \<open>The matcher implements the interface\<close>

text \<open>
  Blocks in order between two pairs of positions: each starts at or after the end of the one
  before it and relates equal segments.
\<close>

fun within :: "'a list \<Rightarrow> 'a list \<Rightarrow> nat \<Rightarrow> nat \<Rightarrow> nat \<Rightarrow> nat \<Rightarrow> (nat \<times> nat \<times> nat) list \<Rightarrow> bool" where
  "within xs ys i j i' j' [] = (i \<le> i' \<and> j \<le> j')"
| "within xs ys i j i' j' ((a, b, k) # bs) =
     (i \<le> a \<and> j \<le> b \<and> slice a (a + k) xs = slice b (b + k) ys \<and> within xs ys (a + k) (b + k) i' j' bs)"

lemma within_append:
  "within xs ys i j m n bs \<Longrightarrow> within xs ys m n i' j' cs \<Longrightarrow> within xs ys i j i' j' (bs @ cs)"
proof (induction bs arbitrary: i j)
  case Nil
  then show ?case by (cases cs) auto
qed auto

lemma within_le: "within xs ys i j i' j' bs \<Longrightarrow> i \<le> i' \<and> j \<le> j'"
  by (induction bs arbitrary: i j) force+

lemma within_mono: "within xs ys i j i' j' bs \<Longrightarrow> a \<le> i \<Longrightarrow> b \<le> j \<Longrightarrow> within xs ys a b i' j' bs"
  by (cases bs) auto

lemma slice_slice: "j + l \<le> n \<Longrightarrow> slice j (j + l) (slice i (i + n) xs) = slice (i + j) (i + j + l) xs"
  by (simp add: slice_def take_drop drop_drop add.commute add.left_commute min_def)

lemma slice_add: "slice a (a + (k + l)) xs = slice a (a + k) xs @ slice (a + k) (a + k + l) xs"
  by (simp add: slice_def take_add add.commute)

lemma slice_full [simp]: "slice 0 (length xs) xs = xs"
  by (simp add: slice_def)

lemma matching_blocks_within:
  assumes "slice oi (oi + length xs) A = xs" "slice oj (oj + length ys) B = ys"
  shows "within A B oi oj (oi + length xs) (oj + length ys) (matching_blocks xs ys oi oj)"
  using assms
proof (induction xs ys oi oj rule: matching_blocks.induct)
  case (1 xs ys oi oj)
  obtain i j k where m: "find_longest_match xs ys = (i, j, k)" by (cases "find_longest_match xs ys")
  note b = find_longest_match_bounds [OF m]
  show ?case
  proof (cases "k = 0")
    case True
    with m show ?thesis by (simp add: matching_blocks.simps [of xs ys])
  next
    case False
    have s: "slice p (p + l) xs = slice (oi + p) (oi + p + l) A" if "p + l \<le> length xs" for p l
      using slice_slice [OF that, of oi A] 1(3) by simp
    have t: "slice p (p + l) ys = slice (oj + p) (oj + p + l) B" if "p + l \<le> length ys" for p l
      using slice_slice [OF that, of oj B] 1(4) by simp
    have li: "length (take i xs) = i" "length (take j ys) = j" using b by auto
    have sl: "slice oi (oi + i) A = take i xs" "slice oj (oj + j) B = take j ys"
      using b s [of 0 i] t [of 0 j] by (simp_all add: slice_def)
    have lo: "within A B oi oj (oi + length (take i xs)) (oj + length (take j ys))
        (matching_blocks (take i xs) (take j ys) oi oj)"
      by (rule 1(1) [OF m [symmetric] refl False]) (simp_all only: li sl)
    have hl: "length (drop (i + k) xs) = length xs - (i + k)" "length (drop (j + k) ys) = length ys - (j + k)"
      by simp_all
    have dr: "slice p (length zs) zs = drop p zs" "slice p (p + (length zs - p)) zs = drop p zs" for p and zs :: "'a list"
      by (simp_all add: slice_def)
    have sh: "slice (oi + i + k) (oi + i + k + (length xs - (i + k))) A = drop (i + k) xs"
      "slice (oj + j + k) (oj + j + k + (length ys - (j + k))) B = drop (j + k) ys"
      using b s [of "i + k" "length xs - (i + k)"] t [of "j + k" "length ys - (j + k)"]
      by (simp_all add: dr add.assoc)
    have hi: "within A B (oi + i + k) (oj + j + k) (oi + i + k + length (drop (i + k) xs))
        (oj + j + k + length (drop (j + k) ys))
        (matching_blocks (drop (i + k) xs) (drop (j + k) ys) (oi + i + k) (oj + j + k))"
      by (rule 1(2) [OF m [symmetric] refl False]) (simp_all only: hl sh)
    have mid: "slice (oi + i) (oi + i + k) A = slice (oj + j) (oj + j + k) B"
      using b s [of i k] t [of j k] by (simp add: slice_def)
    have "within A B (oi + i) (oj + j) (oi + length xs) (oj + length ys)
        ((oi + i, oj + j, k) # matching_blocks (drop (i + k) xs) (drop (j + k) ys) (oi + i + k) (oj + j + k))"
      using hi mid b by simp
    with lo b m False show ?thesis
      by (subst matching_blocks.simps) (auto intro: within_append)
  qed
qed

lemma collapse_within:
  "within xs ys i j i' j' (b # bs) \<Longrightarrow> within xs ys i j i' j' (collapse b bs)"
proof (induction b bs arbitrary: i j rule: collapse.induct)
  case (2 i1 j1 k1 i2 j2 k2 bs)
  show ?case
  proof (cases "i1 + k1 = i2 \<and> j1 + k1 = j2")
    case True
    then have "slice i1 (i1 + (k1 + k2)) xs = slice j1 (j1 + (k1 + k2)) ys"
      using 2(4) unfolding slice_add by auto
    with True 2(4) have "within xs ys i j i' j' ((i1, j1, k1 + k2) # bs)" by (auto simp: add.assoc)
    from 2(1) [OF True this] True show ?thesis by simp
  next
    case no: False
    show ?thesis
    proof (cases "k1 = 0")
      case True
      with 2(4) have "within xs ys i j i' j' ((i2, j2, k2) # bs)" by auto
      with 2(3) [OF no] True no show ?thesis by auto
    next
      case False
      from 2(4) have "within xs ys (i1 + k1) (j1 + k1) i' j' ((i2, j2, k2) # bs)" by auto
      from 2(2) [OF no False this] no False 2(4) show ?thesis by auto
    qed
  qed
qed (auto dest: within_le)

lemma opcodes_from_tiles:
  "within xs ys i j (length xs) (length ys) bs \<Longrightarrow>
   tiles xs ys i j (opcodes_from i j (bs @ [(length xs, length ys, 0)]))"
proof (induction bs arbitrary: i j)
  case (Cons b bs)
  obtain a c k where b: "b = (a, c, k)" by (cases b)
  from Cons.prems b have w: "within xs ys (a + k) (c + k) (length xs) (length ys) bs"
    and le: "i \<le> a" "j \<le> c" and eq: "slice a (a + k) xs = slice c (c + k) ys" by auto
  from within_le [OF w] Cons.IH [OF w] le eq show ?case by (auto simp: b)
qed auto

lemma get_opcodes_tile: "tiles xs ys 0 0 (get_opcodes xs ys)"
proof -
  have "within xs ys 0 0 (length xs) (length ys) ((0, 0, 0) # matching_blocks xs ys 0 0)"
    using matching_blocks_within [of 0 xs xs 0 ys ys] by (simp add: slice_def)
  from opcodes_from_tiles [OF collapse_within [OF this]] show ?thesis
    by (simp add: get_opcodes_def get_matching_blocks_def)
qed

lemma collapse_nonzero: "\<forall>b \<in> set bs. snd (snd b) \<noteq> 0 \<Longrightarrow> \<forall>c \<in> set (collapse b bs). snd (snd c) \<noteq> 0"
  by (induction b bs rule: collapse.induct) auto

lemma matching_blocks_nonzero: "\<forall>b \<in> set (matching_blocks xs ys oi oj). snd (snd b) \<noteq> 0"
proof (induction xs ys oi oj rule: matching_blocks.induct)
  case (1 xs ys oi oj)
  obtain i j k where m: "find_longest_match xs ys = (i, j, k)" by (cases "find_longest_match xs ys")
  show ?case
    by (cases "k = 0") (use m 1(1,2) [OF m [symmetric] refl] in \<open>auto simp: matching_blocks.simps [of xs ys]\<close>)
qed

lemma apart_Equal: "apart ops \<Longrightarrow> fst b = Equal \<Longrightarrow> apart (b # ops)"
  by (cases ops) auto

lemma opcodes_from_apart:
  "\<forall>b \<in> set bs. snd (snd b) \<noteq> 0 \<Longrightarrow> apart (opcodes_from i j (bs @ [(m, n, 0)]))"
proof (induction bs arbitrary: i j)
  case (Cons b bs)
  obtain a c k where b: "b = (a, c, k)" by (cases b)
  with Cons.prems have k: "k \<noteq> 0" by simp
  have "apart (opcodes_from (a + k) (c + k) (bs @ [(m, n, 0)]))" using Cons by simp
  with k show ?case by (auto simp: b intro!: apart_Equal)
qed auto

lemma get_opcodes_apart: "apart (get_opcodes xs ys)"
  unfolding get_opcodes_def get_matching_blocks_def
  by (intro opcodes_from_apart collapse_nonzero matching_blocks_nonzero)

lemma matching_blocks_Nil [simp]: "matching_blocks [] ys oi oj = []"
  by (simp add: matching_blocks.simps find_longest_match_def)

lemma get_opcodes_refl:
  "get_opcodes xs xs = (if xs = [] then [] else [(Equal, 0, length xs, 0, length xs)])"
proof (cases "xs = []")
  case False
  have "matching_blocks xs xs 0 0 = [(0, 0, length xs)]"
    using find_longest_match_refl [OF False] False by (simp add: matching_blocks.simps [of xs])
  with False show ?thesis by (simp add: get_opcodes_def get_matching_blocks_def)
qed (simp add: get_opcodes_def get_matching_blocks_def)

interpretation matcher: line_diff get_opcodes
  by unfold_locales (rule get_opcodes_tile get_opcodes_apart get_opcodes_refl)+

end
