(* ===== verification/Checkpoint_Log.thy ===== *)
theory Checkpoint_Log
  imports Text_IO Difflib "HOL-Library.Product_Lexorder"
begin

text \<open>
  The data of the checkpoint log (\<open>core/checkpoints/models.py\<close>, \<open>_events.py\<close>) and the line
  helpers of \<open>history.py\<close>: decoding into lines, the regions of a diff, splicing regions onto
  a file, and attributing rendered deletions.
\<close>

section \<open>Models and events\<close>

datatype opaque_reason = Missing | Binary_Or_Undecodable

record file_state =
  fs_data :: "string option"

definition fs_exists :: "file_state \<Rightarrow> bool" where
  "fs_exists s \<longleftrightarrow> fs_data s \<noteq> None"

definition is_binary :: "file_state \<Rightarrow> bool" where
  "is_binary s = (case fs_data s of None \<Rightarrow> False | Some d \<Rightarrow> CHR 0x00 \<in> set d)"

definition absent :: file_state where
  "absent = \<lparr>fs_data = None\<rparr>"

definition from_text :: "codecs \<Rightarrow> utext \<Rightarrow> file_state" where
  "from_text cd t = \<lparr>fs_data = Some (utf8_encode cd t)\<rparr>"

record region =
  baseline_start :: nat
  baseline_lines :: "utext list"
  current_start :: nat
  current_lines :: "utext list"

record opaque_change =
  oc_reason :: opaque_reason
  oc_baseline :: file_state
  oc_current :: file_state

datatype change = Line_Change region | Opaque_Change opaque_change

datatype owner = AgentTurn int | ManualEdit nat

datatype decision = Pending | Keep | Revert

text \<open>A region id is the pair of the producing edit's sequence number and the ordinal.\<close>

type_synonym region_id = "nat \<times> nat"

record turn_region =
  tr_region_id :: region_id
  tr_owner :: owner
  tr_change :: change
  tr_decision :: decision
  tr_depends_on :: "region_id list"

record turn_mark =
  tm_seq :: nat
  tm_turn_id :: int
  tm_pre :: "(string \<times> file_state) list"

record edit =
  ed_seq :: nat
  ed_owner :: owner
  ed_path :: string
  ed_before :: file_state
  ed_after :: file_state
  ed_deps :: "(nat \<times> region_id list) list"

record decide =
  de_seq :: nat
  de_path :: string
  de_hunk :: region_id
  de_keep :: bool

datatype event = Mark turn_mark | Edit edit | Decide decide

fun event_seq :: "event \<Rightarrow> nat" where
  "event_seq (Mark m) = tm_seq m"
| "event_seq (Edit e) = ed_seq e"
| "event_seq (Decide d) = de_seq d"

text \<open>\<open>sorted(ids, key=_rid_key)\<close> of a finite set: the key is the pair itself.\<close>

definition sorted_ids :: "region_id set \<Rightarrow> region_id list" where
  "sorted_ids ids = sorted_list_of_set ids"

definition deps_at :: "edit \<Rightarrow> nat \<Rightarrow> region_id list" where
  "deps_at e ordinal = (case map_of (ed_deps e) ordinal of None \<Rightarrow> [] | Some ds \<Rightarrow> ds)"

section \<open>Lines\<close>

definition decode_lines :: "codecs \<Rightarrow> file_state \<Rightarrow> utext list option" where
  "decode_lines cd s =
     (case fs_data s of
        None \<Rightarrow> Some []
      | Some d \<Rightarrow> (if is_binary s then None else Some (splitlines (rr_text (decode_safe cd d)))))"

definition lines_of :: "codecs \<Rightarrow> file_state \<Rightarrow> utext list" where
  "lines_of cd s = (case decode_lines cd s of None \<Rightarrow> [] | Some ls \<Rightarrow> ls)"

definition reencode :: "codecs \<Rightarrow> utext \<Rightarrow> file_state \<Rightarrow> file_state" where
  "reencode cd t ref =
     (case fs_data ref of
        None \<Rightarrow> from_text cd t
      | Some d \<Rightarrow> (let r = decode_safe cd d
                  in \<lparr>fs_data = Some (encode_safe cd t (rr_encoding r) (rr_newline r))\<rparr>))"

section \<open>Regions\<close>

fun regions_of :: "utext list \<Rightarrow> utext list \<Rightarrow> opcode list \<Rightarrow> region list" where
  "regions_of base cur [] = []"
| "regions_of base cur ((t, i1, i2, j1, j2) # ops) =
     (if t = Equal then regions_of base cur ops
      else \<lparr>baseline_start = i1, baseline_lines = slice i1 i2 base,
            current_start = j1, current_lines = slice j1 j2 cur\<rparr> # regions_of base cur ops)"

definition diff_regions :: "utext list \<Rightarrow> utext list \<Rightarrow> region list" where
  "diff_regions base cur = regions_of base cur (get_opcodes base cur)"

text \<open>One opcode's writes into the position map, and the map of a whole diff.\<close>

fun map_positions :: "nat list \<Rightarrow> opcode list \<Rightarrow> nat list" where
  "map_positions mapping [] = mapping"
| "map_positions mapping ((t, i1, i2, j1, j2) # ops) =
     (if t = Equal
      then map_positions (fold (\<lambda>k m. m[i1 + k := j1 + k]) [0..<i2 - i1 + 1] mapping) ops
      else map_positions (mapping[i1 := j1, i2 := j2]) ops)"

definition base_to_result :: "utext list \<Rightarrow> utext list \<Rightarrow> nat list" where
  "base_to_result base res = map_positions (replicate (length base + 1) 0) (get_opcodes base res)"

definition region_end :: "region \<Rightarrow> nat" where
  "region_end h = baseline_start h + length (baseline_lines h)"

text \<open>\<open>result[start:end] = lines\<close>; a slice with \<open>end < start\<close> inserts at \<open>start\<close>.\<close>

definition slice_assign :: "nat \<Rightarrow> nat \<Rightarrow> 'a list \<Rightarrow> 'a list \<Rightarrow> 'a list" where
  "slice_assign s e new xs = take s xs @ new @ drop (max s e) xs"

definition rebase_hunk :: "nat list \<Rightarrow> region \<Rightarrow> nat \<times> nat \<times> utext list" where
  "rebase_hunk mapping h = (mapping ! baseline_start h, mapping ! region_end h, current_lines h)"

definition splice :: "utext list \<Rightarrow> utext list \<Rightarrow> region list \<Rightarrow> utext list" where
  "splice res base hunks =
     fold (\<lambda>(s, e, ls) r. slice_assign s e ls r)
       (rev (sort (map (rebase_hunk (base_to_result base res)) hunks))) res"

definition rebase_hunk_id :: "nat list \<Rightarrow> region_id \<times> region \<Rightarrow> (nat \<times> nat \<times> utext list) \<times> region_id" where
  "rebase_hunk_id mapping rh = (rebase_hunk mapping (snd rh), fst rh)"

text \<open>
  The same with the provenance of every line.  The source sorts quadruples and never gets to
  compare the ids of two hunks unless their spans and lines coincide.
\<close>

definition splice_with_prov ::
  "utext list \<Rightarrow> region_id option list \<Rightarrow> utext list \<Rightarrow> (region_id \<times> region) list \<Rightarrow>
     utext list \<times> region_id option list" where
  "splice_with_prov res prov base hunks =
     fold (\<lambda>((s, e, ls), rid) (r, p).
             (slice_assign s e ls r, slice_assign s e (replicate (length ls) (Some rid)) p))
       (rev (sort (map (rebase_hunk_id (base_to_result base res)) hunks))) (res, prov)"

section \<open>Attributing deletions\<close>

definition free_run :: "utext list \<Rightarrow> bool list \<Rightarrow> utext list \<Rightarrow> nat \<Rightarrow> bool" where
  "free_run removed used content i \<longleftrightarrow>
     True \<notin> set (slice i (i + length content) used) \<and>
     slice i (i + length content) removed = content"

fun match_scan ::
  "utext list \<Rightarrow> (region_id \<times> utext list) list \<Rightarrow> bool list \<Rightarrow> region_id list \<Rightarrow> region_id list \<Rightarrow>
     region_id list \<times> region_id list" where
  "match_scan removed [] used seeds consumed = (seeds, consumed)"
| "match_scan removed ((rid, content) # ds) used seeds consumed =
     (if rid \<in> set consumed \<or> content = [] then match_scan removed ds used seeds consumed
      else case find (free_run removed used content) [0..<length removed + 1 - length content] of
        None \<Rightarrow> match_scan removed ds used seeds consumed
      | Some i \<Rightarrow>
          match_scan removed ds
            (slice_assign i (i + length content) (replicate (length content) True) used)
            (rid # seeds) (rid # consumed))"

definition match_deletions ::
  "utext list \<Rightarrow> (region_id \<times> utext list) list \<Rightarrow> region_id list \<Rightarrow> region_id list \<times> region_id list" where
  "match_deletions removed deletions consumed =
     match_scan removed deletions (replicate (length removed) False) [] consumed"

section \<open>Edits\<close>

definition opaque_reason_of :: "file_state \<Rightarrow> file_state \<Rightarrow> opaque_reason" where
  "opaque_reason_of before after =
     (if fs_data before = None \<or> fs_data after = None then Missing else Binary_Or_Undecodable)"

definition opaque_pair :: "codecs \<Rightarrow> file_state \<Rightarrow> file_state \<Rightarrow> bool" where
  "opaque_pair cd before after =
     (if decode_lines cd before = None \<or> decode_lines cd after = None \<or> fs_data after = None then True
      else fs_exists before \<noteq> fs_exists after \<and> decode_lines cd before = decode_lines cd after)"

definition is_opaque :: "codecs \<Rightarrow> edit \<Rightarrow> bool" where
  "is_opaque cd e = opaque_pair cd (ed_before e) (ed_after e)"

definition changes_of :: "codecs \<Rightarrow> edit \<Rightarrow> (nat \<times> change) list" where
  "changes_of cd e =
     (if is_opaque cd e
      then [(0, Opaque_Change \<lparr>oc_reason = opaque_reason_of (ed_before e) (ed_after e),
                               oc_baseline = ed_before e, oc_current = ed_after e\<rparr>)]
      else List.enumerate 0
             (map Line_Change (diff_regions (lines_of cd (ed_before e)) (lines_of cd (ed_after e)))))"

definition reference_state :: "edit list \<Rightarrow> file_state" where
  "reference_state es =
     (case find (\<lambda>e. fs_data (ed_before e) \<noteq> None) es of
        Some e \<Rightarrow> ed_before e
      | None \<Rightarrow> (case find (\<lambda>e. fs_data (ed_after e) \<noteq> None) es of
                   Some e \<Rightarrow> ed_after e
                 | None \<Rightarrow> absent))"

section \<open>Splicing all regions of a diff yields the other side\<close>

text \<open>The span of a region, as the splice sees it when the base is the running result.\<close>

definition span :: "region \<Rightarrow> nat \<times> nat \<times> utext list" where
  "span h = (baseline_start h, region_end h, current_lines h)"

lemma slice_lengths: "i2 \<le> length xs \<Longrightarrow> length (slice i1 i2 xs) = i2 - i1"
  by (simp add: slice_def)

lemma slice_drop: "i \<le> j \<Longrightarrow> slice i j xs @ drop j xs = drop i xs"
  by (simp add: slice_def) (metis append_take_drop_id drop_drop le_add_diff_inverse2)

lemma take_slice: "i \<le> j \<Longrightarrow> take i xs @ slice i j xs = take j xs"
  by (simp add: slice_def) (metis le_add_diff_inverse take_add)

lemma fold_positions: "n \<le> length m \<Longrightarrow> fold (\<lambda>k m. m[k := k]) [0..<n] m = [0..<n] @ drop n m"
proof (induction n)
  case (Suc n)
  then have "drop n m = m ! n # drop (Suc n) m" by (simp add: Cons_nth_drop_Suc)
  with Suc show ?case by (simp add: list_update_append)
qed simp

locale line_patch = line_diff opcodes
  for opcodes :: "utext list \<Rightarrow> utext list \<Rightarrow> opcode list"
begin

lemma positions_refl: "map_positions (replicate (length xs + 1) 0) (opcodes xs xs) = [0..<length xs + 1]"
  using fold_positions [of "length xs + 1" "replicate (length xs + 1) 0"]
  by (auto simp: opcodes_refl)

lemma patch_from:
  "tiles base cur i j ops \<Longrightarrow>
   foldr (\<lambda>(s, e, ls) r. slice_assign s e ls r) (map span (regions_of base cur ops)) base =
   take i base @ drop j cur"
proof (induction ops arbitrary: i j)
  case (Cons op ops)
  obtain t i1 i2 j1 j2 where op: "op = (t, i1, i2, j1, j2)" by (cases op)
  from Cons.prems op have p: "i1 = i" "j1 = j" "i \<le> i2" "i2 \<le> length base" "j \<le> j2" "j2 \<le> length cur"
    "tiles base cur i2 j2 ops" and eq: "t = Equal \<Longrightarrow> slice i i2 base = slice j j2 cur" by auto
  show ?case
  proof (cases "t = Equal")
    case True
    have "take i2 base @ drop j2 cur = take i base @ slice j j2 cur @ drop j2 cur"
      using take_slice [OF p(3), of base] eq [OF True] by (metis append.assoc)
    with True op p Cons.IH [OF p(7)] slice_drop [OF p(5), of cur] show ?thesis by simp
  next
    case False
    with op p Cons.IH [OF p(7)] slice_drop [OF p(5), of cur] show ?thesis
      by (simp add: span_def region_end_def slice_lengths slice_assign_def max_absorb2 min_absorb1)
  qed
qed simp

lemma patch: "foldr (\<lambda>(s, e, ls) r. slice_assign s e ls r) (map span (regions_of base cur (opcodes base cur))) base = cur"
  using patch_from [OF opcodes_tile] by simp

lemma spans_sorted_from:
  "tiles base cur i j ops \<Longrightarrow> apart ops \<Longrightarrow>
   sorted (map span (regions_of base cur ops)) \<and>
   (\<forall>x \<in> set (map span (regions_of base cur ops)). i \<le> fst x \<and> fst x \<le> fst (snd x) \<and> fst (snd x) \<le> length base \<and>
     (ops \<noteq> [] \<and> fst (hd ops) = Equal \<longrightarrow> i < fst x))"
proof (induction ops arbitrary: i j)
  case (Cons op ops)
  obtain t i1 i2 j1 j2 where op: "op = (t, i1, i2, j1, j2)" by (cases op)
  from Cons.prems op have p: "i1 = i" "j1 = j" "i \<le> i2" "i2 \<le> length base"
    "tiles base cur i2 j2 ops" and eq: "t = Equal \<Longrightarrow> i < i2" by auto
  have "apart ops" using Cons.prems(2) by (cases ops) auto
  note IH = Cons.IH [OF p(5) this]
  show ?case
  proof (cases "t = Equal")
    case True
    with IH op p eq [OF True] show ?thesis by (auto simp: less_le_trans)
  next
    case False
    with Cons.prems(2) op have e: "ops = [] \<or> fst (hd ops) = Equal" by (cases ops) auto
    have s: "span \<lparr>baseline_start = i, baseline_lines = slice i i2 base, current_start = j,
        current_lines = slice j j2 cur\<rparr> = (i, i2, slice j j2 cur)"
      using p by (simp add: span_def region_end_def slice_lengths)
    have "\<forall>x \<in> set (map span (regions_of base cur ops)). i < fst x \<and> i \<le> fst x \<and> fst x \<le> fst (snd x) \<and> fst (snd x) \<le> length base"
    proof
      fix x assume x: "x \<in> set (map span (regions_of base cur ops))"
      then have "ops \<noteq> []" by auto
      with e bspec [OF IH [THEN conjunct2] x] p(3)
      show "i < fst x \<and> i \<le> fst x \<and> fst x \<le> fst (snd x) \<and> fst (snd x) \<le> length base" by simp
    qed
    with IH False op p show ?thesis by (auto simp: s less_eq_prod_def)
  qed
qed simp

lemmas spans_sorted = spans_sorted_from [OF opcodes_tile opcodes_apart, THEN conjunct1]
lemmas spans_bounds = spans_sorted_from [OF opcodes_tile opcodes_apart, THEN conjunct2]

end

interpretation matcher_lines: line_patch get_opcodes
  by unfold_locales

lemma base_to_result_refl: "base_to_result xs xs = [0..<length xs + 1]"
  unfolding base_to_result_def by (rule matcher_lines.positions_refl)

lemma splice_diff_regions: "splice base base (diff_regions base cur) = cur"
proof -
  let ?rs = "diff_regions base cur"
  have b: "baseline_start h \<le> length base \<and> region_end h \<le> length base" if "h \<in> set ?rs" for h
    using that matcher_lines.spans_bounds [of base cur] by (force simp: diff_regions_def span_def)
  have n: "[0..<Suc (length base)] ! k = k" if "k \<le> length base" for k
    using that nth_upt [of 0 k "Suc (length base)"] by (simp del: upt_Suc)
  from b have m: "map (rebase_hunk (base_to_result base base)) ?rs = map span ?rs"
    by (intro map_cong) (auto simp: rebase_hunk_def span_def base_to_result_refl n simp del: upt_Suc)
  have so: "sort (map span ?rs) = map span ?rs"
    using matcher_lines.spans_sorted [of base cur] by (simp add: diff_regions_def sorted_sort_id)
  show ?thesis unfolding splice_def m so
    using matcher_lines.patch [of base cur] by (simp add: diff_regions_def foldr_conv_fold)
qed

end
