(* ===== verification/History.thy ===== *)
theory History
  imports Checkpoint_Log
begin

text \<open>
  The read model of the checkpoint log (\<open>core/checkpoints/history.py\<close>, class \<open>History\<close>): pure
  functions of the event list that resolve it into per-hunk decisions, the hunks a projection
  applies, file states, dependencies of a new edit, and restore plans.  The memo tables of
  the class are not modelled: they only remember the results of these functions.
\<close>

section \<open>Selecting events\<close>

definition edits_for :: "event list \<Rightarrow> string \<Rightarrow> edit list" where
  "edits_for evs path =
     concat (map (\<lambda>ev. case ev of Edit e \<Rightarrow> if ed_path e = path then [e] else [] | _ \<Rightarrow> []) evs)"

definition marks :: "event list \<Rightarrow> turn_mark list" where
  "marks evs = concat (map (\<lambda>ev. case ev of Mark m \<Rightarrow> [m] | _ \<Rightarrow> []) evs)"

definition has_edits :: "event list \<Rightarrow> string \<Rightarrow> bool" where
  "has_edits evs path = (edits_for evs path \<noteq> [])"

definition tracked_paths :: "event list \<Rightarrow> string list" where
  "tracked_paths evs =
     rev (remdups (rev (concat (map (\<lambda>ev. case ev of Edit e \<Rightarrow> [ed_path e]
                                         | Mark m \<Rightarrow> map fst (tm_pre m) | Decide _ \<Rightarrow> []) evs))))"

definition last_turn_paths :: "event list \<Rightarrow> string list" where
  "last_turn_paths evs = (if marks evs = [] then [] else map fst (tm_pre (last (marks evs))))"

definition turns :: "event list \<Rightarrow> (int \<times> (string \<times> file_state) list) list" where
  "turns evs = map (\<lambda>m. (tm_turn_id m, tm_pre m)) (marks evs)"

definition scopes :: "event list \<Rightarrow> owner list" where
  "scopes evs = rev (remdups (rev (concat (map (\<lambda>ev. case ev of Edit e \<Rightarrow> [ed_owner e] | _ \<Rightarrow> []) evs))))"

definition has_turn :: "event list \<Rightarrow> int \<Rightarrow> bool" where
  "has_turn evs t = list_ex (\<lambda>m. tm_turn_id m = t) (marks evs)"

fun original :: "event list \<Rightarrow> string \<Rightarrow> file_state" where
  "original [] path = absent"
| "original (Edit e # evs) path = (if ed_path e = path then ed_before e else original evs path)"
| "original (Mark m # evs) path =
     (case map_of (tm_pre m) path of Some s \<Rightarrow> s | None \<Rightarrow> original evs path)"
| "original (Decide d # evs) path = original evs path"

fun turn_index_scan :: "event list \<Rightarrow> int \<Rightarrow> nat \<Rightarrow> nat option \<Rightarrow> nat option \<Rightarrow> nat option" where
  "turn_index_scan [] t i exact later = (case exact of Some k \<Rightarrow> Some k | None \<Rightarrow> later)"
| "turn_index_scan (Mark m # evs) t i exact later =
     (if tm_turn_id m = t then turn_index_scan evs t (Suc i) (Some i) later
      else if tm_turn_id m > t \<and> later = None then turn_index_scan evs t (Suc i) exact (Some i)
      else turn_index_scan evs t (Suc i) exact later)"
| "turn_index_scan (_ # evs) t i exact later = turn_index_scan evs t (Suc i) exact later"

definition event_index_of_turn :: "event list \<Rightarrow> int \<Rightarrow> nat option" where
  "event_index_of_turn evs t = turn_index_scan evs t 0 None None"

section \<open>Decisions\<close>

definition verdict :: "decide \<Rightarrow> decision" where
  "verdict d = (if de_keep d then Keep else Revert)"

fun explicit_from :: "event list \<Rightarrow> string \<Rightarrow> (region_id \<rightharpoonup> decision) \<Rightarrow> (region_id \<rightharpoonup> decision)" where
  "explicit_from [] path ds = ds"
| "explicit_from (Decide d # evs) path ds =
     (if de_path d = path \<and> ds (de_hunk d) \<noteq> Some Revert
      then explicit_from evs path (ds(de_hunk d \<mapsto> verdict d))
      else explicit_from evs path ds)"
| "explicit_from (_ # evs) path ds = explicit_from evs path ds"

definition explicit_decisions :: "event list \<Rightarrow> string \<Rightarrow> (region_id \<rightharpoonup> decision)" where
  "explicit_decisions evs path = explicit_from evs path Map.empty"

definition edit_order :: "codecs \<Rightarrow> edit \<Rightarrow> (region_id \<times> region_id list) list" where
  "edit_order cd e = map (\<lambda>(ordinal, _). ((ed_seq e, ordinal), deps_at e ordinal)) (changes_of cd e)"

definition hunk_order :: "codecs \<Rightarrow> event list \<Rightarrow> string \<Rightarrow> (region_id \<times> region_id list) list" where
  "hunk_order cd evs path = concat (map (edit_order cd) (edits_for evs path))"

definition owned_hunks :: "codecs \<Rightarrow> event list \<Rightarrow> string \<Rightarrow> (region_id \<times> owner) list" where
  "owned_hunks cd evs path =
     concat (map (\<lambda>e. map (\<lambda>(ordinal, _). ((ed_seq e, ordinal), ed_owner e)) (changes_of cd e))
       (edits_for evs path))"

fun reverted_from ::
  "(region_id \<rightharpoonup> decision) \<Rightarrow> (region_id \<times> region_id list) list \<Rightarrow> region_id set \<Rightarrow> region_id set" where
  "reverted_from ex [] rs = rs"
| "reverted_from ex ((rid, deps) # order) rs =
     reverted_from ex order
       (if ex rid = Some Revert \<or> list_ex (\<lambda>d. d \<in> rs) deps then insert rid rs else rs)"

definition reverted :: "codecs \<Rightarrow> event list \<Rightarrow> string \<Rightarrow> region_id set" where
  "reverted cd evs path = reverted_from (explicit_decisions evs path) (hunk_order cd evs path) {}"

definition effective :: "codecs \<Rightarrow> event list \<Rightarrow> string \<Rightarrow> (region_id \<times> decision) list" where
  "effective cd evs path =
     map (\<lambda>(rid, _). (rid, if rid \<in> reverted cd evs path then Revert
                           else if explicit_decisions evs path rid = Some Keep then Keep else Pending))
       (hunk_order cd evs path)"

definition eff_get :: "codecs \<Rightarrow> event list \<Rightarrow> string \<Rightarrow> region_id \<Rightarrow> decision option" where
  "eff_get cd evs path rid = map_of (effective cd evs path) rid"

definition is_fully_reviewed :: "codecs \<Rightarrow> event list \<Rightarrow> string \<Rightarrow> bool" where
  "is_fully_reviewed cd evs path = list_all (\<lambda>(_, d). d \<noteq> Pending) (effective cd evs path)"

definition regions :: "codecs \<Rightarrow> event list \<Rightarrow> string \<Rightarrow> turn_region list" where
  "regions cd evs path =
     concat (map (\<lambda>e. map (\<lambda>(ordinal, ch).
         \<lparr>tr_region_id = (ed_seq e, ordinal), tr_owner = ed_owner e, tr_change = ch,
          tr_decision = the (eff_get cd evs path (ed_seq e, ordinal)),
          tr_depends_on = deps_at e ordinal\<rparr>) (changes_of cd e)) (edits_for evs path))"

section \<open>The hunks a projection applies\<close>

fun applied_from ::
  "(region_id \<rightharpoonup> decision) \<Rightarrow> bool \<Rightarrow> (region_id \<times> region_id list) list \<Rightarrow> region_id set \<Rightarrow> region_id set" where
  "applied_from eff only_kept [] ap = ap"
| "applied_from eff only_kept ((rid, deps) # order) ap =
     applied_from eff only_kept order
       (if eff rid = Some Revert then ap
        else if only_kept \<and> eff rid \<noteq> Some Keep then ap
        else if list_all (\<lambda>d. d \<in> ap) deps then insert rid ap else ap)"

definition applied :: "codecs \<Rightarrow> event list \<Rightarrow> string \<Rightarrow> bool \<Rightarrow> region_id set" where
  "applied cd evs path only_kept =
     applied_from (eff_get cd evs path) only_kept (hunk_order cd evs path) {}"

definition applied_before :: "codecs \<Rightarrow> event list \<Rightarrow> string \<Rightarrow> edit \<Rightarrow> region_id set" where
  "applied_before cd evs path target =
     applied_from (eff_get cd evs path) False
       (concat (map (edit_order cd) (takeWhile (\<lambda>e. e \<noteq> target) (edits_for evs path)))) {}"

definition applied_barriers :: "codecs \<Rightarrow> event list \<Rightarrow> string \<Rightarrow> region_id set \<Rightarrow> region_id set" where
  "applied_barriers cd evs path ap =
     set (map (\<lambda>e. (ed_seq e, 0))
       (filter (\<lambda>e. is_opaque cd e \<and> (ed_seq e, 0) \<in> ap) (edits_for evs path)))"

section \<open>Reconstruction\<close>

definition applied_changes :: "codecs \<Rightarrow> edit \<Rightarrow> region_id set \<Rightarrow> (region_id \<times> change) list" where
  "applied_changes cd e ap =
     filter (\<lambda>(rid, _). rid \<in> ap) (map (\<lambda>(ordinal, ch). ((ed_seq e, ordinal), ch)) (changes_of cd e))"

fun line_changes :: "(region_id \<times> change) list \<Rightarrow> (region_id \<times> region) list" where
  "line_changes [] = []"
| "line_changes ((rid, Line_Change r) # cs) = (rid, r) # line_changes cs"
| "line_changes ((rid, Opaque_Change _) # cs) = line_changes cs"

definition replay_edit :: "codecs \<Rightarrow> file_state \<Rightarrow> region_id set \<Rightarrow> edit \<Rightarrow> file_state \<Rightarrow> file_state" where
  "replay_edit cd ref ap e res =
     (let here = applied_changes cd e ap
      in if here = [] then res
         else if is_opaque cd e then ed_after e
         else reencode cd (concat (splice (lines_of cd res) (lines_of cd (ed_before e))
                                     (map snd (line_changes here)))) ref)"

definition reconstruct :: "codecs \<Rightarrow> event list \<Rightarrow> string \<Rightarrow> region_id set \<Rightarrow> file_state" where
  "reconstruct cd evs path ap =
     (let es = edits_for evs path
      in if es = [] then original evs path
         else fold (replay_edit cd (reference_state es) ap) es (ed_before (hd es)))"

definition replay_prov ::
  "codecs \<Rightarrow> region_id set \<Rightarrow> edit \<Rightarrow> utext list \<times> region_id option list \<Rightarrow>
     utext list \<times> region_id option list" where
  "replay_prov cd ap e rp =
     (let here = applied_changes cd e ap
      in if here = [] then rp
         else if is_opaque cd e
         then (lines_of cd (ed_after e),
               replicate (length (lines_of cd (ed_after e))) (Some (ed_seq e, 0)))
         else splice_with_prov (fst rp) (snd rp) (lines_of cd (ed_before e)) (line_changes here))"

definition reconstruct_with_prov ::
  "codecs \<Rightarrow> event list \<Rightarrow> string \<Rightarrow> region_id set \<Rightarrow> utext list \<times> region_id option list" where
  "reconstruct_with_prov cd evs path ap =
     (let es = edits_for evs path; res = (if es = [] then [] else lines_of cd (ed_before (hd es)))
      in fold (replay_prov cd ap) es (res, replicate (length res) None))"

definition project :: "codecs \<Rightarrow> event list \<Rightarrow> string \<Rightarrow> bool \<Rightarrow> file_state" where
  "project cd evs path only_kept = reconstruct cd evs path (applied cd evs path only_kept)"

definition content :: "codecs \<Rightarrow> event list \<Rightarrow> string \<Rightarrow> file_state" where
  "content cd evs path = project cd evs path False"

definition accepted_baseline :: "codecs \<Rightarrow> event list \<Rightarrow> string \<Rightarrow> file_state" where
  "accepted_baseline cd evs path = project cd evs path True"

section \<open>Dependencies of a new edit\<close>

definition prov_ids :: "region_id option list \<Rightarrow> nat list \<Rightarrow> region_id set" where
  "prov_ids prov ks =
     set (concat (map (\<lambda>k. if k < length prov then (case prov ! k of None \<Rightarrow> [] | Some r \<Rightarrow> [r]) else []) ks))"

definition region_deps :: "region_id option list \<Rightarrow> region_id set \<Rightarrow> region \<Rightarrow> region_id list" where
  "region_deps prov barriers r =
     (let i = baseline_start r; j = region_end r;
          ids = (if j > i then prov_ids prov [i..<j] else prov_ids prov [if i > 0 then i - 1 else 0])
      in sorted_ids (ids \<union> barriers))"

definition compute_deps ::
  "codecs \<Rightarrow> event list \<Rightarrow> string \<Rightarrow> file_state \<Rightarrow> file_state \<Rightarrow> (nat \<times> region_id list) list" where
  "compute_deps cd evs path before after =
     (let ap = applied cd evs path False
      in if opaque_pair cd before after then [(0, sorted_ids ap)]
         else let lb = lines_of cd before;
                  prov = (if has_edits evs path then snd (reconstruct_with_prov cd evs path ap)
                          else replicate (length lb) None);
                  barriers = applied_barriers cd evs path ap
              in List.enumerate 0
                   (map (region_deps prov barriers) (diff_regions lb (lines_of cd after))))"

section \<open>Restoring\<close>

fun plan_from_marks :: "event list \<Rightarrow> (string \<times> file_state) list \<Rightarrow> (string \<times> file_state) list" where
  "plan_from_marks [] plan = plan"
| "plan_from_marks (Mark m # evs) plan =
     plan_from_marks evs
       (fold (\<lambda>(p, s) pl. if map_of pl p = None then pl @ [(p, s)] else pl) (tm_pre m) plan)"
| "plan_from_marks (_ # evs) plan = plan_from_marks evs plan"

fun plan_from_edits ::
  "codecs \<Rightarrow> event list \<Rightarrow> event list \<Rightarrow> (string \<times> file_state) list \<Rightarrow> (string \<times> file_state) list" where
  "plan_from_edits cd kept [] plan = plan"
| "plan_from_edits cd kept (Edit e # evs) plan =
     plan_from_edits cd kept evs
       (if map_of plan (ed_path e) = None then plan @ [(ed_path e, project cd kept (ed_path e) False)]
        else plan)"
| "plan_from_edits cd kept (_ # evs) plan = plan_from_edits cd kept evs plan"

definition restore_plan :: "codecs \<Rightarrow> event list \<Rightarrow> nat \<Rightarrow> (string \<times> file_state) list" where
  "restore_plan cd evs index =
     plan_from_edits cd (take index evs) (drop index evs) (plan_from_marks (drop index evs) [])"

definition restore_plan_to_turn :: "codecs \<Rightarrow> event list \<Rightarrow> int \<Rightarrow> (string \<times> file_state) list" where
  "restore_plan_to_turn cd evs t =
     (if \<not> has_turn evs t then []
      else case event_index_of_turn evs t of None \<Rightarrow> [] | Some i \<Rightarrow> restore_plan cd evs i)"

definition turn_fully_kept :: "codecs \<Rightarrow> event list \<Rightarrow> int \<Rightarrow> bool" where
  "turn_fully_kept cd evs t =
     list_all (\<lambda>path. list_all (\<lambda>(rid, o'). o' = AgentTurn t \<longrightarrow> eff_get cd evs path rid = Some Keep)
                        (owned_hunks cd evs path))
       (tracked_paths evs)"

definition accepted_turn_frontier :: "codecs \<Rightarrow> event list \<Rightarrow> nat" where
  "accepted_turn_frontier cd evs =
     length (takeWhile (\<lambda>m. turn_fully_kept cd evs (tm_turn_id m)) (marks evs))"

section \<open>Scopes\<close>

definition scope_edit :: "event list \<Rightarrow> string \<Rightarrow> owner \<Rightarrow> edit option" where
  "scope_edit evs path o' = find (\<lambda>e. ed_owner e = o') (edits_for evs path)"

definition scope_ids :: "codecs \<Rightarrow> event list \<Rightarrow> string \<Rightarrow> edit \<Rightarrow> decision \<Rightarrow> region_id set" where
  "scope_ids cd evs path e d =
     set (filter (\<lambda>rid. eff_get cd evs path rid = Some d) (map fst (edit_order cd e)))"

definition scope_pending_diff ::
  "codecs \<Rightarrow> event list \<Rightarrow> string \<Rightarrow> owner \<Rightarrow> (file_state \<times> file_state) option" where
  "scope_pending_diff cd evs path o' =
     (case scope_edit evs path o' of
        None \<Rightarrow> None
      | Some e \<Rightarrow>
          (let kept = scope_ids cd evs path e Keep; pending = scope_ids cd evs path e Pending;
               prefix = applied_before cd evs path e
           in if pending = {} then None
              else Some (reconstruct cd evs path (prefix \<union> kept),
                         reconstruct cd evs path (prefix \<union> kept \<union> pending))))"

definition all_view ::
  "codecs \<Rightarrow> event list \<Rightarrow> string \<Rightarrow> (region_id set \<times> region_id set \<times> region_id set) option" where
  "all_view cd evs path =
     (if edits_for evs path = [] then None
      else let current = applied cd evs path False
           in Some (applied cd evs path True, current,
                    {rid \<in> current. eff_get cd evs path rid = Some Pending}))"

definition scope_view ::
  "codecs \<Rightarrow> event list \<Rightarrow> string \<Rightarrow> owner \<Rightarrow> (region_id set \<times> region_id set \<times> region_id set) option" where
  "scope_view cd evs path o' =
     (case scope_edit evs path o' of
        None \<Rightarrow> None
      | Some e \<Rightarrow>
          (let kept = scope_ids cd evs path e Keep; pending = scope_ids cd evs path e Pending;
               prefix = applied_before cd evs path e
           in if pending = {} then None
              else Some (prefix \<union> kept, prefix \<union> kept \<union> pending, pending)))"

end
