(* ===== verification/Checkpointer.thy ===== *)
theory Checkpointer
  imports History
begin

text \<open>
  The writer of the checkpoint log (\<open>core/checkpoints/checkpointer.py\<close>): turns, manual edits
  and decisions appended to one ordered log.  An open turn is known by the sequence number of
  its mark: the mark object is shared with the log, and recording a pre-edit state writes
  through to it.  The pool that shares equal states is modelled with its digest keys.
\<close>

record open_turn =
  ot_mark :: nat
  ot_post :: "(string \<times> file_state) list"

type_synonym state_pool = "((string \<times> string option) \<times> file_state) list"

record checkpointer =
  cp_events :: "event list"
  cp_seq :: nat
  cp_manual :: nat
  cp_open :: "open_turn option"
  cp_pool :: state_pool

datatype checkpoint_error = TurnStateError | FileStateError | BodyError

definition new_checkpointer :: checkpointer where
  "new_checkpointer = \<lparr>cp_events = [], cp_seq = 0, cp_manual = 0, cp_open = None, cp_pool = []\<rparr>"

section \<open>The pool\<close>

definition pool_intern :: "codecs \<Rightarrow> string \<Rightarrow> file_state \<Rightarrow> state_pool \<Rightarrow> file_state \<times> state_pool" where
  "pool_intern cd path s pool =
     (let key = (path, map_option (blake2b cd) (fs_data s))
      in case map_of pool key of
           Some p \<Rightarrow> (if p = s then (p, pool) else (s, dict_set key s pool))
         | None \<Rightarrow> (s, dict_set key s pool))"

definition intern :: "codecs \<Rightarrow> string \<Rightarrow> file_state \<Rightarrow> checkpointer \<Rightarrow> file_state \<times> checkpointer" where
  "intern cd path s c =
     (case pool_intern cd path s (cp_pool c) of (s', pool) \<Rightarrow> (s', c\<lparr>cp_pool := pool\<rparr>))"

section \<open>Turns\<close>

definition bump :: "checkpointer \<Rightarrow> nat \<times> checkpointer" where
  "bump c = (Suc (cp_seq c), c\<lparr>cp_seq := Suc (cp_seq c)\<rparr>)"

definition next_manual_index :: "checkpointer \<Rightarrow> nat \<times> checkpointer" where
  "next_manual_index c = (Suc (cp_manual c), c\<lparr>cp_manual := Suc (cp_manual c)\<rparr>)"

definition has_checkpoint :: "checkpointer \<Rightarrow> string \<Rightarrow> bool" where
  "has_checkpoint c path = (path \<in> set (tracked_paths (cp_events c)))"

definition begin_turn :: "int \<Rightarrow> checkpointer \<Rightarrow> checkpoint_error + checkpointer" where
  "begin_turn t c =
     (if cp_open c \<noteq> None then Inl TurnStateError
      else case bump c of (n, c1) \<Rightarrow>
        Inr (c1\<lparr>cp_events := cp_events c1 @ [Mark \<lparr>tm_seq = n, tm_turn_id = t, tm_pre = []\<rparr>],
                cp_open := Some \<lparr>ot_mark = n, ot_post = []\<rparr>\<rparr>))"

definition is_mark :: "nat \<Rightarrow> event \<Rightarrow> bool" where
  "is_mark n ev = (case ev of Mark m \<Rightarrow> tm_seq m = n | _ \<Rightarrow> False)"

definition find_mark :: "event list \<Rightarrow> nat \<Rightarrow> turn_mark option" where
  "find_mark evs n = find (\<lambda>m. tm_seq m = n) (marks evs)"

definition mark_pre :: "event list \<Rightarrow> nat \<Rightarrow> (string \<times> file_state) list" where
  "mark_pre evs n = (case find_mark evs n of None \<Rightarrow> [] | Some m \<Rightarrow> tm_pre m)"

definition set_pre :: "nat \<Rightarrow> string \<Rightarrow> file_state \<Rightarrow> event \<Rightarrow> event" where
  "set_pre n path s ev =
     (case ev of Mark m \<Rightarrow> (if tm_seq m = n then Mark (m\<lparr>tm_pre := dict_set path s (tm_pre m)\<rparr>) else ev)
      | _ \<Rightarrow> ev)"

definition insert_local_before_mark ::
  "codecs \<Rightarrow> nat \<Rightarrow> string \<Rightarrow> file_state \<Rightarrow> file_state \<Rightarrow> checkpointer \<Rightarrow> checkpointer" where
  "insert_local_before_mark cd mark path before after c =
     (case intern cd path before c of (before', c1) \<Rightarrow>
      let deps = compute_deps cd (cp_events c1) path before' after
      in case bump c1 of (n, c2) \<Rightarrow>
      case next_manual_index c2 of (k, c3) \<Rightarrow>
      let e = \<lparr>ed_seq = n, ed_owner = ManualEdit k, ed_path = path, ed_before = before',
               ed_after = after, ed_deps = deps\<rparr>;
          i = the (first_index (is_mark mark) (cp_events c3))
      in c3\<lparr>cp_events := take i (cp_events c3) @ Edit e # drop i (cp_events c3)\<rparr>)"

definition record_pre_edit ::
  "codecs \<Rightarrow> string \<Rightarrow> file_state \<Rightarrow> checkpointer \<Rightarrow> checkpoint_error + checkpointer" where
  "record_pre_edit cd path pre c =
     (case cp_open c of
        None \<Rightarrow> Inl TurnStateError
      | Some ot \<Rightarrow>
          (if path \<in> set (map fst (mark_pre (cp_events c) (ot_mark ot))) then Inr c
           else case intern cd path pre c of (pre', c1) \<Rightarrow>
             let c2 = (if path \<in> set (tracked_paths (cp_events c1))
                       then let projection = project cd (cp_events c1) path False
                            in if pre' \<noteq> projection
                               then insert_local_before_mark cd (ot_mark ot) path projection pre' c1
                               else c1
                       else c1)
             in Inr (c2\<lparr>cp_events := map (set_pre (ot_mark ot) path pre') (cp_events c2)\<rparr>)))"

definition record_post_edit ::
  "codecs \<Rightarrow> string \<Rightarrow> file_state \<Rightarrow> checkpointer \<Rightarrow> checkpoint_error + checkpointer" where
  "record_post_edit cd path post c =
     (case cp_open c of
        None \<Rightarrow> Inl TurnStateError
      | Some ot \<Rightarrow>
          (case intern cd path post c of (post', c1) \<Rightarrow>
             Inr (c1\<lparr>cp_open := Some (ot\<lparr>ot_post := dict_set path post' (ot_post ot)\<rparr>)\<rparr>)))"

definition append_edit ::
  "codecs \<Rightarrow> owner \<Rightarrow> string \<Rightarrow> file_state \<Rightarrow> file_state \<Rightarrow> checkpointer \<Rightarrow> checkpointer" where
  "append_edit cd o' path before after c =
     (case intern cd path before c of (before', c1) \<Rightarrow>
      case intern cd path after c1 of (after', c2) \<Rightarrow>
        if before' = after' then c2
        else let deps = compute_deps cd (cp_events c2) path before' after'
             in case bump c2 of (n, c3) \<Rightarrow>
               c3\<lparr>cp_events := cp_events c3 @
                   [Edit \<lparr>ed_seq = n, ed_owner = o', ed_path = path, ed_before = before',
                          ed_after = after', ed_deps = deps\<rparr>]\<rparr>)"

fun seal_paths ::
  "codecs \<Rightarrow> int \<Rightarrow> (string \<times> file_state) list \<Rightarrow> (string \<times> file_state) list \<Rightarrow> checkpointer \<Rightarrow> checkpointer" where
  "seal_paths cd t post [] c = c"
| "seal_paths cd t post ((path, before) # pre) c =
     seal_paths cd t post pre
       (append_edit cd (AgentTurn t) path before
          (case map_of post path of Some s \<Rightarrow> s | None \<Rightarrow> before) c)"

definition mark_turn :: "event list \<Rightarrow> nat \<Rightarrow> int" where
  "mark_turn evs n = (case find_mark evs n of None \<Rightarrow> 0 | Some m \<Rightarrow> tm_turn_id m)"

definition seal_turn :: "codecs \<Rightarrow> checkpointer \<Rightarrow> checkpointer" where
  "seal_turn cd c =
     (case cp_open c of
        None \<Rightarrow> c
      | Some ot \<Rightarrow>
          (seal_paths cd (mark_turn (cp_events c) (ot_mark ot)) (ot_post ot)
             (mark_pre (cp_events c) (ot_mark ot)) c)\<lparr>cp_open := None\<rparr>)"

definition clear :: "checkpointer \<Rightarrow> checkpointer" where
  "clear c = c\<lparr>cp_events := [], cp_seq := 0, cp_manual := 0, cp_open := None, cp_pool := []\<rparr>"

text \<open>
  \<open>atomic\<close>: the body maps the state it starts in to the state it ends in, raising or not.
  On an exception the log, the counters and the open turn return to what they were; the pool
  does not.  The source keeps the list of the events, not the events: a body that recorded a
  pre-state into the open mark would leave it there.  The one caller, the rewind, records none.
\<close>

definition atomic ::
  "(checkpointer \<Rightarrow> bool \<times> checkpointer) \<Rightarrow> checkpointer \<Rightarrow> bool \<times> checkpointer" where
  "atomic body c =
     (case body c of
        (True, c') \<Rightarrow> (True, c')
      | (False, c') \<Rightarrow> (False, c'\<lparr>cp_events := cp_events c, cp_seq := cp_seq c,
                                cp_manual := cp_manual c, cp_open := cp_open c\<rparr>))"

definition drop_turns_from :: "int \<Rightarrow> checkpointer \<Rightarrow> checkpointer" where
  "drop_turns_from t c =
     (case event_index_of_turn (cp_events c) t of
        None \<Rightarrow> c
      | Some i \<Rightarrow> c\<lparr>cp_events := take i (cp_events c), cp_open := None, cp_pool := []\<rparr>)"

definition reconcile :: "codecs \<Rightarrow> string \<Rightarrow> file_state \<Rightarrow> checkpointer \<Rightarrow> checkpointer" where
  "reconcile cd path current c =
     (if cp_open c \<noteq> None then c
      else let projection = project cd (cp_events c) path False
           in if current \<noteq> projection
              then (case next_manual_index c of (k, c1) \<Rightarrow>
                      append_edit cd (ManualEdit k) path projection current c1)
              else c)"

fun provisional ::
  "codecs \<Rightarrow> checkpointer \<Rightarrow> open_turn \<Rightarrow> nat \<Rightarrow> (string \<times> file_state) list \<Rightarrow> event list" where
  "provisional cd c ot i [] = []"
| "provisional cd c ot i ((path, cur) # rest) =
     (case map_of (mark_pre (cp_events c) (ot_mark ot)) path of
        None \<Rightarrow> provisional cd c ot (Suc i) rest
      | Some pre \<Rightarrow>
          (if pre = cur then provisional cd c ot (Suc i) rest
           else Edit \<lparr>ed_seq = cp_seq c + 1 + i,
                      ed_owner = AgentTurn (mark_turn (cp_events c) (ot_mark ot)), ed_path = path,
                      ed_before = pre, ed_after = cur,
                      ed_deps = compute_deps cd (cp_events c) path pre cur\<rparr>
                # provisional cd c ot (Suc i) rest))"

definition view :: "codecs \<Rightarrow> (string \<times> file_state) list \<Rightarrow> checkpointer \<Rightarrow> event list" where
  "view cd current c =
     (case cp_open c of
        None \<Rightarrow> cp_events c
      | Some ot \<Rightarrow> (if current = [] then cp_events c
                   else cp_events c @ provisional cd c ot 0 current))"

section \<open>Decisions\<close>

definition as_keep :: "decision \<Rightarrow> checkpoint_error + bool" where
  "as_keep d = (if d = Pending then Inl FileStateError else Inr (d = Keep))"

text \<open>
  The stack of hunks still to keep, with its top first.  The loop ends: it either pops, or
  moves a pending hunk into the kept ones.
\<close>

function keep_loop ::
  "(region_id \<times> decision) list \<Rightarrow> (region_id \<times> region_id list) list \<Rightarrow> region_id list \<Rightarrow> region_id list \<Rightarrow>
     region_id list" where
  "keep_loop eff order [] kept = kept"
| "keep_loop eff order (rid # stack) kept =
     (if rid \<in> set kept \<or> map_of eff rid \<noteq> Some Pending then keep_loop eff order stack kept
      else keep_loop eff order
             (rev (case map_of order rid of None \<Rightarrow> [] | Some ds \<Rightarrow> ds) @ stack) (rid # kept))"
  by pat_completeness auto
termination
proof (relation "(\<lambda>(eff, order, stack, kept). card (fst ` set eff - set kept)) <*mlex*>
    measure (\<lambda>(eff, order, stack, kept). length stack)", goal_cases)
  case 1
  show ?case by (intro wf_mlex wf_measure)
next
  case (2 eff order rid stack kept)
  then show ?case by (intro mlex_leq) auto
next
  case (3 eff order rid stack kept)
  then have "rid \<in> fst ` set eff - set kept"
    by (auto dest!: map_of_SomeD intro: rev_image_eqI)
  then have "card (fst ` set eff - set (rid # kept)) < card (fst ` set eff - set kept)"
    by (intro psubset_card_mono) auto
  then show ?case by (intro mlex_less) simp
qed

fun append_decides :: "string \<Rightarrow> bool \<Rightarrow> region_id list \<Rightarrow> checkpointer \<Rightarrow> checkpointer" where
  "append_decides path keep [] c = c"
| "append_decides path keep (rid # rids) c =
     (case bump c of (n, c1) \<Rightarrow>
        append_decides path keep rids
          (c1\<lparr>cp_events := cp_events c1 @
              [Decide \<lparr>de_seq = n, de_path = path, de_hunk = rid, de_keep = keep\<rparr>]\<rparr>))"

definition decide_hunks ::
  "codecs \<Rightarrow> string \<Rightarrow> region_id list \<Rightarrow> bool \<Rightarrow> checkpointer \<Rightarrow> checkpoint_error + checkpointer" where
  "decide_hunks cd path rids keep c =
     (let order = hunk_order cd (cp_events c) path; eff = effective cd (cp_events c) path
      in if list_ex (\<lambda>r. r \<notin> fst ` set order) rids then Inl FileStateError
         else if keep
         then Inr (append_decides path True (sorted_ids (set (keep_loop eff order (rev rids) []))) c)
         else Inr (append_decides path False (filter (\<lambda>r. map_of eff r \<noteq> Some Revert) rids) c))"

definition ensure_reviewable :: "checkpointer \<Rightarrow> bool" where
  "ensure_reviewable c = (cp_open c = None)"

definition decide_with ::
  "codecs \<Rightarrow> string \<Rightarrow> region_id list \<Rightarrow> decision \<Rightarrow> checkpointer \<Rightarrow> checkpoint_error + checkpointer" where
  "decide_with cd path rids d c =
     (case as_keep d of Inl e \<Rightarrow> Inl e | Inr keep \<Rightarrow> decide_hunks cd path rids keep c)"

definition decide_region ::
  "codecs \<Rightarrow> string \<Rightarrow> region_id \<Rightarrow> decision \<Rightarrow> checkpointer \<Rightarrow> checkpoint_error + checkpointer" where
  "decide_region cd path rid d c =
     (if \<not> ensure_reviewable c then Inl TurnStateError else decide_with cd path [rid] d c)"

definition decide_scope ::
  "codecs \<Rightarrow> string \<Rightarrow> owner \<Rightarrow> decision \<Rightarrow> checkpointer \<Rightarrow> checkpoint_error + checkpointer" where
  "decide_scope cd path o' d c =
     (if \<not> ensure_reviewable c then Inl TurnStateError
      else decide_with cd path
        (map fst (filter (\<lambda>(rid, w). w = o' \<and> eff_get cd (cp_events c) path rid = Some Pending)
                    (owned_hunks cd (cp_events c) path))) d c)"

definition decide_file ::
  "codecs \<Rightarrow> string \<Rightarrow> decision \<Rightarrow> checkpointer \<Rightarrow> checkpoint_error + checkpointer" where
  "decide_file cd path d c =
     (if \<not> ensure_reviewable c then Inl TurnStateError
      else decide_with cd path
        (map fst (filter (\<lambda>(rid, _). eff_get cd (cp_events c) path rid = Some Pending)
                    (hunk_order cd (cp_events c) path))) d c)"

section \<open>Sequences of operations\<close>

datatype log_op =
  BeginTurn int | RecordPre string file_state | RecordPost string file_state | SealTurn | Clear
  | DropTurnsFrom int | Reconcile string file_state
  | DecideRegion string region_id decision | DecideScope string owner decision
  | DecideFile string decision

fun log_step :: "codecs \<Rightarrow> log_op \<Rightarrow> checkpointer \<Rightarrow> checkpoint_error + checkpointer" where
  "log_step cd (BeginTurn t) c = begin_turn t c"
| "log_step cd (RecordPre p s) c = record_pre_edit cd p s c"
| "log_step cd (RecordPost p s) c = record_post_edit cd p s c"
| "log_step cd SealTurn c = Inr (seal_turn cd c)"
| "log_step cd Clear c = Inr (clear c)"
| "log_step cd (DropTurnsFrom t) c = Inr (drop_turns_from t c)"
| "log_step cd (Reconcile p s) c = Inr (reconcile cd p s c)"
| "log_step cd (DecideRegion p r d) c = decide_region cd p r d c"
| "log_step cd (DecideScope p o' d) c = decide_scope cd p o' d c"
| "log_step cd (DecideFile p d) c = decide_file cd p d c"

fun log_run :: "codecs \<Rightarrow> log_op list \<Rightarrow> checkpointer \<Rightarrow> checkpointer" where
  "log_run cd [] c = c"
| "log_run cd (x # xs) c = log_run cd xs (case log_step cd x c of Inl _ \<Rightarrow> c | Inr c' \<Rightarrow> c')"

end
