(* ===== verification/Log_Order.thy ===== *)
theory Log_Order
  imports Checkpointer
begin

text \<open>
  Facts about the checkpoint log that its properties share: what appending events does to the
  order of hunks and to the decisions, monotonicity of the reverted and applied sets, and where
  the dependencies of a new edit come from.
\<close>

section \<open>Order and decisions of a longer log\<close>

lemma edits_for_append [simp]: "edits_for (xs @ ys) path = edits_for xs path @ edits_for ys path"
  by (simp add: edits_for_def)

lemma edits_for_Cons:
  "edits_for (Edit e # evs) path = (if ed_path e = path then e # edits_for evs path else edits_for evs path)"
  "edits_for (Mark m # evs) path = edits_for evs path"
  "edits_for (Decide d # evs) path = edits_for evs path"
  "edits_for [] path = []"
  by (simp_all add: edits_for_def)

lemma marks_append [simp]: "marks (xs @ ys) = marks xs @ marks ys"
  by (simp add: marks_def)

lemma marks_Cons [simp]:
  "marks (Mark m # evs) = m # marks evs" "marks (Edit e # evs) = marks evs"
  "marks (Decide d # evs) = marks evs" "marks [] = []"
  by (simp_all add: marks_def)

lemma hunk_order_append:
  "hunk_order cd (xs @ ys) path = hunk_order cd xs path @ hunk_order cd ys path"
  by (simp add: hunk_order_def)

lemma hunk_order_Cons:
  "hunk_order cd (Edit e # evs) path =
     (if ed_path e = path then edit_order cd e @ hunk_order cd evs path else hunk_order cd evs path)"
  "hunk_order cd (Mark m # evs) path = hunk_order cd evs path"
  "hunk_order cd (Decide d # evs) path = hunk_order cd evs path"
  "hunk_order cd [] path = []"
  by (simp_all add: hunk_order_def edits_for_Cons)

text \<open>The decisions of a log: a revert is final, otherwise there is a keep or nothing.\<close>

definition decides :: "event list \<Rightarrow> string \<Rightarrow> decide list" where
  "decides evs path =
     concat (map (\<lambda>ev. case ev of Decide d \<Rightarrow> if de_path d = path then [d] else [] | _ \<Rightarrow> []) evs)"

lemma decides_append [simp]: "decides (xs @ ys) path = decides xs path @ decides ys path"
  by (simp add: decides_def)

lemma decides_Cons [simp]:
  "decides (Decide d # evs) path = (if de_path d = path then d # decides evs path else decides evs path)"
  "decides (Mark m # evs) path = decides evs path" "decides (Edit e # evs) path = decides evs path"
  "decides [] path = []"
  by (simp_all add: decides_def)

lemma verdict_iff [simp]: "verdict d = Revert \<longleftrightarrow> \<not> de_keep d" "verdict d = Keep \<longleftrightarrow> de_keep d"
  "verdict d \<noteq> Pending"
  by (simp_all add: verdict_def)

lemma explicit_from_Revert:
  "explicit_from evs path ds rid = Some Revert \<longleftrightarrow>
     ds rid = Some Revert \<or> (\<exists>d \<in> set (decides evs path). de_hunk d = rid \<and> \<not> de_keep d)"
proof (induction evs arbitrary: ds)
  case (Cons ev evs)
  then show ?case by (cases ev) auto
qed simp

lemma explicit_from_None:
  "explicit_from evs path ds rid = None \<longleftrightarrow>
     ds rid = None \<and> (\<forall>d \<in> set (decides evs path). de_hunk d \<noteq> rid)"
proof (induction evs arbitrary: ds)
  case (Cons ev evs)
  then show ?case by (cases ev) auto
qed simp

lemma explicit_from_Pending:
  "ds rid \<noteq> Some Pending \<Longrightarrow> explicit_from evs path ds rid \<noteq> Some Pending"
proof (induction evs arbitrary: ds)
  case (Cons ev evs)
  show ?case
  proof (cases ev)
    case (Decide d)
    have "(ds(de_hunk d \<mapsto> verdict d)) rid \<noteq> Some Pending" using Cons.prems by simp
    with Decide Cons show ?thesis by (simp del: fun_upd_apply)
  qed (use Cons in simp_all)
qed simp

lemmas explicit_from_iff = explicit_from_Revert explicit_from_None

lemma explicit_Revert:
  "explicit_decisions evs path rid = Some Revert \<longleftrightarrow>
     (\<exists>d \<in> set (decides evs path). de_hunk d = rid \<and> \<not> de_keep d)"
  by (simp add: explicit_decisions_def explicit_from_iff)

lemma explicit_Keep:
  "explicit_decisions evs path rid = Some Keep \<longleftrightarrow>
     (\<exists>d \<in> set (decides evs path). de_hunk d = rid) \<and>
     (\<forall>d \<in> set (decides evs path). de_hunk d = rid \<longrightarrow> de_keep d)"
proof -
  let ?x = "explicit_decisions evs path rid"
  have "?x \<noteq> Some Pending" by (simp add: explicit_decisions_def explicit_from_Pending)
  then have "?x = Some Keep \<longleftrightarrow> ?x \<noteq> None \<and> ?x \<noteq> Some Revert"
    using decision.exhaust [of "the ?x"] by (cases ?x) auto
  moreover have "?x \<noteq> None \<longleftrightarrow> (\<exists>d \<in> set (decides evs path). de_hunk d = rid)"
    by (auto simp: explicit_decisions_def explicit_from_None)
  ultimately show ?thesis by (auto simp: explicit_Revert)
qed

section \<open>Reverted hunks\<close>

lemma reverted_from_sup: "rs \<subseteq> reverted_from ex order rs"
  by (induction ex order rs rule: reverted_from.induct) (force split: if_splits)+

lemma reverted_from_mono:
  assumes "subseq order order'" "\<And>r. ex r = Some Revert \<Longrightarrow> ex' r = Some Revert"
  shows "rs \<subseteq> rs' \<Longrightarrow> reverted_from ex order rs \<subseteq> reverted_from ex' order' rs'"
  using assms(1)
proof (induction arbitrary: rs rs' rule: list_emb.induct)
  case (list_emb_Nil ys)
  then show ?case using reverted_from_sup [of rs' ex' ys] by auto
next
  case (list_emb_Cons xs ys y)
  obtain rid deps where y: "y = (rid, deps)" by (cases y)
  have "reverted_from ex xs rs \<subseteq> reverted_from ex' ys (if ex' rid = Some Revert \<or> list_ex (\<lambda>d. d \<in> rs') deps
      then insert rid rs' else rs')"
    using list_emb_Cons.prems by (intro list_emb_Cons.IH) auto
  then show ?case by (simp add: y)
next
  case (list_emb_Cons2 x y xs ys)
  obtain rid deps where x: "y = (rid, deps)" by (cases y)
  have "(if ex rid = Some Revert \<or> list_ex (\<lambda>d. d \<in> rs) deps then insert rid rs else rs) \<subseteq>
      (if ex' rid = Some Revert \<or> list_ex (\<lambda>d. d \<in> rs') deps then insert rid rs' else rs')"
    using list_emb_Cons2.prems assms(2) [of rid] by (auto simp: list_ex_iff)
  from list_emb_Cons2.IH [OF this] list_emb_Cons2.hyps show ?case by (simp add: x)
qed

lemma reverted_from_range: "reverted_from ex order rs \<subseteq> rs \<union> fst ` set order"
  by (induction ex order rs rule: reverted_from.induct) (auto split: if_splits)

lemma reverted_range: "reverted cd evs path \<subseteq> fst ` set (hunk_order cd evs path)"
  using reverted_from_range [of "explicit_decisions evs path" "hunk_order cd evs path" "{}"]
  by (simp add: reverted_def)

lemma map_of_by_key:
  "map_of (map (\<lambda>(k, v). (k, f k)) xs) k = (if k \<in> fst ` set xs then Some (f k) else None)"
  by (induction xs) auto

lemma eff_get_eq:
  "eff_get cd evs path rid =
     (if rid \<in> fst ` set (hunk_order cd evs path)
      then Some (if rid \<in> reverted cd evs path then Revert
                 else if explicit_decisions evs path rid = Some Keep then Keep else Pending)
      else None)"
  unfolding eff_get_def effective_def by (rule map_of_by_key)

lemma eff_get_Revert: "eff_get cd evs path rid = Some Revert \<longleftrightarrow> rid \<in> reverted cd evs path"
  using reverted_range [of cd evs path] by (auto simp: eff_get_eq)

text \<open>A log that keeps the edits and decisions of another, and may have more of them.\<close>

definition log_extends :: "event list \<Rightarrow> event list \<Rightarrow> bool" where
  "log_extends evs evs' \<longleftrightarrow>
     (\<forall>path. subseq (edits_for evs path) (edits_for evs' path) \<and>
             set (decides evs path) \<subseteq> set (decides evs' path))"

lemma log_extends_refl [simp]: "log_extends evs evs"
  by (simp add: log_extends_def)

lemma log_extends_trans: "log_extends a b \<Longrightarrow> log_extends b c \<Longrightarrow> log_extends a c"
  unfolding log_extends_def by (blast intro: subseq_order.order_trans)

lemma log_extends_append [simp]: "log_extends evs (evs @ new)"
  by (simp add: log_extends_def prefix_imp_subseq)

lemma subseq_concat_map: "subseq xs ys \<Longrightarrow> subseq (concat (map f xs)) (concat (map f ys))"
proof (induction rule: list_emb.induct)
  case (list_emb_Cons xs ys y)
  then show ?case using subseq_append' [of "concat (map f xs)" "concat (map f ys)" "f y"]
    by (simp add: list_emb_append2)
next
  case (list_emb_Cons2 x y xs ys)
  then show ?case by (simp add: list_emb_append_mono)
qed simp

lemma log_extends_reverted:
  assumes "log_extends evs evs'"
  shows "reverted cd evs path \<subseteq> reverted cd evs' path"
  unfolding reverted_def
proof (rule reverted_from_mono)
  show "subseq (hunk_order cd evs path) (hunk_order cd evs' path)"
    using assms unfolding log_extends_def hunk_order_def by (blast intro: subseq_concat_map)
  show "explicit_decisions evs path r = Some Revert \<Longrightarrow> explicit_decisions evs' path r = Some Revert" for r
    using assms unfolding log_extends_def explicit_Revert by blast
qed simp

section \<open>Applied hunks\<close>

lemma applied_from_sup: "ap \<subseteq> applied_from eff k order ap"
  by (induction eff k order ap rule: applied_from.induct) (force split: if_splits)+

lemma applied_from_range: "applied_from eff k order ap \<subseteq> ap \<union> fst ` set order"
  by (induction eff k order ap rule: applied_from.induct) (force split: if_splits)+

lemma applied_range: "applied cd evs path k \<subseteq> fst ` set (hunk_order cd evs path)"
  using applied_from_range [of "eff_get cd evs path" k "hunk_order cd evs path" "{}"]
  by (simp add: applied_def)

lemma finite_applied [simp]: "finite (applied cd evs path k)"
  by (rule finite_subset [OF applied_range]) simp

lemma applied_from_kept_subset:
  "ap \<subseteq> ap' \<Longrightarrow> applied_from eff True order ap \<subseteq> applied_from eff False order ap'"
proof (induction order arbitrary: ap ap')
  case (Cons x order)
  obtain rid deps where x: "x = (rid, deps)" by (cases x)
  have "(if eff rid = Some Revert then ap else if True \<and> eff rid \<noteq> Some Keep then ap
         else if list_all (\<lambda>d. d \<in> ap) deps then insert rid ap else ap) \<subseteq>
        (if eff rid = Some Revert then ap' else if False \<and> eff rid \<noteq> Some Keep then ap'
         else if list_all (\<lambda>d. d \<in> ap') deps then insert rid ap' else ap')"
    using Cons.prems by (auto simp: list_all_iff)
  from Cons.IH [OF this] show ?case by (simp add: x)
qed simp

lemma applied_from_closed:
  assumes "distinct (map fst order)" "ap \<inter> fst ` set order = {}"
    and "rid \<in> applied_from eff k order ap" "rid \<notin> ap" "(rid, deps) \<in> set order"
  shows "set deps \<subseteq> applied_from eff k order ap \<and> eff rid \<noteq> Some Revert \<and> (k \<longrightarrow> eff rid = Some Keep)"
  using assms
proof (induction order arbitrary: ap)
  case (Cons x order)
  obtain r ds where x: "x = (r, ds)" by (cases x)
  define ap1 where "ap1 = (if eff r = Some Revert then ap else if k \<and> eff r \<noteq> Some Keep then ap
      else if list_all (\<lambda>d. d \<in> ap) ds then insert r ap else ap)"
  have step: "applied_from eff k (x # order) ap = applied_from eff k order ap1"
    by (simp add: x ap1_def)
  have disj: "ap1 \<inter> fst ` set order = {}" using Cons.prems x by (auto simp: ap1_def)
  show ?case
  proof (cases "rid = r")
    case True
    with Cons.prems(1,5) x have d: "deps = ds" by (auto intro: rev_image_eqI)
    have "rid \<notin> fst ` set order" using Cons.prems(1) x True by auto
    with Cons.prems(3) step have "rid \<in> ap1"
      using applied_from_range [of eff k order ap1] by auto
    with Cons.prems(4) True have "eff r \<noteq> Some Revert" "k \<longrightarrow> eff r = Some Keep" "set ds \<subseteq> ap" "ap \<subseteq> ap1"
      by (auto simp: ap1_def list_all_iff split: if_splits)
    with True d step applied_from_sup [of ap1 eff k order] show ?thesis by auto
  next
    case False
    then have "rid \<notin> ap1" using Cons.prems(4) by (auto simp: ap1_def)
    moreover have "(rid, deps) \<in> set order" using Cons.prems(5) False x by auto
    ultimately show ?thesis
      unfolding step using Cons.prems step disj x by (intro Cons.IH) auto
  qed
qed simp

section \<open>Where dependencies come from\<close>

definition hunk_ids :: "codecs \<Rightarrow> event list \<Rightarrow> string \<Rightarrow> region_id set" where
  "hunk_ids cd evs path = fst ` set (hunk_order cd evs path)"

lemma set_slice_assign: "set (slice_assign s e new xs) \<subseteq> set xs \<union> set new"
  by (auto simp: slice_assign_def dest: in_set_takeD in_set_dropD)

lemma splice_prov_fold:
  "set (snd (fold (\<lambda>((s, e, ls), rid) (r, p).
       (slice_assign s e ls r, slice_assign s e (replicate (length ls) (Some rid)) p)) hs (r, p)))
   \<subseteq> set p \<union> Some ` snd ` set hs"
proof (induction hs arbitrary: r p)
  case (Cons h hs)
  obtain s e ls rid where h: "h = ((s, e, ls), rid)" by (cases h) auto
  have "set (slice_assign s e (replicate (length ls) (Some rid)) p) \<subseteq> set p \<union> {Some rid}"
    using set_slice_assign [of s e "replicate (length ls) (Some rid)" p] by auto
  with Cons.IH [of "slice_assign s e ls r" "slice_assign s e (replicate (length ls) (Some rid)) p"]
  show ?case by (auto simp: h)
qed simp

lemma splice_with_prov_set:
  "set (snd (splice_with_prov res prov base hunks)) \<subseteq> set prov \<union> Some ` fst ` set hunks"
  unfolding splice_with_prov_def
  using splice_prov_fold [of "rev (sort (map (rebase_hunk_id (base_to_result base res)) hunks))" res prov]
  by (auto simp: rebase_hunk_id_def image_image)

lemma line_changes_fst: "fst ` set (line_changes cs) \<subseteq> fst ` set cs"
  by (induction cs rule: line_changes.induct) auto

lemma applied_changes_ids: "fst ` set (applied_changes cd e ap) \<subseteq> fst ` set (edit_order cd e)"
  by (force simp: applied_changes_def edit_order_def)

lemma replay_prov_set:
  "set (snd (replay_prov cd ap e rp)) \<subseteq> set (snd rp) \<union> Some ` fst ` set (edit_order cd e)"
proof -
  let ?here = "applied_changes cd e ap"
  have opaque: "(ed_seq e, 0) \<in> fst ` set (edit_order cd e)" if "is_opaque cd e"
    using that by (simp add: edit_order_def changes_of_def)
  have "Some ` fst ` set (line_changes ?here) \<subseteq> Some ` fst ` set (edit_order cd e)"
    using line_changes_fst [of ?here] applied_changes_ids [of cd e ap] by blast
  then have "set (snd (splice_with_prov (fst rp) (snd rp) (lines_of cd (ed_before e)) (line_changes ?here)))
      \<subseteq> set (snd rp) \<union> Some ` fst ` set (edit_order cd e)"
    by (rule subset_trans [OF splice_with_prov_set Un_mono [OF subset_refl]])
  moreover have "set (replicate n (Some (ed_seq e, 0))) \<subseteq> Some ` fst ` set (edit_order cd e)"
    if "is_opaque cd e" for n
    using opaque [OF that] by (simp add: set_replicate_conv_if)
  ultimately show ?thesis
    unfolding replay_prov_def Let_def by (simp split: if_split) blast
qed

lemma replay_prov_fold:
  "set (snd (fold (replay_prov cd ap) es rp)) \<subseteq>
   set (snd rp) \<union> Some ` fst ` set (concat (map (edit_order cd) es))"
proof (induction es arbitrary: rp)
  case (Cons e es)
  from Cons.IH [of "replay_prov cd ap e rp"] replay_prov_set [of cd ap e rp]
  show ?case by auto
qed simp

lemma reconstruct_with_prov_ids:
  "Some r \<in> set (snd (reconstruct_with_prov cd evs path ap)) \<Longrightarrow> r \<in> hunk_ids cd evs path"
  using replay_prov_fold [of cd ap "edits_for evs path"]
  by (force simp: reconstruct_with_prov_def Let_def hunk_ids_def hunk_order_def)

lemma set_sorted_ids: "finite A \<Longrightarrow> set (sorted_ids A) = A"
  by (simp add: sorted_ids_def)

end
