(* ===== verification/Checkpoint_Inv.thy ===== *)
theory Checkpoint_Inv
  imports Log_Order
begin

text \<open>
  The invariant of the checkpoint log and its preservation by every operation of the
  \<open>Checkpointer\<close>: sequence numbers are unique and bounded by the counter, an open turn's mark
  is the last event, a mark has one pre-edit state per path, and every dependency of a hunk
  names an earlier hunk of the same file.
\<close>

section \<open>The invariant\<close>

fun deps_earlier :: "(region_id \<times> region_id list) list \<Rightarrow> region_id set \<Rightarrow> bool" where
  "deps_earlier [] seen = True"
| "deps_earlier ((r, ds) # order) seen = (set ds \<subseteq> seen \<and> deps_earlier order (insert r seen))"

definition log_ok :: "codecs \<Rightarrow> event list \<Rightarrow> nat \<Rightarrow> open_turn option \<Rightarrow> bool" where
  "log_ok cd evs n op \<longleftrightarrow>
     distinct (map event_seq evs) \<and> (\<forall>ev \<in> set evs. event_seq ev \<le> n) \<and>
     (\<forall>ot. op = Some ot \<longrightarrow> evs \<noteq> [] \<and> is_mark (ot_mark ot) (last evs)) \<and>
     (\<forall>m. Mark m \<in> set evs \<longrightarrow> distinct (map fst (tm_pre m))) \<and>
     (\<forall>path. deps_earlier (hunk_order cd evs path) {})"

definition log_wf :: "codecs \<Rightarrow> checkpointer \<Rightarrow> bool" where
  "log_wf cd c = log_ok cd (cp_events c) (cp_seq c) (cp_open c)"

lemma log_okD:
  assumes "log_ok cd evs n op"
  shows "distinct (map event_seq evs)" "ev \<in> set evs \<Longrightarrow> event_seq ev \<le> n"
    "op = Some ot \<Longrightarrow> evs \<noteq> []" "op = Some ot \<Longrightarrow> is_mark (ot_mark ot) (last evs)"
    "Mark m \<in> set evs \<Longrightarrow> distinct (map fst (tm_pre m))"
    "deps_earlier (hunk_order cd evs path) {}"
  using assms unfolding log_ok_def by blast+

lemma deps_earlier_append:
  "deps_earlier (xs @ ys) seen \<longleftrightarrow> deps_earlier xs seen \<and> deps_earlier ys (seen \<union> fst ` set xs)"
proof (induction xs arbitrary: seen)
  case (Cons x xs)
  obtain r ds where "x = (r, ds)" by (cases x)
  with Cons show ?case by (simp add: insert_commute)
qed simp

lemma deps_earlier_all: "\<forall>x \<in> set xs. set (snd x) \<subseteq> seen \<Longrightarrow> deps_earlier xs seen"
proof (induction xs arbitrary: seen)
  case (Cons x xs)
  obtain r ds where "x = (r, ds)" by (cases x)
  with Cons show ?case by (auto intro!: Cons.IH)
qed simp

lemma log_ok_close: "log_ok cd evs n op \<Longrightarrow> log_ok cd evs n None"
  by (simp add: log_ok_def)

section \<open>Adding events\<close>

lemma log_ok_insert_edit:
  assumes ok: "log_ok cd (xs @ ys) n op" and seq: "ed_seq e = Suc n"
    and ys: "\<And>path. hunk_order cd ys path = []" "op = None \<or> ys \<noteq> []"
    and deps: "\<And>ordinal. set (deps_at e ordinal) \<subseteq> hunk_ids cd (xs @ ys) (ed_path e)"
  shows "log_ok cd (xs @ Edit e # ys) (Suc n) op"
proof -
  have "event_seq ev \<noteq> Suc n" if "ev \<in> set (xs @ ys)" for ev using log_okD(2) [OF ok that] by simp
  then have "distinct (map event_seq (xs @ Edit e # ys))"
    using log_okD(1) [OF ok] seq by (auto simp: image_iff) metis+
  moreover have "\<forall>ev \<in> set (xs @ Edit e # ys). event_seq ev \<le> Suc n"
    using log_okD(2) [OF ok] seq by (auto simp: le_SucI)
  moreover have "\<forall>ot. op = Some ot \<longrightarrow> is_mark (ot_mark ot) (last (xs @ Edit e # ys))"
    using log_okD(4) [OF ok] ys(2) by auto
  moreover have "\<forall>m. Mark m \<in> set (xs @ Edit e # ys) \<longrightarrow> distinct (map fst (tm_pre m))"
    using log_okD(5) [OF ok] by auto
  moreover have "deps_earlier (hunk_order cd (xs @ Edit e # ys) path) {}" for path
  proof -
    have "deps_earlier (edit_order cd e) (fst ` set (hunk_order cd xs (ed_path e)))"
    proof (rule deps_earlier_all, rule ballI)
      fix x assume "x \<in> set (edit_order cd e)"
      then obtain ordinal where "snd x = deps_at e ordinal" by (auto simp: edit_order_def)
      with deps [of ordinal] ys(1) show "set (snd x) \<subseteq> fst ` set (hunk_order cd xs (ed_path e))"
        by (simp add: hunk_ids_def hunk_order_append)
    qed
    then show ?thesis
      using log_okD(6) [OF ok, of path] ys(1)
      by (auto simp: hunk_order_append hunk_order_Cons deps_earlier_append)
  qed
  ultimately show ?thesis unfolding log_ok_def by auto
qed

lemma log_ok_append_decide:
  "log_ok cd evs n None \<Longrightarrow> de_seq d = Suc n \<Longrightarrow> log_ok cd (evs @ [Decide d]) (Suc n) None"
  unfolding log_ok_def by (fastforce simp: hunk_order_append hunk_order_Cons le_SucI)

lemma log_ok_append_mark:
  "log_ok cd evs n None \<Longrightarrow> tm_seq m = Suc n \<Longrightarrow> tm_pre m = [] \<Longrightarrow>
   log_ok cd (evs @ [Mark m]) (Suc n) (Some \<lparr>ot_mark = Suc n, ot_post = post\<rparr>)"
  unfolding log_ok_def by (fastforce simp: hunk_order_append hunk_order_Cons le_SucI is_mark_def)

lemma set_pre_simps [simp]:
  "event_seq (set_pre n p s ev) = event_seq ev" "is_mark k (set_pre n p s ev) = is_mark k ev"
  by (cases ev; simp add: set_pre_def is_mark_def)+

lemma set_pre_Mark:
  "set_pre k p s ev = Mark m \<Longrightarrow>
   \<exists>m0. ev = Mark m0 \<and> (m = m0 \<or> m = m0\<lparr>tm_pre := dict_set p s (tm_pre m0)\<rparr>)"
  by (cases ev) (auto simp: set_pre_def split: if_splits)

lemma edits_for_set_pre [simp]: "edits_for (map (set_pre n p s) evs) path = edits_for evs path"
proof (induction evs)
  case (Cons ev evs)
  then show ?case by (cases ev) (simp_all add: set_pre_def edits_for_Cons)
qed simp

lemma decides_set_pre [simp]: "decides (map (set_pre n p s) evs) path = decides evs path"
proof (induction evs)
  case (Cons ev evs)
  then show ?case by (cases ev) (simp_all add: set_pre_def)
qed simp

lemma log_ok_set_pre: "log_ok cd evs n op \<Longrightarrow> log_ok cd (map (set_pre k p s) evs) n op"
proof -
  assume ok: "log_ok cd evs n op"
  have "map event_seq (map (set_pre k p s) evs) = map event_seq evs" by simp
  moreover have "distinct (map fst (tm_pre m))" if m: "Mark m \<in> set (map (set_pre k p s) evs)" for m
  proof -
    from m obtain ev where ev: "ev \<in> set evs" "Mark m = set_pre k p s ev" by auto
    then obtain m0 where "ev = Mark m0" "m = m0 \<or> m = m0\<lparr>tm_pre := dict_set p s (tm_pre m0)\<rparr>"
      using set_pre_Mark [of k p s ev m] by auto
    with log_okD(5) [OF ok, of m0] ev(1) show ?thesis by (auto simp: distinct_dict_set)
  qed
  moreover have "hunk_order cd (map (set_pre k p s) evs) = hunk_order cd evs"
    by (simp add: fun_eq_iff hunk_order_def)
  moreover have "event_seq \<circ> set_pre k p s = event_seq" by (simp add: fun_eq_iff)
  ultimately show ?thesis
    using ok unfolding log_ok_def by (auto simp: last_map)
qed

section \<open>The dependencies of a new edit\<close>

lemma deps_at_enumerate:
  assumes "\<forall>ds \<in> set dss. set ds \<subseteq> A" "ed_deps e = List.enumerate 0 dss"
  shows "set (deps_at e ordinal) \<subseteq> A"
proof (cases "map_of (ed_deps e) ordinal")
  case (Some ds)
  then have "ds \<in> set dss" using assms(2) by (auto dest!: map_of_SomeD simp: in_set_enumerate_eq)
  with Some assms(1) show ?thesis by (simp add: deps_at_def)
qed (simp add: deps_at_def)

lemma finite_hunk_ids [simp]: "finite (hunk_ids cd evs path)"
  by (simp add: hunk_ids_def)

lemma applied_hunk_ids: "applied cd evs path k \<subseteq> hunk_ids cd evs path"
  using applied_range by (simp add: hunk_ids_def)

lemma finite_prov_ids [simp]: "finite (prov_ids prov ks)"
  unfolding prov_ids_def by (rule finite_set)

lemma prov_ids_sub: "r \<in> prov_ids prov ks \<Longrightarrow> Some r \<in> set prov"
  by (auto simp: prov_ids_def split: if_splits option.splits dest: nth_mem)

lemma barriers_sub: "applied_barriers cd evs path ap \<subseteq> ap" "finite (applied_barriers cd evs path ap)"
  by (auto simp: applied_barriers_def)

lemma region_deps_sub:
  assumes "\<And>r. Some r \<in> set prov \<Longrightarrow> r \<in> A" "barriers \<subseteq> A" "finite barriers"
  shows "set (region_deps prov barriers h) \<subseteq> A"
  using assms prov_ids_sub [of _ prov]
  by (auto simp: region_deps_def Let_def set_sorted_ids split: if_splits)

lemma compute_deps_sub:
  assumes "ed_deps e = compute_deps cd evs path before after"
  shows "set (deps_at e ordinal) \<subseteq> hunk_ids cd evs path"
proof (cases "opaque_pair cd before after")
  case True
  then have "ed_deps e = List.enumerate 0 [sorted_ids (applied cd evs path False)]"
    by (simp add: assms compute_deps_def)
  then show ?thesis
    using applied_hunk_ids [of cd evs path False]
    by (intro deps_at_enumerate [where dss = "[sorted_ids (applied cd evs path False)]"])
      (auto simp: set_sorted_ids)
next
  case False
  define prov where "prov = (if has_edits evs path
      then snd (reconstruct_with_prov cd evs path (applied cd evs path False))
      else replicate (length (lines_of cd before)) None)"
  have p: "Some r \<in> set prov \<Longrightarrow> r \<in> hunk_ids cd evs path" for r
    using reconstruct_with_prov_ids [of r cd evs path] by (auto simp: prov_def split: if_splits)
  have "ed_deps e = List.enumerate 0 (map (region_deps prov (applied_barriers cd evs path (applied cd evs path False)))
      (diff_regions (lines_of cd before) (lines_of cd after)))"
    using False by (simp add: assms compute_deps_def Let_def prov_def)
  moreover have "set (region_deps prov (applied_barriers cd evs path (applied cd evs path False)) h)
      \<subseteq> hunk_ids cd evs path" for h
    using p barriers_sub applied_hunk_ids by (intro region_deps_sub) blast+
  ultimately show ?thesis by (intro deps_at_enumerate) auto
qed

section \<open>What each operation does to the log\<close>

lemma pool_intern_id [simp]: "fst (pool_intern cd path s pool) = s"
  by (auto simp: pool_intern_def Let_def split: option.split)

lemma intern_cases:
  obtains pool where "intern cd path s c = (s, c\<lparr>cp_pool := pool\<rparr>)"
proof -
  have "intern cd path s c = (s, c\<lparr>cp_pool := snd (pool_intern cd path s (cp_pool c))\<rparr>)"
    using pool_intern_id [of cd path s "cp_pool c"]
    by (simp add: intern_def split_beta)
  then show ?thesis by (rule that)
qed

lemma append_edit_cases:
  obtains (same) pool where "before = after" "append_edit cd w path before after c = c\<lparr>cp_pool := pool\<rparr>"
  | (new) pool e where "before \<noteq> after"
      "append_edit cd w path before after c =
         c\<lparr>cp_pool := pool, cp_seq := Suc (cp_seq c), cp_events := cp_events c @ [Edit e]\<rparr>"
      "e = \<lparr>ed_seq = Suc (cp_seq c), ed_owner = w, ed_path = path, ed_before = before, ed_after = after,
            ed_deps = compute_deps cd (cp_events c) path before after\<rparr>"
proof -
  obtain p1 where p1: "intern cd path before c = (before, c\<lparr>cp_pool := p1\<rparr>)" by (rule intern_cases)
  obtain p2 where p2: "intern cd path after (c\<lparr>cp_pool := p1\<rparr>) = (after, c\<lparr>cp_pool := p2\<rparr>)"
    by (rule intern_cases [of cd path after "c\<lparr>cp_pool := p1\<rparr>"]) simp
  show ?thesis
  proof (cases "before = after")
    case True
    with p1 p2 show ?thesis by (intro same [where pool = p2]) (auto simp: append_edit_def)
  next
    case False
    with p1 p2 show ?thesis by (intro new [where pool = p2]) (auto simp: append_edit_def bump_def Let_def)
  qed
qed

lemma append_edit_wf:
  assumes "log_ok cd (cp_events c) (cp_seq c) None"
  shows "log_ok cd (cp_events (append_edit cd w path b a c)) (cp_seq (append_edit cd w path b a c)) None"
proof (cases rule: append_edit_cases [of b a cd w path c])
  case (new pool e)
  have "log_ok cd (cp_events c @ Edit e # []) (Suc (cp_seq c)) None"
    using assms new(3) compute_deps_sub [of e cd "cp_events c" path b a]
    by (intro log_ok_insert_edit) (auto simp: hunk_order_def edits_for_def)
  with new show ?thesis by simp
qed (use assms in simp)

lemma append_edit_extends: "log_extends (cp_events c) (cp_events (append_edit cd w path b a c))"
  by (cases rule: append_edit_cases [of b a cd w path c]) simp_all

lemma append_edit_open [simp]: "cp_open (append_edit cd w path b a c) = cp_open c"
  by (cases rule: append_edit_cases [of b a cd w path c]) simp_all

lemma seal_paths_wf:
  "log_ok cd (cp_events c) (cp_seq c) None \<Longrightarrow>
   log_ok cd (cp_events (seal_paths cd t post pre c)) (cp_seq (seal_paths cd t post pre c)) None \<and>
   log_extends (cp_events c) (cp_events (seal_paths cd t post pre c))"
proof (induction cd t post pre c rule: seal_paths.induct)
  case (2 cd t post path before pre c)
  let ?c1 = "append_edit cd (AgentTurn t) path before (case map_of post path of Some s \<Rightarrow> s | None \<Rightarrow> before) c"
  have "log_extends (cp_events c) (cp_events ?c1)" by (rule append_edit_extends)
  moreover note 2(1) [OF append_edit_wf [OF 2(2)]]
  ultimately show ?case unfolding seal_paths.simps by (blast intro: log_extends_trans)
qed simp

lemma seal_turn_wf:
  assumes "log_wf cd c"
  shows "log_wf cd (seal_turn cd c)" "log_extends (cp_events c) (cp_events (seal_turn cd c))"
  using seal_paths_wf [OF log_ok_close] assms
  by (auto simp: seal_turn_def log_wf_def split: option.split)

lemma append_decides_wf:
  "log_ok cd (cp_events c) (cp_seq c) None \<Longrightarrow> cp_open c = None \<Longrightarrow>
   log_wf cd (append_decides path keep rids c) \<and>
   log_extends (cp_events c) (cp_events (append_decides path keep rids c))"
proof (induction path keep rids c rule: append_decides.induct)
  case (2 path keep rid rids c)
  let ?d = "\<lparr>de_seq = Suc (cp_seq c), de_path = path, de_hunk = rid, de_keep = keep\<rparr>"
  have "log_ok cd (cp_events c @ [Decide ?d]) (Suc (cp_seq c)) None"
    using 2(2) by (intro log_ok_append_decide) simp_all
  with 2 show ?case by (auto simp: bump_def intro: log_extends_trans [OF log_extends_append])
qed (simp add: log_wf_def)

lemma decide_with_wf:
  assumes "log_wf cd c" "cp_open c = None" "decide_with cd path rids d c = Inr c'"
  shows "log_wf cd c' \<and> log_extends (cp_events c) (cp_events c')"
  using assms append_decides_wf [of cd c path]
  by (auto simp: decide_with_def decide_hunks_def Let_def log_wf_def split: sum.splits if_splits)

lemma reconcile_wf:
  assumes "log_wf cd c"
  shows "log_wf cd (reconcile cd path s c) \<and> log_extends (cp_events c) (cp_events (reconcile cd path s c))"
  using assms append_edit_wf [of cd "c\<lparr>cp_manual := Suc (cp_manual c)\<rparr>"]
    append_edit_extends [of "c\<lparr>cp_manual := Suc (cp_manual c)\<rparr>"]
  by (cases "cp_open c") (auto simp: reconcile_def log_wf_def Let_def next_manual_index_def)

lemma begin_turn_wf:
  "log_wf cd c \<Longrightarrow> begin_turn t c = Inr c' \<Longrightarrow> log_wf cd c' \<and> log_extends (cp_events c) (cp_events c')"
  using log_ok_append_mark [of cd "cp_events c" "cp_seq c"]
  by (auto simp: begin_turn_def bump_def log_wf_def split: if_splits)

lemma log_ok_take: "log_ok cd evs n op \<Longrightarrow> log_ok cd (take i evs) n None"
proof -
  assume ok: "log_ok cd evs n op"
  have "deps_earlier (hunk_order cd (take i evs) path) {}" for path
    using log_okD(6) [OF ok, of path] hunk_order_append [of cd "take i evs" "drop i evs" path]
    by (simp add: deps_earlier_append)
  with ok show ?thesis
    unfolding log_ok_def by (auto simp: take_map [symmetric] dest: in_set_takeD)
qed

lemma drop_turns_wf: "log_wf cd c \<Longrightarrow> log_wf cd (drop_turns_from t c)"
  using log_ok_take by (auto simp: drop_turns_from_def log_wf_def split: option.split)

lemma clear_wf: "log_wf cd (clear c)"
  by (simp add: clear_def log_wf_def log_ok_def hunk_order_Cons)

section \<open>Recording pre-edit states\<close>

lemma first_index_last:
  assumes "p x" "\<And>y. y \<in> set xs \<Longrightarrow> \<not> p y"
  shows "first_index p (xs @ [x]) = Some (length xs)"
  using assms by (induction xs) auto

lemma open_mark_last:
  assumes "log_wf cd c" "cp_open c = Some ot"
  obtains xs m where "cp_events c = xs @ [Mark m]" "tm_seq m = ot_mark ot"
    "first_index (is_mark (ot_mark ot)) (cp_events c) = Some (length xs)"
proof -
  note ok = assms(1) [unfolded log_wf_def]
  from log_okD(3,4) [OF ok assms(2)] obtain xs ev where e: "cp_events c = xs @ [ev]"
    and ev: "is_mark (ot_mark ot) ev" by (cases "cp_events c" rule: rev_cases) auto
  then obtain m where m: "ev = Mark m" "tm_seq m = ot_mark ot"
    by (cases ev) (auto simp: is_mark_def)
  have "\<not> is_mark (ot_mark ot) y" if "y \<in> set xs" for y
    using log_okD(1) [OF ok] that e m by (cases y) (force simp: is_mark_def)+
  with ev have "first_index (is_mark (ot_mark ot)) (xs @ [ev]) = Some (length xs)"
    by (rule first_index_last)
  with e m show ?thesis by (intro that) auto
qed

lemma log_extends_insert: "log_extends (xs @ ys) (xs @ Edit e # ys)"
  by (auto simp: log_extends_def edits_for_Cons intro!: list_emb_append_mono)

lemma insert_local_wf:
  assumes wf: "log_wf cd c" and op: "cp_open c = Some ot"
  shows "log_wf cd (insert_local_before_mark cd (ot_mark ot) path before after c)"
    "log_extends (cp_events c) (cp_events (insert_local_before_mark cd (ot_mark ot) path before after c))"
    "cp_open (insert_local_before_mark cd (ot_mark ot) path before after c) = Some ot"
proof -
  obtain pool where p: "intern cd path before c = (before, c\<lparr>cp_pool := pool\<rparr>)" by (rule intern_cases)
  obtain xs m where x: "cp_events c = xs @ [Mark m]" "tm_seq m = ot_mark ot"
    "first_index (is_mark (ot_mark ot)) (cp_events c) = Some (length xs)"
    by (rule open_mark_last [OF wf op])
  define e where "e = \<lparr>ed_seq = Suc (cp_seq c), ed_owner = ManualEdit (Suc (cp_manual c)), ed_path = path,
      ed_before = before, ed_after = after, ed_deps = compute_deps cd (cp_events c) path before after\<rparr>"
  have c': "insert_local_before_mark cd (ot_mark ot) path before after c =
      c\<lparr>cp_pool := pool, cp_seq := Suc (cp_seq c), cp_manual := Suc (cp_manual c),
         cp_events := xs @ Edit e # [Mark m]\<rparr>"
    using x p by (simp add: insert_local_before_mark_def bump_def next_manual_index_def Let_def e_def)
  have "log_ok cd (xs @ Edit e # [Mark m]) (Suc (cp_seq c)) (cp_open c)"
    using wf x(1) compute_deps_sub [of e cd "cp_events c" path before after]
    by (intro log_ok_insert_edit) (auto simp: log_wf_def e_def hunk_order_Cons)
  then show "log_wf cd (insert_local_before_mark cd (ot_mark ot) path before after c)"
    by (simp add: c' log_wf_def)
  show "log_extends (cp_events c) (cp_events (insert_local_before_mark cd (ot_mark ot) path before after c))"
    using log_extends_insert [of xs "[Mark m]" e] by (simp add: c' x(1))
  show "cp_open (insert_local_before_mark cd (ot_mark ot) path before after c) = Some ot"
    by (simp add: c' op)
qed

lemma record_pre_cases:
  assumes "record_pre_edit cd path pre c = Inr c'"
  obtains (known) "c' = c"
  | (recorded) ot pool cc where "cp_open c = Some ot"
      "cc = c\<lparr>cp_pool := pool\<rparr> \<or>
       cc = insert_local_before_mark cd (ot_mark ot) path (project cd (cp_events c) path False) pre (c\<lparr>cp_pool := pool\<rparr>)"
      "c' = cc\<lparr>cp_events := map (set_pre (ot_mark ot) path pre) (cp_events cc)\<rparr>"
proof (cases "cp_open c")
  case (Some ot)
  obtain pool where p: "intern cd path pre c = (pre, c\<lparr>cp_pool := pool\<rparr>)" by (rule intern_cases)
  show ?thesis
  proof (cases "path \<in> set (map fst (mark_pre (cp_events c) (ot_mark ot)))")
    case True
    with assms Some show ?thesis by (intro known) (simp add: record_pre_edit_def)
  next
    case False
    show ?thesis
      by (rule recorded [where ot = ot and pool = pool and cc = "if path \<in> set (tracked_paths (cp_events c)) \<and>
            pre \<noteq> project cd (cp_events c) path False
          then insert_local_before_mark cd (ot_mark ot) path (project cd (cp_events c) path False) pre (c\<lparr>cp_pool := pool\<rparr>)
          else c\<lparr>cp_pool := pool\<rparr>", OF Some])
        (use assms Some False p in \<open>auto simp: record_pre_edit_def Let_def\<close>)
  qed
qed (use assms in \<open>simp add: record_pre_edit_def\<close>)

lemma log_extends_set_pre: "log_extends evs (map (set_pre k p s) evs)"
  by (simp add: log_extends_def)

lemma record_pre_wf:
  assumes wf: "log_wf cd c" and r: "record_pre_edit cd path pre c = Inr c'"
  shows "log_wf cd c' \<and> log_extends (cp_events c) (cp_events c')"
  using r
proof (cases rule: record_pre_cases)
  case known
  with wf show ?thesis by simp
next
  case (recorded ot pool cc)
  have "log_wf cd (c\<lparr>cp_pool := pool\<rparr>)" using wf by (simp add: log_wf_def)
  from recorded(2) insert_local_wf [OF this, of ot path "project cd (cp_events c) path False" pre] recorded(1)
  have cc: "log_wf cd cc" "log_extends (cp_events c) (cp_events cc)"
    using \<open>log_wf cd (c\<lparr>cp_pool := pool\<rparr>)\<close> by auto
  then show ?thesis
    using log_ok_set_pre [of cd "cp_events cc" "cp_seq cc" "cp_open cc"] log_extends_trans [OF cc(2) log_extends_set_pre]
    by (simp add: recorded(3) log_wf_def)
qed

lemma record_post_wf:
  assumes "log_wf cd c" "record_post_edit cd path post c = Inr c'"
  shows "log_wf cd c' \<and> log_extends (cp_events c) (cp_events c')"
proof (cases "cp_open c")
  case (Some ot)
  obtain pool where p: "intern cd path post c = (post, c\<lparr>cp_pool := pool\<rparr>)" by (rule intern_cases)
  with assms Some show ?thesis by (auto simp: record_post_edit_def log_wf_def log_ok_def)
qed (use assms in \<open>simp add: record_post_edit_def\<close>)

section \<open>Every operation\<close>

fun keeps_log :: "log_op \<Rightarrow> bool" where
  "keeps_log Clear = False"
| "keeps_log (DropTurnsFrom _) = False"
| "keeps_log _ = True"

lemma log_step_wf:
  assumes "log_wf cd c" "log_step cd x c = Inr c'"
  shows "log_wf cd c' \<and> (keeps_log x \<longrightarrow> log_extends (cp_events c) (cp_events c'))"
proof (cases x)
  case (BeginTurn t)
  with assms begin_turn_wf show ?thesis by auto
next
  case (RecordPre p s)
  with assms record_pre_wf show ?thesis by auto
next
  case (RecordPost p s)
  with assms record_post_wf show ?thesis by auto
next
  case SealTurn
  with assms seal_turn_wf [OF assms(1)] show ?thesis by auto
next
  case Clear
  with assms clear_wf show ?thesis by auto
next
  case (DropTurnsFrom t)
  with assms drop_turns_wf show ?thesis by auto
next
  case (Reconcile p s)
  with assms reconcile_wf show ?thesis by auto
next
  case (DecideRegion p r d)
  with assms show ?thesis
    by (auto simp: decide_region_def ensure_reviewable_def split: if_splits dest: decide_with_wf [OF assms(1)])
next
  case (DecideScope p w d)
  with assms show ?thesis
    by (auto simp: decide_scope_def ensure_reviewable_def split: if_splits dest: decide_with_wf [OF assms(1)])
next
  case (DecideFile p d)
  with assms show ?thesis
    by (auto simp: decide_file_def ensure_reviewable_def split: if_splits dest: decide_with_wf [OF assms(1)])
qed

lemma log_run_wf: "log_wf cd c \<Longrightarrow> log_wf cd (log_run cd ops c)"
proof (induction ops arbitrary: c)
  case (Cons x ops)
  then show ?case using log_step_wf [of cd c x] by (auto split: sum.split)
qed simp

lemma log_run_extends:
  "log_wf cd c \<Longrightarrow> \<forall>x \<in> set ops. keeps_log x \<Longrightarrow> log_extends (cp_events c) (cp_events (log_run cd ops c))"
proof (induction ops arbitrary: c)
  case (Cons x ops)
  show ?case
  proof (cases "log_step cd x c")
    case (Inr c')
    with log_step_wf [OF Cons.prems(1) Inr] Cons show ?thesis
      by (auto intro: log_extends_trans)
  qed (use Cons in simp)
qed simp

lemma new_checkpointer_wf: "log_wf cd new_checkpointer"
  by (simp add: new_checkpointer_def log_wf_def log_ok_def hunk_order_Cons)

text \<open>Unique sequence numbers make the hunk ids unique.\<close>

lemma edits_for_subseq: "subseq (map Edit (edits_for evs path)) evs"
proof (induction evs)
  case (Cons ev evs)
  then show ?case by (cases ev) (auto simp: edits_for_Cons)
qed (simp add: edits_for_Cons)

lemma changes_of_fst: "map fst (changes_of cd e) = [0..<length (changes_of cd e)]"
  by (simp add: changes_of_def)

lemma edit_order_fst: "map fst (edit_order cd e) = map (Pair (ed_seq e)) [0..<length (changes_of cd e)]"
  by (simp add: edit_order_def changes_of_fst [symmetric] split_beta comp_def)

lemma distinct_edit_orders:
  "distinct (map ed_seq es) \<Longrightarrow> distinct (map fst (concat (map (edit_order cd) es)))"
proof (induction es)
  case (Cons e es)
  have "distinct (map fst (edit_order cd e))" by (simp add: edit_order_fst distinct_map inj_on_def)
  moreover have "distinct (map fst (concat (map (edit_order cd) es)))" using Cons by simp
  moreover have "fst ` set (edit_order cd e) \<inter> fst ` set (concat (map (edit_order cd) es)) = {}"
  proof -
    have "fst r \<in> ed_seq ` set es" if "r \<in> fst ` set (concat (map (edit_order cd) es))" for r
      using that by (auto simp: edit_order_def)
    moreover have "fst r = ed_seq e" if "r \<in> fst ` set (edit_order cd e)" for r
      using that by (auto simp: edit_order_def)
    moreover have "ed_seq e \<notin> ed_seq ` set es" using Cons.prems by simp
    ultimately show ?thesis by (metis disjoint_iff)
  qed
  ultimately show ?case by (simp del: set_concat)
qed simp

lemma subseq_distinct: "subseq xs ys \<Longrightarrow> distinct ys \<Longrightarrow> distinct xs"
  by (induction rule: list_emb.induct) (auto dest: list_emb_set)

lemma distinct_hunk_order:
  assumes "distinct (map event_seq evs)"
  shows "distinct (map fst (hunk_order cd evs path))"
proof -
  have "distinct (map event_seq (map Edit (edits_for evs path)))"
    using assms subseq_map [OF edits_for_subseq [of evs path], of event_seq]
    by (blast intro: subseq_distinct)
  then have "distinct (map ed_seq (edits_for evs path))" by (simp add: comp_def)
  then show ?thesis unfolding hunk_order_def by (rule distinct_edit_orders)
qed

end
