(* ===== verification/Checkpoint_Props.thy ===== *)
theory Checkpoint_Props
  imports Checkpoint_Inv
begin

text \<open>
  What the checkpoint log promises: the invariant of every run, how decisions propagate along
  dependencies, that projections are closed, that a diff splices back, that file conventions
  survive, what a restore plan restores, and where reconciliation is not idempotent.
\<close>

declare split_paired_All [simp del] split_paired_Ex [simp del]

section \<open>Reverting follows the dependencies\<close>

definition depends_on :: "(region_id \<times> region_id list) list \<Rightarrow> (region_id \<times> region_id) set" where
  "depends_on order = {(r, d). \<exists>ds. (r, ds) \<in> set order \<and> d \<in> set ds}"

lemma reverted_from_append:
  "reverted_from ex (xs @ ys) rs = reverted_from ex ys (reverted_from ex xs rs)"
proof (induction xs arbitrary: rs)
  case (Cons x xs)
  then show ?case by (cases x) simp
qed simp

lemma reverted_from_sound:
  assumes "depends_on order \<subseteq> D" "\<forall>r \<in> rs. \<exists>e. (r, e) \<in> D\<^sup>* \<and> ex e = Some Revert"
  shows "\<forall>r \<in> reverted_from ex order rs. \<exists>e. (r, e) \<in> D\<^sup>* \<and> ex e = Some Revert"
  using assms
proof (induction order arbitrary: rs)
  case (Cons x order)
  obtain rid deps where x: "x = (rid, deps)" by (cases x)
  have edge: "(rid, d) \<in> D" if "d \<in> set deps" for d
    using Cons.prems(1) that x by (auto simp: depends_on_def)
  have sub: "depends_on order \<subseteq> D" using Cons.prems(1) by (auto simp: depends_on_def)
  have "\<exists>e. (rid, e) \<in> D\<^sup>* \<and> ex e = Some Revert"
    if "ex rid = Some Revert \<or> list_ex (\<lambda>d. d \<in> rs) deps"
  proof (cases "ex rid = Some Revert")
    case False
    with that obtain d where d: "d \<in> set deps" "d \<in> rs" by (auto simp: list_ex_iff)
    with Cons.prems(2) obtain e where "(d, e) \<in> D\<^sup>*" "ex e = Some Revert" by blast
    with edge [OF d(1)] show ?thesis by (blast intro: converse_rtrancl_into_rtrancl)
  qed blast
  then have "\<forall>r \<in> (if ex rid = Some Revert \<or> list_ex (\<lambda>d. d \<in> rs) deps then insert rid rs else rs).
      \<exists>e. (r, e) \<in> D\<^sup>* \<and> ex e = Some Revert"
    using Cons.prems(2) by (auto split: if_split)
  from Cons.IH [OF sub this] show ?case unfolding x reverted_from.simps .
qed simp

lemma reverted_from_closed:
  assumes "distinct (map fst order)" "deps_earlier order {}" "(r, ds) \<in> set order"
    and "ex r = Some Revert \<or> (\<exists>d \<in> set ds. d \<in> reverted_from ex order {})"
  shows "r \<in> reverted_from ex order {}"
proof -
  from split_list [OF assms(3)] obtain xs ys where o': "order = xs @ (r, ds) # ys" by blast
  have early: "set ds \<subseteq> fst ` set xs" using assms(2) by (simp add: o' deps_earlier_append)
  let ?a = "reverted_from ex xs {}"
  let ?b = "if ex r = Some Revert \<or> list_ex (\<lambda>d. d \<in> ?a) ds then insert r ?a else ?a"
  have F: "reverted_from ex order {} = reverted_from ex ys ?b" by (simp add: o' reverted_from_append)
  have "d \<in> ?a" if "d \<in> set ds" "d \<in> reverted_from ex order {}" for d
  proof -
    have "d \<in> fst ` set xs" using that early by blast
    then have "d \<noteq> r" "d \<notin> fst ` set ys" using assms(1) by (auto simp: o')
    with that(2) show ?thesis
      unfolding F using reverted_from_range [of ex ys ?b] by (auto split: if_splits)
  qed
  with assms(4) have "r \<in> ?b" by (auto simp: list_ex_iff)
  then show ?thesis unfolding F using reverted_from_sup [of ?b ex ys] by blast
qed

lemma deps_earlier_ids:
  assumes "deps_earlier order seen" "(r, ds) \<in> set order"
  shows "set ds \<subseteq> seen \<union> fst ` set order"
proof -
  from split_list [OF assms(2)] obtain xs ys where "order = xs @ (r, ds) # ys" by blast
  with assms(1) show ?thesis by (auto simp: deps_earlier_append)
qed

lemma reverted_from_iff:
  assumes "distinct (map fst order)" "deps_earlier order {}"
  shows "r \<in> reverted_from ex order {} \<longleftrightarrow>
    r \<in> fst ` set order \<and> (\<exists>e. (r, e) \<in> (depends_on order)\<^sup>* \<and> ex e = Some Revert)"
proof
  assume "r \<in> reverted_from ex order {}"
  then show "r \<in> fst ` set order \<and> (\<exists>e. (r, e) \<in> (depends_on order)\<^sup>* \<and> ex e = Some Revert)"
    using reverted_from_sound [of order "depends_on order" "{}" ex] reverted_from_range [of ex order "{}"]
    by auto
next
  assume "r \<in> fst ` set order \<and> (\<exists>e. (r, e) \<in> (depends_on order)\<^sup>* \<and> ex e = Some Revert)"
  then obtain e where r: "r \<in> fst ` set order" and e: "(r, e) \<in> (depends_on order)\<^sup>*" "ex e = Some Revert"
    by blast
  from e(1) r show "r \<in> reverted_from ex order {}"
  proof (induction rule: converse_rtrancl_induct)
    case base
    then obtain ds where "(e, ds) \<in> set order" by auto
    with e(2) show ?case by (intro reverted_from_closed [OF assms]) auto
  next
    case (step y z)
    then obtain ds where ds: "(y, ds) \<in> set order" "z \<in> set ds" by (auto simp: depends_on_def)
    with step deps_earlier_ids [OF assms(2) ds(1)] show ?case
      by (intro reverted_from_closed [OF assms ds(1)]) auto
  qed
qed

section \<open>Keeping pulls in the pending dependencies\<close>

lemma keep_loop_sup: "set kept \<subseteq> set (keep_loop eff order stack kept)"
  by (induction eff order stack kept rule: keep_loop.induct) auto

lemma keep_loop_range:
  "set (keep_loop eff order stack kept) \<subseteq> set kept \<union> {r. map_of eff r = Some Pending}"
  by (induction eff order stack kept rule: keep_loop.induct) (auto split: if_splits)

lemma keep_loop_stack:
  "r \<in> set stack \<Longrightarrow> map_of eff r = Some Pending \<Longrightarrow> r \<in> set (keep_loop eff order stack kept)"
proof (induction eff order stack kept rule: keep_loop.induct)
  case (2 eff order rid stack kept)
  show ?case
  proof (cases "rid \<in> set kept \<or> map_of eff rid \<noteq> Some Pending")
    case True
    with 2 keep_loop_sup [of kept eff order stack] show ?thesis by auto
  next
    case False
    with 2 keep_loop_sup [of "rid # kept" eff order] show ?thesis by auto
  qed
qed simp

definition deps_in :: "(region_id \<times> region_id list) list \<Rightarrow> region_id \<Rightarrow> region_id list" where
  "deps_in order r = (case map_of order r of None \<Rightarrow> [] | Some ds \<Rightarrow> ds)"

lemma keep_loop_closed:
  assumes "\<And>k d. k \<in> set kept \<Longrightarrow> d \<in> set (deps_in order k) \<Longrightarrow> map_of eff d = Some Pending \<Longrightarrow>
      d \<in> set kept \<union> set stack"
    and "k \<in> set (keep_loop eff order stack kept)" "d \<in> set (deps_in order k)" "map_of eff d = Some Pending"
  shows "d \<in> set (keep_loop eff order stack kept)"
  using assms
proof (induction eff order stack kept rule: keep_loop.induct)
  case (2 eff order rid stack kept)
  show ?case
  proof (cases "rid \<in> set kept \<or> map_of eff rid \<noteq> Some Pending")
    case True
    have "d' \<in> set kept \<union> set stack"
      if "k' \<in> set kept" "d' \<in> set (deps_in order k')" "map_of eff d' = Some Pending" for k' d'
      using 2(3) [OF that] True that(3) by auto
    with 2(1) [OF True] 2(4-6) True show ?thesis by simp
  next
    case False
    let ?stack = "rev (deps_in order rid) @ stack"
    have "d' \<in> set (rid # kept) \<union> set ?stack"
      if "k' \<in> set (rid # kept)" "d' \<in> set (deps_in order k')" "map_of eff d' = Some Pending" for k' d'
      using 2(3) [of k' d'] that by auto
    with 2(2) [OF False, folded deps_in_def] 2(4-6) False show ?thesis by (simp add: deps_in_def)
  qed
qed auto

section \<open>Appending decisions\<close>

lemma append_decides_order:
  "hunk_order cd (cp_events (append_decides path keep rids c)) p = hunk_order cd (cp_events c) p"
  by (induction path keep rids c rule: append_decides.induct)
    (simp_all add: bump_def hunk_order_append hunk_order_Cons)

lemma append_decides_new:
  "\<exists>ds. decides (cp_events (append_decides path keep rids c)) path = decides (cp_events c) path @ ds \<and>
     map de_hunk ds = rids \<and> (\<forall>d \<in> set ds. de_keep d = keep)"
proof (induction path keep rids c rule: append_decides.induct)
  case (2 path keep rid rids c)
  let ?d = "\<lparr>de_seq = Suc (cp_seq c), de_path = path, de_hunk = rid, de_keep = keep\<rparr>"
  obtain ds where ds: "decides (cp_events (append_decides path keep (rid # rids) c)) path =
      (decides (cp_events c) path @ [?d]) @ ds" "map de_hunk ds = rids" "\<forall>d \<in> set ds. de_keep d = keep"
    using 2 [of "Suc (cp_seq c)" "c\<lparr>cp_seq := Suc (cp_seq c)\<rparr>"] by (auto simp: bump_def)
  then show ?case by (intro exI [of _ "?d # ds"]) simp
qed simp

lemma append_decides_explicit:
  "explicit_decisions (cp_events (append_decides path keep rids c)) path r = Some Revert \<longleftrightarrow>
     explicit_decisions (cp_events c) path r = Some Revert \<or> (\<not> keep \<and> r \<in> set rids)"
  "keep \<Longrightarrow> explicit_decisions (cp_events (append_decides path keep rids c)) path r = Some Keep \<longleftrightarrow>
     explicit_decisions (cp_events c) path r = Some Keep \<or>
     (r \<in> set rids \<and> explicit_decisions (cp_events c) path r \<noteq> Some Revert)"
proof -
  obtain ds where ds: "decides (cp_events (append_decides path keep rids c)) path = decides (cp_events c) path @ ds"
    "map de_hunk ds = rids" "\<forall>d \<in> set ds. de_keep d = keep"
    using append_decides_new by blast
  have r: "r \<in> set rids \<longleftrightarrow> (\<exists>d \<in> set ds. de_hunk d = r)" using ds(2) by (auto simp: image_iff)
  show "explicit_decisions (cp_events (append_decides path keep rids c)) path r = Some Revert \<longleftrightarrow>
     explicit_decisions (cp_events c) path r = Some Revert \<or> (\<not> keep \<and> r \<in> set rids)"
    unfolding explicit_Revert ds(1) r using ds(3) by auto
  show "keep \<Longrightarrow> explicit_decisions (cp_events (append_decides path keep rids c)) path r = Some Keep \<longleftrightarrow>
     explicit_decisions (cp_events c) path r = Some Keep \<or>
     (r \<in> set rids \<and> explicit_decisions (cp_events c) path r \<noteq> Some Revert)"
    unfolding explicit_Keep explicit_Revert ds(1) r using ds(3) by auto
qed

section \<open>Restore plans\<close>

fun first_pre :: "event list \<Rightarrow> string \<Rightarrow> file_state option" where
  "first_pre [] path = None"
| "first_pre (Mark m # evs) path =
     (case map_of (tm_pre m) path of Some s \<Rightarrow> Some s | None \<Rightarrow> first_pre evs path)"
| "first_pre (_ # evs) path = first_pre evs path"

lemma plan_fold:
  "map_of (fold (\<lambda>(p, s) pl. if map_of pl p = None then pl @ [(p, s)] else pl) pre plan) path =
     (case map_of plan path of Some s \<Rightarrow> Some s | None \<Rightarrow> map_of pre path)"
proof (induction pre arbitrary: plan)
  case (Cons x pre)
  obtain p s where x: "x = (p, s)" by (cases x)
  have "map_of (plan @ [(p, s)]) path = (case map_of plan path of Some u \<Rightarrow> Some u
      | None \<Rightarrow> if path = p then Some s else None)"
    by (auto simp: map_add_def split: option.split)
  then show ?case by (auto simp: x Cons.IH split: option.splits)
qed (auto split: option.split)

lemma plan_from_marks_iff:
  "map_of (plan_from_marks evs plan) path =
     (case map_of plan path of Some s \<Rightarrow> Some s | None \<Rightarrow> first_pre evs path)"
proof (induction evs plan rule: plan_from_marks.induct)
  case (2 m evs plan)
  then show ?case by (simp add: plan_fold split: option.splits)
qed (auto split: option.splits)

lemma plan_from_edits_iff:
  "map_of (plan_from_edits cd kept evs plan) path =
     (case map_of plan path of Some s \<Rightarrow> Some s
      | None \<Rightarrow> if edits_for evs path \<noteq> [] then Some (project cd kept path False) else None)"
proof (induction cd kept evs plan rule: plan_from_edits.induct)
  case (2 cd kept e evs plan)
  have "map_of (plan @ [(ed_path e, u)]) path = (case map_of plan path of Some w \<Rightarrow> Some w
      | None \<Rightarrow> if path = ed_path e then Some u else None)" for u
    by (auto simp: map_add_def split: option.split)
  with 2 show ?case by (auto simp: edits_for_Cons split: option.splits)
qed (auto simp: edits_for_Cons split: option.split)

definition is_turn :: "int \<Rightarrow> event \<Rightarrow> bool" where
  "is_turn t ev = (case ev of Mark m \<Rightarrow> tm_turn_id m = t | _ \<Rightarrow> False)"

lemma is_turn_simps [simp]:
  "is_turn t (Mark m) = (tm_turn_id m = t)" "\<not> is_turn t (Edit e)" "\<not> is_turn t (Decide d)"
  by (simp_all add: is_turn_def)

lemma turn_index_scan_none:
  "last_index_where (is_turn t) evs = None \<Longrightarrow> turn_index_scan evs t j (Some i) l = Some i"
proof (induction evs arbitrary: j l)
  case (Cons ev evs)
  then show ?case by (cases ev) (auto split: option.splits if_splits)
qed simp

lemma turn_index_scan_exact:
  "last_index_where (is_turn t) evs = Some k \<Longrightarrow> turn_index_scan evs t i exact later = Some (i + k)"
proof (induction evs arbitrary: i exact later k)
  case (Cons ev evs)
  show ?case
  proof (cases "last_index_where (is_turn t) evs")
    case (Some k')
    with Cons.prems have "k = Suc k'" by simp
    with Cons.IH [OF Some] show ?thesis by (cases ev) auto
  next
    case None
    with Cons.prems have k: "k = 0" "is_turn t ev" by (auto split: if_splits)
    with turn_index_scan_none [OF None] show ?thesis by (cases ev) auto
  qed
qed simp

lemma has_turn_last:
  assumes "has_turn evs t"
  obtains i where "last_index_where (is_turn t) evs = Some i" "event_index_of_turn evs t = Some i"
proof -
  have "\<exists>ev \<in> set evs. is_turn t ev"
    using assms by (force simp: has_turn_def marks_def is_turn_def list_ex_iff split: event.splits)
  then obtain i where "last_index_where (is_turn t) evs = Some i"
    using last_index_None [of "is_turn t" evs] by auto
  with that turn_index_scan_exact [of t evs i 0 None None] show ?thesis by (simp add: event_index_of_turn_def)
qed

lemma reconcile_drift:
  assumes "cp_open c = None" "current \<noteq> project cd (cp_events c) path False"
  shows "\<exists>e. cp_events (reconcile cd path current c) = cp_events c @ [Edit e] \<and>
    cp_open (reconcile cd path current c) = None \<and> ed_path e = path \<and>
    ed_before e = project cd (cp_events c) path False \<and> ed_after e = current"
proof -
  let ?p = "project cd (cp_events c) path False"
  let ?c = "c\<lparr>cp_manual := Suc (cp_manual c)\<rparr>"
  have r: "reconcile cd path current c = append_edit cd (ManualEdit (Suc (cp_manual c))) path ?p current ?c"
    using assms by (simp add: reconcile_def next_manual_index_def)
  show ?thesis unfolding r
    by (cases rule: append_edit_cases [of ?p current cd "ManualEdit (Suc (cp_manual c))" path ?c])
      (use assms in auto)
qed

section \<open>Properties\<close>

text \<open>
  C33. Whatever calls are made, in whatever order and refused or not, the log stays well
  formed: sequence numbers never repeat, an open turn's mark is the last event, every hunk id
  is unique in its file, and a hunk depends only on hunks that come before it.
\<close>

theorem checkpoint_log_invariant:
  "log_wf cd (log_run cd ops new_checkpointer) \<and>
   distinct (map event_seq (cp_events (log_run cd ops new_checkpointer))) \<and>
   distinct (map fst (hunk_order cd (cp_events (log_run cd ops new_checkpointer)) path)) \<and>
   deps_earlier (hunk_order cd (cp_events (log_run cd ops new_checkpointer)) path) {}"
proof -
  have wf: "log_wf cd (log_run cd ops new_checkpointer)"
    by (rule log_run_wf [OF new_checkpointer_wf])
  note ok = wf [unfolded log_wf_def]
  show ?thesis
    by (intro conjI wf log_okD(1,6) [OF ok] distinct_hunk_order)
qed

text \<open>
  C34. A hunk is reverted exactly when it reaches, through the hunks it was built on, a hunk
  the user reverted explicitly at some time.
\<close>

theorem reverted_iff_depends:
  assumes "log_wf cd c"
  shows "eff_get cd (cp_events c) path rid = Some Revert \<longleftrightarrow>
    rid \<in> hunk_ids cd (cp_events c) path \<and>
    (\<exists>e. (rid, e) \<in> (depends_on (hunk_order cd (cp_events c) path))\<^sup>* \<and>
         (\<exists>d \<in> set (decides (cp_events c) path). de_hunk d = e \<and> \<not> de_keep d))"
proof -
  note ok = assms [unfolded log_wf_def]
  from reverted_from_iff [OF distinct_hunk_order [OF log_okD(1) [OF ok]] log_okD(6) [OF ok]]
  show ?thesis unfolding eff_get_Revert reverted_def hunk_ids_def explicit_Revert [symmetric] .
qed

definition latin1 :: codecs where
  "latin1 = \<lparr>codec_decode = (\<lambda>e raw. Some (map of_char raw)), utf8_replace = map of_char,
     codec_encode = (\<lambda>e t. if list_all (\<lambda>c. c < 256) t then Some (map char_of t) else None),
     utf8_encode = map char_of, preferred_encoding = ''utf-8'', best_match = (\<lambda>_. None),
     linesep = LF, blake2b = (\<lambda>d. d)\<rparr>"

definition file_of :: "string \<Rightarrow> file_state" where
  "file_of d = \<lparr>fs_data = Some d\<rparr>"

definition nl :: string where "nl = [char_of (10 :: nat)]"

definition reviewed_log :: "checkpointer" where
  "reviewed_log = log_run latin1
     [BeginTurn 1, RecordPre ''f'' (file_of (''a'' @ nl)), RecordPost ''f'' (file_of (''b'' @ nl)), SealTurn,
      BeginTurn 2, RecordPre ''f'' (file_of (''b'' @ nl)), RecordPost ''f'' (file_of (''c'' @ nl)), SealTurn]
     new_checkpointer"

lemma reviewed_log_wf: "log_wf latin1 reviewed_log"
  unfolding reviewed_log_def by (rule log_run_wf [OF new_checkpointer_wf])

theorem reverted_iff_depends_witness:
  "eff_get latin1 (cp_events (log_run latin1 [DecideRegion ''f'' (2, 0) Revert] reviewed_log)) ''f'' (4, 0) =
   Some Revert"
proof -
  have "log_wf latin1 (log_run latin1 [DecideRegion ''f'' (2, 0) Revert] reviewed_log)"
    by (rule log_run_wf [OF reviewed_log_wf])
  note iff = reverted_iff_depends [OF this, of "''f''" "(4, 0)"]
  have o': "hunk_order latin1 (cp_events (log_run latin1 [DecideRegion ''f'' (2, 0) Revert] reviewed_log)) ''f'' =
      [((2, 0), []), ((4, 0), [(2, 0)])]"
    unfolding reviewed_log_def by code_simp
  have "map (\<lambda>d. (de_hunk d, de_keep d))
      (decides (cp_events (log_run latin1 [DecideRegion ''f'' (2, 0) Revert] reviewed_log)) ''f'') = [((2, 0), False)]"
    unfolding reviewed_log_def by code_simp
  then have "\<exists>d \<in> set (decides (cp_events (log_run latin1 [DecideRegion ''f'' (2, 0) Revert] reviewed_log)) ''f'').
      de_hunk d = (2, 0) \<and> \<not> de_keep d" by auto
  moreover have "((4, 0), (2, 0)) \<in> (depends_on [((2, 0), []), ((4, 0), [(2, 0)])])\<^sup>*"
    by (rule r_into_rtrancl) (simp add: depends_on_def)
  ultimately show ?thesis unfolding iff o' hunk_ids_def by auto
qed

text \<open>
  There is no way back from a revert except truncating or clearing the log: through any
  other calls a reverted hunk stays reverted.
\<close>

theorem reverts_are_final:
  assumes "log_wf cd c" "eff_get cd (cp_events c) path rid = Some Revert"
    and "\<forall>x \<in> set ops. keeps_log x"
  shows "eff_get cd (cp_events (log_run cd ops c)) path rid = Some Revert"
  using assms(2) log_extends_reverted [OF log_run_extends [OF assms(1,3)]]
  unfolding eff_get_Revert by blast

theorem reverts_are_final_witness:
  "eff_get latin1 (cp_events (log_run latin1
     [DecideRegion ''f'' (2, 0) Keep, BeginTurn 3, RecordPre ''f'' (file_of (''z'' @ nl)), SealTurn]
     (log_run latin1 [DecideRegion ''f'' (2, 0) Revert] reviewed_log))) ''f'' (2, 0) = Some Revert"
proof (rule reverts_are_final)
  show "log_wf latin1 (log_run latin1 [DecideRegion ''f'' (2, 0) Revert] reviewed_log)"
    by (rule log_run_wf [OF reviewed_log_wf])
  show "eff_get latin1 (cp_events (log_run latin1 [DecideRegion ''f'' (2, 0) Revert] reviewed_log)) ''f'' (2, 0) =
      Some Revert"
    unfolding reviewed_log_def by code_simp
qed simp

text \<open>
  Every projection applies a dependency-closed set of hunks with no reverted one among
  them; the accepted baseline applies only kept hunks, all of which the current content
  applies too.
\<close>

theorem projections_closed:
  assumes "log_wf cd c" "rid \<in> applied cd (cp_events c) path only_kept"
  shows "set (deps_in (hunk_order cd (cp_events c) path) rid) \<subseteq> applied cd (cp_events c) path only_kept \<and>
    eff_get cd (cp_events c) path rid \<noteq> Some Revert \<and>
    (only_kept \<longrightarrow> eff_get cd (cp_events c) path rid = Some Keep) \<and>
    rid \<in> applied cd (cp_events c) path False"
proof -
  let ?o = "hunk_order cd (cp_events c) path"
  have d: "distinct (map fst ?o)"
    using assms(1) by (intro distinct_hunk_order) (simp add: log_wf_def log_ok_def)
  from assms(2) applied_range obtain ds where ds: "(rid, ds) \<in> set ?o" by fastforce
  have "set ds \<subseteq> applied cd (cp_events c) path only_kept \<and> eff_get cd (cp_events c) path rid \<noteq> Some Revert \<and>
      (only_kept \<longrightarrow> eff_get cd (cp_events c) path rid = Some Keep)"
    using applied_from_closed [OF d, of "{}" rid "eff_get cd (cp_events c) path" only_kept ds] assms(2) ds
    by (simp add: applied_def)
  moreover have "deps_in ?o rid = ds" using d ds by (simp add: deps_in_def)
  moreover have "applied cd (cp_events c) path True \<subseteq> applied cd (cp_events c) path False"
    unfolding applied_def by (rule applied_from_kept_subset) simp
  ultimately show ?thesis using assms(2) by (cases only_kept) auto
qed

theorem projections_closed_witness:
  "(2, 0) \<in> applied latin1 (cp_events reviewed_log) ''f'' False"
proof -
  have o': "hunk_order latin1 (cp_events reviewed_log) ''f'' = [((2, 0), []), ((4, 0), [(2, 0)])]"
    unfolding reviewed_log_def by code_simp
  have "(4, 0) \<in> applied latin1 (cp_events reviewed_log) ''f'' False"
    unfolding reviewed_log_def by code_simp
  from projections_closed [OF reviewed_log_wf this] show ?thesis by (simp add: o' deps_in_def)
qed

text \<open>
  Keeping a pending hunk keeps exactly that hunk and a set of pending hunks closed under
  the pending dependencies; every other hunk keeps its decision.
\<close>

theorem keep_pulls_in_dependencies:
  assumes "log_wf cd c" "eff_get cd (cp_events c) path rid = Some Pending"
    and "decide_region cd path rid Keep c = Inr c'"
  shows "\<exists>K. rid \<in> K \<and>
    (\<forall>k \<in> K. eff_get cd (cp_events c) path k = Some Pending \<and>
       (\<forall>d \<in> set (deps_in (hunk_order cd (cp_events c) path) k).
          eff_get cd (cp_events c) path d = Some Pending \<longrightarrow> d \<in> K)) \<and>
    (\<forall>r. eff_get cd (cp_events c') path r =
       (if r \<in> K then Some Keep else eff_get cd (cp_events c) path r))"
proof -
  let ?o = "hunk_order cd (cp_events c) path" and ?eff = "effective cd (cp_events c) path"
  define ks where "ks = keep_loop ?eff ?o (rev [rid]) []"
  have eff: "map_of ?eff r = eff_get cd (cp_events c) path r" for r by (simp add: eff_get_def)
  have c': "c' = append_decides path True (sorted_ids (set ks)) c"
    using assms(3) by (auto simp: decide_region_def decide_with_def as_keep_def decide_hunks_def Let_def
        ks_def split: if_splits)
  have rid: "rid \<in> set ks" unfolding ks_def using assms(2) by (intro keep_loop_stack) (simp_all add: eff)
  have pend: "eff_get cd (cp_events c) path k = Some Pending" if "k \<in> set ks" for k
    using that keep_loop_range [of ?eff ?o "rev [rid]" "[]"] by (auto simp: ks_def eff)
  have closed: "d \<in> set ks"
    if "k \<in> set ks" "d \<in> set (deps_in ?o k)" "eff_get cd (cp_events c) path d = Some Pending" for k d
    using keep_loop_closed [of "[]" ?o ?eff "rev [rid]" k d] that by (simp add: ks_def eff)
  have s: "set (sorted_ids (set ks)) = set ks" by (simp add: set_sorted_ids)
  have rev_eq: "reverted cd (cp_events c') path = reverted cd (cp_events c) path"
  proof -
    have "reverted_from ex os R = reverted_from ex' os R"
      if "\<And>r. ex r = Some Revert \<longleftrightarrow> ex' r = Some Revert" for ex ex' R os
      using reverted_from_mono [of os os ex ex' R R] reverted_from_mono [of os os ex' ex R R] that by auto
    note eq = this
    show ?thesis
      unfolding reverted_def c' append_decides_order
      by (rule eq) (simp add: append_decides_explicit(1))
  qed
  have "eff_get cd (cp_events c') path r =
      (if r \<in> set ks then Some Keep else eff_get cd (cp_events c) path r)" for r
  proof -
    have k: "explicit_decisions (cp_events c') path r = Some Keep \<longleftrightarrow>
        explicit_decisions (cp_events c) path r = Some Keep \<or>
        (r \<in> set ks \<and> explicit_decisions (cp_events c) path r \<noteq> Some Revert)"
      unfolding c' append_decides_explicit(2) [OF TrueI] s ..
    show ?thesis
    proof (cases "r \<in> set ks")
      case True
      from pend [OF True] have p: "r \<in> fst ` set ?o" "r \<notin> reverted cd (cp_events c) path"
        by (auto simp: eff_get_eq split: if_splits)
      have "explicit_decisions (cp_events c) path r \<noteq> Some Revert"
      proof
        assume e: "explicit_decisions (cp_events c) path r = Some Revert"
        from p(1) obtain ds where "(r, ds) \<in> set ?o" by force
        with e have "r \<in> reverted cd (cp_events c) path"
          unfolding reverted_def
          using assms(1) by (intro reverted_from_closed [where ds = ds] distinct_hunk_order)
            (auto simp: log_wf_def log_ok_def)
        with p(2) show False by blast
      qed
      with True k p rev_eq show ?thesis by (simp add: eff_get_eq c' append_decides_order)
    next
      case False
      with k rev_eq show ?thesis by (simp add: eff_get_eq c' append_decides_order)
    qed
  qed
  with rid pend closed show ?thesis by (intro exI [of _ "set ks"]) blast
qed

theorem keep_pulls_in_dependencies_witness:
  "\<exists>c'. decide_region latin1 ''f'' (4, 0) Keep reviewed_log = Inr c' \<and>
     eff_get latin1 (cp_events c') ''f'' (2, 0) = Some Keep"
proof -
  have o': "hunk_order latin1 (cp_events reviewed_log) ''f'' = [((2, 0), []), ((4, 0), [(2, 0)])]"
    unfolding reviewed_log_def by code_simp
  have p: "eff_get latin1 (cp_events reviewed_log) ''f'' (4, 0) = Some Pending"
    "eff_get latin1 (cp_events reviewed_log) ''f'' (2, 0) = Some Pending" "cp_open reviewed_log = None"
    unfolding reviewed_log_def by code_simp+
  obtain c' where c': "decide_region latin1 ''f'' (4, 0) Keep reviewed_log = Inr c'"
    using p(3) by (simp add: decide_region_def ensure_reviewable_def decide_with_def as_keep_def
        decide_hunks_def o' Let_def)
  from keep_pulls_in_dependencies [OF reviewed_log_wf p(1) c'] obtain K where
    "(2, 0) \<in> K" "\<forall>r. eff_get latin1 (cp_events c') ''f'' r =
       (if r \<in> K then Some Keep else eff_get latin1 (cp_events reviewed_log) ''f'' r)"
    using p(2) by (auto simp: o' deps_in_def)
  with c' show ?thesis by auto
qed

text \<open>
  The regions of a diff, spliced onto the lines they were computed from, give exactly
  the other side, whatever the two files are.
\<close>

theorem splice_all_regions:
  "splice base base (diff_regions base cur) = cur"
  by (rule splice_diff_regions)

text \<open>
  A file with one newline style whose codec round-trips its text is read with that codec
  and that style, and re-encoding the text it decodes to gives back its very bytes.
\<close>

theorem reencode_preserves_bytes:
  assumes "style \<in> {LF, CR, CRLF}" "13 \<notin> set t" "10 \<in> set t"
    and "decode_bytes cd False None raw = Some (expand_newlines style t, enc)"
    and "codec_encode cd enc (expand_newlines style t) = Some raw"
  shows "decode_safe cd raw = \<lparr>rr_text = t, rr_encoding = enc, rr_newline = style\<rparr> \<and>
    reencode cd (rr_text (decode_safe cd raw)) \<lparr>fs_data = Some raw\<rparr> = \<lparr>fs_data = Some raw\<rparr>"
proof -
  have d: "decode_safe cd raw = \<lparr>rr_text = t, rr_encoding = enc, rr_newline = style\<rparr>"
    using assms(4) normalize_expand [OF assms(2,1,3)] by (simp add: decode_safe_def decode_safe_opt_def)
  with assms(5) show ?thesis
    by (cases "style = LF") (simp_all add: reencode_def Let_def encode_safe_def)
qed

theorem reencode_preserves_bytes_witness:
  "decode_safe latin1 (''a'' @ [char_of (13 :: nat), char_of (10 :: nat)]) =
   \<lparr>rr_text = [97, 10], rr_encoding = ''utf-8'', rr_newline = CRLF\<rparr>"
proof -
  let ?raw = "''a'' @ [char_of (13 :: nat), char_of (10 :: nat)]"
  have "decode_bytes latin1 False None ?raw = Some (expand_newlines CRLF [97, 10], ''utf-8'')"
    "codec_encode latin1 ''utf-8'' (expand_newlines CRLF [97, 10]) = Some ?raw"
    by code_simp+
  from reencode_preserves_bytes [OF _ _ _ this] show ?thesis by simp
qed

text \<open>
  Rewinding to a recorded turn plans, for every file, the state it had when the newest
  mark of that turn or a later one first recorded it; a file that only later edits touched
  goes back to its projection of the log before the mark; no other file is planned.
\<close>

theorem restore_plan_spec:
  assumes "has_turn evs t"
  shows "\<exists>i m. event_index_of_turn evs t = Some i \<and> i < length evs \<and> evs ! i = Mark m \<and> tm_turn_id m = t \<and>
    (\<forall>j > i. j < length evs \<longrightarrow> \<not> is_turn t (evs ! j)) \<and>
    (\<forall>path. map_of (restore_plan_to_turn cd evs t) path =
       (case first_pre (drop i evs) path of Some s \<Rightarrow> Some s
        | None \<Rightarrow> if edits_for (drop i evs) path \<noteq> [] then Some (project cd (take i evs) path False)
                 else None))"
proof -
  obtain i where i: "last_index_where (is_turn t) evs = Some i" "event_index_of_turn evs t = Some i"
    by (rule has_turn_last [OF assms])
  from last_index_SomeD [OF i(1)] have l: "i < length evs" "is_turn t (evs ! i)"
    "\<forall>j > i. j < length evs \<longrightarrow> \<not> is_turn t (evs ! j)" by auto
  from l(2) obtain m where m: "evs ! i = Mark m" "tm_turn_id m = t" by (cases "evs ! i") auto
  have "map_of (restore_plan_to_turn cd evs t) path =
       (case first_pre (drop i evs) path of Some s \<Rightarrow> Some s
        | None \<Rightarrow> if edits_for (drop i evs) path \<noteq> [] then Some (project cd (take i evs) path False)
                 else None)" for path
    using assms i(2) by (simp add: restore_plan_to_turn_def restore_plan_def plan_from_edits_iff
        plan_from_marks_iff)
  with i(2) l m show ?thesis by blast
qed

theorem restore_plan_spec_witness:
  "\<exists>i m. event_index_of_turn (cp_events reviewed_log) 1 = Some i \<and> cp_events reviewed_log ! i = Mark m \<and>
     tm_turn_id m = 1"
proof -
  have "has_turn (cp_events reviewed_log) 1" unfolding reviewed_log_def by code_simp
  from restore_plan_spec [OF this, of latin1] show ?thesis by blast
qed

text \<open>
  Reconciliation is not idempotent: when the disk differs from the projection of an
  unedited file only in bytes that decode to the same lines (such as its newline style), the
  manual edit it appends has no hunk, the projection does not move, and the next call appends
  another one.
\<close>

theorem reconcile_not_idempotent:
  assumes "cp_open c = None" "edits_for (cp_events c) path = []"
    and "current \<noteq> original (cp_events c) path"
    and "\<not> opaque_pair cd (original (cp_events c) path) current"
    and "lines_of cd (original (cp_events c) path) = lines_of cd current"
  shows "project cd (cp_events (reconcile cd path current c)) path False = project cd (cp_events c) path False \<and>
    length (cp_events (reconcile cd path current (reconcile cd path current c))) = length (cp_events c) + 2"
proof -
  let ?p = "original (cp_events c) path"
  have p: "project cd (cp_events c) path False = ?p" using assms(2) by (simp add: project_def reconstruct_def)
  let ?c1 = "reconcile cd path current c"
  obtain e where c1: "cp_events ?c1 = cp_events c @ [Edit e]" "cp_open ?c1 = None"
    and e: "ed_path e = path" "ed_before e = ?p" "ed_after e = current"
    using reconcile_drift [of c current cd path] assms(1,3) unfolding p by metis
  have "changes_of cd e = []"
    using assms(4,5) by (simp add: changes_of_def is_opaque_def e diff_regions_def get_opcodes_refl)
  then have p1: "project cd (cp_events ?c1) path False = ?p"
    using assms(2) by (simp add: c1 project_def reconstruct_def edits_for_Cons e replay_edit_def applied_changes_def)
  obtain e2 where "cp_events (reconcile cd path current ?c1) = cp_events ?c1 @ [Edit e2]"
    using reconcile_drift [of ?c1 current cd path] c1(2) assms(3) unfolding p1 by metis
  with p p1 show ?thesis by (simp add: c1)
qed

theorem reconcile_not_idempotent_witness:
  "length (cp_events (reconcile latin1 ''f'' (file_of (''a'' @ [char_of (13 :: nat), char_of (10 :: nat)]))
     (reconcile latin1 ''f'' (file_of (''a'' @ [char_of (13 :: nat), char_of (10 :: nat)]))
       (log_run latin1 [BeginTurn 1, RecordPre ''f'' (file_of (''a'' @ nl)), SealTurn] new_checkpointer)))) = 3"
proof -
  let ?c = "log_run latin1 [BeginTurn 1, RecordPre ''f'' (file_of (''a'' @ nl)), SealTurn] new_checkpointer"
  let ?f = "file_of (''a'' @ [char_of (13 :: nat), char_of (10 :: nat)])"
  have h: "cp_open ?c = None" "edits_for (cp_events ?c) ''f'' = []"
    "?f \<noteq> original (cp_events ?c) ''f''" "\<not> opaque_pair latin1 (original (cp_events ?c) ''f'') ?f"
    "lines_of latin1 (original (cp_events ?c) ''f'') = lines_of latin1 ?f" "length (cp_events ?c) = 1"
    by code_simp+
  from reconcile_not_idempotent [OF h(1-5)] h(6) show ?thesis by simp
qed

end
