(* ===== verification/Background_Jobs.thy ===== *)
theory Background_Jobs
  imports Text_IO
begin

text \<open>
  The synchronous state boundary of the managed background jobs
  (\<open>core/background_jobs.py\<close>, class \<open>BackgroundJobRegistry\<close>): admission, commit, capture,
  settlement, retention, paging and authorization.  Every operation is one critical section
  of the registry's lock; a capture is split at the places where the lock is released, so
  other operations may run between its sections.

  Process control and asyncio supervision are not modelled.  What the decoder and the redactor
  produce for a batch of output is an argument of the batch, and the sanitizing of metadata is
  the parameter \<open>scrubber\<close>.
\<close>

section \<open>Bounds\<close>

definition max_allocations :: nat where "max_allocations = 8"
definition max_jobs :: nat where "max_jobs = 32"
definition max_records :: nat where "max_records = 64"
definition max_record_bytes :: nat where "max_record_bytes = 4096"
definition min_read_bytes :: nat where "min_read_bytes = 4096"
definition max_read_bytes :: nat where "max_read_bytes = 64000"
definition max_output_bytes :: nat where "max_output_bytes = 256 * 1024"

text \<open>The length of a code point and of a text in UTF-8.\<close>

definition utf8_width :: "int \<Rightarrow> nat" where
  "utf8_width c = (if c < 128 then 1 else if c < 2048 then 2 else if c < 65536 then 3 else 4)"

definition utf8_length :: "utext \<Rightarrow> nat" where
  "utf8_length t = sum_list (map utf8_width t)"

section \<open>State\<close>

datatype job_state = Starting | Running | Stopping | Exited | Failed | Stopped

record output_record =
  or_sequence :: nat
  or_text :: utext

record job =
  jb_creator :: nat
  jb_command :: utext
  jb_label :: "utext option"
  jb_state :: job_state
  jb_committed :: bool
  jb_allocated :: bool
  jb_leader_observed :: bool
  jb_exit_code :: "int option"
  jb_output_complete :: bool
  jb_output_incomplete :: bool
  jb_error :: "utext option"
  jb_producing :: bool
  jb_records :: "output_record list"
  jb_retained_bytes :: nat
  jb_end_cursor :: nat
  jb_process :: bool
  jb_stop_requested :: bool

text \<open>The published events carry the revision and the number of committed active jobs.\<close>

record registry =
  rg_identity :: string
  rg_jobs :: "(string \<times> job) list"
  rg_revision :: nat
  rg_closed :: bool
  rg_next_id :: nat
  rg_published :: "(nat \<times> nat) list"

text \<open>A port: the identity of the registry it was made by, its creator, and whether it is root.\<close>

record port =
  pt_registry :: string
  pt_creator :: nat
  pt_root :: bool

datatype job_error = Unavailable | ForeignOrClosed | CapacityReached | RetentionReached
  | BadTransition | CursorBeyondEnd | StillOwned | NoSuchJob

record scrubber =
  scrub :: "utext \<Rightarrow> utext"
  scrub_shell :: "utext \<Rightarrow> utext option"
  placeholder :: utext

text \<open>\<open>_metadata\<close>: the whole text is sanitized before it is cut.\<close>

definition metadata :: "scrubber \<Rightarrow> utext \<Rightarrow> nat \<Rightarrow> bool \<Rightarrow> utext" where
  "metadata sc t limit shell =
     (let safe = (if shell then (case scrub_shell sc t of Some s \<Rightarrow> s | None \<Rightarrow> placeholder sc) else t)
      in take limit (scrub sc safe))"

definition first_cursor :: "job \<Rightarrow> nat" where
  "first_cursor j = (case jb_records j of r # _ \<Rightarrow> or_sequence r | [] \<Rightarrow> jb_end_cursor j)"

fun chunk_scan :: "utext \<Rightarrow> nat \<Rightarrow> utext \<Rightarrow> utext list" where
  "chunk_scan cur sz [] = (if cur \<noteq> [] then [rev cur] else [])"
| "chunk_scan cur sz (c # t) =
     (if sz + utf8_width c > max_record_bytes then rev cur # chunk_scan [c] (utf8_width c) t
      else chunk_scan (c # cur) (sz + utf8_width c) t)"

definition chunks :: "utext \<Rightarrow> utext list" where
  "chunks t = chunk_scan [] 0 t"

definition hex_digit :: "nat \<Rightarrow> char" where
  "hex_digit d = ''0123456789abcdef'' ! d"

fun hex_str :: "nat \<Rightarrow> string" where
  "hex_str n = (if n < 16 then [hex_digit n] else hex_str (n div 16) @ [hex_digit (n mod 16)])"

declare hex_str.simps [simp del]

definition job_id_of :: "registry \<Rightarrow> nat \<Rightarrow> string" where
  "job_id_of g n = rg_identity g @ ''-'' @ hex_str n"

definition allocated_count :: "(string \<times> job) list \<Rightarrow> nat" where
  "allocated_count js = length (filter (\<lambda>(_, j). jb_allocated j) js)"

definition active_count :: "registry \<Rightarrow> nat" where
  "active_count g = allocated_count (rg_jobs g)"

definition committed_active_count :: "registry \<Rightarrow> nat" where
  "committed_active_count g = length (filter (\<lambda>(_, j). jb_committed j \<and> jb_allocated j) (rg_jobs g))"

definition bump_revision :: "registry \<Rightarrow> registry" where
  "bump_revision g = g\<lparr>rg_revision := Suc (rg_revision g)\<rparr>"

definition publish_state :: "registry \<Rightarrow> registry" where
  "publish_state g =
     g\<lparr>rg_published := rg_published g @ [(rg_revision g, committed_active_count g)]\<rparr>"

definition put_job :: "string \<Rightarrow> job \<Rightarrow> registry \<Rightarrow> registry" where
  "put_job i j g = g\<lparr>rg_jobs := dict_set i j (rg_jobs g)\<rparr>"

definition new_registry :: "string \<Rightarrow> registry" where
  "new_registry ident = \<lparr>rg_identity = ident, rg_jobs = [], rg_revision = 0, rg_closed = False,
                         rg_next_id = 0, rg_published = []\<rparr>"

section \<open>Admission\<close>

definition new_job :: "scrubber \<Rightarrow> nat \<Rightarrow> utext \<Rightarrow> utext option \<Rightarrow> job" where
  "new_job sc creator command label =
     \<lparr>jb_creator = creator, jb_command = metadata sc command 1024 True,
      jb_label = map_option (\<lambda>l. metadata sc l 64 False) label, jb_state = Starting,
      jb_committed = False, jb_allocated = True, jb_leader_observed = False, jb_exit_code = None,
      jb_output_complete = False, jb_output_incomplete = False, jb_error = None,
      jb_producing = False, jb_records = [], jb_retained_bytes = 0, jb_end_cursor = 0,
      jb_process = False, jb_stop_requested = False\<rparr>"

definition reserve ::
  "scrubber \<Rightarrow> port \<Rightarrow> utext \<Rightarrow> utext option \<Rightarrow> registry \<Rightarrow> job_error + string \<times> registry" where
  "reserve sc p command label g =
     (if rg_closed g \<or> pt_registry p \<noteq> rg_identity g then Inl ForeignOrClosed
      else if active_count g \<ge> max_allocations then Inl CapacityReached
      else let js = rg_jobs g; i = job_id_of g (rg_next_id g)
      in case (if length js \<ge> max_jobs
               then map_option (\<lambda>(k, _). dict_pop k js) (find (\<lambda>(_, j). \<not> jb_allocated j) js)
               else Some js) of
           None \<Rightarrow> Inl RetentionReached
         | Some kept \<Rightarrow>
             Inr (i, bump_revision (g\<lparr>rg_next_id := Suc (rg_next_id g),
                       rg_jobs := dict_set i (new_job sc (pt_creator p) command label) kept\<rparr>)))"

definition rollback :: "string \<Rightarrow> registry \<Rightarrow> job_error + registry" where
  "rollback i g =
     (case map_of (rg_jobs g) i of
        None \<Rightarrow> Inl NoSuchJob
      | Some j \<Rightarrow>
          (if jb_committed j \<or> jb_producing j then Inl BadTransition
           else if jb_stop_requested j
           then Inr (bump_revision (put_job i (j\<lparr>jb_committed := True, jb_state := Stopped,
                       jb_allocated := False, jb_output_complete := True\<rparr>) g))
           else Inr (bump_revision (g\<lparr>rg_jobs := dict_pop i (rg_jobs g)\<rparr>))))"

definition commit :: "string \<Rightarrow> registry \<Rightarrow> job_error + registry" where
  "commit i g =
     (case map_of (rg_jobs g) i of
        None \<Rightarrow> Inl NoSuchJob
      | Some j \<Rightarrow>
          (if rg_closed g \<or> jb_committed j then Inl BadTransition
           else Inr (publish_state (bump_revision
                  (put_job i (j\<lparr>jb_committed := True, jb_state := Running\<rparr>) g)))))"

definition observe_leader :: "string \<Rightarrow> int \<Rightarrow> registry \<Rightarrow> job_error + registry" where
  "observe_leader i code g =
     (case map_of (rg_jobs g) i of
        None \<Rightarrow> Inl NoSuchJob
      | Some j \<Rightarrow>
          (if \<not> jb_committed j \<or> jb_leader_observed j \<or> \<not> jb_allocated j then Inl BadTransition
           else Inr (put_job i (j\<lparr>jb_leader_observed := True, jb_exit_code := Some code\<rparr>) g)))"

section \<open>Capture\<close>

fun trim_records :: "output_record list \<Rightarrow> nat \<Rightarrow> output_record list \<times> nat" where
  "trim_records [] bytes = ([], bytes)"
| "trim_records (r # rs) bytes =
     (if length (r # rs) > max_records \<or> bytes > max_output_bytes
      then trim_records rs (bytes - utf8_length (or_text r)) else (r # rs, bytes))"

definition add_record :: "utext \<Rightarrow> job \<Rightarrow> job" where
  "add_record t j =
     (case trim_records (jb_records j @ [\<lparr>or_sequence = jb_end_cursor j, or_text = t\<rparr>])
             (jb_retained_bytes j + utf8_length t) of
        (rs, bytes) \<Rightarrow> j\<lparr>jb_records := rs, jb_retained_bytes := bytes, jb_end_cursor := Suc (jb_end_cursor j)\<rparr>)"

text \<open>The sections of \<open>capture\<close>: entry, one batch of safe text, an exception, and the exit.\<close>

definition capture_begin :: "string \<Rightarrow> registry \<Rightarrow> job_error + registry" where
  "capture_begin i g =
     (case map_of (rg_jobs g) i of
        None \<Rightarrow> Inl NoSuchJob
      | Some j \<Rightarrow>
          (if \<not> jb_committed j \<or> jb_output_complete j \<or> jb_producing j then Inl BadTransition
           else Inr (put_job i (j\<lparr>jb_producing := True\<rparr>) g)))"

definition capture_batch :: "string \<Rightarrow> utext \<Rightarrow> registry \<Rightarrow> registry" where
  "capture_batch i safe g =
     (case map_of (rg_jobs g) i of
        Some j \<Rightarrow> (if jb_producing j then put_job i (fold add_record (chunks safe) j) g else g)
      | None \<Rightarrow> g)"

definition capture_fail :: "string \<Rightarrow> registry \<Rightarrow> registry" where
  "capture_fail i g =
     (case map_of (rg_jobs g) i of
        Some j \<Rightarrow> (if jb_producing j
                   then put_job i (j\<lparr>jb_producing := False, jb_output_incomplete := True\<rparr>) g else g)
      | None \<Rightarrow> g)"

definition capture_end :: "string \<Rightarrow> bool \<Rightarrow> bool \<Rightarrow> registry \<Rightarrow> registry" where
  "capture_end i final abnormal g =
     (case map_of (rg_jobs g) i of
        Some j \<Rightarrow> (if jb_producing j
                   then put_job i (j\<lparr>jb_producing := False, jb_output_complete := final,
                          jb_output_incomplete := jb_output_incomplete j \<or> abnormal\<rparr>) g else g)
      | None \<Rightarrow> g)"

text \<open>
  A whole call, uninterrupted: \<open>outs\<close> is what decoding and redacting each batch gave
  (\<open>None\<close> when it raised).  The result says whether the call returned or raised that exception
  again after its clean-up.
\<close>

fun capture_batches :: "string \<Rightarrow> utext option list \<Rightarrow> registry \<Rightarrow> bool \<times> registry" where
  "capture_batches i [] g = (True, g)"
| "capture_batches i (None # outs) g = (False, g)"
| "capture_batches i (Some safe # outs) g = capture_batches i outs (capture_batch i safe g)"

definition capture ::
  "string \<Rightarrow> utext option list \<Rightarrow> bool \<Rightarrow> bool \<Rightarrow> registry \<Rightarrow> job_error + bool \<times> registry" where
  "capture i outs final abnormal g =
     (case capture_begin i g of
        Inl e \<Rightarrow> Inl e
      | Inr g1 \<Rightarrow>
          (case capture_batches i outs g1 of
             (True, g2) \<Rightarrow> Inr (True, capture_end i final abnormal g2)
           | (False, g2) \<Rightarrow> Inr (False, capture_fail i g2)))"

section \<open>Settlement, stop and closing\<close>

definition settle :: "scrubber \<Rightarrow> string \<Rightarrow> utext option \<Rightarrow> bool \<Rightarrow> registry \<Rightarrow> job_error + registry" where
  "settle sc i err stopped g =
     (case map_of (rg_jobs g) i of
        None \<Rightarrow> Inl NoSuchJob
      | Some j \<Rightarrow>
          (if \<not> jb_allocated j then Inr g
           else if \<not> jb_leader_observed j \<or> \<not> jb_output_complete j \<or> jb_producing j
           then Inl StillOwned
           else Inr (publish_state (bump_revision (put_job i
                  (j\<lparr>jb_error := map_option (\<lambda>t. metadata sc t 256 False) err,
                     jb_state := (if err \<noteq> None \<or> jb_output_incomplete j then Failed
                                  else if stopped then Stopped else Exited),
                     jb_allocated := False\<rparr>) g)))))"

definition authorized :: "port \<Rightarrow> string \<Rightarrow> registry \<Rightarrow> job_error + job" where
  "authorized p i g =
     (case map_of (rg_jobs g) i of
        None \<Rightarrow> Inl Unavailable
      | Some j \<Rightarrow>
          (if pt_registry p \<noteq> rg_identity g \<or> rg_closed g \<or> (\<not> pt_root p \<and> jb_creator j \<noteq> pt_creator p)
           then Inl Unavailable else Inr j))"

text \<open>The stop request of \<open>stop\<close>: a pending job is marked (its admission is cancelled by the
  caller), a live committed one becomes \<open>Stopping\<close>.\<close>

definition request_stop :: "port \<Rightarrow> string \<Rightarrow> bool \<Rightarrow> registry \<Rightarrow> job_error + registry" where
  "request_stop p i returned g =
     (case authorized p i g of
        Inl e \<Rightarrow> Inl e
      | Inr j \<Rightarrow>
          (if \<not> jb_committed j then Inr (put_job i (j\<lparr>jb_stop_requested := True\<rparr>) g)
           else if jb_allocated j \<and> \<not> returned \<and> \<not> jb_stop_requested j
           then Inr (put_job i (j\<lparr>jb_stop_requested := True, jb_state := Stopping\<rparr>) g)
           else Inr g))"

definition retire :: "registry \<Rightarrow> job_error + registry" where
  "retire g = (if active_count g > 0 then Inl StillOwned
               else Inr (bump_revision (g\<lparr>rg_closed := True, rg_jobs := []\<rparr>)))"

definition seal_admission :: "registry \<Rightarrow> registry" where
  "seal_admission g = g\<lparr>rg_closed := True\<rparr>"

section \<open>Reading\<close>

record page =
  pg_records :: "output_record list"
  pg_first :: nat
  pg_next :: nat
  pg_end :: nat
  pg_lost :: nat

text \<open>The selection loop: \<open>masked\<close> replaces every outward text by the placeholder.\<close>

fun select_records ::
  "utext option \<Rightarrow> nat \<Rightarrow> output_record list \<Rightarrow> nat \<Rightarrow> nat \<Rightarrow> output_record list \<times> nat" where
  "select_records masked budget [] sz cursor = ([], cursor)"
| "select_records masked budget (r # rs) sz cursor =
     (if or_sequence r < cursor then select_records masked budget rs sz cursor
      else let out = (case masked of Some t \<Rightarrow> r\<lparr>or_text := t\<rparr> | None \<Rightarrow> r);
               width = utf8_length (or_text out)
           in if sz + width > budget then ([], cursor)
              else case select_records masked budget rs (sz + width) (Suc (or_sequence r)) of
                     (outs, c) \<Rightarrow> (out # outs, c))"

definition page_of :: "scrubber \<Rightarrow> bool \<Rightarrow> port \<Rightarrow> string \<Rightarrow> nat \<Rightarrow> nat \<Rightarrow> registry \<Rightarrow> job_error + page" where
  "page_of sc rescan_differs p i cursor budget g =
     (case authorized p i g of
        Inl e \<Rightarrow> Inl e
      | Inr j \<Rightarrow>
          (if \<not> jb_committed j then Inl Unavailable
           else if cursor > jb_end_cursor j then Inl CursorBeyondEnd
           else let first = first_cursor j;
                    masked = (if first > 0 \<or> rescan_differs then Some (placeholder sc) else None)
                in case select_records masked budget (jb_records j) 0 (max cursor first) of
                     (outs, c) \<Rightarrow> Inr \<lparr>pg_records = outs, pg_first = first, pg_next = c,
                                       pg_end = jb_end_cursor j, pg_lost = first - cursor\<rparr>))"

definition list_jobs :: "port \<Rightarrow> bool \<Rightarrow> registry \<Rightarrow> job_error + string list" where
  "list_jobs p include_finished g =
     (if rg_closed g \<or> pt_registry p \<noteq> rg_identity g then Inl ForeignOrClosed
      else Inr (map fst (filter (\<lambda>(_, j). jb_committed j \<and> (pt_root p \<or> jb_creator j = pt_creator p) \<and>
                                   (include_finished \<or> jb_allocated j)) (rg_jobs g))))"

section \<open>Sequences of operations\<close>

datatype job_op =
  Reserve port utext "utext option" | Rollback string | CommitJob string | ObserveLeader string int
  | CaptureBegin string | CaptureBatch string utext | CaptureFail string | CaptureEnd string bool bool
  | Settle string "utext option" bool | RequestStop port string bool | Retire | SealAdmission

fun job_step :: "scrubber \<Rightarrow> job_op \<Rightarrow> registry \<Rightarrow> registry" where
  "job_step sc (Reserve p c l) g = (case reserve sc p c l g of Inl _ \<Rightarrow> g | Inr (_, g') \<Rightarrow> g')"
| "job_step sc (Rollback i) g = (case rollback i g of Inl _ \<Rightarrow> g | Inr g' \<Rightarrow> g')"
| "job_step sc (CommitJob i) g = (case commit i g of Inl _ \<Rightarrow> g | Inr g' \<Rightarrow> g')"
| "job_step sc (ObserveLeader i c) g = (case observe_leader i c g of Inl _ \<Rightarrow> g | Inr g' \<Rightarrow> g')"
| "job_step sc (CaptureBegin i) g = (case capture_begin i g of Inl _ \<Rightarrow> g | Inr g' \<Rightarrow> g')"
| "job_step sc (CaptureBatch i t) g = capture_batch i t g"
| "job_step sc (CaptureFail i) g = capture_fail i g"
| "job_step sc (CaptureEnd i f a) g = capture_end i f a g"
| "job_step sc (Settle i e s) g = (case settle sc i e s g of Inl _ \<Rightarrow> g | Inr g' \<Rightarrow> g')"
| "job_step sc (RequestStop p i r) g = (case request_stop p i r g of Inl _ \<Rightarrow> g | Inr g' \<Rightarrow> g')"
| "job_step sc Retire g = (case retire g of Inl _ \<Rightarrow> g | Inr g' \<Rightarrow> g')"
| "job_step sc SealAdmission g = seal_admission g"

definition job_run :: "scrubber \<Rightarrow> job_op list \<Rightarrow> registry \<Rightarrow> registry" where
  "job_run sc ops g = fold (job_step sc) ops g"

end
