(* ===== verification/Background_Props.thy ===== *)
theory Background_Props
  imports Background_Jobs
begin

text \<open>
  What the background job registry guarantees: its capacity and retention bounds, the shape of
  the retained output of every job, that a settled job never changes, that pages are faithful
  and make progress, and that a port sees only the jobs it may see.
\<close>

section \<open>Chunks\<close>

lemma utf8_width_le: "utf8_width c \<le> 4"
  by (simp add: utf8_width_def)

lemma utf8_length_simps [simp]:
  "utf8_length [] = 0" "utf8_length (c # t) = utf8_width c + utf8_length t"
  "utf8_length (s @ t) = utf8_length s + utf8_length t" "utf8_length (rev t) = utf8_length t"
  by (simp_all add: utf8_length_def rev_map [symmetric])

lemma chunk_scan_concat: "concat (chunk_scan cur sz t) = rev cur @ t"
  by (induction cur sz t rule: chunk_scan.induct) auto

lemma chunk_scan_bound:
  "utf8_length cur = sz \<Longrightarrow> sz \<le> max_record_bytes \<Longrightarrow> t' \<in> set (chunk_scan cur sz t) \<Longrightarrow>
   utf8_length t' \<le> max_record_bytes \<and> t' \<noteq> []"
proof (induction cur sz t rule: chunk_scan.induct)
  case (2 cur sz c t)
  have w: "utf8_width c \<le> max_record_bytes"
    using utf8_width_le [of c] by (simp add: max_record_bytes_def)
  show ?case
  proof (cases "sz + utf8_width c > max_record_bytes")
    case True
    with w have "cur \<noteq> []" using 2(3) by auto
    with 2 True w show ?thesis by auto
  next
    case False
    with 2 show ?thesis by auto
  qed
qed (auto split: if_splits)

lemma chunks_bound: "t' \<in> set (chunks t) \<Longrightarrow> utf8_length t' \<le> max_record_bytes \<and> t' \<noteq> []"
  using chunk_scan_bound [of "[]" 0 t' t] by (simp add: chunks_def)

section \<open>Ids\<close>

definition hex_val :: "char \<Rightarrow> nat" where
  "hex_val c = (case first_index (\<lambda>d. d = c) ''0123456789abcdef'' of Some i \<Rightarrow> i | None \<Rightarrow> 0)"

lemma hex_val_digit: "d < 16 \<Longrightarrow> hex_val (hex_digit d) = d"
proof -
  assume "d < 16"
  moreover have "\<forall>d \<in> set [0..<16]. hex_val (hex_digit d) = d" by code_simp
  ultimately show ?thesis by simp
qed

lemma hex_str_val: "foldl (\<lambda>v c. 16 * v + hex_val c) 0 (hex_str n) = n"
proof (induction n rule: hex_str.induct)
  case (1 n)
  show ?case
    by (cases "n < 16") (use 1 in \<open>simp_all add: hex_str.simps [of n] hex_val_digit\<close>)
qed

lemma hex_str_inj: "hex_str m = hex_str n \<Longrightarrow> m = n"
  by (metis hex_str_val)

lemma job_id_of_inj [simp]: "job_id_of g m = job_id_of g n \<longleftrightarrow> m = n"
  by (auto simp: job_id_of_def dest: hex_str_inj)

section \<open>Records\<close>

definition records_bytes :: "output_record list \<Rightarrow> nat" where
  "records_bytes rs = sum_list (map (utf8_length \<circ> or_text) rs)"

lemma records_bytes_simps [simp]:
  "records_bytes [] = 0" "records_bytes (r # rs) = utf8_length (or_text r) + records_bytes rs"
  "records_bytes (rs @ rs') = records_bytes rs + records_bytes rs'"
  by (simp_all add: records_bytes_def)

lemma trim_records_suffix:
  assumes "trim_records rs (records_bytes rs) = (rs', b)"
  shows "\<exists>k. rs' = drop k rs" "b = records_bytes rs'"
    "length rs' \<le> max_records" "records_bytes rs' \<le> max_output_bytes"
proof -
  have "(\<exists>k. rs' = drop k rs) \<and> b = records_bytes rs' \<and> length rs' \<le> max_records \<and>
      records_bytes rs' \<le> max_output_bytes"
    using assms
  proof (induction rs)
    case (Cons r rs)
    show ?case
    proof (cases "length (r # rs) > max_records \<or> records_bytes (r # rs) > max_output_bytes")
      case True
      with Cons have "trim_records rs (records_bytes rs) = (rs', b)" by simp
      from Cons.IH [OF this] show ?thesis by (metis drop_Suc_Cons)
    next
      case False
      with Cons.prems have r: "rs' = r # rs" "b = records_bytes (r # rs)" by auto
      then have "\<exists>k. rs' = drop k (r # rs)" by (intro exI [of _ 0]) simp
      with False r show ?thesis by (auto simp del: records_bytes_simps)
    qed
  qed simp
  then show "\<exists>k. rs' = drop k rs" "b = records_bytes rs'"
    "length rs' \<le> max_records" "records_bytes rs' \<le> max_output_bytes" by blast+
qed

definition output_ok :: "job \<Rightarrow> bool" where
  "output_ok j \<longleftrightarrow>
     length (jb_records j) \<le> jb_end_cursor j \<and>
     map or_sequence (jb_records j) = [jb_end_cursor j - length (jb_records j) ..< jb_end_cursor j] \<and>
     jb_retained_bytes j = records_bytes (jb_records j) \<and>
     length (jb_records j) \<le> max_records \<and> jb_retained_bytes j \<le> max_output_bytes \<and>
     list_all (\<lambda>r. utf8_length (or_text r) \<le> max_record_bytes) (jb_records j)"

lemma add_record_ok:
  assumes ok: "output_ok j" and t: "utf8_length t \<le> max_record_bytes"
  shows "output_ok (add_record t j)"
proof -
  let ?rs = "jb_records j @ [\<lparr>or_sequence = jb_end_cursor j, or_text = t\<rparr>]"
  let ?e = "jb_end_cursor j" and ?l = "length (jb_records j)"
  obtain rs b where tr: "trim_records ?rs (records_bytes ?rs) = (rs, b)"
    by (cases "trim_records ?rs (records_bytes ?rs)")
  note s = trim_records_suffix [OF tr]
  then obtain k where k: "rs = drop k ?rs" by blast
  have a: "add_record t j = j\<lparr>jb_records := rs, jb_retained_bytes := b, jb_end_cursor := Suc ?e\<rparr>"
    using tr ok by (simp add: add_record_def output_ok_def)
  have "map or_sequence ?rs = [?e - ?l ..< Suc ?e]" using ok by (simp add: output_ok_def)
  then have "map or_sequence rs = [?e - ?l + k ..< Suc ?e]" by (simp only: k drop_map [symmetric] drop_upt)
  moreover have lrs: "length rs = Suc ?l - k" by (simp add: k)
  moreover have "?l \<le> ?e" using ok by (simp add: output_ok_def)
  moreover have "[?e - ?l + k ..< Suc ?e] = [Suc ?e - length rs ..< Suc ?e]"
    using \<open>?l \<le> ?e\<close> lrs by (cases "k \<le> Suc ?l") (auto simp del: upt_Suc intro!: arg_cong2 [where f = upt])
  moreover have "list_all (\<lambda>r. utf8_length (or_text r) \<le> max_record_bytes) rs"
    using ok t by (auto simp: k list_all_iff output_ok_def dest: in_set_dropD)
  ultimately show ?thesis
    using s by (simp add: a output_ok_def del: upt_Suc)
qed

lemma fold_add_record:
  "output_ok j \<Longrightarrow> \<forall>t \<in> set ts. utf8_length t \<le> max_record_bytes \<Longrightarrow> output_ok (fold add_record ts j)"
  by (induction ts arbitrary: j) (simp_all add: add_record_ok)

lemma add_record_fields [simp]:
  "jb_committed (add_record t j) = jb_committed j" "jb_allocated (add_record t j) = jb_allocated j"
  "jb_state (add_record t j) = jb_state j" "jb_producing (add_record t j) = jb_producing j"
  "jb_output_complete (add_record t j) = jb_output_complete j"
  "jb_leader_observed (add_record t j) = jb_leader_observed j"
  by (simp_all add: add_record_def split: prod.split)

lemma fold_add_record_fields [simp]:
  "jb_committed (fold add_record ts j) = jb_committed j" "jb_allocated (fold add_record ts j) = jb_allocated j"
  "jb_state (fold add_record ts j) = jb_state j" "jb_producing (fold add_record ts j) = jb_producing j"
  "jb_output_complete (fold add_record ts j) = jb_output_complete j"
  "jb_leader_observed (fold add_record ts j) = jb_leader_observed j"
  by (induction ts arbitrary: j) simp_all

section \<open>The invariant\<close>

definition job_ok :: "job \<Rightarrow> bool" where
  "job_ok j \<longleftrightarrow> output_ok j \<and>
     (\<not> jb_committed j \<longrightarrow> jb_allocated j \<and> jb_state j = Starting \<and> \<not> jb_producing j \<and>
        \<not> jb_leader_observed j \<and> \<not> jb_output_complete j \<and> jb_records j = []) \<and>
     (jb_committed j \<and> jb_allocated j \<longrightarrow> jb_state j \<in> {Running, Stopping}) \<and>
     (\<not> jb_allocated j \<longrightarrow> jb_output_complete j \<and> jb_state j \<in> {Exited, Failed, Stopped} \<and>
        (jb_leader_observed j \<or> jb_state j = Stopped)) \<and>
     (jb_output_complete j \<longrightarrow> \<not> jb_producing j)"

definition registry_ok :: "registry \<Rightarrow> bool" where
  "registry_ok g \<longleftrightarrow>
     distinct (map fst (rg_jobs g)) \<and> length (rg_jobs g) \<le> max_jobs \<and>
     active_count g \<le> max_allocations \<and>
     (\<forall>(i, j) \<in> set (rg_jobs g). job_ok j \<and> (\<exists>n < rg_next_id g. i = job_id_of g n))"

lemma allocated_count_simps [simp]:
  "allocated_count [] = 0"
  "allocated_count ((i, j) # js) = (if jb_allocated j then Suc (allocated_count js) else allocated_count js)"
  by (simp_all add: allocated_count_def)

lemma dict_set_existing:
  assumes "map_of js i = Some j"
  shows "map fst (dict_set i j' js) = map fst js" "length (dict_set i j' js) = length js"
    "(jb_allocated j' \<longrightarrow> jb_allocated j) \<Longrightarrow> allocated_count (dict_set i j' js) \<le> allocated_count js"
  using assms by (induction js) (auto split: if_splits)

lemma set_dict_set: "(k, w) \<in> set (dict_set i j js) \<Longrightarrow> (k, w) \<in> set js \<or> (k = i \<and> w = j)"
  by (induction js) (auto split: if_splits)

lemma put_job_ok:
  assumes g: "registry_ok g" "map_of (rg_jobs g) i = Some j"
    and j': "job_ok j'" "jb_allocated j' \<longrightarrow> jb_allocated j"
  shows "registry_ok (put_job i j' g)"
proof -
  note d = dict_set_existing [OF g(2), of j']
  have "(i, j) \<in> set (rg_jobs g)" using g(2) by (rule map_of_SomeD)
  then obtain n where "n < rg_next_id g" "i = job_id_of g n" using g(1) by (auto simp: registry_ok_def)
  moreover have "job_id_of (put_job i j' g) = job_id_of g" by (simp add: fun_eq_iff job_id_of_def put_job_def)
  ultimately show ?thesis
    using g(1) j'(1) d(1,2) d(3) [OF j'(2)]
    by (auto simp: registry_ok_def put_job_def active_count_def dest!: set_dict_set)
qed

lemma job_of_ok: "registry_ok g \<Longrightarrow> map_of (rg_jobs g) i = Some j \<Longrightarrow> job_ok j"
  by (auto simp: registry_ok_def dest!: map_of_SomeD)

lemma registry_frame [simp]:
  "registry_ok (bump_revision g) = registry_ok g" "registry_ok (publish_state g) = registry_ok g"
  "registry_ok (seal_admission g) = registry_ok g"
  by (simp_all add: registry_ok_def bump_revision_def publish_state_def seal_admission_def
      active_count_def job_id_of_def)

lemma dict_pop_sub: "set (dict_pop k js) \<subseteq> set js" "length (dict_pop k js) \<le> length js"
  "allocated_count (dict_pop k js) \<le> allocated_count js"
  by (auto simp: dict_pop_def allocated_count_def intro!: length_filter_le)
    (simp add: filter_filter [symmetric] conj_commute length_filter_le del: filter_filter)

lemma dict_set_fresh: "map_of js i = None \<Longrightarrow> dict_set i j js = js @ [(i, j)]"
  by (induction js) auto

lemma allocated_count_append [simp]: "allocated_count (xs @ ys) = allocated_count xs + allocated_count ys"
  by (simp add: allocated_count_def)

lemma new_job_ok: "job_ok (new_job sc c cmd l)"
  by (simp add: job_ok_def output_ok_def new_job_def)

lemma reserve_kept:
  assumes ok: "registry_ok g"
    and k: "(if length (rg_jobs g) \<ge> max_jobs
       then map_option (\<lambda>(k, _). dict_pop k (rg_jobs g)) (find (\<lambda>(_, j). \<not> jb_allocated j) (rg_jobs g))
       else Some (rg_jobs g)) = Some kept"
  shows "set kept \<subseteq> set (rg_jobs g)" "distinct (map fst kept)" "length kept < max_jobs"
    "allocated_count kept \<le> allocated_count (rg_jobs g)"
proof -
  have l: "length (rg_jobs g) \<le> max_jobs" and d: "distinct (map fst (rg_jobs g))"
    using ok by (auto simp: registry_ok_def)
  have "set kept \<subseteq> set (rg_jobs g) \<and> distinct (map fst kept) \<and> length kept < max_jobs \<and>
      allocated_count kept \<le> allocated_count (rg_jobs g)"
  proof (cases "length (rg_jobs g) \<ge> max_jobs")
    case True
    with k obtain i j where f: "find (\<lambda>(_, j). \<not> jb_allocated j) (rg_jobs g) = Some (i, j)"
      and kept: "kept = dict_pop i (rg_jobs g)" by auto
    from f have "(i, j) \<in> set (rg_jobs g)" by (auto simp: find_Some_iff) (metis nth_mem)
    then have "length kept < length (rg_jobs g)"
      unfolding kept dict_pop_def by (rule length_filter_less) simp
    with l dict_pop_sub [of i "rg_jobs g"] distinct_dict_pop [OF d, of i] kept show ?thesis by simp
  qed (use k d in auto)
  then show "set kept \<subseteq> set (rg_jobs g)" "distinct (map fst kept)" "length kept < max_jobs"
    "allocated_count kept \<le> allocated_count (rg_jobs g)" by blast+
qed

lemma reserve_ok:
  assumes ok: "registry_ok g" and r: "reserve sc p c l g = Inr (i, g')"
  shows "registry_ok g' \<and> i = job_id_of g (rg_next_id g) \<and>
    (\<exists>kept. set kept \<subseteq> set (rg_jobs g) \<and> rg_jobs g' = kept @ [(i, new_job sc (pt_creator p) c l)]) \<and>
    rg_next_id g' = Suc (rg_next_id g) \<and> rg_identity g' = rg_identity g"
proof -
  from r obtain kept where cap: "active_count g < max_allocations"
    and k: "(if length (rg_jobs g) \<ge> max_jobs
       then map_option (\<lambda>(k, _). dict_pop k (rg_jobs g)) (find (\<lambda>(_, j). \<not> jb_allocated j) (rg_jobs g))
       else Some (rg_jobs g)) = Some kept"
    and i: "i = job_id_of g (rg_next_id g)"
    and g': "g' = bump_revision (g\<lparr>rg_next_id := Suc (rg_next_id g),
       rg_jobs := dict_set i (new_job sc (pt_creator p) c l) kept\<rparr>)"
    unfolding reserve_def Let_def by (auto split: if_splits option.splits)
  note kept = reserve_kept [OF ok k]
  have ids: "\<exists>n < rg_next_id g. k' = job_id_of g n" "job_ok j'" if "(k', j') \<in> set kept" for k' j'
    using that kept(1) ok by (auto simp: registry_ok_def)
  then have fresh: "i \<notin> fst ` set kept" by (force simp: i)
  then have js: "rg_jobs g' = kept @ [(i, new_job sc (pt_creator p) c l)]"
    by (simp add: g' bump_revision_def dict_set_fresh map_of_eq_None_iff)
  have "registry_ok g'"
    unfolding registry_ok_def active_count_def js
  proof (intro conjI)
    show "distinct (map fst (kept @ [(i, new_job sc (pt_creator p) c l)]))" using kept(2) fresh by simp
    show "length (kept @ [(i, new_job sc (pt_creator p) c l)]) \<le> max_jobs" using kept(3) by simp
    show "allocated_count (kept @ [(i, new_job sc (pt_creator p) c l)]) \<le> max_allocations"
      using kept(4) cap by (simp add: active_count_def)
    have idf: "job_id_of g' = job_id_of g" "rg_next_id g' = Suc (rg_next_id g)"
      by (simp_all add: g' bump_revision_def job_id_of_def fun_eq_iff)
    show "\<forall>(k', j') \<in> set (kept @ [(i, new_job sc (pt_creator p) c l)]).
        job_ok j' \<and> (\<exists>n < rg_next_id g'. k' = job_id_of g' n)"
    proof clarify
      fix k' j' assume "(k', j') \<in> set (kept @ [(i, new_job sc (pt_creator p) c l)])"
      then consider "(k', j') \<in> set kept" | "k' = i" "j' = new_job sc (pt_creator p) c l" by auto
      then show "job_ok j' \<and> (\<exists>n < rg_next_id g'. k' = job_id_of g' n)"
        by cases (use ids less_SucI new_job_ok i in \<open>force simp: idf\<close>)+
    qed
  qed
  then show ?thesis using js kept(1) i by (auto simp: g' bump_revision_def)
qed

lemma pop_job_ok: "registry_ok g \<Longrightarrow> registry_ok (g\<lparr>rg_jobs := dict_pop i (rg_jobs g)\<rparr>)"
  using dict_pop_sub [of i "rg_jobs g"]
  by (auto simp: registry_ok_def active_count_def job_id_of_def intro: distinct_dict_pop)

lemma job_step_ok:
  assumes ok: "registry_ok g"
  shows "registry_ok (job_step sc x g)"
proof -
  have j: "job_ok j" "output_ok j" if "map_of (rg_jobs g) i = Some j" for i j
    using job_of_ok [OF ok that] by (auto simp: job_ok_def)
  show ?thesis
  proof (cases x)
    case (Reserve p c l)
    with reserve_ok [OF ok] ok show ?thesis by (auto split: sum.split)
  next
    case (Rollback i)
    have "registry_ok g'" if r: "rollback i g = Inr g'" for g'
    proof -
      from r obtain jb where jb: "map_of (rg_jobs g) i = Some jb" by (auto simp: rollback_def split: option.splits)
      have "job_ok (jb\<lparr>jb_committed := True, jb_state := Stopped, jb_allocated := False, jb_output_complete := True\<rparr>)"
        if "\<not> jb_producing jb"
        using j [OF jb] that by (simp add: job_ok_def output_ok_def)
      with r jb ok show ?thesis
        by (auto simp: rollback_def split: if_splits intro!: put_job_ok [OF ok jb] pop_job_ok)
    qed
    with Rollback ok show ?thesis by (auto split: sum.split)
  next
    case (CommitJob i)
    show ?thesis
    proof (cases "map_of (rg_jobs g) i")
      case (Some jb)
      with CommitJob ok j [OF Some] show ?thesis
        by (auto simp: commit_def job_ok_def output_ok_def split: if_splits intro!: put_job_ok [OF ok Some])
    qed (simp add: CommitJob commit_def ok)
  next
    case (ObserveLeader i c)
    show ?thesis
    proof (cases "map_of (rg_jobs g) i")
      case (Some jb)
      with ObserveLeader ok j [OF Some] show ?thesis
        by (auto simp: observe_leader_def job_ok_def output_ok_def split: if_splits intro!: put_job_ok [OF ok Some])
    qed (simp add: ObserveLeader observe_leader_def ok)
  next
    case (CaptureBegin i)
    show ?thesis
    proof (cases "map_of (rg_jobs g) i")
      case (Some jb)
      with CaptureBegin ok j [OF Some] show ?thesis
        by (auto simp: capture_begin_def job_ok_def output_ok_def split: if_splits intro!: put_job_ok [OF ok Some])
    qed (simp add: CaptureBegin capture_begin_def ok)
  next
    case (CaptureBatch i t)
    have "registry_ok (capture_batch i t g)"
    proof (cases "map_of (rg_jobs g) i")
      case (Some jb)
      have "job_ok (fold add_record (chunks t) jb)" if "jb_producing jb"
        using j(1) [OF Some] that fold_add_record [of jb "chunks t"] chunks_bound [of _ t]
        by (auto simp: job_ok_def)
      with Some ok show ?thesis by (auto simp: capture_batch_def intro!: put_job_ok [OF ok Some])
    qed (simp add: capture_batch_def ok)
    with CaptureBatch show ?thesis by simp
  next
    case (CaptureFail i)
    show ?thesis
    proof (cases "map_of (rg_jobs g) i")
      case (Some jb)
      with CaptureFail ok j [OF Some] show ?thesis
        by (auto simp: capture_fail_def job_ok_def output_ok_def split: if_splits intro!: put_job_ok [OF ok Some])
    qed (simp add: CaptureFail capture_fail_def ok)
  next
    case (CaptureEnd i f a)
    show ?thesis
    proof (cases "map_of (rg_jobs g) i")
      case (Some jb)
      with CaptureEnd ok j [OF Some] show ?thesis
        by (auto simp: capture_end_def job_ok_def output_ok_def split: if_splits intro!: put_job_ok [OF ok Some])
    qed (simp add: CaptureEnd capture_end_def ok)
  next
    case (Settle i e s)
    show ?thesis
    proof (cases "map_of (rg_jobs g) i")
      case (Some jb)
      with Settle ok j [OF Some] show ?thesis
        by (auto simp: settle_def job_ok_def output_ok_def split: if_splits intro!: put_job_ok [OF ok Some])
    qed (simp add: Settle settle_def ok)
  next
    case (RequestStop p i r)
    show ?thesis
    proof (cases "map_of (rg_jobs g) i")
      case (Some jb)
      with RequestStop ok j [OF Some] show ?thesis
        by (auto simp: request_stop_def authorized_def job_ok_def output_ok_def split: if_splits intro!: put_job_ok [OF ok Some])
    qed (simp add: RequestStop request_stop_def authorized_def ok)
  next
    case Retire
    with ok show ?thesis by (auto simp: retire_def registry_ok_def active_count_def bump_revision_def)
  next
    case SealAdmission
    with ok show ?thesis by simp
  qed
qed

lemma job_run_ok: "registry_ok g \<Longrightarrow> registry_ok (job_run sc ops g)"
  unfolding job_run_def by (induction ops arbitrary: g) (simp_all add: job_step_ok del: job_step.simps)

lemma new_registry_ok: "registry_ok (new_registry ident)"
  by (simp add: new_registry_def registry_ok_def active_count_def)

section \<open>Pages\<close>

definition outward :: "utext option \<Rightarrow> output_record \<Rightarrow> output_record" where
  "outward masked r = (case masked of Some t \<Rightarrow> r\<lparr>or_text := t\<rparr> | None \<Rightarrow> r)"

lemma outward_sequence [simp]: "or_sequence (outward m r) = or_sequence r"
  by (simp add: outward_def split: option.split)

lemma select_records_spec:
  assumes "map or_sequence rs = [a ..< e]" "a \<le> k" "k \<le> e" "sz \<le> budget"
    and "select_records m budget rs sz k = (outs, n)"
  shows "k \<le> n \<and> n \<le> e \<and> outs = map (outward m) (take (n - k) (drop (k - a) rs)) \<and>
    sz + records_bytes outs \<le> budget \<and>
    (n < e \<longrightarrow> sz + records_bytes outs + utf8_length (or_text (outward m (rs ! (n - a)))) > budget)"
  using assms
proof (induction rs arbitrary: a k sz outs n)
  case Nil
  then have "[a ..< e] = []" by simp
  then have "e \<le> a" by auto
  with Nil show ?case by auto
next
  case (Cons r rs)
  from Cons.prems(1) have ae: "a < e" by (cases "a < e") auto
  then have r: "or_sequence r = a" and rs: "map or_sequence rs = [Suc a ..< e]"
    using Cons.prems(1) by (simp_all add: upt_conv_Cons del: upt_Suc)
  have nth: "(r # rs) ! (n' - a) = rs ! (n' - Suc a)" if "Suc a \<le> n'" for n'
    using that by (simp add: nth_Cons')
  show ?case
  proof (cases "a < k")
    case True
    with Cons.prems r have s: "select_records m budget rs sz k = (outs, n)" by simp
    have "Suc a \<le> k" "drop (k - a) (r # rs) = drop (k - Suc a) rs"
      using True by (auto simp: Suc_diff_Suc [symmetric])
    with Cons.IH [OF rs _ Cons.prems(3,4) s] nth [of n] show ?thesis by auto
  next
    case False
    with Cons.prems have k: "k = a" by simp
    let ?w = "utf8_length (or_text (outward m r))"
    have sel: "select_records m budget (r # rs) sz k =
        (if sz + ?w > budget then ([], k)
         else case select_records m budget rs (sz + ?w) (Suc a) of (outs, c) \<Rightarrow> (outward m r # outs, c))"
      by (simp add: k r outward_def Let_def)
    show ?thesis
    proof (cases "sz + ?w > budget")
      case True
      with sel Cons.prems k ae show ?thesis by auto
    next
      case False
      obtain os c where s: "select_records m budget rs (sz + ?w) (Suc a) = (os, c)"
        by (cases "select_records m budget rs (sz + ?w) (Suc a)")
      with sel False Cons.prems(5) have o: "outs = outward m r # os" "n = c" by auto
      have le: "Suc a \<le> e" "sz + ?w \<le> budget" using ae False by auto
      note ih = Cons.IH [OF rs order_refl le s, unfolded diff_self_eq_0 drop_0]
      then have "os = map (outward m) (take (c - Suc a) rs)" by blast
      moreover have "take (c - a) (r # rs) = r # take (c - Suc a) rs"
        using ih by (simp add: take_Cons')
      ultimately have "outs = map (outward m) (take (n - k) (drop (k - a) (r # rs)))"
        by (simp add: o k)
      moreover have "(r # rs) ! (c - a) = rs ! (c - Suc a)" using ih nth by blast
      ultimately show ?thesis using ih o k
        by (metis (no_types, lifting) Suc_leD add.assoc outward_sequence records_bytes_simps(2))
    qed
  qed
qed

definition page_mask :: "scrubber \<Rightarrow> bool \<Rightarrow> job \<Rightarrow> utext option" where
  "page_mask sc differs j = (if first_cursor j > 0 \<or> differs then Some (placeholder sc) else None)"

lemma first_cursor_ok: "output_ok j \<Longrightarrow> first_cursor j = jb_end_cursor j - length (jb_records j)"
proof -
  assume ok: "output_ok j"
  show ?thesis
  proof (cases "jb_records j")
    case (Cons r rs)
    have "[jb_end_cursor j - length (r # rs) ..< jb_end_cursor j] = or_sequence r # map or_sequence rs"
      using ok Cons by (simp add: output_ok_def)
    then have "or_sequence r = jb_end_cursor j - length (r # rs)" by (simp add: upt_eq_Cons_conv)
    with Cons show ?thesis by (simp add: first_cursor_def)
  qed (simp add: first_cursor_def)
qed

lemma page_of_spec:
  assumes ok: "registry_ok g" and p: "page_of sc differs p i cursor budget g = Inr pg"
  shows "\<exists>j. authorized p i g = Inr j \<and> jb_committed j \<and> cursor \<le> jb_end_cursor j \<and>
    (let first = first_cursor j; start = max cursor first in
      pg_first pg = first \<and> pg_lost pg = first - cursor \<and> pg_end pg = jb_end_cursor j \<and>
      start \<le> pg_next pg \<and> pg_next pg \<le> pg_end pg \<and>
      pg_records pg = map (outward (page_mask sc differs j))
        (take (pg_next pg - start) (drop (start - first) (jb_records j))) \<and>
      records_bytes (pg_records pg) \<le> budget \<and>
      (pg_next pg < pg_end pg \<longrightarrow> records_bytes (pg_records pg) +
         utf8_length (or_text (outward (page_mask sc differs j) (jb_records j ! (pg_next pg - first)))) > budget))"
proof -
  from p obtain j outs n where j: "authorized p i g = Inr j" "jb_committed j" "cursor \<le> jb_end_cursor j"
    and s: "select_records (page_mask sc differs j) budget (jb_records j) 0 (max cursor (first_cursor j)) = (outs, n)"
    and pg: "pg = \<lparr>pg_records = outs, pg_first = first_cursor j, pg_next = n,
      pg_end = jb_end_cursor j, pg_lost = first_cursor j - cursor\<rparr>"
    unfolding page_of_def page_mask_def Let_def by (auto split: sum.splits if_splits prod.splits)
  have "map_of (rg_jobs g) i = Some j" using j(1) by (auto simp: authorized_def split: option.splits if_splits)
  then have out: "output_ok j" using job_of_ok [OF ok] by (auto simp: job_ok_def)
  note f = first_cursor_ok [OF out]
  have seqs: "map or_sequence (jb_records j) = [first_cursor j ..< jb_end_cursor j]"
    using out f by (simp add: output_ok_def)
  from select_records_spec [OF seqs _ _ _ s] j f show ?thesis by (auto simp: pg Let_def)
qed

end
