(* ===== verification/Job_Props.thy ===== *)
theory Job_Props
  imports Background_Props
begin

text \<open>
  The properties of the background job registry: its bounds after any sequence of operations,
  the finality of a settled job, the output a capture retains, paging, and the isolation of
  the creators from each other.
\<close>

section \<open>Settled jobs\<close>

lemma map_of_put_job [simp]:
  "map_of (rg_jobs (put_job k w g)) i = (if i = k then Some w else map_of (rg_jobs g) i)"
  by (simp add: put_job_def)

lemma registry_frame_fields [simp]:
  "rg_jobs (bump_revision g) = rg_jobs g" "rg_jobs (publish_state g) = rg_jobs g"
  "rg_jobs (seal_admission g) = rg_jobs g"
  "rg_next_id (bump_revision g) = rg_next_id g" "rg_next_id (publish_state g) = rg_next_id g"
  "rg_next_id (seal_admission g) = rg_next_id g" "rg_next_id (put_job k w g) = rg_next_id g"
  "rg_identity (bump_revision g) = rg_identity g" "rg_identity (publish_state g) = rg_identity g"
  "rg_identity (seal_admission g) = rg_identity g" "rg_identity (put_job k w g) = rg_identity g"
  by (simp_all add: bump_revision_def publish_state_def seal_admission_def put_job_def)

text \<open>A job that is settled, or was settled and has been evicted, under an id already given out.\<close>

definition settled_or_gone :: "nat \<Rightarrow> job \<Rightarrow> registry \<Rightarrow> bool" where
  "settled_or_gone n j g \<longleftrightarrow>
     n < rg_next_id g \<and>
     (map_of (rg_jobs g) (job_id_of g n) = Some j \<or> map_of (rg_jobs g) (job_id_of g n) = None)"

lemma job_id_of_frame: "rg_identity g' = rg_identity g \<Longrightarrow> job_id_of g' = job_id_of g"
  by (simp add: fun_eq_iff job_id_of_def)

lemma settled_or_gone_frame:
  assumes "settled_or_gone n j g" "rg_identity g' = rg_identity g" "rg_next_id g \<le> rg_next_id g'"
    and "map_of (rg_jobs g') (job_id_of g n) = map_of (rg_jobs g) (job_id_of g n) \<or>
      map_of (rg_jobs g') (job_id_of g n) = None"
  shows "settled_or_gone n j g'"
  using assms(1,3,4) unfolding settled_or_gone_def job_id_of_frame [OF assms(2)] by auto

lemmas job_op_defs = rollback_def commit_def observe_leader_def capture_begin_def capture_batch_def
  capture_fail_def capture_end_def settle_def request_stop_def authorized_def retire_def reserve_def

lemma settled_step_keeps:
  assumes g: "settled_or_gone n j g" and j: "job_ok j" "\<not> jb_allocated j"
  shows "map_of (rg_jobs (job_step sc x g)) (job_id_of g n) = map_of (rg_jobs g) (job_id_of g n) \<or>
    map_of (rg_jobs (job_step sc x g)) (job_id_of g n) = None"
proof -
  let ?i = "job_id_of g n"
  have m: "map_of (rg_jobs g) ?i = Some j \<or> map_of (rg_jobs g) ?i = None" "n < rg_next_id g"
    using g by (auto simp: settled_or_gone_def)
  have c: "jb_committed j" "jb_output_complete j" "\<not> jb_producing j"
    using j by (auto simp: job_ok_def)
  note defs = job_op_defs
  show ?thesis
  proof (cases x)
    case (Reserve p cmd l)
    with m show ?thesis
      by (auto simp: reserve_def Let_def split: sum.splits option.splits if_splits)
  next
    case (Rollback k)
    with m c show ?thesis by (auto simp: defs split: sum.splits option.splits if_splits)
  next
    case (CommitJob k)
    with m c show ?thesis by (auto simp: defs split: sum.splits option.splits if_splits)
  next
    case (ObserveLeader k e)
    with m c j(2) show ?thesis by (auto simp: defs split: sum.splits option.splits if_splits)
  next
    case (CaptureBegin k)
    with m c show ?thesis by (auto simp: defs split: sum.splits option.splits if_splits)
  next
    case (CaptureBatch k t)
    with m c show ?thesis by (auto simp: defs split: sum.splits option.splits if_splits)
  next
    case (CaptureFail k)
    with m c show ?thesis by (auto simp: defs split: sum.splits option.splits if_splits)
  next
    case (CaptureEnd k f a)
    with m c show ?thesis by (auto simp: defs split: sum.splits option.splits if_splits)
  next
    case (Settle k e s)
    show ?thesis
    proof (cases "k = ?i")
      case True
      with Settle m j(2) show ?thesis by (auto simp: settle_def)
    next
      case False
      with Settle show ?thesis by (auto simp: settle_def split: sum.split option.split)
    qed
  next
    case (RequestStop p k r)
    show ?thesis
    proof (cases "authorized p k g")
      case (Inr jk)
      then have jk: "map_of (rg_jobs g) k = Some jk" by (auto simp: authorized_def split: option.splits if_splits)
      show ?thesis
      proof (cases "k = ?i")
        case True
        with jk m(1) have "jk = j" by simp
        with RequestStop Inr c j(2) show ?thesis by (simp add: request_stop_def)
      qed (use RequestStop Inr in \<open>simp add: request_stop_def\<close>)
    qed (simp add: RequestStop request_stop_def)
  next
    case Retire
    then show ?thesis by (auto simp: defs split: sum.splits)
  qed (simp add: defs)
qed

lemma job_step_frame:
  "rg_identity (job_step sc x g) = rg_identity g" "rg_next_id g \<le> rg_next_id (job_step sc x g)"
  by (cases x; auto simp: job_op_defs bump_revision_def publish_state_def put_job_def seal_admission_def
      Let_def split: sum.splits option.splits if_splits)+

lemma settled_or_gone_step:
  assumes g: "settled_or_gone n j g" and j: "job_ok j" "\<not> jb_allocated j"
  shows "settled_or_gone n j (job_step sc x g)"
  by (rule settled_or_gone_frame [OF g job_step_frame settled_step_keeps [OF g j]])

lemma settled_run_keeps:
  "settled_or_gone n j g \<Longrightarrow> job_ok j \<Longrightarrow> \<not> jb_allocated j \<Longrightarrow>
   settled_or_gone n j (job_run sc ops g) \<and>
   (map_of (rg_jobs (job_run sc ops g)) (job_id_of g n) = map_of (rg_jobs g) (job_id_of g n) \<or>
    map_of (rg_jobs (job_run sc ops g)) (job_id_of g n) = None)"
  unfolding job_run_def
proof (induction ops arbitrary: g)
  case (Cons x ops)
  have id: "job_id_of (job_step sc x g) = job_id_of g" by (rule job_id_of_frame [OF job_step_frame(1)])
  show ?case
    using Cons.IH [OF settled_or_gone_step [OF Cons.prems, of sc x] Cons.prems(2,3)]
      settled_step_keeps [OF Cons.prems, of sc x]
    unfolding id fold_simps by auto
qed simp

section \<open>Retained output\<close>

definition output_text :: "job \<Rightarrow> utext" where
  "output_text j = concat (map or_text (jb_records j))"

text \<open>The texts the batches of one capture put out before one of them failed.\<close>

fun captured_text :: "utext option list \<Rightarrow> utext" where
  "captured_text (Some safe # outs) = safe @ captured_text outs"
| "captured_text _ = []"

fun capture_failed :: "utext option list \<Rightarrow> bool" where
  "capture_failed [] = False"
| "capture_failed (None # outs) = True"
| "capture_failed (Some safe # outs) = capture_failed outs"

lemma trim_records_small:
  "length rs \<le> max_records \<Longrightarrow> b \<le> max_output_bytes \<Longrightarrow> trim_records rs b = (rs, b)"
  by (cases rs) auto

lemma add_record_text:
  assumes "output_ok j"
  shows "\<exists>pre. output_text j @ t = pre @ output_text (add_record t j)"
proof -
  let ?rs = "jb_records j @ [\<lparr>or_sequence = jb_end_cursor j, or_text = t\<rparr>]"
  obtain rs b where tr: "trim_records ?rs (records_bytes ?rs) = (rs, b)"
    by (cases "trim_records ?rs (records_bytes ?rs)")
  obtain k where k: "rs = drop k ?rs" using trim_records_suffix(1) [OF tr] by blast
  have split: "concat (map or_text xs) = concat (map or_text (take k xs)) @ concat (map or_text (drop k xs))" for xs
    by (metis append_take_drop_id concat_append map_append)
  have "output_text j @ t = concat (map or_text ?rs)" by (simp add: output_text_def)
  also have "\<dots> = concat (map or_text (take k ?rs)) @ concat (map or_text rs)"
    unfolding k by (rule split)
  also have "concat (map or_text rs) = output_text (add_record t j)"
    using tr assms by (simp add: add_record_def output_ok_def output_text_def)
  finally show ?thesis by blast
qed

lemma fold_add_record_text:
  "output_ok j \<Longrightarrow> \<forall>t \<in> set ts. utf8_length t \<le> max_record_bytes \<Longrightarrow>
   \<exists>pre. output_text j @ concat ts = pre @ output_text (fold add_record ts j)"
proof (induction ts arbitrary: j)
  case (Cons t ts)
  obtain pre where "output_text j @ t = pre @ output_text (add_record t j)"
    using add_record_text [OF Cons.prems(1)] by blast
  moreover obtain pre' where
    "output_text (add_record t j) @ concat ts = pre' @ output_text (fold add_record ts (add_record t j))"
    using Cons.IH [of "add_record t j"] Cons.prems add_record_ok by fastforce
  ultimately have "output_text j @ concat (t # ts) = (pre @ pre') @ output_text (fold add_record (t # ts) j)"
    by (metis append_assoc concat.simps(2) fold_simps(2))
  then show ?case by blast
qed (auto simp: output_text_def)

lemma chunks_concat: "concat (chunks t) = t"
  by (simp add: chunks_def chunk_scan_concat)

lemma capture_batches_text:
  assumes "registry_ok g" "map_of (rg_jobs g) i = Some j" "jb_producing j"
  shows "\<exists>j' pre. map_of (rg_jobs (snd (capture_batches i outs g))) i = Some j' \<and>
    output_text j @ captured_text outs = pre @ output_text j' \<and>
    fst (capture_batches i outs g) = (\<not> capture_failed outs) \<and> jb_producing j' \<and>
    jb_output_incomplete j' = jb_output_incomplete j \<and> jb_output_complete j' = jb_output_complete j"
  using assms
proof (induction outs arbitrary: g j)
  case (Cons out outs)
  show ?case
  proof (cases out)
    case (Some safe)
    let ?j = "fold add_record (chunks safe) j" and ?g = "capture_batch i safe g"
    have ok: "output_ok j" using job_of_ok [OF Cons.prems(1,2)] by (simp add: job_ok_def)
    have inc: "jb_output_incomplete (fold add_record ts j) = jb_output_incomplete j" for ts j
      by (induction ts arbitrary: j) (simp_all add: add_record_def split: prod.split)
    have "registry_ok ?g" using job_step_ok [OF Cons.prems(1), of _ "CaptureBatch i safe"] by simp
    moreover have "map_of (rg_jobs ?g) i = Some ?j" using Cons.prems by (simp add: capture_batch_def)
    ultimately obtain j' pre where ih: "map_of (rg_jobs (snd (capture_batches i outs ?g))) i = Some j'"
      "output_text ?j @ captured_text outs = pre @ output_text j'"
      "fst (capture_batches i outs ?g) = (\<not> capture_failed outs)" "jb_producing j'"
      "jb_output_incomplete j' = jb_output_incomplete j" "jb_output_complete j' = jb_output_complete j"
      using Cons.IH [of ?g ?j] Cons.prems(3) inc by auto
    obtain pre' where "output_text j @ safe = pre' @ output_text ?j"
      using fold_add_record_text [OF ok, of "chunks safe"] chunks_bound chunks_concat by metis
    with ih(2) have "output_text j @ captured_text (out # outs) = (pre' @ pre) @ output_text j'"
      using Some by (metis append_assoc captured_text.simps(1))
    with ih Some show ?thesis by auto
  qed (use Cons.prems in auto)
qed auto

section \<open>Reading to the end\<close>

text \<open>A reader that asks for the next page until it has reached the end.\<close>

fun read_pages ::
  "nat \<Rightarrow> scrubber \<Rightarrow> bool \<Rightarrow> port \<Rightarrow> string \<Rightarrow> nat \<Rightarrow> nat \<Rightarrow> registry \<Rightarrow> output_record list option" where
  "read_pages 0 sc differs p i budget cursor g = None"
| "read_pages (Suc fuel) sc differs p i budget cursor g =
     (case page_of sc differs p i cursor budget g of
        Inl _ \<Rightarrow> None
      | Inr pg \<Rightarrow>
          (if pg_next pg = pg_end pg then Some (pg_records pg)
           else map_option ((@) (pg_records pg)) (read_pages fuel sc differs p i budget (pg_next pg) g)))"

lemma page_of_total:
  assumes "authorized p i g = Inr j" "jb_committed j" "cursor \<le> jb_end_cursor j"
  shows "\<exists>pg. page_of sc differs p i cursor budget g = Inr pg"
  using assms by (auto simp: page_of_def Let_def split: prod.split)

lemma outward_fits:
  assumes "output_ok j" "min_read_bytes \<le> budget" "utf8_length (placeholder sc) \<le> budget"
    "r \<in> set (jb_records j)"
  shows "utf8_length (or_text (outward (page_mask sc differs j) r)) \<le> budget"
  using assms by (auto simp: outward_def page_mask_def output_ok_def list_all_iff min_read_bytes_def
      max_record_bytes_def)

lemma read_pages_all:
  assumes ok: "registry_ok g" and j: "authorized p i g = Inr j" "jb_committed j"
    and budget: "min_read_bytes \<le> budget" "utf8_length (placeholder sc) \<le> budget"
  shows "cursor \<le> jb_end_cursor j \<Longrightarrow> jb_end_cursor j - cursor < fuel \<Longrightarrow>
    read_pages fuel sc differs p i budget cursor g =
      Some (map (outward (page_mask sc differs j)) (drop (cursor - first_cursor j) (jb_records j)))"
proof (induction fuel arbitrary: cursor)
  case (Suc fuel)
  let ?e = "jb_end_cursor j" and ?f = "first_cursor j" and ?out = "map (outward (page_mask sc differs j))"
  have out: "output_ok j"
    using j(1) job_of_ok [OF ok] by (auto simp: authorized_def job_ok_def split: option.splits if_splits)
  have len: "length (jb_records j) = ?e - ?f" "?f \<le> ?e"
    using first_cursor_ok [OF out] out by (auto simp: output_ok_def)
  obtain pg where pg: "page_of sc differs p i cursor budget g = Inr pg"
    using page_of_total [OF j Suc.prems(1)] by blast
  let ?s = "max cursor ?f" and ?n = "pg_next pg"
  have spec: "pg_end pg = ?e" "?s \<le> ?n" "?n \<le> ?e"
    "pg_records pg = ?out (take (?n - ?s) (drop (?s - ?f) (jb_records j)))"
    "?n < ?e \<Longrightarrow> records_bytes (pg_records pg) +
       utf8_length (or_text (outward (page_mask sc differs j) (jb_records j ! (?n - ?f)))) > budget"
    using page_of_spec [OF ok pg] j(1) by (auto simp: Let_def)
  have d: "drop (?s - ?f) (jb_records j) = drop (cursor - ?f) (jb_records j)"
    by (simp add: max_def)
  show ?case
  proof (cases "?n = ?e")
    case True
    then have "take (?n - ?s) (drop (?s - ?f) (jb_records j)) = drop (?s - ?f) (jb_records j)"
      using len spec(2) by simp
    with True pg spec(1,4) d show ?thesis by simp
  next
    case False
    with spec(3) have n: "?n < ?e" by simp
    have "?n > ?s"
    proof (rule ccontr)
      assume "\<not> ?n > ?s"
      with spec(2) have s: "?n = ?s" by linarith
      with n len have "?n - ?f < length (jb_records j)" by auto
      from outward_fits [OF out budget nth_mem [OF this], of differs] spec(4,5) s n show False by simp
    qed
    moreover from this have "read_pages fuel sc differs p i budget ?n g =
        Some (?out (drop (?n - ?f) (jb_records j)))"
    proof -
      have "?e - ?n < fuel" using \<open>?n > ?s\<close> n Suc.prems(2) by linarith
      with n show ?thesis using Suc.IH [of ?n] by simp
    qed
    moreover have "drop (?n - ?f) (jb_records j) = drop (?n - ?s) (drop (cursor - ?f) (jb_records j))"
      using \<open>?n > ?s\<close> by (auto simp: max_def)
    ultimately show ?thesis
      using False pg spec(1,4) d by (simp flip: map_append del: drop_drop)
  qed
qed simp

section \<open>What a port can see\<close>

definition visible :: "port \<Rightarrow> registry \<Rightarrow> (string \<times> job) list" where
  "visible p g = filter (\<lambda>(_, j). pt_root p \<or> jb_creator j = pt_creator p) (rg_jobs g)"

text \<open>Two registries a port cannot tell apart.\<close>

definition same_view :: "port \<Rightarrow> registry \<Rightarrow> registry \<Rightarrow> bool" where
  "same_view p g g' \<longleftrightarrow>
     rg_identity g = rg_identity g' \<and> rg_closed g = rg_closed g' \<and> visible p g = visible p g'"

lemma map_of_filter_value:
  "distinct (map fst js) \<Longrightarrow>
   map_of (filter (\<lambda>(_, j). P j) js) i = (case map_of js i of Some j \<Rightarrow> if P j then Some j else None | None \<Rightarrow> None)"
proof (induction js)
  case (Cons a js)
  obtain k v where a: "a = (k, v)" by (cases a)
  with Cons.prems have k: "map_of js k = None" by (simp add: map_of_eq_None_iff)
  show ?case
  proof (cases "k = i")
    case True
    with k have "i \<notin> fst ` set (filter (\<lambda>(_, j). P j) js)" by (auto simp: map_of_eq_None_iff)
    then have "map_of (filter (\<lambda>(_, j). P j) js) i = None" by (rule iffD2 [OF map_of_eq_None_iff])
    with True a show ?thesis by simp
  next
    case False
    with Cons a show ?thesis by (simp split: option.split)
  qed
qed simp

lemma authorized_visible:
  assumes "registry_ok g"
  shows "authorized p i g =
    (case map_of (visible p g) i of
       Some j \<Rightarrow> if pt_registry p \<noteq> rg_identity g \<or> rg_closed g then Inl Unavailable else Inr j
     | None \<Rightarrow> Inl Unavailable)"
  using assms map_of_filter_value [of "rg_jobs g" "\<lambda>j. pt_root p \<or> jb_creator j = pt_creator p" i]
  by (auto simp: authorized_def visible_def registry_ok_def split: option.splits)

lemma list_jobs_visible:
  "list_jobs p fin g =
     (if rg_closed g \<or> pt_registry p \<noteq> rg_identity g then Inl ForeignOrClosed
      else Inr (map fst (filter (\<lambda>(_, j). jb_committed j \<and> (fin \<or> jb_allocated j)) (visible p g))))"
  by (auto simp: list_jobs_def visible_def case_prod_unfold intro!: arg_cong [where f = "map fst"] filter_cong)

lemma same_view_authorized:
  "registry_ok g \<Longrightarrow> registry_ok g' \<Longrightarrow> same_view p g g' \<Longrightarrow> authorized p i g = authorized p i g'"
  unfolding same_view_def by (auto simp: authorized_visible split: option.split)

lemma filter_dict_set_value:
  "map_of js i = Some j \<Longrightarrow> P j \<Longrightarrow> P j' \<Longrightarrow>
   filter (\<lambda>(_, j). P j) (dict_set i j' js) = dict_set i j' (filter (\<lambda>(_, j). P j) js)"
  by (induction js) (auto split: if_splits)

lemma visible_put_job:
  assumes "map_of (rg_jobs g) i = Some j" "pt_root p \<or> jb_creator j = pt_creator p"
    and "jb_creator j' = jb_creator j"
  shows "visible p (put_job i j' g) = dict_set i j' (visible p g)"
  using assms filter_dict_set_value [of "rg_jobs g" i j "\<lambda>j. pt_root p \<or> jb_creator j = pt_creator p" j']
  by (simp add: visible_def put_job_def)

lemma request_stop_visible:
  "request_stop p i returned g =
     (case authorized p i g of Inl e \<Rightarrow> Inl e
      | Inr j \<Rightarrow> Inr (if \<not> jb_committed j then put_job i (j\<lparr>jb_stop_requested := True\<rparr>) g
                     else if jb_allocated j \<and> \<not> returned \<and> \<not> jb_stop_requested j
                     then put_job i (j\<lparr>jb_stop_requested := True, jb_state := Stopping\<rparr>) g else g))"
  by (simp add: request_stop_def split: sum.split)

lemma authorized_Inr:
  "authorized p i g = Inr j \<Longrightarrow>
   map_of (rg_jobs g) i = Some j \<and> (pt_root p \<or> jb_creator j = pt_creator p)"
  by (auto simp: authorized_def split: option.splits if_splits)

section \<open>Properties\<close>

definition plain_scrubber :: scrubber where
  "plain_scrubber = \<lparr>scrub = id, scrub_shell = Some, placeholder = [42, 42, 42]\<rparr>"

definition alice :: port where "alice = \<lparr>pt_registry = ''r'', pt_creator = 1, pt_root = False\<rparr>"
definition bob :: port where "bob = \<lparr>pt_registry = ''r'', pt_creator = 2, pt_root = False\<rparr>"

definition running_jobs :: registry where
  "running_jobs = job_run plain_scrubber
     [Reserve alice [108, 115] None, CommitJob ''r-0'', CaptureBegin ''r-0'', CaptureBatch ''r-0'' [104, 105],
      CaptureEnd ''r-0'' False False] (new_registry ''r'')"

definition settled_jobs :: registry where
  "settled_jobs = job_run plain_scrubber
     [CaptureBegin ''r-0'', CaptureEnd ''r-0'' True False, ObserveLeader ''r-0'' 0, Settle ''r-0'' None False]
     running_jobs"

lemmas job_evaluation = Let_def job_run_def new_registry_def job_op_defs new_job_def metadata_def plain_scrubber_def
  alice_def bob_def job_id_of_def hex_str.simps [of 0] hex_digit_def bump_revision_def publish_state_def put_job_def
  active_count_def committed_active_count_def chunks_def add_record_def utf8_width_def max_record_bytes_def
  max_records_def max_output_bytes_def max_allocations_def max_jobs_def

definition listing_job :: job where
  "listing_job = \<lparr>jb_creator = 1, jb_command = [108, 115], jb_label = None, jb_state = Running,
     jb_committed = True, jb_allocated = True, jb_leader_observed = False, jb_exit_code = None,
     jb_output_complete = False, jb_output_incomplete = False, jb_error = None, jb_producing = False,
     jb_records = [\<lparr>or_sequence = 0, or_text = [104, 105]\<rparr>], jb_retained_bytes = 2,
     jb_end_cursor = 1, jb_process = False, jb_stop_requested = False\<rparr>"

lemma running_jobs_eq:
  "running_jobs = \<lparr>rg_identity = ''r'', rg_jobs = [(''r-0'', listing_job)], rg_revision = 2, rg_closed = False,
     rg_next_id = 1, rg_published = [(2, 1)]\<rparr>"
  by (simp add: running_jobs_def listing_job_def job_evaluation)

lemma settled_jobs_eq:
  "settled_jobs = \<lparr>rg_identity = ''r'', rg_jobs = [(''r-0'', listing_job\<lparr>jb_state := Exited,
       jb_allocated := False, jb_leader_observed := True, jb_exit_code := Some 0, jb_output_complete := True\<rparr>)],
     rg_revision = 3, rg_closed = False, rg_next_id = 1, rg_published = [(2, 1), (3, 0)]\<rparr>"
  by (simp add: settled_jobs_def running_jobs_eq listing_job_def job_evaluation capture_end_def)

lemma running_jobs_ok: "registry_ok running_jobs" "registry_ok settled_jobs"
  by (simp_all add: running_jobs_def settled_jobs_def job_run_ok new_registry_ok)

text \<open>
  However the registry is driven, refused calls included, it retains at most \<open>max_jobs\<close>
  jobs with at most \<open>max_allocations\<close> of them holding processes, and every job retains at most
  \<open>max_records\<close> records of at most \<open>max_output_bytes\<close> bytes in all, with consecutive sequence
  numbers that end at its end cursor.
\<close>

theorem job_registry_bounded:
  "length (rg_jobs (job_run sc ops (new_registry ident))) \<le> max_jobs \<and>
   active_count (job_run sc ops (new_registry ident)) \<le> max_allocations \<and>
   list_all (\<lambda>(i, j). length (jb_records j) \<le> max_records \<and>
      sum_list (map (utf8_length \<circ> or_text) (jb_records j)) \<le> max_output_bytes \<and>
      map or_sequence (jb_records j) = [jb_end_cursor j - length (jb_records j) ..< jb_end_cursor j])
     (rg_jobs (job_run sc ops (new_registry ident)))"
  using job_run_ok [OF new_registry_ok, of sc ops ident]
  by (auto simp: registry_ok_def job_ok_def output_ok_def list_all_iff records_bytes_def)

text \<open>
  C35. A settled job is final: through any further operations its record is unchanged until
  it is evicted, and once evicted its id is never given to another job.
\<close>

theorem settled_job_final:
  assumes "registry_ok g" "map_of (rg_jobs g) i = Some j" "\<not> jb_allocated j"
  shows "map_of (rg_jobs (job_run sc ops g)) i = Some j \<or>
    (map_of (rg_jobs (job_run sc ops g)) i = None \<and>
     map_of (rg_jobs (job_run sc (ops @ later) g)) i = None)"
proof -
  from assms(1,2) obtain n where i: "n < rg_next_id g" "i = job_id_of g n"
    by (auto simp: registry_ok_def dest!: map_of_SomeD)
  have j: "job_ok j" by (rule job_of_ok [OF assms(1,2)])
  have "settled_or_gone n j g" using i assms(2) by (simp add: settled_or_gone_def)
  note run = settled_run_keeps [OF this j assms(3)]
  have "rg_identity (job_run sc ops g) = rg_identity g"
    unfolding job_run_def by (induction ops arbitrary: g) (simp_all add: job_step_frame del: job_step.simps)
  note id = job_id_of_frame [OF this]
  note later = settled_run_keeps [OF conjunct1 [OF run [of sc ops]] j assms(3), of sc later, unfolded id]
  have "job_run sc (ops @ later) g = job_run sc later (job_run sc ops g)" by (simp add: job_run_def)
  with run [of sc ops] later assms(2) i show ?thesis by auto
qed

theorem settled_job_final_witness:
  "\<exists>j. map_of (rg_jobs settled_jobs) ''r-0'' = Some j \<and> jb_state j = Exited \<and>
    (map_of (rg_jobs (job_run plain_scrubber [Retire] settled_jobs)) ''r-0'' = Some j \<or>
     (map_of (rg_jobs (job_run plain_scrubber [Retire] settled_jobs)) ''r-0'' = None \<and>
      map_of (rg_jobs (job_run plain_scrubber ([Retire] @ [Reserve alice [] None]) settled_jobs)) ''r-0'' = None))"
proof -
  obtain j where j: "map_of (rg_jobs settled_jobs) ''r-0'' = Some j" "jb_state j = Exited" "\<not> jb_allocated j"
    by (simp add: settled_jobs_eq)
  from settled_job_final [OF running_jobs_ok(2) j(1,3)] j(1,2) show ?thesis by blast
qed

text \<open>
  A capture retains the end of the output: what the job held, followed by the safe text
  of the batches up to the first failure, ends in what it holds afterwards.  The call leaves
  the output complete only after a last batch that did not fail, and marks it incomplete when
  a batch failed or the end was abnormal.
\<close>

theorem capture_keeps_suffix:
  assumes "registry_ok g" "map_of (rg_jobs g) i = Some j" "capture i outs final abnormal g = Inr (returned, g')"
  shows "\<exists>j' pre. map_of (rg_jobs g') i = Some j' \<and>
    output_text j @ captured_text outs = pre @ output_text j' \<and> \<not> jb_producing j' \<and>
    returned = (\<not> capture_failed outs) \<and> jb_output_complete j' = (final \<and> returned) \<and>
    jb_output_incomplete j' = (jb_output_incomplete j \<or> abnormal \<or> \<not> returned)"
proof -
  let ?j = "j\<lparr>jb_producing := True\<rparr>" and ?g = "put_job i (j\<lparr>jb_producing := True\<rparr>) g"
  from assms(2,3) have entry: "capture_begin i g = Inr ?g" and c: "\<not> jb_output_complete j"
    by (auto simp: capture_def capture_begin_def split: if_splits)
  then have ok: "registry_ok ?g" using job_step_ok [OF assms(1), of _ "CaptureBegin i"] by simp
  obtain flag h where h: "capture_batches i outs ?g = (flag, h)" by (cases "capture_batches i outs ?g")
  with capture_batches_text [OF ok, of i ?j outs] obtain j' pre where j':
    "map_of (rg_jobs h) i = Some j'" "output_text j @ captured_text outs = pre @ output_text j'"
    "flag = (\<not> capture_failed outs)" "jb_producing j'"
    "jb_output_incomplete j' = jb_output_incomplete j" "\<not> jb_output_complete j'"
    using c by (auto simp: output_text_def)
  from assms(3) entry h have "(returned, g') =
      (if flag then (True, capture_end i final abnormal h) else (False, capture_fail i h))"
    by (auto simp: capture_def split: bool.splits)
  with j' show ?thesis
    by (auto simp: capture_end_def capture_fail_def output_text_def split: if_splits)
qed

theorem capture_keeps_suffix_witness:
  "\<exists>returned g' j' pre. capture ''r-0'' [Some [33], None, Some [35]] True False running_jobs = Inr (returned, g') \<and>
    map_of (rg_jobs g') ''r-0'' = Some j' \<and> [104, 105, 33] = pre @ output_text j' \<and> \<not> returned \<and>
    jb_output_incomplete j'"
proof -
  have j: "map_of (rg_jobs running_jobs) ''r-0'' = Some listing_job" "output_text listing_job = [104, 105]"
    by (simp_all add: running_jobs_eq listing_job_def output_text_def)
  obtain returned g' where c: "capture ''r-0'' [Some [33], None, Some [35]] True False running_jobs = Inr (returned, g')"
    by (simp add: capture_def running_jobs_eq listing_job_def capture_begin_def split: prod.split bool.split)
      (meson surj_pair)
  from capture_keeps_suffix [OF running_jobs_ok(1) j(1) c] j(2) c show ?thesis by auto
qed

text \<open>
  Paging reaches everything: with a budget of at least \<open>min_read_bytes\<close> a reader that
  follows the next cursor gets, within one page per record, exactly the retained records from
  its cursor on (masked ones when a match crosses records or output was lost), in order and
  each once.
\<close>

theorem pages_reach_everything:
  assumes "registry_ok g" "authorized p i g = Inr j" "jb_committed j"
    and "min_read_bytes \<le> budget" "utf8_length (placeholder sc) \<le> budget" "cursor \<le> jb_end_cursor j"
  shows "read_pages (Suc (jb_end_cursor j - cursor)) sc differs p i budget cursor g =
    Some (map (outward (page_mask sc differs j)) (drop (cursor - first_cursor j) (jb_records j)))"
  by (rule read_pages_all [OF assms lessI])

theorem pages_reach_everything_witness:
  "\<exists>j. authorized alice ''r-0'' running_jobs = Inr j \<and>
    read_pages (Suc (jb_end_cursor j - 0)) plain_scrubber False alice ''r-0'' 4096 0 running_jobs =
      Some (map (outward (page_mask plain_scrubber False j)) (drop (0 - first_cursor j) (jb_records j)))"
proof -
  have j: "authorized alice ''r-0'' running_jobs = Inr listing_job" "jb_committed listing_job"
    by (simp_all add: running_jobs_eq listing_job_def authorized_def alice_def)
  have "min_read_bytes \<le> 4096" "utf8_length (placeholder plain_scrubber) \<le> 4096"
    by (simp_all add: min_read_bytes_def plain_scrubber_def utf8_width_def)
  from pages_reach_everything [OF running_jobs_ok(1) j this le0, of False] j show ?thesis by blast
qed

text \<open>
  Creators are isolated: two registries that differ only in jobs the port may not see
  answer its listing, its pages and its stop requests alike, and a stop request changes the
  two views alike.
\<close>

theorem creators_isolated:
  assumes "registry_ok g" "registry_ok g'" "same_view p g g'"
  shows "list_jobs p fin g = list_jobs p fin g' \<and>
    page_of sc differs p i cursor budget g = page_of sc differs p i cursor budget g' \<and>
    map_sum id (visible p) (request_stop p i returned g) = map_sum id (visible p) (request_stop p i returned g')"
proof -
  have auth: "authorized p i g = authorized p i g'" by (rule same_view_authorized [OF assms])
  have vis: "visible p g = visible p g'" using assms(3) by (simp add: same_view_def)
  have put: "visible p (put_job i (f j) g) = visible p (put_job i (f j) g')"
    if "authorized p i g' = Inr j" "jb_creator (f j) = jb_creator j" for f j
    using visible_put_job [of g i j p "f j"] visible_put_job [of g' i j p "f j"] that auth
      authorized_Inr [of p i g j] authorized_Inr [of p i g' j] vis by simp
  have "map_sum id (visible p) (request_stop p i returned g) = map_sum id (visible p) (request_stop p i returned g')"
    using auth put [of _ "\<lambda>j. j\<lparr>jb_stop_requested := True\<rparr>"] vis
      put [of _ "\<lambda>j. j\<lparr>jb_stop_requested := True, jb_state := Stopping\<rparr>"]
    by (cases "authorized p i g'") (auto simp: request_stop_visible)
  moreover have "list_jobs p fin g = list_jobs p fin g'"
    using assms(3) by (simp add: list_jobs_visible same_view_def)
  ultimately show ?thesis by (simp add: page_of_def auth)
qed

theorem creators_isolated_witness:
  "list_jobs bob True running_jobs = list_jobs bob True settled_jobs \<and>
   page_of plain_scrubber False bob ''r-0'' 0 4096 running_jobs =
     page_of plain_scrubber False bob ''r-0'' 0 4096 settled_jobs"
proof -
  have "same_view bob running_jobs settled_jobs"
    by (simp add: same_view_def visible_def running_jobs_eq settled_jobs_eq bob_def listing_job_def)
  from creators_isolated [OF running_jobs_ok this] show ?thesis by blast
qed

end
