(* ===== verification/Archive_Read.thy ===== *)
theory Archive_Read
  imports Message_List Py_Value
begin

text \<open>
  The archive side of \<open>core/session/transcript_archive.py\<close> behind the descriptor: the prefix
  eligible for sealing, the streaming reader of archived records, and the proof that a
  rebound list is fully hydrated from the transcript on disk.

  A file is the list of the chunks its reader yields (\<open>None\<close> is an \<open>OSError\<close>).  \<open>json.loads\<close>
  and \<open>sha256\<close> of the Python library and the message model's \<open>model_validate\<close> are the
  parameter \<open>archive_env\<close>.
\<close>

record archive_env =
  json_loads :: "string \<Rightarrow> pyval option"
  sha256_hex :: "string \<Rightarrow> string"
  model_validate :: "pyval \<Rightarrow> llm_message option"

datatype archive_error =
  LineNotJson | LineNotObject | BytesExceed | RecordsExceed | PartialLine | ByteCount
  | ShaMismatch | RecordCount | ReadFailed | BadSession | ForeignSession | LoadedNotObject
  | TranscriptMissing | ArchivedMismatch nat | TailMismatch nat | TailPartial | CountMismatch
  | BadProof | InvalidRecord | BadBoundaryId

section \<open>Snapshots and receipts\<close>

text \<open>\<open>ArchiveSaveSnapshot.is_authoritative\<close>\<close>

definition is_authoritative :: "archived_prefix option \<Rightarrow> int option \<Rightarrow> bool" where
  "is_authoritative d epoch =
     (case (d, epoch) of (Some d', Some e) \<Rightarrow> ap_epoch d' = e | _ \<Rightarrow> False)"

record seal_receipt =
  sr_descriptor :: archived_prefix
  sr_sealed_at :: string

definition receipt_post_init :: "seal_receipt \<Rightarrow> bool" where
  "receipt_post_init r = (sr_sealed_at r \<noteq> [])"

section \<open>The eligible prefix\<close>

record eligible_prefix =
  el_messages :: "llm_message list"
  el_boundary :: "string option"

definition eligible_post_init :: "eligible_prefix \<Rightarrow> bool" where
  "eligible_post_init e \<longleftrightarrow>
     list_all (\<lambda>m. role_of m \<noteq> System) (el_messages e) \<and> el_boundary e \<noteq> Some []"

text \<open>The loop of \<open>_last_settled_round_end\<close>, from position \<open>i\<close> on.\<close>

record round_scan =
  rs_last :: nat
  rs_in :: bool
  rs_assistant :: bool
  rs_open :: "string set"

definition settled_here :: "round_scan \<Rightarrow> bool" where
  "settled_here s \<longleftrightarrow> rs_in s \<and> rs_assistant s \<and> rs_open s = {}"

definition round_step :: "nat \<Rightarrow> llm_message \<Rightarrow> round_scan \<Rightarrow> round_scan" where
  "round_step i m s =
     (case role_of m of
        User \<Rightarrow> \<lparr>rs_last = (if settled_here s then i else rs_last s), rs_in = True,
                rs_assistant = False, rs_open = {}\<rparr>
      | Assistant \<Rightarrow> s\<lparr>rs_assistant := True,
                      rs_open := rs_open s \<union> set (List.map_filter tc_id (calls_of m))\<rparr>
      | Tool \<Rightarrow> (case tool_call_id m of None \<Rightarrow> s | Some c \<Rightarrow> s\<lparr>rs_open := rs_open s - {c}\<rparr>)
      | System \<Rightarrow> s)"

fun round_scan_from :: "nat \<Rightarrow> llm_message list \<Rightarrow> round_scan \<Rightarrow> round_scan" where
  "round_scan_from i [] s = s"
| "round_scan_from i (m # ms) s = round_scan_from (Suc i) ms (round_step i m s)"

definition round_start :: round_scan where
  "round_start = \<lparr>rs_last = 0, rs_in = False, rs_assistant = False, rs_open = {}\<rparr>"

definition last_settled_round_end :: "llm_message list \<Rightarrow> nat" where
  "last_settled_round_end region =
     (let s = round_scan_from 0 region round_start
      in if region \<noteq> [] \<and> settled_here s then length region else rs_last s)"

text \<open>The constructor refuses a boundary whose message id is empty.\<close>

definition eligible_archive_prefix :: "llm_message list \<Rightarrow> archive_error + eligible_prefix option" where
  "eligible_archive_prefix ms =
     (let non_system = filter (\<lambda>m. role_of m \<noteq> System) ms
      in case last_index_where (\<lambda>m. context_boundary m = Some ''compaction'') non_system of
           None \<Rightarrow> Inr None
         | Some b \<Rightarrow>
             (let region = take b non_system; e = last_settled_round_end region;
                  r = \<lparr>el_messages = take e region, el_boundary = message_id (non_system ! b)\<rparr>
              in if e = 0 then Inr None
                 else if eligible_post_init r then Inr (Some r) else Inl BadBoundaryId))"

section \<open>The reader\<close>

definition NL :: char where "NL = CHR 0x0A"

fun break_line :: "string \<Rightarrow> (string \<times> string) option" where
  "break_line [] = None"
| "break_line (c # s) =
     (if c = NL then Some ([], s) else map_option (\<lambda>(l, r). (c # l, r)) (break_line s))"

lemma break_line_length [termination_simp]: "break_line s = Some (l, r) \<Longrightarrow> length r < length s"
  by (induction s arbitrary: l) (auto split: if_splits simp: less_SucI)

definition parse_record_line :: "archive_env \<Rightarrow> string \<Rightarrow> archive_error + pyval" where
  "parse_record_line env line =
     (case json_loads env line of
        None \<Rightarrow> Inl LineNotJson
      | Some v \<Rightarrow> if is_mapping v then Inr v else Inl LineNotObject)"

function drain_lines ::
  "archive_env \<Rightarrow> int \<Rightarrow> string \<Rightarrow> nat \<Rightarrow> archive_error + pyval list \<times> nat \<times> string" where
  "drain_lines env limit buf cnt =
     (case break_line buf of
        None \<Rightarrow> Inr ([], cnt, buf)
      | Some (line, rest) \<Rightarrow>
          (case parse_record_line env line of
             Inl e \<Rightarrow> Inl e
           | Inr r \<Rightarrow>
               (if int (Suc cnt) > limit then Inl RecordsExceed
                else (case drain_lines env limit rest (Suc cnt) of
                        Inl e \<Rightarrow> Inl e
                      | Inr (rs, c, b) \<Rightarrow> Inr (r # rs, c, b)))))"
  by pat_completeness auto
termination
  by (relation "measure (\<lambda>(_, _, buf, _). length buf)") (auto dest: break_line_length)

declare drain_lines.simps [simp del]

text \<open>\<open>iter_archived_records\<close>, collected: \<open>seen\<close> are the bytes hashed and counted so far.\<close>

fun iter_records ::
  "archive_env \<Rightarrow> archived_prefix \<Rightarrow> string option list \<Rightarrow> string \<Rightarrow> nat \<Rightarrow> string \<Rightarrow>
     archive_error + pyval list" where
  "iter_records env d [] seen cnt buf =
     (if buf \<noteq> [] then Inl PartialLine
      else if int (length seen) \<noteq> ap_end_byte d then Inl ByteCount
      else if sha256_hex env seen \<noteq> ap_sha256 d then Inl ShaMismatch
      else if int cnt \<noteq> ap_count d then Inl RecordCount
      else Inr [])"
| "iter_records env d (None # chunks) seen cnt buf = Inl ReadFailed"
| "iter_records env d (Some chunk # chunks) seen cnt buf =
     (if chunk = [] then iter_records env d chunks seen cnt buf
      else if int (length seen + length chunk) > ap_end_byte d then Inl BytesExceed
      else (case drain_lines env (ap_count d) (buf @ chunk) cnt of
              Inl e \<Rightarrow> Inl e
            | Inr (rs, c, b) \<Rightarrow>
                (case iter_records env d chunks (seen @ chunk) c b of
                   Inl e \<Rightarrow> Inl e
                 | Inr rs' \<Rightarrow> Inr (rs @ rs'))))"

definition iter_archived_records ::
  "archive_env \<Rightarrow> archived_prefix \<Rightarrow> string option list \<Rightarrow> archive_error + pyval list" where
  "iter_archived_records env d chunks = iter_records env d chunks [] 0 []"

definition read_archived_records :: "archive_env \<Rightarrow> archived_prefix \<Rightarrow> string \<Rightarrow> archive_error + pyval list" where
  "read_archived_records env d bytes = iter_archived_records env d [Some bytes]"

definition hydrate_archived_messages ::
  "archive_env \<Rightarrow> archived_prefix \<Rightarrow> string \<Rightarrow> archive_error + llm_message list" where
  "hydrate_archived_messages env d bytes =
     (case read_archived_records env d bytes of
        Inl e \<Rightarrow> Inl e
      | Inr rs \<Rightarrow> (case those (map (model_validate env) rs) of
                    None \<Rightarrow> Inl InvalidRecord | Some ms \<Rightarrow> Inr ms))"

text \<open>The reader is asked for a chunk before the limit is looked at.\<close>

fun archived_prefix_chunks :: "string option list \<Rightarrow> int \<Rightarrow> string option list" where
  "archived_prefix_chunks [] remaining = []"
| "archived_prefix_chunks (None # chunks) remaining = [None]"
| "archived_prefix_chunks (Some chunk # chunks) remaining =
     (if remaining \<le> 0 then []
      else let clipped = take (nat remaining) chunk
           in Some clipped # archived_prefix_chunks chunks (remaining - int (length clipped)))"

definition verify_archived_prefix_on_disk ::
  "archive_env \<Rightarrow> archived_prefix \<Rightarrow> string option list \<Rightarrow> archive_error option" where
  "verify_archived_prefix_on_disk env d file =
     (case iter_archived_records env d (archived_prefix_chunks file (ap_end_byte d)) of
        Inl e \<Rightarrow> Some e | Inr _ \<Rightarrow> None)"

section \<open>The hydration proof\<close>

text \<open>Python's \<open>==\<close> on JSON values: dictionaries without order, \<open>True == 1\<close>.\<close>

lemma zip_size [termination_simp]:
  "(x, y) \<in> set (zip xs ys) \<Longrightarrow> size x < Suc (size_list size xs)"
  by (drule set_zip_leftD) (metis less_Suc_eq_le order_refl size_list_estimation')

fun py_eq :: "pyval \<Rightarrow> pyval \<Rightarrow> bool" where
  "py_eq (PDict a) (PDict b) \<longleftrightarrow>
     length a = length b \<and> list_all (\<lambda>(k, v). list_ex (\<lambda>(k', v'). k = k' \<and> py_eq v v') b) a"
| "py_eq (PList a) (PList b) \<longleftrightarrow>
     length a = length b \<and> list_all (\<lambda>(x, y). py_eq x y) (zip a b)"
| "py_eq (PBool x) (PInt n) \<longleftrightarrow> n = of_bool x"
| "py_eq (PInt n) (PBool x) \<longleftrightarrow> n = of_bool x"
| "py_eq x y \<longleftrightarrow> x = y"

record hydration_proof =
  hp_session :: string
  hp_descriptor :: "archived_prefix option"
  hp_archived :: int
  hp_loaded :: nat
  hp_bytes :: nat
  hp_sha256 :: string

definition require_proof_identity ::
  "archived_prefix option \<Rightarrow> string \<Rightarrow> bool \<Rightarrow> pyval list \<Rightarrow> archive_error option" where
  "require_proof_identity d session is_file loaded =
     (if session = [] then Some BadSession
      else if (case d of None \<Rightarrow> False | Some d' \<Rightarrow> ap_session_id d' \<noteq> session) then Some ForeignSession
      else if \<not> list_all is_mapping loaded then Some LoadedNotObject
      else if \<not> is_file then Some TranscriptMissing
      else None)"

text \<open>
  The one pass of \<open>prefix_chunks\<close>: what it yields to the reader of the prefix, the chunks it
  queues for the tail, and the bytes it hashes.
\<close>

fun split_stream ::
  "int \<Rightarrow> nat \<Rightarrow> string option list \<Rightarrow> string option list \<times> string list \<times> string" where
  "split_stream limit sofar [] = ([], [], [])"
| "split_stream limit sofar (None # chunks) = ([None], [], [])"
| "split_stream limit sofar (Some chunk # chunks) =
     (case split_stream limit (sofar + length chunk) chunks of
        (head_part, tail, bytes) \<Rightarrow>
          (if chunk = [] then (head_part, tail, bytes)
           else if int (sofar + length chunk) \<le> limit then (Some chunk # head_part, tail, chunk @ bytes)
           else let keep = limit - int sofar
                in if keep > 0
                   then (Some (take (nat keep) chunk) # head_part,
                         (if drop (nat keep) chunk = [] then tail else drop (nat keep) chunk # tail),
                         chunk @ bytes)
                   else (head_part, chunk # tail, chunk @ bytes)))"

function compare_lines ::
  "archive_env \<Rightarrow> pyval list \<Rightarrow> string \<Rightarrow> nat \<Rightarrow> archive_error + nat \<times> string" where
  "compare_lines env loaded buf index =
     (case break_line buf of
        None \<Rightarrow> Inr (index, buf)
      | Some (line, rest) \<Rightarrow>
          (case parse_record_line env line of
             Inl e \<Rightarrow> Inl e
           | Inr r \<Rightarrow>
               (if index \<ge> length loaded \<or> \<not> py_eq (loaded ! index) r then Inl (TailMismatch index)
                else compare_lines env loaded rest (Suc index))))"
  by pat_completeness auto
termination
  by (relation "measure (\<lambda>(_, _, buf, _). length buf)") (auto dest: break_line_length)

declare compare_lines.simps [simp del]

fun compare_tail_records ::
  "archive_env \<Rightarrow> pyval list \<Rightarrow> string list \<Rightarrow> string \<Rightarrow> nat \<Rightarrow> archive_error + nat" where
  "compare_tail_records env loaded [] buf index = (if buf \<noteq> [] then Inl TailPartial else Inr index)"
| "compare_tail_records env loaded (chunk # chunks) buf index =
     (case compare_lines env loaded (buf @ chunk) index of
        Inl e \<Rightarrow> Inl e
      | Inr (index', buf') \<Rightarrow> compare_tail_records env loaded chunks buf' index')"

fun compare_head :: "pyval list \<Rightarrow> nat \<Rightarrow> pyval list \<Rightarrow> archive_error option" where
  "compare_head loaded i [] = None"
| "compare_head loaded i (r # rs) =
     (if i \<ge> length loaded \<or> \<not> py_eq (loaded ! i) r then Some (ArchivedMismatch i)
      else compare_head loaded (Suc i) rs)"

definition proof_post_init :: "hydration_proof \<Rightarrow> bool" where
  "proof_post_init p \<longleftrightarrow>
     hp_session p \<noteq> [] \<and>
     (case hp_descriptor p of None \<Rightarrow> True | Some d \<Rightarrow> ap_session_id d = hp_session p) \<and>
     hp_archived p \<ge> 0 \<and> length (hp_sha256 p) = 64 \<and> list_all (\<lambda>c. c \<in> set hex_digits) (hp_sha256 p)"

definition prove_rebound_hydration ::
  "archive_env \<Rightarrow> archived_prefix option \<Rightarrow> string \<Rightarrow> bool \<Rightarrow> string option list \<Rightarrow> pyval list \<Rightarrow>
     archive_error + hydration_proof" where
  "prove_rebound_hydration env d session is_file file loaded =
     (case require_proof_identity d session is_file loaded of
        Some e \<Rightarrow> Inl e
      | None \<Rightarrow>
          (let limit = (case d of None \<Rightarrow> 0 | Some d' \<Rightarrow> ap_end_byte d');
               archived = (case d of None \<Rightarrow> 0 | Some d' \<Rightarrow> ap_count d')
           in case split_stream limit 0 file of
             (head_part, tail, bytes) \<Rightarrow>
               (case (case d of
                        Some d' \<Rightarrow> iter_archived_records env d' head_part
                      | None \<Rightarrow> if None \<in> set head_part then Inl ReadFailed else Inr []) of
                  Inl e \<Rightarrow> Inl e
                | Inr head_records \<Rightarrow>
                    (case compare_head loaded 0 head_records of
                       Some e \<Rightarrow> Inl e
                     | None \<Rightarrow>
                         (case compare_tail_records env loaded tail [] (nat archived) of
                            Inl e \<Rightarrow> Inl e
                          | Inr n \<Rightarrow>
                              (if n \<noteq> length loaded then Inl CountMismatch
                               else let p = \<lparr>hp_session = session, hp_descriptor = d, hp_archived = archived,
                                             hp_loaded = length loaded, hp_bytes = length bytes,
                                             hp_sha256 = sha256_hex env bytes\<rparr>
                                    in if proof_post_init p then Inr p else Inl BadProof))))))"

end
