(* ===== verification/Archive_Read_Props.thy ===== *)
theory Archive_Read_Props
  imports Archive_Read
begin

text \<open>
  What the streaming archive reader and the hydration proof guarantee, stated over the whole
  bytes: the result does not depend on how the file was chunked.
\<close>

section \<open>Lines\<close>

text \<open>The complete lines of a byte string and what follows the last newline.\<close>

function split_lines :: "string \<Rightarrow> string list \<times> string" where
  "split_lines s =
     (case break_line s of
        None \<Rightarrow> ([], s)
      | Some (l, r) \<Rightarrow> (case split_lines r of (ls, b) \<Rightarrow> (l # ls, b)))"
  by pat_completeness auto
termination
  by (relation "measure length") (auto dest: break_line_length)

declare split_lines.simps [simp del]

lemma break_line_append: "break_line s = Some (l, r) \<Longrightarrow> break_line (s @ t) = Some (l, r @ t)"
  by (induction s arbitrary: l) (auto split: if_splits)

lemma split_lines_cases:
  "break_line s = None \<Longrightarrow> split_lines s = ([], s)"
  "break_line s = Some (l, r) \<Longrightarrow> split_lines s = (l # fst (split_lines r), snd (split_lines r))"
  by (simp_all add: split_lines.simps [of s] split: prod.split)

lemma split_lines_append:
  "split_lines (s @ t) =
     (fst (split_lines s) @ fst (split_lines (snd (split_lines s) @ t)),
      snd (split_lines (snd (split_lines s) @ t)))"
proof (induction s rule: split_lines.induct)
  case (1 s)
  show ?case
  proof (cases "break_line s")
    case None
    then show ?thesis by (simp add: split_lines_cases)
  next
    case (Some p)
    then obtain l r where p: "break_line s = Some (l, r)" by (cases p) auto
    from 1 [OF p refl] show ?thesis
      by (simp add: split_lines_cases(2) [OF p] split_lines_cases(2) [OF break_line_append [OF p]])
  qed
qed

lemma split_lines_rest: "break_line (snd (split_lines s)) = None"
proof (induction s rule: split_lines.induct)
  case (1 s)
  show ?case
  proof (cases "break_line s")
    case (Some p)
    then obtain l r where p: "break_line s = Some (l, r)" by (cases p) auto
    from 1 [OF p refl] show ?thesis by (simp add: split_lines_cases(2) [OF p])
  qed (simp add: split_lines_cases)
qed

definition parsed :: "archive_env \<Rightarrow> string list \<Rightarrow> pyval list \<Rightarrow> bool" where
  "parsed env ls rs \<longleftrightarrow> map (parse_record_line env) ls = map Inr rs"

lemma parsed_simps [simp]:
  "parsed env [] rs \<longleftrightarrow> rs = []"
  "parsed env (l # ls) rs \<longleftrightarrow> (\<exists>r rs'. rs = r # rs' \<and> parse_record_line env l = Inr r \<and> parsed env ls rs')"
  by (auto simp: parsed_def Cons_eq_map_conv)

lemma parsed_append:
  "parsed env (ls @ ls') rs \<longleftrightarrow> (\<exists>rs1 rs2. rs = rs1 @ rs2 \<and> parsed env ls rs1 \<and> parsed env ls' rs2)"
  unfolding parsed_def map_append append_eq_map_conv by metis

lemma parsed_length: "parsed env ls rs \<Longrightarrow> length rs = length ls"
  unfolding parsed_def by (metis length_map)

section \<open>The reader\<close>

lemma drain_lines_iff:
  "drain_lines env limit buf n = Inr (rs, c, b) \<longleftrightarrow>
     snd (split_lines buf) = b \<and> parsed env (fst (split_lines buf)) rs \<and>
     c = n + length (fst (split_lines buf)) \<and> (fst (split_lines buf) = [] \<or> int c \<le> limit)"
proof (induction env limit buf n arbitrary: rs c b rule: drain_lines.induct)
  case (1 env limit buf n)
  show ?case
  proof (cases "break_line buf")
    case None
    then show ?thesis by (auto simp: drain_lines.simps [of env limit buf] split_lines_cases)
  next
    case (Some p)
    then obtain l r where p: "break_line buf = Some (l, r)" by (cases p) auto
    note s = split_lines_cases(2) [OF p]
    show ?thesis
    proof (cases "parse_record_line env l")
      case (Inl e)
      with p s show ?thesis by (auto simp: drain_lines.simps [of env limit buf])
    next
      case (Inr v)
      show ?thesis
      proof (cases "int (Suc n) > limit")
        case True
        with p s Inr show ?thesis by (auto simp: drain_lines.simps [of env limit buf])
      next
        case False
        have "drain_lines env limit buf n = Inr (rs, c, b) \<longleftrightarrow>
            (\<exists>rs'. drain_lines env limit r (Suc n) = Inr (rs', c, b) \<and> rs = v # rs')"
          using p Inr False by (auto simp: drain_lines.simps [of env limit buf] split: sum.split)
        then show ?thesis
          using 1 [OF p refl Inr False] s Inr False by auto
      qed
    qed
  qed
qed

definition data_of :: "string option list \<Rightarrow> string" where
  "data_of chunks = concat (map the chunks)"

lemma data_of_simps [simp]:
  "data_of [] = []" "data_of (Some x # cs) = x @ data_of cs"
  by (simp_all add: data_of_def)

text \<open>What the reader accepts, over the whole bytes.\<close>

definition archived_ok :: "archive_env \<Rightarrow> archived_prefix \<Rightarrow> string \<Rightarrow> pyval list \<Rightarrow> bool" where
  "archived_ok env d bytes rs \<longleftrightarrow>
     int (length bytes) = ap_end_byte d \<and> sha256_hex env bytes = ap_sha256 d \<and>
     snd (split_lines bytes) = [] \<and> parsed env (fst (split_lines bytes)) rs \<and>
     int (length rs) = ap_count d"

lemma iter_records_iff:
  "iter_records env d chunks seen n buf = Inr rs \<longleftrightarrow>
     None \<notin> set chunks \<and> int (length seen + length (data_of chunks)) = ap_end_byte d \<and>
     sha256_hex env (seen @ data_of chunks) = ap_sha256 d \<and>
     snd (split_lines (buf @ data_of chunks)) = [] \<and>
     parsed env (fst (split_lines (buf @ data_of chunks))) rs \<and>
     int (n + length (fst (split_lines (buf @ data_of chunks)))) = ap_count d"
  if "break_line buf = None"
  using that
proof (induction chunks arbitrary: seen n buf rs)
  case Nil
  then show ?case by (auto simp: split_lines_cases)
next
  case (Cons c chunks)
  show ?case
  proof (cases c)
    case None
    then show ?thesis by simp
  next
  case c: (Some chunk)
  let ?s = "split_lines (buf @ chunk)"
  show ?thesis
  proof (cases "chunk = []")
    case True
    with Cons c show ?thesis by simp
  next
    case ne: False
    show ?thesis
    proof (cases "int (length seen + length chunk) > ap_end_byte d")
      case True
      with ne c show ?thesis by auto
    next
      case False
      note rest = split_lines_rest [of "buf @ chunk"]
      have "iter_records env d (c # chunks) seen n buf = Inr rs \<longleftrightarrow>
          (\<exists>rs1 rs2 c b. drain_lines env (ap_count d) (buf @ chunk) n = Inr (rs1, c, b) \<and>
             iter_records env d chunks (seen @ chunk) c b = Inr rs2 \<and> rs = rs1 @ rs2)"
        using ne False c by (auto split: sum.split)
      also have "\<dots> \<longleftrightarrow>
          (\<exists>rs1 rs2. parsed env (fst ?s) rs1 \<and> (fst ?s = [] \<or> int (n + length (fst ?s)) \<le> ap_count d) \<and>
             iter_records env d chunks (seen @ chunk) (n + length (fst ?s)) (snd ?s) = Inr rs2 \<and> rs = rs1 @ rs2)"
        by (auto simp: drain_lines_iff)
      also have "\<dots> \<longleftrightarrow>
          (\<exists>rs1 rs2. rs = rs1 @ rs2 \<and> parsed env (fst ?s) rs1 \<and>
             parsed env (fst (split_lines (snd ?s @ data_of chunks))) rs2) \<and> None \<notin> set chunks \<and>
             int (length (seen @ chunk) + length (data_of chunks)) = ap_end_byte d \<and>
             sha256_hex env ((seen @ chunk) @ data_of chunks) = ap_sha256 d \<and>
             snd (split_lines (snd ?s @ data_of chunks)) = [] \<and>
             int (n + length (fst ?s) + length (fst (split_lines (snd ?s @ data_of chunks)))) = ap_count d"
        unfolding Cons.IH [OF rest] by auto
      finally show ?thesis
        using split_lines_append [of "buf @ chunk" "data_of chunks"] c by (auto simp: parsed_append)
    qed
  qed
  qed
qed

text \<open>
  C36. The streaming reader is exact and does not depend on the chunking: it returns records
  if and only if every chunk was read and the bytes, taken together, have the length, the hash
  and the number of lines of the descriptor, end with a complete line, and parse line by line
  to those records.
\<close>

theorem archived_reader_exact:
  "iter_archived_records env d chunks = Inr rs \<longleftrightarrow>
     None \<notin> set chunks \<and> archived_ok env d (data_of chunks) rs"
  using iter_records_iff [of "[]" env d chunks "[]" 0 rs] parsed_length
  by (fastforce simp: iter_archived_records_def archived_ok_def)

section \<open>The hydration proof\<close>

lemma split_stream_None:
  "split_stream limit t fl = (pre, tail, bytes) \<Longrightarrow> None \<in> set pre \<longleftrightarrow> None \<in> set fl"
  by (induction limit t fl arbitrary: pre tail bytes rule: split_stream.induct)
    (auto simp: Let_def split: prod.splits if_splits)

lemma split_stream_data:
  "split_stream limit t fl = (pre, tail, bytes) \<Longrightarrow> None \<notin> set fl \<Longrightarrow>
   bytes = data_of fl \<and> data_of pre = take (nat (limit - int t)) bytes \<and>
   concat tail = drop (nat (limit - int t)) bytes"
proof (induction limit t fl arbitrary: pre tail bytes rule: split_stream.induct)
  case (3 limit t chunk chunks)
  obtain pre' tail' bytes' where r: "split_stream limit (t + length chunk) chunks = (pre', tail', bytes')"
    by (cases "split_stream limit (t + length chunk) chunks")
  with 3 have ih: "bytes' = data_of chunks"
    "data_of pre' = take (nat (limit - int (t + length chunk))) bytes'"
    "concat tail' = drop (nat (limit - int (t + length chunk))) bytes'" by auto
  consider "chunk = []" | "chunk \<noteq> []" "int (t + length chunk) \<le> limit"
    | "chunk \<noteq> []" "int (t + length chunk) > limit" "limit > int t"
    | "chunk \<noteq> []" "limit \<le> int t" by linarith
  then show ?case
  proof cases
    case 2
    then have "nat (limit - int t) = length chunk + nat (limit - int (t + length chunk))" by simp
    with 2 r ih 3(2) show ?thesis by auto
  next
    case 3
    then have "nat (limit - int (t + length chunk)) = 0" "nat (limit - int t) < length chunk" by auto
    with 3 r ih \<open>split_stream limit t (Some chunk # chunks) = (pre, tail, bytes)\<close> show ?thesis
      by (auto simp: Let_def split: if_splits)
  next
    case 4
    then have "nat (limit - int (t + length chunk)) = 0" "nat (limit - int t) = 0"
      "\<not> int t + int (length chunk) \<le> limit" by (auto simp flip: length_greater_0_conv)
    with 4 r ih 3(2) show ?thesis by (auto simp: Let_def split: if_splits)
  qed (use r ih 3(2) in auto)
qed auto

text \<open>A line of the file is the record at its position in the loaded list.\<close>

definition line_is :: "archive_env \<Rightarrow> string \<Rightarrow> pyval \<Rightarrow> bool" where
  "line_is env l v = (case parse_record_line env l of Inl _ \<Rightarrow> False | Inr r \<Rightarrow> py_eq v r)"

definition lines_are :: "archive_env \<Rightarrow> pyval list \<Rightarrow> nat \<Rightarrow> string list \<Rightarrow> bool" where
  "lines_are env loaded i ls \<longleftrightarrow>
     i + length ls \<le> length loaded \<and> list_all2 (line_is env) ls (take (length ls) (drop i loaded))"

lemma lines_are_Nil [simp]: "lines_are env loaded i [] \<longleftrightarrow> i \<le> length loaded"
  by (simp add: lines_are_def)

lemma lines_are_Cons [simp]:
  "lines_are env loaded i (l # ls) \<longleftrightarrow> i < length loaded \<and> line_is env l (loaded ! i) \<and> lines_are env loaded (Suc i) ls"
proof (cases "i < length loaded")
  case True
  then have "drop i loaded = loaded ! i # drop (Suc i) loaded" by (rule Cons_nth_drop_Suc [symmetric])
  with True show ?thesis by (auto simp: lines_are_def)
qed (auto simp: lines_are_def)

lemma lines_are_append:
  "lines_are env loaded i (ls @ ls') \<longleftrightarrow> lines_are env loaded i ls \<and> lines_are env loaded (i + length ls) ls'"
proof (induction ls arbitrary: i)
  case Nil
  then show ?case by (auto simp: lines_are_def)
qed auto

lemma compare_lines_iff:
  "i \<le> length loaded \<Longrightarrow> compare_lines env loaded buf i = Inr (n, b) \<longleftrightarrow>
     b = snd (split_lines buf) \<and> n = i + length (fst (split_lines buf)) \<and>
     lines_are env loaded i (fst (split_lines buf))"
proof (induction env loaded buf i rule: compare_lines.induct)
  case (1 env loaded buf i)
  show ?case
  proof (cases "break_line buf")
    case None
    with 1 show ?thesis by (auto simp: compare_lines.simps [of env loaded buf] split_lines_cases)
  next
    case (Some p)
    then obtain l r where p: "break_line buf = Some (l, r)" by (cases p) auto
    note s = split_lines_cases(2) [OF p]
    show ?thesis
    proof (cases "parse_record_line env l")
      case (Inl e)
      with p s show ?thesis by (auto simp: compare_lines.simps [of env loaded buf] line_is_def)
    next
      case (Inr v)
      show ?thesis
      proof (cases "i \<ge> length loaded \<or> \<not> py_eq (loaded ! i) v")
        case True
        with p s Inr show ?thesis by (auto simp: compare_lines.simps [of env loaded buf] line_is_def)
      next
        case False
        with 1(1) [OF p refl Inr False] p s Inr show ?thesis
          by (auto simp: compare_lines.simps [of env loaded buf] line_is_def)
      qed
    qed
  qed
qed

lemma compare_tail_iff:
  "i \<le> length loaded \<Longrightarrow> break_line buf = None \<Longrightarrow>
   compare_tail_records env loaded chunks buf i = Inr n \<longleftrightarrow>
     snd (split_lines (buf @ concat chunks)) = [] \<and>
     n = i + length (fst (split_lines (buf @ concat chunks))) \<and>
     lines_are env loaded i (fst (split_lines (buf @ concat chunks)))"
proof (induction chunks arbitrary: i buf)
  case Nil
  then show ?case by (auto simp: split_lines_cases)
next
  case (Cons chunk chunks)
  let ?s = "split_lines (buf @ chunk)"
  show ?case
  proof (cases "lines_are env loaded i (fst ?s)")
    case True
    then have i: "i + length (fst ?s) \<le> length loaded" by (simp add: lines_are_def)
    from True have "compare_lines env loaded (buf @ chunk) i = Inr (i + length (fst ?s), snd ?s)"
      by (simp add: compare_lines_iff [OF Cons.prems(1)])
    with Cons.IH [OF i split_lines_rest [of "buf @ chunk"]] True show ?thesis
      using split_lines_append [of "buf @ chunk" "concat chunks"] by (auto simp: lines_are_append)
  next
    case False
    then have "\<exists>e. compare_lines env loaded (buf @ chunk) i = Inl e"
      using compare_lines_iff [OF Cons.prems(1), of env "buf @ chunk"]
      by (cases "compare_lines env loaded (buf @ chunk) i") auto
    with False show ?thesis
      using split_lines_append [of "buf @ chunk" "concat chunks"] by (auto simp: lines_are_append)
  qed
qed

lemma compare_head_iff:
  "i \<le> length loaded \<Longrightarrow> parsed env ls rs \<Longrightarrow> compare_head loaded i rs = None \<longleftrightarrow> lines_are env loaded i ls"
  by (induction ls arbitrary: i rs) (auto simp: line_is_def split: if_splits)

text \<open>
  The transcript on disk and the loaded records agree: every line of the file is the record at
  its place, none is missing, and the archived prefix is the one the descriptor names.
\<close>

definition fully_hydrated ::
  "archive_env \<Rightarrow> archived_prefix option \<Rightarrow> string \<Rightarrow> bool \<Rightarrow> string option list \<Rightarrow> pyval list \<Rightarrow> bool" where
  "fully_hydrated env d session is_file fl loaded \<longleftrightarrow>
     session \<noteq> [] \<and> list_all is_mapping loaded \<and> is_file \<and> None \<notin> set fl \<and>
     snd (split_lines (data_of fl)) = [] \<and>
     list_all2 (line_is env) (fst (split_lines (data_of fl))) loaded \<and>
     (case d of None \<Rightarrow> True
      | Some d' \<Rightarrow> ap_session_id d' = session \<and>
          (\<exists>rs. archived_ok env d' (take (nat (ap_end_byte d')) (data_of fl)) rs))"

lemma lines_are_all:
  "lines_are env loaded 0 ls \<and> length ls = length loaded \<longleftrightarrow> list_all2 (line_is env) ls loaded"
  by (auto simp: lines_are_def list_all2_lengthD)

definition hash_is_hex :: "archive_env \<Rightarrow> bool" where
  "hash_is_hex env \<longleftrightarrow>
     (\<forall>b. length (sha256_hex env b) = 64 \<and> list_all (\<lambda>c. c \<in> set hex_digits) (sha256_hex env b))"

lemma prove_tail:
  assumes pre: "snd (split_lines before) = []" "length (fst (split_lines before)) = k"
    and head: "lines_are env loaded 0 (fst (split_lines before))"
  shows "compare_tail_records env loaded tail [] k = Inr (length loaded) \<longleftrightarrow>
    snd (split_lines (before @ concat tail)) = [] \<and>
    list_all2 (line_is env) (fst (split_lines (before @ concat tail))) loaded"
proof -
  have k: "k \<le> length loaded" using head pre(2) by (auto simp: lines_are_def)
  have "split_lines (before @ concat tail) =
      (fst (split_lines before) @ fst (split_lines (concat tail)), snd (split_lines (concat tail)))"
    using split_lines_append [of before "concat tail"] pre(1) by simp
  then show ?thesis
    using compare_tail_iff [OF k, of "[]" env tail "length loaded"] head pre(2)
    by (auto simp flip: lines_are_all simp: lines_are_append)
qed

definition proof_of :: "archive_env \<Rightarrow> archived_prefix option \<Rightarrow> string \<Rightarrow> string \<Rightarrow> pyval list \<Rightarrow> hydration_proof" where
  "proof_of env d session bytes loaded =
     \<lparr>hp_session = session, hp_descriptor = d,
      hp_archived = (case d of None \<Rightarrow> 0 | Some d' \<Rightarrow> ap_count d'), hp_loaded = length loaded,
      hp_bytes = length bytes, hp_sha256 = sha256_hex env bytes\<rparr>"

lemma identity_ok_iff:
  "require_proof_identity d session is_file loaded = None \<longleftrightarrow>
     session \<noteq> [] \<and> (case d of None \<Rightarrow> True | Some d' \<Rightarrow> ap_session_id d' = session) \<and>
     list_all is_mapping loaded \<and> is_file"
  by (auto simp: require_proof_identity_def split: option.split)

text \<open>The comparison after the identity checks, in terms of the bytes before and after the limit.\<close>

lemma prove_body:
  assumes id: "require_proof_identity d session is_file loaded = None" and hex: "hash_is_hex env"
    and split: "split_stream (case d of None \<Rightarrow> 0 | Some d' \<Rightarrow> ap_end_byte d') 0 fl = (pre, tail, bytes)"
  shows "prove_rebound_hydration env d session is_file fl loaded = Inr p \<longleftrightarrow>
    None \<notin> set pre \<and> (\<exists>rs. (case d of None \<Rightarrow> rs = [] | Some d' \<Rightarrow> archived_ok env d' (data_of pre) rs) \<and>
       compare_head loaded 0 rs = None) \<and>
    compare_tail_records env loaded tail [] (nat (case d of None \<Rightarrow> 0 | Some d' \<Rightarrow> ap_count d')) =
      Inr (length loaded) \<and>
    p = proof_of env d session bytes loaded"
proof -
  let ?head = "case d of Some d' \<Rightarrow> iter_archived_records env d' pre
    | None \<Rightarrow> if None \<in> set pre then Inl ReadFailed else Inr []"
  have head: "?head = Inr rs \<longleftrightarrow>
      None \<notin> set pre \<and> (case d of None \<Rightarrow> rs = [] | Some d' \<Rightarrow> archived_ok env d' (data_of pre) rs)" for rs
    by (auto simp: archived_reader_exact split: option.split)
  have post: "proof_post_init (proof_of env d session bytes loaded)" if "?head = Inr rs" for rs
    using id hex that[unfolded head]
    by (auto simp: proof_post_init_def proof_of_def identity_ok_iff hash_is_hex_def archived_ok_def split: option.splits)
  let ?tail = "compare_tail_records env loaded tail [] (nat (case d of None \<Rightarrow> 0 | Some d' \<Rightarrow> ap_count d'))"
  have body: "prove_rebound_hydration env d session is_file fl loaded =
      (case ?head of Inl e \<Rightarrow> Inl e
       | Inr rs \<Rightarrow> (case compare_head loaded 0 rs of Some e \<Rightarrow> Inl e
         | None \<Rightarrow> (case ?tail of Inl e \<Rightarrow> Inl e
           | Inr n \<Rightarrow> if n \<noteq> length loaded then Inl CountMismatch
                     else if proof_post_init (proof_of env d session bytes loaded)
                     then Inr (proof_of env d session bytes loaded) else Inl BadProof)))"
    unfolding prove_rebound_hydration_def id split Let_def proof_of_def by simp
  have "prove_rebound_hydration env d session is_file fl loaded = Inr p \<longleftrightarrow>
      (\<exists>rs. ?head = Inr rs \<and> compare_head loaded 0 rs = None \<and>
        compare_tail_records env loaded tail [] (nat (case d of None \<Rightarrow> 0 | Some d' \<Rightarrow> ap_count d')) =
          Inr (length loaded) \<and> p = proof_of env d session bytes loaded)"
    unfolding body by (cases ?head) (use post in \<open>auto split: option.splits sum.splits if_splits\<close>)
  then show ?thesis unfolding head by blast
qed

lemma prove_prefix:
  assumes ok: "archived_ok env d before rs"
  shows "compare_head loaded 0 rs = None \<and>
      compare_tail_records env loaded tail [] (nat (ap_count d)) = Inr (length loaded) \<longleftrightarrow>
    snd (split_lines (before @ concat tail)) = [] \<and>
    list_all2 (line_is env) (fst (split_lines (before @ concat tail))) loaded"
proof -
  have head: "compare_head loaded 0 rs = None \<longleftrightarrow> lines_are env loaded 0 (fst (split_lines before))"
    using ok compare_head_iff by (auto simp: archived_ok_def)
  have k: "nat (ap_count d) = length (fst (split_lines before))" and pre: "snd (split_lines before) = []"
    using ok parsed_length by (fastforce simp: archived_ok_def)+
  have "lines_are env loaded 0 (fst (split_lines before))"
    if "list_all2 (line_is env) (fst (split_lines (before @ concat tail))) loaded"
    using that split_lines_append [of before "concat tail"] pre
    by (simp flip: lines_are_all add: lines_are_append)
  with prove_tail [OF pre k [symmetric]] head show ?thesis by blast
qed

text \<open>
  The hydration proof is issued exactly when the rebound list is fully hydrated: every
  line of the transcript is the loaded record at its place and none is missing or extra, the
  descriptor is of this session and its archived prefix verifies against the same bytes; the
  proof carries the digest and the length of the whole file, however it was chunked.
\<close>

theorem hydration_proof_exact:
  assumes "hash_is_hex env"
  shows "prove_rebound_hydration env d session is_file fl loaded = Inr p \<longleftrightarrow>
    fully_hydrated env d session is_file fl loaded \<and> p = proof_of env d session (data_of fl) loaded"
proof (cases "require_proof_identity d session is_file loaded = None \<and> None \<notin> set fl")
  case False
  moreover have "prove_rebound_hydration env d session is_file fl loaded \<noteq> Inr p"
  proof (cases "require_proof_identity d session is_file loaded")
    case None
    obtain pre tail bytes where split:
      "split_stream (case d of None \<Rightarrow> 0 | Some d' \<Rightarrow> ap_end_byte d') 0 fl = (pre, tail, bytes)"
      by (cases "split_stream (case d of None \<Rightarrow> 0 | Some d' \<Rightarrow> ap_end_byte d') 0 fl")
    with None False split_stream_None [OF split] show ?thesis
      unfolding prove_body [OF None assms split] by blast
  qed (simp add: prove_rebound_hydration_def)
  ultimately show ?thesis
    by (auto simp: identity_ok_iff fully_hydrated_def split: option.splits)
next
  case True
  then have id: "require_proof_identity d session is_file loaded = None" and fl: "None \<notin> set fl" by auto
  let ?limit = "case d of None \<Rightarrow> 0 | Some d' \<Rightarrow> ap_end_byte d'"
  obtain pre tail bytes where split: "split_stream ?limit 0 fl = (pre, tail, bytes)"
    by (cases "split_stream ?limit 0 fl")
  note data = split_stream_data [OF split fl]
  have pre: "None \<notin> set pre" using split_stream_None [OF split] fl by simp
  note body = prove_body [OF id assms split]
  have whole: "data_of pre @ concat tail = data_of fl" using data by simp
  show ?thesis
  proof (cases d)
    case None
    with prove_tail [of "[]" 0 env loaded tail] data
    have "compare_tail_records env loaded tail [] 0 = Inr (length loaded) \<longleftrightarrow>
        snd (split_lines (data_of fl)) = [] \<and> list_all2 (line_is env) (fst (split_lines (data_of fl))) loaded"
      by (simp add: split_lines_cases)
    with body None pre id data fl show ?thesis
      by (auto simp: fully_hydrated_def identity_ok_iff)
  next
    case (Some d')
    with body pre id data fl prove_prefix [of env d' "data_of pre" _ loaded tail, unfolded whole] show ?thesis
      by (auto simp: fully_hydrated_def identity_ok_iff)
  qed
qed

definition toy_env :: archive_env where
  "toy_env = \<lparr>json_loads = (\<lambda>l. if l = ''{}'' then Some (PDict []) else None),
     sha256_hex = (\<lambda>_. replicate 64 (CHR ''a'')), model_validate = (\<lambda>_. None)\<rparr>"

definition toy_descriptor :: archived_prefix where
  "toy_descriptor = \<lparr>ap_session_id = ''s'', ap_epoch = 0, ap_count = 1, ap_end_byte = 3,
     ap_sha256 = replicate 64 (CHR ''a''), ap_boundary = None, ap_trim = Payloads\<rparr>"

definition toy_file :: "string option list" where
  "toy_file = [Some ''{'', Some (''}'' @ [NL] @ ''{''), Some (''}'' @ [NL])]"

theorem hydration_proof_exact_witness:
  "prove_rebound_hydration toy_env (Some toy_descriptor) ''s'' True toy_file [PDict [], PDict []] =
     Inr (proof_of toy_env (Some toy_descriptor) ''s'' (data_of toy_file) [PDict [], PDict []])"
proof -
  have hex: "hash_is_hex toy_env"
    by (simp add: hash_is_hex_def toy_env_def hex_digits_def list_all_iff)
  have "split_lines (data_of toy_file) = ([''{}'', ''{}''], [])"
    by (simp add: toy_file_def NL_def split_lines.simps)
  moreover have one: "split_lines (take 3 (data_of toy_file)) = ([''{}''], [])"
    by (simp add: toy_file_def NL_def split_lines.simps)
  moreover from one have "archived_ok toy_env toy_descriptor (take 3 (data_of toy_file)) [PDict []]"
    by (simp add: archived_ok_def parse_record_line_def)
      (simp add: toy_env_def toy_descriptor_def toy_file_def NL_def)
  ultimately have "fully_hydrated toy_env (Some toy_descriptor) ''s'' True toy_file [PDict [], PDict []]"
    by (auto simp: fully_hydrated_def line_is_def parse_record_line_def)
      (auto simp: toy_env_def toy_descriptor_def toy_file_def)
  with hydration_proof_exact [OF hex] show ?thesis by blast
qed

section \<open>The eligible prefix\<close>

text \<open>The messages after the last user message, and whether they settle their round.\<close>

definition round_of :: "llm_message list \<Rightarrow> llm_message list" where
  "round_of ms = rev (takeWhile (\<lambda>m. role_of m \<noteq> User) (rev ms))"

definition opens_call :: "string \<Rightarrow> llm_message \<Rightarrow> bool" where
  "opens_call c m \<longleftrightarrow> role_of m = Assistant \<and> c \<in> set (List.map_filter tc_id (calls_of m))"

definition round_settled :: "llm_message list \<Rightarrow> bool" where
  "round_settled ms \<longleftrightarrow>
     (\<exists>m \<in> set ms. role_of m = User) \<and> (\<exists>m \<in> set (round_of ms). role_of m = Assistant) \<and>
     (\<forall>xs m ys c. round_of ms = xs @ m # ys \<and> opens_call c m \<longrightarrow> (\<exists>y \<in> set ys. answers c y))"

definition settled_end :: "llm_message list \<Rightarrow> nat \<Rightarrow> bool" where
  "settled_end region e \<longleftrightarrow>
     e \<le> length region \<and> round_settled (take e region) \<and>
     (e = length region \<or> role_of (region ! e) = User)"

lemma round_of_snoc: "round_of (ms @ [m]) = (if role_of m = User then [] else round_of ms @ [m])"
  by (simp add: round_of_def)

lemma round_scan_snoc:
  "round_scan_from i (ms @ [m]) s = round_step (i + length ms) m (round_scan_from i ms s)"
  by (induction ms arbitrary: i s) auto

definition still_open :: "llm_message list \<Rightarrow> string set" where
  "still_open ms = {c. \<exists>xs m ys. ms = xs @ m # ys \<and> opens_call c m \<and> (\<forall>y \<in> set ys. \<not> answers c y)}"

lemma still_open_Nil [simp]: "still_open [] = {}"
  by (simp add: still_open_def)

lemma still_open_snoc:
  "still_open (ms @ [m]) = {c \<in> still_open ms. \<not> answers c m} \<union> {c. opens_call c m}"
proof (intro set_eqI iffI)
  fix c assume "c \<in> still_open (ms @ [m])"
  then obtain xs x ys where x: "ms @ [m] = xs @ x # ys" "opens_call c x" "\<forall>y \<in> set ys. \<not> answers c y"
    by (auto simp: still_open_def)
  show "c \<in> {c \<in> still_open ms. \<not> answers c m} \<union> {c. opens_call c m}"
  proof (cases ys rule: rev_cases)
    case (snoc ys' y)
    with x show ?thesis by (auto simp: still_open_def)
  qed (use x in auto)
next
  fix c assume "c \<in> {c \<in> still_open ms. \<not> answers c m} \<union> {c. opens_call c m}"
  then consider "opens_call c m" | xs x ys where "ms = xs @ x # ys" "opens_call c x"
      "\<forall>y \<in> set ys. \<not> answers c y" "\<not> answers c m"
    by (auto simp: still_open_def)
  then show "c \<in> still_open (ms @ [m])"
  proof cases
    case 1
    then show ?thesis unfolding still_open_def by (intro CollectI exI [of _ ms] exI [of _ m] exI [of _ "[]"]) simp
  next
    case 2
    then show ?thesis unfolding still_open_def
      by (intro CollectI exI [of _ xs] exI [of _ x] exI [of _ "ys @ [m]"]) auto
  qed
qed

lemma round_settled_open:
  "round_settled ms \<longleftrightarrow> (\<exists>m \<in> set ms. role_of m = User) \<and>
     (\<exists>m \<in> set (round_of ms). role_of m = Assistant) \<and> still_open (round_of ms) = {}"
  unfolding round_settled_def still_open_def by blast

lemma scan_state:
  fixes ms :: "llm_message list"
  defines "s \<equiv> round_scan_from 0 ms round_start"
  shows "rs_in s \<longleftrightarrow> (\<exists>m \<in> set ms. role_of m = User)"
    "rs_in s \<Longrightarrow> (rs_assistant s \<longleftrightarrow> (\<exists>m \<in> set (round_of ms). role_of m = Assistant)) \<and>
       rs_open s = still_open (round_of ms)"
proof -
  have "(rs_in s \<longleftrightarrow> (\<exists>m \<in> set ms. role_of m = User)) \<and>
    (rs_in s \<longrightarrow> (rs_assistant s \<longleftrightarrow> (\<exists>m \<in> set (round_of ms). role_of m = Assistant)) \<and>
       rs_open s = still_open (round_of ms))"
    unfolding s_def
  proof (induction ms rule: rev_induct)
    case Nil
    then show ?case by (simp add: round_start_def)
  next
    case (snoc m ms)
    show ?case
      by (cases "role_of m")
        (use snoc in \<open>auto simp: round_scan_snoc round_step_def round_of_snoc still_open_snoc opens_call_def
           answers_def split: option.split\<close>)
  qed
  then show "rs_in s \<longleftrightarrow> (\<exists>m \<in> set ms. role_of m = User)"
    "rs_in s \<Longrightarrow> (rs_assistant s \<longleftrightarrow> (\<exists>m \<in> set (round_of ms). role_of m = Assistant)) \<and>
       rs_open s = still_open (round_of ms)" by blast+
qed

lemma settled_here_iff: "settled_here (round_scan_from 0 ms round_start) \<longleftrightarrow> round_settled ms"
  using scan_state [of ms] by (auto simp: settled_here_def round_settled_open)

text \<open>The last settled end the loop has recorded is the greatest one at a user message.\<close>

definition user_end :: "llm_message list \<Rightarrow> nat \<Rightarrow> bool" where
  "user_end ms e \<longleftrightarrow> e < length ms \<and> role_of (ms ! e) = User \<and> round_settled (take e ms)"

lemma user_end_snoc:
  "user_end (ms @ [m]) e \<longleftrightarrow> user_end ms e \<or> (e = length ms \<and> role_of m = User \<and> round_settled ms)"
  by (auto simp: user_end_def nth_append less_Suc_eq)

lemma rs_last_greatest:
  fixes ms :: "llm_message list"
  defines "l \<equiv> rs_last (round_scan_from 0 ms round_start)"
  shows "(user_end ms l \<or> (l = 0 \<and> (\<forall>e. \<not> user_end ms e))) \<and> (\<forall>e. user_end ms e \<longrightarrow> e \<le> l)"
  unfolding l_def
proof (induction ms rule: rev_induct)
  case Nil
  then show ?case by (simp add: user_end_def round_start_def)
next
  case (snoc m ms)
  have le: "e < length ms" if "user_end ms e" for e using that by (simp add: user_end_def)
  have step: "rs_last (round_scan_from 0 (ms @ [m]) round_start) =
      (if role_of m = User \<and> round_settled ms then length ms else rs_last (round_scan_from 0 ms round_start))"
    using settled_here_iff [of ms]
    by (auto simp: round_scan_snoc round_step_def split: role.split option.split)
  show ?case
    unfolding step user_end_snoc using snoc le by (auto intro: less_imp_le)
qed

lemma round_settled_pos: "round_settled (take e ms) \<Longrightarrow> 0 < e"
  by (cases e) (auto simp: round_settled_def)

lemma settled_end_iff:
  "settled_end region e \<longleftrightarrow> user_end region e \<or> (e = length region \<and> round_settled region)"
  by (auto simp: settled_end_def user_end_def le_less)

lemma last_settled_round_end_greatest:
  "(settled_end region (last_settled_round_end region) \<or>
     (last_settled_round_end region = 0 \<and> (\<forall>e. \<not> settled_end region e))) \<and>
   (\<forall>e. settled_end region e \<longrightarrow> e \<le> last_settled_round_end region)"
proof (cases "round_settled region")
  case True
  then have "region \<noteq> []" by (auto simp: round_settled_def)
  with True have "last_settled_round_end region = length region"
    using settled_here_iff [of region] by (simp add: last_settled_round_end_def Let_def)
  with True show ?thesis by (auto simp: settled_end_def)
next
  case False
  then have "last_settled_round_end region = rs_last (round_scan_from 0 region round_start)"
    using settled_here_iff [of region] by (simp add: last_settled_round_end_def Let_def)
  with False rs_last_greatest [of region] show ?thesis by (auto simp: settled_end_iff)
qed

text \<open>
  Sealing takes the longest closed prefix it may: the eligible prefix is a prefix of the
  non-system messages that ends before the newest compaction boundary, at the end of a round
  with an assistant message in which every call that was opened is answered later in the round,
  and no longer prefix before the boundary ends so.  None is eligible exactly when there is no
  boundary or no settled round before it.
\<close>

theorem eligible_prefix_longest:
  assumes "eligible_archive_prefix ms = Inr r" "ns = filter (\<lambda>m. role_of m \<noteq> System) ms"
  shows "case r of
    None \<Rightarrow> (\<forall>b < length ns. context_boundary (ns ! b) = Some ''compaction'' \<longrightarrow>
       (\<exists>c \<ge> b. c < length ns \<and> context_boundary (ns ! c) = Some ''compaction'' \<and>
          (\<forall>e. \<not> settled_end (take c ns) e)))
  | Some p \<Rightarrow> (\<exists>b n. b < length ns \<and> context_boundary (ns ! b) = Some ''compaction'' \<and>
       (\<forall>c. b < c \<and> c < length ns \<longrightarrow> context_boundary (ns ! c) \<noteq> Some ''compaction'') \<and>
       el_boundary p = message_id (ns ! b) \<and> el_messages p = take n ns \<and> 0 < n \<and> n \<le> b \<and>
       settled_end (take b ns) n \<and> (\<forall>e. settled_end (take b ns) e \<longrightarrow> e \<le> n))"
proof (cases "last_index_where (\<lambda>m. context_boundary m = Some ''compaction'') ns")
  case None
  with assms have "r = None" by (simp add: eligible_archive_prefix_def Let_def)
  with None show ?thesis by (auto simp: last_index_None)
next
  case (Some b)
  note b = last_index_SomeD [OF Some]
  let ?e = "last_settled_round_end (take b ns)"
  note g = last_settled_round_end_greatest [of "take b ns"]
  show ?thesis
  proof (cases "?e = 0")
    case True
    with assms Some have "r = None" by (simp add: eligible_archive_prefix_def Let_def)
    moreover have "\<not> settled_end (take b ns) e" for e
    proof
      assume e: "settled_end (take b ns) e"
      then have "0 < e" by (auto simp: settled_end_def dest: round_settled_pos)
      with g e True show False by auto
    qed
    ultimately show ?thesis using b by (auto intro!: exI [of _ b] simp: not_less [symmetric])
  next
    case False
    with assms Some have r: "r = Some \<lparr>el_messages = take ?e (take b ns), el_boundary = message_id (ns ! b)\<rparr>"
      by (auto simp: eligible_archive_prefix_def Let_def split: if_splits)
    have "settled_end (take b ns) ?e" using g False by blast
    moreover from this have le: "?e \<le> b" by (simp add: settled_end_def)
    moreover from le have "take ?e (take b ns) = take ?e ns" by (simp add: min_absorb1)
    moreover have "\<forall>e. settled_end (take b ns) e \<longrightarrow> e \<le> ?e" using g by blast
    ultimately have "b < length ns \<and> context_boundary (ns ! b) = Some ''compaction'' \<and>
       (\<forall>c. b < c \<and> c < length ns \<longrightarrow> context_boundary (ns ! c) \<noteq> Some ''compaction'') \<and>
       message_id (ns ! b) = message_id (ns ! b) \<and> take ?e (take b ns) = take ?e ns \<and> 0 < ?e \<and> ?e \<le> b \<and>
       settled_end (take b ns) ?e \<and> (\<forall>e. settled_end (take b ns) e \<longrightarrow> e \<le> ?e)"
      using b False by blast
    then show ?thesis unfolding r option.case eligible_prefix.simps by blast
  qed
qed

definition toy_message :: "role \<Rightarrow> tool_call list option \<Rightarrow> string option \<Rightarrow> string option \<Rightarrow> llm_message" where
  "toy_message r calls result boundary =
     \<lparr>ident = 0, role_of = r, content = Some ''x'', injected = False, tool_calls = calls, tool_call_id = result,
      tool_result = None, message_id = Some ''m'', context_boundary = boundary, injection_origin = None,
      archive_ref = None\<rparr>"

definition toy_transcript :: "llm_message list" where
  "toy_transcript =
     [toy_message System None None None, toy_message User None None None,
      toy_message Assistant (Some [\<lparr>tc_id = Some ''c''\<rparr>]) None None, toy_message Tool None (Some ''c'') None,
      toy_message User None None (Some ''compaction''), toy_message Assistant None None None]"

theorem eligible_prefix_longest_witness:
  "\<exists>p b n. eligible_archive_prefix toy_transcript = Inr (Some p) \<and> length (el_messages p) = 3 \<and>
     el_messages p = take n (filter (\<lambda>m. role_of m \<noteq> System) toy_transcript) \<and>
     settled_end (take b (filter (\<lambda>m. role_of m \<noteq> System) toy_transcript)) n"
proof -
  have e: "eligible_archive_prefix toy_transcript =
      Inr (Some \<lparr>el_messages = take 3 (tl toy_transcript), el_boundary = Some ''m''\<rparr>)"
    by (simp add: eligible_archive_prefix_def toy_transcript_def toy_message_def last_settled_round_end_def
        round_start_def round_step_def settled_here_def calls_of_def map_filter_simps eligible_post_init_def)
  moreover have "length (take 3 (tl toy_transcript)) = 3" by (simp add: toy_transcript_def)
  ultimately show ?thesis using eligible_prefix_longest [OF e refl] by auto
qed

end
