(* ===== verification/File_Store.thy ===== *)
theory File_Store
  imports Checkpoint_Log
begin

text \<open>
  The file store of the checkpoints (\<open>core/checkpoints/file_store.py\<close>, \<open>fs.py\<close>): a port of disk
  operations, the application of a restore plan through it, and the disk itself.  The promises
  of the port (its docstring) are the locale \<open>filesystem\<close>; the plan is applied correctly on
  every port that keeps them, and the disk does.
\<close>

section \<open>The port\<close>

text \<open>
  \<open>None\<close> and \<open>False\<close> are a raised exception.  A read returns \<open>Some None\<close> for an absent file.
\<close>

record 'd fs_port =
  read_bytes :: "'d \<Rightarrow> string \<Rightarrow> string option option"
  write_bytes :: "'d \<Rightarrow> string \<Rightarrow> string \<Rightarrow> bool \<times> 'd"
  remove_file :: "'d \<Rightarrow> string \<Rightarrow> bool \<times> 'd"
  file_exists :: "'d \<Rightarrow> string \<Rightarrow> bool option"

definition store_read :: "'d fs_port \<Rightarrow> 'd \<Rightarrow> string \<Rightarrow> file_state option" where
  "store_read port d path = map_option (\<lambda>b. \<lparr>fs_data = b\<rparr>) (read_bytes port d path)"

datatype applied_one = Skipped | Restored | Failed string

definition apply_one :: "'d fs_port \<Rightarrow> string \<Rightarrow> file_state \<Rightarrow> 'd \<Rightarrow> applied_one \<times> 'd" where
  "apply_one port path s d =
     (case fs_data s of
        None \<Rightarrow>
          (case file_exists port d path of
             None \<Rightarrow> (Failed (''Failed to delete file: '' @ path), d)
           | Some False \<Rightarrow> (Skipped, d)
           | Some True \<Rightarrow>
               (case remove_file port d path of
                  (True, d') \<Rightarrow> (Restored, d')
                | (False, d') \<Rightarrow> (Failed (''Failed to delete file: '' @ path), d')))
      | Some data \<Rightarrow>
          (case store_read port d path of
             None \<Rightarrow> (Failed (''Failed to restore file: '' @ path), d)
           | Some current \<Rightarrow>
               (if current = s then (Skipped, d)
                else (case write_bytes port d path data of
                        (True, d') \<Rightarrow> (Restored, d')
                      | (False, d') \<Rightarrow> (Failed (''Failed to restore file: '' @ path), d')))))"

text \<open>\<open>FileStore.apply\<close>: the error messages, the restored paths and the disk afterwards.\<close>

fun apply_plan ::
  "'d fs_port \<Rightarrow> (string \<times> file_state) list \<Rightarrow> 'd \<Rightarrow> string list \<times> string list \<times> 'd" where
  "apply_plan port [] d = ([], [], d)"
| "apply_plan port ((path, s) # plan) d =
     (case apply_one port path s d of (r, d1) \<Rightarrow>
      case apply_plan port plan d1 of (errors, restored, d2) \<Rightarrow>
        ((case r of Failed msg \<Rightarrow> msg # errors | _ \<Rightarrow> errors),
         (case r of Restored \<Rightarrow> path # restored | _ \<Rightarrow> restored), d2))"

section \<open>The interface\<close>

locale filesystem =
  fixes port :: "'d fs_port" and contents :: "'d \<Rightarrow> string \<Rightarrow> string option"
  assumes read_law: "read_bytes port d p = Some b \<Longrightarrow> b = contents d p"
    and exists_law: "file_exists port d p = Some False \<Longrightarrow> contents d p = None"
    and write_law: "write_bytes port d p x = (ok, d') \<Longrightarrow>
      contents d' = (if ok then (contents d)(p \<mapsto> x) else contents d)"
    and remove_law: "remove_file port d p = (ok, d') \<Longrightarrow>
      contents d' = (if ok then (contents d)(p := None) else contents d)"
begin

lemma apply_one_contents:
  assumes "apply_one port path s d = (r, d')"
  shows "contents d' = (if r = Restored then (contents d)(path := fs_data s) else contents d)"
    "r = Skipped \<Longrightarrow> contents d path = fs_data s"
  using assms unfolding apply_one_def
  by (auto simp: store_read_def split: option.splits bool.splits if_splits prod.splits
      dest: read_law exists_law write_law remove_law)

lemma apply_plan_Cons:
  assumes "apply_plan port ((path, s) # plan) d = (errors, restored, d')"
  obtains r d1 errors1 restored1 where "apply_one port path s d = (r, d1)"
    "apply_plan port plan d1 = (errors1, restored1, d')"
    "errors = (case r of Failed msg \<Rightarrow> msg # errors1 | _ \<Rightarrow> errors1)"
    "restored = (case r of Restored \<Rightarrow> path # restored1 | _ \<Rightarrow> restored1)"
proof -
  obtain r d1 where r: "apply_one port path s d = (r, d1)" by (cases "apply_one port path s d")
  obtain es rs d2 where plan: "apply_plan port plan d1 = (es, rs, d2)" by (cases "apply_plan port plan d1")
  from assms r plan that [OF r, of es rs] show thesis by simp
qed

lemma apply_plan_other:
  "apply_plan port plan d = (errors, restored, d') \<Longrightarrow> path \<notin> fst ` set plan \<Longrightarrow>
   path \<notin> set restored \<and> contents d' path = contents d path"
proof (induction plan arbitrary: d errors restored d')
  case (Cons x plan)
  obtain p s where x: "x = (p, s)" by (cases x)
  from Cons.prems(1) x obtain r d1 es rs where one: "apply_one port p s d = (r, d1)"
    and rest: "apply_plan port plan d1 = (es, rs, d')"
    and rs: "restored = (case r of Restored \<Rightarrow> p # rs | _ \<Rightarrow> rs)" by (metis apply_plan_Cons)
  from Cons.IH [OF rest] Cons.prems(2) x have "path \<notin> set rs \<and> contents d' path = contents d1 path" by auto
  with apply_one_contents(1) [OF one] Cons.prems(2) x rs show ?case by (auto split: applied_one.splits)
qed simp

text \<open>What a plan with distinct paths does to each of them.\<close>

lemma apply_plan_planned:
  "apply_plan port plan d = (errors, restored, d') \<Longrightarrow> distinct (map fst plan) \<Longrightarrow> (path, s) \<in> set plan \<Longrightarrow>
   contents d' path = (if path \<in> set restored then fs_data s else contents d path) \<and>
   (errors = [] \<longrightarrow> contents d' path = fs_data s)"
proof (induction plan arbitrary: d errors restored d')
  case (Cons x plan)
  obtain p t where x: "x = (p, t)" by (cases x)
  from Cons.prems(1) x obtain r d1 es rs where one: "apply_one port p t d = (r, d1)"
    and rest: "apply_plan port plan d1 = (es, rs, d')"
    and es: "errors = (case r of Failed msg \<Rightarrow> msg # es | _ \<Rightarrow> es)"
    and rs: "restored = (case r of Restored \<Rightarrow> p # rs | _ \<Rightarrow> rs)" by (metis apply_plan_Cons)
  note c = apply_one_contents [OF one]
  show ?case
  proof (cases "path = p")
    case True
    with Cons.prems x have "path \<notin> fst ` set plan" "s = t" by (auto simp: rev_image_eqI)
    with apply_plan_other [OF rest] c es rs True show ?thesis by (cases r) auto
  next
    case False
    with Cons.prems x have "distinct (map fst plan)" "(path, s) \<in> set plan" by auto
    with Cons.IH [OF rest this] c(1) es rs False show ?thesis by (cases r) auto
  qed
qed simp

lemma apply_plan_faithful:
  assumes "apply_plan port plan d = (errors, restored, d')" "distinct (map fst plan)"
  shows "contents d' path = (case map_of plan path of
      Some s \<Rightarrow> if path \<in> set restored then fs_data s else contents d path
    | None \<Rightarrow> contents d path)"
    "errors = [] \<Longrightarrow> map_of plan path = Some s \<Longrightarrow> contents d' path = fs_data s"
  using apply_plan_other [OF assms(1), of path] apply_plan_planned [OF assms, of path]
  by (auto simp: map_of_eq_None_iff split: option.split dest: map_of_SomeD)

end

section \<open>The disk\<close>

text \<open>
  The regular files, and the paths at which the operating system refuses (unreadable, a
  directory, no permission).  A failed write leaves the file as it was: the bytes are staged
  beside it and renamed.
\<close>

record disk =
  dk_files :: "(string \<times> string) list"
  dk_refused :: "string list"

definition disk_read :: "disk \<Rightarrow> string \<Rightarrow> string option option" where
  "disk_read d p = (if p \<in> set (dk_refused d) then None else Some (map_of (dk_files d) p))"

definition disk_write :: "disk \<Rightarrow> string \<Rightarrow> string \<Rightarrow> bool \<times> disk" where
  "disk_write d p x =
     (if p \<in> set (dk_refused d) then (False, d)
      else (True, d\<lparr>dk_files := dict_set p x (dk_files d)\<rparr>))"

definition disk_remove :: "disk \<Rightarrow> string \<Rightarrow> bool \<times> disk" where
  "disk_remove d p =
     (if p \<in> set (dk_refused d) \<or> map_of (dk_files d) p = None then (False, d)
      else (True, d\<lparr>dk_files := dict_pop p (dk_files d)\<rparr>))"

definition disk_exists :: "disk \<Rightarrow> string \<Rightarrow> bool option" where
  "disk_exists d p = Some (p \<in> set (dk_refused d) \<or> map_of (dk_files d) p \<noteq> None)"

definition disk_port :: "disk fs_port" where
  "disk_port = \<lparr>read_bytes = disk_read, write_bytes = disk_write, remove_file = disk_remove,
                file_exists = disk_exists\<rparr>"

definition disk_contents :: "disk \<Rightarrow> string \<Rightarrow> string option" where
  "disk_contents d = map_of (dk_files d)"

interpretation on_disk: filesystem disk_port disk_contents
proof unfold_locales
  fix d p b
  assume "read_bytes disk_port d p = Some b"
  then show "b = disk_contents d p" by (auto simp: disk_port_def disk_read_def disk_contents_def split: if_splits)
next
  fix d p
  assume "file_exists disk_port d p = Some False"
  then show "disk_contents d p = None" by (auto simp: disk_port_def disk_exists_def disk_contents_def)
next
  fix d p x ok d'
  assume "write_bytes disk_port d p x = (ok, d')"
  then show "disk_contents d' = (if ok then (disk_contents d)(p \<mapsto> x) else disk_contents d)"
    by (auto simp: disk_port_def disk_write_def disk_contents_def split: if_splits)
next
  fix d p ok d'
  assume "remove_file disk_port d p = (ok, d')"
  then show "disk_contents d' = (if ok then (disk_contents d)(p := None) else disk_contents d)"
    by (auto simp: disk_port_def disk_remove_def disk_contents_def fun_eq_iff split: if_splits)
qed

end
