(* ===== verification/Rewind.thy ===== *)
theory Rewind
  imports Archive_Read Checkpointer File_Store
begin

text \<open>
  Rewinding a session (\<open>core/rewind/manager.py\<close>): the complete history a rewind starts from,
  and the transaction that truncates the conversation, persists it, drops the checkpoint turns
  and restores the files; and the recorder that drives the checkpoint turns
  (\<open>core/checkpoints/recorder.py\<close>).

  A session is the message list and the checkpoint log, with the flag the reset hook reads.
  The persistence callbacks are parameters: they end as a \<open>persisted\<close> value and may change
  the message list (a save may publish a trim, a fork installs a new system prompt).
\<close>

section \<open>The complete history\<close>

datatype rewind_error =
  StaleDescriptor int int | NoTranscript | NotHydrated archive_error | ValidationEscapes
  | TooFewSlots nat nat | IdMismatch string string
  | InvalidIndex int | NotAUserMessage int | NoSuchMessage string | SaveFailed | Cancelled

record history_source =
  hs_descriptor :: archived_prefix
  hs_transcript :: "string option list"

text \<open>\<open>ArchivedHistorySource.for_messages\<close>; the transcript path leads to the file's chunks.\<close>

definition for_messages ::
  "message_list \<Rightarrow> string option list option \<Rightarrow> rewind_error + history_source option" where
  "for_messages l transcript =
     (case ml_descriptor l of
        None \<Rightarrow> Inr None
      | Some d \<Rightarrow>
          (if ap_epoch d \<noteq> ml_epoch l then Inl (StaleDescriptor (ap_epoch d) (ml_epoch l))
           else case transcript of
                  None \<Rightarrow> Inl NoTranscript
                | Some chunks \<Rightarrow> Inr (Some \<lparr>hs_descriptor = d, hs_transcript = chunks\<rparr>)))"

text \<open>\<open>archived_history_for\<close>: the transcript is that of an enabled logger with a directory.\<close>

definition archived_history_for ::
  "message_list \<Rightarrow> bool \<Rightarrow> bool \<Rightarrow> string option list \<Rightarrow> rewind_error + history_source option" where
  "archived_history_for l enabled has_dir chunks =
     (if ml_descriptor l = None then Inr None
      else for_messages l (if enabled \<and> has_dir then Some chunks else None))"

text \<open>A record the message model refuses raises a \<open>ValidationError\<close>, which is not translated.\<close>

definition archived_messages :: "archive_env \<Rightarrow> history_source \<Rightarrow> rewind_error + llm_message list" where
  "archived_messages env src =
     (let chunks = archived_prefix_chunks (hs_transcript src) (ap_end_byte (hs_descriptor src))
      in if None \<in> set chunks then Inl (NotHydrated ReadFailed)
         else case hydrate_archived_messages env (hs_descriptor src) (concat (map the chunks)) of
                Inl InvalidRecord \<Rightarrow> Inl ValidationEscapes
              | Inl e \<Rightarrow> Inl (NotHydrated e)
              | Inr ms \<Rightarrow> Inr ms)"

fun put_hydrated :: "(nat \<times> llm_message) list \<Rightarrow> llm_message list \<Rightarrow> rewind_error + llm_message list" where
  "put_hydrated [] ms = Inr ms"
| "put_hydrated ((slot, hydrated) # ps) ms =
     (case (message_id (ms ! slot), message_id hydrated) of
        (Some a, Some b) \<Rightarrow> if a \<noteq> b then Inl (IdMismatch b a) else put_hydrated ps (ms[slot := hydrated])
      | _ \<Rightarrow> put_hydrated ps (ms[slot := hydrated]))"

definition complete_history ::
  "archive_env \<Rightarrow> message_list \<Rightarrow> history_source option \<Rightarrow> rewind_error + llm_message list" where
  "complete_history env l archive =
     (case archive of
        None \<Rightarrow> Inr (ml_data l)
      | Some src \<Rightarrow>
          (case archived_messages env src of
             Inl e \<Rightarrow> Inl e
           | Inr archived \<Rightarrow>
               (let slots = non_system_indexes (ml_data l)
                in if length slots < length archived then Inl (TooFewSlots (length archived) (length slots))
                   else put_hydrated (zip (take (length archived) slots) archived) (ml_data l))))"

section \<open>Targets\<close>

definition text_of :: "llm_message \<Rightarrow> string" where
  "text_of m = (case Messages.content m of None \<Rightarrow> [] | Some t \<Rightarrow> t)"

definition get_rewindable_messages ::
  "archive_env \<Rightarrow> message_list \<Rightarrow> history_source option \<Rightarrow> rewind_error + (nat \<times> string) list" where
  "get_rewindable_messages env l archive =
     (case complete_history env l archive of
        Inl e \<Rightarrow> Inl e
      | Inr ms \<Rightarrow> Inr (map (\<lambda>(i, m). (i, text_of m))
          (filter (\<lambda>(_, m). role_of m = User \<and> text_of m \<noteq> [] \<and> \<not> injected m) (enumerate 0 ms))))"

definition index_for_message_id ::
  "archive_env \<Rightarrow> message_list \<Rightarrow> string \<Rightarrow> history_source option \<Rightarrow> rewind_error + nat" where
  "index_for_message_id env l i archive =
     (case complete_history env l archive of
        Inl e \<Rightarrow> Inl e
      | Inr ms \<Rightarrow>
          (case first_index (\<lambda>m. role_of m = User \<and> \<not> injected m \<and> message_id m = Some i) ms of
             None \<Rightarrow> Inl (NoSuchMessage i)
           | Some k \<Rightarrow> Inr k))"

text \<open>\<open>None\<close>: reading a planned file raised.\<close>

definition restorable_paths_at ::
  "codecs \<Rightarrow> 'd fs_port \<Rightarrow> checkpointer \<Rightarrow> 'd \<Rightarrow> int \<Rightarrow> string list option" where
  "restorable_paths_at cd port log d t =
     (let evs = view cd [] log
      in if \<not> has_turn evs t then Some []
         else let plan = restore_plan_to_turn cd evs t
              in if list_all (\<lambda>(p, s). store_read port d p \<noteq> None) plan
                 then Some (map fst (filter (\<lambda>(p, s). store_read port d p \<noteq> Some s) plan))
                 else None)"

section \<open>The session\<close>

record session =
  se_messages :: message_list
  se_log :: checkpointer
  se_rewinding :: bool
  se_fences :: nat

text \<open>The reset hook of the manager.\<close>

definition on_messages_reset :: "session \<Rightarrow> session" where
  "on_messages_reset s =
     (if se_rewinding s then s
      else let was_open = (cp_open (se_log s) \<noteq> None); c = clear (se_log s)
           in s\<lparr>se_log := (if was_open
                           then (case begin_turn (int (length (ml_data (se_messages s)))) c of
                                   Inl _ \<Rightarrow> c | Inr c' \<Rightarrow> c')
                           else c)\<rparr>)"

definition session_reset :: "llm_message list \<Rightarrow> session \<Rightarrow> session" where
  "session_reset ms s = on_messages_reset (s\<lparr>se_messages := list_reset ms (se_messages s)\<rparr>)"

definition reset_messages :: "llm_message list \<Rightarrow> session \<Rightarrow> session" where
  "reset_messages ms s =
     (session_reset ms (s\<lparr>se_fences := Suc (se_fences s), se_rewinding := True\<rparr>))\<lparr>se_rewinding := False\<rparr>"

section \<open>The rewind\<close>

datatype persisted = Persisted | PersistFailed | PersistCancelled

text \<open>
  The callbacks: the save that precedes a fork, and what persists the truncated conversation
  (a save in place, or the reset into a new session).
\<close>

record callbacks =
  save_parent :: "message_list \<Rightarrow> persisted \<times> message_list"
  save_inplace :: "message_list \<Rightarrow> persisted \<times> message_list"
  reset_fork :: "message_list \<Rightarrow> persisted \<times> message_list"

record 'd rewound =
  rw_result :: "rewind_error + string \<times> string list \<times> string list"
  rw_session :: session
  rw_disk :: 'd

definition raised :: "persisted \<Rightarrow> rewind_error" where
  "raised r = (if r = PersistCancelled then Cancelled else SaveFailed)"

text \<open>The guards, in order: hydration, the index, the role.\<close>

definition rewind_target ::
  "archive_env \<Rightarrow> message_list \<Rightarrow> history_source option \<Rightarrow> int \<Rightarrow> rewind_error + llm_message list" where
  "rewind_target env l archive i =
     (case complete_history env l archive of
        Inl e \<Rightarrow> Inl e
      | Inr ms \<Rightarrow>
          (if i < 0 \<or> i \<ge> int (length ms) then Inl (InvalidIndex i)
           else if role_of (ms ! nat i) \<noteq> User then Inl (NotAUserMessage i)
           else Inr ms))"

text \<open>The atomic section, and the recovery when it raised: the hydrated history comes back.\<close>

definition truncate_and_persist ::
  "callbacks \<Rightarrow> bool \<Rightarrow> llm_message list \<Rightarrow> int \<Rightarrow> session \<Rightarrow> persisted \<times> session" where
  "truncate_and_persist cb inplace ms i s =
     (let s1 = reset_messages (take (nat i) ms) s
      in case (if inplace then save_inplace cb else reset_fork cb) (se_messages s1) of
           (r, l) \<Rightarrow>
             (let s2 = s1\<lparr>se_messages := l\<rparr>
              in case atomic (\<lambda>c. if r = Persisted then (True, drop_turns_from i c) else (False, c)) (se_log s2) of
                   (True, c) \<Rightarrow> (Persisted, s2\<lparr>se_log := c\<rparr>)
                 | (False, c) \<Rightarrow> (r, reset_messages ms (s2\<lparr>se_log := c\<rparr>))))"

definition rewind_to_message ::
  "archive_env \<Rightarrow> codecs \<Rightarrow> 'd fs_port \<Rightarrow> callbacks \<Rightarrow> int \<Rightarrow> bool \<Rightarrow> bool \<Rightarrow> history_source option \<Rightarrow>
     session \<Rightarrow> 'd \<Rightarrow> 'd rewound" where
  "rewind_to_message env cd port cb i restore_files inplace archive s d =
     (case rewind_target env (se_messages s) archive i of
        Inl e \<Rightarrow> \<lparr>rw_result = Inl e, rw_session = s, rw_disk = d\<rparr>
      | Inr ms \<Rightarrow>
          (let plan = (if restore_files then restore_plan_to_turn cd (view cd [] (se_log s)) i else [])
           in case (if inplace then (Persisted, se_messages s) else save_parent cb (se_messages s)) of
             (r0, l0) \<Rightarrow>
               (if r0 \<noteq> Persisted
                then \<lparr>rw_result = Inl (raised r0), rw_session = s\<lparr>se_messages := l0\<rparr>, rw_disk = d\<rparr>
                else case truncate_and_persist cb inplace ms i (s\<lparr>se_messages := l0\<rparr>) of
                  (r, s') \<Rightarrow>
                    (if r \<noteq> Persisted then \<lparr>rw_result = Inl (raised r), rw_session = s', rw_disk = d\<rparr>
                     else case apply_plan port plan d of
                       (errors, restored, d') \<Rightarrow>
                         \<lparr>rw_result = Inr (text_of (ms ! nat i), errors, restored),
                          rw_session = s', rw_disk = d'\<rparr>))))"

section \<open>The recorder\<close>

text \<open>
  \<open>CheckpointRecorder\<close>.  \<open>None\<close> is an exception that leaves the recorder: an open turn, or an
  unreadable carried file.
\<close>

fun record_all ::
  "codecs \<Rightarrow> 'd fs_port \<Rightarrow> 'd \<Rightarrow> string list \<Rightarrow> checkpointer \<Rightarrow> bool \<times> checkpointer" where
  "record_all cd port d [] c = (True, c)"
| "record_all cd port d (p # ps) c =
     (case store_read port d p of
        None \<Rightarrow> (False, c)
      | Some st \<Rightarrow> (case record_pre_edit cd p st c of
                     Inl _ \<Rightarrow> (False, c) | Inr c' \<Rightarrow> record_all cd port d ps c'))"

definition create_checkpoint ::
  "codecs \<Rightarrow> 'd fs_port \<Rightarrow> nat \<Rightarrow> 'd \<Rightarrow> checkpointer \<Rightarrow> bool \<times> checkpointer" where
  "create_checkpoint cd port n d c =
     (let carried = last_turn_paths (view cd [] c)
      in case begin_turn (int n) c of
           Inl _ \<Rightarrow> (False, c)
         | Inr c1 \<Rightarrow> record_all cd port d carried c1)"

fun record_posts :: "codecs \<Rightarrow> 'd fs_port \<Rightarrow> 'd \<Rightarrow> string list \<Rightarrow> checkpointer \<Rightarrow> bool \<times> checkpointer" where
  "record_posts cd port d [] c = (True, c)"
| "record_posts cd port d (p # ps) c =
     (case store_read port d p of
        None \<Rightarrow> record_posts cd port d ps c
      | Some st \<Rightarrow> (case record_post_edit cd p st c of
                     Inl _ \<Rightarrow> (False, c) | Inr c' \<Rightarrow> record_posts cd port d ps c'))"

definition recorder_seal_turn :: "codecs \<Rightarrow> 'd fs_port \<Rightarrow> 'd \<Rightarrow> checkpointer \<Rightarrow> bool \<times> checkpointer" where
  "recorder_seal_turn cd port d c =
     (case record_posts cd port d (last_turn_paths (view cd [] c)) c of (ok, c') \<Rightarrow> (ok, seal_turn cd c'))"

end
