(* ===== verification/Rewind_Props.thy ===== *)
theory Rewind_Props
  imports Rewind Archive_Props Archive_Read_Props Checkpoint_Props
begin

text \<open>
  What a rewind guarantees: the complete history undoes a published trim, a rewind that fails
  changes neither the disk nor the checkpoint log, and one that succeeds leaves the truncated
  conversation and the files of the turn it went back to.
\<close>

section \<open>Hydration undoes a trim\<close>

definition ids_agree :: "llm_message \<Rightarrow> llm_message \<Rightarrow> bool" where
  "ids_agree a b \<longleftrightarrow> message_id a = None \<or> message_id b = None \<or> message_id a = message_id b"

lemma put_hydrated_Cons:
  "put_hydrated ((slot, h) # ps) ms =
     (if ids_agree (ms ! slot) h then put_hydrated ps (ms[slot := h])
      else Inl (IdMismatch (the (message_id h)) (the (message_id (ms ! slot)))))"
  by (cases "message_id (ms ! slot)"; cases "message_id h"; simp add: ids_agree_def)

lemma put_hydrated_agree:
  assumes "distinct (map fst ps)" "\<And>i m. (i, m) \<in> set ps \<Longrightarrow> ids_agree (ms ! i) m"
  shows "put_hydrated ps ms = Inr (put_slots ps ms)"
  using assms
proof (induction ps arbitrary: ms)
  case (Cons p ps)
  obtain i m where p: "p = (i, m)" by (cases p)
  have "ids_agree (ms[i := m] ! j) n" if "(j, n) \<in> set ps" for j n
  proof -
    from that Cons.prems(1) p have "j \<noteq> i" by force
    with Cons.prems(2) that show ?thesis by simp
  qed
  with Cons p have "put_hydrated ps (ms[i := m]) = Inr (put_slots ps (ms[i := m]))" by simp
  with Cons.prems(2) [of i m] p show ?case by (simp add: put_hydrated_Cons del: put_hydrated.simps)
qed simp

section \<open>The transaction\<close>

lemma reset_messages_simps [simp]:
  "se_messages (reset_messages ms s) = list_reset ms (se_messages s)"
  "se_log (reset_messages ms s) = se_log s" "\<not> se_rewinding (reset_messages ms s)"
  by (simp_all add: reset_messages_def session_reset_def on_messages_reset_def)

lemma ml_data_reset [simp]: "ml_data (list_reset ms l) = ms"
  by (simp add: list_reset_def rebind_def)

definition same_log :: "checkpointer \<Rightarrow> checkpointer \<Rightarrow> bool" where
  "same_log c c' \<longleftrightarrow> cp_events c = cp_events c' \<and> cp_seq c = cp_seq c' \<and> cp_manual c = cp_manual c' \<and>
     cp_open c = cp_open c'"

lemma truncate_persisted:
  assumes "truncate_and_persist cb inplace ms i s = (Persisted, s')"
  shows "(if inplace then save_inplace cb else reset_fork cb) (list_reset (take (nat i) ms) (se_messages s)) =
      (Persisted, se_messages s') \<and> se_log s' = drop_turns_from i (se_log s) \<and> \<not> se_rewinding s'"
  using assms
  by (auto simp: truncate_and_persist_def Let_def atomic_def split: prod.splits if_splits bool.splits)

lemma truncate_failed:
  assumes "truncate_and_persist cb inplace ms i s = (r, s')" "r \<noteq> Persisted"
  shows "ml_data (se_messages s') = ms \<and> same_log (se_log s) (se_log s') \<and> \<not> se_rewinding s'"
  using assms
  by (auto simp: truncate_and_persist_def Let_def atomic_def same_log_def split: prod.splits if_splits bool.splits)

lemma plan_fold_distinct:
  "distinct (map fst plan) \<Longrightarrow>
   distinct (map fst (fold (\<lambda>(p, s) pl. if map_of pl p = None then pl @ [(p, s)] else pl) pre plan))"
proof (induction pre arbitrary: plan)
  case (Cons x pre)
  obtain p s where x: "x = (p, s)" by (rule prod.exhaust)
  have "distinct (map fst (if map_of plan p = None then plan @ [(p, s)] else plan))"
    using Cons.prems by (simp add: map_of_eq_None_iff)
  from Cons.IH [OF this] show ?case unfolding x fold_simps case_prod_conv .
qed simp

lemma plan_from_marks_distinct: "distinct (map fst plan) \<Longrightarrow> distinct (map fst (plan_from_marks evs plan))"
  by (induction evs plan rule: plan_from_marks.induct) (simp_all add: plan_fold_distinct)

lemma plan_from_edits_distinct:
  "distinct (map fst plan) \<Longrightarrow> distinct (map fst (plan_from_edits cd kept evs plan))"
  by (induction cd kept evs plan rule: plan_from_edits.induct) (auto simp: map_of_eq_None_iff)

lemma restore_plan_distinct: "distinct (map fst (restore_plan_to_turn cd evs t))"
  by (auto simp: restore_plan_to_turn_def restore_plan_def split: option.split
      intro!: plan_from_edits_distinct plan_from_marks_distinct)

section \<open>Properties\<close>

lemma filter_nth_indexes: "filter P xs = map ((!) xs) (filter (\<lambda>i. P (xs ! i)) [0 ..< length xs])"
proof -
  have "filter P (map ((!) xs) [0 ..< length xs]) = map ((!) xs) (filter (P \<circ> (!) xs) [0 ..< length xs])"
    by (rule filter_map)
  then show ?thesis by (simp add: map_nth o_def)
qed

text \<open>
  Hydration undoes a trim: if a trim replaced the sealed slots of a list by non-system
  messages, each with the id of the message it stands for or none, and the transcript still
  hydrates to the sealed messages, then the complete history is the list as it was before the
  trim.
\<close>

theorem history_undoes_trim:
  assumes pub: "publish_archive_trim d rs l = Inr l'"
    and sealed: "archived_messages env src =
      Inr (take (nat (ap_count d)) (filter (\<lambda>m. role_of m \<noteq> System) (ml_data l)))"
    and roles: "\<forall>m \<in> set rs. role_of m \<noteq> System"
    and ids: "list_all2 ids_agree rs (take (nat (ap_count d)) (filter (\<lambda>m. role_of m \<noteq> System) (ml_data l)))"
  shows "complete_history env l' (Some src) = Inr (ml_data l)"
proof -
  let ?ms = "ml_data l" and ?n = "nat (ap_count d)"
  let ?S = "take ?n (non_system_indexes ?ms)" and ?old = "take ?n (filter (\<lambda>m. role_of m \<noteq> System) ?ms)"
  have old: "?old = map ((!) ?ms) ?S"
    by (subst filter_nth_indexes) (simp add: non_system_indexes_def indexes_where_def take_map)
  note slot = publish_trim_slots [OF pub]
  have lo: "length ?old = length ?S" by (simp add: old)
  have idx: "non_system_indexes (ml_data l') = non_system_indexes ?ms"
  proof (rule role_system_same_indexes [OF slot(1)])
    fix j assume "j < length (ml_data l')"
    then have j: "j < length ?ms" by (simp add: slot(1))
    show "role_of (ml_data l' ! j) = System \<longleftrightarrow> role_of (?ms ! j) = System"
    proof (cases "j \<in> set ?S")
      case True
      then obtain k where k: "k < length ?S" "j = ?S ! k" by (metis in_set_conv_nth)
      with slot(2) have "rs ! k \<in> set rs" by simp
      with slot(8) [OF k(1)] k(2) roles have "role_of (ml_data l' ! j) \<noteq> System" by simp
      moreover from True have "role_of (?ms ! j) \<noteq> System" by (auto dest: in_set_takeD)
      ultimately show ?thesis by blast
    qed (simp add: slot(7) j)
  qed
  have take_slots: "take (length ?old) (non_system_indexes ?ms) = ?S"
    unfolding lo by (simp add: min_def)
  have "put_hydrated (zip ?S ?old) (ml_data l') = Inr (put_slots (zip ?S ?old) (ml_data l'))"
  proof (rule put_hydrated_agree)
    show "distinct (map fst (zip ?S ?old))" using lo by simp
    fix i m assume "(i, m) \<in> set (zip ?S ?old)"
    then obtain k where k: "k < length ?S" "i = ?S ! k" "m = ?old ! k" by (auto simp: set_zip)
    with slot(8) [OF k(1)] list_all2_nthD [OF ids, of k] slot(2) show "ids_agree (ml_data l' ! i) m" by simp
  qed
  moreover have "put_slots (zip ?S ?old) (ml_data l') = ?ms"
  proof (rule nth_equalityI)
    fix j assume "j < length (put_slots (zip ?S ?old) (ml_data l'))"
    then have j: "j < length (ml_data l')" by simp
    have "distinct (map fst (zip ?S ?old))" "\<forall>p \<in> set (zip ?S ?old). fst p < length (ml_data l')"
      using lo slot(1) by (auto dest!: set_zip_leftD in_set_takeD)
    from put_slots_nth [OF this j] show "put_slots (zip ?S ?old) (ml_data l') ! j = ?ms ! j"
      using slot(1) slot(7) [of j] j unfolding old map_of_zip_map by (auto split: if_splits)
  qed (simp add: slot(1))
  moreover have "length (non_system_indexes ?ms) \<ge> length ?old" unfolding lo by simp
  ultimately show ?thesis
    unfolding complete_history_def by (simp add: sealed idx take_slots Let_def not_less [symmetric] del: length_take)
qed

definition recall_env :: archive_env where
  "recall_env = \<lparr>json_loads = (\<lambda>l. Some (PDict [(PStr l, PNone)])),
     sha256_hex = (\<lambda>_. replicate 64 (CHR ''a'')),
     model_validate = (\<lambda>v. Some (if v = PDict [(PStr ''u'', PNone)] then plain_message 1 User
                              else plain_message 2 Assistant))\<rparr>"

definition recall_source :: history_source where
  "recall_source = \<lparr>hs_descriptor = trim_descriptor\<lparr>ap_end_byte := 4, ap_sha256 := replicate 64 (CHR ''a'')\<rparr>,
     hs_transcript = [Some (''u'' @ [NL] @ ''a''), Some ([NL] @ ''rest'')]\<rparr>"

lemma recalled: "archived_messages recall_env recall_source = Inr [plain_message 1 User, plain_message 2 Assistant]"
  by (simp add: archived_messages_def recall_env_def recall_source_def trim_descriptor_def NL_def Let_def
      hydrate_archived_messages_def read_archived_records_def iter_archived_records_def drain_lines.simps
      parse_record_line_def)

lemma recall_count [simp]: "ap_count (hs_descriptor recall_source) = 2"
  by (simp add: recall_source_def trim_descriptor_def)

theorem history_undoes_trim_witness:
  "\<exists>l'. publish_archive_trim (hs_descriptor recall_source) trim_replacements trim_list = Inr l' \<and>
     ml_data l' \<noteq> ml_data trim_list \<and>
     complete_history recall_env l' (Some recall_source) = Inr (ml_data trim_list)"
proof -
  let ?l = "trim_list\<lparr>ml_data := [plain_message 0 System] @ trim_replacements @ [boundary_message],
    ml_descriptor := Some (hs_descriptor recall_source)\<rparr>"
  have pub: "publish_archive_trim (hs_descriptor recall_source) trim_replacements trim_list = Inr ?l"
    by (simp add: publish_archive_trim_def trim_list_def trim_descriptor_def trim_replacements_def recall_source_def
        new_message_list_def non_system_indexes_def indexes_where_def plain_message_def boundary_message_def)
  have "complete_history recall_env ?l (Some recall_source) = Inr (ml_data trim_list)"
    by (rule history_undoes_trim [OF pub])
      (simp_all add: recalled trim_list_def new_message_list_def plain_message_def boundary_message_def
        trim_replacements_def ids_agree_def)
  with pub show ?thesis
    by (auto simp: trim_list_def new_message_list_def trim_replacements_def plain_message_def)
qed

text \<open>
  C37. A rewind is a transaction.  When it raises, the disk and the checkpoint log are as they
  were, and the list is untouched, or what the save before the fork left, or the complete
  history.  When it returns, the conversation persisted is the history before the target user
  message, whose text is returned, the log has dropped the turns from there on, and, if files
  were to be restored and none failed, every planned file has its planned content and no other
  file changed.
\<close>

theorem rewind_transaction:
  assumes "rewind_to_message env cd disk_port cb i restore_files inplace archive s d = rw"
  shows "case rw_result rw of
    Inl e \<Rightarrow> rw_disk rw = d \<and> same_log (se_log s) (se_log (rw_session rw)) \<and>
      (rw_session rw = s \<or> rw_session rw = s\<lparr>se_messages := snd (save_parent cb (se_messages s))\<rparr> \<or>
       complete_history env (se_messages s) archive = Inr (ml_data (se_messages (rw_session rw))))
  | Inr (text, errors, restored) \<Rightarrow>
      (\<exists>ms l. complete_history env (se_messages s) archive = Inr ms \<and> 0 \<le> i \<and> i < int (length ms) \<and>
         role_of (ms ! nat i) = User \<and> text = text_of (ms ! nat i) \<and>
         (if inplace then save_inplace cb else reset_fork cb) (list_reset (take (nat i) ms) l) =
           (Persisted, se_messages (rw_session rw))) \<and>
      se_log (rw_session rw) = drop_turns_from i (se_log s) \<and>
      (\<forall>path. disk_contents (rw_disk rw) path =
         (case (if restore_files then map_of (restore_plan_to_turn cd (cp_events (se_log s)) i) path else None) of
            None \<Rightarrow> disk_contents d path
          | Some st \<Rightarrow> if errors = [] \<or> path \<in> set restored then fs_data st else disk_contents d path))"
proof (cases "rewind_target env (se_messages s) archive i")
  case (Inl e)
  with assms show ?thesis by (auto simp: rewind_to_message_def same_log_def)
next
  case (Inr ms)
  then have hist: "complete_history env (se_messages s) archive = Inr ms" and i: "0 \<le> i" "i < int (length ms)"
    and role: "role_of (ms ! nat i) = User"
    by (auto simp: rewind_target_def split: sum.splits if_splits)
  obtain r0 l0 where parent: "(if inplace then (Persisted, se_messages s) else save_parent cb (se_messages s)) = (r0, l0)"
    by (cases "if inplace then (Persisted, se_messages s) else save_parent cb (se_messages s)")
  let ?plan = "if restore_files then restore_plan_to_turn cd (cp_events (se_log s)) i else []"
  have view: "view cd [] c = cp_events c" for c by (simp add: view_def split: option.split)
  show ?thesis
  proof (cases "r0 = Persisted")
    case False
    with assms Inr parent show ?thesis
      by (auto simp: rewind_to_message_def same_log_def split: if_splits)
  next
    case True
    obtain r s' where t: "truncate_and_persist cb inplace ms i (s\<lparr>se_messages := l0\<rparr>) = (r, s')"
      by (cases "truncate_and_persist cb inplace ms i (s\<lparr>se_messages := l0\<rparr>)")
    show ?thesis
    proof (cases "r = Persisted")
      case False
      with assms Inr parent True t truncate_failed [OF t False] hist show ?thesis
        by (auto simp: rewind_to_message_def)
    next
      case r: True
      obtain errors restored d' where a: "apply_plan disk_port ?plan d = (errors, restored, d')"
        by (cases "apply_plan disk_port ?plan d")
      have dist: "distinct (map fst ?plan)" by (simp add: restore_plan_distinct)
      note disk = on_disk.apply_plan_faithful [OF a dist]
      have "rw = \<lparr>rw_result = Inr (text_of (ms ! nat i), errors, restored), rw_session = s', rw_disk = d'\<rparr>"
        using assms Inr parent True t r a by (auto simp: rewind_to_message_def view Let_def split: if_splits)
      moreover have "disk_contents d' path = (case map_of ?plan path of None \<Rightarrow> disk_contents d path
          | Some st \<Rightarrow> if errors = [] \<or> path \<in> set restored then fs_data st else disk_contents d path)" for path
        using disk [of path] by (auto split: option.split)
      ultimately show ?thesis
        using hist i role truncate_persisted [OF t [unfolded r]] by (auto split: if_splits)
    qed
  qed
qed

definition quiet_callbacks :: callbacks where
  "quiet_callbacks = \<lparr>save_parent = Pair Persisted, save_inplace = Pair Persisted, reset_fork = Pair PersistFailed\<rparr>"

definition edited_session :: session where
  "edited_session = \<lparr>se_messages = new_message_list (Some [plain_message 0 System, plain_message 1 User,
      plain_message 2 Assistant]), se_log = reviewed_log, se_rewinding = False, se_fences = 0\<rparr>"

definition edited_disk :: disk where
  "edited_disk = \<lparr>dk_files = [(''f'', ''c'' @ nl)], dk_refused = []\<rparr>"

definition undone :: "disk rewound" where
  "undone = rewind_to_message recall_env latin1 disk_port quiet_callbacks 1 True True None edited_session edited_disk"

theorem rewind_transaction_witness:
  "\<exists>restored. rw_result undone = Inr ([], [], restored) \<and> disk_contents (rw_disk undone) ''f'' = Some (''a'' @ nl) \<and>
     se_log (rw_session undone) = drop_turns_from 1 reviewed_log"
proof -
  have "case rw_result undone of Inr (text, errors, restored) \<Rightarrow> text = [] \<and> errors = [] | Inl _ \<Rightarrow> False"
    by code_simp
  then obtain restored where r: "rw_result undone = Inr ([], [], restored)"
    by (auto split: sum.splits prod.splits)
  have "map_of (restore_plan_to_turn latin1 (cp_events reviewed_log) 1) ''f'' = Some (file_of (''a'' @ nl))"
    by code_simp
  with rewind_transaction [OF undone_def [symmetric]] r show ?thesis
    by (auto simp: edited_session_def file_of_def)
qed

end
