(* ===== verification/Failures.thy ===== *)
theory Failures
  imports Py_Value Complex_Main
begin

text \<open>
  Classification of failures (\<open>core/llm/failures.py\<close>).  Exceptions are objects with identity
  that refer to each other (\<open>__cause__\<close>, the members of a group), possibly in a cycle: a heap
  maps addresses to them.  An exception lists the classes it is an instance of, among those the
  classifier asks for.  Attributes that are read with \<open>getattr\<close> hold any Python value, \<open>PNone\<close>
  when they are missing.  \<open>json.loads\<close>, the lossy decoding of bytes, \<open>float\<close> of digits and the
  distance of a parsed date from the clock are the parameter \<open>py_lib\<close>.
\<close>

section \<open>Categories\<close>

datatype failure_category =
  Auth | Billing | Quota | Invalid_Request | Context_Size | Cancellation | Connection | Timeout
  | Server_Error | Overload | Rate_Limit | Conflict | Too_Early | Incomplete_Stream
  | Empty_Response | Unknown

definition retry_categories :: "failure_category set" where
  "retry_categories = {Connection, Timeout, Server_Error, Overload, Rate_Limit, Conflict, Too_Early}"

definition failover_categories :: "failure_category set" where
  "failover_categories = {Connection, Timeout, Server_Error, Overload, Rate_Limit}"

definition protected_categories :: "failure_category set" where
  "protected_categories = {Cancellation, Auth, Billing, Quota, Invalid_Request, Context_Size}"

record failure_info =
  fi_category :: failure_category
  fi_status :: "int option"
  fi_code :: "string option"
  fi_type :: "string option"
  fi_retry_after :: "rat option"

definition info_of :: "failure_category \<Rightarrow> failure_info" where
  "info_of c = \<lparr>fi_category = c, fi_status = None, fi_code = None, fi_type = None, fi_retry_after = None\<rparr>"

definition retry_eligible :: "failure_info \<Rightarrow> bool" where
  "retry_eligible i \<longleftrightarrow> fi_category i \<in> retry_categories"

definition failover_eligible :: "failure_info \<Rightarrow> bool" where
  "failover_eligible i \<longleftrightarrow> fi_category i \<in> failover_categories"

section \<open>The retry budget\<close>

record retry_budget =
  bu_max_elapsed :: rat
  bu_deadline :: rat

definition new_retry_budget :: "rat \<Rightarrow> rat option \<Rightarrow> rat \<Rightarrow> py_error + retry_budget" where
  "new_retry_budget max_elapsed started_at now =
     (if max_elapsed < 0 then Inl ValueErr
      else Inr \<lparr>bu_max_elapsed = max_elapsed,
                bu_deadline = (case started_at of None \<Rightarrow> now | Some t \<Rightarrow> t) + max_elapsed\<rparr>)"

definition remaining :: "rat \<Rightarrow> retry_budget \<Rightarrow> rat" where
  "remaining now b = max 0 (bu_deadline b - now)"

definition budget_exhausted :: "rat \<Rightarrow> retry_budget \<Rightarrow> bool" where
  "budget_exhausted now b \<longleftrightarrow> remaining now b \<le> 0"

definition allows_delay :: "rat \<Rightarrow> rat \<Rightarrow> retry_budget \<Rightarrow> bool" where
  "allows_delay now delay b \<longleftrightarrow> delay \<le> remaining now b"

section \<open>Exceptions\<close>

datatype exc_class =
  ContextTooLong | ToolPermission | Refusal | CancelledError | KeyboardInterrupt
  | HttpxTimeout | BuiltinTimeout | HttpxRequest

datatype body = BodyBytes string | BodyValue pyval

datatype py_number = Finite rat | NotFinite

text \<open>\<open>None\<close> in \<open>re_text\<close>: reading the response raised.  Headers are their \<open>retry-after\<close>, as text.\<close>

record response =
  re_status :: pyval
  re_text :: "string option"
  re_headers :: "string option"

record exc =
  ex_classes :: "exc_class list"
  ex_cause :: "nat option"
  ex_members :: "nat list"
  ex_status :: pyval
  ex_error_code :: pyval
  ex_error_type :: pyval
  ex_body :: body
  ex_response :: "response option"
  ex_raw_response :: "response option"
  ex_retry_after :: "py_number option"
  ex_headers :: "string option"
  ex_declared :: "failure_category option"
  ex_info :: "failure_info option"

record py_lib =
  loads :: "string \<Rightarrow> pyval option"
  decode_replace :: "string \<Rightarrow> string"
  float_of :: "string \<Rightarrow> rat option"
  date_delay :: "string \<Rightarrow> rat option"

type_synonym heap = "nat \<Rightarrow> exc"

definition isinstance :: "exc \<Rightarrow> exc_class list \<Rightarrow> bool" where
  "isinstance e cs \<longleftrightarrow> list_ex (\<lambda>c. c \<in> set (ex_classes e)) cs"

definition response_of :: "exc \<Rightarrow> response option" where
  "response_of e = (case ex_response e of None \<Rightarrow> ex_raw_response e | Some r \<Rightarrow> Some r)"

section \<open>Text\<close>

text \<open>\<open>str.strip\<close> and \<open>str.casefold\<close> on Latin-1 characters.\<close>

definition is_space :: "char \<Rightarrow> bool" where
  "is_space c \<longleftrightarrow> (let n = (of_char c :: nat) in n \<in> {9, 10, 11, 12, 13, 28, 29, 30, 31, 32, 133, 160})"

definition py_strip :: "string \<Rightarrow> string" where
  "py_strip s = rev (dropWhile is_space (rev (dropWhile is_space s)))"

definition fold_char :: "char \<Rightarrow> string" where
  "fold_char c =
     (let n = (of_char c :: nat)
      in if (65 \<le> n \<and> n \<le> 90) \<or> (192 \<le> n \<and> n \<le> 222 \<and> n \<noteq> 215) then [char_of (n + 32)]
         else if n = 223 then ''ss''
         else [c])"

definition casefold :: "string \<Rightarrow> string" where
  "casefold s = concat (map fold_char s)"

definition is_digit :: "char \<Rightarrow> bool" where
  "is_digit c \<longleftrightarrow> 48 \<le> (of_char c :: nat) \<and> (of_char c :: nat) \<le> 57"

section \<open>Reading an exception\<close>

definition text_value :: "pyval \<Rightarrow> string option" where
  "text_value v = (case v of PStr s \<Rightarrow> if s = [] then None else Some s | _ \<Rightarrow> None)"

definition int_value :: "pyval \<Rightarrow> int option" where
  "int_value v = (case v of PInt n \<Rightarrow> Some n | PBool b \<Rightarrow> Some (of_bool b) | _ \<Rightarrow> None)"

definition body_truthy :: "body \<Rightarrow> bool" where
  "body_truthy b = (case b of BodyBytes s \<Rightarrow> s \<noteq> [] | BodyValue v \<Rightarrow> py_truthy v)"

definition body_data :: "py_lib \<Rightarrow> body \<Rightarrow> pyval" where
  "body_data lib b =
     (case (case b of BodyBytes s \<Rightarrow> PStr (decode_replace lib s) | BodyValue v \<Rightarrow> v) of
        PDict d \<Rightarrow> PDict d
      | PStr s \<Rightarrow> (if s = [] then PDict []
                   else case loads lib s of None \<Rightarrow> PDict [] | Some v \<Rightarrow> v)
      | _ \<Rightarrow> PDict [])"

definition structured_error :: "py_lib \<Rightarrow> exc \<Rightarrow> string option \<times> string option" where
  "structured_error lib e =
     (let code = text_value (ex_error_code e); typ = text_value (ex_error_type e);
          b = (if \<not> body_truthy (ex_body e)
               then (case response_of e of
                       None \<Rightarrow> ex_body e
                     | Some r \<Rightarrow> BodyValue (case re_text r of None \<Rightarrow> PNone | Some t \<Rightarrow> PStr t))
               else ex_body e);
          detail = (case body_data lib b of PDict d \<Rightarrow> py_get d ''error'' (PDict d) | _ \<Rightarrow> PDict [])
      in case detail of
           PDict d \<Rightarrow>
             ((case code of None \<Rightarrow> text_value (py_get d ''code'' PNone) | Some c \<Rightarrow> Some c),
              (case typ of None \<Rightarrow> text_value (py_get d ''type'' PNone) | Some t \<Rightarrow> Some t))
         | _ \<Rightarrow> (code, typ))"

definition status_of :: "exc \<Rightarrow> int option" where
  "status_of e =
     (case int_value (ex_status e) of
        Some n \<Rightarrow> Some n
      | None \<Rightarrow> (case response_of e of None \<Rightarrow> None | Some r \<Rightarrow> int_value (re_status r)))"

definition retry_after_of :: "py_lib \<Rightarrow> exc \<Rightarrow> rat option" where
  "retry_after_of lib e =
     (case ex_retry_after e of
        Some (Finite t) \<Rightarrow> if t \<ge> 0 then Some t else None
      | Some NotFinite \<Rightarrow> None
      | None \<Rightarrow>
          (case (case ex_headers e of
                   Some h \<Rightarrow> Some h
                 | None \<Rightarrow> (case response_of e of None \<Rightarrow> None | Some r \<Rightarrow> re_headers r)) of
             None \<Rightarrow> None
           | Some raw \<Rightarrow>
               (let v = py_strip raw
                in if v \<noteq> [] \<and> list_all is_digit v then float_of lib v
                   else if v = [] then None
                   else map_option (max 0) (date_delay lib v))))"

section \<open>One exception\<close>

definition local_hard_stop :: "exc \<Rightarrow> failure_category option" where
  "local_hard_stop e =
     (if isinstance e [ContextTooLong] then Some Context_Size
      else if isinstance e [ToolPermission] then Some Auth else None)"

definition error_token :: "string option \<Rightarrow> string option \<Rightarrow> string" where
  "error_token code typ =
     map (\<lambda>c. if c = CHR ''-'' then CHR ''_'' else c)
       (casefold (case (code, typ) of
          (Some c, Some t) \<Rightarrow> c @ '' '' @ t | (Some c, None) \<Rightarrow> c | (None, Some t) \<Rightarrow> t | (None, None) \<Rightarrow> []))"

definition mentions :: "string \<Rightarrow> string list \<Rightarrow> bool" where
  "mentions token parts \<longleftrightarrow> list_ex (\<lambda>p. is_infix p token) parts"

text \<open>The ladder below the structured codes, on the HTTP status and the shape of the exception.\<close>

definition status_category :: "exc \<Rightarrow> int option \<Rightarrow> string \<Rightarrow> failure_category" where
  "status_category e status token =
     (let st = (\<lambda>n. status = Some n)
      in if st 401 \<or> st 403 then Auth
         else if st 402 then Billing
         else if st 400 \<or> st 404 \<or> st 405 \<or> st 422 then Invalid_Request
         else if st 408 \<or> isinstance e [HttpxTimeout, BuiltinTimeout] then Timeout
         else if st 409 then Conflict
         else if st 425 then Too_Early
         else if st 429
         then (if mentions token [''rate_limit'', ''too_many_requests'', ''overload''] then Rate_Limit else Unknown)
         else if (case status of None \<Rightarrow> False | Some n \<Rightarrow> n \<ge> 500)
         then (if st 503 \<or> st 529 \<or> mentions token [''overload''] then Overload else Server_Error)
         else if isinstance e [HttpxRequest] then Connection
         else Unknown)"

definition category_of :: "exc \<Rightarrow> int option \<Rightarrow> string \<Rightarrow> failure_category" where
  "category_of e status token =
     (case local_hard_stop e of
        Some c \<Rightarrow> c
      | None \<Rightarrow>
          (if mentions token [''authentication'', ''invalid_api_key'', ''unauthorized'', ''auth_error''] then Auth
           else if mentions token [''billing'', ''payment_required'', ''insufficient_funds'', ''credit_balance'']
           then Billing
           else if mentions token [''insufficient_quota'', ''quota_exceeded'', ''billing_hard_limit'', ''usage_limit'']
           then Quota
           else if mentions token [''context_length'', ''context_size'', ''model_context_exceeded'', ''prompt_too_long'']
           then Context_Size
           else if mentions token [''invalid_request'', ''validation_error'', ''bad_request''] then Invalid_Request
           else if mentions token [''cancelled'', ''canceled'', ''cancellation''] then Cancellation
           else if isinstance e [CancelledError, KeyboardInterrupt] then Cancellation
           else case ex_declared e of Some c \<Rightarrow> c | None \<Rightarrow> status_category e status token))"

definition classify_single :: "py_lib \<Rightarrow> exc \<Rightarrow> failure_info" where
  "classify_single lib e =
     (case structured_error lib e of (code, typ) \<Rightarrow>
        \<lparr>fi_category = category_of e (status_of e) (error_token code typ),
         fi_status = status_of e, fi_code = code, fi_type = typ, fi_retry_after = retry_after_of lib e\<rparr>)"

section \<open>The cause graph\<close>

definition max_failure_walk :: nat where
  "max_failure_walk = 8"

definition successors :: "exc \<Rightarrow> nat list" where
  "successors e = (case ex_cause e of None \<Rightarrow> [] | Some c \<Rightarrow> [c]) @ ex_members e"

text \<open>\<open>room\<close> is what the depth bound leaves; the flag says that candidates were left over.\<close>

fun walk_from :: "heap \<Rightarrow> nat \<Rightarrow> nat list \<Rightarrow> nat list \<Rightarrow> nat list \<times> bool" where
  "walk_from h room seen pending =
     (case dropWhile (\<lambda>a. a \<in> set seen) pending of
        [] \<Rightarrow> ([], False)
      | current # rest \<Rightarrow>
          (case room of
             0 \<Rightarrow> ([], True)
           | Suc room' \<Rightarrow>
               (case walk_from h room' (current # seen) (rest @ successors (h current)) of
                  (ordered, truncated) \<Rightarrow> (current # ordered, truncated))))"

declare walk_from.simps [simp del]

definition walk_failures :: "heap \<Rightarrow> nat \<Rightarrow> nat list \<times> bool" where
  "walk_failures h a = walk_from h max_failure_walk [] [a]"

text \<open>The loop over the members: a dominating one ends it, else the first known one is kept.\<close>

fun scan_members :: "py_lib \<Rightarrow> heap \<Rightarrow> nat list \<Rightarrow> failure_info option \<Rightarrow> failure_info + failure_info option" where
  "scan_members lib h [] inherited = Inr inherited"
| "scan_members lib h (m # ms) inherited =
     (let i = classify_single lib (h m)
      in if fi_category i = Unknown
         then (if isinstance (h m) [Refusal] then Inl i else scan_members lib h ms inherited)
         else if fi_category i \<in> protected_categories then Inl i
         else scan_members lib h ms (case inherited of None \<Rightarrow> Some i | Some j \<Rightarrow> Some j))"

definition classify_failure_fresh :: "py_lib \<Rightarrow> heap \<Rightarrow> nat \<Rightarrow> failure_info" where
  "classify_failure_fresh lib h a =
     (case walk_failures h a of (members, truncated) \<Rightarrow>
        (case scan_members lib h members None of
           Inl i \<Rightarrow> i
         | Inr inherited \<Rightarrow>
             (if truncated then info_of Unknown
              else case inherited of Some i \<Rightarrow> i | None \<Rightarrow> classify_single lib (h a))))"

definition classify_failure :: "py_lib \<Rightarrow> heap \<Rightarrow> nat \<Rightarrow> failure_info" where
  "classify_failure lib h a = (case ex_info (h a) of Some i \<Rightarrow> i | None \<Rightarrow> classify_failure_fresh lib h a)"

end
