(* ===== verification/Endpoint.thy ===== *)
theory Endpoint
  imports Failures
begin

text \<open>
  The canonical endpoint identity (\<open>canonical_endpoint_identity\<close> of \<open>core/recovery_models.py\<close>),
  with the part of \<open>urllib.parse.urlsplit\<close> it reads.  The further checks of \<open>urlsplit\<close> on the
  network location (the address in brackets, normalised characters) are the parameter \<open>netloc_ok\<close>.
\<close>

section \<open>Cutting strings\<close>

text \<open>\<open>str.partition\<close> and \<open>str.rpartition\<close> at a character.\<close>

definition before_char :: "char \<Rightarrow> string \<Rightarrow> string" where
  "before_char c s = takeWhile (\<lambda>x. x \<noteq> c) s"

definition after_char :: "char \<Rightarrow> string \<Rightarrow> string" where
  "after_char c s = drop 1 (dropWhile (\<lambda>x. x \<noteq> c) s)"

definition after_last :: "char \<Rightarrow> string \<Rightarrow> string" where
  "after_last c s = rev (takeWhile (\<lambda>x. x \<noteq> c) (rev s))"

definition lower_char :: "char \<Rightarrow> char" where
  "lower_char c =
     (let n = (of_char c :: nat)
      in if (65 \<le> n \<and> n \<le> 90) \<or> (192 \<le> n \<and> n \<le> 222 \<and> n \<noteq> 215) then char_of (n + 32) else c)"

definition py_lower :: "string \<Rightarrow> string" where
  "py_lower s = map lower_char s"

definition decimal_value :: "string \<Rightarrow> nat" where
  "decimal_value s = foldl (\<lambda>n c. 10 * n + (of_char c - 48)) 0 s"

section \<open>Splitting a URL\<close>

definition is_letter :: "char \<Rightarrow> bool" where
  "is_letter c \<longleftrightarrow> (let n = (of_char c :: nat) in (65 \<le> n \<and> n \<le> 90) \<or> (97 \<le> n \<and> n \<le> 122))"

definition is_scheme_char :: "char \<Rightarrow> bool" where
  "is_scheme_char c \<longleftrightarrow> is_letter c \<or> is_digit c \<or> c \<in> set ''+-.''"

definition cleaned :: "string \<Rightarrow> string" where
  "cleaned s = filter (\<lambda>c. (of_char c :: nat) \<notin> {9, 10, 13}) (dropWhile (\<lambda>c. (of_char c :: nat) \<le> 32) s)"

definition split_scheme :: "string \<Rightarrow> string \<times> string" where
  "split_scheme url =
     (let s = before_char (CHR '':'') url
      in if CHR '':'' \<in> set url \<and> s \<noteq> [] \<and> is_letter (hd s) \<and> list_all is_scheme_char s
         then (py_lower s, after_char (CHR '':'') url) else ([], url))"

definition netloc_of :: "string \<Rightarrow> string" where
  "netloc_of rest =
     (if take 2 rest = ''//'' then takeWhile (\<lambda>c. c \<notin> set ''/?#'') (drop 2 rest) else [])"

text \<open>Scheme and network location; \<open>None\<close> is a \<open>ValueError\<close>.\<close>

definition urlsplit :: "(string \<Rightarrow> bool) \<Rightarrow> string \<Rightarrow> (string \<times> string) option" where
  "urlsplit netloc_ok url =
     (case split_scheme (cleaned url) of (scheme, rest) \<Rightarrow>
        (let n = netloc_of rest
         in if (CHR ''['' \<in> set n) \<noteq> (CHR '']'' \<in> set n) \<or> \<not> netloc_ok n then None
            else Some (scheme, n)))"

definition hostinfo :: "string \<Rightarrow> string \<times> string" where
  "hostinfo netloc =
     (let h = after_last (CHR ''@'') netloc
      in if CHR ''['' \<in> set h
         then (let b = after_char (CHR ''['') h
               in (before_char (CHR '']'') b, after_char (CHR '':'') (after_char (CHR '']'') b)))
         else (before_char (CHR '':'') h, after_char (CHR '':'') h))"

text \<open>\<open>SplitResult.port\<close>: \<open>None\<close> is a \<open>ValueError\<close>, \<open>Some None\<close> no port.\<close>

definition port_of :: "string \<Rightarrow> nat option option" where
  "port_of netloc =
     (let p = snd (hostinfo netloc)
      in if p = [] then Some None
         else if list_all is_digit p \<and> decimal_value p \<le> 65535 then Some (Some (decimal_value p))
         else None)"

definition hostname_of :: "string \<Rightarrow> string" where
  "hostname_of netloc =
     (let h = fst (hostinfo netloc)
      in py_lower (before_char (CHR ''%'') h) @ dropWhile (\<lambda>c. c \<noteq> CHR ''%'') h)"

section \<open>The identity\<close>

definition default_port :: "string \<Rightarrow> nat option" where
  "default_port scheme =
     (if scheme = ''https'' then Some 443 else if scheme = ''http'' then Some 80 else None)"

definition canonical_endpoint_identity :: "(string \<Rightarrow> bool) \<Rightarrow> string option \<Rightarrow> string option" where
  "canonical_endpoint_identity netloc_ok endpoint =
     (case endpoint of
        None \<Rightarrow> None
      | Some e \<Rightarrow>
          (if e = [] then None
           else case urlsplit netloc_ok (py_strip e) of
             None \<Rightarrow> None
           | Some (scheme, netloc) \<Rightarrow>
               (if netloc = [] then None
                else case port_of netloc of
                  None \<Rightarrow> None
                | Some port \<Rightarrow>
                    (let h = py_lower (hostname_of netloc);
                         host = (if CHR '':'' \<in> set h then ''['' @ h @ '']'' else h)
                     in if h = [] then None
                        else case port of
                          None \<Rightarrow> Some host
                        | Some p \<Rightarrow>
                            (if default_port scheme = Some p then Some host
                             else Some (host @ '':'' @ show_nat p))))))"

text \<open>
  \<open>_endpoint_identity\<close> of \<open>core/recovery_policy.py\<close>: what has no canonical identity falls back to
  its own text.
\<close>

definition endpoint_identity :: "(string \<Rightarrow> bool) \<Rightarrow> string option \<Rightarrow> string option" where
  "endpoint_identity netloc_ok endpoint =
     (case endpoint of
        None \<Rightarrow> None
      | Some e \<Rightarrow>
          (case canonical_endpoint_identity netloc_ok (Some e) of
             Some i \<Rightarrow> Some i
           | None \<Rightarrow> (let t = py_lower (py_strip e) in if t = [] then None else Some t)))"

end
