(* ===== verification/Recovery_Models.thy ===== *)
theory Recovery_Models
  imports Endpoint Completion
begin

text \<open>
  The typed failure envelope (\<open>core/recovery_models.py\<close>) and the observation it is built from
  (\<open>core/recovery_observation.py\<close>).  Times and prices are rationals; the clocks, fresh ids and
  the redaction of secrets (\<open>None\<close> when it raises) are arguments.
\<close>

section \<open>Vocabulary\<close>

datatype failure_class =
  Provider_Stall | Provider_Overloaded | Provider_Rate_Limit | Launch_Failure | Preflight | Task_Failure
  | Cancelled_Run | Authorization | Permanent_Config | Budget_Stop | Completion_Rejection
  | Class_Incomplete_Stream | Class_Empty_Response | Class_Unknown | Internal

datatype failure_phase = Admission_Phase | Init | Llm_Call | Tool_Phase | Finalize | Monitor | Unknown_Phase
datatype confidence = Measured | Signature
datatype progress_state = No_Progress | Checkpointed | Uncheckpointed | Uncertain
datatype tool_effects = Effects_Settled | Effects_Unresolved | Effects_Unknown
datatype eligibility = Eligible | Reconcile_Required | Prohibited
datatype package_tier = Tier_Mechanical | Tier_Substantive
datatype exhaustion = Deadline | Attempts | Nonretryable | Exhaustion_Unknown
datatype measured_timeout = Resume_Progress_Deadline

fun class_value :: "failure_class \<Rightarrow> string" where
  "class_value Provider_Stall = ''provider_stall''"
| "class_value Provider_Overloaded = ''provider_overloaded''"
| "class_value Provider_Rate_Limit = ''provider_rate_limit''"
| "class_value Launch_Failure = ''launch_failure''"
| "class_value Preflight = ''preflight''"
| "class_value Task_Failure = ''task''"
| "class_value Cancelled_Run = ''cancellation''"
| "class_value Authorization = ''authorization''"
| "class_value Permanent_Config = ''permanent_config''"
| "class_value Budget_Stop = ''budget_stop''"
| "class_value Completion_Rejection = ''completion_rejection''"
| "class_value Class_Incomplete_Stream = ''incomplete_stream''"
| "class_value Class_Empty_Response = ''empty_response''"
| "class_value Class_Unknown = ''unknown''"
| "class_value Internal = ''internal''"

fun phase_value :: "failure_phase \<Rightarrow> string" where
  "phase_value Admission_Phase = ''admission''"
| "phase_value Init = ''init''"
| "phase_value Llm_Call = ''llm_call''"
| "phase_value Tool_Phase = ''tool''"
| "phase_value Finalize = ''finalize''"
| "phase_value Monitor = ''monitor''"
| "phase_value Unknown_Phase = ''unknown''"

fun category_value :: "failure_category \<Rightarrow> string" where
  "category_value Auth = ''auth''"
| "category_value Billing = ''billing''"
| "category_value Quota = ''quota''"
| "category_value Invalid_Request = ''invalid_request''"
| "category_value Context_Size = ''context_size''"
| "category_value Cancellation = ''cancellation''"
| "category_value Connection = ''connection''"
| "category_value Failures.Timeout = ''timeout''"
| "category_value Server_Error = ''server_error''"
| "category_value Overload = ''overload''"
| "category_value Rate_Limit = ''rate_limit''"
| "category_value Conflict = ''conflict''"
| "category_value Too_Early = ''too_early''"
| "category_value Incomplete_Stream = ''incomplete_stream''"
| "category_value Empty_Response = ''empty_response''"
| "category_value Unknown = ''unknown''"

fun exhaustion_value :: "exhaustion \<Rightarrow> string" where
  "exhaustion_value Deadline = ''deadline''"
| "exhaustion_value Attempts = ''attempts''"
| "exhaustion_value Nonretryable = ''nonretryable''"
| "exhaustion_value Exhaustion_Unknown = ''unknown''"

fun effects_value :: "tool_effects \<Rightarrow> string" where
  "effects_value Effects_Settled = ''settled''"
| "effects_value Effects_Unresolved = ''unresolved''"
| "effects_value Effects_Unknown = ''unknown''"

fun tier_value :: "package_tier \<Rightarrow> string" where
  "tier_value Tier_Mechanical = ''mechanical''"
| "tier_value Tier_Substantive = ''substantive''"

fun timeout_value :: "measured_timeout \<Rightarrow> string" where
  "timeout_value Resume_Progress_Deadline = ''resume_progress_deadline''"

fun rejection_value :: "rejection_reason \<Rightarrow> string" where
  "rejection_value Envelope_Malformed = ''envelope_malformed''"
| "rejection_value Envelope_Duplicate = ''envelope_duplicate''"
| "rejection_value Envelope_Unknown_Field = ''envelope_unknown_field''"
| "rejection_value Envelope_Oversized = ''envelope_oversized''"
| "rejection_value Requirement_Id_Unknown = ''requirement_id_unknown''"
| "rejection_value Requirement_Id_Duplicate = ''requirement_id_duplicate''"
| "rejection_value Receipt_Unverifiable = ''receipt_unverifiable''"
| "rejection_value Reject_Contradicted = ''claim_contradicted''"

definition protected_classes :: "failure_class set" where
  "protected_classes = {Preflight, Cancelled_Run, Authorization, Permanent_Config, Budget_Stop, Task_Failure}"

definition transient_classes :: "failure_class set" where
  "transient_classes = {Provider_Stall, Provider_Overloaded, Provider_Rate_Limit, Launch_Failure,
     Class_Incomplete_Stream, Class_Empty_Response}"

definition classification_version :: string where
  "classification_version = ''v0.5.6-wp1''"

definition max_evidence_codes :: nat where "max_evidence_codes = 32"
definition max_message_chars :: nat where "max_message_chars = 500"
definition max_request_id_chars :: nat where "max_request_id_chars = 128"
definition max_fingerprint_code_chars :: nat where "max_fingerprint_code_chars = 64"

section \<open>Measured evidence\<close>

record call_evidence =
  ce_call_id :: string
  ce_started_at :: rat
  ce_budget_seconds :: "rat option"
  ce_response_started :: "bool option"
  ce_semantic :: "bool option"
  ce_transport :: "int option"
  ce_elapsed :: "rat option"
  ce_budget_exhausted :: "bool option"
  ce_before :: "int option"
  ce_has_backend :: bool

text \<open>The attribute \<open>transport_attempts\<close> of a backend; \<open>PNone\<close> when it has none.\<close>

definition backend_transport_attempts :: "pyval \<Rightarrow> int option" where
  "backend_transport_attempts attr = (case attr of PInt n \<Rightarrow> Some n | _ \<Rightarrow> None)"

definition evidence_start :: "string \<Rightarrow> rat \<Rightarrow> pyval option \<Rightarrow> rat option \<Rightarrow> call_evidence" where
  "evidence_start call_id now backend budget =
     \<lparr>ce_call_id = call_id, ce_started_at = now, ce_budget_seconds = budget, ce_response_started = None,
      ce_semantic = None, ce_transport = None, ce_elapsed = None, ce_budget_exhausted = None,
      ce_before = (case backend of None \<Rightarrow> None | Some a \<Rightarrow> backend_transport_attempts a),
      ce_has_backend = (backend \<noteq> None)\<rparr>"

definition evidence_admission_phase :: "string \<Rightarrow> rat \<Rightarrow> call_evidence" where
  "evidence_admission_phase call_id now =
     (evidence_start call_id now None None)\<lparr>ce_transport := Some 0\<rparr>"

definition evidence_finish :: "rat \<Rightarrow> pyval \<Rightarrow> bool option \<Rightarrow> call_evidence \<Rightarrow> call_evidence" where
  "evidence_finish now attr exhausted ce =
     ce\<lparr>ce_elapsed := Some (max 0 (now - ce_started_at ce)),
        ce_transport :=
          (case (ce_has_backend ce, ce_before ce, backend_transport_attempts attr) of
             (True, Some before, Some after) \<Rightarrow> Some (max 0 (after - before))
           | _ \<Rightarrow> ce_transport ce),
        ce_budget_exhausted := exhausted\<rparr>"

type_synonym deployment_id = "string \<times> string \<times> string"

section \<open>Observation\<close>

text \<open>
  An exception as the observation reads it: beside what the classifier reads, its type name, its
  text (\<open>None\<close> when \<open>str\<close> raises), and the attributes the coordinator attaches.
\<close>

record observed_exc = exc +
  oe_name :: string
  oe_text :: "string option"
  oe_endpoint :: pyval
  oe_request_id :: pyval
  oe_request_headers :: "(string \<times> pyval) list option"
  oe_evidence :: "call_evidence option"
  oe_deployment :: "deployment_id option"
  oe_settable :: bool

type_synonym observed_heap = "nat \<Rightarrow> observed_exc"

text \<open>\<open>attach_call_evidence\<close> and \<open>attach_attempted_deployment\<close>: the first measurement stays.\<close>

definition attach_call_evidence :: "call_evidence \<Rightarrow> observed_exc \<Rightarrow> observed_exc" where
  "attach_call_evidence ce e =
     (if oe_evidence e \<noteq> None \<or> \<not> oe_settable e then e else e\<lparr>oe_evidence := Some ce\<rparr>)"

definition attach_attempted_deployment :: "deployment_id \<Rightarrow> observed_exc \<Rightarrow> observed_exc" where
  "attach_attempted_deployment d e =
     (if oe_deployment e \<noteq> None \<or> \<not> oe_settable e then e else e\<lparr>oe_deployment := Some d\<rparr>)"

record observation =
  ob_exception_type :: string
  ob_message :: string
  ob_phase :: string
  ob_causes :: "(string \<times> string) list"
  ob_classification :: "failure_info option"
  ob_observed_at :: rat
  ob_turn_id :: "string option"
  ob_agent_id :: "string option"
  ob_run_id :: "string option"
  ob_request_id :: "string option"
  ob_endpoint :: "string option"
  ob_status :: "int option"
  ob_error_code :: "string option"
  ob_error_type :: "string option"
  ob_evidence :: "call_evidence option"
  ob_deployment :: "deployment_id option"

text \<open>The truncation mark is an ellipsis (in UTF-8) and a word.\<close>

definition truncation_mark :: string where
  "truncation_mark = [char_of (226 :: nat), char_of (128 :: nat), char_of (166 :: nat)] @ ''[truncated]''"

definition bounded_message :: "(string \<Rightarrow> string option) \<Rightarrow> observed_exc \<Rightarrow> string" where
  "bounded_message redact e =
     (let t = (case oe_text e of None \<Rightarrow> [] | Some s \<Rightarrow> py_strip s)
      in case redact (if t = [] then oe_name e else t) of
           None \<Rightarrow> ''[REDACTED]''
         | Some r \<Rightarrow> if length r > max_message_chars then take max_message_chars r @ truncation_mark else r)"

text \<open>\<open>_walk_causes\<close>: \<open>room\<close> more links may be followed.\<close>

fun walk_causes :: "observed_heap \<Rightarrow> nat \<Rightarrow> nat list \<Rightarrow> nat option \<Rightarrow> nat list" where
  "walk_causes h 0 seen c = []"
| "walk_causes h (Suc room) seen None = []"
| "walk_causes h (Suc room) seen (Some c) =
     (if c \<in> set seen then [] else c # walk_causes h room (c # seen) (ex_cause (h c)))"

definition cause_chain :: "observed_heap \<Rightarrow> nat \<Rightarrow> observed_exc list" where
  "cause_chain h a = map h (a # walk_causes h 7 [a] (ex_cause (h a)))"

definition first_some :: "('a \<Rightarrow> 'b option) \<Rightarrow> 'a list \<Rightarrow> 'b option" where
  "first_some f xs = (case dropWhile (\<lambda>x. f x = None) xs of [] \<Rightarrow> None | x # _ \<Rightarrow> f x)"

definition header_id :: "observed_exc \<Rightarrow> string option" where
  "header_id e =
     (case oe_request_headers e of
        None \<Rightarrow> None
      | Some hs \<Rightarrow>
          first_some (\<lambda>k. case map_of hs k of None \<Rightarrow> None | Some v \<Rightarrow> text_value v) [''x-request-id'', ''request-id''])"

definition extract_request_id :: "observed_exc list \<Rightarrow> string option" where
  "extract_request_id chain =
     (case first_some header_id chain of
        Some r \<Rightarrow> Some r
      | None \<Rightarrow> first_some (\<lambda>e. text_value (oe_request_id e)) chain)"

definition extract_status :: "observed_exc list \<Rightarrow> int option" where
  "extract_status chain = first_some (\<lambda>e. case ex_status e of PInt n \<Rightarrow> Some n | _ \<Rightarrow> None) chain"

definition observe_exception ::
  "py_lib \<Rightarrow> (string \<Rightarrow> string option) \<Rightarrow> observed_heap \<Rightarrow> nat \<Rightarrow> string \<Rightarrow> string option \<Rightarrow> string option \<Rightarrow>
     string option \<Rightarrow> rat \<Rightarrow> observation" where
  "observe_exception lib redact h a phase turn agent run now =
     (let chain = cause_chain h a
      in \<lparr>ob_exception_type = oe_name (h a), ob_message = bounded_message redact (h a), ob_phase = phase,
          ob_causes = map (\<lambda>e. (oe_name e, bounded_message redact e)) (tl chain),
          ob_classification = Some (classify_failure lib (\<lambda>x. exc.truncate (h x)) a),
          ob_observed_at = now, ob_turn_id = turn, ob_agent_id = agent, ob_run_id = run,
          ob_request_id = extract_request_id chain,
          ob_endpoint = first_some (\<lambda>e. text_value (oe_endpoint e)) chain,
          ob_status = extract_status chain,
          ob_error_code = first_some (\<lambda>e. text_value (ex_error_code e)) chain,
          ob_error_type = first_some (\<lambda>e. text_value (ex_error_type e)) chain,
          ob_evidence = first_some oe_evidence chain,
          ob_deployment = first_some oe_deployment chain\<rparr>)"

end
