(* ===== verification/Envelope.thy ===== *)
theory Envelope
  imports Recovery_Models
begin

text \<open>
  The derivation of the failure envelope (\<open>build_failure_envelope\<close>,
  \<open>build_completion_rejection_envelope\<close> and \<open>build_root_turn_failure\<close> of
  \<open>core/recovery_models.py\<close>).
\<close>

section \<open>The envelope\<close>

record envelope_failure =
  ef_class :: failure_class
  ef_cause :: "failure_category option"
  ef_phase :: failure_phase
  ef_exception_type :: "string option"
  ef_message :: "string option"
  ef_confidence :: confidence
  ef_evidence :: "string list"
  ef_fingerprint :: "string option"
  ef_version :: string
  ef_provenance :: string
  ef_captured :: bool

record envelope_deployment =
  ed_configured :: "string option"
  ed_base_model :: "string option"
  ed_provider :: "string option"
  ed_wire_name :: "string option"
  ed_endpoint :: "string option"

record envelope_request =
  er_call_id :: "string option"
  er_transport :: "int option"
  er_elapsed :: "rat option"
  er_budget :: "rat option"
  er_exhaustion :: "exhaustion option"
  er_request_id :: "string option"
  er_state :: "string option"
  er_retry_after :: "rat option"
  er_response_started :: "bool option"
  er_semantic :: "bool option"

record envelope_progress =
  ep_turns_used :: "int option"
  ep_state :: progress_state
  ep_checkpoint :: "string option"
  ep_boundary :: "string option"
  ep_touched_paths :: "string list"
  ep_artifacts :: "string list"
  ep_effects :: tool_effects
  ep_last_progress :: "rat option"

record envelope_recovery =
  ec_eligibility :: eligibility
  ec_reasons :: "string list"
  ec_resumes_used :: int
  ec_expires_at :: "rat option"

record failure_envelope =
  en_event_id :: string
  en_agent_id :: string
  en_run_id :: string
  en_package :: "string option"
  en_predecessor :: "string option"
  en_chain :: string
  en_observed_at :: rat
  en_failure :: envelope_failure
  en_deployment :: envelope_deployment
  en_request :: envelope_request
  en_progress :: envelope_progress
  en_recovery :: envelope_recovery

record recovery_reference =
  rr_chain :: string
  rr_event_id :: string
  rr_package :: "string option"
  rr_predecessor :: "string option"
  rr_eligibility :: eligibility
  rr_resumes_used :: int
  rr_expires_at :: "rat option"

definition reference_from_envelope :: "failure_envelope \<Rightarrow> recovery_reference" where
  "reference_from_envelope e =
     \<lparr>rr_chain = en_chain e, rr_event_id = en_event_id e, rr_package = en_package e,
      rr_predecessor = en_predecessor e, rr_eligibility = ec_eligibility (en_recovery e),
      rr_resumes_used = ec_resumes_used (en_recovery e), rr_expires_at = ec_expires_at (en_recovery e)\<rparr>"

section \<open>Derivation\<close>

definition derive_phase :: "string option \<Rightarrow> int option \<Rightarrow> failure_phase" where
  "derive_phase phase transport =
     (case phase of
        None \<Rightarrow> Unknown_Phase
      | Some p \<Rightarrow>
          (if p = ''monitor'' then Monitor
           else if p = ''turn_terminal'' then Finalize
           else if p = ''turn'' then (if transport = Some 0 then Admission_Phase else Llm_Call)
           else Unknown_Phase))"

definition derive_exhaustion :: "bool option \<Rightarrow> failure_category option \<Rightarrow> int option \<Rightarrow> exhaustion" where
  "derive_exhaustion exhausted cause transport =
     (if exhausted = Some True then Deadline
      else if (case transport of None \<Rightarrow> False | Some n \<Rightarrow> n > 1) then Attempts
      else case cause of
        None \<Rightarrow> Exhaustion_Unknown
      | Some c \<Rightarrow> if c \<noteq> Unknown \<and> \<not> retry_eligible (info_of c) then Nonretryable else Exhaustion_Unknown)"

definition derive_tool_effects :: "failure_phase \<Rightarrow> bool \<Rightarrow> bool \<Rightarrow> tool_effects \<times> string list" where
  "derive_tool_effects phase present pending =
     (if phase = Admission_Phase then (Effects_Settled, [''admission_phase_no_execution''])
      else if pending then (Effects_Unresolved, [''tool_calls_pending_results''])
      else if present then (Effects_Settled, [''tool_results_settled_in_transcript''])
      else (Effects_Unknown, [''tool_effects_not_transcript_visible'']))"

definition measured_timeout_reason :: "observation option \<Rightarrow> measured_timeout option" where
  "measured_timeout_reason ob =
     (case ob of
        None \<Rightarrow> None
      | Some o' \<Rightarrow>
          if ob_error_code o' = Some (timeout_value Resume_Progress_Deadline)
          then Some Resume_Progress_Deadline else None)"

definition measured_timeout_reason_of :: "failure_envelope \<Rightarrow> measured_timeout option" where
  "measured_timeout_reason_of e =
     (if timeout_value Resume_Progress_Deadline \<in> set (ef_evidence (en_failure e))
      then Some Resume_Progress_Deadline else None)"

text \<open>What the classification looks at.\<close>

record class_facts =
  cf_timeout :: "measured_timeout option"
  cf_stop_reason :: "string option"
  cf_cause :: "failure_category option"
  cf_phase :: failure_phase
  cf_admission_error :: bool
  cf_transport :: "int option"

definition budget_stop_reasons :: "string list" where
  "budget_stop_reasons = [''budget_exceeded'', ''budget_unverifiable'']"

definition launch_evidence :: "class_facts \<Rightarrow> bool" where
  "launch_evidence f \<longleftrightarrow>
     (cf_phase f = Admission_Phase \<or> (cf_admission_error f \<and> cf_transport f = Some 0)) \<and>
     (cf_transport f = Some 0 \<or> cf_admission_error f)"

definition derive_class :: "class_facts \<Rightarrow> failure_class \<times> confidence \<times> string list" where
  "derive_class f =
     (let cause = (\<lambda>c. cf_cause f = Some c);
          oneof = (\<lambda>S. case cf_cause f of None \<Rightarrow> False | Some c \<Rightarrow> c \<in> S)
      in if cf_timeout f \<noteq> None
         then (Provider_Stall, Measured, [timeout_value (the (cf_timeout f))])
         else if (case cf_stop_reason f of None \<Rightarrow> False | Some s \<Rightarrow> s \<in> set budget_stop_reasons)
         then (Budget_Stop, Measured, [''budget_stop''])
         else if cause Cancellation then (Cancelled_Run, Measured, [''protected_cancellation''])
         else if cf_phase f = Monitor then (Internal, Measured, [''harness_monitor_failure''])
         else if cause Auth then (Authorization, Measured, [''protected_authorization''])
         else if oneof {Billing, Quota, Invalid_Request, Context_Size}
         then (Permanent_Config, Measured, [''protected_'' @ category_value (the (cf_cause f))])
         else if launch_evidence f
         then (Launch_Failure, Measured, [''admission_phase'', ''zero_transport_attempts''])
         else if cause Rate_Limit then (Provider_Rate_Limit, Measured, [''provider_rate_limit_code''])
         else if cause Overload then (Provider_Overloaded, Measured, [''provider_overload_code''])
         else if oneof {Failures.Timeout, Connection, Server_Error}
         then (Provider_Stall, Signature, [''signature_'' @ category_value (the (cf_cause f))])
         else if cause Incomplete_Stream
         then (Class_Incomplete_Stream, Measured, [''typed_transient_incomplete_stream''])
         else if cause Empty_Response
         then (Class_Empty_Response, Measured, [''typed_transient_empty_response''])
         else (Class_Unknown, Measured, [''unknown_cause_report_and_park'']))"

definition launch_transient_exclusions :: "string list" where
  "launch_transient_exclusions = [''cooldown'', ''endpoint-cooldown'']"

text \<open>Eligibility, its reason codes, and the further evidence codes.\<close>

definition derive_eligibility ::
  "failure_class \<Rightarrow> string list \<Rightarrow> bool \<Rightarrow> failure_phase \<Rightarrow> tool_effects \<Rightarrow> eligibility \<times> string list \<times> string list" where
  "derive_eligibility cls reasons measured phase effects =
     (if cls \<in> protected_classes then (Prohibited, [''protected_class_no_automatic_recovery''], [])
      else if cls = Internal then (Prohibited, [''harness_internal_no_automatic_recovery''], [])
      else if cls = Class_Unknown then (Prohibited, [''unknown_cause_report_and_park''], [])
      else if cls = Completion_Rejection then (Prohibited, [''completion_rejection_no_auto_recovery''], [])
      else if cls = Launch_Failure
      then (if reasons \<noteq> [] \<and> list_all (\<lambda>r. r \<in> set launch_transient_exclusions) reasons
            then (Eligible, [''transient_launch_failure'', ''no_execution_progress''],
                  [if ''endpoint-cooldown'' \<in> set reasons then ''endpoint_cooldown_exclusion''
                   else ''cooldown_exclusion''])
            else if reasons = [] then (Prohibited, [''launch_failure_exclusions_unavailable''], [])
            else (Prohibited, [''permanent_launch_exclusion''], [''permanent_exclusion'']))
      else if cls \<in> transient_classes
      then (if \<not> measured \<or> phase \<noteq> Llm_Call
            then (Prohibited, [''transient_cause_unmeasured_no_recovery''], [''transient_cause_unmeasured''])
            else case effects of
              Effects_Unresolved \<Rightarrow> (Reconcile_Required, [''tool_effects_unresolved_reconcile_first''], [])
            | Effects_Unknown \<Rightarrow> (Reconcile_Required, [''tool_effects_unknown_reconcile_first''], [])
            | Effects_Settled \<Rightarrow> (Eligible, [''transient_cause'', ''tool_effects_settled''], []))
      else (Prohibited, [''unrecoverable_class''], []))"

section \<open>Public text\<close>

definition bound_and_redact :: "(string \<Rightarrow> string option) \<Rightarrow> string \<Rightarrow> string" where
  "bound_and_redact redact m =
     (case redact m of None \<Rightarrow> ''[REDACTED]'' | Some r \<Rightarrow> take max_message_chars r)"

definition bound_request_id :: "(string \<Rightarrow> string option) \<Rightarrow> string option \<Rightarrow> string option" where
  "bound_request_id redact r =
     (case r of
        None \<Rightarrow> None
      | Some s \<Rightarrow> if s = [] then None else map_option (take max_request_id_chars) (redact s))"

definition is_code_char :: "char \<Rightarrow> bool" where
  "is_code_char c \<longleftrightarrow> is_letter c \<or> is_digit c \<or> c \<in> set ''_.:-''"

definition sanitize_fingerprint_code :: "string option \<Rightarrow> string" where
  "sanitize_fingerprint_code code =
     (case code of
        None \<Rightarrow> ''none''
      | Some c \<Rightarrow>
          (let s = take max_fingerprint_code_chars (filter is_code_char c)
           in if s = [] then ''none'' else s))"

definition show_int :: "int \<Rightarrow> string" where
  "show_int n = (if n < 0 then ''-'' @ show_nat (nat (- n)) else show_nat (nat n))"

definition or_else :: "string option \<Rightarrow> string \<Rightarrow> string" where
  "or_else x d = (case x of None \<Rightarrow> d | Some s \<Rightarrow> if s = [] then d else s)"

definition fingerprint_of :: "failure_phase \<Rightarrow> observation \<Rightarrow> string option \<Rightarrow> string" where
  "fingerprint_of phase o' provider =
     ''origin='' @ phase_value phase @ '';type='' @ or_else (Some (ob_exception_type o')) ''unknown'' @
     '';status='' @ (case ob_status o' of None \<Rightarrow> ''none'' | Some n \<Rightarrow> show_int n) @
     '';code='' @ sanitize_fingerprint_code (ob_error_code o') @
     '';adapter='' @ or_else provider ''unknown'' @ '';layer='' @ ob_phase o'"

section \<open>Building the envelope\<close>

record run_facts =
  rf_agent_id :: string
  rf_run_id :: string
  rf_turn_id :: "string option"
  rf_turns_used :: "int option"
  rf_deployment :: "deployment_id option"
  rf_configured :: "string option"
  rf_stop_reason :: "string option"
  rf_exclusions :: "string list option"
  rf_calls_present :: bool
  rf_calls_pending :: bool
  rf_correlated :: bool
  rf_resumes_used :: int
  rf_chain :: "string option"
  rf_package :: "string option"
  rf_predecessor :: "string option"

definition event_id_of :: "string \<Rightarrow> string \<Rightarrow> string option \<Rightarrow> string" where
  "event_id_of agent run turn =
     ''failure-event:'' @ agent @ '':'' @ run @ (if or_else turn [] = [] then [] else '':'' @ the turn)"

definition chain_id_of :: "string option \<Rightarrow> string \<Rightarrow> string \<Rightarrow> string" where
  "chain_id_of chain agent run =
     (case chain of None \<Rightarrow> ''recovery-chain:'' @ agent @ '':'' @ run | Some c \<Rightarrow> c)"

definition evidence_of :: "observation option \<Rightarrow> call_evidence option" where
  "evidence_of ob = Option.bind ob ob_evidence"

definition facts_of :: "observation option \<Rightarrow> run_facts \<Rightarrow> class_facts" where
  "facts_of ob rf =
     (let transport = Option.bind (evidence_of ob) ce_transport
      in \<lparr>cf_timeout = measured_timeout_reason ob, cf_stop_reason = rf_stop_reason rf,
          cf_cause = map_option fi_category (Option.bind ob ob_classification),
          cf_phase = derive_phase (map_option ob_phase ob) transport,
          cf_admission_error = (map_option ob_exception_type ob = Some ''AllDeploymentsUnavailableError''),
          cf_transport = transport\<rparr>)"

text \<open>A measured deadline replaces the cause.\<close>

definition effective_cause :: "class_facts \<Rightarrow> failure_category option" where
  "effective_cause f = (if cf_timeout f \<noteq> None then Some Failures.Timeout else cf_cause f)"

definition exhaustion_of :: "class_facts \<Rightarrow> call_evidence option \<Rightarrow> exhaustion option" where
  "exhaustion_of f ce =
     (if cf_timeout f \<noteq> None then Some Deadline
      else if ce \<noteq> None \<or> cf_cause f \<noteq> None
      then Some (derive_exhaustion (Option.bind ce ce_budget_exhausted) (cf_cause f) (cf_transport f))
      else None)"

definition evidence_codes ::
  "class_facts \<Rightarrow> call_evidence option \<Rightarrow> run_facts \<Rightarrow> string list \<Rightarrow> string list \<Rightarrow> string list" where
  "evidence_codes f ce rf effect_codes eligibility_codes =
     (case derive_class f of (_, _, class_codes) \<Rightarrow>
        class_codes @
        (if rf_correlated rf then [''endpoint_correlated''] else []) @
        (if Option.bind ce ce_semantic = Some True then [''semantic_output_published_no_replay''] else []) @
        (case exhaustion_of f ce of None \<Rightarrow> [] | Some x \<Rightarrow> [''exhaustion_'' @ exhaustion_value x]) @
        effect_codes @ eligibility_codes)"

definition progress_of :: "int option \<Rightarrow> progress_state" where
  "progress_of turns =
     (case turns of None \<Rightarrow> Uncertain | Some n \<Rightarrow> if n = 0 then No_Progress else Uncheckpointed)"

definition provenance_of :: "observation option \<Rightarrow> string" where
  "provenance_of ob =
     ''chartreux.core.llm.failures.classify_failure over the WP0 observation (phase='' @
     (case ob of None \<Rightarrow> ''None'' | Some o' \<Rightarrow> ob_phase o') @
     ''); subagent-level derivation chartreux.core.recovery_models '' @ classification_version @
     (case measured_timeout_reason ob of
        None \<Rightarrow> [] | Some t \<Rightarrow> ''; measured harness deadline '' @ timeout_value t)"

definition observed_time :: "observation option \<Rightarrow> rat option" where
  "observed_time ob =
     (case ob of None \<Rightarrow> None | Some o' \<Rightarrow> if ob_observed_at o' = 0 then None else Some (ob_observed_at o'))"

definition build_failure_envelope ::
  "(string \<Rightarrow> bool) \<Rightarrow> (string \<Rightarrow> string option) \<Rightarrow> rat \<Rightarrow> observation option \<Rightarrow> run_facts \<Rightarrow> failure_envelope" where
  "build_failure_envelope netloc_ok redact now ob rf =
     (let ce = evidence_of ob; f = facts_of ob rf; d = rf_deployment rf
      in case derive_class f of (cls, conf, _) \<Rightarrow>
         case derive_tool_effects (cf_phase f) (rf_calls_present rf) (rf_calls_pending rf) of
           (effects, effect_codes) \<Rightarrow>
         case derive_eligibility cls (case rf_exclusions rf of None \<Rightarrow> [] | Some r \<Rightarrow> r) (ce \<noteq> None)
                (cf_phase f) effects of (elig, reasons, elig_codes) \<Rightarrow>
         \<lparr>en_event_id = event_id_of (rf_agent_id rf) (rf_run_id rf) (rf_turn_id rf),
          en_agent_id = rf_agent_id rf, en_run_id = rf_run_id rf, en_package = rf_package rf,
          en_predecessor = rf_predecessor rf,
          en_chain = chain_id_of (rf_chain rf) (rf_agent_id rf) (rf_run_id rf),
          en_observed_at = (case observed_time ob of None \<Rightarrow> now | Some t \<Rightarrow> t),
          en_failure =
            \<lparr>ef_class = cls, ef_cause = effective_cause f, ef_phase = cf_phase f,
             ef_exception_type = map_option ob_exception_type ob,
             ef_message =
               (case ob of None \<Rightarrow> None
                | Some o' \<Rightarrow> if ob_message o' = [] then None else Some (bound_and_redact redact (ob_message o'))),
             ef_confidence = conf,
             ef_evidence = take max_evidence_codes (evidence_codes f ce rf effect_codes elig_codes),
             ef_fingerprint = map_option (\<lambda>o'. fingerprint_of (cf_phase f) o' (map_option (fst \<circ> snd) d)) ob,
             ef_version = classification_version, ef_provenance = provenance_of ob,
             ef_captured = (ob \<noteq> None)\<rparr>,
          en_deployment =
            \<lparr>ed_configured = rf_configured rf, ed_base_model = map_option fst d,
             ed_provider = map_option (fst \<circ> snd) d, ed_wire_name = map_option (snd \<circ> snd) d,
             ed_endpoint = canonical_endpoint_identity netloc_ok (Option.bind ob ob_endpoint)\<rparr>,
          en_request =
            \<lparr>er_call_id = map_option ce_call_id ce, er_transport = cf_transport f,
             er_elapsed = Option.bind ce ce_elapsed, er_budget = Option.bind ce ce_budget_seconds,
             er_exhaustion = exhaustion_of f ce,
             er_request_id = bound_request_id redact (Option.bind ob ob_request_id),
             er_state = (if cf_transport f = Some 0 then Some ''no_transport_start''
                         else if ob \<noteq> None then Some ''failed'' else None),
             er_retry_after = Option.bind (Option.bind ob ob_classification) fi_retry_after,
             er_response_started = Option.bind ce ce_response_started,
             er_semantic = Option.bind ce ce_semantic\<rparr>,
          en_progress =
            \<lparr>ep_turns_used = rf_turns_used rf, ep_state = progress_of (rf_turns_used rf),
             ep_checkpoint = None, ep_boundary = rf_turn_id rf, ep_touched_paths = [], ep_artifacts = [],
             ep_effects = effects, ep_last_progress = observed_time ob\<rparr>,
          en_recovery =
            \<lparr>ec_eligibility = elig, ec_reasons = reasons, ec_resumes_used = rf_resumes_used rf,
             ec_expires_at = None\<rparr>\<rparr>)"

definition build_completion_rejection_envelope ::
  "(string \<Rightarrow> string option) \<Rightarrow> rat \<Rightarrow> string \<Rightarrow> string \<Rightarrow> rejection_reason \<Rightarrow> string option \<Rightarrow> string option \<Rightarrow>
     string option \<Rightarrow> string option \<Rightarrow> string option \<Rightarrow> failure_envelope" where
  "build_completion_rejection_envelope redact now agent run rejection turn package predecessor chain message =
     \<lparr>en_event_id = event_id_of agent run turn, en_agent_id = agent, en_run_id = run, en_package = package,
      en_predecessor = predecessor, en_chain = chain_id_of chain agent run, en_observed_at = now,
      en_failure =
        \<lparr>ef_class = Completion_Rejection, ef_cause = None, ef_phase = Finalize, ef_exception_type = None,
         ef_message = (if or_else message [] = [] then None else Some (bound_and_redact redact (the message))),
         ef_confidence = Measured,
         ef_evidence = take max_evidence_codes
           [''completion_rejection_'' @ rejection_value rejection, ''completion_audit_rejection''],
         ef_fingerprint = Some (''origin=finalize;type=none;status=none;code='' @
           sanitize_fingerprint_code (Some (rejection_value rejection)) @ '';adapter=unknown;layer=finalize''),
         ef_version = classification_version,
         ef_provenance = ''typed completion-audit rejection (P11) over the P1 rejection vocabulary; recovery_models '' @
           classification_version,
         ef_captured = True\<rparr>,
      en_deployment = \<lparr>ed_configured = None, ed_base_model = None, ed_provider = None, ed_wire_name = None,
         ed_endpoint = None\<rparr>,
      en_request = \<lparr>er_call_id = None, er_transport = None, er_elapsed = None, er_budget = None,
         er_exhaustion = None, er_request_id = None, er_state = None, er_retry_after = None,
         er_response_started = None, er_semantic = None\<rparr>,
      en_progress = \<lparr>ep_turns_used = None, ep_state = Uncertain, ep_checkpoint = None, ep_boundary = None,
         ep_touched_paths = [], ep_artifacts = [], ep_effects = Effects_Unknown, ep_last_progress = None\<rparr>,
      en_recovery = \<lparr>ec_eligibility = Prohibited, ec_reasons = [''completion_rejection_no_auto_recovery''],
         ec_resumes_used = 0, ec_expires_at = None\<rparr>\<rparr>"

section \<open>The projection of a failed root turn\<close>

record root_turn_failure =
  rt_turn_id :: string
  rt_observed_at :: rat
  rt_cause :: "failure_category option"
  rt_phase :: failure_phase
  rt_class :: failure_class
  rt_transient_confirmed :: bool
  rt_base_model :: "string option"
  rt_provider :: "string option"
  rt_wire_name :: "string option"
  rt_endpoint :: "string option"
  rt_retry_after :: "rat option"
  rt_call_id :: "string option"
  rt_transport :: "int option"
  rt_elapsed :: "rat option"
  rt_semantic :: "bool option"
  rt_effects_settled :: bool
  rt_interaction_barrier :: bool
  rt_barrier_detail :: string
  rt_stop_reason :: "string option"

definition protected_stop_reasons :: "string list" where
  "protected_stop_reasons =
     [''budget_exceeded'', ''budget_unverifiable'', ''user_cancelled'', ''orchestrator_cancelled'', ''retasked'']"

definition permanent_config_categories :: "failure_category set" where
  "permanent_config_categories = {Billing, Quota, Invalid_Request, Context_Size}"

definition transient_cause_categories :: "failure_category set" where
  "transient_cause_categories =
     {Connection, Failures.Timeout, Server_Error, Overload, Rate_Limit, Incomplete_Stream, Empty_Response}"

fun transient_class_of :: "failure_category \<Rightarrow> failure_class option" where
  "transient_class_of Rate_Limit = Some Provider_Rate_Limit"
| "transient_class_of Overload = Some Provider_Overloaded"
| "transient_class_of Failures.Timeout = Some Provider_Stall"
| "transient_class_of Connection = Some Provider_Stall"
| "transient_class_of Server_Error = Some Provider_Stall"
| "transient_class_of Incomplete_Stream = Some Class_Incomplete_Stream"
| "transient_class_of Empty_Response = Some Class_Empty_Response"
| "transient_class_of _ = None"

definition derive_root_failure_class :: "class_facts \<Rightarrow> failure_class" where
  "derive_root_failure_class f =
     (if (case cf_stop_reason f of None \<Rightarrow> False | Some s \<Rightarrow> s \<in> set protected_stop_reasons) \<or>
         cf_cause f = Some Cancellation then Cancelled_Run
      else if cf_phase f = Monitor then Internal
      else if cf_cause f = Some Auth then Authorization
      else if (case cf_cause f of None \<Rightarrow> False | Some c \<Rightarrow> c \<in> permanent_config_categories) then Permanent_Config
      else if launch_evidence f then Launch_Failure
      else case Option.bind (cf_cause f) transient_class_of of Some c \<Rightarrow> c | None \<Rightarrow> Class_Unknown)"

text \<open>\<open>committed\<close>: the identity of the committed model, any part of which may be missing.\<close>

definition build_root_turn_failure ::
  "(string \<Rightarrow> bool) \<Rightarrow> rat \<Rightarrow> observation option \<Rightarrow> string \<Rightarrow> string option \<times> string option \<times> string option \<Rightarrow>
     string option \<Rightarrow> bool \<Rightarrow> bool \<Rightarrow> string \<Rightarrow> root_turn_failure" where
  "build_root_turn_failure netloc_ok now ob turn committed stop effects_settled barrier detail =
     (let ce = evidence_of ob; transport = Option.bind ce ce_transport;
          phase = derive_phase (map_option ob_phase ob) transport;
          cause = map_option fi_category (Option.bind ob ob_classification);
          f = \<lparr>cf_timeout = None, cf_stop_reason = stop, cf_cause = cause, cf_phase = phase,
               cf_admission_error = (map_option ob_exception_type ob = Some ''AllDeploymentsUnavailableError''),
               cf_transport = transport\<rparr>;
          (base, provider, wire) =
            (case Option.bind ob ob_deployment of
               Some (b, p, w) \<Rightarrow> (Some b, Some p, Some w)
             | None \<Rightarrow> committed)
      in \<lparr>rt_turn_id = turn,
          rt_observed_at = (case observed_time ob of None \<Rightarrow> now | Some t \<Rightarrow> t),
          rt_cause = cause, rt_phase = phase, rt_class = derive_root_failure_class f,
          rt_transient_confirmed =
            (ce \<noteq> None \<and> (phase = Llm_Call \<or> phase = Admission_Phase) \<and>
             (phase = Admission_Phase \<or>
              (case cause of None \<Rightarrow> False | Some c \<Rightarrow> c \<in> transient_cause_categories))),
          rt_base_model = base, rt_provider = provider, rt_wire_name = wire,
          rt_endpoint = canonical_endpoint_identity netloc_ok (Option.bind ob ob_endpoint),
          rt_retry_after = Option.bind (Option.bind ob ob_classification) fi_retry_after,
          rt_call_id = map_option ce_call_id ce, rt_transport = transport,
          rt_elapsed = Option.bind ce ce_elapsed, rt_semantic = Option.bind ce ce_semantic,
          rt_effects_settled = effects_settled, rt_interaction_barrier = barrier,
          rt_barrier_detail = detail, rt_stop_reason = stop\<rparr>)"

end
