(* ===== verification/Thinking_Levels.thy ===== *)
theory Thinking_Levels
  imports Prelude
begin

text \<open>
  The thinking levels of a deployment (\<open>core/llm/thinking_levels.py\<close>): which levels can be encoded,
  and the nearest one for a level that cannot.
\<close>

section \<open>The vocabulary\<close>

definition thinking_level_order :: "string list" where
  "thinking_level_order = [''off'', ''low'', ''medium'', ''high'', ''xhigh'', ''max'']"

text \<open>A table from the public levels to the values on the wire; \<open>None\<close> omits the field.\<close>

type_synonym thinking_levels = "(string \<times> string option) list"

definition mistral_thinking_levels :: thinking_levels where
  "mistral_thinking_levels =
     [(''off'', None), (''low'', Some ''none''), (''medium'', Some ''high''), (''high'', Some ''high''), (''max'', Some ''high'')]"

definition openai_thinking_levels :: thinking_levels where
  "openai_thinking_levels =
     [(''off'', None), (''low'', Some ''low''), (''medium'', Some ''medium''), (''high'', Some ''high''), (''max'', Some ''max'')]"

definition openai_responses_thinking_levels :: thinking_levels where
  "openai_responses_thinking_levels =
     [(''off'', Some ''none''), (''low'', Some ''low''), (''medium'', Some ''medium''), (''high'', Some ''high''),
      (''max'', Some ''xhigh'')]"

definition anthropic_thinking_levels :: thinking_levels where
  "anthropic_thinking_levels =
     [(''off'', None), (''low'', Some ''low''), (''medium'', Some ''medium''), (''high'', Some ''high''), (''max'', Some ''max'')]"

definition mistral_large_4_thinking_levels :: thinking_levels where
  "mistral_large_4_thinking_levels = [(''low'', Some ''low''), (''medium'', Some ''medium''), (''high'', Some ''high'')]"

definition glm_5_3_thinking_levels :: thinking_levels where
  "glm_5_3_thinking_levels = [(''low'', Some ''low''), (''high'', Some ''high''), (''max'', Some ''max'')]"

definition provider_thinking_levels :: "((string \<times> string option) \<times> thinking_levels) list" where
  "provider_thinking_levels =
     [((''mistral'', None), mistral_thinking_levels),
      ((''generic'', Some ''openai''), openai_thinking_levels),
      ((''generic'', Some ''openai-responses''), openai_responses_thinking_levels),
      ((''generic'', Some ''anthropic''), anthropic_thinking_levels)]"

definition model_thinking_levels :: "((string \<times> string) \<times> thinking_levels) list" where
  "model_thinking_levels =
     [((''mistral'', ''mistral-large-4''), mistral_large_4_thinking_levels),
      ((''mistral'', ''zai-glm-5-3''), glm_5_3_thinking_levels),
      ((''mistral'', ''zai-glm-5-3-flash''), glm_5_3_thinking_levels),
      ((''mistral'', ''zai-glm-5''), glm_5_3_thinking_levels),
      ((''mistral'', ''zai-glm-latest''), glm_5_3_thinking_levels)]"

text \<open>The tables are never empty, so the \<open>or\<close> of the code falls through on a missing entry only.\<close>

definition get_thinking_levels :: "string \<Rightarrow> string option \<Rightarrow> string \<Rightarrow> thinking_levels option" where
  "get_thinking_levels backend api_style model_name =
     (case map_of model_thinking_levels (backend, model_name) of
        Some ls \<Rightarrow> Some ls
      | None \<Rightarrow> map_of provider_thinking_levels (backend, if backend = ''mistral'' then None else api_style))"

definition level_in :: "string \<Rightarrow> thinking_levels \<Rightarrow> bool" where
  "level_in l ls \<longleftrightarrow> map_of ls l \<noteq> None"

definition declared_thinking_levels :: "thinking_levels \<Rightarrow> string list option \<Rightarrow> string list" where
  "declared_thinking_levels ls declared =
     (let names = filter (\<lambda>l. level_in l ls) thinking_level_order
      in case declared of None \<Rightarrow> names | Some ds \<Rightarrow> filter (\<lambda>l. l \<in> set ds) names)"

text \<open>A repeated declared level keeps its first place in the dictionary.\<close>

definition narrow_thinking_levels :: "thinking_levels \<Rightarrow> string list option \<Rightarrow> thinking_levels" where
  "narrow_thinking_levels ls declared =
     (case declared of
        None \<Rightarrow> ls
      | Some ds \<Rightarrow> fold (\<lambda>l d. case map_of ls l of None \<Rightarrow> d | Some w \<Rightarrow> dict_set l w d) ds [])"

definition thinking_level_is_known :: "string \<Rightarrow> bool" where
  "thinking_level_is_known l \<longleftrightarrow> l \<in> set thinking_level_order"

section \<open>Resolution\<close>

record thinking_resolution =
  tr_requested :: string
  tr_effective :: string
  tr_wire :: "string option"

definition fell_back :: "thinking_resolution \<Rightarrow> bool" where
  "fell_back r \<longleftrightarrow> tr_effective r \<noteq> tr_requested r"

datatype thinking_error = Unknown_Level | No_Levels_Declared | Cannot_Reenable

text \<open>\<open>THINKING_LEVEL_ORDER.index\<close> of a level of the vocabulary.\<close>

definition level_index :: "string \<Rightarrow> int" where
  "level_index l = (case first_index (\<lambda>x. x = l) thinking_level_order of None \<Rightarrow> -1 | Some i \<Rightarrow> int i)"

definition level_key :: "int \<Rightarrow> string \<Rightarrow> int \<times> int" where
  "level_key target l = (\<bar>level_index l - target\<bar>, - level_index l)"

definition key_less :: "int \<times> int \<Rightarrow> int \<times> int \<Rightarrow> bool" where
  "key_less a b \<longleftrightarrow> fst a < fst b \<or> (fst a = fst b \<and> snd a < snd b)"

text \<open>\<open>min\<close> with a key: the first of the least.\<close>

fun min_by :: "('a \<Rightarrow> int \<times> int) \<Rightarrow> 'a \<Rightarrow> 'a list \<Rightarrow> 'a" where
  "min_by k best [] = best"
| "min_by k best (x # xs) = min_by k (if key_less (k x) (k best) then x else best) xs"

definition resolve_thinking_level :: "thinking_levels \<Rightarrow> string \<Rightarrow> thinking_error + thinking_resolution" where
  "resolve_thinking_level ls requested =
     (if \<not> thinking_level_is_known requested then Inl Unknown_Level
      else case declared_thinking_levels ls None of
        [] \<Rightarrow> Inl No_Levels_Declared
      | d # ds \<Rightarrow>
          (case map_of ls requested of
             Some w \<Rightarrow> Inr \<lparr>tr_requested = requested, tr_effective = requested, tr_wire = w\<rparr>
           | None \<Rightarrow>
               let eff = min_by (level_key (level_index requested)) d ds
               in Inr \<lparr>tr_requested = requested, tr_effective = eff,
                       tr_wire = (case map_of ls eff of None \<Rightarrow> None | Some w \<Rightarrow> w)\<rparr>))"

definition get_thinking_wire_value :: "thinking_levels \<Rightarrow> string \<Rightarrow> thinking_error + string option" where
  "get_thinking_wire_value ls l = map_sum id tr_wire (resolve_thinking_level ls l)"

definition enabled_levels :: "thinking_levels \<Rightarrow> thinking_levels" where
  "enabled_levels ls = filter (\<lambda>e. fst e \<noteq> ''off'' \<and> snd e \<noteq> None \<and> snd e \<noteq> Some []) ls"

definition resolve_enabled_thinking_level :: "thinking_levels \<Rightarrow> string \<Rightarrow> thinking_error + thinking_resolution" where
  "resolve_enabled_thinking_level ls requested =
     (if enabled_levels ls = [] then Inl Cannot_Reenable
      else resolve_thinking_level (enabled_levels ls) requested)"

text \<open>The notices already given; the result says whether this call gave one.\<close>

definition note_thinking_fallback ::
  "string \<Rightarrow> thinking_resolution \<Rightarrow> (string \<times> string \<times> string) set \<Rightarrow> bool \<times> (string \<times> string \<times> string) set" where
  "note_thinking_fallback deployment r seen =
     (let k = (deployment, tr_requested r, tr_effective r)
      in if \<not> fell_back r \<or> k \<in> seen then (False, seen) else (True, insert k seen))"

section \<open>The nearest level\<close>

lemma key_not_less: "\<not> key_less a b \<longleftrightarrow> fst b < fst a \<or> (fst b = fst a \<and> snd b \<le> snd a)"
  by (auto simp: key_less_def)

lemma key_not_less_trans: "\<not> key_less a b \<Longrightarrow> \<not> key_less b c \<Longrightarrow> \<not> key_less a c"
  unfolding key_not_less by linarith

lemma key_less_asym: "key_less a b \<Longrightarrow> \<not> key_less b a"
  by (auto simp: key_less_def)

lemma min_by_mem: "min_by k b xs \<in> insert b (set xs)"
proof (induction xs arbitrary: b)
  case (Cons x xs)
  from Cons.IH [of x] Cons.IH [of b] show ?case by auto
qed simp

lemma min_by_least: "\<not> key_less (k b) (k (min_by k b xs)) \<and> (\<forall>x \<in> set xs. \<not> key_less (k x) (k (min_by k b xs)))"
proof (induction xs arbitrary: b)
  case Nil
  then show ?case by (simp add: key_less_def)
next
  case (Cons y ys)
  let ?b = "if key_less (k y) (k b) then y else b"
  have ih: "\<not> key_less (k ?b) (k (min_by k ?b ys))" "\<forall>x \<in> set ys. \<not> key_less (k x) (k (min_by k ?b ys))"
    using Cons.IH [of ?b] by simp_all
  have "\<not> key_less (k b) (k ?b)" "\<not> key_less (k y) (k ?b)"
    using key_less_asym by (auto simp: key_less_def [of "k b" "k b"] key_less_def [of "k y" "k y"])
  with ih(1) have "\<not> key_less (k b) (k (min_by k ?b ys))" "\<not> key_less (k y) (k (min_by k ?b ys))"
    using key_not_less_trans by blast+
  with ih(2) show ?case by simp
qed

text \<open>
  The level chosen is declared, no declared level is nearer, and of two equally near ones it is the
  upper.
\<close>

definition nearest_level :: "thinking_levels \<Rightarrow> string \<Rightarrow> string \<Rightarrow> bool" where
  "nearest_level ls requested l \<longleftrightarrow>
     l \<in> set thinking_level_order \<and> level_in l ls \<and>
     list_all (\<lambda>m. level_in m ls \<longrightarrow>
        \<bar>level_index l - level_index requested\<bar> < \<bar>level_index m - level_index requested\<bar> \<or>
        (\<bar>level_index l - level_index requested\<bar> = \<bar>level_index m - level_index requested\<bar> \<and> level_index m \<le> level_index l))
      thinking_level_order"

lemma nearest_self: "l \<in> set thinking_level_order \<Longrightarrow> level_in l ls \<Longrightarrow> nearest_level ls l l"
  by (auto simp: nearest_level_def list_all_iff)

theorem resolve_thinking_nearest:
  assumes "resolve_thinking_level ls requested = Inr r"
  shows "tr_requested r = requested \<and> nearest_level ls requested (tr_effective r) \<and>
     map_of ls (tr_effective r) = Some (tr_wire r)"
proof -
  from assms obtain d ds where known: "requested \<in> set thinking_level_order"
    and d: "declared_thinking_levels ls None = d # ds"
    by (auto simp: resolve_thinking_level_def thinking_level_is_known_def split: if_splits list.splits)
  show ?thesis
  proof (cases "map_of ls requested")
    case (Some w)
    with assms known d nearest_self [of requested ls] show ?thesis
      by (auto simp: resolve_thinking_level_def level_in_def thinking_level_is_known_def)
  next
    case None
    let ?k = "level_key (level_index requested)" and ?e = "min_by (level_key (level_index requested)) d ds"
    have "set (declared_thinking_levels ls None) = {l \<in> set thinking_level_order. level_in l ls}"
      by (simp add: declared_thinking_levels_def)
    then have mem: "set (d # ds) = {l \<in> set thinking_level_order. level_in l ls}" unfolding d .
    have e: "?e \<in> set thinking_level_order" "level_in ?e ls" using min_by_mem [of ?k d ds] mem by auto
    have least: "\<not> key_less (?k m) (?k ?e)" if "m \<in> set thinking_level_order" "level_in m ls" for m
    proof -
      have "m \<in> insert d (set ds)" using that mem by auto
      with min_by_least [of ?k d ds] show ?thesis by auto
    qed
    have "nearest_level ls requested ?e"
      unfolding nearest_level_def list_all_iff
    proof (intro conjI ballI impI e)
      fix m assume m: "m \<in> set thinking_level_order" "level_in m ls"
      show "\<bar>level_index ?e - level_index requested\<bar> < \<bar>level_index m - level_index requested\<bar> \<or>
          (\<bar>level_index ?e - level_index requested\<bar> = \<bar>level_index m - level_index requested\<bar> \<and>
           level_index m \<le> level_index ?e)"
        using least [OF m] unfolding key_not_less level_key_def by simp
    qed
    moreover obtain w where w: "map_of ls ?e = Some w" using e(2) by (auto simp: level_in_def)
    moreover have "Inr r = (Inr \<lparr>tr_requested = requested, tr_effective = ?e, tr_wire = w\<rparr> :: thinking_error + thinking_resolution)"
      unfolding assms [symmetric] resolve_thinking_level_def thinking_level_is_known_def d None
      using known by (simp add: Let_def w)
    ultimately show ?thesis by simp
  qed
qed

theorem resolve_thinking_total:
  "(\<exists>r. resolve_thinking_level ls requested = Inr r) \<longleftrightarrow>
     requested \<in> set thinking_level_order \<and> list_ex (\<lambda>l. level_in l ls) thinking_level_order"
proof -
  have "declared_thinking_levels ls None \<noteq> [] \<longleftrightarrow> list_ex (\<lambda>l. level_in l ls) thinking_level_order"
    by (auto simp: declared_thinking_levels_def filter_empty_conv list_ex_iff)
  then show ?thesis
    by (cases "declared_thinking_levels ls None")
      (auto simp: resolve_thinking_level_def thinking_level_is_known_def Let_def split: option.split)
qed

end
