(* ===== verification/Catalog.thy ===== *)
theory Catalog
  imports Endpoint Thinking_Levels
begin

text \<open>
  The definitions of the model catalog and their validators (\<open>core/model_catalog/schema.py\<close>).  A
  validator returns the value the model keeps, \<open>None\<close> where it raises.  Prices and temperatures are
  rationals: a value that is not finite is refused before it gets here.
\<close>

section \<open>Definitions\<close>

datatype api_style = Openai | Openai_Responses | Anthropic

fun style_value :: "api_style \<Rightarrow> string" where
  "style_value Openai = ''openai''"
| "style_value Openai_Responses = ''openai-responses''"
| "style_value Anthropic = ''anthropic''"

record provider_definition =
  pd_api_base :: string
  pd_api_key_env_var :: string
  pd_api_style :: api_style
  pd_backend :: string
  pd_reasoning_field_name :: string
  pd_emits_finish_reason :: bool
  pd_supports_tool_result_images :: bool
  pd_extra_headers :: "(string \<times> string) list"
  pd_disabled :: bool

record price_list =
  px_input :: "rat option"
  px_output :: "rat option"
  px_cached_input :: "rat option"

record deployment_definition =
  dd_provider :: string
  dd_name :: string
  dd_prices :: price_list
  dd_supports_images :: bool
  dd_supported_levels :: "string list option"
  dd_auto_compact_threshold :: "int option"
  dd_disabled :: bool

record model_definition =
  md_thinking :: string
  md_temperature :: "rat option"
  md_deployments :: "deployment_definition list"
  md_disabled :: bool

record role_definition =
  rl_description :: string
  rl_model :: string
  rl_thinking :: string

record catalog =
  cg_providers :: "(string \<times> provider_definition) list"
  cg_models :: "(string \<times> model_definition) list"
  cg_roles :: "(string \<times> role_definition) list"

record catalog_snapshot =
  sn_catalog :: catalog
  sn_revision :: string
  sn_overlaid_providers :: "string set"
  sn_dispatch_diagnostics :: "string list"

section \<open>Validators of fields\<close>

definition api_base_is_url :: "(string \<Rightarrow> bool) \<Rightarrow> string \<Rightarrow> bool" where
  "api_base_is_url netloc_ok v \<longleftrightarrow>
     (case urlsplit netloc_ok v of
        None \<Rightarrow> False
      | Some (scheme, netloc) \<Rightarrow> v \<noteq> [] \<and> scheme \<in> {''http'', ''https''} \<and> netloc \<noteq> [])"

definition is_word_char :: "char \<Rightarrow> bool" where
  "is_word_char c \<longleftrightarrow> is_letter c \<or> c = CHR ''_''"

definition env_var_name :: "string \<Rightarrow> bool" where
  "env_var_name v \<longleftrightarrow> v \<noteq> [] \<and> is_word_char (hd v) \<and> list_all (\<lambda>c. is_word_char c \<or> is_digit c) (tl v)"

definition api_key_env_var_is_valid :: "string \<Rightarrow> bool" where
  "api_key_env_var_is_valid v \<longleftrightarrow> v = [] \<or> env_var_name v"

definition price_is_valid :: "rat option \<Rightarrow> bool" where
  "price_is_valid p = (case p of None \<Rightarrow> True | Some x \<Rightarrow> 0 \<le> x)"

definition prices_are_valid :: "price_list \<Rightarrow> bool" where
  "prices_are_valid p \<longleftrightarrow> price_is_valid (px_input p) \<and> price_is_valid (px_output p) \<and> price_is_valid (px_cached_input p)"

text \<open>The category \<open>Cc\<close> within Latin-1.\<close>

definition is_control :: "char \<Rightarrow> bool" where
  "is_control c \<longleftrightarrow> (let n = (of_char c :: nat) in n < 32 \<or> (127 \<le> n \<and> n < 160))"

definition valid_provider_name :: "string \<Rightarrow> string option" where
  "valid_provider_name v =
     (let name = py_strip v
      in if name = [] \<or> list_ex (\<lambda>c. c \<in> set ''/@'') name \<or> list_ex is_control name then None else Some name)"

definition levels_are_known :: "string list option \<Rightarrow> bool" where
  "levels_are_known v = (case v of None \<Rightarrow> True | Some ls \<Rightarrow> list_all thinking_level_is_known ls)"

text \<open>
  The raw value of a threshold: a whole number, a number with a fraction or an infinite one, or a
  value that is not a number (a boolean is none).
\<close>

datatype raw_threshold = Whole int | Fractional rat | Infinite | Not_A_Number

definition read_threshold :: "raw_threshold option \<Rightarrow> int option option" where
  "read_threshold v =
     (case v of
        None \<Rightarrow> Some None
      | Some (Whole n) \<Rightarrow> if n \<le> 0 then None else Some (Some n)
      | Some (Fractional x) \<Rightarrow> if x \<noteq> of_int \<lfloor>x\<rfloor> \<or> x \<le> 0 then None else Some (Some \<lfloor>x\<rfloor>)
      | Some _ \<Rightarrow> None)"

definition threshold_is_valid :: "int option \<Rightarrow> bool" where
  "threshold_is_valid t = (case t of None \<Rightarrow> True | Some n \<Rightarrow> 0 < n)"

section \<open>Validators of definitions\<close>

definition provider_ok :: "(string \<Rightarrow> bool) \<Rightarrow> provider_definition \<Rightarrow> bool" where
  "provider_ok netloc_ok p \<longleftrightarrow> api_base_is_url netloc_ok (pd_api_base p) \<and> api_key_env_var_is_valid (pd_api_key_env_var p)"

definition check_deployment :: "deployment_definition \<Rightarrow> deployment_definition option" where
  "check_deployment d =
     (case valid_provider_name (dd_provider d) of
        None \<Rightarrow> None
      | Some p \<Rightarrow>
          if CHR ''@'' \<in> set (dd_name d) \<or> \<not> levels_are_known (dd_supported_levels d) \<or> \<not> prices_are_valid (dd_prices d) \<or>
             \<not> threshold_is_valid (dd_auto_compact_threshold d)
          then None else Some (d\<lparr>dd_provider := p\<rparr>))"

fun check_all :: "('a \<Rightarrow> 'b option) \<Rightarrow> 'a list \<Rightarrow> 'b list option" where
  "check_all f [] = Some []"
| "check_all f (x # xs) =
     (case f x of None \<Rightarrow> None | Some y \<Rightarrow> (case check_all f xs of None \<Rightarrow> None | Some ys \<Rightarrow> Some (y # ys)))"

definition check_model :: "model_definition \<Rightarrow> model_definition option" where
  "check_model m =
     (if \<not> thinking_level_is_known (md_thinking m) \<or> md_deployments m = [] then None
      else case check_all check_deployment (md_deployments m) of
        None \<Rightarrow> None
      | Some ds \<Rightarrow> if \<not> distinct (map dd_provider ds) then None else Some (m\<lparr>md_deployments := ds\<rparr>))"

definition role_ok :: "role_definition \<Rightarrow> bool" where
  "role_ok r \<longleftrightarrow> rl_model r \<noteq> [] \<and> CHR ''@'' \<notin> set (rl_model r) \<and> py_strip (rl_model r) \<noteq> [] \<and>
     thinking_level_is_known (rl_thinking r)"

text \<open>The names of the providers are stripped; two names that become one are refused.\<close>

fun check_provider_names ::
  "(string \<times> provider_definition) list \<Rightarrow> (string \<times> provider_definition) list \<Rightarrow>
     (string \<times> provider_definition) list option" where
  "check_provider_names acc [] = Some acc"
| "check_provider_names acc ((raw, p) # ps) =
     (case valid_provider_name raw of
        None \<Rightarrow> None
      | Some name \<Rightarrow> if map_of acc name \<noteq> None then None else check_provider_names (acc @ [(name, p)]) ps)"

definition references_exist :: "catalog \<Rightarrow> bool" where
  "references_exist c \<longleftrightarrow>
     list_all (\<lambda>e. list_all (\<lambda>d. map_of (cg_providers c) (dd_provider d) \<noteq> None) (md_deployments (snd e))) (cg_models c)"

definition check_catalog :: "(string \<Rightarrow> bool) \<Rightarrow> catalog \<Rightarrow> catalog option" where
  "check_catalog netloc_ok c =
     (if \<not> list_all (\<lambda>e. provider_ok netloc_ok (snd e)) (cg_providers c) \<or> \<not> list_all (\<lambda>e. role_ok (snd e)) (cg_roles c)
      then None
      else case check_provider_names [] (cg_providers c) of
        None \<Rightarrow> None
      | Some ps \<Rightarrow>
          (case check_all (\<lambda>e. map_option (Pair (fst e)) (check_model (snd e))) (cg_models c) of
             None \<Rightarrow> None
           | Some ms \<Rightarrow>
               let c' = \<lparr>cg_providers = ps, cg_models = ms, cg_roles = cg_roles c\<rparr>
               in if list_ex (\<lambda>e. CHR ''@'' \<in> set (fst e)) ms \<or> list_ex (\<lambda>e. CHR ''@'' \<in> set (fst e)) (cg_roles c) \<or>
                     \<not> references_exist c'
                  then None else Some c'))"

text \<open>What a validated catalog guarantees to its readers; the keys of a dictionary are distinct.\<close>

definition catalog_ok :: "catalog \<Rightarrow> bool" where
  "catalog_ok c \<longleftrightarrow> distinct (map fst (cg_providers c)) \<and> references_exist c \<and>
     list_all (\<lambda>e. md_deployments (snd e) \<noteq> [] \<and> distinct (map dd_provider (md_deployments (snd e)))) (cg_models c)"

section \<open>Validation is stable\<close>

lemma check_all_idem:
  assumes "check_all f xs = Some ys" "\<And>x y. f x = Some y \<Longrightarrow> f y = Some y"
  shows "check_all f ys = Some ys"
  using assms(1) by (induction xs arbitrary: ys) (auto split: option.splits dest: assms(2))

lemma check_all_mem: "check_all f xs = Some ys \<Longrightarrow> y \<in> set ys \<Longrightarrow> \<exists>x \<in> set xs. f x = Some y"
  by (induction xs arbitrary: ys) (auto split: option.splits)

lemma dropWhile_head: "xs = [] \<or> \<not> p (hd xs) \<Longrightarrow> dropWhile p xs = xs"
  by (cases xs) auto

lemma strip_head: "py_strip s = [] \<or> \<not> is_space (hd (py_strip s))"
proof (cases "py_strip s")
  case (Cons x xs)
  let ?t = "dropWhile is_space s"
  obtain ys where "?t = py_strip s @ ys"
    using takeWhile_dropWhile_id [of is_space "rev ?t"] by (metis py_strip_def rev_append rev_rev_ident)
  with Cons have "?t \<noteq> []" "hd ?t = x" by simp_all
  with Cons hd_dropWhile [of is_space s] show ?thesis by simp
qed simp

lemma strip_strip: "py_strip (py_strip s) = py_strip s"
proof -
  have "dropWhile is_space (py_strip s) = py_strip s" using strip_head by (rule dropWhile_head)
  then show ?thesis by (subst py_strip_def) (simp add: py_strip_def)
qed

lemma valid_provider_name_idem: "valid_provider_name v = Some n \<Longrightarrow> valid_provider_name n = Some n"
  by (auto simp: valid_provider_name_def Let_def strip_strip split: if_splits)

lemma check_deployment_idem: "check_deployment d = Some e \<Longrightarrow> check_deployment e = Some e"
  by (auto simp: check_deployment_def valid_provider_name_idem split: option.splits if_splits)

lemma check_model_idem:
  assumes "check_model m = Some n"
  shows "check_model n = Some n"
proof -
  from assms obtain ds where known: "thinking_level_is_known (md_thinking m)" "md_deployments m \<noteq> []"
    and ds: "check_all check_deployment (md_deployments m) = Some ds" "distinct (map dd_provider ds)"
    and n: "n = m\<lparr>md_deployments := ds\<rparr>"
    by (auto simp: check_model_def split: if_splits option.splits)
  have "ds \<noteq> []" using known(2) ds(1) by (cases "md_deployments m") (auto split: option.splits)
  with known n ds(2) check_all_idem [OF ds(1)] check_deployment_idem show ?thesis by (simp add: check_model_def)
qed

lemma check_provider_names_result:
  assumes "check_provider_names acc ps = Some qs" "distinct (map fst acc)"
    "list_all (\<lambda>e. valid_provider_name (fst e) = Some (fst e)) acc"
  shows "distinct (map fst qs) \<and> list_all (\<lambda>e. valid_provider_name (fst e) = Some (fst e)) qs \<and>
     snd ` set qs = snd ` set acc \<union> snd ` set ps"
  using assms
proof (induction ps arbitrary: acc)
  case (Cons e ps)
  obtain raw p where e: "e = (raw, p)" by force
  from Cons.prems(1) e obtain name where name: "valid_provider_name raw = Some name" "map_of acc name = None"
    "check_provider_names (acc @ [(name, p)]) ps = Some qs"
    by (auto split: option.splits if_splits)
  have "distinct (map fst (acc @ [(name, p)]))" using name(2) Cons.prems(2) by (simp add: map_of_eq_None_iff)
  moreover have "list_all (\<lambda>e. valid_provider_name (fst e) = Some (fst e)) (acc @ [(name, p)])"
    using Cons.prems(3) valid_provider_name_idem [OF name(1)] by simp
  ultimately show ?case using Cons.IH [OF name(3)] e by auto
qed simp

lemma check_provider_names_id:
  "distinct (map fst (acc @ qs)) \<Longrightarrow> list_all (\<lambda>e. valid_provider_name (fst e) = Some (fst e)) qs \<Longrightarrow>
    check_provider_names acc qs = Some (acc @ qs)"
proof (induction qs arbitrary: acc)
  case (Cons e qs)
  obtain raw p where e: "e = (raw, p)" by force
  with Cons.prems have "map_of acc raw = None" by (auto simp: map_of_eq_None_iff)
  with Cons e show ?case by simp
qed simp

lemma check_catalogE:
  assumes "check_catalog netloc c = Some c'"
  obtains ps ms where "check_provider_names [] (cg_providers c) = Some ps"
    "check_all (\<lambda>e. map_option (Pair (fst e)) (check_model (snd e))) (cg_models c) = Some ms"
    "c' = \<lparr>cg_providers = ps, cg_models = ms, cg_roles = cg_roles c\<rparr>" "references_exist c'"
    "list_all (\<lambda>e. provider_ok netloc (snd e)) (cg_providers c)" "list_all (\<lambda>e. role_ok (snd e)) (cg_roles c)"
    "\<not> list_ex (\<lambda>e. CHR ''@'' \<in> set (fst e)) ms" "\<not> list_ex (\<lambda>e. CHR ''@'' \<in> set (fst e)) (cg_roles c)"
  using assms unfolding check_catalog_def Let_def by (auto split: if_splits option.splits)

lemma checked_model: "check_model m = Some n \<Longrightarrow> md_deployments n \<noteq> [] \<and> distinct (map dd_provider (md_deployments n))"
  by (cases "md_deployments m") (auto simp: check_model_def split: if_splits option.splits)

text \<open>
  A validated catalog can be read without an error, and validating the dump of a validated catalog
  gives it back.
\<close>

lemma check_catalog_roundtrip:
  assumes "check_catalog netloc c = Some c'"
  shows "catalog_ok c' \<and> check_catalog netloc c' = Some c'"
proof -
  let ?f = "\<lambda>e. map_option (Pair (fst e)) (check_model (snd e))"
  obtain ps ms where ps: "check_provider_names [] (cg_providers c) = Some ps"
    and ms: "check_all ?f (cg_models c) = Some ms"
    and c': "c' = \<lparr>cg_providers = ps, cg_models = ms, cg_roles = cg_roles c\<rparr>" and refs: "references_exist c'"
    and ok: "list_all (\<lambda>e. provider_ok netloc (snd e)) (cg_providers c)" "list_all (\<lambda>e. role_ok (snd e)) (cg_roles c)"
      "\<not> list_ex (\<lambda>e. CHR ''@'' \<in> set (fst e)) ms" "\<not> list_ex (\<lambda>e. CHR ''@'' \<in> set (fst e)) (cg_roles c)"
    using assms by (rule check_catalogE)
  note names = check_provider_names_result [OF ps]
  have ps': "check_provider_names [] ps = Some ps"
    using names check_provider_names_id [of "[]" ps] by simp
  have "?f e = Some e' \<Longrightarrow> ?f e' = Some e'" for e e' :: "string \<times> model_definition"
    by (cases "check_model (snd e)") (auto dest: check_model_idem)
  then have ms': "check_all ?f ms = Some ms" using check_all_idem [OF ms] by blast
  have "list_all (\<lambda>e. provider_ok netloc (snd e)) ps"
  proof -
    have "snd ` set ps = snd ` set (cg_providers c)" using names by simp
    with ok(1) show ?thesis unfolding list_all_iff by (metis image_iff)
  qed
  with ps' ms' ok refs c' have "check_catalog netloc c' = Some c'" by (simp add: check_catalog_def)
  moreover have "list_all (\<lambda>e. md_deployments (snd e) \<noteq> [] \<and> distinct (map dd_provider (md_deployments (snd e)))) ms"
    using check_all_mem [OF ms] by (fastforce simp: list_all_iff dest: checked_model)
  ultimately show ?thesis using names refs c' by (simp add: catalog_ok_def)
qed

end
