(* ===== verification/Replacement.thy ===== *)
theory Replacement
  imports Envelope Catalog
begin

text \<open>
  The failure-time replacement policy (\<open>core/recovery_policy.py\<close>).  Prices are rationals;
  \<open>money\<close> is Python's format of a price with two decimals.
\<close>

datatype capability = Cap_None | Cap_Mechanical | Cap_Substantive

fun capability_value :: "capability \<Rightarrow> string" where
  "capability_value Cap_None = ''none''"
| "capability_value Cap_Mechanical = ''mechanical''"
| "capability_value Cap_Substantive = ''substantive''"

record candidate =
  ca_base_model :: string
  ca_provider :: string
  ca_wire_name :: "string option"
  ca_endpoint :: "string option"
  ca_tier :: package_tier
  ca_capability :: "capability option"
  ca_price :: "rat option"

definition effective_capability :: "candidate \<Rightarrow> capability" where
  "effective_capability c =
     (case ca_capability c of
        Some k \<Rightarrow> k
      | None \<Rightarrow> if ca_tier c = Tier_Mechanical then Cap_Mechanical else Cap_Substantive)"

datatype disposition = Selected | Rejected | Parked

record replacement_decision =
  rd_disposition :: disposition
  rd_reasons :: "string list"
  rd_candidate :: "candidate option"
  rd_cost :: string
  rd_notice :: string
  rd_failed_model :: "string option"
  rd_failed_endpoint :: "string option"
  rd_predecessor :: "string option"
  rd_package :: "string option"

text \<open>The fields of the recovery section of the configuration the policy reads.\<close>

record fallback_config =
  fc_allowed :: "string list"
  fc_max_price :: "rat option"

section \<open>The failure classes\<close>

definition infrastructure_classes :: "failure_class set" where
  "infrastructure_classes = {Provider_Stall, Provider_Overloaded, Provider_Rate_Limit, Launch_Failure,
     Class_Incomplete_Stream, Class_Empty_Response, Class_Unknown, Internal}"

definition protected_no_replacement :: "failure_class set" where
  "protected_no_replacement = {Cancelled_Run, Authorization, Permanent_Config, Budget_Stop, Task_Failure}"

definition is_infrastructure_failure :: "failure_envelope \<Rightarrow> bool" where
  "is_infrastructure_failure e \<longleftrightarrow> ef_class (en_failure e) \<in> infrastructure_classes"

section \<open>Candidates\<close>

record route_target =
  tg_model :: string
  tg_identity :: string
  tg_tier :: package_tier
  tg_seat :: "string option"
  tg_overlay :: "string option"
  tg_capability :: capability

record purpose_route =
  pr_targets :: "route_target list"
  pr_distinct :: int

definition session_model_marker :: string where "session_model_marker = ''$session''"
definition cost_tier_default :: string where "cost_tier_default = ''$cheapest-capable''"

text \<open>The priced name with the least price, then the least name; \<open>None\<close> when nothing is priced.\<close>

definition cheaper :: "string \<times> rat \<Rightarrow> string \<times> rat \<Rightarrow> bool" where
  "cheaper a b \<longleftrightarrow> snd a < snd b \<or> (snd a = snd b \<and> fst a < fst b)"

definition cheapest_capable_model :: "(string \<times> rat) list \<Rightarrow> string option" where
  "cheapest_capable_model prices =
     (case prices of
        [] \<Rightarrow> None
      | p # ps \<Rightarrow> Some (fst (foldl (\<lambda>best x. if cheaper x best then x else best) p ps)))"

definition get_str :: "(string \<times> string) list \<Rightarrow> string \<Rightarrow> string" where
  "get_str d k = (case map_of d k of None \<Rightarrow> k | Some v \<Rightarrow> v)"

definition route_target_base ::
  "string \<Rightarrow> string \<Rightarrow> (string \<times> string) list \<Rightarrow> (string \<times> rat) list option \<Rightarrow> string" where
  "route_target_base model session canonical prices =
     (if model = session_model_marker then session
      else if model = cost_tier_default
      then (case prices of
              None \<Rightarrow> []
            | Some ps \<Rightarrow> (case cheapest_capable_model ps of None \<Rightarrow> [] | Some m \<Rightarrow> m))
      else get_str canonical model)"

definition targets_of :: "(string \<times> purpose_route) list \<Rightarrow> route_target list" where
  "targets_of routes = concat (map (pr_targets \<circ> snd) routes)"

definition mechanical_base_models ::
  "(string \<times> purpose_route) list \<Rightarrow> string \<Rightarrow> (string \<times> rat) list option \<Rightarrow> string set" where
  "mechanical_base_models routes session prices =
     set (filter (\<lambda>m. m \<noteq> [])
       (map (\<lambda>t. route_target_base (tg_model t) session [] prices)
         (filter (\<lambda>t. tg_tier t = Tier_Mechanical) (targets_of routes))))"

text \<open>One target of the loop in \<open>route_recovery_facts\<close>.\<close>

definition target_facts ::
  "string \<Rightarrow> (string \<times> string) list \<Rightarrow> (string \<times> rat) list option \<Rightarrow> route_target \<Rightarrow>
     string set \<times> (string \<times> capability) list \<Rightarrow> string set \<times> (string \<times> capability) list" where
  "target_facts session canonical prices t acc =
     (case acc of (mech, caps) \<Rightarrow>
        let m = route_target_base (tg_model t) session canonical prices
        in if m = [] then (mech, caps)
           else ((if tg_tier t = Tier_Mechanical then insert m mech else mech),
                 (if tg_capability t \<noteq> Cap_None then dict_set m (tg_capability t) caps else caps)))"

definition route_recovery_facts ::
  "(string \<times> purpose_route) list \<Rightarrow> string \<Rightarrow> (string \<times> string) list \<Rightarrow> (string \<times> rat) list option \<Rightarrow>
     string set \<times> (string \<times> capability) list" where
  "route_recovery_facts routes session canonical prices =
     fold (target_facts session canonical prices) (targets_of routes) ({}, [])"

definition candidates_of_model ::
  "(string \<Rightarrow> bool) \<Rightarrow> catalog \<Rightarrow> string set \<Rightarrow> (string \<times> capability) list option \<Rightarrow> string \<times> model_definition \<Rightarrow>
     candidate list" where
  "candidates_of_model netloc_ok cat mech caps e =
     (case e of (base, m) \<Rightarrow>
        if md_disabled m then []
        else concat (map (\<lambda>d.
          if dd_disabled d then []
          else case map_of (cg_providers cat) (dd_provider d) of
            None \<Rightarrow> []
          | Some p \<Rightarrow>
              if pd_disabled p then []
              else [\<lparr>ca_base_model = base, ca_provider = dd_provider d, ca_wire_name = Some (dd_name d),
                     ca_endpoint = canonical_endpoint_identity netloc_ok (Some (pd_api_base p)),
                     ca_tier = (if base \<in> mech then Tier_Mechanical else Tier_Substantive),
                     ca_capability =
                       (case caps of
                          None \<Rightarrow> None
                        | Some cs \<Rightarrow> Some (case map_of cs base of None \<Rightarrow> Cap_None | Some k \<Rightarrow> k)),
                     ca_price = px_output (dd_prices d)\<rparr>]) (md_deployments m)))"

definition candidates_from_catalog ::
  "(string \<Rightarrow> bool) \<Rightarrow> catalog \<Rightarrow> string set \<Rightarrow> (string \<times> capability) list option \<Rightarrow> candidate list" where
  "candidates_from_catalog netloc_ok cat mech caps =
     concat (map (candidates_of_model netloc_ok cat mech caps) (cg_models cat))"

section \<open>Notices\<close>

text \<open>The dash of the notices, in UTF-8.\<close>

definition em_dash :: string where
  "em_dash = [char_of (226 :: nat), char_of (128 :: nat), char_of (148 :: nat)]"

definition decision_of ::
  "failure_envelope \<Rightarrow> disposition \<Rightarrow> string list \<Rightarrow> candidate option \<Rightarrow> string \<Rightarrow> string \<Rightarrow> replacement_decision" where
  "decision_of e disp reasons cand cost notice =
     \<lparr>rd_disposition = disp, rd_reasons = reasons, rd_candidate = cand, rd_cost = cost, rd_notice = notice,
      rd_failed_model = ed_base_model (en_deployment e), rd_failed_endpoint = ed_endpoint (en_deployment e),
      rd_predecessor = Some (en_agent_id e), rd_package = en_package e\<rparr>"

definition reject :: "failure_envelope \<Rightarrow> string list \<Rightarrow> string \<Rightarrow> replacement_decision" where
  "reject e reasons detail =
     decision_of e Rejected reasons None []
       (''Replacement rejected: package '' @ or_else (en_package e) ''unnamed'' @ '' (agent '' @ en_agent_id e @
        '') '' @ em_dash @ '' '' @ detail)"

definition format_price :: "(rat \<Rightarrow> string) \<Rightarrow> rat option \<Rightarrow> string" where
  "format_price money p =
     (case p of None \<Rightarrow> ''pricing unavailable'' | Some x \<Rightarrow> ''$'' @ money x @ ''/M output'')"

definition cost_implication :: "(rat \<Rightarrow> string) \<Rightarrow> candidate \<Rightarrow> candidate option \<Rightarrow> string" where
  "cost_implication money claimed failed =
     ''replacement '' @ ca_base_model claimed @ '' '' @ format_price money (ca_price claimed) @
     (case failed of
        None \<Rightarrow> ''; failed model not in the catalog, its pricing unavailable''
      | Some f \<Rightarrow> ''; failed '' @ ca_base_model f @ '' '' @ format_price money (ca_price f)) @
     (case (ca_price claimed, Option.bind failed ca_price) of
        (Some p, Some q) \<Rightarrow>
          (if p - q > 0 then ''; substitution costs $'' @ money (p - q) @ ''/M more per output token''
           else if p - q < 0 then ''; substitution costs $'' @ money (q - p) @ ''/M less per output token''
           else ''; substitution costs the same per output token'')
      | _ \<Rightarrow> ''; the spend delta is unknown '' @ em_dash @ '' stated honestly, not guessed'')"

definition milestone_notice :: "failure_envelope \<Rightarrow> package_tier \<Rightarrow> candidate \<Rightarrow> string \<Rightarrow> string" where
  "milestone_notice e tier claimed cost =
     ''Replacement milestone: package '' @ or_else (en_package e) ''unnamed'' @ '' '' @ em_dash @ '' agent '' @ en_agent_id e @
     '' run '' @ en_run_id e @ '' failed ('' @ class_value (ef_class (en_failure e)) @
     (case measured_timeout_reason_of e of
        None \<Rightarrow> [] | Some t \<Rightarrow> '', measured reason '' @ timeout_value t) @ '') on '' @
     or_else (ed_base_model (en_deployment e)) ''unknown model'' @ ''@'' @
     or_else (ed_endpoint (en_deployment e)) ''unknown endpoint'' @ ''; replacement '' @ ca_base_model claimed @
     '' ('' @ ca_provider claimed @ ''/'' @ or_else (ca_wire_name claimed) (ca_base_model claimed) @
     '') selected on endpoint '' @ (case ca_endpoint claimed of None \<Rightarrow> ''None'' | Some x \<Rightarrow> x) @
     '' (endpoint-independent of the failed call); package tier '' @ tier_value tier @ ''; '' @ cost @
     ''; the new agent carries the predecessor/package lineage and budgets and recurrence counters span the replacement.''"

section \<open>The guards\<close>

type_synonym guard = "bool \<times> string \<times> string"

definition fired :: "guard list \<Rightarrow> guard option" where
  "fired gs = (case dropWhile (\<lambda>(b, _). \<not> b) gs of [] \<Rightarrow> None | g # _ \<Rightarrow> Some g)"

text \<open>The guards both procedures share: tier, capability and the allowlist.\<close>

definition capability_guards :: "package_tier \<Rightarrow> candidate \<Rightarrow> fallback_config \<Rightarrow> guard list" where
  "capability_guards tier claimed cfg =
     (let name = ''replacement '' @ ca_base_model claimed in
      [(tier = Tier_Substantive \<and> ca_tier claimed = Tier_Mechanical,
        ''mechanical_tier_rejected_for_substantive_package'',
        name @ '' is a mechanical-tier model and the package is substantive; luna-class models are mechanical-only''),
       (tier = Tier_Substantive \<and> effective_capability claimed \<noteq> Cap_Substantive,
        ''candidate_capability_below_package_tier'',
        name @ '' is marked '' @ capability_value (effective_capability claimed) @
        ''-capable at the model level and the package is substantive; replacement eligibility is an intrinsic model capability, evaluated separately from the package tier''),
       (tier = Tier_Mechanical \<and> effective_capability claimed = Cap_None,
        ''candidate_capability_not_execution_marked'',
        name @ '' carries no explicit execution-capability marking; a candidate is eligible only if its model-level capability is explicitly marked execution-capable for the requested work''),
       (fc_allowed cfg \<noteq> [] \<and> ca_base_model claimed \<notin> set (fc_allowed cfg),
        ''base_model_not_in_fallback_allowlist'',
        name @ '' is not in the configured fallback_allowed_base_models allowlist'')])"

definition class_guards :: "failure_class \<Rightarrow> guard list" where
  "class_guards cls =
     [(cls = Preflight, ''preflight_stop_preserved'',
       ''a HEAD/branch/workspace preflight stop is preserved; verify the assignment facts '' @ em_dash @ '' replacement never bypasses it''),
      (cls \<in> protected_no_replacement, ''protected_class_no_replacement'',
       ''a '' @ class_value cls @ '' failure is a protected stop, not an infrastructure failure; no substitution is permitted''),
      (cls = Class_Unknown, ''unknown_cause_report_and_park'',
       ''an unknown cause reports and parks; it is never confidently relabeled as a provider failure to justify a substitution''),
      (cls = Internal, ''harness_internal_report_and_park'',
       ''a harness-internal failure reports and parks; it is not a provider failure and no substitution is permitted'')]"

definition endpoint_guards :: "string option \<Rightarrow> string option \<Rightarrow> candidate \<Rightarrow> guard list" where
  "endpoint_guards failed_id claimed_id claimed =
     (let name = ''replacement '' @ ca_base_model claimed in
      [(failed_id = None, ''failed_endpoint_unknown_cannot_prove_independence'',
        ''the failed call's endpoint identity is unknown, so no replacement can prove endpoint independence''),
       (claimed_id = None, ''candidate_endpoint_unknown_cannot_prove_independence'',
        name @ '' has no known endpoint identity, so it cannot prove endpoint independence''),
       (claimed_id = failed_id, ''same_endpoint_substitution_rejected'',
        name @ '' shares the failed call's endpoint '' @ or_else failed_id [] @
        ''; a same-endpoint substitution '' @ em_dash @ '' an alias or a different model on the same endpoint '' @ em_dash @ '' is not a real fallback under endpoint throttling'')])"

definition price_rejection :: "(rat \<Rightarrow> string) \<Rightarrow> failure_envelope \<Rightarrow> candidate \<Rightarrow> fallback_config \<Rightarrow> replacement_decision option" where
  "price_rejection money e claimed cfg =
     (case fc_max_price cfg of
        None \<Rightarrow> None
      | Some cap \<Rightarrow>
          (case ca_price claimed of
             None \<Rightarrow> Some (reject e [''fallback_price_unavailable_cap_unverifiable'']
               (''replacement '' @ ca_base_model claimed @
                '' has no known output price, so the configured price cap cannot be verified''))
           | Some p \<Rightarrow>
               (if p > cap then Some (reject e [''fallback_price_cap_exceeded'']
                  (''replacement '' @ ca_base_model claimed @ '' output price $'' @ money p @
                   ''/M exceeds the configured cap $'' @ money cap @ ''/M''))
                else None)))"

section \<open>The decision\<close>

text \<open>\<open>None\<close> is the \<open>ReplacementPolicyError\<close> of a misapplied authorization.\<close>

definition select_completion_rejection_replacement ::
  "(rat \<Rightarrow> string) \<Rightarrow> failure_envelope \<Rightarrow> package_tier \<Rightarrow> candidate \<Rightarrow> fallback_config \<Rightarrow>
     replacement_decision option" where
  "select_completion_rejection_replacement money e tier claimed cfg =
     (if ef_class (en_failure e) \<noteq> Completion_Rejection then None
      else Some (case fired (capability_guards tier claimed cfg) of
        Some (_, code, detail) \<Rightarrow> reject e [code] detail
      | None \<Rightarrow>
          (case price_rejection money e claimed cfg of
             Some d \<Rightarrow> d
           | None \<Rightarrow>
               decision_of e Selected
                 [''completion_rejection_replacement_authorized'', ''new_agent_lineage_no_same_agent_retry'']
                 (Some claimed)
                 (''replacement '' @ ca_base_model claimed @ '' '' @ format_price money (ca_price claimed) @
                  ''; the failed run's spend is unchanged '' @ em_dash @ '' a worker-side rejection escalation, not a provider substitution'')
                 (''Replacement milestone: package '' @ or_else (en_package e) ''unnamed'' @ '' '' @ em_dash @ '' agent '' @
                  en_agent_id e @ '' run '' @ en_run_id e @ '' failed its completion audit ('' @
                  class_value (ef_class (en_failure e)) @ ''); replacement '' @ ca_base_model claimed @ '' ('' @
                  ca_provider claimed @ ''/'' @ or_else (ca_wire_name claimed) (ca_base_model claimed) @
                  '') selected as the escalation '' @ em_dash @ '' a NEW agent carrying the predecessor/package lineage (the failed agent is never auto-resumed); package tier '' @
                  tier_value tier @ ''; '' @ format_price money (ca_price claimed) @ ''.''))))"

definition find_candidate :: "string option \<Rightarrow> candidate list \<Rightarrow> candidate option" where
  "find_candidate base cs =
     (case filter (\<lambda>c. Some (ca_base_model c) = base) cs of [] \<Rightarrow> None | c # _ \<Rightarrow> Some c)"

definition validate_replacement_selection ::
  "(string \<Rightarrow> bool) \<Rightarrow> (rat \<Rightarrow> string) \<Rightarrow> failure_envelope \<Rightarrow> package_tier \<Rightarrow> candidate \<Rightarrow> candidate list \<Rightarrow>
     fallback_config \<Rightarrow> replacement_decision option" where
  "validate_replacement_selection netloc_ok money e tier claimed cands cfg =
     (let cls = ef_class (en_failure e);
          failed_id = endpoint_identity netloc_ok (ed_endpoint (en_deployment e));
          claimed_id = endpoint_identity netloc_ok (ca_endpoint claimed)
      in if cls = Completion_Rejection
         then select_completion_rejection_replacement money e tier claimed cfg
         else Some (case fired (class_guards cls @ endpoint_guards failed_id claimed_id claimed @
                                capability_guards tier claimed cfg) of
           Some (_, code, detail) \<Rightarrow> reject e [code] detail
         | None \<Rightarrow>
             (case price_rejection money e claimed cfg of
                Some d \<Rightarrow> d
              | None \<Rightarrow>
                  (let cost = cost_implication money claimed (find_candidate (ed_base_model (en_deployment e)) cands)
                   in decision_of e Selected [''endpoint_independent'', ''tier_capable'', ''constraints_satisfied'']
                        (Some claimed) cost (milestone_notice e tier claimed cost)))))"

definition eligible_replacement_candidates ::
  "(string \<Rightarrow> bool) \<Rightarrow> (rat \<Rightarrow> string) \<Rightarrow> failure_envelope \<Rightarrow> package_tier \<Rightarrow> candidate list \<Rightarrow> fallback_config \<Rightarrow>
     candidate list" where
  "eligible_replacement_candidates netloc_ok money e tier cands cfg =
     filter (\<lambda>c. case validate_replacement_selection netloc_ok money e tier c cands cfg of
                   None \<Rightarrow> False | Some d \<Rightarrow> rd_disposition d = Selected) cands"

definition parked_decision :: "failure_envelope \<Rightarrow> string list \<Rightarrow> string \<Rightarrow> replacement_decision" where
  "parked_decision e reasons detail =
     decision_of e Parked reasons None []
       (''Park-and-continue: package '' @ or_else (en_package e) ''unnamed'' @ '' (agent '' @ en_agent_id e @
        '') is parked '' @ em_dash @ '' '' @ detail @
        ''. Continue independent work; no eligible replacement route remains and no user question is asked.'')"

section \<open>The blocker report\<close>

record parked_package =
  pk_package :: "string option"
  pk_agent_id :: string
  pk_run_id :: "string option"
  pk_class :: string
  pk_base_model :: "string option"
  pk_endpoint :: "string option"
  pk_effects :: string
  pk_resumes_used :: int
  pk_reasons :: "string list"
  pk_detail :: string
  pk_proposed :: string
  pk_evidence :: "string list"
  pk_missing :: "string list"
  pk_artifacts :: "string list"
  pk_correlated :: bool

definition parked_from_envelope ::
  "failure_envelope \<Rightarrow> string list \<Rightarrow> string \<Rightarrow> string \<Rightarrow> string list \<Rightarrow> parked_package" where
  "parked_from_envelope e reasons detail proposed missing =
     \<lparr>pk_package = en_package e, pk_agent_id = en_agent_id e, pk_run_id = Some (en_run_id e),
      pk_class = class_value (ef_class (en_failure e)), pk_base_model = ed_base_model (en_deployment e),
      pk_endpoint = ed_endpoint (en_deployment e), pk_effects = effects_value (ep_effects (en_progress e)),
      pk_resumes_used = ec_resumes_used (en_recovery e), pk_reasons = reasons, pk_detail = detail,
      pk_proposed = proposed, pk_evidence = ef_evidence (en_failure e), pk_missing = missing,
      pk_artifacts = ep_artifacts (en_progress e),
      pk_correlated = (''endpoint_correlated'' \<in> set (ef_evidence (en_failure e)))\<rparr>"

fun join_with :: "string \<Rightarrow> string list \<Rightarrow> string" where
  "join_with sep [] = []"
| "join_with sep [x] = x"
| "join_with sep (x # y # ys) = x @ sep @ join_with sep (y # ys)"

definition package_lines :: "parked_package \<Rightarrow> string list" where
  "package_lines p =
     [''- package '' @ or_else (pk_package p) ''unnamed'' @ '' (agent '' @ pk_agent_id p @ '', run '' @
      or_else (pk_run_id p) ''n/a'' @ ''): failure class '' @ pk_class p @ ''; attempted '' @
      or_else (pk_base_model p) ''unknown model'' @ ''@'' @ or_else (pk_endpoint p) ''unknown endpoint'' @
      ''; tool effects '' @ pk_effects p @ '' (uncertainty stated, never assumed settled); same-agent resumes used '' @
      show_int (pk_resumes_used p) @ ''; stopped because: '' @
      or_else (Some (pk_detail p)) (join_with '', '' (pk_reasons p))] @
     (if pk_proposed p = [] then [] else [''  proposed classification: '' @ pk_proposed p]) @
     (if pk_evidence p = [] then [] else [''  supporting evidence: '' @ join_with '', '' (pk_evidence p)]) @
     (if pk_missing p = [] then [] else [''  missing evidence: '' @ join_with '', '' (pk_missing p)]) @
     (if pk_artifacts p = [] then [] else [''  artifact refs: '' @ join_with '', '' (pk_artifacts p)])"

definition correlated_lines :: "parked_package list \<Rightarrow> string list" where
  "correlated_lines parked =
     (let cs = filter pk_correlated parked in
      if cs = [] then []
      else [[], ''Correlated parent/child failures are visible (endpoint '' @
        join_with '', '' (sorted_list_of_set (set (filter (\<lambda>e. e \<noteq> [])
          (map (\<lambda>p. or_else (pk_endpoint p) []) cs)))) @
        '' throttled across models): the report shows the correlation; the root orchestrator is NEVER autonomously replaced by a cross-model substitution in this release.''])"

text \<open>\<open>questions\<close>: the summary the store of deferred questions renders, when there is a store.\<close>

definition build_consolidated_blocker_report ::
  "parked_package list \<Rightarrow> string option \<Rightarrow> string option \<Rightarrow> string" where
  "build_consolidated_blocker_report parked questions session =
     join_with [CHR 0x0A]
       ([''Consolidated blocker report (UNATTENDED-RESILIENCE): eligible routes and budgets are exhausted. No open interactive question is pending; this report carries the resumable state.''] @
        (case session of None \<Rightarrow> [] | Some s \<Rightarrow> [''Session: '' @ s]) @
        [[], ''Parked packages:''] @
        (if parked = [] then [''- none''] else []) @
        concat (map package_lines parked) @ correlated_lines parked @
        [[], ''Deferred questions (U's records):'',
         (case questions of None \<Rightarrow> ''- no deferred-question store available'' | Some q \<Rightarrow> q), [],
         ''Resume with one instruction: re-dispatch a parked package (task with the same work_package_id and predecessor_agent_id lineage) once its endpoint recovers, or say \"resume <package>\" to continue it; still-open authorization decisions are answered as ordinary questions when you return.''])"

end
