(* ===== verification/Failure_Props.thy ===== *)
theory Failure_Props
  imports Failures
begin

text \<open>
  The bounded walk of the cause graph against reachability in the graph, and what a transient
  classification guarantees about everything reachable from the failure.
\<close>

inductive_set reached :: "heap \<Rightarrow> nat \<Rightarrow> nat set" for h :: heap and a :: nat where
  here: "a \<in> reached h a"
| step: "x \<in> reached h a \<Longrightarrow> y \<in> set (successors (h x)) \<Longrightarrow> y \<in> reached h a"

definition dominates :: "py_lib \<Rightarrow> exc \<Rightarrow> bool" where
  "dominates lib e \<longleftrightarrow>
     (let c = fi_category (classify_single lib e)
      in c \<in> protected_categories \<or> (c = Unknown \<and> isinstance e [Refusal]))"

section \<open>The walk\<close>

lemma dropWhile_in_cases:
  obtains (nothing) "dropWhile (\<lambda>a. a \<in> S) xs = []" "set xs \<subseteq> S"
  | (some) y ys where "dropWhile (\<lambda>a. a \<in> S) xs = y # ys" "y \<notin> S" "set xs \<subseteq> S \<union> set (y # ys)" "set (y # ys) \<subseteq> set xs"
proof (cases "dropWhile (\<lambda>a. a \<in> S) xs")
  case Nil
  then have "set xs \<subseteq> S" by (auto simp: dropWhile_eq_Nil_conv)
  with Nil show ?thesis by (rule nothing)
next
  case (Cons y ys)
  have "y \<notin> S" using Cons by (metis hd_dropWhile list.distinct(1) list.sel(1))
  moreover have "set xs \<subseteq> set (takeWhile (\<lambda>a. a \<in> S) xs) \<union> set (y # ys)"
    using Cons by (metis set_append subset_refl takeWhile_dropWhile_id)
  then have "set xs \<subseteq> S \<union> set (y # ys)" using set_takeWhileD by fastforce
  moreover have "set (y # ys) \<subseteq> set xs" using Cons by (metis set_dropWhileD subsetI)
  ultimately show ?thesis using some [OF Cons] by blast
qed

lemma walk_eqs:
  "dropWhile (\<lambda>a. a \<in> set seen) pending = [] \<Longrightarrow> walk_from h room seen pending = ([], False)"
  "dropWhile (\<lambda>a. a \<in> set seen) pending = c # rest \<Longrightarrow> walk_from h 0 seen pending = ([], True)"
  "dropWhile (\<lambda>a. a \<in> set seen) pending = c # rest \<Longrightarrow> walk_from h (Suc n) seen pending =
     (case walk_from h n (c # seen) (rest @ successors (h c)) of (os, t) \<Rightarrow> (c # os, t))"
  by (subst walk_from.simps, simp only: list.case nat.case)+

lemma walk_facts:
  "walk_from h room seen pending = (ordered, truncated) \<Longrightarrow>
     distinct ordered \<and> set ordered \<inter> set seen = {} \<and> length ordered \<le> room \<and>
     (\<not> truncated \<longrightarrow> set pending \<subseteq> set seen \<union> set ordered \<and>
        (\<forall>x \<in> set ordered. set (successors (h x)) \<subseteq> set seen \<union> set ordered)) \<and>
     (truncated \<longrightarrow> length ordered = room \<and>
        (\<exists>y. y \<notin> set seen \<union> set ordered \<and> (y \<in> set pending \<or> (\<exists>x \<in> set ordered. y \<in> set (successors (h x))))))"
proof (induction room arbitrary: seen pending ordered truncated)
  case 0
  show ?case
  proof (cases rule: dropWhile_in_cases [of "set seen" pending])
    case nothing
    with 0 show ?thesis by (simp add: walk_eqs)
  next
    case (some c rest)
    with 0 show ?thesis by (auto simp: walk_eqs)
  qed
next
  case (Suc n)
  show ?case
  proof (cases rule: dropWhile_in_cases [of "set seen" pending])
    case nothing
    with Suc.prems show ?thesis by (simp add: walk_eqs)
  next
    case (some c rest)
    obtain os t where w: "walk_from h n (c # seen) (rest @ successors (h c)) = (os, t)"
      by (cases "walk_from h n (c # seen) (rest @ successors (h c))")
    with Suc.prems some have o: "ordered = c # os" "truncated = t" by (auto simp: walk_eqs)
    note ih = Suc.IH [OF w]
    from ih have ih1: "distinct os" "set os \<inter> set (c # seen) = {}" "length os \<le> n" by blast+
    have open_case: "set pending \<subseteq> set seen \<union> set ordered \<and>
        (\<forall>x \<in> set ordered. set (successors (h x)) \<subseteq> set seen \<union> set ordered)" if "\<not> t"
    proof -
      from ih that have "set (rest @ successors (h c)) \<subseteq> set (c # seen) \<union> set os"
        "\<forall>x \<in> set os. set (successors (h x)) \<subseteq> set (c # seen) \<union> set os" by blast+
      with some show ?thesis unfolding o by auto
    qed
    have cut_case: "length ordered = Suc n \<and> (\<exists>y. y \<notin> set seen \<union> set ordered \<and>
        (y \<in> set pending \<or> (\<exists>x \<in> set ordered. y \<in> set (successors (h x)))))" if t
    proof -
      from ih that obtain y where "length os = n" "y \<notin> set (c # seen) \<union> set os"
        "y \<in> set (rest @ successors (h c)) \<or> (\<exists>x \<in> set os. y \<in> set (successors (h x)))" by blast
      with some show ?thesis unfolding o by (intro conjI exI [of _ y]) auto
    qed
    show ?thesis using ih1 some(2) open_case cut_case unfolding o by auto
  qed
qed

lemma walk_closed:
  assumes "walk_from h room seen pending = (ordered, truncated)" "set pending \<subseteq> R"
    and closed: "\<And>x y. x \<in> R \<Longrightarrow> y \<in> set (successors (h x)) \<Longrightarrow> y \<in> R"
  shows "set ordered \<subseteq> R"
  using assms(1,2)
proof (induction room arbitrary: seen pending ordered truncated)
  case 0
  then show ?case by (cases rule: dropWhile_in_cases [of "set seen" pending]) (auto simp: walk_eqs)
next
  case (Suc n)
  show ?case
  proof (cases rule: dropWhile_in_cases [of "set seen" pending])
    case nothing
    with Suc.prems show ?thesis by (simp add: walk_eqs)
  next
    case (some c rest)
    obtain os t where w: "walk_from h n (c # seen) (rest @ successors (h c)) = (os, t)"
      by (cases "walk_from h n (c # seen) (rest @ successors (h c))")
    have "set (rest @ successors (h c)) \<subseteq> R" using some Suc.prems(2) closed by auto
    from Suc.IH [OF w this] Suc.prems some w show ?thesis by (auto simp: walk_eqs)
  qed
qed

lemma walk_reached:
  assumes w: "walk_failures h a = (ordered, truncated)"
  shows walk_sound: "set ordered \<subseteq> reached h a"
    and walk_complete: "\<not> truncated \<Longrightarrow> set ordered = reached h a"
    and walk_bound: "truncated \<longleftrightarrow> \<not> (finite (reached h a) \<and> card (reached h a) \<le> 8)"
proof -
  have w': "walk_from h 8 [] [a] = (ordered, truncated)"
    using w by (simp add: walk_failures_def max_failure_walk_def)
  note facts = walk_facts [OF w']
  show sub: "set ordered \<subseteq> reached h a"
    by (rule walk_closed [OF w']) (auto intro: reached.intros)
  show complete: "set ordered = reached h a" if "\<not> truncated"
  proof
    show "reached h a \<subseteq> set ordered"
    proof
      fix x assume "x \<in> reached h a"
      then show "x \<in> set ordered" by induction (use facts that in auto)
    qed
  qed (rule sub)
  show "truncated \<longleftrightarrow> \<not> (finite (reached h a) \<and> card (reached h a) \<le> 8)"
  proof
    assume t: truncated
    with facts sub obtain y where y: "y \<notin> set ordered" "y \<in> reached h a" and len: "length ordered = 8"
      by (auto intro: reached.intros)
    have "card (insert y (set ordered)) = 9" using y len facts by (simp add: distinct_card)
    moreover have "insert y (set ordered) \<subseteq> reached h a" using y sub by simp
    ultimately show "\<not> (finite (reached h a) \<and> card (reached h a) \<le> 8)"
      using card_mono [of "reached h a" "insert y (set ordered)"] by fastforce
  next
    assume "\<not> (finite (reached h a) \<and> card (reached h a) \<le> 8)"
    moreover have "finite (reached h a) \<and> card (reached h a) \<le> 8" if "\<not> truncated"
      using complete [OF that] facts by (metis List.finite_set distinct_card)
    ultimately show truncated by blast
  qed
qed

section \<open>The scan\<close>

lemma dominates_unknown:
  "dominates lib e \<Longrightarrow> fi_category (classify_single lib e) \<in> insert Unknown protected_categories"
  by (auto simp: dominates_def Let_def)

lemma Unknown_unprotected [simp]: "Unknown \<notin> protected_categories"
  by (simp add: protected_categories_def)

lemma scan_members_Inl:
  "scan_members lib h ms inh = Inl i \<Longrightarrow> \<exists>m \<in> set ms. dominates lib (h m) \<and> i = classify_single lib (h m)"
  by (induction lib h ms inh rule: scan_members.induct) (auto simp: Let_def dominates_def split: if_splits)

lemma scan_members_Cons:
  "scan_members lib h (m # ms) inh =
     (if dominates lib (h m) then Inl (classify_single lib (h m))
      else scan_members lib h ms
        (if inh = None \<and> fi_category (classify_single lib (h m)) \<noteq> Unknown
         then Some (classify_single lib (h m)) else inh))"
  by (cases inh) (auto simp: Let_def dominates_def)

declare scan_members.simps(2) [simp del]

lemma scan_members_Inr:
  "scan_members lib h ms inh = Inr r \<Longrightarrow>
     (\<forall>m \<in> set ms. \<not> dominates lib (h m)) \<and>
     (case inh of
        Some i \<Rightarrow> r = Some i
      | None \<Rightarrow>
          (case r of
             None \<Rightarrow> \<forall>m \<in> set ms. fi_category (classify_single lib (h m)) = Unknown
           | Some i \<Rightarrow> \<exists>m \<in> set ms. i = classify_single lib (h m) \<and> fi_category i \<noteq> Unknown))"
proof (induction ms arbitrary: inh)
  case Nil
  then show ?case by (auto split: option.split)
next
  case (Cons m ms)
  then have m: "\<not> dominates lib (h m)" by (auto simp: scan_members_Cons split: if_splits)
  show ?case
  proof (cases "inh = None \<and> fi_category (classify_single lib (h m)) \<noteq> Unknown")
    case True
    with Cons.prems m have "scan_members lib h ms (Some (classify_single lib (h m))) = Inr r"
      by (simp add: scan_members_Cons)
    from Cons.IH [OF this] True m show ?thesis by simp
  next
    case False
    with Cons.prems m have "scan_members lib h ms inh = Inr r"
      by (auto simp: scan_members_Cons)
    from Cons.IH [OF this] False m show ?thesis by (cases inh; cases r) auto
  qed
qed

lemma scan_members_first:
  "scan_members lib h ms inh =
     (case find (\<lambda>m. dominates lib (h m)) ms of
        Some m \<Rightarrow> Inl (classify_single lib (h m))
      | None \<Rightarrow> Inr (case inh of
          Some i \<Rightarrow> Some i
        | None \<Rightarrow> map_option (\<lambda>m. classify_single lib (h m))
            (find (\<lambda>m. fi_category (classify_single lib (h m)) \<noteq> Unknown) ms)))"
  by (induction ms arbitrary: inh) (auto simp: scan_members_Cons split: option.split)

text \<open>Which member decides: the first dominating one, else the first recognised one of a complete walk.\<close>

lemma classification_member:
  "case find (\<lambda>x. dominates lib (h x)) (fst (walk_failures h a)) of
     Some x \<Rightarrow> classify_failure_fresh lib h a = classify_single lib (h x)
   | None \<Rightarrow> fi_category (classify_failure_fresh lib h a) \<noteq> Unknown \<longrightarrow>
       (\<exists>x \<in> reached h a. find (\<lambda>x. fi_category (classify_single lib (h x)) \<noteq> Unknown) (fst (walk_failures h a)) = Some x \<and>
          classify_failure_fresh lib h a = classify_single lib (h x))"
proof -
  obtain ms t where w: "walk_failures h a = (ms, t)" by (cases "walk_failures h a")
  show ?thesis
  proof (cases "find (\<lambda>x. dominates lib (h x)) ms")
    case (Some x)
    then show ?thesis by (simp add: w classify_failure_fresh_def scan_members_first)
  next
    case none: None
    show ?thesis
    proof (cases "find (\<lambda>x. fi_category (classify_single lib (h x)) \<noteq> Unknown) ms")
      case None
      have "fi_category (classify_failure_fresh lib h a) = Unknown"
      proof (cases t)
        case False
        with walk_complete [OF w] have "a \<in> set ms" using reached.here [of a h] by blast
        then have "fi_category (classify_single lib (h a)) = Unknown" using None by (auto simp: find_None_iff)
        then show ?thesis by (simp add: w classify_failure_fresh_def scan_members_first none None False)
      qed (simp add: w classify_failure_fresh_def scan_members_first none info_of_def)
      with none show ?thesis by (simp add: w)
    next
      case (Some x)
      then have "x \<in> reached h a" using walk_sound [OF w] by (auto simp: find_Some_iff)
      with none Some show ?thesis
        by (cases t) (auto simp: w classify_failure_fresh_def scan_members_first info_of_def)
    qed
  qed
qed

lemma classification_exact:
  "let c = fi_category (classify_failure_fresh lib h a)
   in (c \<notin> insert Unknown protected_categories \<longleftrightarrow>
         finite (reached h a) \<and> card (reached h a) \<le> 8 \<and>
         (\<forall>x \<in> reached h a. \<not> dominates lib (h x)) \<and>
         (\<exists>x \<in> reached h a. fi_category (classify_single lib (h x)) \<noteq> Unknown)) \<and>
      (c = Unknown \<or> (\<exists>x \<in> reached h a. c = fi_category (classify_single lib (h x)))) \<and>
      ((\<exists>x \<in> reached h a. dominates lib (h x)) \<longrightarrow>
         \<not> retry_eligible (classify_failure_fresh lib h a) \<and> \<not> failover_eligible (classify_failure_fresh lib h a))"
proof -
  obtain ms t where w: "walk_failures h a = (ms, t)" by (cases "walk_failures h a")
  note sound = walk_sound [OF w] and complete = walk_complete [OF w] and bound = walk_bound [OF w]
  have here: "a \<in> reached h a" by (rule reached.here)
  have safe: "fi_category (classify_failure_fresh lib h a) \<in> insert Unknown protected_categories \<Longrightarrow>
      \<not> retry_eligible (classify_failure_fresh lib h a) \<and> \<not> failover_eligible (classify_failure_fresh lib h a)"
    by (auto simp: retry_eligible_def failover_eligible_def retry_categories_def failover_categories_def
        protected_categories_def)
  consider (stop) i m where "scan_members lib h ms None = Inl i" "m \<in> set ms" "dominates lib (h m)"
      "i = classify_single lib (h m)"
    | (cut) r where "scan_members lib h ms None = Inr r" t
    | (none) "scan_members lib h ms None = Inr None" "\<not> t"
    | (some) m where "scan_members lib h ms None = Inr (Some (classify_single lib (h m)))" "\<not> t" "m \<in> set ms"
        "fi_category (classify_single lib (h m)) \<notin> insert Unknown protected_categories"
  proof (cases "scan_members lib h ms None")
    case (Inl i)
    with scan_members_Inl [OF Inl] stop show ?thesis by blast
  next
    case (Inr r)
    show ?thesis
    proof (cases t)
      case True
      with Inr show ?thesis by (rule cut)
    next
      case open_walk: False
      show ?thesis
      proof (cases r)
        case None
        with Inr open_walk show ?thesis by (intro none) simp_all
      next
        case (Some i)
        with scan_members_Inr [OF Inr] obtain m where m: "m \<in> set ms" "i = classify_single lib (h m)"
          "fi_category (classify_single lib (h m)) \<notin> insert Unknown protected_categories"
          by (auto simp: dominates_def Let_def)
        with Inr Some have "scan_members lib h ms None = Inr (Some (classify_single lib (h m)))" by simp
        from some [OF this open_walk m(1,3)] show ?thesis .
      qed
    qed
  qed
  then show ?thesis
  proof cases
    case stop
    then have "classify_failure_fresh lib h a = classify_single lib (h m)"
      by (simp add: classify_failure_fresh_def w)
    with safe stop sound dominates_unknown [OF stop(3)] show ?thesis by (auto simp: Let_def)
  next
    case cut
    then have "fi_category (classify_failure_fresh lib h a) = Unknown"
      by (simp add: classify_failure_fresh_def w info_of_def)
    with safe bound cut(2) show ?thesis by (auto simp: Let_def)
  next
    case none
    then have "classify_failure_fresh lib h a = classify_single lib (h a)"
      by (simp add: classify_failure_fresh_def w)
    moreover have "\<forall>m \<in> reached h a. fi_category (classify_single lib (h m)) = Unknown"
      using scan_members_Inr [OF none(1)] complete [OF none(2)] by simp
    ultimately show ?thesis using safe here by (auto simp: Let_def)
  next
    case some
    then have "classify_failure_fresh lib h a = classify_single lib (h m)"
      by (simp add: classify_failure_fresh_def w)
    moreover have "\<forall>m \<in> reached h a. \<not> dominates lib (h m)"
      using scan_members_Inr [OF some(1)] complete [OF some(2)] by simp
    ultimately show ?thesis using some bound complete [OF some(2)] by (auto simp: Let_def)
  qed
qed

lemma dominated_category:
  assumes "x \<in> reached h a" "dominates lib (h x)"
  shows "fi_category (classify_failure_fresh lib h a) \<in> insert Unknown protected_categories"
  using classification_exact [of lib h a] assms by (auto simp: Let_def)

section \<open>Properties\<close>

text \<open>
  C38. A transient classification hides nothing.  A failure is classified as neither unknown nor
  protected exactly when at most eight failures are reachable from it through causes and group
  members, none of them is protected or a model refusal, and some one is recognised.  The member that decides is
  the first protected one or refusal in the order of the walk, and without such a one the first that is
  recognised.  In particular no cancellation, authorization or
  permanent error anywhere behind a failure is ever retried or failed over.
\<close>

theorem transient_classification_exact:
  "let c = fi_category (classify_failure_fresh lib h a)
   in (c \<notin> insert Unknown protected_categories \<longleftrightarrow>
         finite (reached h a) \<and> card (reached h a) \<le> 8 \<and>
         (\<forall>x \<in> reached h a. \<not> dominates lib (h x)) \<and>
         (\<exists>x \<in> reached h a. fi_category (classify_single lib (h x)) \<noteq> Unknown)) \<and>
      (case find (\<lambda>x. dominates lib (h x)) (fst (walk_failures h a)) of
         Some x \<Rightarrow> classify_failure_fresh lib h a = classify_single lib (h x)
       | None \<Rightarrow> c \<noteq> Unknown \<longrightarrow>
           (\<exists>x \<in> reached h a. find (\<lambda>x. fi_category (classify_single lib (h x)) \<noteq> Unknown) (fst (walk_failures h a)) = Some x \<and>
              classify_failure_fresh lib h a = classify_single lib (h x))) \<and>
      ((\<exists>x \<in> reached h a. dominates lib (h x)) \<longrightarrow>
         \<not> retry_eligible (classify_failure_fresh lib h a) \<and> \<not> failover_eligible (classify_failure_fresh lib h a))"
  using classification_exact [of lib h a] classification_member [of lib h a] unfolding Let_def by (intro conjI) blast+

definition plain_exc :: "exc_class list \<Rightarrow> exc" where
  "plain_exc cs = \<lparr>ex_classes = cs, ex_cause = None, ex_members = [], ex_status = PNone, ex_error_code = PNone,
     ex_error_type = PNone, ex_body = BodyValue PNone, ex_response = None, ex_raw_response = None,
     ex_retry_after = None, ex_headers = None, ex_declared = None, ex_info = None\<rparr>"

definition no_lib :: py_lib where
  "no_lib = \<lparr>loads = \<lambda>_. None, decode_replace = id, float_of = \<lambda>_. None, date_delay = \<lambda>_. None\<rparr>"

text \<open>A connection error whose cause is a group of a timeout and a cancellation.\<close>

definition masked_heap :: heap where
  "masked_heap a =
     (if a = 0 then plain_exc [HttpxRequest]\<lparr>ex_cause := Some 1\<rparr>
      else if a = 1 then plain_exc []\<lparr>ex_members := [2, 3], ex_cause := Some 0\<rparr>
      else if a = 2 then plain_exc [HttpxTimeout, HttpxRequest]
      else plain_exc [CancelledError])"

theorem transient_classification_exact_witness:
  "\<not> retry_eligible (classify_failure_fresh no_lib masked_heap 0) \<and>
   fi_category (classify_failure_fresh no_lib masked_heap 2) = Timeout"
proof -
  have "3 \<in> reached masked_heap 0"
    by (rule reached.step [OF reached.step [OF reached.here, of 1]])
      (simp_all add: masked_heap_def plain_exc_def successors_def)
  moreover have "dominates no_lib (masked_heap 3)" by code_simp
  moreover have "fi_category (classify_failure_fresh no_lib masked_heap 2) = Timeout" by code_simp
  ultimately show ?thesis
    using transient_classification_exact [of no_lib masked_heap 0] by (auto simp: Let_def)
qed

end
