(* ===== verification/Recovery_Props.thy ===== *)
theory Recovery_Props
  imports Replacement Failure_Props
begin

text \<open>
  What the envelope and the replacement policy guarantee, stated over the failed run and the
  exception behind it.
\<close>

section \<open>Eligibility\<close>

definition stopped_by_budget :: "class_facts \<Rightarrow> bool" where
  "stopped_by_budget f \<longleftrightarrow> (\<exists>s \<in> set budget_stop_reasons. cf_stop_reason f = Some s)"

text \<open>An operational signature of a transient provider failure.\<close>

definition transient_signature :: "class_facts \<Rightarrow> bool" where
  "transient_signature f \<longleftrightarrow>
     cf_timeout f \<noteq> None \<or>
     (\<not> stopped_by_budget f \<and> cf_phase f \<noteq> Monitor \<and> \<not> launch_evidence f \<and>
      (\<exists>c \<in> transient_cause_categories. cf_cause f = Some c))"

definition failed_launch :: "class_facts \<Rightarrow> bool" where
  "failed_launch f \<longleftrightarrow>
     cf_timeout f = None \<and> \<not> stopped_by_budget f \<and> cf_phase f \<noteq> Monitor \<and> launch_evidence f \<and>
     (\<forall>c \<in> protected_categories. cf_cause f \<noteq> Some c)"

lemmas class_defs = derive_class_def transient_classes_def transient_signature_def failed_launch_def
  stopped_by_budget_def transient_cause_categories_def protected_categories_def

lemma derive_class_cases:
  "fst (derive_class f) \<in> transient_classes - {Launch_Failure} \<longleftrightarrow> transient_signature f"
  "fst (derive_class f) = Launch_Failure \<longleftrightarrow> failed_launch f"
proof -
  have stop: "(case cf_stop_reason f of None \<Rightarrow> False | Some s \<Rightarrow> s \<in> set budget_stop_reasons) \<longleftrightarrow> stopped_by_budget f"
    by (auto simp: stopped_by_budget_def split: option.split)
  have "(fst (derive_class f) \<in> transient_classes - {Launch_Failure} \<longleftrightarrow> transient_signature f) \<and>
        (fst (derive_class f) = Launch_Failure \<longleftrightarrow> failed_launch f)"
  proof (cases "cf_cause f")
    case None
    then show ?thesis by (simp add: class_defs(1-4,6-) stop Let_def)
  next
    case (Some c)
    then show ?thesis by (cases c) (simp_all add: class_defs(1-4,6-) stop Let_def)
  qed
  then show "fst (derive_class f) \<in> transient_classes - {Launch_Failure} \<longleftrightarrow> transient_signature f"
    "fst (derive_class f) = Launch_Failure \<longleftrightarrow> failed_launch f" by blast+
qed

lemma derive_eligibility_cases:
  "fst (derive_eligibility cls reasons measured phase effects) =
     (if cls = Launch_Failure
      then (if reasons \<noteq> [] \<and> set reasons \<subseteq> set launch_transient_exclusions then Eligible else Prohibited)
      else if cls \<in> transient_classes \<and> measured \<and> phase = Llm_Call
      then (if effects = Effects_Settled then Eligible else Reconcile_Required)
      else Prohibited)"
  by (cases cls; cases effects)
    (auto simp: derive_eligibility_def protected_classes_def transient_classes_def list_all_iff)

lemma build_eligibility:
  "ec_eligibility (en_recovery (build_failure_envelope netloc_ok redact now ob rf)) =
     fst (derive_eligibility (fst (derive_class (facts_of ob rf)))
       (case rf_exclusions rf of None \<Rightarrow> [] | Some r \<Rightarrow> r) (evidence_of ob \<noteq> None) (cf_phase (facts_of ob rf))
       (fst (derive_tool_effects (cf_phase (facts_of ob rf)) (rf_calls_present rf) (rf_calls_pending rf))))"
  by (simp add: build_failure_envelope_def Let_def split: prod.split)

lemma build_class:
  "ef_class (en_failure (build_failure_envelope netloc_ok redact now ob rf)) = fst (derive_class (facts_of ob rf))"
  by (simp add: build_failure_envelope_def Let_def split: prod.split)

section \<open>The replacement policy\<close>

lemma fired_None: "fired gs = None \<longleftrightarrow> list_all (\<lambda>g. \<not> fst g) gs"
  by (induction gs) (auto simp: fired_def split: list.splits)

lemma fired_case:
  "(case fired gs of Some (b, code, detail) \<Rightarrow> reject e [code] detail | None \<Rightarrow> d) =
     (if list_all (\<lambda>g. \<not> fst g) gs then d
      else reject e [fst (snd (the (fired gs)))] (snd (snd (the (fired gs)))))"
  using fired_None [of gs] by (auto split: option.split)

text \<open>What a replacement must satisfy whatever the failure was.\<close>

definition capable :: "package_tier \<Rightarrow> candidate \<Rightarrow> bool" where
  "capable tier c \<longleftrightarrow>
     (case tier of
        Tier_Substantive \<Rightarrow> ca_tier c = Tier_Substantive \<and> effective_capability c = Cap_Substantive
      | Tier_Mechanical \<Rightarrow> effective_capability c \<noteq> Cap_None)"

definition affordable :: "fallback_config \<Rightarrow> candidate \<Rightarrow> bool" where
  "affordable cfg c \<longleftrightarrow>
     (case fc_max_price cfg of None \<Rightarrow> True | Some cap \<Rightarrow> \<exists>p. ca_price c = Some p \<and> p \<le> cap)"

definition permitted :: "package_tier \<Rightarrow> candidate \<Rightarrow> fallback_config \<Rightarrow> bool" where
  "permitted tier c cfg \<longleftrightarrow>
     capable tier c \<and> ca_base_model c \<in> (if fc_allowed cfg = [] then UNIV else set (fc_allowed cfg)) \<and>
     affordable cfg c"

definition independent :: "(string \<Rightarrow> bool) \<Rightarrow> failure_envelope \<Rightarrow> candidate \<Rightarrow> bool" where
  "independent netloc_ok e c \<longleftrightarrow>
     (\<exists>i j. endpoint_identity netloc_ok (ed_endpoint (en_deployment e)) = Some i \<and>
        endpoint_identity netloc_ok (ca_endpoint c) = Some j \<and> i \<noteq> j)"

lemma capability_guards_pass:
  "list_all (\<lambda>g. \<not> fst g) (capability_guards tier c cfg) \<longleftrightarrow>
     capable tier c \<and> ca_base_model c \<in> (if fc_allowed cfg = [] then UNIV else set (fc_allowed cfg))"
  by (cases tier; cases "ca_tier c") (auto simp: capability_guards_def capable_def Let_def)

lemma class_guards_pass:
  "list_all (\<lambda>g. \<not> fst g) (class_guards cls) \<longleftrightarrow> cls \<in> insert Completion_Rejection transient_classes"
  by (cases cls) (simp_all add: class_guards_def protected_no_replacement_def transient_classes_def)

lemma endpoint_guards_pass:
  "list_all (\<lambda>g. \<not> fst g) (endpoint_guards i j c) \<longleftrightarrow> (\<exists>a b. i = Some a \<and> j = Some b \<and> a \<noteq> b)"
  by (auto simp: endpoint_guards_def Let_def)

lemma price_rejection_None: "price_rejection money e c cfg = None \<longleftrightarrow> affordable cfg c"
  by (auto simp: price_rejection_def affordable_def split: option.split)

lemma price_rejection_Some: "price_rejection money e c cfg = Some d \<Longrightarrow> rd_disposition d = Rejected \<and> rd_candidate d = None"
  by (auto simp: price_rejection_def reject_def decision_of_def split: option.splits if_splits)

lemma reject_simps [simp]: "rd_disposition (reject e r d) = Rejected" "rd_candidate (reject e r d) = None"
  by (simp_all add: reject_def decision_of_def)

lemma decision_of_simps [simp]:
  "rd_disposition (decision_of e disp r c x n) = disp" "rd_candidate (decision_of e disp r c x n) = c"
  by (simp_all add: decision_of_def)

definition decided :: "bool \<Rightarrow> candidate \<Rightarrow> replacement_decision option \<Rightarrow> bool" where
  "decided yes c r \<longleftrightarrow>
     (\<exists>d. r = Some d \<and> rd_disposition d = (if yes then Selected else Rejected) \<and>
        rd_candidate d = (if yes then Some c else None))"

lemma decided_after_price:
  assumes "rd_disposition d = Selected" "rd_candidate d = Some c"
  shows "decided (ok \<and> affordable cfg c) c
    (Some (if ok then (case price_rejection money e c cfg of Some r \<Rightarrow> r | None \<Rightarrow> d)
           else reject e reasons detail))"
  using assms price_rejection_None [of money e c cfg] price_rejection_Some [of money e c cfg]
  by (auto simp: decided_def split: option.split)

lemma validate_decided:
  "decided
     (permitted tier c cfg \<and>
      (ef_class (en_failure e) = Completion_Rejection \<or>
       ef_class (en_failure e) \<in> transient_classes \<and> independent netloc_ok e c))
     c (validate_replacement_selection netloc_ok money e tier c cands cfg)"
proof (cases "ef_class (en_failure e) = Completion_Rejection")
  case True
  let ?ok = "list_all (\<lambda>g. \<not> fst g) (capability_guards tier c cfg)"
  obtain d r x where
    v: "validate_replacement_selection netloc_ok money e tier c cands cfg =
      Some (if ?ok then (case price_rejection money e c cfg of Some p \<Rightarrow> p | None \<Rightarrow> d) else reject e r x)"
    and d: "rd_disposition d = Selected" "rd_candidate d = Some c"
    using True
    by (simp add: validate_replacement_selection_def select_completion_rejection_replacement_def fired_case)
  have ok: "(?ok \<and> affordable cfg c) \<longleftrightarrow> permitted tier c cfg"
    by (simp add: capability_guards_pass permitted_def)
  from decided_after_price [OF d, where ok = ?ok and cfg = cfg and money = money and e = e and reasons = r and detail = x] True
  show ?thesis unfolding v ok by simp
next
  case False
  let ?ok = "list_all (\<lambda>g. \<not> fst g) (class_guards (ef_class (en_failure e)) @
    endpoint_guards (endpoint_identity netloc_ok (ed_endpoint (en_deployment e)))
      (endpoint_identity netloc_ok (ca_endpoint c)) c @ capability_guards tier c cfg)"
  obtain d r x where
    v: "validate_replacement_selection netloc_ok money e tier c cands cfg =
      Some (if ?ok then (case price_rejection money e c cfg of Some p \<Rightarrow> p | None \<Rightarrow> d) else reject e r x)"
    and d: "rd_disposition d = Selected" "rd_candidate d = Some c"
    using False
    by (simp only: validate_replacement_selection_def fired_case Let_def if_False) (metis decision_of_simps)
  have ok: "(?ok \<and> affordable cfg c) \<longleftrightarrow>
      permitted tier c cfg \<and> ef_class (en_failure e) \<in> transient_classes \<and> independent netloc_ok e c"
    using False
    by (auto simp: capability_guards_pass class_guards_pass endpoint_guards_pass permitted_def independent_def)
  from decided_after_price [OF d, where ok = ?ok and cfg = cfg and money = money and e = e and reasons = r and detail = x] False
  show ?thesis unfolding v ok by simp
qed

section \<open>Properties\<close>

text \<open>
  C39. Automatic recovery rests on measured evidence only.  An envelope is eligible exactly when
  either the launch failed before anything was executed, with no protected cause, and every
  exclusion was a cooldown; or the failure carries a transient signature, was measured by the
  gateway in a model call, and every tool call of the run has its result.  With a transient,
  measured failure whose tool effects are open it requires reconciliation, and in every other
  case it is prohibited.
\<close>

theorem eligible_envelope_exact:
  "ec_eligibility (en_recovery (build_failure_envelope netloc_ok redact now ob rf)) =
     (let f = facts_of ob rf;
          excluded = (case rf_exclusions rf of None \<Rightarrow> [] | Some r \<Rightarrow> r);
          measured_call = (transient_signature f \<and> evidence_of ob \<noteq> None \<and> cf_phase f = Llm_Call)
      in if (failed_launch f \<and> excluded \<noteq> [] \<and> set excluded \<subseteq> {''cooldown'', ''endpoint-cooldown''}) \<or>
            (measured_call \<and> rf_calls_present rf \<and> \<not> rf_calls_pending rf) then Eligible
         else if measured_call then Reconcile_Required else Prohibited)"
proof -
  let ?f = "facts_of ob rf"
  have excl: "set launch_transient_exclusions = {''cooldown'', ''endpoint-cooldown''}"
    by (simp add: launch_transient_exclusions_def)
  have effects: "fst (derive_tool_effects Llm_Call p q) = Effects_Settled \<longleftrightarrow> p \<and> \<not> q" for p q
    by (simp add: derive_tool_effects_def)
  have disjoint: "\<not> (failed_launch ?f \<and> transient_signature ?f)"
    by (auto simp: failed_launch_def transient_signature_def)
  show ?thesis
  proof (cases "failed_launch ?f")
    case True
    then have "fst (derive_class ?f) = Launch_Failure" by (simp add: derive_class_cases)
    with True disjoint show ?thesis
      by (simp add: build_eligibility derive_eligibility_cases excl Let_def)
  next
    case False
    then have n: "fst (derive_class ?f) \<noteq> Launch_Failure" by (simp add: derive_class_cases)
    then have "fst (derive_class ?f) \<in> transient_classes \<longleftrightarrow> transient_signature ?f"
      using derive_class_cases(1) [of ?f] by blast
    with False n show ?thesis
      by (cases "cf_phase ?f = Llm_Call") (simp_all add: build_eligibility derive_eligibility_cases effects Let_def)
  qed
qed

text \<open>
  C40. The replacement policy selects a claimed candidate exactly when the failure is a completion
  rejection, or a transient provider failure on an endpoint both known and different from the
  candidate's, and the candidate is capable of the package, on the allowlist and verifiably within
  the price cap; in every other case it rejects.  It never raises, and the eligible set is made of
  the candidates it selects.
\<close>

theorem replacement_selected_exactly:
  "(let permit = (permitted tier c cfg \<and>
        (ef_class (en_failure e) = Completion_Rejection \<or>
         (ef_class (en_failure e) \<in> transient_classes \<and> independent netloc_ok e c)))
    in \<exists>d. validate_replacement_selection netloc_ok money e tier c cands cfg = Some d \<and>
         rd_disposition d = (if permit then Selected else Rejected) \<and>
         rd_candidate d = (if permit then Some c else None)) \<and>
   set (eligible_replacement_candidates netloc_ok money e tier cands cfg) =
     {c \<in> set cands. permitted tier c cfg \<and>
        (ef_class (en_failure e) = Completion_Rejection \<or>
         (ef_class (en_failure e) \<in> transient_classes \<and> independent netloc_ok e c))}"
proof -
  have "(case validate_replacement_selection netloc_ok money e tier x cands cfg of
          None \<Rightarrow> False | Some d \<Rightarrow> rd_disposition d = Selected) \<longleftrightarrow>
        permitted tier x cfg \<and> (ef_class (en_failure e) = Completion_Rejection \<or>
          ef_class (en_failure e) \<in> transient_classes \<and> independent netloc_ok e x)" for x
    using validate_decided [of tier x cfg e netloc_ok money cands] by (auto simp: decided_def split: if_splits)
  then show ?thesis
    using validate_decided [of tier c cfg e netloc_ok money cands]
    by (auto simp: decided_def eligible_replacement_candidates_def Let_def)
qed

text \<open>
  From the exception to the decision: if anything reachable from an observed failure through
  causes and groups is a cancellation, an authorization, billing, quota, request or context error
  or a model refusal, then no recovery of the run is authorized, neither automatic nor by a
  replacement, unless the failure was a launch in which nothing reached a backend.  The one
  exception is an exception that carries the code of the harness's own resume deadline.
\<close>

theorem protected_failure_not_recovered:
  assumes "x \<in> reached (\<lambda>a. exc.truncate (h a)) a" "dominates lib (exc.truncate (h x))"
    and "ex_info (h a) = None"
    and ob: "observe_exception lib redact h a phase turn agent run now = ob"
    and code: "ob_error_code ob \<noteq> Some ''resume_progress_deadline''"
    and e: "build_failure_envelope netloc_ok redact now' (Some ob) rf = e"
    and authorized: "ec_eligibility (en_recovery e) \<noteq> Prohibited \<or>
      c \<in> set (eligible_replacement_candidates netloc_ok money e tier cands cfg)"
  shows "ef_class (en_failure e) = Launch_Failure \<and> launch_evidence (facts_of (Some ob) rf)"
proof -
  let ?f = "facts_of (Some ob) rf"
  have "fi_category (classify_failure lib (\<lambda>a. exc.truncate (h a)) a) \<in> insert Unknown protected_categories"
    using dominated_category [OF assms(1,2)] assms(3) by (simp add: classify_failure_def exc.defs)
  moreover have "cf_cause ?f = Some (fi_category (classify_failure lib (\<lambda>a. exc.truncate (h a)) a))"
    by (simp add: facts_of_def ob [symmetric] observe_exception_def Let_def)
  ultimately have cause: "\<forall>k \<in> transient_cause_categories. cf_cause ?f \<noteq> Some k"
    by (auto simp: transient_cause_categories_def protected_categories_def)
  moreover have "cf_timeout ?f = None" using code by (simp add: facts_of_def measured_timeout_reason_def Let_def)
  ultimately have quiet: "\<not> transient_signature ?f" by (simp add: transient_signature_def)
  have "fst (derive_class ?f) \<noteq> Completion_Rejection"
    by (simp add: derive_class_def Let_def)
  then have "fst (derive_class ?f) = Launch_Failure"
    using authorized quiet derive_class_cases(1) [of ?f] validate_decided [of tier c cfg e netloc_ok money cands]
    by (auto simp: e [symmetric] build_eligibility build_class derive_eligibility_cases decided_def
        eligible_replacement_candidates_def split: if_splits)
  then show ?thesis by (auto simp: e [symmetric] build_class derive_class_cases failed_launch_def)
qed

definition plain_observed :: "exc_class list \<Rightarrow> nat option \<Rightarrow> observed_exc" where
  "plain_observed cs cause = exc.extend (plain_exc cs\<lparr>ex_cause := cause\<rparr>)
     \<lparr>oe_name = ''Error'', oe_text = Some ''failed'', oe_endpoint = PNone, oe_request_id = PNone,
      oe_request_headers = None, oe_evidence = None, oe_deployment = None, oe_settable = True\<rparr>"

text \<open>A launch that never reached a backend; its cause is a cancellation further down.\<close>

definition cancelled_launch_heap :: observed_heap where
  "cancelled_launch_heap a =
     (if a = 0 then (plain_observed [HttpxRequest] (Some 1))
        \<lparr>oe_name := ''AllDeploymentsUnavailableError'', oe_evidence := Some (evidence_admission_phase ''c'' 0)\<rparr>
      else if a < 9 then plain_observed [] (Some (Suc a))
      else plain_observed [CancelledError] None)"

definition cooling_run :: run_facts where
  "cooling_run = \<lparr>rf_agent_id = ''a'', rf_run_id = ''r'', rf_turn_id = None, rf_turns_used = Some 0,
     rf_deployment = None, rf_configured = None, rf_stop_reason = None, rf_exclusions = Some [''cooldown''],
     rf_calls_present = False, rf_calls_pending = False, rf_correlated = False, rf_resumes_used = 0,
     rf_chain = None, rf_package = None, rf_predecessor = None\<rparr>"

definition cancelled_launch :: failure_envelope where
  "cancelled_launch = build_failure_envelope (\<lambda>_. True) Some 0
     (Some (observe_exception no_lib Some cancelled_launch_heap 0 ''turn'' None None None 1)) cooling_run"

lemma cancellation_reached: "9 \<in> reached (\<lambda>a. exc.truncate (cancelled_launch_heap a)) 0"
proof -
  let ?h = "\<lambda>a. exc.truncate (cancelled_launch_heap a)"
  have link: "Suc n \<in> set (successors (?h n))" if "n < 9" for n
    using that by (simp add: cancelled_launch_heap_def plain_observed_def plain_exc_def exc.defs successors_def)
  have "n \<le> 9 \<Longrightarrow> n \<in> reached ?h 0" for n
  proof (induction n)
    case (Suc n)
    then show ?case using link [of n] by (auto intro: reached.step)
  qed (rule reached.here)
  then show ?thesis by simp
qed

theorem protected_failure_not_recovered_witness:
  "ec_eligibility (en_recovery cancelled_launch) = Eligible \<and> ef_class (en_failure cancelled_launch) = Launch_Failure"
proof -
  have e: "ec_eligibility (en_recovery cancelled_launch) = Eligible" by code_simp
  have "dominates no_lib (exc.truncate (cancelled_launch_heap 9))" by code_simp
  moreover have "ex_info (cancelled_launch_heap 0) = None" by code_simp
  moreover have "ob_error_code (observe_exception no_lib Some cancelled_launch_heap 0 ''turn'' None None None 1) \<noteq>
      Some ''resume_progress_deadline''"
    by code_simp
  ultimately show ?thesis
    using protected_failure_not_recovered [OF cancellation_reached _ _ refl _ cancelled_launch_def [symmetric]] e
    by simp
qed

end
