(* ===== verification/Endpoint_Props.thy ===== *)
theory Endpoint_Props
  imports Endpoint
begin

text \<open>
  What the endpoint identity of a well-formed URL is, and that it is a fixed point.
\<close>

section \<open>Cutting\<close>

lemma is_space_no: "list_all (\<lambda>c. \<not> is_space c) s \<Longrightarrow> py_strip s = s"
proof -
  assume a: "list_all (\<lambda>c. \<not> is_space c) s"
  have "dropWhile is_space t = t" if "list_all (\<lambda>c. \<not> is_space c) t" for t
    using that by (cases t) auto
  moreover from a have "list_all (\<lambda>c. \<not> is_space c) (rev s)" by (simp add: list_all_iff)
  ultimately show ?thesis using a by (simp add: py_strip_def)
qed

lemma before_char_append: "c \<notin> set s \<Longrightarrow> before_char c (s @ t) = s @ before_char c t"
  by (induction s) (auto simp: before_char_def)

lemma after_char_append: "c \<notin> set s \<Longrightarrow> after_char c (s @ t) = after_char c t"
  by (induction s) (auto simp: after_char_def)

lemma cut_at [simp]:
  "before_char c (c # t) = []" "after_char c (c # t) = t" "before_char c [] = []" "after_char c [] = []"
  by (simp_all add: before_char_def after_char_def)

lemma after_last_none: "c \<notin> set t \<Longrightarrow> after_last c t = t"
  by (simp add: after_last_def takeWhile_eq_all_conv)
    (metis (mono_tags, lifting) rev_rev_ident set_rev takeWhile_eq_all_conv)

lemma after_last_append: "c \<notin> set t \<Longrightarrow> after_last c (s @ c # t) = t"
proof -
  assume c: "c \<notin> set t"
  have "takeWhile (\<lambda>x. x \<noteq> c) (rev t @ c # rev s) = rev t"
    using c by (subst takeWhile_append2) auto
  then show ?thesis by (simp add: after_last_def)
qed

section \<open>Decimal numbers\<close>

lemma digit_char_simps:
  "d < 10 \<Longrightarrow> of_char (digit_char d) = (48 + d :: nat)"
proof -
  assume "d < 10"
  moreover have "\<forall>d \<in> set [0..<10]. of_char (digit_char d) = (48 + d :: nat)" by code_simp
  ultimately show ?thesis by simp
qed

lemma show_nat_digits: "list_all is_digit (show_nat n) \<and> show_nat n \<noteq> []"
proof (induction n rule: show_nat.induct)
  case (1 n)
  show ?case
  proof (cases "n < 10")
    case True
    then show ?thesis by (simp add: show_nat.simps [of n] is_digit_def digit_char_simps)
  next
    case False
    with 1 show ?thesis by (simp add: show_nat.simps [of n] is_digit_def digit_char_simps)
  qed
qed

lemma decimal_value_snoc: "decimal_value (s @ [c]) = 10 * decimal_value s + (of_char c - 48)"
  by (simp add: decimal_value_def)

lemma decimal_value_show [simp]: "decimal_value (show_nat n) = n"
proof (induction n rule: show_nat.induct)
  case (1 n)
  show ?case
  proof (cases "n < 10")
    case True
    then show ?thesis by (simp add: show_nat.simps [of n] decimal_value_def digit_char_simps)
  next
    case False
    with 1 show ?thesis by (simp add: show_nat.simps [of n] decimal_value_snoc digit_char_simps)
  qed
qed

section \<open>Lower case\<close>

lemma lower_char_code: "of_char (lower_char c) =
    (let n = (of_char c :: nat) in if (65 \<le> n \<and> n \<le> 90) \<or> (192 \<le> n \<and> n \<le> 222 \<and> n \<noteq> 215) then n + 32 else n)"
  by (auto simp: lower_char_def Let_def)

lemma lower_lower_char [simp]: "lower_char (lower_char c) = lower_char c"
proof -
  have "(of_char (lower_char (lower_char c)) :: nat) = of_char (lower_char c)"
    unfolding lower_char_code [of "lower_char c"] by (auto simp: lower_char_code Let_def)
  then show ?thesis by simp
qed

lemma py_lower_idem [simp]: "py_lower (py_lower s) = py_lower s"
  by (simp add: py_lower_def)

lemma py_lower_append: "py_lower (s @ t) = py_lower s @ py_lower t"
  by (simp add: py_lower_def)

section \<open>Well-formed URLs\<close>

definition url_char :: "char \<Rightarrow> bool" where
  "url_char c \<longleftrightarrow> 33 \<le> (of_char c :: nat) \<and> (of_char c :: nat) \<le> 126"

definition host_char :: "char \<Rightarrow> bool" where
  "host_char c \<longleftrightarrow> is_letter c \<or> is_digit c \<or> c \<in> set ''.-''"

definition user_char :: "char \<Rightarrow> bool" where
  "user_char c \<longleftrightarrow> url_char c \<and> c \<notin> set ''/?#@[]''"

definition url_of :: "string \<Rightarrow> string option \<Rightarrow> string \<Rightarrow> nat option \<Rightarrow> string \<Rightarrow> string" where
  "url_of scheme user host port path =
     scheme @ ''://'' @ (case user of None \<Rightarrow> [] | Some u \<Rightarrow> u @ ''@'') @ host @
     (case port of None \<Rightarrow> [] | Some p \<Rightarrow> '':'' @ show_nat p) @ path"

definition url_parts_ok :: "string \<Rightarrow> string option \<Rightarrow> string \<Rightarrow> nat option \<Rightarrow> string \<Rightarrow> bool" where
  "url_parts_ok scheme user host port path \<longleftrightarrow>
     scheme \<in> {''http'', ''https''} \<and> list_all user_char (case user of None \<Rightarrow> [] | Some u \<Rightarrow> u) \<and>
     host \<noteq> [] \<and> list_all host_char host \<and> (case port of None \<Rightarrow> True | Some p \<Rightarrow> p \<le> 65535) \<and>
     list_all url_char path \<and> (path = [] \<or> hd path \<in> set ''/?#'')"

lemma host_char_url: "host_char c \<Longrightarrow> url_char c \<and> c \<notin> set ''/?#@[]:%''"
  by (auto simp: host_char_def url_char_def is_letter_def is_digit_def Let_def)

lemma digit_url: "is_digit c \<Longrightarrow> host_char c"
  by (simp add: host_char_def)

lemma lower_host_char: "host_char c \<Longrightarrow> host_char (lower_char c)"
  by (auto simp: host_char_def is_letter_def is_digit_def lower_char_code Let_def lower_char_def)

lemma url_char_facts: "url_char c \<Longrightarrow> \<not> is_space c \<and> 32 < (of_char c :: nat)"
  by (auto simp: url_char_def is_space_def Let_def)

lemma list_all_url:
  "list_all host_char h \<Longrightarrow> list_all url_char h \<and> set h \<inter> set ''/?#@[]:%'' = {}"
  by (induction h) (auto dest: host_char_url)

lemma port_chars: "list_all host_char (show_nat p)"
  using show_nat_digits [of p] digit_url by (auto simp: list_all_iff)

lemma cleaned_id: "list_all url_char s \<Longrightarrow> cleaned s = s"
proof -
  assume a: "list_all url_char s"
  have "dropWhile (\<lambda>c. (of_char c :: nat) \<le> 32) s = s"
    using a by (cases s) (auto dest: url_char_facts)
  moreover have "filter (\<lambda>c. (of_char c :: nat) \<notin> {9, 10, 13}) s = s"
    using a by (auto simp: filter_id_conv list_all_iff url_char_def)
  ultimately show ?thesis by (simp add: cleaned_def)
qed

lemma strip_id: "list_all url_char s \<Longrightarrow> py_strip s = s"
  by (rule is_space_no) (auto simp: list_all_iff dest: url_char_facts)

definition netloc_text :: "string option \<Rightarrow> string \<Rightarrow> nat option \<Rightarrow> string" where
  "netloc_text user host port =
     (case user of None \<Rightarrow> [] | Some u \<Rightarrow> u @ ''@'') @ host @ (case port of None \<Rightarrow> [] | Some p \<Rightarrow> '':'' @ show_nat p)"

lemma netloc_text_chars:
  assumes "url_parts_ok scheme user host port path"
  shows "list_all url_char (netloc_text user host port)" "set (netloc_text user host port) \<inter> set ''/?#[]'' = {}"
proof -
  have "list_all url_char u \<and> set u \<inter> set ''/?#[]'' = {}" if "list_all user_char u" for u
    using that by (induction u) (auto simp: user_char_def)
  then show "list_all url_char (netloc_text user host port)" "set (netloc_text user host port) \<inter> set ''/?#[]'' = {}"
    using assms list_all_url [of host] list_all_url [OF port_chars]
    by (auto simp: netloc_text_def url_parts_ok_def url_char_def split: option.splits; fastforce)+
qed

lemma hostinfo_text:
  assumes "url_parts_ok scheme user host port path"
  shows "hostinfo (netloc_text user host port) = (host, case port of None \<Rightarrow> [] | Some p \<Rightarrow> show_nat p)"
proof -
  let ?hp = "host @ (case port of None \<Rightarrow> [] | Some p \<Rightarrow> '':'' @ show_nat p)"
  have h: "set host \<inter> set ''/?#@[]:%'' = {}" and d: "\<And>p. set (show_nat p) \<inter> set ''/?#@[]:%'' = {}"
    using assms list_all_url [of host] list_all_url [OF port_chars] by (simp_all add: url_parts_ok_def)
  then have "CHR ''@'' \<notin> set ?hp" "CHR ''['' \<notin> set ?hp" by (auto split: option.splits)
  then have last: "after_last (CHR ''@'') (netloc_text user host port) = ?hp" and "CHR ''['' \<notin> set ?hp"
    by (auto simp: netloc_text_def after_last_none after_last_append split: option.split)
  moreover have "CHR '':'' \<notin> set host" using h by auto
  ultimately show ?thesis
    by (auto simp: hostinfo_def Let_def before_char_append after_char_append split: option.split)
qed

lemma urlsplit_url:
  assumes ok: "url_parts_ok scheme user host port path" and net: "netloc_ok (netloc_text user host port)"
  shows "urlsplit netloc_ok (py_strip (url_of scheme user host port path)) = Some (scheme, netloc_text user host port)"
proof -
  let ?n = "netloc_text user host port"
  have url: "url_of scheme user host port path = scheme @ '':'' @ ''//'' @ ?n @ path"
    by (simp add: url_of_def netloc_text_def)
  note chars = netloc_text_chars [OF ok]
  have sch: "list_all url_char scheme" "CHR '':'' \<notin> set scheme" "is_letter (hd scheme)" "scheme \<noteq> []"
    "list_all is_scheme_char scheme" "py_lower scheme = scheme"
    using ok by (auto simp: url_parts_ok_def url_char_def is_letter_def is_scheme_char_def py_lower_def lower_char_def)
  have "list_all url_char (url_of scheme user host port path)"
    using sch chars ok by (auto simp: url url_parts_ok_def url_char_def)
  then have "cleaned (py_strip (url_of scheme user host port path)) = scheme @ '':'' @ ''//'' @ ?n @ path"
    by (simp add: strip_id cleaned_id url)
  moreover have "split_scheme (scheme @ '':'' @ ''//'' @ ?n @ path) = (scheme, ''//'' @ ?n @ path)"
    using sch by (simp add: split_scheme_def before_char_append after_char_append Let_def)
  moreover have "netloc_of (''//'' @ ?n @ path) = ?n"
  proof -
    have "takeWhile (\<lambda>c. c \<notin> set ''/?#'') (?n @ path) = ?n @ takeWhile (\<lambda>c. c \<notin> set ''/?#'') path"
      using chars(2) by (subst takeWhile_append2) auto
    moreover have "takeWhile (\<lambda>c. c \<notin> set ''/?#'') path = []"
      using ok by (cases path) (auto simp: url_parts_ok_def)
    ultimately show ?thesis by (simp add: netloc_of_def)
  qed
  moreover have "CHR ''['' \<notin> set ?n" "CHR '']'' \<notin> set ?n" using chars(2) by auto
  ultimately show ?thesis using net by (simp add: urlsplit_def Let_def)
qed

definition identity_text :: "string \<Rightarrow> string \<Rightarrow> nat option \<Rightarrow> string" where
  "identity_text scheme host port =
     py_lower host @ (if port = None \<or> port = default_port scheme then [] else '':'' @ show_nat (the port))"

lemma canonical_url:
  assumes ok: "url_parts_ok scheme user host port path" and net: "netloc_ok (netloc_text user host port)"
  shows "canonical_endpoint_identity netloc_ok (Some (url_of scheme user host port path)) =
           Some (identity_text scheme host port)"
proof -
  have h: "set host \<inter> set ''/?#@[]:%'' = {}" "host \<noteq> []" "list_all host_char host"
    using ok list_all_url [of host] by (auto simp: url_parts_ok_def)
  have pct: "CHR ''%'' \<notin> set host" using h(1) by auto
  then have "before_char (CHR ''%'') host = host" "dropWhile (\<lambda>c. c \<noteq> CHR ''%'') host = []"
    using before_char_append [OF pct, of "[]"] by auto
  then have name: "hostname_of (netloc_text user host port) = py_lower host"
    by (simp add: hostname_of_def hostinfo_text [OF ok] Let_def)
  have "list_all host_char (py_lower host)" using h(3) by (auto simp: py_lower_def list_all_iff lower_host_char)
  then have colon: "CHR '':'' \<notin> set (py_lower host)" using list_all_url [of "py_lower host"] by auto
  have "port_of (netloc_text user host port) = Some port"
    using ok show_nat_digits
    by (auto simp: port_of_def hostinfo_text [OF ok] url_parts_ok_def Let_def split: option.split)
  moreover have "netloc_text user host port \<noteq> []" "url_of scheme user host port path \<noteq> []" "py_lower host \<noteq> []"
    using h by (auto simp: netloc_text_def url_of_def py_lower_def)
  ultimately show ?thesis
    using colon
    by (auto simp: canonical_endpoint_identity_def urlsplit_url [where netloc_ok = netloc_ok, OF ok net] name identity_text_def Let_def
        split: option.split)
qed

lemma no_netloc:
  assumes "CHR ''/'' \<notin> set s"
  shows "canonical_endpoint_identity netloc_ok (Some s) = None"
proof -
  have sub: "set (snd (split_scheme t)) \<subseteq> set t" for t
    by (auto simp: split_scheme_def after_char_def Let_def dest!: in_set_dropD set_dropWhileD)
  have "set (cleaned (py_strip s)) \<subseteq> set s"
    by (auto simp: cleaned_def py_strip_def dest!: set_dropWhileD)
  with sub [of "cleaned (py_strip s)"] assms have "CHR ''/'' \<notin> set (snd (split_scheme (cleaned (py_strip s))))"
    by blast
  then have "netloc_of (snd (split_scheme (cleaned (py_strip s)))) = []"
    by (auto simp: netloc_of_def dest: in_set_takeD [of _ 2])
      (metis in_set_takeD list.set_intros(1))
  then show ?thesis
    by (cases "split_scheme (cleaned (py_strip s))")
      (simp add: canonical_endpoint_identity_def urlsplit_def Let_def)
qed

text \<open>
  The endpoint identity of a well-formed URL is its host in lower case, with the port unless
  it is the default of the scheme; it does not depend on the credentials, the path, the case of
  the host or an explicit default port, and it is its own identity.
\<close>

theorem endpoint_identity_normal:
  assumes "url_parts_ok scheme user host port path" "netloc_ok (netloc_text user host port)"
  shows "canonical_endpoint_identity netloc_ok (Some (url_of scheme user host port path)) =
           Some (identity_text scheme host port) \<and>
         endpoint_identity netloc_ok (Some (identity_text scheme host port)) = Some (identity_text scheme host port)"
proof (rule conjI)
  show "canonical_endpoint_identity netloc_ok (Some (url_of scheme user host port path)) =
           Some (identity_text scheme host port)"
    using assms by (rule canonical_url)
  let ?i = "identity_text scheme host port"
  have host: "list_all host_char (py_lower host)" "host \<noteq> []"
    using assms(1) by (auto simp: url_parts_ok_def py_lower_def list_all_iff lower_host_char)
  have digits: "py_lower ('':'' @ show_nat p) = '':'' @ show_nat p" for p
    using show_nat_digits [of p]
    by (auto intro!: map_idI simp: py_lower_def list_all_iff lower_char_def is_digit_def Let_def)
  have "list_all url_char ?i \<and> CHR ''/'' \<notin> set ?i"
    using list_all_url [OF host(1)] list_all_url [OF port_chars]
    by (auto simp: identity_text_def url_char_def)
  moreover have "py_lower ?i = ?i" using digits by (simp add: identity_text_def py_lower_append) (simp add: py_lower_def)
  moreover have "?i \<noteq> []" using host(2) by (simp add: identity_text_def py_lower_def)
  ultimately show "endpoint_identity netloc_ok (Some ?i) = Some ?i"
    by (simp add: endpoint_identity_def no_netloc strip_id Let_def)
qed

theorem endpoint_identity_normal_witness:
  "canonical_endpoint_identity (\<lambda>_. True) (Some ''https://key:pw@API.Mistral.ai:443/v1'') = Some ''api.mistral.ai''"
proof -
  have "url_parts_ok ''https'' (Some ''key:pw'') ''API.Mistral.ai'' (Some 443) ''/v1''"
    by (simp add: url_parts_ok_def user_char_def url_char_def host_char_def is_letter_def is_digit_def Let_def)
  from endpoint_identity_normal [OF this, of "\<lambda>_. True"]
  have "canonical_endpoint_identity (\<lambda>_. True) (Some (url_of ''https'' (Some ''key:pw'') ''API.Mistral.ai'' (Some 443) ''/v1'')) =
      Some (identity_text ''https'' ''API.Mistral.ai'' (Some 443))" by simp
  moreover have "url_of ''https'' (Some ''key:pw'') ''API.Mistral.ai'' (Some 443) ''/v1'' =
      ''https://key:pw@API.Mistral.ai:443/v1''" by code_simp
  moreover have "identity_text ''https'' ''API.Mistral.ai'' (Some 443) = ''api.mistral.ai''" by code_simp
  ultimately show ?thesis by (simp only:)
qed

end
