(* ===== verification/Recovery_Records.thy ===== *)
theory Recovery_Records
  imports Replacement Tool_Order
begin

text \<open>
  The state the recovery of subagents shares: the agent and run records
  (\<open>app_server/_subagent_records.py\<close>), the episodes of the automatic controller, and the part of
  the session registry that recovery reads and writes.  An operation under the registry lock is a
  function of the registry; an agent id names one record for ever, so a record that is no longer
  in the map is one that was detached.
\<close>

section \<open>Runs and agents\<close>

datatype agent_state = Running | Finalizing | Idle | Evicting | Suspended | Restoring
datatype run_status = Run_Running | Run_Completed | Run_Failed | Run_Cancelled

record run =
  ru_id :: string
  ru_status :: run_status
  ru_failure :: "failure_envelope option"
  ru_resumed_from :: "string option"
  ru_chain :: "string option"

record resume_operation =
  op_id :: string
  op_agent :: string
  op_expected :: string
  op_key :: string
  op_successor :: string
  op_admitted_at :: rat

datatype reconcile_flag = Flag_Cleared | Flag_Prohibited

text \<open>
  \<open>ag_resident\<close>: the child map still holds the record's runtime and the runtime is open.
\<close>

record agent =
  ag_id :: string
  ag_identity :: string
  ag_parent :: string
  ag_generation :: int
  ag_retained :: bool
  ag_resident :: bool
  ag_messages :: "llm_message list"
  ag_state :: agent_state
  ag_current :: "run option"
  ag_history :: "run list"
  ag_latest :: "string option"
  ag_initial_summary :: "string option"
  ag_last_summary :: "string option"
  ag_chain :: "string option"
  ag_resumes_used :: int
  ag_suspended_at :: "rat option"
  ag_warm_bytes :: "int option"
  ag_pending :: "resume_operation option"
  ag_flag :: "reconcile_flag option"
  ag_flag_codes :: "string list"
  ag_last_reconciled :: "(string \<times> string) option"
  ag_superseded :: bool
  ag_reserved :: bool
  ag_package :: "string option"
  ag_predecessor :: "string option"
  ag_tier :: "package_tier option"

definition runs_of :: "agent \<Rightarrow> run list" where
  "runs_of a = (case ag_current a of None \<Rightarrow> [] | Some r \<Rightarrow> [r]) @ ag_history a"

definition find_run :: "string \<Rightarrow> agent \<Rightarrow> run option" where
  "find_run i a = (case filter (\<lambda>r. ru_id r = i) (runs_of a) of [] \<Rightarrow> None | r # _ \<Rightarrow> Some r)"

definition max_run_history :: nat where "max_run_history = 32"

section \<open>Policy and episodes\<close>

datatype eligible_class =
  El_Connection | El_Timeout | El_Server_Error | El_Overload | El_Rate_Limit | El_Launch_Failure
  | El_Incomplete_Stream | El_Empty_Response

record recovery_config =
  rc_enabled :: bool
  rc_auto_max :: int
  rc_resumes_max :: int
  rc_cooldowns :: "rat list"
  rc_jitter :: rat
  rc_deadline :: rat
  rc_eligible :: "eligible_class list"
  rc_ttl :: rat
  rc_max_suspended :: int
  rc_max_bytes :: int
  rc_concurrency :: int
  rc_fallback :: fallback_config
  rc_replacements_max :: int

text \<open>\<open>ep_timer\<close>: the failed run and the delay of the armed timer task.\<close>

record episode =
  ep_agent :: string
  ep_chain :: string
  ep_started :: rat
  ep_auto_max :: int
  ep_cooldowns :: "rat list"
  ep_jitter :: rat
  ep_deadline :: rat
  ep_used :: int
  ep_launch_used :: int
  ep_scheduled :: "string option"
  ep_retry_after :: rat
  ep_launch_pending :: bool
  ep_lineage :: string
  ep_timer :: "(string \<times> rat) option"
  ep_emitted :: "string list"
  ep_active :: bool

definition new_episode :: "string \<Rightarrow> string \<Rightarrow> rat \<Rightarrow> recovery_config \<Rightarrow> episode" where
  "new_episode agent chain started cfg =
     \<lparr>ep_agent = agent, ep_chain = chain, ep_started = started, ep_auto_max = rc_auto_max cfg,
      ep_cooldowns = rc_cooldowns cfg, ep_jitter = rc_jitter cfg, ep_deadline = rc_deadline cfg,
      ep_used = 0, ep_launch_used = 0, ep_scheduled = None, ep_retry_after = 0, ep_launch_pending = False,
      ep_lineage = [], ep_timer = None, ep_emitted = [], ep_active = True\<rparr>"

definition ep_driven :: "episode \<Rightarrow> bool" where
  "ep_driven e \<longleftrightarrow> ep_used e > 0 \<or> ep_launch_used e > 0 \<or> ep_scheduled e \<noteq> None"

datatype exclusion_reason = Ex_Cooldown | Ex_Endpoint_Cooldown | Ex_Permanent

datatype milestone = Ev_Failure | Ev_Scheduled | Ev_Successor_Start | Ev_Success | Ev_Exhaustion

section \<open>The registry\<close>

text \<open>
  Episodes are objects: timers and admissions in flight hold their addresses, the index the current
  one of each agent.  The log is the milestone lines, each with the address of its episode.  The
  active work slots are named by the run that holds them.
\<close>

record log_line =
  lg_episode :: nat
  lg_event :: milestone
  lg_event_id :: string
  lg_run :: string
  lg_detail :: string

record recovery_registry =
  rg_records :: "(string \<times> agent) list"
  rg_admission_closed :: bool
  rg_draining :: bool
  rg_generation :: int
  rg_root :: "string option"
  rg_slots :: "string list"
  rg_cap :: int
  rg_episodes :: "nat \<Rightarrow> episode option"
  rg_fresh :: nat
  rg_index :: "(string \<times> nat) list"
  rg_lineage :: "(string \<times> int) list"
  rg_attributed :: "((string \<times> string) \<times> int) list"
  rg_replacements :: "(string \<times> int) list"
  rg_log :: "log_line list"

definition record_of :: "recovery_registry \<Rightarrow> string \<Rightarrow> agent option" where
  "record_of rg a = map_of (rg_records rg) a"

definition put_record :: "agent \<Rightarrow> recovery_registry \<Rightarrow> recovery_registry" where
  "put_record r rg = rg\<lparr>rg_records := dict_set (ag_id r) r (rg_records rg)\<rparr>"

definition drop_record :: "string \<Rightarrow> recovery_registry \<Rightarrow> recovery_registry" where
  "drop_record a rg = rg\<lparr>rg_records := dict_pop a (rg_records rg)\<rparr>"

definition generation_is_current :: "recovery_registry \<Rightarrow> int \<Rightarrow> bool" where
  "generation_is_current rg g \<longleftrightarrow> g = rg_generation rg"

definition int_get :: "('k \<times> int) list \<Rightarrow> 'k \<Rightarrow> int" where
  "int_get d k = (case map_of d k of None \<Rightarrow> 0 | Some n \<Rightarrow> n)"

definition episode_at :: "recovery_registry \<Rightarrow> string \<Rightarrow> (nat \<times> episode) option" where
  "episode_at rg agent =
     (case map_of (rg_index rg) agent of
        None \<Rightarrow> None
      | Some k \<Rightarrow> (case rg_episodes rg k of None \<Rightarrow> None | Some e \<Rightarrow> Some (k, e)))"

definition put_episode :: "nat \<Rightarrow> episode \<Rightarrow> recovery_registry \<Rightarrow> recovery_registry" where
  "put_episode k e rg = rg\<lparr>rg_episodes := (rg_episodes rg)(k \<mapsto> e)\<rparr>"

text \<open>
  What one locked section reads from outside: the monotonic and the epoch clock, the uniform draw,
  the configured policy (\<open>_recovery_config\<close>), the exclusions the model catalog reports for the
  agent's committed model, the availability a live tombstone of an agent records, the format of
  seconds in a log line, and the length of the fields of a message that the message record leaves
  out (reasoning, name, names and arguments of the tool calls).
\<close>

record recovery_env =
  rv_clock :: rat
  rv_epoch :: rat
  rv_draw :: rat
  rv_config :: recovery_config
  rv_exclusions :: "string \<Rightarrow> (exclusion_reason \<times> rat option) list option"
  rv_tombstone :: "string \<Rightarrow> string option"
  rv_show :: "rat \<Rightarrow> string"
  rv_other_bytes :: "llm_message \<Rightarrow> int"

section \<open>Answers\<close>

datatype resume_outcome =
  Scheduled | Already_Scheduled | Already_Resumed | Needs_Reconcile | Window_Expired | Not_Resumable | Forbidden

fun outcome_value :: "resume_outcome \<Rightarrow> string" where
  "outcome_value Scheduled = ''scheduled''"
| "outcome_value Already_Scheduled = ''already_scheduled''"
| "outcome_value Already_Resumed = ''already_resumed''"
| "outcome_value Needs_Reconcile = ''reconcile_required''"
| "outcome_value Window_Expired = ''expired''"
| "outcome_value Not_Resumable = ''not_resumable''"
| "outcome_value Forbidden = ''forbidden''"

record resume_result =
  rs_outcome :: resume_outcome
  rs_agent :: string
  rs_run :: "string option"
  rs_successor :: "string option"
  rs_operation :: "string option"
  rs_retry_at :: "rat option"
  rs_eligibility :: "eligibility option"
  rs_reasons :: "string list"
  rs_reason :: "string option"
  rs_resumes_used :: int

datatype effect_disposition = Effect_Settled | Effect_Damage

record effect_verification =
  fx_call :: string
  fx_disposition :: effect_disposition

datatype reconcile_outcome =
  Rec_Cleared | Rec_Prohibited | Rec_Stale | Rec_Duplicate | Rec_Not_Pending | Rec_Forbidden

record reconcile_result =
  rx_outcome :: reconcile_outcome
  rx_agent :: string
  rx_run :: string
  rx_boundary :: string
  rx_eligibility :: "eligibility option"
  rx_reasons :: "string list"
  rx_reason :: string

fun availability_text :: "agent_state \<Rightarrow> string" where
  "availability_text Running = ''running''"
| "availability_text Finalizing = ''finalizing''"
| "availability_text Suspended = ''suspended''"
| "availability_text Restoring = ''restoring''"
| "availability_text _ = ''idle''"

text \<open>An optional value in a format string.\<close>

definition or_none :: "string option \<Rightarrow> string" where
  "or_none x = (case x of None \<Rightarrow> ''None'' | Some s \<Rightarrow> s)"

section \<open>Effective eligibility\<close>

definition effective_eligibility :: "agent \<Rightarrow> failure_envelope \<Rightarrow> eligibility \<times> string list" where
  "effective_eligibility a e =
     (case ag_flag a of
        Some Flag_Cleared \<Rightarrow> (Eligible, ''reconcile_cleared_effects_settled'' # ag_flag_codes a)
      | Some Flag_Prohibited \<Rightarrow> (Prohibited, ''reconcile_verified_unrepeatable_damage'' # ag_flag_codes a)
      | None \<Rightarrow> (ec_eligibility (en_recovery e), ec_reasons (en_recovery e)))"

section \<open>Tool effects of the transcript\<close>

text \<open>\<open>_tool_call_effect_sets\<close>: the calls requested, and those settled by a result.\<close>

definition requested_calls :: "llm_message list \<Rightarrow> string set" where
  "requested_calls ms =
     set (concat (map (\<lambda>m. if role_of m = Assistant
       then filter (\<lambda>i. i \<noteq> []) (List.map_filter tc_id (calls_of m)) else []) ms))"

definition settled_calls :: "llm_message list \<Rightarrow> string set" where
  "settled_calls ms =
     set (List.map_filter (\<lambda>m. if role_of m = Tool \<and> tool_call_id m \<noteq> Some [] then tool_call_id m else None) ms)"

definition outstanding_calls :: "llm_message list \<Rightarrow> string set" where
  "outstanding_calls ms = requested_calls ms - settled_calls ms"

definition tool_effect_inputs :: "llm_message list \<Rightarrow> bool \<times> bool" where
  "tool_effect_inputs ms = (requested_calls ms \<noteq> {}, outstanding_calls ms \<noteq> {})"

section \<open>Availability\<close>

text \<open>
  The snapshot of \<open>_availability\<close>: which deployments are excluded now, and until when, is asked of
  the model catalog; an empty answer says that some deployment is eligible (or that nothing is
  known).
\<close>

record availability =
  av_available :: bool
  av_permanent :: bool
  av_next_check :: rat
  av_endpoint_blocked :: bool

type_synonym exclusion = "exclusion_reason \<times> rat option"

definition availability_from_exclusions :: "rat \<Rightarrow> exclusion list \<Rightarrow> availability" where
  "availability_from_exclusions now excl =
     (let temporary = filter (\<lambda>(r, _). r \<noteq> Ex_Permanent) excl;
          gaps = map (\<lambda>(_, u). case u of None \<Rightarrow> 0 | Some t \<Rightarrow> max 0 (t - now)) temporary
      in if excl \<noteq> [] \<and> temporary = []
         then \<lparr>av_available = False, av_permanent = True, av_next_check = 0, av_endpoint_blocked = False\<rparr>
         else \<lparr>av_available = False, av_permanent = False,
               av_next_check = (case gaps of [] \<Rightarrow> 0 | g # gs \<Rightarrow> foldl min g gs),
               av_endpoint_blocked = (excl \<noteq> [] \<and> list_all (\<lambda>(r, _). r = Ex_Endpoint_Cooldown) excl)\<rparr>)"

definition availability_of :: "rat \<Rightarrow> exclusion list option \<Rightarrow> availability" where
  "availability_of now excl =
     (case excl of
        None \<Rightarrow> \<lparr>av_available = True, av_permanent = False, av_next_check = 0, av_endpoint_blocked = False\<rparr>
      | Some xs \<Rightarrow> availability_from_exclusions now xs)"

end
