(* ===== verification/Recovery_Controller.thy ===== *)
theory Recovery_Controller
  imports Recovery_Records
begin

text \<open>
  The automatic recovery controller of subagents (\<open>app_server/_recovery_controller.py\<close>): the
  gates of a failed run, the backoff timer, the accounting of an admitted continuation, and the
  milestones of an episode.  Each definition is one section of the code that runs under the
  registry lock, or between two awaits.
\<close>

section \<open>Classes and lineage\<close>

fun cause_to_eligible_class :: "failure_category \<Rightarrow> eligible_class option" where
  "cause_to_eligible_class Connection = Some El_Connection"
| "cause_to_eligible_class Failures.Timeout = Some El_Timeout"
| "cause_to_eligible_class Server_Error = Some El_Server_Error"
| "cause_to_eligible_class Overload = Some El_Overload"
| "cause_to_eligible_class Rate_Limit = Some El_Rate_Limit"
| "cause_to_eligible_class Incomplete_Stream = Some El_Incomplete_Stream"
| "cause_to_eligible_class Empty_Response = Some El_Empty_Response"
| "cause_to_eligible_class _ = None"

definition eligible_class_of :: "failure_envelope \<Rightarrow> eligible_class option" where
  "eligible_class_of e =
     (if ef_class (en_failure e) = Launch_Failure then Some El_Launch_Failure
      else Option.bind (ef_cause (en_failure e)) cause_to_eligible_class)"

definition lineage_key :: "agent \<Rightarrow> failure_envelope \<Rightarrow> string" where
  "lineage_key a e =
     (let package = or_else (en_package e) [];
          summary = or_else (ag_initial_summary a) (or_else (ag_last_summary a) [])
      in if package \<noteq> [] then ''pkg:'' @ package
         else if summary \<noteq> [] then ''brief:'' @ ag_identity a @ '':'' @ summary
         else ''agent:'' @ ag_id a)"

section \<open>Milestones\<close>

text \<open>One line per event id and episode.\<close>

definition emit :: "nat \<Rightarrow> milestone \<Rightarrow> string \<Rightarrow> string \<Rightarrow> string \<Rightarrow> recovery_registry \<Rightarrow> recovery_registry" where
  "emit k event event_id run detail rg =
     (case rg_episodes rg k of
        None \<Rightarrow> rg
      | Some e \<Rightarrow>
          if event_id \<in> set (ep_emitted e) then rg
          else put_episode k (e\<lparr>ep_emitted := event_id # ep_emitted e\<rparr>)
                 (rg\<lparr>rg_log := rg_log rg @
                   [\<lparr>lg_episode = k, lg_event = event, lg_event_id = event_id, lg_run = run, lg_detail = detail\<rparr>]\<rparr>))"

text \<open>
  \<open>force\<close> is the argument \<open>emit_exhaustion\<close>; without it a driven episode reports its stop.  The
  index entry that goes is the one of the episode's agent, whichever episode it names.
\<close>

definition stop_episode :: "nat \<Rightarrow> string \<Rightarrow> bool option \<Rightarrow> recovery_registry \<Rightarrow> recovery_registry" where
  "stop_episode k reason force rg =
     (case rg_episodes rg k of
        None \<Rightarrow> rg
      | Some e \<Rightarrow>
          if \<not> ep_active e then rg
          else
            let rg1 = put_episode k (e\<lparr>ep_active := False, ep_timer := None, ep_scheduled := None\<rparr>) rg;
                rg2 = (if (case force of None \<Rightarrow> ep_driven e | Some b \<Rightarrow> b)
                       then emit k Ev_Exhaustion (''exhaustion:'' @ ep_agent e @ '':'' @ ep_chain e) [] reason rg1
                       else rg1)
            in rg2\<lparr>rg_index := dict_pop (ep_agent e) (rg_index rg2)\<rparr>)"

section \<open>The delay\<close>

definition jittered_backoff :: "rat \<Rightarrow> rat \<Rightarrow> rat \<Rightarrow> rat" where
  "jittered_backoff base jitter draw =
     (if base \<le> 0 then 0
      else if jitter \<le> 0 then base
      else max 0 (base + base * jitter * (2 * min (max draw 0) 1 - 1)))"

definition compute_delay :: "recovery_env \<Rightarrow> episode \<Rightarrow> availability \<Rightarrow> rat" where
  "compute_delay env e av =
     (let cooldowns = (if ep_cooldowns e = [] then [0] else ep_cooldowns e);
          backoff = cooldowns ! nat (min (ep_used e) (int (length cooldowns) - 1));
          base = max backoff (ep_retry_after e);
          base = (if av_available av then base else max base (av_next_check av))
      in jittered_backoff base (ep_jitter e) (rv_draw env))"

definition available_now :: "recovery_env \<Rightarrow> string \<Rightarrow> availability" where
  "available_now env agent = availability_of (rv_clock env) (rv_exclusions env agent)"

definition episode_deadline :: "episode \<Rightarrow> rat" where
  "episode_deadline e = ep_started e + ep_deadline e"

text \<open>Arming replaces an armed timer, which is cancelled.\<close>

definition arm_timer :: "recovery_env \<Rightarrow> run \<Rightarrow> nat \<Rightarrow> rat \<Rightarrow> recovery_registry \<Rightarrow> recovery_registry" where
  "arm_timer env r k delay rg =
     (case rg_episodes rg k of
        None \<Rightarrow> rg
      | Some e \<Rightarrow>
          emit k Ev_Scheduled
            (''scheduled:'' @ ep_agent e @ '':'' @ ep_chain e @ '':'' @ show_int (ep_used e) @ '':'' @ ru_id r) (ru_id r)
            (''delay='' @ rv_show env delay @ '' retry_index='' @ show_int (ep_used e) @ '' deadline=advisory'')
            (put_episode k (e\<lparr>ep_scheduled := Some (ru_id r), ep_timer := Some (ru_id r, delay)\<rparr>) rg))"

text \<open>The tail that \<open>_on_failure_locked\<close> and \<open>rearm_schedule_locked\<close> share.\<close>

definition arm_or_stop :: "recovery_env \<Rightarrow> run \<Rightarrow> nat \<Rightarrow> availability \<Rightarrow> recovery_registry \<Rightarrow> recovery_registry" where
  "arm_or_stop env r k av rg =
     (case rg_episodes rg k of
        None \<Rightarrow> rg
      | Some e \<Rightarrow>
          let delay = compute_delay env e av
          in if delay > episode_deadline e - rv_epoch env
             then stop_episode k ''episode_deadline_passed'' (Some True) rg
             else arm_timer env r k delay rg)"

section \<open>The recurrence counter\<close>

definition failed_run_of :: "agent \<Rightarrow> run option" where
  "failed_run_of a =
     (case filter (\<lambda>r. ru_status r = Run_Failed \<and> ru_failure r \<noteq> None)
             ((case ag_current a of None \<Rightarrow> [] | Some r \<Rightarrow> [r]) @ rev (ag_history a)) of
        [] \<Rightarrow> None | r # _ \<Rightarrow> Some r)"

type_synonym counters = "(string \<times> int) list \<times> ((string \<times> string) \<times> int) list \<times> int"

text \<open>One ancestor: its own contribution leaves its key and is added to what migrates.\<close>

definition migrate_ancestor :: "string \<Rightarrow> agent \<Rightarrow> counters \<Rightarrow> counters" where
  "migrate_ancestor key a acc =
     (case acc of (lineage, attributed, migrated) \<Rightarrow>
        case Option.bind (failed_run_of a) ru_failure of
          None \<Rightarrow> acc
        | Some e \<Rightarrow>
            let akey = lineage_key a e
            in if akey = key then acc
               else
                 let own = int_get attributed (ag_id a, akey);
                     attributed' = dict_pop (ag_id a, akey) attributed;
                     left = int_get lineage akey - own
                 in if own = 0 then (lineage, attributed', migrated)
                    else ((if left > 0 then dict_set akey left lineage else dict_pop akey lineage),
                          attributed', migrated + own))"

function walk_lineage ::
  "(string \<times> agent) list \<Rightarrow> string \<Rightarrow> string list \<Rightarrow> string option \<Rightarrow> counters \<Rightarrow> counters" where
  "walk_lineage records key seen None acc = acc"
| "walk_lineage records key seen (Some i) acc =
     (if i \<in> set seen then acc
      else case map_of records i of
        None \<Rightarrow> acc
      | Some a \<Rightarrow> walk_lineage records key (i # seen) (ag_predecessor a) (migrate_ancestor key a acc))"
  by pat_completeness auto

termination
proof (relation "measure (\<lambda>(records, key, seen, i, acc). card (fst ` set records - set seen))", simp, goal_cases)
  case (1 records key seen i acc a)
  from 1(2) have "i \<in> fst ` set records" by (force dest: map_of_SomeD)
  with 1(1) have "fst ` set records - set (i # seen) \<subset> fst ` set records - set seen" by auto
  then show ?case by (auto intro: psubset_card_mono)
qed

definition resolve_lineage_key :: "agent \<Rightarrow> failure_envelope \<Rightarrow> recovery_registry \<Rightarrow> string \<times> recovery_registry" where
  "resolve_lineage_key a e rg =
     (let key = lineage_key a e
      in if take 4 key \<noteq> ''pkg:'' then (key, rg)
         else case walk_lineage (rg_records rg) key [ag_id a] (ag_predecessor a) (rg_lineage rg, rg_attributed rg, 0) of
           (lineage, attributed, migrated) \<Rightarrow>
             (key, rg\<lparr>rg_lineage := (if migrated = 0 then lineage
                                    else dict_set key (int_get lineage key + migrated) lineage),
                      rg_attributed := attributed\<rparr>))"

section \<open>A failed run\<close>

definition launch_failure_retries_max :: int where "launch_failure_retries_max = 1"

definition failure_chain :: "agent \<Rightarrow> run \<Rightarrow> string" where
  "failure_chain a r =
     or_else (ag_chain a)
       (case ru_failure r of
          Some e \<Rightarrow> en_chain e
        | None \<Rightarrow> ''recovery-chain:'' @ ag_id a @ '':'' @ ru_id r)"

text \<open>The active episode of the chain, or a new one with the policy of the moment.\<close>

definition open_episode :: "recovery_env \<Rightarrow> agent \<Rightarrow> run \<Rightarrow> recovery_registry \<Rightarrow> nat \<times> recovery_registry" where
  "open_episode env a r rg =
     (let chain = failure_chain a r;
          started = (case ru_failure r of Some e \<Rightarrow> en_observed_at e | None \<Rightarrow> rv_epoch env);
          fresh = (rg_fresh rg,
            (put_episode (rg_fresh rg) (new_episode (ag_id a) chain started (rv_config env)) rg)
              \<lparr>rg_fresh := rg_fresh rg + 1, rg_index := dict_set (ag_id a) (rg_fresh rg) (rg_index rg)\<rparr>)
      in case episode_at rg (ag_id a) of
           None \<Rightarrow> fresh
         | Some (k, e) \<Rightarrow> if \<not> ep_active e \<or> ep_chain e \<noteq> chain then fresh else (k, rg))"

definition is_launch_failure :: "failure_envelope \<Rightarrow> bool" where
  "is_launch_failure e \<longleftrightarrow> ef_class (en_failure e) = Launch_Failure"

text \<open>The gates up to the lineage counter: the reason of the stop, and whether it is reported.\<close>

definition refused_early :: "recovery_config \<Rightarrow> agent \<Rightarrow> failure_envelope \<Rightarrow> episode \<Rightarrow> (string \<times> bool) option" where
  "refused_early cfg a e ep =
     (if measured_timeout_reason_of e \<noteq> None
      then Some (''resume_progress_deadline_no_auto_recovery'', ep_driven ep)
      else if fst (effective_eligibility a e) \<noteq> Eligible
      then Some (''not_eligible:'' @ class_value (ef_class (en_failure e)), ep_driven ep)
      else if (case eligible_class_of e of None \<Rightarrow> True | Some c \<Rightarrow> c \<notin> set (rc_eligible cfg))
      then Some (''class_not_eligible'', True)
      else if ep_used ep \<ge> ep_auto_max ep then Some (''auto_retries_exhausted'', True)
      else if is_launch_failure e \<and> ep_launch_used ep \<ge> launch_failure_retries_max
      then Some (''repeated_launch_failure'', True)
      else None)"

definition refused_late :: "recovery_env \<Rightarrow> agent \<Rightarrow> run \<Rightarrow> episode \<Rightarrow> int \<Rightarrow> (string \<times> bool) option" where
  "refused_late env a r ep recurrence =
     (if recurrence \<ge> ep_auto_max ep then Some (''package_recurrence_exhausted'', True)
      else if rv_epoch env \<ge> episode_deadline ep then Some (''episode_deadline_passed'', True)
      else if ag_state a \<noteq> Suspended \<or> ag_latest a \<noteq> Some (ru_id r) then Some (''not_suspended'', ep_driven ep)
      else if av_permanent (available_now env (ag_id a)) then Some (''permanent_incompatibility'', True)
      else None)"

definition set_pending :: "failure_envelope \<Rightarrow> string \<Rightarrow> episode \<Rightarrow> episode" where
  "set_pending e key ep =
     ep\<lparr>ep_retry_after := (case er_retry_after (en_request e) of None \<Rightarrow> 0 | Some t \<Rightarrow> t),
        ep_launch_pending := is_launch_failure e, ep_lineage := key\<rparr>"

definition on_failure :: "recovery_env \<Rightarrow> agent \<Rightarrow> run \<Rightarrow> recovery_registry \<Rightarrow> recovery_registry" where
  "on_failure env a r rg =
     (case open_episode env a r rg of (k, rg1) \<Rightarrow>
        let rg2 = (case ru_failure r of
                     Some e \<Rightarrow> emit k Ev_Failure (en_event_id e) (ru_id r) (''class='' @ class_value (ef_class (en_failure e))) rg1
                   | None \<Rightarrow> emit k Ev_Failure (''failure-event:'' @ ag_id a @ '':'' @ ru_id r) (ru_id r) ''class=unavailable'' rg1)
        in case (rg_episodes rg2 k, ru_failure r) of
             (None, _) \<Rightarrow> rg2
           | (Some ep, None) \<Rightarrow> stop_episode k ''no_failure_envelope'' (Some (ep_driven ep)) rg2
           | (Some ep, Some e) \<Rightarrow>
               (case refused_early (rv_config env) a e ep of
                  Some (reason, report) \<Rightarrow> stop_episode k reason (Some report) rg2
                | None \<Rightarrow>
                    (case resolve_lineage_key a e rg2 of (key, rg3) \<Rightarrow>
                       case refused_late env a r ep (int_get (rg_lineage rg3) key) of
                         Some (reason, report) \<Rightarrow> stop_episode k reason (Some report) rg3
                       | None \<Rightarrow>
                           arm_or_stop env r k (available_now env (ag_id a)) (put_episode k (set_pending e key ep) rg3))))"

section \<open>A completed run\<close>

definition on_success :: "agent \<Rightarrow> run \<Rightarrow> recovery_registry \<Rightarrow> recovery_registry" where
  "on_success a r rg =
     (case episode_at rg (ag_id a) of
        None \<Rightarrow> rg
      | Some (k, ep) \<Rightarrow>
          if \<not> ep_active ep then rg
          else
            let ep1 = ep\<lparr>ep_timer := None\<rparr>; rg1 = put_episode k ep1 rg
            in if ru_resumed_from r = None \<and> ru_chain r \<noteq> Some (ep_chain ep)
               then stop_episode k ''superseded_by_explicit_run'' (Some True) rg1
               else
                 let rg2 = emit k Ev_Success (''success:'' @ ep_agent ep @ '':'' @ ep_chain ep) (ru_id r)
                             (''auto_retries_used='' @ show_int (ep_used ep)) rg1
                 in (case rg_episodes rg2 k of
                       None \<Rightarrow> rg2
                     | Some ep2 \<Rightarrow>
                         (put_episode k (ep2\<lparr>ep_active := False, ep_scheduled := None\<rparr>) rg2)
                           \<lparr>rg_index := dict_pop (ep_agent ep) (rg_index rg2)\<rparr>))"

definition observe_run :: "recovery_env \<Rightarrow> agent \<Rightarrow> run \<Rightarrow> recovery_registry \<Rightarrow> recovery_registry" where
  "observe_run env a r rg =
     (if rg_draining rg \<or> rg_admission_closed rg then rg
      else if \<not> generation_is_current rg (ag_generation a) then rg
      else if \<not> rc_enabled (rv_config env) then rg
      else case ru_status r of
             Run_Failed \<Rightarrow> on_failure env a r rg
           | Run_Completed \<Rightarrow> on_success a r rg
           | _ \<Rightarrow> rg)"

section \<open>Invalidation\<close>

definition cancel_pending :: "string \<Rightarrow> recovery_registry \<Rightarrow> recovery_registry" where
  "cancel_pending agent rg =
     (case episode_at rg agent of None \<Rightarrow> rg | Some (k, _) \<Rightarrow> stop_episode k ''invalidated'' None rg)"

definition cancel_all :: "recovery_registry \<Rightarrow> recovery_registry" where
  "cancel_all rg = fold (\<lambda>k. stop_episode k ''invalidated'' None) (map snd (rg_index rg)) rg"

definition stand_down_schedule :: "string \<Rightarrow> recovery_registry \<Rightarrow> recovery_registry" where
  "stand_down_schedule agent rg =
     (case episode_at rg agent of
        None \<Rightarrow> rg
      | Some (k, ep) \<Rightarrow>
          if ep_active ep \<and> ep_timer ep \<noteq> None
          then put_episode k (ep\<lparr>ep_timer := None, ep_scheduled := None\<rparr>) rg else rg)"

definition rearm_schedule :: "recovery_env \<Rightarrow> string \<Rightarrow> recovery_registry \<Rightarrow> recovery_registry" where
  "rearm_schedule env agent rg =
     (case episode_at rg agent of
        None \<Rightarrow> rg
      | Some (k, ep) \<Rightarrow>
          if \<not> ep_active ep \<or> ep_timer ep \<noteq> None then rg
          else case record_of rg agent of
            None \<Rightarrow> rg
          | Some a \<Rightarrow>
              (case Option.bind (ag_latest a) (\<lambda>l. find_run l a) of
                 None \<Rightarrow> rg
               | Some r \<Rightarrow>
                   if ru_status r \<noteq> Run_Failed \<or> ag_state a \<noteq> Suspended \<or> ag_superseded a \<or> ag_reserved a then rg
                   else if av_permanent (available_now env agent)
                   then stop_episode k ''permanent_incompatibility'' (Some True) rg
                   else arm_or_stop env r k (available_now env agent) rg))"

section \<open>The timer\<close>

text \<open>What a timer asks of \<open>resume_agent\<close> when it admits.\<close>

record retry_request =
  rq_episode :: nat
  rq_agent :: string
  rq_failed :: string
  rq_key :: string
  rq_parent :: string

definition barrier_intact :: "agent \<Rightarrow> string \<Rightarrow> bool" where
  "barrier_intact a failed \<longleftrightarrow>
     ag_state a = Suspended \<and> ag_latest a = Some failed \<and> \<not> ag_superseded a \<and> \<not> ag_reserved a"

text \<open>The validation of a schedule whose record is still attached.\<close>

definition timer_check ::
  "recovery_env \<Rightarrow> nat \<Rightarrow> string \<Rightarrow> episode \<Rightarrow> agent \<Rightarrow> recovery_registry \<Rightarrow> recovery_registry \<times> retry_request option" where
  "timer_check env k failed ep a rg =
     (if \<not> barrier_intact a failed \<or> \<not> generation_is_current rg (ag_generation a) \<or>
         rg_draining rg \<or> rg_admission_closed rg
      then (stop_episode k ''invalidated'' None rg, None)
      else if \<not> rc_enabled (rv_config env) then (stop_episode k ''disabled'' None rg, None)
      else if rv_epoch env \<ge> episode_deadline ep
      then (stop_episode k ''episode_deadline_passed'' (Some True) rg, None)
      else
        let av = available_now env (ep_agent ep)
        in if av_permanent av then (stop_episode k ''permanent_incompatibility'' (Some True) rg, None)
           else if \<not> av_available av
           then (let delay = compute_delay env ep av
                 in if delay > episode_deadline ep - rv_epoch env
                    then (stop_episode k ''episode_deadline_passed'' (Some True) rg, None)
                    else (put_episode k (ep\<lparr>ep_timer := Some (failed, delay)\<rparr>) rg, None))
           else case rg_root rg of
             None \<Rightarrow> (stop_episode k ''no_parent'' None rg, None)
           | Some parent \<Rightarrow>
               (rg, Some \<lparr>rq_episode = k, rq_agent = ep_agent ep, rq_failed = failed,
                          rq_key = ''auto-recovery:'' @ ep_chain ep @ '':'' @ show_int (ep_used ep),
                          rq_parent = parent\<rparr>))"

text \<open>
  A timer that sleeps for \<open>failed\<close> wakes: the section under the lock, and the read of the root that
  follows it.
\<close>

definition timer_wakes ::
  "recovery_env \<Rightarrow> nat \<Rightarrow> string \<Rightarrow> recovery_registry \<Rightarrow> recovery_registry \<times> retry_request option" where
  "timer_wakes env k failed rg0 =
     (case rg_episodes rg0 k of
        None \<Rightarrow> (rg0, None)
      | Some ep0 \<Rightarrow>
          let ep = ep0\<lparr>ep_timer := None\<rparr>; rg = put_episode k ep rg0
          in if \<not> ep_active ep \<or> ep_scheduled ep \<noteq> Some failed then (rg, None)
             else case record_of rg (ep_agent ep) of
               None \<Rightarrow> (stop_episode k ''invalidated'' None rg, None)
             | Some a \<Rightarrow> timer_check env k failed ep a rg)"

text \<open>The accounting after \<open>resume_agent\<close> answered; a raised \<open>RuntimeError\<close> stops the episode.\<close>

definition capacity_rejected :: "nat \<Rightarrow> recovery_registry \<Rightarrow> recovery_registry" where
  "capacity_rejected k rg = stop_episode k ''admission_capacity_rejected'' (Some True) rg"

definition count_admission :: "episode \<Rightarrow> recovery_registry \<Rightarrow> recovery_registry" where
  "count_admission ep rg =
     rg\<lparr>rg_lineage := dict_set (ep_lineage ep) (int_get (rg_lineage rg) (ep_lineage ep) + 1) (rg_lineage rg),
        rg_attributed :=
          dict_set (ep_agent ep, ep_lineage ep) (int_get (rg_attributed rg) (ep_agent ep, ep_lineage ep) + 1)
            (rg_attributed rg)\<rparr>"

definition account_admission :: "nat \<Rightarrow> resume_result \<Rightarrow> recovery_registry \<Rightarrow> recovery_registry" where
  "account_admission k res rg =
     (case rg_episodes rg k of
        None \<Rightarrow> rg
      | Some ep \<Rightarrow>
          if \<not> ep_active ep then rg
          else case rs_outcome res of
            Scheduled \<Rightarrow>
              (let ep1 = ep\<lparr>ep_used := ep_used ep + 1,
                            ep_launch_used := ep_launch_used ep + of_bool (ep_launch_pending ep),
                            ep_scheduled := None\<rparr>
               in emit k Ev_Successor_Start
                    (''successor-start:'' @ ep_agent ep @ '':'' @ or_none (rs_successor res)) (or_else (rs_successor res) [])
                    (''operation='' @ or_none (rs_operation res) @ '' auto_retries_used='' @ show_int (ep_used ep1))
                    (put_episode k ep1 (count_admission ep rg)))
          | Already_Scheduled \<Rightarrow> put_episode k (ep\<lparr>ep_scheduled := None\<rparr>) rg
          | Already_Resumed \<Rightarrow> put_episode k (ep\<lparr>ep_scheduled := None\<rparr>) rg
          | out \<Rightarrow> stop_episode k (''admission_'' @ outcome_value out) (Some True) rg)"

end
