(* ===== verification/Suspension.thy ===== *)
theory Suspension
  imports Recovery_Controller
begin

text \<open>
  Warm suspension (\<open>app_server/_suspension_lifecycle.py\<close> and the suspension hook of
  \<open>app_server/_subagent_recovery.py\<close>): the byte accounting, the choice of a victim, expiry, and the
  decision that suspends a failed agent instead of closing it.
\<close>

section \<open>Accounting\<close>

definition message_overhead_bytes :: int where "message_overhead_bytes = 64"

fun role_text :: "role \<Rightarrow> string" where
  "role_text System = ''system''"
| "role_text User = ''user''"
| "role_text Assistant = ''assistant''"
| "role_text Tool = ''tool''"

definition opt_length :: "string option \<Rightarrow> int" where
  "opt_length x = (case x of None \<Rightarrow> 0 | Some s \<Rightarrow> int (length s))"

definition warm_message_bytes :: "recovery_env \<Rightarrow> llm_message \<Rightarrow> int" where
  "warm_message_bytes env m =
     message_overhead_bytes + int (length (role_text (role_of m))) + opt_length (Messages.content m) +
     sum_list (map (opt_length \<circ> tc_id) (calls_of m)) + opt_length (tool_call_id m) + rv_other_bytes env m"

definition warm_conversation_bytes :: "recovery_env \<Rightarrow> llm_message list \<Rightarrow> int" where
  "warm_conversation_bytes env ms = sum_list (map (warm_message_bytes env) ms)"

definition held_bytes :: "agent \<Rightarrow> int" where
  "held_bytes a =
     (if ag_state a = Suspended \<or> ag_state a = Restoring
      then (case ag_warm_bytes a of None \<Rightarrow> 0 | Some n \<Rightarrow> n) else 0)"

definition suspended_total_bytes :: "recovery_registry \<Rightarrow> int" where
  "suspended_total_bytes rg = sum_list (map (held_bytes \<circ> snd) (rg_records rg))"

section \<open>Victims\<close>

text \<open>The number in \<open>agent-N\<close>; other handles come first.\<close>

definition agent_id_sort_key :: "string \<Rightarrow> int" where
  "agent_id_sort_key i =
     (if take 6 i = ''agent-'' \<and> drop 6 i \<noteq> [] \<and> list_all is_digit (drop 6 i)
      then int (decimal_value (drop 6 i)) else - 1)"

text \<open>The suspended agents in the order of the registry, each with the time of its suspension.\<close>

definition suspended_since :: "recovery_registry \<Rightarrow> (rat \<times> string) list" where
  "suspended_since rg =
     List.map_filter (\<lambda>(i, a). if ag_state a = Suspended then map_option (\<lambda>t. (t, i)) (ag_suspended_at a) else None)
       (rg_records rg)"

definition older :: "rat \<times> string \<Rightarrow> rat \<times> string \<Rightarrow> bool" where
  "older x y \<longleftrightarrow>
     fst x < fst y \<or> (fst x = fst y \<and> agent_id_sort_key (snd x) < agent_id_sort_key (snd y))"

definition oldest_suspended :: "string \<Rightarrow> recovery_registry \<Rightarrow> string option" where
  "oldest_suspended self rg =
     (case filter (\<lambda>x. snd x \<noteq> self) (suspended_since rg) of
        [] \<Rightarrow> None
      | x # xs \<Rightarrow> Some (snd (foldl (\<lambda>best y. if older y best then y else best) x xs)))"

text \<open>Expiry detaches the record; its tombstone and stored result are not part of the model.\<close>

definition expire_record :: "string \<Rightarrow> recovery_registry \<Rightarrow> recovery_registry" where
  "expire_record agent rg = drop_record agent rg"

lemma foldl_choice: "foldl (\<lambda>b y. if P y b then y else b) x xs \<in> insert x (set xs)"
proof (induction xs arbitrary: x)
  case Nil
  show ?case by simp
next
  case (Cons y ys)
  from Cons [of y] Cons [of x] show ?case by (cases "P y x") auto
qed

lemma oldest_suspended_mem:
  assumes "oldest_suspended self rg = Some v"
  obtains t where "(t, v) \<in> set (suspended_since rg)" "v \<noteq> self"
proof -
  let ?ys = "filter (\<lambda>x. snd x \<noteq> self) (suspended_since rg)"
  from assms obtain x xs where xs: "?ys = x # xs"
    and v: "v = snd (foldl (\<lambda>best y. if older y best then y else best) x xs)"
    by (auto simp: oldest_suspended_def split: list.splits)
  obtain y where y: "y = foldl (\<lambda>best y. if older y best then y else best) x xs" by simp
  have "y \<in> insert x (set xs)" unfolding y by (rule foldl_choice)
  then have "y \<in> set ?ys" unfolding xs by simp
  with v y that [of "fst y"] show thesis by simp
qed

lemma suspended_since_mem:
  "(t, i) \<in> set (suspended_since rg) \<longleftrightarrow>
     (\<exists>a. (i, a) \<in> set (rg_records rg) \<and> ag_state a = Suspended \<and> ag_suspended_at a = Some t)"
  by (force simp: suspended_since_def List.map_filter_def split: if_splits prod.splits)

section \<open>Admission of a suspension\<close>

text \<open>The eviction loop of \<open>admit_locked\<close>: every round detaches a record.\<close>

function make_room :: "int \<Rightarrow> int \<Rightarrow> string \<Rightarrow> recovery_registry \<Rightarrow> bool \<times> recovery_registry" where
  "make_room cap needed self rg =
     (if suspended_total_bytes rg + needed \<le> cap then (True, rg)
      else case oldest_suspended self rg of
        None \<Rightarrow> (False, rg)
      | Some v \<Rightarrow> make_room cap needed self (expire_record v rg))"
  by pat_completeness auto

termination
proof (relation "measure (\<lambda>(cap, needed, self, rg). length (rg_records rg))", simp, goal_cases)
  case (1 cap needed self rg v)
  from 1(2) obtain t a where "(v, a) \<in> set (rg_records rg)"
    by (elim oldest_suspended_mem) (auto simp: suspended_since_mem)
  then have "length (filter (\<lambda>e. fst e \<noteq> v) (rg_records rg)) < length (rg_records rg)"
    by (intro length_filter_less) auto
  then show ?case by (simp add: expire_record_def drop_record_def dict_pop_def)
qed

declare make_room.simps [simp del]

definition suspension_admit :: "recovery_env \<Rightarrow> agent \<Rightarrow> recovery_registry \<Rightarrow> bool \<times> recovery_registry" where
  "suspension_admit env a rg =
     (let needed = warm_conversation_bytes env (ag_messages a); cap = rc_max_bytes (rv_config env);
          (ok, rg1) = (if cap \<le> 0 then (True, rg)
                       else if needed > cap then (False, rg)
                       else make_room cap needed (ag_id a) rg)
      in (ok, if ok then put_record (a\<lparr>ag_warm_bytes := Some needed\<rparr>) rg1 else rg1))"

section \<open>Time to live\<close>

definition next_expiry :: "recovery_config \<Rightarrow> recovery_registry \<Rightarrow> rat option" where
  "next_expiry cfg rg =
     (case suspended_since rg of
        [] \<Rightarrow> None
      | x # xs \<Rightarrow>
          if rc_ttl cfg \<le> 0 then None
          else Some (foldl min (fst x + rc_ttl cfg) (map (\<lambda>y. fst y + rc_ttl cfg) xs)))"

definition expire_elapsed :: "rat \<Rightarrow> recovery_config \<Rightarrow> recovery_registry \<Rightarrow> string list \<times> recovery_registry" where
  "expire_elapsed now cfg rg =
     (if rc_ttl cfg \<le> 0 then ([], rg)
      else
        let gone = map snd (filter (\<lambda>x. now \<ge> fst x + rc_ttl cfg) (suspended_since rg))
        in (gone, fold expire_record gone rg))"

section \<open>The suspension hook\<close>

definition suspended_count :: "recovery_registry \<Rightarrow> nat" where
  "suspended_count rg = length (filter (\<lambda>(_, a). ag_state a = Suspended) (rg_records rg))"

text \<open>The decision matrix before the byte cap.\<close>

definition may_suspend :: "recovery_env \<Rightarrow> agent \<Rightarrow> run \<Rightarrow> failure_envelope \<Rightarrow> recovery_registry \<Rightarrow> bool" where
  "may_suspend env a r e rg \<longleftrightarrow>
     (ec_eligibility (en_recovery e) = Eligible \<or> ec_eligibility (en_recovery e) = Reconcile_Required) \<and>
     ag_state a = Finalizing \<and> \<not> ag_reserved a \<and> \<not> rg_draining rg \<and>
     generation_is_current rg (ag_generation a) \<and> ag_resident a \<and> ag_latest a = Some (ru_id r) \<and>
     ag_resumes_used a < rc_resumes_max (rv_config env) \<and>
     int (suspended_count rg) < rc_max_suspended (rv_config env) \<and> rc_ttl (rv_config env) > 0"

definition mark_suspended :: "recovery_env \<Rightarrow> failure_envelope \<Rightarrow> agent \<Rightarrow> agent" where
  "mark_suspended env e a =
     a\<lparr>ag_state := Suspended, ag_suspended_at := Some (rv_clock env),
       ag_chain := (case ag_chain a of None \<Rightarrow> Some (en_chain e) | c \<Rightarrow> c),
       ag_flag := None, ag_flag_codes := []\<rparr>"

definition suspend_after_failure ::
  "recovery_env \<Rightarrow> string \<Rightarrow> run \<Rightarrow> recovery_registry \<Rightarrow> bool \<times> recovery_registry" where
  "suspend_after_failure env agent r rg =
     (case (record_of rg agent, ru_failure r) of
        (Some a, Some e) \<Rightarrow>
          if ru_status r \<noteq> Run_Failed \<or> \<not> may_suspend env a r e rg then (False, rg)
          else (case suspension_admit env a rg of
                  (False, rg1) \<Rightarrow> (False, rg1)
                | (True, rg1) \<Rightarrow>
                    (case record_of rg1 agent of
                       None \<Rightarrow> (False, rg1)
                     | Some a1 \<Rightarrow> (True, put_record (mark_suspended env e a1) rg1)))
      | _ \<Rightarrow> (False, rg))"

section \<open>Invalidation\<close>

text \<open>\<open>_invalidate_recovery_locked\<close>: the episode stops, the barrier is superseded.\<close>

definition invalidate_recovery :: "string \<Rightarrow> recovery_registry \<Rightarrow> recovery_registry" where
  "invalidate_recovery agent rg =
     (let rg1 = cancel_pending agent rg
      in case record_of rg1 agent of
           None \<Rightarrow> rg1
         | Some a \<Rightarrow> put_record (a\<lparr>ag_pending := None, ag_superseded := True\<rparr>) rg1)"

definition cancel_suspension :: "string \<Rightarrow> recovery_registry \<Rightarrow> recovery_registry" where
  "cancel_suspension agent rg = expire_record agent (cancel_pending agent rg)"

end
