(* ===== verification/Subagent_Recovery.thy ===== *)
theory Subagent_Recovery
  imports Suspension
begin

text \<open>
  The explicit ports of recovery (\<open>app_server/_subagent_recovery.py\<close>): the admission of a resume
  with its rollback and its publication, and the reconciliation of tool effects that nobody saw
  settle.
\<close>

section \<open>The gates of a resume\<close>

definition refuse :: "resume_outcome \<Rightarrow> string \<Rightarrow> string \<Rightarrow> eligibility option \<Rightarrow> string list \<Rightarrow> string \<Rightarrow> resume_result" where
  "refuse outcome agent expected elig codes reason =
     \<lparr>rs_outcome = outcome, rs_agent = agent, rs_run = Some expected, rs_successor = None, rs_operation = None,
      rs_retry_at = None, rs_eligibility = elig, rs_reasons = codes, rs_reason = Some reason, rs_resumes_used = 0\<rparr>"

text \<open>A pending admission answers its own key with itself, and any other request with itself as well.\<close>

definition pending_answer :: "agent \<Rightarrow> resume_operation \<Rightarrow> string \<Rightarrow> string \<Rightarrow> resume_result" where
  "pending_answer a op expected key =
     (if op_key op = key \<and> op_expected op = expected
      then \<lparr>rs_outcome = Already_Scheduled, rs_agent = ag_id a, rs_run = Some expected,
             rs_successor = Some (op_successor op), rs_operation = Some (op_id op),
             rs_retry_at = Some (op_admitted_at op), rs_eligibility = None, rs_reasons = [],
             rs_reason = Some ''A resume with this idempotency key is already scheduled'',
             rs_resumes_used = ag_resumes_used a\<rparr>
      else \<lparr>rs_outcome = Already_Resumed, rs_agent = ag_id a, rs_run = Some (op_expected op),
             rs_successor = Some (op_successor op), rs_operation = Some (op_id op), rs_retry_at = None,
             rs_eligibility = None, rs_reasons = [],
             rs_reason = Some ''A resume admission for this agent is already in flight'',
             rs_resumes_used = ag_resumes_used a\<rparr>)"

definition successor_of :: "agent \<Rightarrow> string \<Rightarrow> run option" where
  "successor_of a failed =
     (case filter (\<lambda>r. ru_resumed_from r = Some failed) (ag_history a) of [] \<Rightarrow> None | r # _ \<Rightarrow> Some r)"

definition resumed_answer :: "agent \<Rightarrow> run \<Rightarrow> string \<Rightarrow> resume_result" where
  "resumed_answer a r expected =
     \<lparr>rs_outcome = Already_Resumed, rs_agent = ag_id a, rs_run = Some expected, rs_successor = Some (ru_id r),
      rs_operation = None, rs_retry_at = None, rs_eligibility = None, rs_reasons = [],
      rs_reason = Some ''The pinned failed run already has an admitted successor'',
      rs_resumes_used = ag_resumes_used a\<rparr>"

text \<open>The gates that pin the failed run: who asks, what is in flight, what the record holds.\<close>

definition resume_target ::
  "agent \<Rightarrow> string \<Rightarrow> string \<Rightarrow> string \<Rightarrow> resume_result + run \<times> failure_envelope" where
  "resume_target a expected key requester =
     (if ag_parent a \<noteq> requester
      then Inl (refuse Forbidden (ag_id a) expected None [''forbidden_requester'']
                  ''Only the owning parent may resume this agent'')
      else case ag_pending a of
        Some op \<Rightarrow> Inl (pending_answer a op expected key)
      | None \<Rightarrow>
          (case successor_of a expected of
             Some r \<Rightarrow> Inl (resumed_answer a r expected)
           | None \<Rightarrow>
               if ag_superseded a \<or> ag_reserved a
               then Inl (refuse Not_Resumable (ag_id a) expected None [''recovery_superseded'']
                           ''Recovery for this agent was superseded by replacement'')
               else if ag_state a \<noteq> Suspended
               then Inl (refuse Not_Resumable (ag_id a) expected None [''not_suspended'']
                           (''Agent is '' @ availability_text (ag_state a) @ '', not suspended''))
               else case find_run expected a of
                 None \<Rightarrow> Inl (refuse Not_Resumable (ag_id a) expected None [''stale_expected_run_id'']
                           ''expected_run_id does not match the suspended failed run'')
               | Some r \<Rightarrow>
                   if ag_latest a \<noteq> Some expected
                   then Inl (refuse Not_Resumable (ag_id a) expected None [''stale_expected_run_id'']
                           ''expected_run_id does not match the suspended failed run'')
                   else case ru_failure r of
                     None \<Rightarrow> Inl (refuse Not_Resumable (ag_id a) expected None [''no_failure_envelope'']
                           ''The suspended run has no failure envelope'')
                   | Some e \<Rightarrow> Inr (r, e)))"

text \<open>
  The gates of policy: eligibility, the two deadlines, the budget, residency, availability.  The
  answer is the eligibility with the codes of the admission.
\<close>

definition resume_policy ::
  "recovery_env \<Rightarrow> agent \<Rightarrow> string \<Rightarrow> failure_envelope \<Rightarrow> bool \<Rightarrow> resume_result + eligibility \<times> string list" where
  "resume_policy env a expected e override =
     (case effective_eligibility a e of (elig, codes) \<Rightarrow>
        let cfg = rv_config env; no = (\<lambda>out cs reason. Inl (refuse out (ag_id a) expected (Some elig) cs reason));
            av = available_now env (ag_id a);
            forced = (\<not> av_available av \<and> override \<and> \<not> av_permanent av)
        in if elig = Reconcile_Required
           then no Needs_Reconcile codes
                  ''Unknown tool outcomes block replay; verify them externally and submit reconcile_result first''
           else if elig = Prohibited
           then no Not_Resumable codes ''Recovery eligibility is prohibited; replacement remains permitted''
           else if (case ec_expires_at (en_recovery e) of None \<Rightarrow> False | Some t \<Rightarrow> rv_epoch env \<ge> t)
           then no Window_Expired [''recovery_window_expired''] ''The recovery window expired''
           else if rv_epoch env \<ge> en_observed_at e + rc_deadline cfg
           then no Window_Expired [''episode_deadline_passed'']
                  ''The advisory episode deadline passed; no new admission after the deadline''
           else if ag_resumes_used a \<ge> rc_resumes_max cfg
           then no Not_Resumable [''resume_budget_exhausted''] ''The same-agent resume budget is exhausted''
           else if \<not> ag_resident a
           then no Not_Resumable [''runtime_unavailable''] ''The suspended runtime is no longer resident''
           else if \<not> av_available av \<and> \<not> forced
           then (if av_permanent av
                 then no Not_Resumable [''permanent_incompatibility'']
                        ''Every deployment of the committed model is permanently excluded; resume is rejected''
                 else no Not_Resumable [''model_unavailable'']
                        ''Every deployment of the committed model is currently unavailable; resume is rejected without consuming the resume budget'')
           else Inr (elig, if forced then codes @ [''forced_un_stick_attempt''] else codes))"

definition active_recoveries :: "recovery_registry \<Rightarrow> int" where
  "active_recoveries rg =
     int (length (filter (\<lambda>(_, a). ag_state a = Restoring \<or>
       (case ag_current a of None \<Rightarrow> False | Some r \<Rightarrow> ru_resumed_from r \<noteq> None)) (rg_records rg)))"

text \<open>The text of the \<open>RuntimeError\<close> a full registry raises.\<close>

definition capacity_error :: "recovery_config \<Rightarrow> recovery_registry \<Rightarrow> string option" where
  "capacity_error cfg rg =
     (if active_recoveries rg \<ge> rc_concurrency cfg
      then Some (''Subagent resume rejected: '' @ show_int (active_recoveries rg) @
                 '' recovery runs already active (cap '' @ show_int (rc_concurrency cfg) @
                 ''); wait for completion or release agents before resuming'')
      else if int (length (rg_slots rg)) \<ge> rg_cap rg
      then Some (''Subagent resume rejected: '' @ show_int (int (length (rg_slots rg))) @
                 '' agents already running (cap '' @ show_int (rg_cap rg) @
                 ''); wait for completion or release agents before resuming'')
      else None)"

section \<open>The admission\<close>

record resume_admission =
  ad_failed :: run
  ad_operation :: resume_operation
  ad_parent :: string
  ad_resumes_before :: int
  ad_eligibility :: eligibility
  ad_reasons :: "string list"

datatype resume_reply =
  Answered resume_result | Capacity string | No_Parent | Admitted resume_admission

definition new_operation :: "recovery_env \<Rightarrow> string \<Rightarrow> string \<Rightarrow> string \<Rightarrow> string \<Rightarrow> resume_operation" where
  "new_operation env agent expected key fresh =
     \<lparr>op_id = ''resume-op:'' @ agent @ '':'' @ fresh, op_agent = agent, op_expected = expected, op_key = key,
      op_successor = fresh, op_admitted_at = rv_epoch env\<rparr>"

definition commit_resume :: "resume_operation \<Rightarrow> agent \<Rightarrow> recovery_registry \<Rightarrow> recovery_registry" where
  "commit_resume op a rg =
     (let rg1 = stand_down_schedule (ag_id a)
            (put_record (a\<lparr>ag_pending := Some op, ag_state := Restoring, ag_resumes_used := ag_resumes_used a + 1\<rparr>) rg)
      in rg1\<lparr>rg_slots := op_successor op # rg_slots rg1\<rparr>)"

text \<open>\<open>fresh\<close> is the run id \<open>_new_run_id\<close> mints.\<close>

definition resume_agent ::
  "recovery_env \<Rightarrow> string \<Rightarrow> string \<Rightarrow> string \<Rightarrow> string \<Rightarrow> bool \<Rightarrow> string \<Rightarrow> recovery_registry \<Rightarrow>
     resume_reply \<times> recovery_registry" where
  "resume_agent env agent expected key requester override fresh rg =
     (if rg_admission_closed rg \<or> rg_draining rg
      then (Answered (refuse Forbidden agent expected None [''admission_closed''] ''Agent admission is closed''), rg)
      else case record_of rg agent of
        None \<Rightarrow>
          (Answered (refuse Not_Resumable agent expected None [''not_suspended'']
             (case rv_tombstone env agent of
                None \<Rightarrow> ''Unknown agent '' @ agent
              | Some t \<Rightarrow> ''Agent '' @ agent @ '' is '' @ t @ '' terminal metadata and cannot be resumed'')), rg)
      | Some a \<Rightarrow>
          (case resume_target a expected key requester of
             Inl res \<Rightarrow> (Answered res, rg)
           | Inr (r, e) \<Rightarrow>
               (case resume_policy env a expected e override of
                  Inl res \<Rightarrow> (Answered res, rg)
                | Inr (elig, codes) \<Rightarrow>
                    (case capacity_error (rv_config env) rg of
                       Some msg \<Rightarrow> (Capacity msg, rg)
                     | None \<Rightarrow>
                         (case rg_root rg of
                            None \<Rightarrow> (No_Parent, rg)
                          | Some parent \<Rightarrow>
                              let op = new_operation env agent expected key fresh
                              in (Admitted \<lparr>ad_failed = r, ad_operation = op, ad_parent = parent,
                                            ad_resumes_before = ag_resumes_used a, ad_eligibility = elig,
                                            ad_reasons = codes\<rparr>,
                                  commit_resume op a rg))))))"

text \<open>
  The answer after the successor was admitted.  \<open>used\<close> is the counter of the record at that moment.
\<close>

definition scheduled_result :: "resume_admission \<Rightarrow> int \<Rightarrow> resume_result" where
  "scheduled_result ad used =
     \<lparr>rs_outcome = Scheduled, rs_agent = op_agent (ad_operation ad), rs_run = Some (op_expected (ad_operation ad)),
      rs_successor = Some (op_successor (ad_operation ad)), rs_operation = Some (op_id (ad_operation ad)),
      rs_retry_at = Some (op_admitted_at (ad_operation ad)), rs_eligibility = Some (ad_eligibility ad),
      rs_reasons = ad_reasons ad, rs_reason = Some ''Resume admitted; the successor run started immediately'',
      rs_resumes_used = used\<rparr>"

text \<open>
  The handler of a failed admission: it gives the barrier back when the operation is still the
  pending one, and the slot unless the run took it over.
\<close>

definition release_slot :: "string \<Rightarrow> recovery_registry \<Rightarrow> recovery_registry" where
  "release_slot slot rg = rg\<lparr>rg_slots := removeAll slot (rg_slots rg)\<rparr>"

definition rollback_resume :: "recovery_env \<Rightarrow> resume_admission \<Rightarrow> bool \<Rightarrow> recovery_registry \<Rightarrow> recovery_registry" where
  "rollback_resume env ad transferred rg =
     (let agent = op_agent (ad_operation ad);
          rg1 = (case record_of rg agent of
                   None \<Rightarrow> rg
                 | Some a \<Rightarrow>
                     if ag_pending a = Some (ad_operation ad)
                     then rearm_schedule env agent
                            (put_record (a\<lparr>ag_pending := None, ag_state := Suspended,
                                           ag_resumes_used := ad_resumes_before ad\<rparr>) rg)
                     else rg)
      in if transferred then rg1 else release_slot (op_successor (ad_operation ad)) rg1)"

definition publish_resume :: "string \<Rightarrow> recovery_registry \<Rightarrow> recovery_registry" where
  "publish_resume agent rg =
     (case record_of rg agent of None \<Rightarrow> rg | Some a \<Rightarrow> put_record (a\<lparr>ag_pending := None\<rparr>) rg)"

section \<open>Reconciliation\<close>

definition submission_defect :: "llm_message list \<Rightarrow> effect_verification list \<Rightarrow> (string list \<times> string) option" where
  "submission_defect ms fx =
     (let ids = map fx_call fx; outstanding = outstanding_calls ms;
          repeated = set (filter (\<lambda>i. count_list ids i > 1) ids);
          unknown = set ids - outstanding; missing = outstanding - set ids
      in if list_ex (\<lambda>x. fx_disposition x = Effect_Damage) fx then None
         else if repeated \<noteq> {}
         then Some (''duplicate_tool_call_id'' # sorted_list_of_set repeated, ''The submission repeats a tool call id'')
         else if unknown \<noteq> {} \<or> missing \<noteq> {}
         then Some ((if missing = {} then [] else ''unverified_outstanding_tool_calls'' # sorted_list_of_set missing) @
                    (if unknown = {} then [] else ''unknown_tool_call_ids'' # sorted_list_of_set unknown),
                    ''The submission does not account for every outstanding tool call of the failed run'')
         else None)"

definition reconcile_answer ::
  "reconcile_outcome \<Rightarrow> string \<Rightarrow> string \<Rightarrow> string \<Rightarrow> eligibility option \<Rightarrow> string list \<Rightarrow> string \<Rightarrow> reconcile_result" where
  "reconcile_answer out agent expected boundary elig codes reason =
     \<lparr>rx_outcome = out, rx_agent = agent, rx_run = expected, rx_boundary = boundary, rx_eligibility = elig,
      rx_reasons = codes, rx_reason = reason\<rparr>"

text \<open>The verified effects settle the barrier of a suspended record one way or the other.\<close>

definition settle_barrier ::
  "string \<Rightarrow> string \<Rightarrow> effect_verification list \<Rightarrow> agent \<Rightarrow> reconcile_result \<times> agent" where
  "settle_barrier expected boundary fx a =
     (let damage = filter (\<lambda>x. fx_disposition x = Effect_Damage) fx;
          a1 = a\<lparr>ag_last_reconciled := Some (expected, boundary)\<rparr>
      in if damage \<noteq> []
         then (let codes = ''verified_unrepeatable_damage'' # map fx_call damage
               in (reconcile_answer Rec_Prohibited (ag_id a) expected boundary (Some Prohibited) codes
                     ''Verification showed unrepeatable damage; recovery is prohibited. Replacement remains permitted.'',
                   a1\<lparr>ag_flag := Some Flag_Prohibited, ag_flag_codes := codes\<rparr>))
         else (let codes = ''effects_verified_settled'' # map fx_call fx
               in (reconcile_answer Rec_Cleared (ag_id a) expected boundary (Some Eligible) codes
                     ''All verified effects settled; the barrier is cleared and the agent may be resumed.'',
                   a1\<lparr>ag_flag := Some Flag_Cleared, ag_flag_codes := codes\<rparr>)))"

definition reconcile_record ::
  "agent \<Rightarrow> string \<Rightarrow> string \<Rightarrow> effect_verification list \<Rightarrow> string \<Rightarrow> reconcile_result \<times> agent" where
  "reconcile_record a expected boundary fx requester =
     (let no = (\<lambda>out elig codes reason. (reconcile_answer out (ag_id a) expected boundary elig codes reason, a));
          newer = ''The submission is pinned to a run that is not the current barrier; a newer barrier exists''
      in if ag_parent a \<noteq> requester
         then no Rec_Forbidden None [] ''Only the owning parent may reconcile this agent''
         else if ag_state a \<noteq> Suspended
         then no Rec_Not_Pending None []
                (''Agent is '' @ availability_text (ag_state a) @ ''; no reconcile barrier is pending'')
         else case find_run expected a of
           None \<Rightarrow> no Rec_Stale None [''stale_expected_run_id''] newer
         | Some r \<Rightarrow>
             if ag_latest a \<noteq> Some expected then no Rec_Stale None [''stale_expected_run_id''] newer
             else case ru_failure r of
               None \<Rightarrow> no Rec_Not_Pending None [] ''The barrier is not reconcile_required''
             | Some e \<Rightarrow>
                 if ec_eligibility (en_recovery e) \<noteq> Reconcile_Required
                 then no Rec_Not_Pending None [] ''The barrier is not reconcile_required''
                 else if ep_boundary (en_progress e) \<noteq> Some boundary
                 then no Rec_Stale None [''stale_transcript_boundary'']
                        ''The transcript boundary does not match the barrier's boundary''
                 else if ag_last_reconciled a = Some (expected, boundary)
                 then no Rec_Duplicate (Some (fst (effective_eligibility a e))) (snd (effective_eligibility a e))
                        ''This barrier was already reconciled''
                 else case submission_defect (ag_messages a) fx of
                   Some (codes, reason) \<Rightarrow> no Rec_Stale None codes reason
                 | None \<Rightarrow> settle_barrier expected boundary fx a)"

definition reconcile_result_of ::
  "string \<Rightarrow> string \<Rightarrow> string \<Rightarrow> effect_verification list \<Rightarrow> string \<Rightarrow> recovery_registry \<Rightarrow>
     reconcile_result \<times> recovery_registry" where
  "reconcile_result_of agent expected boundary fx requester rg =
     (if rg_admission_closed rg \<or> rg_draining rg
      then (reconcile_answer Rec_Forbidden agent expected boundary None [] ''Agent admission is closed'', rg)
      else case record_of rg agent of
        None \<Rightarrow>
          (reconcile_answer Rec_Not_Pending agent expected boundary None []
             ''Unknown agent; no reconcile barrier is pending'', rg)
      | Some a \<Rightarrow>
          (case reconcile_record a expected boundary fx requester of (res, a') \<Rightarrow> (res, put_record a' rg)))"

end
