(* ===== verification/Replacement_Claim.thy ===== *)
theory Replacement_Claim
  imports Subagent_Recovery
begin

text \<open>
  The admission of a replacement claim (\<open>ChildLaunchAdmission.validate_replacement_claim\<close> of
  \<open>app_server/_subagent_launch.py\<close>): a new agent takes over the package of a failed one.  What the
  model resolver says of the claimed model, and whether the identity of the launch is admitted, are
  arguments.
\<close>

section \<open>The claim\<close>

text \<open>\<open>cl_agent\<close> and \<open>cl_model\<close> are fields of the task, the others of its launch configuration.\<close>

record replacement_claim =
  cl_agent :: "string option"
  cl_model :: "string option"
  cl_config_model :: "string option"
  cl_predecessor :: string
  cl_package :: "string option"
  cl_tier :: "package_tier option"

record claim_resolution =
  rm_base_model :: string
  rm_provider :: string
  rm_wire_name :: string
  rm_api_base :: string
  rm_price :: "rat option"

record claim_env =
  cv_resolve :: "string \<Rightarrow> claim_resolution option"
  cv_routes :: "(string \<times> purpose_route) list"
  cv_session_model :: string
  cv_canonical :: "(string \<times> string) list"
  cv_prices :: "(string \<times> rat) list"
  cv_catalog :: catalog
  cv_launch_ok :: bool
  cv_netloc_ok :: "string \<Rightarrow> bool"
  cv_money :: "rat \<Rightarrow> string"

text \<open>
  \<open>LaunchConfigError\<close>, \<open>InvalidLaunchModelError\<close>, \<open>ReplacementPolicyError\<close>, and a launch the
  identity checks refuse.
\<close>

datatype claim_error =
  Bad_Claim string string | Bad_Model string | Policy_Error "string list" string | Launch_Refused

definition claim_shape :: "replacement_claim \<Rightarrow> claim_error + string \<times> string \<times> string" where
  "claim_shape cl =
     (if cl_agent cl \<noteq> None
      then Inl (Bad_Claim ''config.predecessor_agent_id''
                  ''a replacement claim launches a NEW agent: agent_id must be None'')
      else case (case cl_model cl of Some m \<Rightarrow> Some (m, ''model'')
                 | None \<Rightarrow> map_option (\<lambda>m. (m, ''config.model'')) (cl_config_model cl)) of
        None \<Rightarrow> Inl (Bad_Claim ''model''
                  ''a replacement claim must name the replacement model explicitly (the top-level model field or config.model)'')
      | Some (model, field) \<Rightarrow>
          (case cl_package cl of
             None \<Rightarrow> Inl (Bad_Claim ''config.work_package_id''
               ''a replacement claim must name its work package: the per-package replacement budget is keyed on work_package_id'')
           | Some package \<Rightarrow> Inr (model, field, package)))"

section \<open>The predecessor\<close>

definition claim_rejected :: "string \<Rightarrow> string" where
  "claim_rejected detail = ''Replacement claim rejected: '' @ detail"

definition predecessor_envelope ::
  "string \<Rightarrow> string \<Rightarrow> recovery_registry \<Rightarrow> claim_error + agent \<times> failure_envelope" where
  "predecessor_envelope parent pred rg =
     (case record_of rg pred of
        None \<Rightarrow> Inl (Policy_Error [''predecessor_unknown''] (claim_rejected
          (''predecessor agent '' @ pred @ '' is not a live record (closed/evicted agents cannot be replaced); re-dispatch the package fresh'')))
      | Some a \<Rightarrow>
          if ag_parent a \<noteq> parent
          then Inl (Policy_Error [''predecessor_not_owned''] (claim_rejected
            (''predecessor agent '' @ pred @ '' is not owned by this parent session'')))
          else case failed_run_of a of
            None \<Rightarrow> Inl (Policy_Error [''predecessor_has_no_failure_envelope''] (claim_rejected
              (''predecessor agent '' @ pred @ '' has no failed run with a failure envelope'')))
          | Some r \<Rightarrow>
              (case ru_failure r of
                 None \<Rightarrow> Inl (Policy_Error [''predecessor_has_no_failure_envelope''] (claim_rejected
                   (''predecessor agent '' @ pred @ '' has no failed run with a failure envelope'')))
               | Some e \<Rightarrow>
                   if ag_latest a \<noteq> Some (ru_id r) \<or>
                      (case ag_current a of None \<Rightarrow> False | Some c \<Rightarrow> ru_id c \<noteq> ru_id r)
                   then Inl (Policy_Error [''predecessor_run_not_terminal''] (claim_rejected
                     (''predecessor agent '' @ pred @ '' has a newer run than its failed run '' @ ru_id r @
                      ''; the failure is not the latest terminal state, so the package has no failed run to replace'')))
                   else Inr (a, e)))"

definition check_lineage_and_barrier ::
  "agent \<Rightarrow> string \<Rightarrow> package_tier option \<Rightarrow> failure_envelope \<Rightarrow> claim_error option" where
  "check_lineage_and_barrier a package tier e =
     (let elig = fst (effective_eligibility a e);
          escalation = (ag_flag a \<noteq> Some Flag_Prohibited \<and> ef_class (en_failure e) = Completion_Rejection);
          no = (\<lambda>code detail. Some (Policy_Error [code] (claim_rejected detail)))
      in if ag_package a \<noteq> None \<and> ag_package a \<noteq> Some package
         then no ''work_package_lineage_mismatch''
                (''package '' @ package @ '' does not match the predecessor's established package '' @ or_none (ag_package a))
         else if ag_tier a \<noteq> None \<and> tier \<noteq> None \<and> ag_tier a \<noteq> tier
         then no ''package_tier_lineage_mismatch''
                (''tier '' @ or_none (map_option tier_value tier) @
                 '' does not match the predecessor's established tier '' @ or_none (map_option tier_value (ag_tier a)))
         else if elig = Reconcile_Required
         then no ''reconcile_required_before_replacement''
                (''predecessor agent '' @ ag_id a @ '' is suspended with a reconcile-required barrier; submit reconcile_result first '' @
                 em_dash @ '' the transfer happens only after reconciliation'')
         else if elig = Prohibited \<and> \<not> escalation
         then no ''recovery_prohibited''
                (''predecessor agent '' @ ag_id a @ '' has verified unrepeatable damage; the package is not repeatable on any model'')
         else None)"

section \<open>Budget and policy\<close>

definition claimed_candidate ::
  "claim_env \<Rightarrow> claim_resolution \<Rightarrow> string set \<Rightarrow> (string \<times> capability) list \<Rightarrow> candidate" where
  "claimed_candidate cv m mech caps =
     \<lparr>ca_base_model = rm_base_model m, ca_provider = rm_provider m, ca_wire_name = Some (rm_wire_name m),
      ca_endpoint = canonical_endpoint_identity (cv_netloc_ok cv) (Some (rm_api_base m)),
      ca_tier = (if rm_base_model m \<in> mech then Tier_Mechanical else Tier_Substantive),
      ca_capability =
        (if caps = [] then None
         else Some (case map_of caps (rm_base_model m) of None \<Rightarrow> Cap_None | Some k \<Rightarrow> k)),
      ca_price = rm_price m\<rparr>"

definition effective_tier :: "package_tier option \<Rightarrow> agent \<Rightarrow> package_tier" where
  "effective_tier tier a =
     (case tier of
        Some t \<Rightarrow> t
      | None \<Rightarrow> (case ag_tier a of Some t \<Rightarrow> t | None \<Rightarrow> Tier_Substantive))"

definition validate_claim_policy ::
  "claim_env \<Rightarrow> recovery_config \<Rightarrow> agent \<Rightarrow> failure_envelope \<Rightarrow> string \<Rightarrow> package_tier option \<Rightarrow> string \<Rightarrow> string \<Rightarrow>
     recovery_registry \<Rightarrow> claim_error + replacement_decision" where
  "validate_claim_policy cv cfg a e package tier model field rg =
     (if int_get (rg_replacements rg) package \<ge> rc_replacements_max cfg
      then Inl (Policy_Error [''package_replacements_exhausted''] (claim_rejected
        (''package '' @ package @ '' has used its budget of '' @ show_int (rc_replacements_max cfg) @
         '' replacements; park the package and continue independent work'')))
      else case cv_resolve cv model of
        None \<Rightarrow> Inl (Bad_Model field)
      | Some m \<Rightarrow>
          (case route_recovery_facts (cv_routes cv) (cv_session_model cv) (cv_canonical cv) (Some (cv_prices cv)) of
             (mech, caps) \<Rightarrow>
               let cands = candidates_from_catalog (cv_netloc_ok cv) (cv_catalog cv) mech
                             (if caps = [] then None else Some caps)
               in case validate_replacement_selection (cv_netloc_ok cv) (cv_money cv) e (effective_tier tier a)
                         (claimed_candidate cv m mech caps) cands (rc_fallback cfg) of
                    None \<Rightarrow> Inl (Policy_Error [''completion_rejection_authorization_misapplied''] [])
                  | Some d \<Rightarrow>
                      if rd_disposition d \<noteq> Selected then Inl (Policy_Error (rd_reasons d)
                             (if rd_notice d = [] then ''Replacement claim rejected for package '' @ package else rd_notice d))
                      else Inr d))"

section \<open>The admission\<close>

definition consume_replacement :: "string \<Rightarrow> recovery_registry \<Rightarrow> recovery_registry" where
  "consume_replacement package rg =
     rg\<lparr>rg_replacements := dict_set package (int_get (rg_replacements rg) package + 1) (rg_replacements rg)\<rparr>"

definition validate_replacement_claim ::
  "claim_env \<Rightarrow> recovery_config \<Rightarrow> string \<Rightarrow> replacement_claim \<Rightarrow> recovery_registry \<Rightarrow>
     (claim_error + replacement_decision) \<times> recovery_registry" where
  "validate_replacement_claim cv cfg parent cl rg =
     (case claim_shape cl of
        Inl err \<Rightarrow> (Inl err, rg)
      | Inr (model, field, package) \<Rightarrow>
          (case predecessor_envelope parent (cl_predecessor cl) rg of
             Inl err \<Rightarrow> (Inl err, rg)
           | Inr (a, e) \<Rightarrow>
               (case check_lineage_and_barrier a package (cl_tier cl) e of
                  Some err \<Rightarrow> (Inl err, rg)
                | None \<Rightarrow>
                    (case validate_claim_policy cv cfg a e package (cl_tier cl) model field rg of
                       Inl err \<Rightarrow> (Inl err, rg)
                     | Inr d \<Rightarrow>
                         if ag_superseded a \<or> ag_reserved a
                         then (Inl (Policy_Error [''predecessor_already_superseded''] (claim_rejected
                           (''predecessor agent '' @ ag_id a @
                            '' was already superseded by an admitted replacement; the package already has its replacement''))), rg)
                         else if \<not> cv_launch_ok cv then (Inl Launch_Refused, rg)
                         else (Inr d, consume_replacement package (invalidate_recovery (ag_id a) rg))))))"

end
