(* ===== verification/Recovery_Machine.thy ===== *)
theory Recovery_Machine
  imports Replacement_Claim
begin

text \<open>
  The recovery of subagents as a machine of interleaved sections.  A resume is a coroutine: between
  the sections it runs under the registry lock any other section may run.  Its place is a flight
  with a stage; the automatic timer, the monitor of a run and the accounting of a retry are queues
  of what they still have to do.  The sections of the background executor
  (\<open>app_server/_subagent_execution.py\<close>, \<open>app_server/_subagent_replacement.py\<close>,
  \<open>app_server/_subagent_retention.py\<close>) are modelled here as far as they touch the records.
\<close>

section \<open>Sections of the background executor\<close>

definition admission_open :: "string \<Rightarrow> recovery_registry \<Rightarrow> bool" where
  "admission_open parent rg \<longleftrightarrow> \<not> rg_admission_closed rg \<and> \<not> rg_draining rg \<and> rg_root rg = Some parent"

text \<open>\<open>prepare_background\<close> takes an idle record, or a restoring one for its resume.\<close>

definition reserve_record :: "string \<Rightarrow> string \<Rightarrow> bool \<Rightarrow> recovery_registry \<Rightarrow> recovery_registry option" where
  "reserve_record parent agent resume rg =
     (if \<not> admission_open parent rg then None
      else case record_of rg agent of
        None \<Rightarrow> None
      | Some a \<Rightarrow>
          if ag_reserved a \<or> (ag_state a \<noteq> Idle \<and> \<not> (resume \<and> ag_state a = Restoring)) then None
          else if \<not> ag_resident a then None
          else Some (put_record (a\<lparr>ag_reserved := False, ag_state := Running\<rparr>) rg))"

definition new_run :: "string \<Rightarrow> string option \<Rightarrow> string option \<Rightarrow> run" where
  "new_run i resumed chain =
     \<lparr>ru_id = i, ru_status = Run_Running, ru_failure = None, ru_resumed_from = resumed, ru_chain = chain\<rparr>"

definition install_run :: "run \<Rightarrow> agent \<Rightarrow> agent" where
  "install_run r a = a\<lparr>ag_current := Some r, ag_latest := Some (ru_id r)\<rparr>"

definition current_is :: "string \<Rightarrow> agent \<Rightarrow> bool" where
  "current_is i a \<longleftrightarrow> (case ag_current a of None \<Rightarrow> False | Some r \<Rightarrow> ru_id r = i)"

text \<open>The validation of \<open>accept_background\<close>; the acceptance itself changes no field of the record here.\<close>

definition may_accept :: "string \<Rightarrow> string \<Rightarrow> string \<Rightarrow> recovery_registry \<Rightarrow> bool" where
  "may_accept parent agent i rg \<longleftrightarrow>
     admission_open parent rg \<and>
     (case record_of rg agent of None \<Rightarrow> False | Some a \<Rightarrow> ag_resident a \<and> current_is i a)"

definition rollback_reuse :: "string \<Rightarrow> recovery_registry \<Rightarrow> recovery_registry" where
  "rollback_reuse agent rg =
     (case record_of rg agent of
        None \<Rightarrow> rg
      | Some a \<Rightarrow>
          if ag_state a \<noteq> Running \<or> ag_reserved a \<or> \<not> ag_resident a then rg
          else put_record (a\<lparr>ag_state := Idle\<rparr>) rg)"

definition rollback_background ::
  "string \<Rightarrow> string \<Rightarrow> run option \<Rightarrow> string option \<Rightarrow> recovery_registry \<Rightarrow> recovery_registry" where
  "rollback_background agent i prior_current prior_latest rg =
     rollback_reuse agent
       (case record_of rg agent of
          None \<Rightarrow> rg
        | Some a \<Rightarrow>
            if current_is i a then put_record (a\<lparr>ag_current := prior_current, ag_latest := prior_latest\<rparr>) rg else rg)"

text \<open>The monitor publishes the end of a run, \<open>r\<close> being the run as it ended.\<close>

definition settle_run :: "string \<Rightarrow> run \<Rightarrow> recovery_registry \<Rightarrow> recovery_registry" where
  "settle_run agent r rg =
     release_slot (ru_id r)
       (case record_of rg agent of
          None \<Rightarrow> rg
        | Some a \<Rightarrow>
            if \<not> current_is (ru_id r) a \<or> \<not> ag_resident a \<or> \<not> generation_is_current rg (ag_generation a) then rg
            else put_record
              (a\<lparr>ag_state := (if ag_reserved a then Running else Finalizing), ag_current := None,
                 ag_history := (let h = ag_history a @ [r] in drop (length h - max_run_history) h)\<rparr>) rg)"

definition close_unretained :: "agent \<Rightarrow> recovery_registry \<Rightarrow> recovery_registry option" where
  "close_unretained a rg =
     (if rg_draining rg \<or> ag_reserved a \<or> ag_retained a \<or>
         (case ag_current a of None \<Rightarrow> False | Some r \<Rightarrow> ru_status r = Run_Running)
      then None else Some (drop_record (ag_id a) rg))"

text \<open>
  The completion transition and the observation of the controller, which sees the record as the
  transition left it.  \<open>own\<close> is the record the monitor holds: it is the one of the registry while the
  agent is attached, and is observed as it is when the agent was detached before.
\<close>

definition complete_run :: "recovery_env \<Rightarrow> string \<Rightarrow> agent \<Rightarrow> run \<Rightarrow> recovery_registry \<Rightarrow> recovery_registry" where
  "complete_run env agent own r rg =
     (case record_of rg agent of
        None \<Rightarrow> observe_run env own r rg
      | Some a \<Rightarrow>
          if \<not> ag_resident a \<or> ag_reserved a \<or> ag_state a \<noteq> Finalizing \<or>
             \<not> generation_is_current rg (ag_generation a)
          then observe_run env a r rg
          else case suspend_after_failure env agent r rg of
            (True, rg1) \<Rightarrow>
              (case record_of rg1 agent of None \<Rightarrow> rg1 | Some a1 \<Rightarrow> observe_run env a1 r rg1)
          | (False, rg1) \<Rightarrow>
              (case close_unretained a rg1 of
                 Some rg2 \<Rightarrow> observe_run env (a\<lparr>ag_state := Evicting\<rparr>) r rg2
               | None \<Rightarrow>
                   let a1 = a\<lparr>ag_state := Idle\<rparr> in observe_run env a1 r (put_record a1 rg1)))"

definition new_agent :: "string \<Rightarrow> string \<Rightarrow> string \<Rightarrow> int \<Rightarrow> bool \<Rightarrow> llm_message list \<Rightarrow> agent" where
  "new_agent i identity parent generation retained ms =
     \<lparr>ag_id = i, ag_identity = identity, ag_parent = parent, ag_generation = generation, ag_retained = retained,
      ag_resident = True, ag_messages = ms, ag_state = Running, ag_current = None, ag_history = [],
      ag_latest = None, ag_initial_summary = None, ag_last_summary = None, ag_chain = None,
      ag_resumes_used = 0, ag_suspended_at = None, ag_warm_bytes = None, ag_pending = None, ag_flag = None,
      ag_flag_codes = [], ag_last_reconciled = None, ag_superseded = False, ag_reserved = False,
      ag_package = None, ag_predecessor = None, ag_tier = None\<rparr>"

section \<open>The machine\<close>

text \<open>
  The stages of \<open>_admit_successor\<close>: joining the prior tasks, the record reserved, the successor
  installed, the successor accepted, an error on its way to the handler.
\<close>

datatype stage = Joining | Reserved | Installed | Accepted | Failing

record flight =
  fl_admission :: resume_admission
  fl_auto :: "nat option"
  fl_stage :: stage
  fl_prior_current :: "run option"
  fl_prior_latest :: "string option"

definition fl_agent :: "flight \<Rightarrow> string" where "fl_agent f = op_agent (ad_operation (fl_admission f))"
definition fl_failed :: "flight \<Rightarrow> string" where "fl_failed f = op_expected (ad_operation (fl_admission f))"
definition fl_successor :: "flight \<Rightarrow> string" where "fl_successor f = op_successor (ad_operation (fl_admission f))"

definition new_flight :: "resume_admission \<Rightarrow> nat option \<Rightarrow> flight" where
  "new_flight ad auto =
     \<lparr>fl_admission = ad, fl_auto = auto, fl_stage = Joining, fl_prior_current = None, fl_prior_latest = None\<rparr>"

text \<open>
  \<open>mc_accounts\<close>: automatic admissions that returned (\<open>None\<close>: raised \<open>RuntimeError\<close>).
  \<open>mc_settled\<close>: runs that ended and whose completion transition is due.  \<open>mc_issued\<close>: the agent and
  run ids minted so far.  \<open>mc_started\<close> records, for each accepted successor, its agent and the
  failed run it continues; no section reads it.
\<close>

record machine =
  mc_registry :: recovery_registry
  mc_flights :: "flight list"
  mc_requests :: "retry_request list"
  mc_accounts :: "(nat \<times> resume_result option) list"
  mc_settled :: "(string \<times> run) list"
  mc_issued :: "string set"
  mc_started :: "(string \<times> string) list"

definition with_registry :: "machine \<Rightarrow> recovery_registry \<Rightarrow> machine" where
  "with_registry m rg = m\<lparr>mc_registry := rg\<rparr>"

definition set_flight :: "nat \<Rightarrow> flight \<Rightarrow> machine \<Rightarrow> machine" where
  "set_flight i f m = m\<lparr>mc_flights := (mc_flights m)[i := f]\<rparr>"

definition drop_flight :: "nat \<Rightarrow> machine \<Rightarrow> machine" where
  "drop_flight i m = m\<lparr>mc_flights := take i (mc_flights m) @ drop (Suc i) (mc_flights m)\<rparr>"

text \<open>The successor of a flight, as it is installed on a record.\<close>

definition successor_run :: "flight \<Rightarrow> agent \<Rightarrow> run" where
  "successor_run f a = new_run (fl_successor f) (Some (ru_id (ad_failed (fl_admission f)))) (ag_chain a)"

definition install_flight :: "nat \<Rightarrow> flight \<Rightarrow> machine \<Rightarrow> machine" where
  "install_flight i f m =
     (case record_of (mc_registry m) (fl_agent f) of
        None \<Rightarrow> set_flight i (f\<lparr>fl_stage := Installed, fl_prior_current := None, fl_prior_latest := None\<rparr>) m
      | Some a \<Rightarrow>
          set_flight i (f\<lparr>fl_stage := Installed, fl_prior_current := ag_current a, fl_prior_latest := ag_latest a\<rparr>)
            (with_registry m (put_record (install_run (successor_run f a) a) (mc_registry m))))"

text \<open>An error in the body of \<open>_admit_successor\<close>, undone as far as the stage requires.\<close>

definition undo_flight :: "flight \<Rightarrow> recovery_registry \<Rightarrow> recovery_registry" where
  "undo_flight f rg =
     (case fl_stage f of
        Reserved \<Rightarrow> rollback_reuse (fl_agent f) rg
      | Installed \<Rightarrow> rollback_background (fl_agent f) (fl_successor f) (fl_prior_current f) (fl_prior_latest f) rg
      | _ \<Rightarrow> rg)"

definition fail_flight :: "nat \<Rightarrow> flight \<Rightarrow> machine \<Rightarrow> machine" where
  "fail_flight i f m = set_flight i (f\<lparr>fl_stage := Failing\<rparr>) (with_registry m (undo_flight f (mc_registry m)))"

definition return_to :: "nat option \<Rightarrow> resume_result option \<Rightarrow> machine \<Rightarrow> machine" where
  "return_to auto res m =
     (case auto of None \<Rightarrow> m | Some k \<Rightarrow> m\<lparr>mc_accounts := mc_accounts m @ [(k, res)]\<rparr>)"

text \<open>What the caller of \<open>resume_agent\<close> does with the reply of the admission section.\<close>

definition after_admission :: "nat option \<Rightarrow> resume_reply \<Rightarrow> machine \<Rightarrow> machine" where
  "after_admission auto reply m =
     (case reply of
        Answered res \<Rightarrow> return_to auto (Some res) m
      | Capacity _ \<Rightarrow> return_to auto None m
      | No_Parent \<Rightarrow> m
      | Admitted ad \<Rightarrow> m\<lparr>mc_flights := mc_flights m @ [new_flight ad auto]\<rparr>)"

definition request_resume ::
  "recovery_env \<Rightarrow> string \<Rightarrow> string \<Rightarrow> string \<Rightarrow> string \<Rightarrow> bool \<Rightarrow> string \<Rightarrow> nat option \<Rightarrow> machine \<Rightarrow> machine" where
  "request_resume env agent expected key requester override fresh auto m =
     (case resume_agent env agent expected key requester override fresh (mc_registry m) of
        (reply, rg) \<Rightarrow>
          after_admission auto reply (m\<lparr>mc_registry := rg, mc_issued := insert fresh (mc_issued m)\<rparr>))"

definition handler_runs :: "recovery_env \<Rightarrow> nat \<Rightarrow> flight \<Rightarrow> machine \<Rightarrow> machine" where
  "handler_runs env i f m =
     drop_flight i (with_registry m (rollback_resume env (fl_admission f) False (mc_registry m)))"

definition resumes_of :: "string \<Rightarrow> recovery_registry \<Rightarrow> int" where
  "resumes_of agent rg = (case record_of rg agent of None \<Rightarrow> 0 | Some a \<Rightarrow> ag_resumes_used a)"

definition publish_flight :: "nat \<Rightarrow> flight \<Rightarrow> machine \<Rightarrow> machine" where
  "publish_flight i f m =
     (let rg = publish_resume (fl_agent f) (mc_registry m)
      in return_to (fl_auto f) (Some (scheduled_result (fl_admission f) (resumes_of (fl_agent f) rg)))
           (drop_flight i (with_registry m rg)))"

definition account :: "recovery_registry \<Rightarrow> nat \<Rightarrow> resume_result option \<Rightarrow> recovery_registry" where
  "account rg k res = (case res of None \<Rightarrow> capacity_rejected k rg | Some r \<Rightarrow> account_admission k r rg)"

definition accepted_run :: "string \<Rightarrow> machine \<Rightarrow> bool" where
  "accepted_run i m \<longleftrightarrow> list_all (\<lambda>f. fl_stage f = Installed \<longrightarrow> fl_successor f \<noteq> i) (mc_flights m)"

text \<open>
  The steps under a policy that does not change.  A launch and the reuse of an idle agent for new
  work are one step each.
\<close>

inductive recovery_step :: "recovery_config \<Rightarrow> machine \<Rightarrow> machine \<Rightarrow> bool" for cfg :: recovery_config where
  Launch: "admission_open parent (mc_registry m) \<Longrightarrow> agent \<notin> mc_issued m \<Longrightarrow> i \<notin> mc_issued m \<Longrightarrow> i \<noteq> agent \<Longrightarrow>
    recovery_step cfg m (m\<lparr>
      mc_registry := (put_record (install_run (new_run i None None)
          (new_agent agent identity parent (rg_generation (mc_registry m)) retained ms)) (mc_registry m))
        \<lparr>rg_slots := i # rg_slots (mc_registry m)\<rparr>,
      mc_issued := insert agent (insert i (mc_issued m))\<rparr>)"
| Reuse: "reserve_record parent agent False (mc_registry m) = Some rg \<Longrightarrow> record_of rg agent = Some a \<Longrightarrow>
    i \<notin> mc_issued m \<Longrightarrow>
    recovery_step cfg m (m\<lparr>
      mc_registry := (put_record (install_run (new_run i None None) a) rg)\<lparr>rg_slots := i # rg_slots rg\<rparr>,
      mc_issued := insert i (mc_issued m)\<rparr>)"
| Converse: "record_of (mc_registry m) agent = Some a \<Longrightarrow> ag_state a = Running \<Longrightarrow>
    recovery_step cfg m (with_registry m (put_record (a\<lparr>ag_messages := ms, ag_last_summary := summary\<rparr>) (mc_registry m)))"
| Resume: "rv_config env = cfg \<Longrightarrow> fresh \<notin> mc_issued m \<Longrightarrow>
    recovery_step cfg m (request_resume env agent expected key requester override fresh None m)"
| Timer: "rv_config env = cfg \<Longrightarrow> rg_episodes (mc_registry m) k = Some ep \<Longrightarrow> ep_timer ep = Some (failed, delay) \<Longrightarrow>
    timer_wakes env k failed (mc_registry m) = (rg, rq) \<Longrightarrow>
    recovery_step cfg m (m\<lparr>mc_registry := rg,
      mc_requests := mc_requests m @ (case rq of None \<Rightarrow> [] | Some q \<Rightarrow> [q])\<rparr>)"
| Retry: "rv_config env = cfg \<Longrightarrow> fresh \<notin> mc_issued m \<Longrightarrow> q \<in> set (mc_requests m) \<Longrightarrow>
    recovery_step cfg m (request_resume env (rq_agent q) (rq_failed q) (rq_key q) (rq_parent q) False fresh
      (Some (rq_episode q)) (m\<lparr>mc_requests := remove1 q (mc_requests m)\<rparr>))"
| Reserve: "i < length (mc_flights m) \<Longrightarrow> f = mc_flights m ! i \<Longrightarrow> fl_stage f = Joining \<Longrightarrow>
    reserve_record (ad_parent (fl_admission f)) (fl_agent f) True (mc_registry m) = Some rg \<Longrightarrow>
    recovery_step cfg m (set_flight i (f\<lparr>fl_stage := Reserved\<rparr>) (with_registry m rg))"
| Install: "i < length (mc_flights m) \<Longrightarrow> f = mc_flights m ! i \<Longrightarrow> fl_stage f = Reserved \<Longrightarrow>
    recovery_step cfg m (install_flight i f m)"
| Accept: "i < length (mc_flights m) \<Longrightarrow> f = mc_flights m ! i \<Longrightarrow> fl_stage f = Installed \<Longrightarrow>
    may_accept (ad_parent (fl_admission f)) (fl_agent f) (fl_successor f) (mc_registry m) \<Longrightarrow>
    recovery_step cfg m (set_flight i (f\<lparr>fl_stage := Accepted\<rparr>)
      (m\<lparr>mc_started := (fl_agent f, fl_failed f) # mc_started m\<rparr>))"
| Error: "i < length (mc_flights m) \<Longrightarrow> f = mc_flights m ! i \<Longrightarrow> fl_stage f \<in> {Joining, Reserved, Installed} \<Longrightarrow>
    recovery_step cfg m (fail_flight i f m)"
| Handler: "rv_config env = cfg \<Longrightarrow> i < length (mc_flights m) \<Longrightarrow> f = mc_flights m ! i \<Longrightarrow> fl_stage f = Failing \<Longrightarrow>
    recovery_step cfg m ((if runtime_error then return_to (fl_auto f) None else id) (handler_runs env i f m))"
| Publish: "i < length (mc_flights m) \<Longrightarrow> f = mc_flights m ! i \<Longrightarrow> fl_stage f = Accepted \<Longrightarrow>
    recovery_step cfg m (publish_flight i f m)"
| Account: "(k, res) \<in> set (mc_accounts m) \<Longrightarrow>
    recovery_step cfg m (m\<lparr>mc_registry := account (mc_registry m) k res, mc_accounts := remove1 (k, res) (mc_accounts m)\<rparr>)"
| Settle: "record_of (mc_registry m) agent = Some a \<Longrightarrow> ag_current a = Some r \<Longrightarrow> accepted_run (ru_id r) m \<Longrightarrow>
    ru_status r' \<noteq> Run_Running \<Longrightarrow> ru_id r' = ru_id r \<Longrightarrow> ru_resumed_from r' = ru_resumed_from r \<Longrightarrow>
    ru_chain r' = ru_chain r \<Longrightarrow>
    recovery_step cfg m (m\<lparr>mc_registry := settle_run agent r' (mc_registry m), mc_settled := mc_settled m @ [(agent, r')]\<rparr>)"
| Complete: "rv_config env = cfg \<Longrightarrow> (agent, r) \<in> set (mc_settled m) \<Longrightarrow> ag_id own = agent \<Longrightarrow>
    recovery_step cfg m (m\<lparr>mc_registry := complete_run env agent own r (mc_registry m),
      mc_settled := remove1 (agent, r) (mc_settled m)\<rparr>)"
| Reconcile: "recovery_step cfg m (with_registry m
    (snd (reconcile_result_of agent expected boundary fx requester (mc_registry m))))"
| Claim: "recovery_step cfg m (with_registry m (snd (validate_replacement_claim cv cfg parent cl (mc_registry m))))"
| Expire: "recovery_step cfg m (with_registry m (snd (expire_elapsed now cfg (mc_registry m))))"
| Cancel: "record_of (mc_registry m) agent = Some a \<Longrightarrow> ag_state a = Suspended \<Longrightarrow>
    recovery_step cfg m (with_registry m (cancel_suspension agent (mc_registry m)))"
| Release: "recovery_step cfg m (with_registry m (drop_record agent (cancel_pending agent (mc_registry m))))"
| Gate: "recovery_step cfg m (with_registry m
    (cancel_all ((mc_registry m)\<lparr>rg_admission_closed := shut, rg_draining := draining\<rparr>)))"

definition empty_registry :: "string \<Rightarrow> int \<Rightarrow> recovery_registry" where
  "empty_registry parent cap =
     \<lparr>rg_records = [], rg_admission_closed = False, rg_draining = False, rg_generation = 0, rg_root = Some parent,
      rg_slots = [], rg_cap = cap, rg_episodes = (\<lambda>_. None), rg_fresh = 0, rg_index = [], rg_lineage = [],
      rg_attributed = [], rg_replacements = [], rg_log = []\<rparr>"

definition initial_machine :: "string \<Rightarrow> int \<Rightarrow> machine" where
  "initial_machine parent cap =
     \<lparr>mc_registry = empty_registry parent cap, mc_flights = [], mc_requests = [], mc_accounts = [], mc_settled = [],
      mc_issued = {}, mc_started = []\<rparr>"

inductive reachable :: "recovery_config \<Rightarrow> machine \<Rightarrow> bool" for cfg :: recovery_config where
  Start: "reachable cfg (initial_machine parent cap)"
| Step: "reachable cfg m \<Longrightarrow> recovery_step cfg m m' \<Longrightarrow> reachable cfg m'"

end
