(* ===== verification/Recovery_Inv.thy ===== *)
theory Recovery_Inv
  imports Recovery_Machine
begin

text \<open>
  The invariant of the recovery machine.  Most sections are calm: they detach records or change
  fields no part of the invariant reads; the sections of a flight are treated one by one.
\<close>

section \<open>The controller leaves the records alone\<close>

lemmas episode_frames =
  emit_def stop_episode_def arm_timer_def arm_or_stop_def put_episode_def stand_down_schedule_def rearm_schedule_def
  cancel_pending_def account_admission_def count_admission_def capacity_rejected_def

lemma records_emit [simp]: "rg_records (emit k ev eid run d rg) = rg_records rg"
  by (simp add: emit_def put_episode_def split: option.splits)

lemma records_stop [simp]: "rg_records (stop_episode k reason force rg) = rg_records rg"
  by (simp add: stop_episode_def put_episode_def Let_def split: option.splits)

lemma records_put_episode [simp]: "rg_records (put_episode k e rg) = rg_records rg"
  by (simp add: put_episode_def)

lemma records_arm [simp]: "rg_records (arm_or_stop env r k av rg) = rg_records rg"
  by (simp add: arm_or_stop_def arm_timer_def Let_def split: option.splits)

lemma records_stand_down [simp]: "rg_records (stand_down_schedule agent rg) = rg_records rg"
  by (simp add: stand_down_schedule_def split: option.splits prod.splits)

lemma records_rearm [simp]: "rg_records (rearm_schedule env agent rg) = rg_records rg"
  by (simp add: rearm_schedule_def split: option.splits prod.splits)

lemma records_cancel_pending [simp]: "rg_records (cancel_pending agent rg) = rg_records rg"
  by (simp add: cancel_pending_def split: option.splits prod.splits)

lemma records_cancel_all [simp]: "rg_records (cancel_all rg) = rg_records rg"
proof -
  have "rg_records (fold (\<lambda>k. stop_episode k reason force) ks rg) = rg_records rg" for ks reason force
    by (induction ks arbitrary: rg) simp_all
  then show ?thesis by (simp add: cancel_all_def)
qed

lemma records_account [simp]: "rg_records (account rg k res) = rg_records rg"
  by (simp add: account_def capacity_rejected_def account_admission_def count_admission_def Let_def
      split: option.splits resume_outcome.splits)

lemma records_open: "open_episode env a r rg = (k, rg') \<Longrightarrow> rg_records rg' = rg_records rg"
  by (auto simp: open_episode_def Let_def split: option.splits if_splits)

lemma records_lineage: "resolve_lineage_key a e rg = (key, rg') \<Longrightarrow> rg_records rg' = rg_records rg"
  by (auto simp: resolve_lineage_key_def Let_def split: prod.splits if_splits)

lemma records_on_failure [simp]: "rg_records (on_failure env a r rg) = rg_records rg"
  by (auto simp: on_failure_def Let_def records_open records_lineage split: option.splits prod.splits)

lemma records_on_success [simp]: "rg_records (on_success a r rg) = rg_records rg"
  by (auto simp: on_success_def Let_def split: option.splits prod.splits)

lemma records_observe [simp]: "rg_records (observe_run env a r rg) = rg_records rg"
  by (auto simp: observe_run_def split: run_status.splits)

lemma records_timer: "timer_wakes env k failed rg = (rg', rq) \<Longrightarrow> rg_records rg' = rg_records rg"
proof -
  have check: "rg_records (fst (timer_check env k failed ep a r)) = rg_records r" for ep a r
    by (simp add: timer_check_def Let_def split: option.split)
  have "rg_records (fst (timer_wakes env k failed rg)) = rg_records rg"
    by (simp add: timer_wakes_def Let_def check split: option.split)
  then show "timer_wakes env k failed rg = (rg', rq) \<Longrightarrow> rg_records rg' = rg_records rg" by simp
qed

lemma record_of_frame: "rg_records rg' = rg_records rg \<Longrightarrow> record_of rg' = record_of rg"
  by (simp add: record_of_def fun_eq_iff)

lemma record_of_put [simp]: "record_of (put_record a rg) = (record_of rg)(ag_id a \<mapsto> a)"
  by (simp add: record_of_def put_record_def fun_eq_iff)

lemma record_of_drop [simp]: "record_of (drop_record i rg) = (record_of rg)(i := None)"
  by (simp add: record_of_def drop_record_def fun_eq_iff)

section \<open>Calm sections\<close>

definition calm :: "agent \<Rightarrow> agent \<Rightarrow> bool" where
  "calm a b \<longleftrightarrow>
     ag_id b = ag_id a \<and> ag_latest b = ag_latest a \<and> (ag_current b = ag_current a \<or> ag_current b = None) \<and>
     ag_resumes_used b = ag_resumes_used a \<and> (ag_pending b = ag_pending a \<or> ag_superseded b) \<and>
     (ag_superseded a \<longrightarrow> ag_superseded b)"

lemma calm_refl [simp, intro]: "calm a a"
  by (simp add: calm_def)

lemma calm_trans: "calm a b \<Longrightarrow> calm b c \<Longrightarrow> calm a c"
  by (auto simp: calm_def)

definition calm_registry :: "recovery_registry \<Rightarrow> recovery_registry \<Rightarrow> bool" where
  "calm_registry rg rg' \<longleftrightarrow> (\<forall>i b. record_of rg' i = Some b \<longrightarrow> (\<exists>a. record_of rg i = Some a \<and> calm a b))"

lemma calm_registryD: "calm_registry rg rg' \<Longrightarrow> record_of rg' i = Some b \<Longrightarrow> \<exists>a. record_of rg i = Some a \<and> calm a b"
  by (simp add: calm_registry_def)

lemma calm_same [intro]: "rg_records rg' = rg_records rg \<Longrightarrow> calm_registry rg rg'"
  by (simp add: calm_registry_def record_of_def)

lemma calm_registry_refl [simp, intro]: "calm_registry rg rg"
  by (rule calm_same) simp

lemma calm_registry_trans: "calm_registry rg rg1 \<Longrightarrow> calm_registry rg1 rg2 \<Longrightarrow> calm_registry rg rg2"
proof (unfold calm_registry_def, intro allI impI)
  fix i c
  assume 1: "\<forall>i b. record_of rg1 i = Some b \<longrightarrow> (\<exists>a. record_of rg i = Some a \<and> calm a b)"
    and 2: "\<forall>i b. record_of rg2 i = Some b \<longrightarrow> (\<exists>a. record_of rg1 i = Some a \<and> calm a b)"
    and c: "record_of rg2 i = Some c"
  from 2 c obtain b where b: "record_of rg1 i = Some b" "calm b c" by blast
  with 1 obtain a where "record_of rg i = Some a" "calm a b" by blast
  with b show "\<exists>a. record_of rg i = Some a \<and> calm a c" using calm_trans by blast
qed

lemma calm_put:
  assumes "record_of rg (ag_id a) = Some a" "calm a b"
  shows "calm_registry rg (put_record b rg)"
proof -
  have "ag_id b = ag_id a" using assms(2) by (simp add: calm_def)
  with assms show ?thesis by (simp add: calm_registry_def)
qed

lemma calm_drop [simp, intro]: "calm_registry rg (drop_record i rg)"
  by (auto simp: calm_registry_def)

lemma calm_then_frame: "calm_registry rg rg1 \<Longrightarrow> rg_records rg2 = rg_records rg1 \<Longrightarrow> calm_registry rg rg2"
  by (rule calm_registry_trans) auto

definition keyed :: "recovery_registry \<Rightarrow> bool" where
  "keyed rg \<longleftrightarrow> (\<forall>i a. record_of rg i = Some a \<longrightarrow> ag_id a = i)"

lemma keyedD: "keyed rg \<Longrightarrow> record_of rg i = Some a \<Longrightarrow> ag_id a = i"
  by (simp add: keyed_def)

lemma keyed_calm: "keyed rg \<Longrightarrow> calm_registry rg rg' \<Longrightarrow> keyed rg'"
proof (unfold keyed_def, intro allI impI)
  fix i b
  assume k: "\<forall>i a. record_of rg i = Some a \<longrightarrow> ag_id a = i" and c: "calm_registry rg rg'" and b: "record_of rg' i = Some b"
  from calm_registryD [OF c b] obtain a where "record_of rg i = Some a" "calm a b" by blast
  with k show "ag_id b = i" by (simp add: calm_def)
qed

lemma calm_make_room: "make_room cap needed self rg = (ok, rg') \<Longrightarrow> calm_registry rg rg'"
proof (induction cap needed self rg rule: make_room.induct)
  case (1 cap needed self rg)
  show ?case
  proof (cases "suspended_total_bytes rg + needed \<le> cap")
    case True
    with "1.prems" show ?thesis by (simp add: make_room.simps [of cap])
  next
    case over: False
    show ?thesis
    proof (cases "oldest_suspended self rg")
      case None
      with over "1.prems" show ?thesis by (simp add: make_room.simps [of cap])
    next
      case (Some v)
      with over "1.prems" have "make_room cap needed self (expire_record v rg) = (ok, rg')"
        by (simp add: make_room.simps [of cap needed self rg])
      from "1.IH" [OF over Some this] show ?thesis
        by (rule calm_registry_trans [rotated]) (simp add: expire_record_def)
    qed
  qed
qed

lemma suspension_admit_calm:
  assumes "suspension_admit env a rg = (ok, rg')" "record_of rg (ag_id a) = Some a"
  shows "calm_registry rg rg'"
proof -
  obtain rg1 where rg1: "calm_registry rg rg1"
    and rg': "rg' = (if ok then put_record (a\<lparr>ag_warm_bytes := Some (warm_conversation_bytes env (ag_messages a))\<rparr>) rg1 else rg1)"
  proof (cases "rc_max_bytes (rv_config env) \<le> 0 \<or> warm_conversation_bytes env (ag_messages a) > rc_max_bytes (rv_config env)")
    case True
    with assms(1) that [of rg] show thesis by (auto simp: suspension_admit_def Let_def split: if_splits)
  next
    case False
    obtain ok1 rg1 where m: "make_room (rc_max_bytes (rv_config env)) (warm_conversation_bytes env (ag_messages a)) (ag_id a) rg = (ok1, rg1)"
      by force
    with False assms(1) that [OF calm_make_room [OF m]] show thesis
      by (auto simp: suspension_admit_def Let_def split: if_splits)
  qed
  from rg1 assms(2) show ?thesis
    by (auto simp: rg' calm_registry_def calm_def)
qed

lemma suspend_calm:
  assumes "suspend_after_failure env agent r rg = (ok, rg')" "keyed rg"
  shows "calm_registry rg rg'"
proof -
  show ?thesis
  proof (cases "record_of rg agent")
    case None
    with assms(1) show ?thesis by (simp add: suspend_after_failure_def)
  next
    case (Some a)
    then have a: "record_of rg (ag_id a) = Some a" using keyedD [OF assms(2)] by simp
    obtain ok1 rg1 where adm: "suspension_admit env a rg = (ok1, rg1)" by force
    have calm: "calm_registry rg rg1" by (rule suspension_admit_calm [OF adm a])
    have keyed: "keyed rg1" by (rule keyed_calm [OF assms(2) calm])
    have "rg' = rg \<or> rg' = rg1 \<or> (\<exists>a1 e. record_of rg1 agent = Some a1 \<and> rg' = put_record (mark_suspended env e a1) rg1)"
      using assms(1) Some adm by (auto simp: suspend_after_failure_def split: option.splits if_splits bool.splits)
    then show ?thesis
    proof (elim disjE exE conjE)
      fix a1 e
      assume a1: "record_of rg1 agent = Some a1" and rg': "rg' = put_record (mark_suspended env e a1) rg1"
      have "calm_registry rg1 rg'" unfolding rg'
        by (rule calm_put [of _ a1]) (use a1 keyedD [OF keyed a1] in \<open>simp_all add: mark_suspended_def calm_def\<close>)
      with calm show ?thesis by (rule calm_registry_trans)
    qed (use calm in auto)
  qed
qed

lemma complete_calm:
  assumes "keyed rg"
  shows "calm_registry rg (complete_run env agent own r rg)"
proof (cases "record_of rg agent")
  case None
  then show ?thesis by (auto simp: complete_run_def)
next
  case (Some a)
  then have id: "ag_id a = agent" using keyedD [OF assms] by simp
  obtain ok rg1 where s: "suspend_after_failure env agent r rg = (ok, rg1)" by force
  have calm: "calm_registry rg rg1" by (rule suspend_calm [OF s assms])
  have keyed: "keyed rg1" by (rule keyed_calm [OF assms calm])
  show ?thesis
  proof (cases "\<not> ag_resident a \<or> ag_reserved a \<or> ag_state a \<noteq> Finalizing \<or> \<not> generation_is_current rg (ag_generation a)")
    case True
    with Some show ?thesis by (auto simp: complete_run_def)
  next
    case False
    show ?thesis
    proof (cases ok)
      case True
      with False Some s calm show ?thesis
        by (auto simp: complete_run_def split: option.splits intro: calm_then_frame)
    next
      case nok: False
      show ?thesis
      proof (cases "close_unretained a rg1")
        case None
        have "calm_registry rg (put_record (a\<lparr>ag_state := Idle\<rparr>) rg1)"
          using calm Some id by (auto simp: calm_registry_def calm_def)
        with None nok False Some s show ?thesis
          by (auto simp: complete_run_def Let_def intro: calm_then_frame)
      next
        case (Some rg2)
        then have "calm_registry rg rg2"
          using calm by (auto simp: close_unretained_def split: if_splits intro: calm_registry_trans)
        with Some nok False \<open>record_of rg agent = Some a\<close> s show ?thesis
          by (auto simp: complete_run_def intro: calm_then_frame)
      qed
    qed
  qed
qed

lemma calm_update:
  assumes "keyed rg" "record_of rg i = Some a" "calm a b" "rg_records rg' = rg_records (put_record b rg)"
  shows "calm_registry rg rg'"
proof -
  have "record_of rg (ag_id a) = Some a" using assms(1,2) by (simp add: keyedD)
  from calm_put [OF this assms(3)] assms(4) show ?thesis by (rule calm_then_frame)
qed

lemma reserve_calm:
  assumes "reserve_record parent agent resume rg = Some rg'" "keyed rg"
  shows "calm_registry rg rg'"
proof -
  obtain a where a: "record_of rg agent = Some a" and rg': "rg' = put_record (a\<lparr>ag_reserved := False, ag_state := Running\<rparr>) rg"
    using assms(1) by (auto simp: reserve_record_def split: option.splits if_splits)
  show ?thesis unfolding rg' by (rule calm_update [OF assms(2) a _ refl]) (simp add: calm_def)
qed

lemma rollback_reuse_calm:
  assumes "keyed rg"
  shows "calm_registry rg (rollback_reuse agent rg)"
proof (cases "record_of rg agent")
  case (Some a)
  have "calm a (a\<lparr>ag_state := Idle\<rparr>)" by (simp add: calm_def)
  from calm_update [OF assms Some this refl] Some show ?thesis by (simp add: rollback_reuse_def)
qed (simp add: rollback_reuse_def)

lemma settle_calm:
  assumes "keyed rg"
  shows "calm_registry rg (settle_run agent r rg)"
proof (cases "record_of rg agent")
  case None
  then show ?thesis by (simp add: settle_run_def release_slot_def calm_same)
next
  case (Some a)
  have "rg_records (settle_run agent r rg) = rg_records rg \<or>
    (\<exists>s h. rg_records (settle_run agent r rg) = rg_records (put_record (a\<lparr>ag_state := s, ag_current := None, ag_history := h\<rparr>) rg))"
    by (auto simp: settle_run_def release_slot_def Some Let_def)
  then show ?thesis
  proof (elim disjE exE)
    fix s h
    assume "rg_records (settle_run agent r rg) = rg_records (put_record (a\<lparr>ag_state := s, ag_current := None, ag_history := h\<rparr>) rg)"
    from calm_update [OF assms Some _ this] show ?thesis by (simp add: calm_def)
  qed (rule calm_same)
qed

lemma expire_calm: "calm_registry rg (snd (expire_elapsed now cfg rg))"
proof -
  have "calm_registry rg (fold expire_record xs rg)" for xs
  proof (induction xs arbitrary: rg)
    case (Cons x xs)
    show ?case using Cons [of "expire_record x rg"]
      by (simp add: expire_record_def) (rule calm_registry_trans [OF calm_drop])
  qed simp
  then show ?thesis by (simp add: expire_elapsed_def Let_def)
qed

lemma cancel_suspension_calm: "calm_registry rg (cancel_suspension agent rg)"
  unfolding cancel_suspension_def expire_record_def by (rule calm_registry_trans [OF calm_same calm_drop]) simp

lemma invalidate_calm: "keyed rg \<Longrightarrow> calm_registry rg (invalidate_recovery agent rg)"
proof -
  assume k: "keyed rg"
  have eq: "record_of (cancel_pending agent rg) = record_of rg" by (rule record_of_frame) simp
  show ?thesis
  proof (cases "record_of rg agent")
    case None
    then show ?thesis by (simp add: invalidate_recovery_def eq calm_same)
  next
    case (Some a)
    have "calm a (a\<lparr>ag_pending := None, ag_superseded := True\<rparr>)" by (simp add: calm_def)
    from calm_update [OF k Some this, of "invalidate_recovery agent rg"] Some show ?thesis
      by (simp add: invalidate_recovery_def eq put_record_def)
  qed
qed

lemma reconcile_record_calm: "calm a (snd (reconcile_record a expected boundary fx requester))"
  by (simp add: reconcile_record_def settle_barrier_def calm_def Let_def split: option.split)

lemma reconcile_calm:
  assumes "keyed rg"
  shows "calm_registry rg (snd (reconcile_result_of agent expected boundary fx requester rg))"
proof (cases "record_of rg agent")
  case None
  then show ?thesis by (simp add: reconcile_result_of_def)
next
  case (Some a)
  obtain res b where b: "reconcile_record a expected boundary fx requester = (res, b)" by force
  with reconcile_record_calm [of a expected boundary fx requester] have "calm a b" by simp
  from calm_update [OF assms Some this refl] Some b show ?thesis by (simp add: reconcile_result_of_def)
qed

lemma claim_effect:
  "snd (validate_replacement_claim cv cfg parent cl rg) = rg \<or>
   (\<exists>package a. snd (validate_replacement_claim cv cfg parent cl rg) = consume_replacement package (invalidate_recovery a rg))"
  unfolding validate_replacement_claim_def
  by (simp split: sum.split prod.split option.split) metis

lemma claim_calm: "keyed rg \<Longrightarrow> calm_registry rg (snd (validate_replacement_claim cv cfg parent cl rg))"
  using claim_effect [of cv cfg parent cl rg]
  by (auto simp: consume_replacement_def intro: calm_then_frame [OF invalidate_calm])

section \<open>The invariant\<close>

text \<open>
  \<open>recs\<close> are the attached records, \<open>iss\<close> the ids minted, \<open>st\<close> the accepted successors.
\<close>

text \<open>The accepted successors of an agent.\<close>

definition resumed :: "string \<Rightarrow> (string \<times> string) list \<Rightarrow> int" where
  "resumed i st = int (length (filter (\<lambda>p. fst p = i) st))"

lemma resumed_Cons [simp]: "resumed i (p # st) = (if fst p = i then 1 else 0) + resumed i st"
  by (simp add: resumed_def)

lemma resumed_nonneg [simp]: "0 \<le> resumed i st"
  by (simp add: resumed_def)

lemma resumed_fresh: "set st \<subseteq> iss \<times> iss \<Longrightarrow> i \<notin> iss \<Longrightarrow> resumed i st = 0"
  by (auto simp: resumed_def filter_empty_conv)

definition record_ok :: "recovery_config \<Rightarrow> string set \<Rightarrow> (string \<times> string) list \<Rightarrow> string \<Rightarrow> agent \<Rightarrow> bool" where
  "record_ok cfg iss st i a \<longleftrightarrow>
     ag_id a = i \<and> i \<in> iss \<and>
     (\<forall>x. ag_latest a = Some x \<longrightarrow> x \<in> iss \<and> (i, x) \<notin> set st) \<and>
     (\<forall>r. ag_current a = Some r \<longrightarrow> ag_latest a = Some (ru_id r)) \<and>
     0 \<le> ag_resumes_used a \<and> ag_resumes_used a \<le> max 0 (rc_resumes_max cfg) \<and>
     (resumed i st \<le> ag_resumes_used a \<or> ag_superseded a)"

definition held :: "(string \<Rightarrow> agent option) \<Rightarrow> flight \<Rightarrow> bool" where
  "held recs f \<longleftrightarrow>
     (\<forall>a. recs (fl_agent f) = Some a \<longrightarrow>
        ag_pending a = Some (ad_operation (fl_admission f)) \<and>
        ag_resumes_used a = ad_resumes_before (fl_admission f) + 1 \<or> ag_superseded a)"

definition flight_ok :: "recovery_config \<Rightarrow> string set \<Rightarrow> (string \<times> string) list \<Rightarrow> flight \<Rightarrow> bool" where
  "flight_ok cfg iss st f \<longleftrightarrow>
     fl_agent f \<in> iss \<and> fl_failed f \<in> iss \<and> fl_successor f \<in> iss \<and> fl_failed f \<noteq> fl_successor f \<and>
     0 \<le> ad_resumes_before (fl_admission f) \<and> ad_resumes_before (fl_admission f) < rc_resumes_max cfg \<and>
     (fl_stage f \<in> {Joining, Reserved, Installed} \<longrightarrow>
        (fl_agent f, fl_failed f) \<notin> set st \<and> (fl_agent f, fl_successor f) \<notin> set st) \<and>
     (fl_stage f \<noteq> Accepted \<longrightarrow> resumed (fl_agent f) st \<le> ad_resumes_before (fl_admission f)) \<and>
     (fl_stage f = Installed \<longrightarrow>
        (\<forall>x. fl_prior_latest f = Some x \<longrightarrow> x \<in> iss \<and> (fl_agent f, x) \<notin> set st) \<and>
        (\<forall>r. fl_prior_current f = Some r \<longrightarrow> fl_prior_latest f = Some (ru_id r)))"

definition inv_of ::
  "recovery_config \<Rightarrow> (string \<Rightarrow> agent option) \<Rightarrow> flight list \<Rightarrow> string set \<Rightarrow> (string \<times> string) list \<Rightarrow> bool" where
  "inv_of cfg recs fs iss st \<longleftrightarrow>
     (\<forall>i a. recs i = Some a \<longrightarrow> record_ok cfg iss st i a) \<and>
     (\<forall>f \<in> set fs. flight_ok cfg iss st f \<and> held recs f) \<and>
     distinct (map fl_agent fs) \<and> set st \<subseteq> iss \<times> iss \<and> distinct st \<and>
     (\<forall>i. resumed i st \<le> max 0 (rc_resumes_max cfg))"

definition machine_inv :: "recovery_config \<Rightarrow> machine \<Rightarrow> bool" where
  "machine_inv cfg m \<longleftrightarrow>
     inv_of cfg (record_of (mc_registry m)) (mc_flights m) (mc_issued m) (mc_started m)"

lemma inv_recordD: "inv_of cfg recs fs iss st \<Longrightarrow> recs i = Some a \<Longrightarrow> record_ok cfg iss st i a"
  by (simp add: inv_of_def)

lemma inv_flightD: "inv_of cfg recs fs iss st \<Longrightarrow> f \<in> set fs \<Longrightarrow> flight_ok cfg iss st f \<and> held recs f"
  by (simp add: inv_of_def)

lemma inv_keyed: "machine_inv cfg m \<Longrightarrow> keyed (mc_registry m)"
  by (auto simp: machine_inv_def inv_of_def keyed_def record_ok_def)

lemma record_ok_calm: "record_ok cfg iss st i a \<Longrightarrow> calm a b \<Longrightarrow> record_ok cfg iss st i b"
  by (auto simp: record_ok_def calm_def)

lemma inv_calm:
  assumes "inv_of cfg recs fs iss st" and "\<And>i b. recs' i = Some b \<Longrightarrow> \<exists>a. recs i = Some a \<and> calm a b"
  shows "inv_of cfg recs' fs iss st"
proof -
  have "record_ok cfg iss st i b" if "recs' i = Some b" for i b
    using assms(2) [OF that] inv_recordD [OF assms(1)] record_ok_calm by blast
  moreover have "held recs' f" if "f \<in> set fs" for f
  proof (unfold held_def, intro allI impI)
    fix b
    assume "recs' (fl_agent f) = Some b"
    from assms(2) [OF this] obtain a where "recs (fl_agent f) = Some a" "calm a b" by blast
    with inv_flightD [OF assms(1) that]
    show "ag_pending b = Some (ad_operation (fl_admission f)) \<and>
        ag_resumes_used b = ad_resumes_before (fl_admission f) + 1 \<or> ag_superseded b"
      by (auto simp: held_def calm_def)
  qed
  ultimately show ?thesis using assms(1) by (simp add: inv_of_def)
qed

lemma inv_calm_registry:
  "machine_inv cfg m \<Longrightarrow> calm_registry (mc_registry m) rg \<Longrightarrow>
   inv_of cfg (record_of rg) (mc_flights m) (mc_issued m) (mc_started m)"
  unfolding machine_inv_def by (erule inv_calm) (rule calm_registryD)

lemma record_ok_mono: "record_ok cfg iss st i a \<Longrightarrow> iss \<subseteq> iss' \<Longrightarrow> record_ok cfg iss' st i a"
  by (auto simp: record_ok_def)

lemma flight_ok_mono: "flight_ok cfg iss st f \<Longrightarrow> iss \<subseteq> iss' \<Longrightarrow> flight_ok cfg iss' st f"
  by (auto simp: flight_ok_def)

lemma inv_mono: "inv_of cfg recs fs iss st \<Longrightarrow> iss \<subseteq> iss' \<Longrightarrow> inv_of cfg recs fs iss' st"
  unfolding inv_of_def using record_ok_mono flight_ok_mono by (meson Sigma_mono order_trans)

lemma set_rest:
  assumes "i < length fs" "distinct (map fl_agent fs)" "g \<in> set (take i fs @ drop (Suc i) fs)"
  shows "g \<in> set fs" "fl_agent g \<noteq> fl_agent (fs ! i)"
proof -
  have fs: "fs = take i fs @ fs ! i # drop (Suc i) fs" using assms(1) by (rule id_take_nth_drop)
  from assms(3) show "g \<in> set fs" by (auto dest: in_set_takeD in_set_dropD)
  have "distinct (map fl_agent (take i fs @ fs ! i # drop (Suc i) fs))" using assms(2) fs by simp
  with assms(3) show "fl_agent g \<noteq> fl_agent (fs ! i)" by (auto simp: image_iff)
qed

lemma distinct_rest:
  assumes "i < length fs" "distinct (map fl_agent fs)"
  shows "distinct (map fl_agent (take i fs @ drop (Suc i) fs))"
proof -
  have "distinct (map fl_agent (take i fs @ fs ! i # drop (Suc i) fs))"
    using assms id_take_nth_drop [of i fs] by simp
  then show ?thesis by simp
qed

text \<open>A change that concerns only the agent of the flight at a place, which is dropped or updated.\<close>

lemma inv_drop_flight:
  assumes inv: "inv_of cfg recs fs iss st" and i: "i < length fs"
    and same: "\<And>j. j \<noteq> fl_agent (fs ! i) \<Longrightarrow> recs' j = recs j"
    and ok: "\<And>a. recs' (fl_agent (fs ! i)) = Some a \<Longrightarrow> record_ok cfg iss st (fl_agent (fs ! i)) a"
  shows "inv_of cfg recs' (take i fs @ drop (Suc i) fs) iss st"
proof -
  have d: "distinct (map fl_agent fs)" using inv by (simp add: inv_of_def)
  have "record_ok cfg iss st j a" if "recs' j = Some a" for j a
    using that same [of j] ok [of a] inv_recordD [OF inv, of j a] by (cases "j = fl_agent (fs ! i)") auto
  moreover have "flight_ok cfg iss st g \<and> held recs' g" if "g \<in> set (take i fs @ drop (Suc i) fs)" for g
    using set_rest [OF i d that] inv_flightD [OF inv, of g] same [of "fl_agent g"] by (simp add: held_def)
  ultimately show ?thesis using inv distinct_rest [OF i d] by (auto simp: inv_of_def)
qed

lemma inv_update_flight:
  assumes inv: "inv_of cfg recs fs iss st" and i: "i < length fs" and f: "fl_agent f = fl_agent (fs ! i)"
    and same: "\<And>j. j \<noteq> fl_agent f \<Longrightarrow> recs' j = recs j"
    and ok: "\<And>a. recs' (fl_agent f) = Some a \<Longrightarrow> record_ok cfg iss st (fl_agent f) a"
    and fl: "flight_ok cfg iss st f" "held recs' f"
  shows "inv_of cfg recs' (fs[i := f]) iss st"
proof -
  have rest: "inv_of cfg recs' (take i fs @ drop (Suc i) fs) iss st"
    by (rule inv_drop_flight [OF inv i]) (use same ok f in simp_all)
  have "set (fs[i := f]) = insert f (set (take i fs @ drop (Suc i) fs))"
    using i by (simp add: upd_conv_take_nth_drop)
  moreover have "map fl_agent (fs[i := f]) = map fl_agent fs"
    using f i by (metis list_update_id map_update)
  ultimately show ?thesis using rest inv fl by (auto simp: inv_of_def)
qed

lemma inv_stage:
  assumes inv: "inv_of cfg recs fs iss st" and i: "i < length fs" and f: "fs ! i = f"
    and stage: "stage = Failing \<and> fl_stage f \<noteq> Accepted \<or> stage = Reserved \<and> fl_stage f = Joining"
    and calm: "\<And>j b. recs' j = Some b \<Longrightarrow> \<exists>a. recs j = Some a \<and> calm a b"
  shows "inv_of cfg recs' (fs[i := f\<lparr>fl_stage := stage\<rparr>]) iss st"
proof -
  have inv': "inv_of cfg recs' fs iss st" by (rule inv_calm [OF inv calm])
  have ok: "flight_ok cfg iss st f \<and> held recs' f" using inv_flightD [OF inv', of f] i f by auto
  show ?thesis
    by (rule inv_update_flight [OF inv' i])
      (use ok stage f inv_recordD [OF inv'] in \<open>auto simp: fl_agent_def fl_failed_def fl_successor_def flight_ok_def held_def\<close>)
qed

section \<open>When a resume is admitted\<close>

lemma resume_target_iff:
  "resume_target a expected key requester = Inr (r, e) \<longleftrightarrow>
     ag_parent a = requester \<and> ag_pending a = None \<and> successor_of a expected = None \<and>
     \<not> ag_superseded a \<and> \<not> ag_reserved a \<and> ag_state a = Suspended \<and>
     find_run expected a = Some r \<and> ag_latest a = Some expected \<and> ru_failure r = Some e"
  by (auto simp: resume_target_def split: option.split)

text \<open>What policy asks of an eligible barrier.\<close>

definition policy_admits :: "recovery_env \<Rightarrow> agent \<Rightarrow> failure_envelope \<Rightarrow> bool \<Rightarrow> bool" where
  "policy_admits env a e override \<longleftrightarrow>
     fst (effective_eligibility a e) = Eligible \<and>
     (case ec_expires_at (en_recovery e) of None \<Rightarrow> True | Some t \<Rightarrow> rv_epoch env < t) \<and>
     rv_epoch env < en_observed_at e + rc_deadline (rv_config env) \<and>
     ag_resumes_used a < rc_resumes_max (rv_config env) \<and> ag_resident a \<and>
     (av_available (available_now env (ag_id a)) \<or> override \<and> \<not> av_permanent (available_now env (ag_id a)))"

lemma resume_policy_iff:
  "(\<exists>elig codes. resume_policy env a expected e override = Inr (elig, codes)) \<longleftrightarrow> policy_admits env a e override"
proof -
  obtain elig codes where eff: "effective_eligibility a e = (elig, codes)" by force
  show ?thesis
    by (cases elig; cases "ec_expires_at (en_recovery e)")
      (auto simp: resume_policy_def policy_admits_def eff Let_def)
qed

lemma resume_agent_admits:
  assumes "resume_agent env agent expected key requester override fresh rg = (Admitted ad, rg')"
  obtains a r e where "\<not> rg_admission_closed rg" "\<not> rg_draining rg" "record_of rg agent = Some a"
    "resume_target a expected key requester = Inr (r, e)" "policy_admits env a e override"
    "capacity_error (rv_config env) rg = None" "rg_root rg = Some (ad_parent ad)"
    "ad_operation ad = new_operation env agent expected key fresh" "ad_failed ad = r"
    "ad_resumes_before ad = ag_resumes_used a"
    "rg' = commit_resume (new_operation env agent expected key fresh) a rg"
proof -
  have open': "\<not> (rg_admission_closed rg \<or> rg_draining rg)" using assms by (auto simp: resume_agent_def)
  with assms obtain a where a: "record_of rg agent = Some a" by (auto simp: resume_agent_def split: option.splits)
  with assms open' obtain r e where t: "resume_target a expected key requester = Inr (r, e)"
    by (auto simp: resume_agent_def split: sum.splits)
  with assms open' a obtain elig codes where p: "resume_policy env a expected e override = Inr (elig, codes)"
    by (auto simp: resume_agent_def split: sum.splits)
  with assms open' a t have c: "capacity_error (rv_config env) rg = None"
    by (auto simp: resume_agent_def split: option.splits)
  have pol: "policy_admits env a e override" using p resume_policy_iff by blast
  show thesis
    by (rule that [OF _ _ a t pol c]) (use assms open' a t p c in \<open>auto simp: resume_agent_def Let_def split: option.splits\<close>)
qed

lemma resume_agent_refuses:
  assumes "resume_agent env agent expected key requester override fresh rg = (reply, rg')" "\<forall>ad. reply \<noteq> Admitted ad"
  shows "rg' = rg"
  using assms unfolding resume_agent_def by (auto simp: Let_def split: option.splits sum.splits prod.splits if_splits)

section \<open>The sections of a flight keep the invariant\<close>

lemma commit_inv:
  assumes inv: "machine_inv cfg m" and cfg: "rv_config env = cfg" and fresh: "fresh \<notin> mc_issued m"
    and adm: "resume_agent env agent expected key requester override fresh (mc_registry m) = (Admitted ad, rg)"
  shows "inv_of cfg (record_of rg) (mc_flights m @ [new_flight ad auto]) (insert fresh (mc_issued m)) (mc_started m)"
proof -
  let ?iss = "mc_issued m" and ?st = "mc_started m" and ?fs = "mc_flights m" and ?recs = "record_of (mc_registry m)"
  let ?op = "new_operation env agent expected key fresh"
  obtain a r e where a: "?recs agent = Some a" and t: "resume_target a expected key requester = Inr (r, e)"
    and pol: "policy_admits env a e override" and op: "ad_operation ad = ?op"
    and before: "ad_resumes_before ad = ag_resumes_used a" and rg: "rg = commit_resume ?op a (mc_registry m)"
    using adm by (rule resume_agent_admits) blast
  have i: "inv_of cfg ?recs ?fs ?iss ?st" using inv by (simp add: machine_inv_def)
  have ok: "record_ok cfg ?iss ?st agent a" by (rule inv_recordD [OF i a])
  have id: "ag_id a = agent" using ok by (simp add: record_ok_def)
  define b where "b = a\<lparr>ag_pending := Some ?op, ag_state := Restoring, ag_resumes_used := ag_resumes_used a + 1\<rparr>"
  have recs: "record_of rg = ?recs(agent \<mapsto> b)"
    by (simp add: rg commit_resume_def Let_def record_of_def put_record_def fun_eq_iff b_def id)
  have st: "set ?st \<subseteq> ?iss \<times> ?iss" using i by (simp add: inv_of_def)
  have target: "ag_pending a = None" "\<not> ag_superseded a" "ag_latest a = Some expected"
    using t by (simp_all add: resume_target_iff)
  have budget: "ag_resumes_used a < rc_resumes_max cfg" using pol cfg by (simp add: policy_admits_def)
  have "record_ok cfg (insert fresh ?iss) ?st agent b"
    using ok budget by (auto simp: record_ok_def b_def)
  moreover have "flight_ok cfg (insert fresh ?iss) ?st (new_flight ad auto)"
    using ok target(2,3) st fresh before budget
    by (auto simp: flight_ok_def record_ok_def new_flight_def fl_agent_def fl_failed_def fl_successor_def op new_operation_def)
  moreover have "held (record_of rg) (new_flight ad auto)"
    by (auto simp: held_def recs new_flight_def op b_def fl_agent_def new_operation_def before)
  moreover have "\<forall>g \<in> set ?fs. fl_agent g \<noteq> agent"
  proof
    fix g
    assume "g \<in> set ?fs"
    from inv_flightD [OF i this] a target show "fl_agent g \<noteq> agent" by (auto simp: held_def)
  qed
  moreover have "fl_agent (new_flight ad auto) = agent"
    by (simp add: fl_agent_def new_flight_def op new_operation_def)
  moreover have "inv_of cfg ?recs ?fs (insert fresh ?iss) ?st" by (rule inv_mono [OF i]) auto
  ultimately show ?thesis unfolding inv_of_def recs by (auto simp: held_def)
qed

lemma install_inv:
  assumes inv: "inv_of cfg recs fs iss st" and i: "i < length fs" and f: "fs ! i = f" and stage: "fl_stage f = Reserved"
    and a: "recs (fl_agent f) = Some a"
  shows "inv_of cfg (recs(fl_agent f \<mapsto> install_run (successor_run f a) a))
    (fs[i := f\<lparr>fl_stage := Installed, fl_prior_current := ag_current a, fl_prior_latest := ag_latest a\<rparr>]) iss st"
proof -
  have ok: "record_ok cfg iss st (fl_agent f) a" by (rule inv_recordD [OF inv a])
  have fl: "flight_ok cfg iss st f" "held recs f" using inv_flightD [OF inv, of f] i f by auto
  show ?thesis
    by (rule inv_update_flight [OF inv i])
      (use ok fl stage f a in \<open>auto simp: record_ok_def flight_ok_def held_def install_run_def successor_run_def new_run_def
          fl_agent_def fl_failed_def fl_successor_def\<close>)
qed

lemma accept_inv:
  assumes inv: "inv_of cfg recs fs iss st" and i: "i < length fs" and f: "fs ! i = f" and stage: "fl_stage f = Installed"
    and a: "recs (fl_agent f) = Some a" "current_is (fl_successor f) a"
  shows "inv_of cfg recs (fs[i := f\<lparr>fl_stage := Accepted\<rparr>]) iss ((fl_agent f, fl_failed f) # st)"
proof -
  let ?st = "(fl_agent f, fl_failed f) # st" and ?f = "f\<lparr>fl_stage := Accepted\<rparr>"
  have d: "distinct (map fl_agent fs)" using inv by (simp add: inv_of_def)
  have fl: "flight_ok cfg iss st f" "held recs f" using inv_flightD [OF inv, of f] i f by auto
  have ok: "record_ok cfg iss st (fl_agent f) a" by (rule inv_recordD [OF inv a(1)])
  with a(2) have latest: "ag_latest a = Some (fl_successor f)"
    by (auto simp: record_ok_def current_is_def split: option.splits)
  have room: "resumed (fl_agent f) st \<le> ad_resumes_before (fl_admission f)"
    "ad_resumes_before (fl_admission f) < rc_resumes_max cfg"
    using fl(1) stage by (simp_all add: flight_ok_def)
  have recs: "record_ok cfg iss ?st j b" if "recs j = Some b" for j b
  proof (cases "j = fl_agent f")
    case True
    then have "b = a" using that a(1) by simp
    moreover have "ag_resumes_used a = ad_resumes_before (fl_admission f) + 1 \<or> ag_superseded a"
      using fl(2) a(1) by (auto simp: held_def)
    moreover have "fl_failed f \<noteq> fl_successor f" using fl(1) by (simp add: flight_ok_def)
    ultimately show ?thesis using ok latest True room by (auto simp: record_ok_def)
  next
    case False
    with inv_recordD [OF inv that] show ?thesis by (simp add: record_ok_def)
  qed
  have bound: "\<forall>i. resumed i ?st \<le> max 0 (rc_resumes_max cfg)"
    using inv room by (auto simp: inv_of_def)
  have rest: "flight_ok cfg iss ?st g \<and> held recs g" if "g \<in> set (take i fs @ drop (Suc i) fs)" for g
    using set_rest [OF i d that] inv_flightD [OF inv, of g] f by (auto simp: flight_ok_def)
  have this_f: "flight_ok cfg iss ?st ?f \<and> held recs ?f"
    using fl by (auto simp: flight_ok_def held_def fl_agent_def fl_failed_def fl_successor_def)
  have "set (fs[i := ?f]) = insert ?f (set (take i fs @ drop (Suc i) fs))"
    using i by (simp add: upd_conv_take_nth_drop)
  moreover have "map fl_agent (fs[i := ?f]) = map fl_agent fs"
    using f i by (simp add: map_update list_update_same_conv fl_agent_def)
  ultimately show ?thesis
    using inv recs rest this_f fl(1) stage bound by (auto simp: inv_of_def flight_ok_def)
qed

lemma undo_installed_inv:
  assumes inv: "inv_of cfg recs fs iss st" and i: "i < length fs" and f: "fs ! i = f" and stage: "fl_stage f = Installed"
    and a: "recs (fl_agent f) = Some a"
  shows "inv_of cfg (recs(fl_agent f \<mapsto> a\<lparr>ag_current := fl_prior_current f, ag_latest := fl_prior_latest f\<rparr>))
    (fs[i := f\<lparr>fl_stage := Failing\<rparr>]) iss st"
proof -
  have ok: "record_ok cfg iss st (fl_agent f) a" by (rule inv_recordD [OF inv a])
  have fl: "flight_ok cfg iss st f" "held recs f" using inv_flightD [OF inv, of f] i f by auto
  show ?thesis
    by (rule inv_update_flight [OF inv i])
      (use ok fl stage f a in \<open>auto simp: record_ok_def flight_ok_def held_def fl_agent_def fl_failed_def fl_successor_def\<close>)
qed

lemma clear_pending_inv:
  assumes inv: "inv_of cfg recs fs iss st" and i: "i < length fs" and f: "fs ! i = f"
    and recs': "recs' = recs \<or> (\<exists>a s n. recs (fl_agent f) = Some a \<and> 0 \<le> n \<and> n \<le> max 0 (rc_resumes_max cfg) \<and>
       (resumed (fl_agent f) st \<le> n \<or> ag_superseded a) \<and> recs' = recs(fl_agent f \<mapsto> a\<lparr>ag_pending := None, ag_state := s, ag_resumes_used := n\<rparr>))"
  shows "inv_of cfg recs' (take i fs @ drop (Suc i) fs) iss st"
proof (rule inv_drop_flight [OF inv i])
  fix j
  assume "j \<noteq> fl_agent (fs ! i)"
  with recs' f show "recs' j = recs j" by auto
next
  fix b
  assume "recs' (fl_agent (fs ! i)) = Some b"
  with recs' f show "record_ok cfg iss st (fl_agent (fs ! i)) b"
    using inv_recordD [OF inv, of "fl_agent f"] by (auto simp: record_ok_def)
qed

lemma rollback_resume_records:
  assumes "keyed rg"
  shows "record_of (rollback_resume env ad t rg) = record_of rg \<or>
    (\<exists>a. record_of rg (op_agent (ad_operation ad)) = Some a \<and>
      record_of (rollback_resume env ad t rg) =
        (record_of rg)(op_agent (ad_operation ad) \<mapsto>
          a\<lparr>ag_pending := None, ag_state := Suspended, ag_resumes_used := ad_resumes_before ad\<rparr>))"
proof -
  let ?i = "op_agent (ad_operation ad)"
  have frame: "record_of (release_slot x r) = record_of r" for x r
    by (rule record_of_frame) (simp add: release_slot_def)
  have rearm: "record_of (rearm_schedule env ?i r) = record_of r" for r
    by (rule record_of_frame) simp
  show ?thesis
  proof (cases "record_of rg ?i")
    case None
    then show ?thesis by (simp add: rollback_resume_def Let_def frame)
  next
    case (Some a)
    then have "ag_id a = ?i" using assms by (simp add: keyedD)
    with Some show ?thesis by (simp add: rollback_resume_def Let_def frame rearm)
  qed
qed

lemma handler_inv:
  assumes inv: "machine_inv cfg m" and i: "i < length (mc_flights m)" and f: "mc_flights m ! i = f"
    and stage: "fl_stage f = Failing"
  shows "machine_inv cfg (handler_runs env i f m)"
proof -
  have j: "inv_of cfg (record_of (mc_registry m)) (mc_flights m) (mc_issued m) (mc_started m)"
    using inv by (simp add: machine_inv_def)
  have "flight_ok cfg (mc_issued m) (mc_started m) f" using inv_flightD [OF j, of f] i f by auto
  then have before: "0 \<le> ad_resumes_before (fl_admission f)" "ad_resumes_before (fl_admission f) \<le> max 0 (rc_resumes_max cfg)"
    "resumed (fl_agent f) (mc_started m) \<le> ad_resumes_before (fl_admission f)"
    using stage by (simp_all add: flight_ok_def)
  let ?rg = "mc_registry m" and ?rg' = "rollback_resume env (fl_admission f) False (mc_registry m)"
  have "record_of ?rg' = record_of ?rg \<or>
      (\<exists>a s n. record_of ?rg (fl_agent f) = Some a \<and> 0 \<le> n \<and> n \<le> max 0 (rc_resumes_max cfg) \<and>
         (resumed (fl_agent f) (mc_started m) \<le> n \<or> ag_superseded a) \<and> record_of ?rg' = (record_of ?rg)(fl_agent f \<mapsto> a\<lparr>ag_pending := None, ag_state := s, ag_resumes_used := n\<rparr>))"
    using rollback_resume_records [OF inv_keyed [OF inv], of env "fl_admission f" False] before
    unfolding fl_agent_def by blast
  from clear_pending_inv [OF j i f this] show ?thesis
    by (simp add: machine_inv_def handler_runs_def drop_flight_def with_registry_def)
qed

lemma publish_inv:
  assumes inv: "machine_inv cfg m" and i: "i < length (mc_flights m)" and f: "mc_flights m ! i = f"
  shows "machine_inv cfg (publish_flight i f m)"
proof -
  let ?rg = "mc_registry m"
  have j: "inv_of cfg (record_of ?rg) (mc_flights m) (mc_issued m) (mc_started m)"
    using inv by (simp add: machine_inv_def)
  have recs: "record_of (publish_resume (fl_agent f) ?rg) = record_of ?rg \<or>
      (\<exists>a s n. record_of ?rg (fl_agent f) = Some a \<and> 0 \<le> n \<and> n \<le> max 0 (rc_resumes_max cfg) \<and>
         (resumed (fl_agent f) (mc_started m) \<le> n \<or> ag_superseded a) \<and> record_of (publish_resume (fl_agent f) ?rg) =
           (record_of ?rg)(fl_agent f \<mapsto> a\<lparr>ag_pending := None, ag_state := s, ag_resumes_used := n\<rparr>))"
  proof (cases "record_of ?rg (fl_agent f)")
    case None
    then show ?thesis by (simp add: publish_resume_def)
  next
    case (Some a)
    then have "record_ok cfg (mc_issued m) (mc_started m) (fl_agent f) a" by (rule inv_recordD [OF j])
    then have ok: "ag_id a = fl_agent f" "0 \<le> ag_resumes_used a" "ag_resumes_used a \<le> max 0 (rc_resumes_max cfg)"
      "resumed (fl_agent f) (mc_started m) \<le> ag_resumes_used a \<or> ag_superseded a"
      by (simp_all add: record_ok_def)
    have "a\<lparr>ag_pending := None\<rparr> = a\<lparr>ag_pending := None, ag_state := ag_state a, ag_resumes_used := ag_resumes_used a\<rparr>" by simp
    then have "record_of (publish_resume (fl_agent f) ?rg) =
        (record_of ?rg)(fl_agent f \<mapsto> a\<lparr>ag_pending := None, ag_state := ag_state a, ag_resumes_used := ag_resumes_used a\<rparr>)"
      using Some ok(1) by (simp add: publish_resume_def)
    with Some ok show ?thesis by blast
  qed
  from clear_pending_inv [OF j i f recs] show ?thesis
    by (simp add: machine_inv_def publish_flight_def return_to_def drop_flight_def with_registry_def Let_def split: option.split)
qed

lemma fresh_run_inv:
  assumes inv: "inv_of cfg recs fs iss st" and fresh: "r \<notin> iss"
    and ok: "record_ok cfg iss st i a \<or> i \<notin> iss \<and> ag_id a = i \<and> ag_resumes_used a = 0"
    and held: "i \<in> iss \<longrightarrow> (\<exists>b. recs i = Some b \<and> calm b a)"
  shows "inv_of cfg (recs(i \<mapsto> install_run (new_run r None None) a)) fs (insert i (insert r iss)) st"
proof -
  have st: "set st \<subseteq> iss \<times> iss" using inv by (simp add: inv_of_def)
  have inv': "inv_of cfg recs fs (insert i (insert r iss)) st" by (rule inv_mono [OF inv]) auto
  have "record_ok cfg (insert i (insert r iss)) st i (install_run (new_run r None None) a)"
    using ok st fresh resumed_fresh [OF st] by (auto simp: record_ok_def install_run_def new_run_def)
  moreover have "held (recs(i \<mapsto> install_run (new_run r None None) a)) f" if "f \<in> set fs" for f
    using inv_flightD [OF inv that] held by (auto simp: held_def install_run_def calm_def flight_ok_def)
  ultimately show ?thesis using inv' by (auto simp: inv_of_def)
qed

section \<open>Every step keeps the invariant\<close>

lemma keyed_record: "machine_inv cfg m \<Longrightarrow> record_of (mc_registry m) i = Some a \<Longrightarrow> ag_id a = i"
  by (rule keyedD [OF inv_keyed])

lemma request_inv:
  assumes inv: "machine_inv cfg m" and cfg: "rv_config env = cfg" and fresh: "fresh \<notin> mc_issued m"
  shows "machine_inv cfg (request_resume env agent expected key requester override fresh auto m)"
proof -
  obtain reply rg where r: "resume_agent env agent expected key requester override fresh (mc_registry m) = (reply, rg)" by force
  show ?thesis
  proof (cases "\<exists>ad. reply = Admitted ad")
    case True
    then obtain ad where ad: "reply = Admitted ad" by blast
    with r commit_inv [OF inv cfg fresh, of agent expected key requester override ad rg auto] show ?thesis
      by (simp add: machine_inv_def request_resume_def after_admission_def)
  next
    case False
    then have "rg = mc_registry m" using resume_agent_refuses [OF r] by blast
    moreover have "inv_of cfg (record_of (mc_registry m)) (mc_flights m) (insert fresh (mc_issued m)) (mc_started m)"
      by (rule inv_mono [of cfg _ _ "mc_issued m"]) (use inv in \<open>auto simp: machine_inv_def\<close>)
    ultimately show ?thesis using r False
      by (auto simp: machine_inv_def request_resume_def after_admission_def return_to_def split: resume_reply.split option.split)
  qed
qed

lemma install_flight_inv:
  assumes inv: "machine_inv cfg m" and i: "i < length (mc_flights m)" and f: "mc_flights m ! i = f" and stage: "fl_stage f = Reserved"
  shows "machine_inv cfg (install_flight i f m)"
proof -
  have j: "inv_of cfg (record_of (mc_registry m)) (mc_flights m) (mc_issued m) (mc_started m)"
    using inv by (simp add: machine_inv_def)
  have fl: "flight_ok cfg (mc_issued m) (mc_started m) f \<and> held (record_of (mc_registry m)) f"
    using inv_flightD [OF j, of f] i f by auto
  show ?thesis
  proof (cases "record_of (mc_registry m) (fl_agent f)")
    case None
    have "inv_of cfg (record_of (mc_registry m))
        ((mc_flights m)[i := f\<lparr>fl_stage := Installed, fl_prior_current := None, fl_prior_latest := None\<rparr>]) (mc_issued m) (mc_started m)"
      by (rule inv_update_flight [OF j i])
        (use fl f None stage inv_recordD [OF j] in \<open>auto simp: flight_ok_def held_def fl_agent_def fl_failed_def fl_successor_def\<close>)
    with None show ?thesis by (simp add: machine_inv_def install_flight_def set_flight_def)
  next
    case (Some a)
    then have "ag_id (install_run (successor_run f a) a) = fl_agent f"
      using keyed_record [OF inv Some] by (simp add: install_run_def)
    with install_inv [OF j i f stage Some] Some show ?thesis
      by (simp add: machine_inv_def install_flight_def set_flight_def with_registry_def)
  qed
qed

lemma fail_flight_inv:
  assumes inv: "machine_inv cfg m" and i: "i < length (mc_flights m)" and f: "mc_flights m ! i = f"
    and stage: "fl_stage f \<noteq> Accepted"
  shows "machine_inv cfg (fail_flight i f m)"
proof -
  let ?rg = "mc_registry m"
  have j: "inv_of cfg (record_of ?rg) (mc_flights m) (mc_issued m) (mc_started m)"
    using inv by (simp add: machine_inv_def)
  have k: "keyed ?rg" by (rule inv_keyed [OF inv])
  have "inv_of cfg (record_of (undo_flight f ?rg)) ((mc_flights m)[i := f\<lparr>fl_stage := Failing\<rparr>]) (mc_issued m) (mc_started m)"
  proof (cases "fl_stage f = Installed \<and> (\<exists>a. record_of ?rg (fl_agent f) = Some a \<and> current_is (fl_successor f) a)")
    case True
    then obtain a where a: "record_of ?rg (fl_agent f) = Some a" "current_is (fl_successor f) a" and st: "fl_stage f = Installed"
      by blast
    define b where "b = a\<lparr>ag_current := fl_prior_current f, ag_latest := fl_prior_latest f\<rparr>"
    have id: "ag_id b = fl_agent f" using keyed_record [OF inv a(1)] by (simp add: b_def)
    have mid: "inv_of cfg (record_of (put_record b ?rg)) ((mc_flights m)[i := f\<lparr>fl_stage := Failing\<rparr>]) (mc_issued m) (mc_started m)"
      using undo_installed_inv [OF j i f st a(1)] by (simp add: b_def [symmetric] id)
    have "keyed (put_record b ?rg)" using k id by (auto simp: keyed_def)
    from inv_calm [OF mid calm_registryD [OF rollback_reuse_calm [OF this, of "fl_agent f"]]]
    show ?thesis using a st by (simp add: undo_flight_def rollback_background_def b_def)
  next
    case False
    have "calm_registry ?rg (undo_flight f ?rg)"
    proof (cases "fl_stage f")
      case Installed
      with False have "undo_flight f ?rg = rollback_reuse (fl_agent f) ?rg"
        by (auto simp: undo_flight_def rollback_background_def split: option.split)
      then show ?thesis by (simp add: rollback_reuse_calm k)
    qed (simp_all add: undo_flight_def rollback_reuse_calm k)
    from inv_stage [OF j i f _ calm_registryD [OF this], of Failing] stage show ?thesis by simp
  qed
  then show ?thesis by (simp add: machine_inv_def fail_flight_def set_flight_def with_registry_def)
qed

lemma calm_machine_inv:
  assumes "machine_inv cfg m" "calm_registry (mc_registry m) (mc_registry m')"
    "mc_flights m' = mc_flights m" "mc_issued m' = mc_issued m" "mc_started m' = mc_started m"
  shows "machine_inv cfg m'"
  using inv_calm_registry [OF assms(1,2)] assms(3-5) by (simp add: machine_inv_def)

text \<open>The contract of a calm section, and the sections that meet it.\<close>

locale calm_section =
  fixes sec :: "recovery_registry \<Rightarrow> recovery_registry"
  assumes calm: "keyed rg \<Longrightarrow> calm_registry rg (sec rg)"
begin

lemma keeps:
  assumes "machine_inv cfg m" "mc_registry m' = sec (mc_registry m)" "mc_flights m' = mc_flights m"
    "mc_issued m' = mc_issued m" "mc_started m' = mc_started m"
  shows "machine_inv cfg m'"
  by (rule calm_machine_inv [OF assms(1) _ assms(3-5)]) (simp add: assms(2) calm inv_keyed [OF assms(1)])

end

interpretation settle: calm_section "settle_run agent r" for agent r
  by unfold_locales (rule settle_calm)

interpretation complete: calm_section "complete_run env agent own r" for env agent own r
  by unfold_locales (rule complete_calm)

interpretation accounting: calm_section "\<lambda>rg. account rg k res" for k res
  by unfold_locales (simp add: calm_same)

interpretation reconcile: calm_section "\<lambda>rg. snd (reconcile_result_of agent expected boundary fx requester rg)"
  for agent expected boundary fx requester
  by unfold_locales (rule reconcile_calm)

interpretation claim: calm_section "\<lambda>rg. snd (validate_replacement_claim cv cfg parent cl rg)" for cv cfg parent cl
  by unfold_locales (rule claim_calm)

interpretation expiry: calm_section "\<lambda>rg. snd (expire_elapsed now cfg rg)" for now cfg
  by unfold_locales (rule expire_calm)

interpretation cancellation: calm_section "cancel_suspension agent" for agent
  by unfold_locales (rule cancel_suspension_calm)

interpretation release: calm_section "\<lambda>rg. drop_record agent (cancel_pending agent rg)" for agent
  by unfold_locales (rule calm_registry_trans [OF calm_same calm_drop], simp)

interpretation gate: calm_section
  "\<lambda>rg. cancel_all (rg\<lparr>rg_admission_closed := shut, rg_draining := draining\<rparr>)" for shut draining
  by unfold_locales (simp add: calm_same)

lemma launch_inv:
  assumes inv: "machine_inv cfg m" and "agent \<notin> mc_issued m" "r \<notin> mc_issued m" "ag_id a = agent" "ag_resumes_used a = 0"
  shows "inv_of cfg ((record_of (mc_registry m))(agent \<mapsto> install_run (new_run r None None) a)) (mc_flights m)
    (insert agent (insert r (mc_issued m))) (mc_started m)"
  by (rule fresh_run_inv) (use assms in \<open>auto simp: machine_inv_def\<close>)

lemma reuse_inv:
  assumes inv: "machine_inv cfg m" and res: "reserve_record parent agent resume (mc_registry m) = Some rg"
    and a: "record_of rg agent = Some a" and r: "r \<notin> mc_issued m"
  shows "inv_of cfg ((record_of rg)(agent \<mapsto> install_run (new_run r None None) a)) (mc_flights m)
    (insert r (mc_issued m)) (mc_started m)"
proof -
  have calm: "calm_registry (mc_registry m) rg" by (rule reserve_calm [OF res inv_keyed [OF inv]])
  have j: "inv_of cfg (record_of rg) (mc_flights m) (mc_issued m) (mc_started m)" by (rule inv_calm_registry [OF inv calm])
  have ok: "record_ok cfg (mc_issued m) (mc_started m) agent a" by (rule inv_recordD [OF j a])
  then have "insert agent (insert r (mc_issued m)) = insert r (mc_issued m)" by (auto simp: record_ok_def)
  with fresh_run_inv [OF j r, of agent a] ok a show ?thesis by auto
qed

lemma step_inv: "recovery_step cfg m m' \<Longrightarrow> machine_inv cfg m \<Longrightarrow> machine_inv cfg m'"
proof (induction rule: recovery_step.induct)
  case (Launch parent m agent i identity retained ms)
  have "record_of ((put_record (install_run (new_run i None None)
        (new_agent agent identity parent (rg_generation (mc_registry m)) retained ms)) (mc_registry m))
        \<lparr>rg_slots := i # rg_slots (mc_registry m)\<rparr>) =
      (record_of (mc_registry m))(agent \<mapsto> install_run (new_run i None None)
        (new_agent agent identity parent (rg_generation (mc_registry m)) retained ms))"
    by (simp add: record_of_def put_record_def fun_eq_iff install_run_def new_agent_def)
  with launch_inv [OF Launch.prems Launch.hyps(2,3), of "new_agent agent identity parent (rg_generation (mc_registry m)) retained ms"]
  show ?case by (simp add: machine_inv_def new_agent_def)
next
  case (Reuse parent agent m rg a i)
  have "calm_registry (mc_registry m) rg" by (rule reserve_calm [OF Reuse.hyps(1) inv_keyed [OF Reuse.prems]])
  then have "ag_id a = agent" using keyedD [OF keyed_calm [OF inv_keyed [OF Reuse.prems]] Reuse.hyps(2)] by blast
  then have "record_of ((put_record (install_run (new_run i None None) a) rg)\<lparr>rg_slots := i # rg_slots rg\<rparr>) =
      (record_of rg)(agent \<mapsto> install_run (new_run i None None) a)"
    by (simp add: record_of_def put_record_def fun_eq_iff install_run_def)
  with reuse_inv [OF Reuse.prems Reuse.hyps] show ?case by (simp add: machine_inv_def)
next
  case (Converse m agent a summary ms)
  have "calm a (a\<lparr>ag_messages := ms, ag_last_summary := summary\<rparr>)" by (simp add: calm_def)
  from calm_update [OF inv_keyed [OF Converse.prems] Converse.hyps(1) this refl] show ?case
    by (intro calm_machine_inv [OF Converse.prems]) (simp_all add: with_registry_def)
next
  case (Resume env fresh m)
  then show ?case by (intro request_inv)
next
  case (Timer env m k ep failed delay rg rq)
  show ?case by (rule calm_machine_inv [OF Timer.prems]) (simp_all add: calm_same records_timer [OF Timer.hyps(4)])
next
  case (Retry env fresh m q)
  show ?case
    by (rule request_inv [OF _ Retry.hyps(1)]) (use Retry in \<open>simp_all add: machine_inv_def\<close>)
next
  case (Reserve i m f rg)
  have c: "calm_registry (mc_registry m) rg" by (rule reserve_calm [OF Reserve.hyps(4) inv_keyed [OF Reserve.prems]])
  have j: "inv_of cfg (record_of (mc_registry m)) (mc_flights m) (mc_issued m) (mc_started m)"
    using Reserve.prems by (simp add: machine_inv_def)
  have stage: "Reserved = Failing \<and> fl_stage f \<noteq> Accepted \<or> Reserved = Reserved \<and> fl_stage f = Joining" using Reserve.hyps(3) by simp
  have at: "mc_flights m ! i = f" using Reserve.hyps(2) by simp
  from inv_stage [OF j Reserve.hyps(1) at stage calm_registryD [OF c]] show ?case
    by (simp add: machine_inv_def set_flight_def with_registry_def)
next
  case (Install i m f)
  then show ?case by (intro install_flight_inv) simp_all
next
  case (Accept i m f)
  from Accept.hyps(4) obtain a where "record_of (mc_registry m) (fl_agent f) = Some a" "current_is (fl_successor f) a"
    by (auto simp: may_accept_def split: option.splits)
  moreover have "inv_of cfg (record_of (mc_registry m)) (mc_flights m) (mc_issued m) (mc_started m)"
    using Accept.prems by (simp add: machine_inv_def)
  moreover have "mc_flights m ! i = f" using Accept.hyps(2) by simp
  ultimately show ?case
    using accept_inv [OF _ Accept.hyps(1) _ Accept.hyps(3)] by (simp add: machine_inv_def set_flight_def)
next
  case (Error i m f)
  then show ?case by (intro fail_flight_inv) auto
next
  case (Handler env i m f runtime_error)
  have "machine_inv cfg (handler_runs env i f m)" by (rule handler_inv) (use Handler in simp_all)
  then show ?case by (simp add: machine_inv_def return_to_def split: option.split)
next
  case (Publish i m f)
  then show ?case by (intro publish_inv) simp_all
next
  case (Account k res m)
  from Account.prems show ?case by (rule accounting.keeps [of cfg m _ k res]) simp_all
next
  case (Settle m agent a r r')
  from Settle.prems show ?case by (rule settle.keeps [of cfg m _ agent r']) simp_all
next
  case (Complete env agent r m own)
  from Complete.prems show ?case by (rule complete.keeps [of cfg m _ env agent own r]) simp_all
next
  case (Reconcile m agent expected boundary fx requester)
  from Reconcile show ?case
    by (rule reconcile.keeps [of cfg m _ agent expected boundary fx requester]) (simp_all add: with_registry_def)
next
  case (Claim m cv parent cl)
  from Claim show ?case by (rule claim.keeps [of cfg m _ cv cfg parent cl]) (simp_all add: with_registry_def)
next
  case (Expire m now)
  from Expire show ?case by (rule expiry.keeps [of cfg m _ now cfg]) (simp_all add: with_registry_def)
next
  case (Cancel m agent a)
  from Cancel.prems show ?case by (rule cancellation.keeps [of cfg m _ agent]) (simp_all add: with_registry_def)
next
  case (Release m agent)
  from Release show ?case by (rule release.keeps [of cfg m _ agent]) (simp_all add: with_registry_def)
next
  case (Gate m shut draining)
  from Gate show ?case by (rule gate.keeps [of cfg m _ shut draining]) (simp_all add: with_registry_def)
qed

theorem reachable_inv: "reachable cfg m \<Longrightarrow> machine_inv cfg m"
proof (induction rule: reachable.induct)
  case (Start parent cap)
  show ?case
    by (simp add: machine_inv_def inv_of_def initial_machine_def empty_registry_def record_of_def resumed_def)
next
  case (Step m m')
  then show ?case by (blast intro: step_inv)
qed

end
