(* ===== verification/Recovery_Log.thy ===== *)
theory Recovery_Log
  imports Recovery_Inv
begin

text \<open>
  The milestones of an episode.  Whatever sections interleave, an episode reports an event id once
  and ends once: at most one of its lines says that it succeeded or was exhausted.
\<close>

definition terminal :: "milestone \<Rightarrow> bool" where
  "terminal ev \<longleftrightarrow> ev = Ev_Success \<or> ev = Ev_Exhaustion"

definition log_ok :: "recovery_registry \<Rightarrow> bool" where
  "log_ok rg \<longleftrightarrow>
     (\<forall>k ep. rg_episodes rg k = Some ep \<longrightarrow> k < rg_fresh rg) \<and>
     (\<forall>l \<in> set (rg_log rg). \<exists>ep. rg_episodes rg (lg_episode l) = Some ep \<and> lg_event_id l \<in> set (ep_emitted ep) \<and>
        (terminal (lg_event l) \<longrightarrow> \<not> ep_active ep)) \<and>
     distinct (map (\<lambda>l. (lg_episode l, lg_event_id l)) (rg_log rg)) \<and>
     distinct (map lg_episode (filter (\<lambda>l. terminal (lg_event l)) (rg_log rg)))"

lemma log_ok_frame:
  "log_ok rg \<Longrightarrow> rg_episodes rg' = rg_episodes rg \<Longrightarrow> rg_fresh rg' = rg_fresh rg \<Longrightarrow> rg_log rg' = rg_log rg \<Longrightarrow> log_ok rg'"
  by (simp add: log_ok_def)

text \<open>One episode moves on, with at most one line.\<close>

lemma log_ok_move:
  assumes ok: "log_ok rg" and ep: "rg_episodes rg k = Some ep"
    and eps: "rg_episodes rg' = (rg_episodes rg)(k \<mapsto> ep')" "rg_fresh rg' = rg_fresh rg"
    and grow: "set (ep_emitted ep) \<subseteq> set (ep_emitted ep')" "ep_active ep' \<longrightarrow> ep_active ep"
    and log: "rg_log rg' = rg_log rg \<or>
      (\<exists>l. rg_log rg' = rg_log rg @ [l] \<and> lg_episode l = k \<and> lg_event_id l \<notin> set (ep_emitted ep) \<and>
         lg_event_id l \<in> set (ep_emitted ep') \<and> (terminal (lg_event l) \<longrightarrow> ep_active ep \<and> \<not> ep_active ep'))"
  shows "log_ok rg'"
proof -
  have old: "\<exists>ep. rg_episodes rg' (lg_episode l) = Some ep \<and> lg_event_id l \<in> set (ep_emitted ep) \<and>
      (terminal (lg_event l) \<longrightarrow> \<not> ep_active ep)" if "l \<in> set (rg_log rg)" for l
    using ok that ep eps(1) grow by (cases "lg_episode l = k") (fastforce simp: log_ok_def)+
  have fresh: "\<forall>j e. rg_episodes rg' j = Some e \<longrightarrow> j < rg_fresh rg'"
    using ok ep eps by (auto simp: log_ok_def)
  from log show ?thesis
  proof (elim disjE exE conjE)
    assume "rg_log rg' = rg_log rg"
    with ok old fresh show ?thesis by (simp add: log_ok_def)
  next
    fix l
    assume l: "rg_log rg' = rg_log rg @ [l]" "lg_episode l = k" "lg_event_id l \<notin> set (ep_emitted ep)"
      "lg_event_id l \<in> set (ep_emitted ep')" "terminal (lg_event l) \<longrightarrow> ep_active ep \<and> \<not> ep_active ep'"
    have new: "(lg_episode l, lg_event_id l) \<notin> (\<lambda>l. (lg_episode l, lg_event_id l)) ` set (rg_log rg)"
      using ok ep l(2,3) by (fastforce simp: log_ok_def)
    have "terminal (lg_event l) \<Longrightarrow> x \<in> set (rg_log rg) \<Longrightarrow> terminal (lg_event x) \<Longrightarrow> lg_episode x \<noteq> k" for x
      using ok ep l(5) by (fastforce simp: log_ok_def)
    then have final: "terminal (lg_event l) \<longrightarrow> k \<notin> lg_episode ` {x \<in> set (rg_log rg). terminal (lg_event x)}"
      by blast
    have "\<exists>ep. rg_episodes rg' (lg_episode l) = Some ep \<and> lg_event_id l \<in> set (ep_emitted ep) \<and>
        (terminal (lg_event l) \<longrightarrow> \<not> ep_active ep)"
      using l eps(1) by auto
    moreover have "distinct (map lg_episode (filter (\<lambda>l. terminal (lg_event l)) (rg_log rg')))"
      using ok final l(1,2) by (simp add: log_ok_def)
    moreover have "distinct (map (\<lambda>l. (lg_episode l, lg_event_id l)) (rg_log rg'))"
      using ok new l(1) by (simp add: log_ok_def)
    ultimately show ?thesis using old fresh l(1) by (auto simp: log_ok_def)
  qed
qed

lemma put_ok:
  "log_ok rg \<Longrightarrow> rg_episodes rg k = Some ep \<Longrightarrow> set (ep_emitted ep) \<subseteq> set (ep_emitted ep') \<Longrightarrow>
   (ep_active ep' \<longrightarrow> ep_active ep) \<Longrightarrow> log_ok (put_episode k ep' rg)"
  by (rule log_ok_move [of rg k ep _ ep']) (auto simp: put_episode_def)

lemma emit_ok: "log_ok rg \<Longrightarrow> \<not> terminal ev \<Longrightarrow> log_ok (emit k ev i run d rg)"
proof (cases "rg_episodes rg k")
  case (Some ep)
  assume ok: "log_ok rg" and ev: "\<not> terminal ev"
  show ?thesis
  proof (cases "i \<in> set (ep_emitted ep)")
    case True
    with ok Some show ?thesis by (simp add: emit_def)
  next
    case False
    show ?thesis
      by (rule log_ok_move [OF ok Some, of _ "ep\<lparr>ep_emitted := i # ep_emitted ep\<rparr>"])
        (use Some False ev in \<open>auto simp: emit_def put_episode_def\<close>)
  qed
qed (simp add: emit_def)

lemma stop_ok: "log_ok rg \<Longrightarrow> log_ok (stop_episode k reason force rg)"
proof (cases "rg_episodes rg k")
  case (Some ep)
  assume ok: "log_ok rg"
  let ?i = "''exhaustion:'' @ ep_agent ep @ '':'' @ ep_chain ep"
  let ?off = "ep\<lparr>ep_active := False, ep_timer := None, ep_scheduled := None\<rparr>"
  show ?thesis
  proof (cases "ep_active ep")
    case False
    with ok Some show ?thesis by (simp add: stop_episode_def)
  next
    case True
    show ?thesis
    proof (cases "(case force of None \<Rightarrow> ep_driven ep | Some b \<Rightarrow> b) \<and> ?i \<notin> set (ep_emitted ep)")
      case yes: True
      show ?thesis
        by (rule log_ok_move [OF ok Some, of _ "?off\<lparr>ep_emitted := ?i # ep_emitted ep\<rparr>"])
          (use Some True yes in \<open>auto simp: stop_episode_def emit_def put_episode_def Let_def\<close>)
    next
      case False
      show ?thesis
        by (rule log_ok_move [OF ok Some, of _ ?off])
          (use Some True False in \<open>auto simp: stop_episode_def emit_def put_episode_def Let_def\<close>)
    qed
  qed
qed (simp add: stop_episode_def)

section \<open>The controller\<close>

lemma open_ok: "log_ok rg \<Longrightarrow> open_episode env a r rg = (k, rg') \<Longrightarrow> log_ok rg'"
proof -
  assume ok: "log_ok rg"
  have fresh: "log_ok ((put_episode (rg_fresh rg) e rg)\<lparr>rg_fresh := rg_fresh rg + 1, rg_index := ix\<rparr>)" for e ix
  proof -
    have "\<forall>l \<in> set (rg_log rg). lg_episode l \<noteq> rg_fresh rg" using ok by (fastforce simp: log_ok_def)
    with ok show ?thesis by (auto simp: log_ok_def put_episode_def less_Suc_eq)
  qed
  have "log_ok (snd (open_episode env a r rg))"
    using ok fresh by (simp add: open_episode_def Let_def split: option.split)
  then show "open_episode env a r rg = (k, rg') \<Longrightarrow> log_ok rg'" by simp
qed

lemma arm_ok: "log_ok rg \<Longrightarrow> log_ok (arm_or_stop env r k av rg)"
proof (cases "rg_episodes rg k")
  case (Some ep)
  assume ok: "log_ok rg"
  have "log_ok (arm_timer env r k delay rg)" for delay
    unfolding arm_timer_def Some option.case
    by (rule emit_ok) (auto intro: put_ok [OF ok Some] simp: terminal_def)
  with ok Some show ?thesis by (simp add: arm_or_stop_def Let_def stop_ok)
qed (simp add: arm_or_stop_def)

lemma resolve_ok: "log_ok rg \<Longrightarrow> resolve_lineage_key a e rg = (key, rg') \<Longrightarrow> log_ok rg'"
  by (erule log_ok_frame) (auto simp: resolve_lineage_key_def Let_def split: prod.splits if_splits)

lemma refusal_ok:
  "log_ok rg \<Longrightarrow> rg_episodes rg k = Some ep \<Longrightarrow>
   log_ok (case refused_late env a r ep n of
     Some (reason, report) \<Rightarrow> stop_episode k reason (Some report) rg
   | None \<Rightarrow> arm_or_stop env r k av (put_episode k (set_pending e key ep) rg))"
  by (auto split: option.split intro!: stop_ok arm_ok put_ok simp: set_pending_def)

lemma episodes_resolve: "resolve_lineage_key a e rg = (key, rg') \<Longrightarrow> rg_episodes rg' = rg_episodes rg"
  by (auto simp: resolve_lineage_key_def Let_def split: prod.splits if_splits)

lemma on_failure_ok: "log_ok rg \<Longrightarrow> log_ok (on_failure env a r rg)"
proof -
  assume ok: "log_ok rg"
  obtain k rg1 where o: "open_episode env a r rg = (k, rg1)" by force
  have ok1: "log_ok rg1" by (rule open_ok [OF ok o])
  define rg2 where "rg2 = (case ru_failure r of
      Some e \<Rightarrow> emit k Ev_Failure (en_event_id e) (ru_id r) (''class='' @ class_value (ef_class (en_failure e))) rg1
    | None \<Rightarrow> emit k Ev_Failure (''failure-event:'' @ ag_id a @ '':'' @ ru_id r) (ru_id r) ''class=unavailable'' rg1)"
  have ok2: "log_ok rg2" using ok1 by (auto simp: rg2_def terminal_def intro: emit_ok split: option.split)
  have res: "on_failure env a r rg = (case (rg_episodes rg2 k, ru_failure r) of
      (None, _) \<Rightarrow> rg2
    | (Some ep, None) \<Rightarrow> stop_episode k ''no_failure_envelope'' (Some (ep_driven ep)) rg2
    | (Some ep, Some e) \<Rightarrow>
        (case refused_early (rv_config env) a e ep of
           Some (reason, report) \<Rightarrow> stop_episode k reason (Some report) rg2
         | None \<Rightarrow>
             (case resolve_lineage_key a e rg2 of (key, rg3) \<Rightarrow>
                case refused_late env a r ep (int_get (rg_lineage rg3) key) of
                  Some (reason, report) \<Rightarrow> stop_episode k reason (Some report) rg3
                | None \<Rightarrow>
                    arm_or_stop env r k (available_now env (ag_id a)) (put_episode k (set_pending e key ep) rg3))))"
    unfolding on_failure_def o prod.case rg2_def [symmetric] Let_def ..
  show ?thesis
  proof (cases "rg_episodes rg2 k")
    case None
    then show ?thesis by (simp add: res ok2)
  next
    case ep: (Some ep)
    show ?thesis
    proof (cases "ru_failure r")
      case None
      then show ?thesis by (simp add: res ep ok2 stop_ok)
    next
      case e: (Some e)
      obtain key rg3 where k3: "resolve_lineage_key a e rg2 = (key, rg3)" by force
      have "log_ok rg3" "rg_episodes rg3 k = Some ep"
        using resolve_ok [OF ok2 k3] episodes_resolve [OF k3] ep by simp_all
      then show ?thesis
        by (simp add: res ep e k3 refusal_ok ok2 stop_ok split: option.split prod.split)
    qed
  qed
qed

lemma on_success_ok: "log_ok rg \<Longrightarrow> log_ok (on_success a r rg)"
proof (cases "episode_at rg (ag_id a)")
  case (Some kep)
  assume ok: "log_ok rg"
  obtain k ep where kep: "kep = (k, ep)" by force
  then have ep: "rg_episodes rg k = Some ep" using Some by (auto simp: episode_at_def split: option.splits)
  let ?rg1 = "put_episode k (ep\<lparr>ep_timer := None\<rparr>) rg"
  let ?i = "''success:'' @ ep_agent ep @ '':'' @ ep_chain ep"
  have ok1: "log_ok ?rg1" by (rule put_ok [OF ok ep]) auto
  show ?thesis
  proof (cases "\<not> ep_active ep \<or> ru_resumed_from r = None \<and> ru_chain r \<noteq> Some (ep_chain ep)")
    case True
    with Some kep ok ok1 show ?thesis by (auto simp: on_success_def stop_ok)
  next
    case False
    then have live: "ep_active ep" "\<not> (ru_resumed_from r = None \<and> ru_chain r \<noteq> Some (ep_chain ep))" by auto
    show ?thesis
    proof (cases "?i \<in> set (ep_emitted ep)")
      case True
      show ?thesis
        by (rule log_ok_move [OF ok ep, of _ "ep\<lparr>ep_timer := None, ep_active := False, ep_scheduled := None\<rparr>"])
          (use Some kep live True in \<open>auto simp: on_success_def Let_def emit_def put_episode_def\<close>)
    next
      case False
      show ?thesis
        by (rule log_ok_move [OF ok ep,
              of _ "ep\<lparr>ep_timer := None, ep_emitted := ?i # ep_emitted ep, ep_active := False, ep_scheduled := None\<rparr>"])
          (use Some kep live False in \<open>auto simp: on_success_def Let_def emit_def put_episode_def\<close>)
    qed
  qed
qed (simp add: on_success_def)

lemma observe_ok: "log_ok rg \<Longrightarrow> log_ok (observe_run env a r rg)"
  by (simp add: observe_run_def on_failure_ok on_success_ok split: run_status.split)

lemma episode_atD: "episode_at rg i = Some (k, ep) \<Longrightarrow> rg_episodes rg k = Some ep"
  by (auto simp: episode_at_def split: option.splits)

lemma cancel_pending_ok: "log_ok rg \<Longrightarrow> log_ok (cancel_pending i rg)"
  by (simp add: cancel_pending_def stop_ok split: option.split prod.split)

lemma cancel_all_ok: "log_ok rg \<Longrightarrow> log_ok (cancel_all rg)"
proof -
  have "log_ok rg \<Longrightarrow> log_ok (fold (\<lambda>k. stop_episode k reason force) ks rg)" for ks reason force
    by (induction ks arbitrary: rg) (simp_all add: stop_ok)
  then show "log_ok rg \<Longrightarrow> log_ok (cancel_all rg)" by (simp add: cancel_all_def)
qed

lemma stand_down_ok: "log_ok rg \<Longrightarrow> log_ok (stand_down_schedule i rg)"
  by (auto simp: stand_down_schedule_def split: option.split dest!: episode_atD intro: put_ok)

lemma rearm_ok: "log_ok rg \<Longrightarrow> log_ok (rearm_schedule env i rg)"
  by (simp add: rearm_schedule_def stop_ok arm_ok split: option.split prod.split)

lemma timer_check_ok:
  "log_ok rg \<Longrightarrow> rg_episodes rg k = Some ep \<Longrightarrow> log_ok (fst (timer_check env k failed ep a rg))"
  by (auto simp: timer_check_def Let_def stop_ok intro: put_ok split: option.split)

lemma timer_wakes_ok: "log_ok rg \<Longrightarrow> timer_wakes env k failed rg = (rg', rq) \<Longrightarrow> log_ok rg'"
proof -
  assume ok: "log_ok rg"
  have "log_ok (fst (timer_wakes env k failed rg))"
  proof (cases "rg_episodes rg k")
    case (Some ep)
    have "log_ok (put_episode k (ep\<lparr>ep_timer := None\<rparr>) rg)" by (rule put_ok [OF ok Some]) auto
    moreover have "rg_episodes (put_episode k (ep\<lparr>ep_timer := None\<rparr>) rg) k = Some (ep\<lparr>ep_timer := None\<rparr>)"
      by (simp add: put_episode_def)
    ultimately show ?thesis
      using Some by (simp add: timer_wakes_def Let_def stop_ok timer_check_ok split: option.split)
  qed (simp add: timer_wakes_def ok)
  then show "timer_wakes env k failed rg = (rg', rq) \<Longrightarrow> log_ok rg'" by simp
qed

lemma admission_ok: "log_ok rg \<Longrightarrow> log_ok (account_admission k res rg)"
proof (cases "rg_episodes rg k")
  case (Some ep)
  assume ok: "log_ok rg"
  have c: "log_ok (count_admission ep rg)" by (rule log_ok_frame [OF ok]) (simp_all add: count_admission_def)
  have ce: "rg_episodes (count_admission ep rg) k = Some ep" using Some by (simp add: count_admission_def)
  show ?thesis
    using Some ok by (auto simp: account_admission_def Let_def terminal_def stop_ok split: resume_outcome.split
        intro!: emit_ok intro: put_ok [OF ok Some] put_ok [OF c ce])
qed (simp add: account_admission_def)

section \<open>The sections of the machine\<close>

text \<open>A section that may report milestones, and the sections of the machine.\<close>

locale reporting_section =
  fixes sec :: "recovery_registry \<Rightarrow> recovery_registry"
  assumes reports: "log_ok rg \<Longrightarrow> log_ok (sec rg)"
begin

lemma keeps_log: "log_ok (mc_registry m) \<Longrightarrow> mc_registry m' = sec (mc_registry m) \<Longrightarrow> log_ok (mc_registry m')"
  by (simp add: reports)

end

definition log_view :: "recovery_registry \<Rightarrow> (nat \<Rightarrow> episode option) \<times> nat \<times> log_line list" where
  "log_view rg = (rg_episodes rg, rg_fresh rg, rg_log rg)"

lemma log_ok_view: "log_ok rg \<Longrightarrow> log_view rg' = log_view rg \<Longrightarrow> log_ok rg'"
  by (rule log_ok_frame) (auto simp: log_view_def)

lemma view_records [simp]: "log_view (put_record a rg) = log_view rg" "log_view (drop_record i rg) = log_view rg"
  "log_view (rg\<lparr>rg_slots := s\<rparr>) = log_view rg" "log_view (release_slot i rg) = log_view rg" "log_view (expire_record i rg) = log_view rg"
  by (simp_all add: log_view_def put_record_def drop_record_def release_slot_def expire_record_def)

lemma view_make_room: "make_room cap needed self rg = (ok, rg') \<Longrightarrow> log_view rg' = log_view rg"
proof (induction cap needed self rg rule: make_room.induct)
  case (1 cap needed self rg)
  from "1.prems" "1.IH" show ?case
    by (simp add: make_room.simps [of cap needed self rg] split: if_splits option.splits)
qed

lemma view_suspend: "suspend_after_failure env i r rg = (ok, rg') \<Longrightarrow> log_view rg' = log_view rg"
proof -
  have adm: "log_view (snd (suspension_admit env a rg)) = log_view rg" for a
    by (auto simp: suspension_admit_def Let_def split: prod.split dest: view_make_room)
  have "log_view (snd (suspend_after_failure env i r rg)) = log_view rg"
    using adm by (auto simp: suspend_after_failure_def split: option.split prod.split bool.split)
      (metis snd_conv)+
  then show "suspend_after_failure env i r rg = (ok, rg') \<Longrightarrow> log_view rg' = log_view rg" by simp
qed

lemma complete_ok: "log_ok rg \<Longrightarrow> log_ok (complete_run env i own r rg)"
proof (cases "record_of rg i")
  case (Some a)
  assume ok: "log_ok rg"
  obtain b rg1 where s: "suspend_after_failure env i r rg = (b, rg1)" by force
  have ok1: "log_ok rg1" by (rule log_ok_view [OF ok view_suspend [OF s]])
  have c: "close_unretained a rg1 = Some rg2 \<Longrightarrow> log_ok rg2" for rg2
    by (auto simp: close_unretained_def intro: log_ok_view [OF ok1] split: if_splits)
  have p: "log_ok (put_record x rg1)" for x by (rule log_ok_view [OF ok1]) simp
  show ?thesis
    using Some ok ok1 c p by (simp add: complete_run_def s observe_ok Let_def split: option.split bool.split)
qed (simp add: complete_run_def observe_ok)

lemma log_ok_records [simp]: "log_ok (put_record a rg) \<longleftrightarrow> log_ok rg" "log_ok (drop_record i rg) \<longleftrightarrow> log_ok rg"
  "log_ok (rg\<lparr>rg_slots := s\<rparr>) \<longleftrightarrow> log_ok rg" "log_ok (release_slot i rg) \<longleftrightarrow> log_ok rg"
  "log_ok (expire_record i rg) \<longleftrightarrow> log_ok rg"
  "log_ok (rg\<lparr>rg_admission_closed := c, rg_draining := d\<rparr>) \<longleftrightarrow> log_ok rg"
  by (simp_all add: log_ok_def put_record_def drop_record_def release_slot_def expire_record_def)

lemma view_settle: "log_view (settle_run i r rg) = log_view rg"
  by (auto simp: settle_run_def Let_def split: option.split)

lemma view_rollback_reuse [simp]: "log_view (rollback_reuse i rg) = log_view rg"
  by (simp add: rollback_reuse_def split: option.split)

lemma view_undo: "log_view (undo_flight f rg) = log_view rg"
  by (simp add: undo_flight_def rollback_background_def split: stage.split option.split)

lemma view_publish: "log_view (publish_resume i rg) = log_view rg"
  by (simp add: publish_resume_def split: option.split)

lemma view_reserve: "reserve_record parent i resume rg = Some rg' \<Longrightarrow> log_view rg' = log_view rg"
  by (auto simp: reserve_record_def split: if_splits option.splits)

lemma view_expire: "log_view (snd (expire_elapsed now cfg rg)) = log_view rg"
proof -
  have "log_view (fold expire_record xs rg) = log_view rg" for xs by (induction xs arbitrary: rg) simp_all
  then show ?thesis by (simp add: expire_elapsed_def Let_def)
qed

lemma view_reconcile: "log_view (snd (reconcile_result_of i expected boundary fx requester rg)) = log_view rg"
  by (simp add: reconcile_result_of_def split: option.split prod.split)

lemma invalidate_ok: "log_ok rg \<Longrightarrow> log_ok (invalidate_recovery i rg)"
  by (simp add: invalidate_recovery_def Let_def cancel_pending_ok split: option.split)

lemma claim_ok: "log_ok rg \<Longrightarrow> log_ok (snd (validate_replacement_claim cv cfg parent cl rg))"
proof -
  assume ok: "log_ok rg"
  from claim_effect [of cv cfg parent cl rg] show ?thesis
  proof (elim disjE exE)
    fix package a
    assume eq: "snd (validate_replacement_claim cv cfg parent cl rg) = consume_replacement package (invalidate_recovery a rg)"
    have "log_view (consume_replacement package rg') = log_view rg'" for rg'
      by (simp add: consume_replacement_def log_view_def)
    from log_ok_view [OF invalidate_ok [OF ok] this] show ?thesis unfolding eq .
  qed (simp add: ok)
qed

lemma resume_ok: "log_ok rg \<Longrightarrow> resume_agent env i expected key requester override fresh rg = (reply, rg') \<Longrightarrow> log_ok rg'"
proof -
  assume ok: "log_ok rg" and r: "resume_agent env i expected key requester override fresh rg = (reply, rg')"
  show ?thesis
  proof (cases "\<exists>ad. reply = Admitted ad")
    case True
    then obtain ad where "resume_agent env i expected key requester override fresh rg = (Admitted ad, rg')" using r by blast
    then obtain a op where rg': "rg' = commit_resume op a rg" by (rule resume_agent_admits)
    show ?thesis unfolding rg' by (simp add: commit_resume_def Let_def stand_down_ok ok)
  qed (use ok resume_agent_refuses [OF r] in auto)
qed

lemma request_ok:
  "log_ok (mc_registry m) \<Longrightarrow> log_ok (mc_registry (request_resume env i expected key requester override fresh auto m))"
  by (auto simp: request_resume_def after_admission_def return_to_def dest: resume_ok
      split: prod.split resume_reply.split option.split)

lemma rollback_ok: "log_ok rg \<Longrightarrow> log_ok (rollback_resume env ad t rg)"
  by (simp add: rollback_resume_def Let_def rearm_ok split: option.split)

interpretation settle: reporting_section "settle_run i r" for i r
  by unfold_locales (erule log_ok_view, rule view_settle)

interpretation complete: reporting_section "complete_run env i own r" for env i own r
  by unfold_locales (rule complete_ok)

interpretation accounting: reporting_section "\<lambda>rg. account rg k res" for k res
  by unfold_locales (simp add: account_def capacity_rejected_def stop_ok admission_ok split: option.split)

interpretation claim: reporting_section "\<lambda>rg. snd (validate_replacement_claim cv cfg parent cl rg)" for cv cfg parent cl
  by unfold_locales (rule claim_ok)

interpretation cancellation: reporting_section "cancel_suspension i" for i
  by unfold_locales (simp add: cancel_suspension_def cancel_pending_ok)

interpretation gate: reporting_section "\<lambda>rg. cancel_all (rg\<lparr>rg_admission_closed := shut, rg_draining := draining\<rparr>)"
  for shut draining
  by unfold_locales (rule cancel_all_ok, simp)

lemmas quiet_sections =
  log_ok_view [OF _ view_settle] log_ok_view [OF _ view_undo] log_ok_view [OF _ view_publish]
  log_ok_view [OF _ view_expire] log_ok_view [OF _ view_reconcile]

lemma step_log: "recovery_step cfg m m' \<Longrightarrow> log_ok (mc_registry m) \<Longrightarrow> log_ok (mc_registry m')"
proof (induction rule: recovery_step.induct)
  case (Reuse parent agent m rg a i)
  then show ?case using log_ok_view [OF Reuse.prems view_reserve [OF Reuse.hyps(1)]] by simp
next
  case (Resume env fresh m)
  then show ?case by (intro request_ok)
next
  case (Timer env m k ep failed delay rg rq)
  then show ?case using timer_wakes_ok by simp
next
  case (Retry env fresh m q)
  then show ?case by (intro request_ok) simp
next
  case (Reserve i m f rg)
  then show ?case using log_ok_view [OF Reserve.prems view_reserve [OF Reserve.hyps(4)]] by (simp add: set_flight_def with_registry_def)
next
  case (Install i m f)
  then show ?case by (simp add: install_flight_def set_flight_def with_registry_def split: option.split)
next
  case (Error i m f)
  then show ?case by (simp add: fail_flight_def set_flight_def with_registry_def quiet_sections)
next
  case (Handler env i m f runtime_error)
  then show ?case
    by (simp add: handler_runs_def drop_flight_def with_registry_def return_to_def rollback_ok split: option.split)
next
  case (Publish i m f)
  then show ?case
    by (simp add: publish_flight_def return_to_def drop_flight_def with_registry_def quiet_sections Let_def split: option.split)
next
  case (Account k res m)
  then show ?case by (simp add: accounting.reports)
next
  case (Complete env agent r m own)
  then show ?case by (simp add: complete.reports)
next
  case (Claim m cv parent cl)
  then show ?case by (simp add: with_registry_def claim.reports)
next
  case (Cancel m agent a)
  then show ?case by (simp add: with_registry_def cancellation.reports)
next
  case (Release m agent)
  then show ?case by (simp add: with_registry_def cancel_pending_ok)
next
  case (Gate m shut draining)
  then show ?case by (simp add: with_registry_def gate.reports)
qed (simp_all add: with_registry_def set_flight_def quiet_sections)

lemma reachable_log: "reachable cfg m \<Longrightarrow> log_ok (mc_registry m)"
proof (induction rule: reachable.induct)
  case (Start parent cap)
  show ?case by (simp add: log_ok_def initial_machine_def empty_registry_def)
next
  case (Step m m')
  then show ?case by (blast intro: step_log)
qed

end
