(* ===== verification/Recovery_Samples.thy ===== *)
theory Recovery_Samples
  imports Recovery_Machine
begin

text \<open>
  Concrete policies, failures and machines, at which the properties of the recovery of subagents are
  applied.
\<close>

section \<open>A policy and a failure\<close>

definition sample_config :: recovery_config where
  "sample_config =
     \<lparr>rc_enabled = True, rc_auto_max = 2, rc_resumes_max = 2, rc_cooldowns = [30, 60], rc_jitter = 0, rc_deadline = 600,
      rc_eligible = [El_Timeout, El_Connection], rc_ttl = 900, rc_max_suspended = 3, rc_max_bytes = 500,
      rc_concurrency = 2, rc_fallback = \<lparr>fc_allowed = [], fc_max_price = None\<rparr>, rc_replacements_max = 1\<rparr>"

definition sample_env :: "rat \<Rightarrow> recovery_env" where
  "sample_env t =
     \<lparr>rv_clock = t, rv_epoch = t, rv_draw = 1 / 2, rv_config = sample_config, rv_exclusions = (\<lambda>_. None),
      rv_tombstone = (\<lambda>_. None), rv_show = (\<lambda>_. ''s''), rv_other_bytes = (\<lambda>_. 0)\<rparr>"

definition stalled_failure :: envelope_failure where
  "stalled_failure =
     \<lparr>ef_class = Provider_Stall, ef_cause = Some Failures.Timeout, ef_phase = Llm_Call, ef_exception_type = None,
      ef_message = None, ef_confidence = Measured, ef_evidence = [], ef_fingerprint = None, ef_version = ''1'',
      ef_provenance = [], ef_captured = True\<rparr>"

definition sample_envelope :: "string \<Rightarrow> string \<Rightarrow> eligibility \<Rightarrow> string option \<Rightarrow> failure_envelope" where
  "sample_envelope agent i elig boundary =
     \<lparr>en_event_id = ''event-'' @ i, en_agent_id = agent, en_run_id = i, en_package = None, en_predecessor = None,
      en_chain = ''chain-'' @ i, en_observed_at = 0, en_failure = stalled_failure,
      en_deployment = \<lparr>ed_configured = None, ed_base_model = None, ed_provider = None, ed_wire_name = None,
        ed_endpoint = Some ''https://a.example''\<rparr>,
      en_request = \<lparr>er_call_id = None, er_transport = None, er_elapsed = None, er_budget = None, er_exhaustion = None,
        er_request_id = None, er_state = None, er_retry_after = None, er_response_started = None, er_semantic = None\<rparr>,
      en_progress = \<lparr>ep_turns_used = None, ep_state = No_Progress, ep_checkpoint = None, ep_boundary = boundary,
        ep_touched_paths = [], ep_artifacts = [], ep_effects = Effects_Settled, ep_last_progress = None\<rparr>,
      en_recovery = \<lparr>ec_eligibility = elig, ec_reasons = [], ec_resumes_used = 0, ec_expires_at = None\<rparr>\<rparr>"

definition failed_run :: "string \<Rightarrow> string \<Rightarrow> eligibility \<Rightarrow> string option \<Rightarrow> run" where
  "failed_run agent i elig boundary =
     (new_run i None None)\<lparr>ru_status := Run_Failed, ru_failure := Some (sample_envelope agent i elig boundary)\<rparr>"

definition asked :: llm_message where
  "asked = \<lparr>ident = 0, role_of = User, content = Some ''go on'', injected = False, tool_calls = None, tool_call_id = None,
     tool_result = None, message_id = None, context_boundary = None, injection_origin = None, archive_ref = None\<rparr>"

section \<open>A machine that resumes an agent\<close>

definition start_machine :: machine where
  "start_machine = initial_machine ''main'' 4"

definition launched_machine :: machine where
  "launched_machine = start_machine\<lparr>
     mc_registry := (put_record (install_run (new_run ''r1'' None None)
         (new_agent ''agent-1'' ''worker'' ''main'' (rg_generation (mc_registry start_machine)) False [asked]))
       (mc_registry start_machine))\<lparr>rg_slots := ''r1'' # rg_slots (mc_registry start_machine)\<rparr>,
     mc_issued := insert ''agent-1'' (insert ''r1'' (mc_issued start_machine))\<rparr>"

definition first_failure :: run where
  "first_failure = failed_run ''agent-1'' ''r1'' Eligible None"

definition settled_machine :: machine where
  "settled_machine = launched_machine\<lparr>
     mc_registry := settle_run ''agent-1'' first_failure (mc_registry launched_machine),
     mc_settled := mc_settled launched_machine @ [(''agent-1'', first_failure)]\<rparr>"

definition suspended_machine :: machine where
  "suspended_machine = settled_machine\<lparr>
     mc_registry := complete_run (sample_env 1) ''agent-1'' (the (record_of (mc_registry settled_machine) ''agent-1'')) first_failure (mc_registry settled_machine),
     mc_settled := remove1 (''agent-1'', first_failure) (mc_settled settled_machine)\<rparr>"

definition resuming_machine :: machine where
  "resuming_machine =
     request_resume (sample_env 10) ''agent-1'' ''r1'' ''k'' ''main'' False ''r2'' None suspended_machine"

definition sample_flight :: flight where
  "sample_flight = mc_flights resuming_machine ! 0"

definition reserved_machine :: machine where
  "reserved_machine = set_flight 0 (sample_flight\<lparr>fl_stage := Reserved\<rparr>)
     (with_registry resuming_machine (the (reserve_record ''main'' ''agent-1'' True (mc_registry resuming_machine))))"

definition installed_machine :: machine where
  "installed_machine = install_flight 0 (mc_flights reserved_machine ! 0) reserved_machine"

definition accepted_machine :: machine where
  "accepted_machine =
     (let f = mc_flights installed_machine ! 0
      in set_flight 0 (f\<lparr>fl_stage := Accepted\<rparr>)
           (installed_machine\<lparr>mc_started := (fl_agent f, fl_failed f) # mc_started installed_machine\<rparr>))"

lemma launched_reachable: "reachable sample_config launched_machine"
proof -
  have "reachable sample_config start_machine" unfolding start_machine_def by (rule reachable.Start)
  then show ?thesis unfolding launched_machine_def
    by (rule reachable.Step [OF _ recovery_step.Launch])
      (simp_all add: start_machine_def initial_machine_def empty_registry_def admission_open_def)
qed

lemma settled_reachable: "reachable sample_config settled_machine"
proof -
  let ?a = "install_run (new_run ''r1'' None None) (new_agent ''agent-1'' ''worker'' ''main'' 0 False [asked])"
  have "record_of (mc_registry launched_machine) ''agent-1'' = Some ?a"
    by (simp add: launched_machine_def start_machine_def initial_machine_def empty_registry_def record_of_def
        put_record_def install_run_def new_agent_def)
  moreover have "ag_current ?a = Some (new_run ''r1'' None None)" by (simp add: install_run_def)
  moreover have "accepted_run (ru_id (new_run ''r1'' None None)) launched_machine"
    by (simp add: accepted_run_def launched_machine_def start_machine_def initial_machine_def)
  moreover have "ru_status first_failure \<noteq> Run_Running" "ru_id first_failure = ru_id (new_run ''r1'' None None)"
    "ru_resumed_from first_failure = ru_resumed_from (new_run ''r1'' None None)"
    "ru_chain first_failure = ru_chain (new_run ''r1'' None None)"
    by (simp_all add: first_failure_def failed_run_def new_run_def)
  ultimately show ?thesis unfolding settled_machine_def
    by (intro reachable.Step [OF launched_reachable recovery_step.Settle])
qed

lemma suspended_reachable: "reachable sample_config suspended_machine"
  unfolding suspended_machine_def
proof (rule reachable.Step [OF settled_reachable recovery_step.Complete])
  show "ag_id (the (record_of (mc_registry settled_machine) ''agent-1'')) = ''agent-1''" by code_simp
qed (simp_all add: sample_env_def settled_machine_def)

lemma resuming_reachable: "reachable sample_config resuming_machine"
proof -
  have "''r2'' \<notin> mc_issued suspended_machine"
    by (simp add: suspended_machine_def settled_machine_def launched_machine_def start_machine_def initial_machine_def)
  then show ?thesis unfolding resuming_machine_def
    by (intro reachable.Step [OF suspended_reachable recovery_step.Resume]) (simp_all add: sample_env_def)
qed

lemma resuming_flight:
  "length (mc_flights resuming_machine) = 1" "fl_stage sample_flight = Joining" "fl_agent sample_flight = ''agent-1''"
  "ad_parent (fl_admission sample_flight) = ''main''"
  "reserve_record ''main'' ''agent-1'' True (mc_registry resuming_machine) \<noteq> None"
  by code_simp+

lemma reserved_reachable: "reachable sample_config reserved_machine"
proof -
  obtain rg where rg: "reserve_record ''main'' ''agent-1'' True (mc_registry resuming_machine) = Some rg"
    using resuming_flight(5) by blast
  have "recovery_step sample_config resuming_machine
      (set_flight 0 (sample_flight\<lparr>fl_stage := Reserved\<rparr>) (with_registry resuming_machine rg))"
    by (rule recovery_step.Reserve) (use resuming_flight rg in \<open>simp_all add: sample_flight_def\<close>)
  then show ?thesis using resuming_reachable rg by (auto simp: reserved_machine_def intro: reachable.Step)
qed

lemma reserved_flight:
  "length (mc_flights reserved_machine) = 1" "fl_stage (mc_flights reserved_machine ! 0) = Reserved"
  by code_simp+

lemma installed_reachable: "reachable sample_config installed_machine"
proof -
  have "recovery_step sample_config reserved_machine installed_machine"
    unfolding installed_machine_def by (rule recovery_step.Install) (simp_all add: reserved_flight)
  with reserved_reachable show ?thesis by (rule reachable.Step)
qed

lemma installed_flight:
  "length (mc_flights installed_machine) = 1" "fl_stage (mc_flights installed_machine ! 0) = Installed"
  "may_accept (ad_parent (fl_admission (mc_flights installed_machine ! 0))) (fl_agent (mc_flights installed_machine ! 0))
     (fl_successor (mc_flights installed_machine ! 0)) (mc_registry installed_machine)"
  by code_simp+

lemma accepted_reachable: "reachable sample_config accepted_machine"
proof -
  have "recovery_step sample_config installed_machine accepted_machine"
    unfolding accepted_machine_def Let_def by (rule recovery_step.Accept) (simp_all add: installed_flight)
  with installed_reachable show ?thesis by (rule reachable.Step)
qed

end
