(* ===== verification/Recovery_Machine_Props.thy ===== *)
theory Recovery_Machine_Props
  imports Recovery_Log Recovery_Samples "HOL-Library.Multiset"
begin

text \<open>
  What holds of every reachable recovery machine, the exact conditions of a resume and of a
  reconciliation, and two interleavings the code does not defend against.
\<close>

section \<open>One successor at a time\<close>

text \<open>
  C3. Whatever requests, timers, claims and releases interleave, an agent has one resume in flight,
  and a failed run is continued by one accepted successor at most.
\<close>

theorem failed_run_resumed_once:
  "reachable cfg m \<Longrightarrow> distinct (map fl_agent (mc_flights m)) \<and> distinct (mc_started m)"
  using reachable_inv [of cfg m] by (simp add: machine_inv_def inv_of_def)

theorem failed_run_resumed_once_witness:
  "map fl_agent (mc_flights accepted_machine) = [''agent-1''] \<and> mc_started accepted_machine = [(''agent-1'', ''r1'')] \<and>
   distinct (map fl_agent (mc_flights accepted_machine)) \<and> distinct (mc_started accepted_machine)"
proof -
  have "map fl_agent (mc_flights accepted_machine) = [''agent-1'']" "mc_started accepted_machine = [(''agent-1'', ''r1'')]"
    by code_simp+
  with failed_run_resumed_once [OF accepted_reachable] show ?thesis by blast
qed

text \<open>
  C4. The accepted successors of one agent never exceed the configured number of resumes.
\<close>

theorem resumes_within_budget:
  "reachable cfg m \<Longrightarrow> resumed agent (mc_started m) \<le> max 0 (rc_resumes_max cfg)"
  using reachable_inv [of cfg m] by (simp add: machine_inv_def inv_of_def)

theorem resumes_within_budget_witness:
  "resumed ''agent-1'' (mc_started accepted_machine) = 1 \<and>
   resumed ''agent-1'' (mc_started accepted_machine) \<le> max 0 (rc_resumes_max sample_config)"
proof -
  have "resumed ''agent-1'' (mc_started accepted_machine) = 1" by code_simp
  with resumes_within_budget [OF accepted_reachable, of "''agent-1''"] show ?thesis by blast
qed

text \<open>
  C8. An episode reports each of its milestones once, and only one of them is final: success or
  exhaustion.
\<close>

theorem milestones_reported_once:
  "reachable cfg m \<Longrightarrow>
   distinct (map (\<lambda>l. (lg_episode l, lg_event_id l)) (rg_log (mc_registry m))) \<and>
   distinct (map lg_episode (filter (\<lambda>l. terminal (lg_event l)) (rg_log (mc_registry m))))"
  using reachable_log [of cfg m] by (simp add: log_ok_def)

theorem milestones_reported_once_witness:
  "map lg_event (rg_log (mc_registry accepted_machine)) = [Ev_Failure, Ev_Scheduled] \<and>
   distinct (map (\<lambda>l. (lg_episode l, lg_event_id l)) (rg_log (mc_registry accepted_machine)))"
proof -
  have "map lg_event (rg_log (mc_registry accepted_machine)) = [Ev_Failure, Ev_Scheduled]" by code_simp
  with milestones_reported_once [OF accepted_reachable] show ?thesis by blast
qed

section \<open>When a resume is admitted\<close>

text \<open>
  C5. A resume is admitted exactly when admission is open, the owner asks for the latest failed run
  of a suspended agent with no resume pending and none continued before, the envelope is eligible
  and neither expired nor past its deadline, the budget has room, the runtime and a model are
  available or the cooldown is overridden, and the registry has capacity and a root.
\<close>

theorem resume_admitted_exactly:
  "(\<exists>ad rg'. resume_agent env agent expected key requester override fresh rg = (Admitted ad, rg')) \<longleftrightarrow>
   \<not> rg_admission_closed rg \<and> \<not> rg_draining rg \<and> capacity_error (rv_config env) rg = None \<and> rg_root rg \<noteq> None \<and>
   (\<exists>a r e. record_of rg agent = Some a \<and> ag_parent a = requester \<and>
      ag_pending a = None \<and> successor_of a expected = None \<and> \<not> ag_superseded a \<and> \<not> ag_reserved a \<and>
      ag_state a = Suspended \<and> find_run expected a = Some r \<and> ag_latest a = Some expected \<and>
      ru_failure r = Some e \<and> policy_admits env a e override)"
  (is "?admitted \<longleftrightarrow> ?gates")
proof
  assume ?admitted
  then obtain ad rg' where "resume_agent env agent expected key requester override fresh rg = (Admitted ad, rg')" by blast
  then obtain a r e where "\<not> rg_admission_closed rg" "\<not> rg_draining rg" "record_of rg agent = Some a"
    "resume_target a expected key requester = Inr (r, e)" "policy_admits env a e override"
    "capacity_error (rv_config env) rg = None" "rg_root rg = Some (ad_parent ad)"
    by (rule resume_agent_admits)
  then show ?gates by (simp add: resume_target_iff)
next
  assume gates: ?gates
  then obtain a r e where a: "record_of rg agent = Some a" and t: "resume_target a expected key requester = Inr (r, e)"
    and p: "policy_admits env a e override" by (auto simp: resume_target_iff)
  from p obtain elig codes where "resume_policy env a expected e override = Inr (elig, codes)"
    using resume_policy_iff by blast
  with gates a t show ?admitted by (auto simp: resume_agent_def Let_def)
qed

section \<open>When a reconciliation clears the barrier\<close>

lemma repeated_empty: "filter (\<lambda>i. count_list ids i > 1) ids = [] \<longleftrightarrow> distinct ids"
proof -
  have "distinct ids \<longleftrightarrow> (\<forall>i \<in> set ids. count_list ids i \<le> 1)"
  proof
    assume "distinct ids"
    then show "\<forall>i \<in> set ids. count_list ids i \<le> 1" by (simp add: distinct_count_atmost_1 count_mset)
  next
    assume le: "\<forall>i \<in> set ids. count_list ids i \<le> 1"
    have "count_list ids i = (if i \<in> set ids then 1 else 0)" for i
      using le by (cases "i \<in> set ids") (auto simp: le_Suc_eq count_list_0_iff)
    then show "distinct ids" by (simp add: distinct_count_atmost_1 count_mset)
  qed
  then show ?thesis by (auto simp: filter_empty_conv not_less)
qed

lemma submission_accepted:
  "submission_defect ms fx = None \<longleftrightarrow>
     list_ex (\<lambda>x. fx_disposition x = Effect_Damage) fx \<or>
     distinct (map fx_call fx) \<and> set (map fx_call fx) = outstanding_calls ms"
proof -
  have "set (filter (\<lambda>i. count_list (map fx_call fx) i > 1) (map fx_call fx)) = {} \<longleftrightarrow> distinct (map fx_call fx)"
    using repeated_empty [of "map fx_call fx"] by (simp only: set_empty)
  then show ?thesis unfolding submission_defect_def Let_def by auto
qed

lemma barrier_cleared:
  "rx_outcome (fst (settle_barrier expected boundary fx a)) = Rec_Cleared \<longleftrightarrow>
   list_all (\<lambda>x. fx_disposition x = Effect_Settled) fx"
proof -
  have "filter (\<lambda>x. fx_disposition x = Effect_Damage) fx = [] \<longleftrightarrow> list_all (\<lambda>x. fx_disposition x = Effect_Settled) fx"
  proof (induction fx)
    case (Cons x fx)
    then show ?case by (cases "fx_disposition x") simp_all
  qed simp
  then show ?thesis by (simp add: settle_barrier_def reconcile_answer_def Let_def)
qed

lemma not_cleared [simp]:
  "rx_outcome (reconcile_answer out agent expected boundary elig codes reason) = out"
  by (simp add: reconcile_answer_def)

lemma reconcile_record_cleared:
  "rx_outcome (fst (reconcile_record a expected boundary fx requester)) = Rec_Cleared \<longleftrightarrow>
   ag_parent a = requester \<and> ag_state a = Suspended \<and> ag_latest a = Some expected \<and>
   (\<exists>r e. find_run expected a = Some r \<and> ru_failure r = Some e \<and>
      ec_eligibility (en_recovery e) = Reconcile_Required \<and> ep_boundary (en_progress e) = Some boundary) \<and>
   ag_last_reconciled a \<noteq> Some (expected, boundary) \<and>
   submission_defect (ag_messages a) fx = None \<and> list_all (\<lambda>x. fx_disposition x = Effect_Settled) fx"
  by (cases "find_run expected a") (auto simp: reconcile_record_def Let_def barrier_cleared split: option.split)

text \<open>
  C6. A submission clears the barrier exactly when admission is open, the owner pins the latest
  failed run of a suspended agent and the boundary of its unreconciled, reconcile-required
  envelope, and it verifies every outstanding tool call of the transcript once, all of them settled.
\<close>

theorem reconcile_cleared_exactly:
  "rx_outcome (fst (reconcile_result_of agent expected boundary fx requester rg)) = Rec_Cleared \<longleftrightarrow>
   \<not> rg_admission_closed rg \<and> \<not> rg_draining rg \<and>
   (\<exists>a r e. record_of rg agent = Some a \<and> ag_parent a = requester \<and> ag_state a = Suspended \<and>
      ag_latest a = Some expected \<and> find_run expected a = Some r \<and> ru_failure r = Some e \<and>
      ec_eligibility (en_recovery e) = Reconcile_Required \<and> ep_boundary (en_progress e) = Some boundary \<and>
      ag_last_reconciled a \<noteq> Some (expected, boundary) \<and>
      distinct (map fx_call fx) \<and> set (map fx_call fx) = outstanding_calls (ag_messages a) \<and>
      list_all (\<lambda>x. fx_disposition x = Effect_Settled) fx)"
proof (cases "record_of rg agent")
  case None
  then show ?thesis by (auto simp: reconcile_result_of_def)
next
  case (Some a)
  have "list_all (\<lambda>x. fx_disposition x = Effect_Settled) fx \<Longrightarrow> \<not> list_ex (\<lambda>x. fx_disposition x = Effect_Damage) fx"
    by (auto simp: list_all_iff list_ex_iff)
  then have "rx_outcome (fst (reconcile_record a expected boundary fx requester)) = Rec_Cleared \<longleftrightarrow>
      ag_parent a = requester \<and> ag_state a = Suspended \<and> ag_latest a = Some expected \<and>
      (\<exists>r e. find_run expected a = Some r \<and> ru_failure r = Some e \<and>
         ec_eligibility (en_recovery e) = Reconcile_Required \<and> ep_boundary (en_progress e) = Some boundary) \<and>
      ag_last_reconciled a \<noteq> Some (expected, boundary) \<and>
      distinct (map fx_call fx) \<and> set (map fx_call fx) = outstanding_calls (ag_messages a) \<and>
      list_all (\<lambda>x. fx_disposition x = Effect_Settled) fx"
    unfolding reconcile_record_cleared submission_accepted by blast
  moreover have "rx_outcome (fst (reconcile_result_of agent expected boundary fx requester rg)) = Rec_Cleared \<longleftrightarrow>
      \<not> rg_admission_closed rg \<and> \<not> rg_draining rg \<and>
      rx_outcome (fst (reconcile_record a expected boundary fx requester)) = Rec_Cleared"
    using Some by (simp add: reconcile_result_of_def split: prod.split)
  ultimately show ?thesis using Some by auto
qed

section \<open>A claim does not stop a resume in flight\<close>

text \<open>
  Between the admission of a resume and the installation of its successor the latest run of the
  record is still the failed one, so a claim is admitted; and nothing on the way of the resume looks
  at the supersession.
\<close>

definition open_market :: claim_env where
  "open_market =
     \<lparr>cv_resolve = (\<lambda>m. Some \<lparr>rm_base_model = m, rm_provider = ''p'', rm_wire_name = m, rm_api_base = ''https://b.example'',
        rm_price = None\<rparr>),
      cv_routes = [], cv_session_model = ''m'', cv_canonical = [], cv_prices = [],
      cv_catalog = \<lparr>cg_providers = [], cg_models = [], cg_roles = []\<rparr>, cv_launch_ok = True, cv_netloc_ok = (\<lambda>_. True), cv_money = (\<lambda>_. [])\<rparr>"

definition sample_claim :: replacement_claim where
  "sample_claim =
     \<lparr>cl_agent = None, cl_model = Some ''other'', cl_config_model = None, cl_predecessor = ''agent-1'',
      cl_package = Some ''package'', cl_tier = None\<rparr>"

definition resuming_agent :: agent where
  "resuming_agent = the (record_of (mc_registry resuming_machine) ''agent-1'')"

definition stall_envelope :: failure_envelope where
  "stall_envelope = sample_envelope ''agent-1'' ''r1'' Eligible None"

lemma claim_parts:
  "claim_shape sample_claim = Inr (''other'', ''model'', ''package'')"
  "predecessor_envelope ''main'' ''agent-1'' (mc_registry resuming_machine) = Inr (resuming_agent, stall_envelope)"
  "check_lineage_and_barrier resuming_agent ''package'' None stall_envelope = None"
  "\<not> ag_superseded resuming_agent" "\<not> ag_reserved resuming_agent" "ag_id resuming_agent = ''agent-1''"
  by code_simp+

lemma claim_policy:
  "\<exists>d. validate_claim_policy open_market sample_config resuming_agent stall_envelope ''package'' None ''other'' ''model''
     (mc_registry resuming_machine) = Inr d"
proof -
  have "(case validate_claim_policy open_market sample_config resuming_agent stall_envelope ''package'' None ''other'' ''model''
      (mc_registry resuming_machine) of Inl _ \<Rightarrow> False | Inr _ \<Rightarrow> True)" by code_simp
  then show ?thesis by (auto split: sum.splits)
qed

definition claimed_machine :: machine where
  "claimed_machine = with_registry resuming_machine
     (consume_replacement ''package'' (invalidate_recovery ''agent-1'' (mc_registry resuming_machine)))"

text \<open>The claim is admitted while the resume is in flight.\<close>

lemma claim_admitted_during_resume:
  "\<exists>d. validate_replacement_claim open_market sample_config ''main'' sample_claim (mc_registry resuming_machine) =
     (Inr d, mc_registry claimed_machine)"
proof -
  have "cl_predecessor sample_claim = ''agent-1''" "cl_tier sample_claim = None" "cv_launch_ok open_market"
    by (simp_all add: sample_claim_def open_market_def)
  then show ?thesis
    using claim_parts claim_policy by (auto simp: validate_replacement_claim_def claimed_machine_def with_registry_def)
qed

definition claimed_reserved :: machine where
  "claimed_reserved = set_flight 0 (sample_flight\<lparr>fl_stage := Reserved\<rparr>)
     (with_registry claimed_machine (the (reserve_record ''main'' ''agent-1'' True (mc_registry claimed_machine))))"

definition claimed_installed :: machine where
  "claimed_installed = install_flight 0 (mc_flights claimed_reserved ! 0) claimed_reserved"

lemma claimed_flights:
  "reserve_record ''main'' ''agent-1'' True (mc_registry claimed_machine) \<noteq> None"
  "length (mc_flights claimed_reserved) = 1" "fl_stage (mc_flights claimed_reserved ! 0) = Reserved"
  "length (mc_flights claimed_installed) = 1" "fl_stage (mc_flights claimed_installed ! 0) = Installed"
  by code_simp+

text \<open>The resume goes on: its successor is installed, and may be accepted although the record is superseded.\<close>

lemma resume_survives_claim:
  "reachable sample_config claimed_installed"
  "map_option ag_superseded (record_of (mc_registry claimed_installed) ''agent-1'') = Some True"
  "may_accept ''main'' ''agent-1'' ''r2'' (mc_registry claimed_installed)"
proof -
  have c: "recovery_step sample_config resuming_machine claimed_machine"
    using claim_admitted_during_resume
      recovery_step.Claim [of sample_config resuming_machine open_market "''main''" sample_claim]
    by (auto simp: claimed_machine_def with_registry_def)
  obtain rg where rg: "reserve_record ''main'' ''agent-1'' True (mc_registry claimed_machine) = Some rg"
    using claimed_flights(1) by blast
  have fl: "mc_flights claimed_machine = mc_flights resuming_machine" by (simp add: claimed_machine_def with_registry_def)
  have "recovery_step sample_config claimed_machine
      (set_flight 0 (sample_flight\<lparr>fl_stage := Reserved\<rparr>) (with_registry claimed_machine rg))"
    by (rule recovery_step.Reserve) (use resuming_flight rg fl in \<open>simp_all add: sample_flight_def\<close>)
  then have r: "recovery_step sample_config claimed_machine claimed_reserved" using rg by (simp add: claimed_reserved_def)
  have i: "recovery_step sample_config claimed_reserved claimed_installed"
    unfolding claimed_installed_def by (rule recovery_step.Install) (simp_all add: claimed_flights)
  show "reachable sample_config claimed_installed"
    using reachable.Step [OF reachable.Step [OF reachable.Step [OF resuming_reachable c] r] i] .
  show "map_option ag_superseded (record_of (mc_registry claimed_installed) ''agent-1'') = Some True"
    "may_accept ''main'' ''agent-1'' ''r2'' (mc_registry claimed_installed)"
    by code_simp+
qed

end
