(* ===== verification/Suspension_Props.thy ===== *)
theory Suspension_Props
  imports Recovery_Inv Recovery_Samples "HOL-Library.Product_Lexorder"
begin

text \<open>
  The caps on suspended agents: the byte accounting under updates of the record table, the order in
  which the eviction loop expires agents, and the bounds a suspension leaves.
\<close>

section \<open>The byte account\<close>

definition table_ok :: "recovery_registry \<Rightarrow> bool" where
  "table_ok rg \<longleftrightarrow> distinct (map fst (rg_records rg)) \<and> keyed rg"

lemma table_ok_drop [intro]: "table_ok rg \<Longrightarrow> table_ok (drop_record i rg)"
  by (auto simp: table_ok_def intro: keyed_calm) (simp add: drop_record_def distinct_dict_pop)

lemma sum_dict_set:
  assumes "distinct (map fst d)"
  shows "sum_list (map (h \<circ> snd) (dict_set k v d)) =
    sum_list (map (h \<circ> snd) d) + h v - (case map_of d k of None \<Rightarrow> 0 | Some a \<Rightarrow> (h a :: int))"
  using assms
proof (induction k v d rule: dict_set.induct)
  case (2 k v k' v' d)
  then show ?case by (auto split: option.split)
qed simp

lemma sum_dict_pop:
  assumes "distinct (map fst d)"
  shows "sum_list (map (h \<circ> snd) (dict_pop k d)) =
    sum_list (map (h \<circ> snd) d) - (case map_of d k of None \<Rightarrow> 0 | Some a \<Rightarrow> (h a :: int))"
  using assms
proof (induction d)
  case (Cons e d)
  have "dict_pop k d = d" if "k \<notin> fst ` set d" using that by (induction d) (auto simp: dict_pop_def)
  with Cons show ?case by (cases "fst e = k") (auto simp: dict_pop_def map_of_eq_None_iff)
qed (simp add: dict_pop_def)

lemma total_put:
  assumes "table_ok rg" "record_of rg (ag_id b) = Some a"
  shows "suspended_total_bytes (put_record b rg) = suspended_total_bytes rg + held_bytes b - held_bytes a"
  using assms sum_dict_set [of "rg_records rg" held_bytes "ag_id b" b]
  by (simp add: suspended_total_bytes_def put_record_def record_of_def table_ok_def)

text \<open>The number of suspended agents is such a sum as well.\<close>

lemma count_as_sum:
  "int (suspended_count rg) = sum_list (map ((\<lambda>a. if ag_state a = Suspended then 1 else 0) \<circ> snd) (rg_records rg))"
proof -
  have "int (length (filter (\<lambda>(_, a). ag_state a = Suspended) d)) =
      sum_list (map ((\<lambda>a. if ag_state a = Suspended then 1 else 0) \<circ> snd) d)" for d :: "(string \<times> agent) list"
    by (induction d) auto
  then show ?thesis by (simp add: suspended_count_def)
qed

lemma count_put:
  assumes "table_ok rg" "record_of rg (ag_id b) = Some a"
  shows "int (suspended_count (put_record b rg)) = int (suspended_count rg) +
    (if ag_state b = Suspended then 1 else 0) - (if ag_state a = Suspended then 1 else 0)"
  using assms sum_dict_set [of "rg_records rg" "\<lambda>a. if ag_state a = Suspended then 1 else 0" "ag_id b" b]
  by (simp add: count_as_sum put_record_def record_of_def table_ok_def)

lemma count_drop: "suspended_count (drop_record i rg) \<le> suspended_count rg"
proof -
  have "length (filter P (filter Q xs)) \<le> length (filter P xs)" for P Q and xs :: "(string \<times> agent) list"
    by (induction xs) auto
  then show ?thesis unfolding suspended_count_def drop_record_def dict_pop_def by simp
qed

section \<open>The order of eviction\<close>

definition age :: "rat \<times> string \<Rightarrow> rat \<times> int" where
  "age x = (fst x, agent_id_sort_key (snd x))"

lemma older_age: "older x y \<longleftrightarrow> age x < age y"
  by (auto simp: older_def age_def)

text \<open>The suspended agents other than \<open>self\<close>, longest suspended first.\<close>

definition eviction_order :: "string \<Rightarrow> recovery_registry \<Rightarrow> string list" where
  "eviction_order self rg = map snd (sort_key age (filter (\<lambda>x. snd x \<noteq> self) (suspended_since rg)))"

lemma first_minimum:
  fixes f :: "'a \<Rightarrow> 'b :: linorder"
  shows "\<exists>as bs. x # xs = as @ foldl (\<lambda>b y. if f y < f b then y else b) x xs # bs \<and>
    (\<forall>a \<in> set as. f (foldl (\<lambda>b y. if f y < f b then y else b) x xs) < f a) \<and>
    (\<forall>b \<in> set bs. f (foldl (\<lambda>b y. if f y < f b then y else b) x xs) \<le> f b)"
proof (induction xs rule: rev_induct)
  case Nil
  show ?case by (intro exI [of _ "[]"]) simp
next
  case (snoc y xs)
  let ?m = "foldl (\<lambda>b y. if f y < f b then y else b) x xs"
  from snoc obtain as bs where ab: "x # xs = as @ ?m # bs" "\<forall>a \<in> set as. f ?m < f a" "\<forall>b \<in> set bs. f ?m \<le> f b"
    by blast
  have all: "f ?m \<le> f z" if "z \<in> set (x # xs)" for z
    using that ab(2,3) unfolding ab(1) by auto
  show ?case
  proof (cases "f y < f ?m")
    case True
    with all have "\<forall>a \<in> set (x # xs). f y < f a" by fastforce
    with True show ?thesis by (intro exI [of _ "x # xs"] exI [of _ "[]"]) simp
  next
    case False
    have "x # xs @ [y] = as @ ?m # bs @ [y]" using arg_cong [OF ab(1), of "\<lambda>l. l @ [y]"] by simp
    with ab False show ?thesis by (intro exI [of _ as] exI [of _ "bs @ [y]"]) auto
  qed
qed

lemma sort_key_first_minimum:
  fixes f :: "'a \<Rightarrow> 'b :: linorder"
  assumes "\<forall>a \<in> set as. f m < f a" "\<forall>b \<in> set bs. f m \<le> f b"
  shows "sort_key f (as @ m # bs) = m # sort_key f (as @ bs)"
proof (rule properties_for_sort_key)
  fix k
  have "filter (\<lambda>x. f m = f x) as = []" using assms(1) by (auto simp: filter_empty_conv)
  then show "filter (\<lambda>x. f k = f x) (m # sort_key f (as @ bs)) = filter (\<lambda>x. f k = f x) (as @ m # bs)"
    using sort_key_stable [of f "f k" "as @ bs"] by (auto simp: eq_commute [of "f k"])
next
  show "sorted (map f (m # sort_key f (as @ bs)))" using assms by (auto simp: less_imp_le)
qed simp

lemma since_drop: "suspended_since (drop_record v rg) = filter (\<lambda>x. snd x \<noteq> v) (suspended_since rg)"
proof -
  let ?f = "\<lambda>(i, a). if ag_state a = Suspended then map_option (\<lambda>t. (t, i)) (ag_suspended_at a) else None"
  have "List.map_filter ?f (dict_pop v d) = filter (\<lambda>x. snd x \<noteq> v) (List.map_filter ?f d)" for d
    by (induction d) (auto simp: dict_pop_def List.map_filter_simps split: option.splits if_splits)
  then show ?thesis by (simp add: suspended_since_def drop_record_def)
qed

lemma since_distinct: "distinct (map fst (rg_records rg)) \<Longrightarrow> distinct (map snd (suspended_since rg))"
proof -
  let ?f = "\<lambda>(i, a). if ag_state a = Suspended then map_option (\<lambda>t. (t, i)) (ag_suspended_at a) else None"
  have sub: "snd ` set (List.map_filter ?f d) \<subseteq> fst ` set d" for d
    by (induction d) (auto simp: List.map_filter_simps split: option.splits if_splits)
  have "distinct (map fst d) \<Longrightarrow> distinct (map snd (List.map_filter ?f d))" for d
  proof (induction d)
    case (Cons e d)
    obtain i a where "e = (i, a)" by force
    with Cons sub [of d] show ?case by (auto simp: List.map_filter_simps split: option.splits if_splits)
  qed (simp add: List.map_filter_simps)
  then show "distinct (map fst (rg_records rg)) \<Longrightarrow> distinct (map snd (suspended_since rg))"
    by (simp add: suspended_since_def)
qed

lemma oldest_first:
  assumes "distinct (map fst (rg_records rg))" "oldest_suspended self rg = Some v"
  shows "eviction_order self rg = v # eviction_order self (drop_record v rg)"
proof -
  let ?ys = "filter (\<lambda>x. snd x \<noteq> self) (suspended_since rg)"
  from assms(2) obtain x xs where xs: "?ys = x # xs"
    and v: "v = snd (foldl (\<lambda>b y. if age y < age b then y else b) x xs)"
    by (auto simp: oldest_suspended_def older_age split: list.splits)
  let ?m = "foldl (\<lambda>b y. if age y < age b then y else b) x xs"
  obtain as bs where ab: "x # xs = as @ ?m # bs" "\<forall>a \<in> set as. age ?m < age a" "\<forall>b \<in> set bs. age ?m \<le> age b"
    using first_minimum [of x xs age] by blast
  have "distinct (map snd ?ys)" using assms(1) by (intro distinct_map_filter since_distinct)
  then have "distinct (map snd (as @ ?m # bs))" unfolding xs ab(1) .
  then have "v \<notin> snd ` set as" "v \<notin> snd ` set bs" by (auto simp: v)
  then have "filter (\<lambda>y. snd y \<noteq> v) as = as" "filter (\<lambda>y. snd y \<noteq> v) bs = bs"
    by (force simp: filter_id_conv)+
  then have "filter (\<lambda>y. snd y \<noteq> v) (as @ ?m # bs) = as @ bs" by (simp add: v)
  then have "filter (\<lambda>y. snd y \<noteq> v) ?ys = as @ bs" unfolding xs ab(1) [symmetric] .
  moreover have "filter (\<lambda>x. snd x \<noteq> self) (filter (\<lambda>y. snd y \<noteq> v) l) = filter (\<lambda>y. snd y \<noteq> v) (filter (\<lambda>x. snd x \<noteq> self) l)"
    for l :: "(rat \<times> string) list" by (simp add: conj_commute)
  ultimately have "filter (\<lambda>x. snd x \<noteq> self) (suspended_since (drop_record v rg)) = as @ bs"
    unfolding since_drop by simp
  with sort_key_first_minimum [OF ab(2,3)] xs ab(1) show ?thesis
    by (simp add: eviction_order_def v)
qed

lemma nobody_left: "oldest_suspended self rg = None \<longleftrightarrow> eviction_order self rg = []"
  by (simp add: oldest_suspended_def eviction_order_def split: list.split)

section \<open>The loop\<close>

definition expired_by :: "string list \<Rightarrow> recovery_registry \<Rightarrow> recovery_registry" where
  "expired_by vs rg = fold expire_record vs rg"

lemma expired_by_Cons [simp]: "expired_by (v # vs) rg = expired_by vs (expire_record v rg)"
  by (simp add: expired_by_def)

lemma expired_by_Nil [simp]: "expired_by [] rg = rg"
  by (simp add: expired_by_def)

lemma make_room_prefix:
  assumes "distinct (map fst (rg_records rg))" "make_room cap needed self rg = (ok, rg')"
  shows "\<exists>n \<le> length (eviction_order self rg). rg' = expired_by (take n (eviction_order self rg)) rg \<and>
    (ok \<longleftrightarrow> suspended_total_bytes rg' + needed \<le> cap) \<and> (\<not> ok \<longrightarrow> n = length (eviction_order self rg)) \<and>
    (\<forall>k < n. cap < suspended_total_bytes (expired_by (take k (eviction_order self rg)) rg) + needed)"
  using assms
proof (induction cap needed self rg rule: make_room.induct)
  case (1 cap needed self rg)
  show ?case
  proof (cases "suspended_total_bytes rg + needed \<le> cap")
    case True
    with "1.prems" show ?thesis by (intro exI [of _ 0]) (auto simp: make_room.simps [of cap])
  next
    case over: False
    show ?thesis
    proof (cases "oldest_suspended self rg")
      case None
      with over "1.prems" nobody_left [of self rg] show ?thesis
        by (intro exI [of _ 0]) (auto simp: make_room.simps [of cap])
    next
      case (Some v)
      have order: "eviction_order self rg = v # eviction_order self (expire_record v rg)"
        unfolding expire_record_def by (rule oldest_first [OF "1.prems"(1) Some])
      have "make_room cap needed self (expire_record v rg) = (ok, rg')"
        using over Some "1.prems"(2) by (simp add: make_room.simps [of cap needed self rg])
      moreover have "distinct (map fst (rg_records (expire_record v rg)))"
        using "1.prems"(1) by (simp add: expire_record_def drop_record_def distinct_dict_pop)
      ultimately obtain n where
        n: "n \<le> length (eviction_order self (expire_record v rg))"
          "rg' = expired_by (take n (eviction_order self (expire_record v rg))) (expire_record v rg)"
          "ok \<longleftrightarrow> suspended_total_bytes rg' + needed \<le> cap"
          "\<not> ok \<longrightarrow> n = length (eviction_order self (expire_record v rg))"
          "\<forall>k < n. cap < suspended_total_bytes (expired_by (take k (eviction_order self (expire_record v rg))) (expire_record v rg)) + needed"
        using "1.IH" [OF over Some] by blast
      have "cap < suspended_total_bytes (expired_by (take k (eviction_order self rg)) rg) + needed" if "k < Suc n" for k
      proof (cases k)
        case 0
        with over show ?thesis by simp
      next
        case (Suc j)
        with that have "j < n" by simp
        with n(5) show ?thesis unfolding Suc order take_Suc_Cons expired_by_Cons by blast
      qed
      moreover have "Suc n \<le> length (eviction_order self rg)" unfolding order using n(1) by simp
      moreover have "rg' = expired_by (take (Suc n) (eviction_order self rg)) rg"
        unfolding order take_Suc_Cons expired_by_Cons by (rule n(2))
      moreover have "\<not> ok \<longrightarrow> Suc n = length (eviction_order self rg)" unfolding order length_Cons using n(4) by blast
      ultimately show ?thesis using n(3) by blast
    qed
  qed
qed

lemma record_expired_by: "record_of (expired_by vs rg) i = (if i \<in> set vs then None else record_of rg i)"
  by (induction vs arbitrary: rg) (simp_all add: expire_record_def)

lemma table_expired_by: "table_ok rg \<Longrightarrow> table_ok (expired_by vs rg)"
  by (induction vs arbitrary: rg) (auto simp: expire_record_def)

lemma count_expired_by: "suspended_count (expired_by vs rg) \<le> suspended_count rg"
proof (induction vs arbitrary: rg)
  case (Cons v vs)
  from Cons [of "expire_record v rg"] count_drop [of v rg] show ?case by (simp add: expire_record_def)
qed simp

lemma self_not_evicted: "self \<notin> set (eviction_order self rg)"
  by (auto simp: eviction_order_def)

text \<open>A byte cap of zero or less is no cap.\<close>

lemma admitted_suspension:
  assumes "suspension_admit env a rg = (True, rg1)" "table_ok rg" "record_of rg (ag_id a) = Some a"
  obtains vs where "rg1 = put_record (a\<lparr>ag_warm_bytes := Some (warm_conversation_bytes env (ag_messages a))\<rparr>) (expired_by vs rg)"
    "ag_id a \<notin> set vs"
    "0 < rc_max_bytes (rv_config env) \<longrightarrow>
       suspended_total_bytes (expired_by vs rg) + warm_conversation_bytes env (ag_messages a) \<le> rc_max_bytes (rv_config env)"
proof (cases "rc_max_bytes (rv_config env) \<le> 0")
  case True
  with assms(1) that [of "[]"] show thesis by (auto simp: suspension_admit_def)
next
  case False
  let ?needed = "warm_conversation_bytes env (ag_messages a)" and ?cap = "rc_max_bytes (rv_config env)"
  obtain ok rg2 where m: "make_room ?cap ?needed (ag_id a) rg = (ok, rg2)" by force
  from assms(1) False have "?needed \<le> ?cap" by (auto simp: suspension_admit_def Let_def split: if_splits)
  with assms(1) False m have ok: "ok" "rg1 = put_record (a\<lparr>ag_warm_bytes := Some ?needed\<rparr>) rg2"
    by (simp_all add: suspension_admit_def Let_def split: if_splits)
  have "distinct (map fst (rg_records rg))" using assms(2) by (simp add: table_ok_def)
  from make_room_prefix [OF this m] obtain n where n: "rg2 = expired_by (take n (eviction_order (ag_id a) rg)) rg"
    "ok \<longleftrightarrow> suspended_total_bytes rg2 + ?needed \<le> ?cap" by blast
  moreover have "ag_id a \<notin> set (take n (eviction_order (ag_id a) rg))"
    using self_not_evicted in_set_takeD by metis
  ultimately show thesis using that ok by blast
qed

lemma suspended_table:
  assumes "suspend_after_failure env i r rg = (True, rg')" "table_ok rg"
  obtains a e vs a1 where "record_of rg i = Some a" "ru_failure r = Some e" "may_suspend env a r e rg" "i \<notin> set vs"
    "a1 = a\<lparr>ag_warm_bytes := Some (warm_conversation_bytes env (ag_messages a))\<rparr>"
    "rg' = put_record (mark_suspended env e a1) (put_record a1 (expired_by vs rg))"
    "0 < rc_max_bytes (rv_config env) \<longrightarrow>
       suspended_total_bytes (expired_by vs rg) + warm_conversation_bytes env (ag_messages a) \<le> rc_max_bytes (rv_config env)"
proof -
  from assms(1) obtain a e where a: "record_of rg i = Some a" and e: "ru_failure r = Some e"
    by (auto simp: suspend_after_failure_def split: option.splits)
  have id: "ag_id a = i" using keyedD [OF _ a] assms(2) by (simp add: table_ok_def)
  obtain ok rg1 where adm: "suspension_admit env a rg = (ok, rg1)" by force
  from assms(1) a e adm have ok: "ok" "may_suspend env a r e rg"
    by (auto simp: suspend_after_failure_def split: if_splits bool.splits)
  with adm have adm1: "suspension_admit env a rg = (True, rg1)" by simp
  obtain vs where vs: "rg1 = put_record (a\<lparr>ag_warm_bytes := Some (warm_conversation_bytes env (ag_messages a))\<rparr>) (expired_by vs rg)"
    "ag_id a \<notin> set vs"
    "0 < rc_max_bytes (rv_config env) \<longrightarrow>
       suspended_total_bytes (expired_by vs rg) + warm_conversation_bytes env (ag_messages a) \<le> rc_max_bytes (rv_config env)"
    using admitted_suspension [OF adm1 assms(2)] a id by blast
  let ?a1 = "a\<lparr>ag_warm_bytes := Some (warm_conversation_bytes env (ag_messages a))\<rparr>"
  have "record_of rg1 i = Some ?a1" using id by (simp add: vs(1))
  then have "rg' = put_record (mark_suspended env e ?a1) rg1"
    using assms(1) a e ok adm1 by (simp add: suspend_after_failure_def split: if_splits)
  with that [OF a e ok(2) _ refl] vs id show thesis by simp
qed

text \<open>
  C9. After a suspension the warm conversations fit the byte cap, and the suspended agents the
  count cap.
\<close>

theorem suspension_within_caps:
  assumes "suspend_after_failure env i r rg = (True, rg')" "table_ok rg" "0 < rc_max_bytes (rv_config env)"
  shows "suspended_total_bytes rg' \<le> rc_max_bytes (rv_config env) \<and>
    int (suspended_count rg') \<le> rc_max_suspended (rv_config env)"
proof -
  obtain a e vs a1 where a: "record_of rg i = Some a" and e: "ru_failure r = Some e" and may: "may_suspend env a r e rg" and i: "i \<notin> set vs"
    and a1: "a1 = a\<lparr>ag_warm_bytes := Some (warm_conversation_bytes env (ag_messages a))\<rparr>"
    and rg': "rg' = put_record (mark_suspended env e a1) (put_record a1 (expired_by vs rg))"
    and room: "0 < rc_max_bytes (rv_config env) \<longrightarrow> suspended_total_bytes (expired_by vs rg) +
      warm_conversation_bytes env (ag_messages a) \<le> rc_max_bytes (rv_config env)"
    by (rule suspended_table [OF assms(1,2)])
  let ?rg0 = "expired_by vs rg"
  have id: "ag_id a = i" using keyedD [OF _ a] assms(2) by (simp add: table_ok_def)
  have ok0: "table_ok ?rg0" by (rule table_expired_by [OF assms(2)])
  have at0: "record_of ?rg0 (ag_id a1) = Some a" using a i id by (simp add: record_expired_by a1)
  have ok1: "table_ok (put_record a1 ?rg0)"
    using ok0 id a1 by (auto simp: table_ok_def keyed_def) (simp add: put_record_def distinct_dict_set)
  have at1: "record_of (put_record a1 ?rg0) (ag_id (mark_suspended env e a1)) = Some a1"
    by (simp add: mark_suspended_def)
  have fin: "ag_state a = Finalizing" using may by (simp add: may_suspend_def)
  have "int (suspended_count ?rg0) < rc_max_suspended (rv_config env)"
    using may count_expired_by [of vs rg] by (simp add: may_suspend_def)
  then show ?thesis
    using room assms(3) total_put [OF ok0 at0] total_put [OF ok1 at1] count_put [OF ok0 at0] count_put [OF ok1 at1]
    by (simp add: rg' fin held_bytes_def a1 mark_suspended_def)
qed

text \<open>
  A full registry: \<open>agent-0\<close>, suspended before, holds 480 of 500 bytes when \<open>agent-1\<close> fails.
\<close>

definition crowded_registry :: recovery_registry where
  "crowded_registry = put_record
     ((new_agent ''agent-0'' ''worker'' ''main'' 0 False [])
        \<lparr>ag_state := Suspended, ag_suspended_at := Some 0, ag_warm_bytes := Some 480\<rparr>)
     (mc_registry settled_machine)"

lemma crowded_table: "table_ok crowded_registry"
proof -
  have "distinct (map fst (rg_records crowded_registry))" by code_simp
  moreover have "keyed (mc_registry settled_machine)" by (rule inv_keyed [OF reachable_inv [OF settled_reachable]])
  then have "keyed crowded_registry" by (auto simp: keyed_def crowded_registry_def new_agent_def)
  ultimately show ?thesis by (simp add: table_ok_def)
qed

lemma crowded_suspension:
  "fst (suspend_after_failure (sample_env 1) ''agent-1'' first_failure crowded_registry)"
  "map fst (rg_records (snd (suspend_after_failure (sample_env 1) ''agent-1'' first_failure crowded_registry))) = [''agent-1'']"
  by code_simp+

theorem suspension_within_caps_witness:
  "suspended_total_bytes crowded_registry = 480 \<and>
   map fst (rg_records (snd (suspend_after_failure (sample_env 1) ''agent-1'' first_failure crowded_registry))) = [''agent-1''] \<and>
   suspended_total_bytes (snd (suspend_after_failure (sample_env 1) ''agent-1'' first_failure crowded_registry)) \<le> 500"
proof -
  have s: "suspend_after_failure (sample_env 1) ''agent-1'' first_failure crowded_registry =
      (True, snd (suspend_after_failure (sample_env 1) ''agent-1'' first_failure crowded_registry))"
    using crowded_suspension(1) by (simp add: prod_eq_iff)
  have cap: "rc_max_bytes (rv_config (sample_env 1)) = 500" by code_simp
  have "suspended_total_bytes crowded_registry = 480" by code_simp
  with suspension_within_caps [OF s crowded_table] crowded_suspension(2) cap show ?thesis by simp
qed

text \<open>
  C10. The eviction loop ends: it expires suspended agents in the order of their suspension, ties by
  agent number, and stops after the shortest sequence that makes room, or when nobody is left.
\<close>

theorem eviction_stops_when_room:
  assumes "table_ok rg"
  shows "\<exists>n \<le> length (eviction_order self rg). make_room cap needed self rg =
      (suspended_total_bytes (expired_by (take n (eviction_order self rg)) rg) + needed \<le> cap,
       expired_by (take n (eviction_order self rg)) rg) \<and>
    (cap < suspended_total_bytes (expired_by (take n (eviction_order self rg)) rg) + needed \<longrightarrow>
       n = length (eviction_order self rg)) \<and>
    (\<forall>k < n. cap < suspended_total_bytes (expired_by (take k (eviction_order self rg)) rg) + needed)"
proof -
  obtain ok rg' where m: "make_room cap needed self rg = (ok, rg')" by force
  have "distinct (map fst (rg_records rg))" using assms by (simp add: table_ok_def)
  from make_room_prefix [OF this m] obtain n where len: "n \<le> length (eviction_order self rg)"
    and rg': "rg' = expired_by (take n (eviction_order self rg)) rg"
    and ok: "ok \<longleftrightarrow> suspended_total_bytes rg' + needed \<le> cap"
    and full: "\<not> ok \<longrightarrow> n = length (eviction_order self rg)"
    and least: "\<forall>k < n. cap < suspended_total_bytes (expired_by (take k (eviction_order self rg)) rg) + needed"
    by (elim exE conjE)
  have "cap < suspended_total_bytes (expired_by (take n (eviction_order self rg)) rg) + needed \<longrightarrow>
      n = length (eviction_order self rg)"
    using full ok unfolding rg' [symmetric] by (simp only: not_le)
  moreover have "make_room cap needed self rg =
      (suspended_total_bytes (expired_by (take n (eviction_order self rg)) rg) + needed \<le> cap,
       expired_by (take n (eviction_order self rg)) rg)"
    unfolding rg' [symmetric] m ok ..
  ultimately show ?thesis using len least by blast
qed

theorem eviction_stops_when_room_witness:
  "eviction_order ''agent-1'' crowded_registry = [''agent-0''] \<and>
   (\<exists>n \<le> 1. make_room 500 73 ''agent-1'' crowded_registry =
      (suspended_total_bytes (expired_by (take n [''agent-0'']) crowded_registry) + 73 \<le> 500,
       expired_by (take n [''agent-0'']) crowded_registry))"
proof -
  have "eviction_order ''agent-1'' crowded_registry = [''agent-0'']" by code_simp
  with eviction_stops_when_room [OF crowded_table, of "''agent-1''" 500 73] show ?thesis by auto
qed

text \<open>A suspension can be refused after it expired other agents.\<close>

lemma refused_after_expiry:
  "\<not> fst (make_room 500 600 ''agent-1'' crowded_registry)"
  "map fst (rg_records (snd (make_room 500 600 ''agent-1'' crowded_registry))) = [''agent-1'']"
  by code_simp+

end
