(* ===== verification/Controller_Props.thy ===== *)
theory Controller_Props
  imports Recovery_Samples
begin

text \<open>
  When the automatic controller arms a timer for a failed run, and how long the timer sleeps.
\<close>

section \<open>The gates\<close>

text \<open>
  The policy rows that let a failed run be resumed automatically: a measured, eligible and
  configured class, room in the budgets of the episode and of the package lineage, an intact
  barrier, an available model and a delay that ends before the deadline.
\<close>

definition retry_allowed ::
  "recovery_env \<Rightarrow> agent \<Rightarrow> run \<Rightarrow> failure_envelope \<Rightarrow> episode \<Rightarrow> int \<Rightarrow> bool" where
  "retry_allowed env a r e ep recurrence \<longleftrightarrow>
     measured_timeout_reason_of e = None \<and>
     fst (effective_eligibility a e) = Eligible \<and>
     (\<exists>c \<in> set (rc_eligible (rv_config env)). eligible_class_of e = Some c) \<and>
     ep_used ep < ep_auto_max ep \<and> recurrence < ep_auto_max ep \<and>
     \<not> (is_launch_failure e \<and> launch_failure_retries_max \<le> ep_launch_used ep) \<and>
     rv_epoch env < episode_deadline ep \<and>
     ag_state a = Suspended \<and> ag_latest a = Some (ru_id r) \<and>
     \<not> av_permanent (available_now env (ag_id a))"

definition retry_delay :: "recovery_env \<Rightarrow> agent \<Rightarrow> failure_envelope \<Rightarrow> string \<Rightarrow> episode \<Rightarrow> rat" where
  "retry_delay env a e key ep = compute_delay env (set_pending e key ep) (available_now env (ag_id a))"

lemma gates_pass:
  "retry_allowed env a r e ep recurrence \<longleftrightarrow>
     refused_early (rv_config env) a e ep = None \<and> refused_late env a r ep recurrence = None"
  by (auto simp: retry_allowed_def refused_early_def refused_late_def split: option.split)

section \<open>Frames\<close>

lemma emit_frame [simp]:
  "rg_lineage (emit k ev i run d rg) = rg_lineage rg" "rg_attributed (emit k ev i run d rg) = rg_attributed rg"
  "rg_records (emit k ev i run d rg) = rg_records rg"
  by (simp_all add: emit_def put_episode_def split: option.split)

lemma emit_episode: "rg_episodes rg k = Some ep \<Longrightarrow>
  \<exists>ids. rg_episodes (emit k ev i run d rg) k = Some (ep\<lparr>ep_emitted := ids\<rparr>)"
  by (cases "i \<in> set (ep_emitted ep)") (auto simp: emit_def put_episode_def intro: exI [of _ "ep_emitted ep"])

text \<open>What the gates and the delay read of an episode.\<close>

lemma emitted_irrelevant [simp]:
  "retry_allowed env a r e (ep\<lparr>ep_emitted := ids\<rparr>) n = retry_allowed env a r e ep n"
  "retry_delay env a e key (ep\<lparr>ep_emitted := ids\<rparr>) = retry_delay env a e key ep"
  "episode_deadline (ep\<lparr>ep_emitted := ids\<rparr>) = episode_deadline ep"
  "set_pending e key (ep\<lparr>ep_emitted := ids\<rparr>) = (set_pending e key ep)\<lparr>ep_emitted := ids\<rparr>"
  by (simp_all add: retry_allowed_def retry_delay_def episode_deadline_def set_pending_def compute_delay_def)

lemma lineage_frame:
  assumes "rg_records rg' = rg_records rg" "rg_lineage rg' = rg_lineage rg" "rg_attributed rg' = rg_attributed rg"
  shows "fst (resolve_lineage_key a e rg') = fst (resolve_lineage_key a e rg)"
    "rg_lineage (snd (resolve_lineage_key a e rg')) = rg_lineage (snd (resolve_lineage_key a e rg))"
  using assms by (simp_all add: resolve_lineage_key_def Let_def split: prod.split)

lemma open_frame:
  assumes "open_episode env a r rg = (k, rg1)"
  shows "rg_records rg1 = rg_records rg" "rg_lineage rg1 = rg_lineage rg" "rg_attributed rg1 = rg_attributed rg"
  using assms by (auto simp: open_episode_def put_episode_def Let_def split: option.splits if_splits)

lemma open_active:
  assumes "open_episode env a r rg = (k, rg1)" "rg_episodes rg1 k = Some ep"
  shows "ep_active ep"
  using assms
  by (auto simp: open_episode_def put_episode_def Let_def new_episode_def episode_at_def split: option.splits if_splits)

lemma stop_timer:
  assumes "rg_episodes rg k = Some ep" "ep_active ep"
  shows "\<exists>ep'. rg_episodes (stop_episode k reason force rg) k = Some ep' \<and> ep_timer ep' = None"
proof -
  let ?off = "ep\<lparr>ep_active := False, ep_timer := None, ep_scheduled := None\<rparr>"
  have "rg_episodes (put_episode k ?off rg) k = Some ?off" by (simp add: put_episode_def)
  from emit_episode [OF this] obtain ids where
    "rg_episodes (emit k Ev_Exhaustion (''exhaustion:'' @ ep_agent ep @ '':'' @ ep_chain ep) [] reason (put_episode k ?off rg)) k =
       Some (?off\<lparr>ep_emitted := ids\<rparr>)" by blast
  then show ?thesis using assms by (simp add: stop_episode_def Let_def put_episode_def)
qed

lemma arm_or_stop_timer:
  assumes "rg_episodes rg k = Some ep" "ep_active ep"
  shows "\<exists>ep'. rg_episodes (arm_or_stop env r k av rg) k = Some ep' \<and>
    ep_timer ep' = (if compute_delay env ep av \<le> episode_deadline ep - rv_epoch env
                    then Some (ru_id r, compute_delay env ep av) else None)"
proof (cases "compute_delay env ep av \<le> episode_deadline ep - rv_epoch env")
  case True
  let ?on = "ep\<lparr>ep_scheduled := Some (ru_id r), ep_timer := Some (ru_id r, compute_delay env ep av)\<rparr>"
  have "rg_episodes (put_episode k ?on rg) k = Some ?on" by (simp add: put_episode_def)
  then have "\<exists>ids. rg_episodes (arm_timer env r k (compute_delay env ep av) rg) k = Some (?on\<lparr>ep_emitted := ids\<rparr>)"
    unfolding arm_timer_def assms(1) option.case by (rule emit_episode)
  with True assms show ?thesis by (auto simp: arm_or_stop_def Let_def)
next
  case False
  then show ?thesis using stop_timer [OF assms] assms(1) by (auto simp: arm_or_stop_def Let_def)
qed

section \<open>A timer is armed exactly when policy allows\<close>

lemma failure_milestone:
  "on_failure env a r rg = (case open_episode env a r rg of (k, rg1) \<Rightarrow>
     (case rg_episodes (emit k Ev_Failure (en_event_id e) (ru_id r) (''class='' @ class_value (ef_class (en_failure e))) rg1) k of
        None \<Rightarrow> emit k Ev_Failure (en_event_id e) (ru_id r) (''class='' @ class_value (ef_class (en_failure e))) rg1
      | Some ep \<Rightarrow>
          (let rg2 = emit k Ev_Failure (en_event_id e) (ru_id r) (''class='' @ class_value (ef_class (en_failure e))) rg1 in
           case refused_early (rv_config env) a e ep of
             Some (reason, report) \<Rightarrow> stop_episode k reason (Some report) rg2
           | None \<Rightarrow>
               (case resolve_lineage_key a e rg2 of (key, rg3) \<Rightarrow>
                  case refused_late env a r ep (int_get (rg_lineage rg3) key) of
                    Some (reason, report) \<Rightarrow> stop_episode k reason (Some report) rg3
                  | None \<Rightarrow> arm_or_stop env r k (available_now env (ag_id a)) (put_episode k (set_pending e key ep) rg3)))))"
  if "ru_failure r = Some e"
  using that by (simp add: on_failure_def Let_def split: prod.split option.split)

text \<open>
  C7. The controller arms the timer of the episode for a failed run exactly when every gate of
  policy lets it pass, and the timer sleeps for the computed delay.
\<close>

theorem retry_armed_exactly:
  assumes e: "ru_failure r = Some e" and o: "open_episode env a r rg = (k, rg1)" and ep: "rg_episodes rg1 k = Some ep"
    and res: "resolve_lineage_key a e rg1 = (key, rg2)"
  shows "\<exists>ep'. rg_episodes (on_failure env a r rg) k = Some ep' \<and>
    ep_timer ep' =
      (if retry_allowed env a r e ep (int_get (rg_lineage rg2) key) \<and>
          retry_delay env a e key ep \<le> episode_deadline ep - rv_epoch env
       then Some (ru_id r, retry_delay env a e key ep) else None)"
proof -
  let ?rg2 = "emit k Ev_Failure (en_event_id e) (ru_id r) (''class='' @ class_value (ef_class (en_failure e))) rg1"
  obtain ids where ep2: "rg_episodes ?rg2 k = Some (ep\<lparr>ep_emitted := ids\<rparr>)" using emit_episode [OF ep] by blast
  define f where "f = ep\<lparr>ep_emitted := ids\<rparr>"
  have f: "rg_episodes ?rg2 k = Some f" using ep2 by (simp add: f_def)
  have active: "ep_active f" using open_active [OF o ep] by (simp add: f_def)
  obtain key' rg3 where r3: "resolve_lineage_key a e ?rg2 = (key', rg3)" by force
  have key: "key' = key" "rg_lineage rg3 = rg_lineage rg2"
    using lineage_frame [of ?rg2 rg1 a e] res r3 by simp_all
  have f3: "rg_episodes rg3 k = Some f"
    using r3 f by (auto simp: resolve_lineage_key_def Let_def split: prod.splits if_splits)
  let ?n = "int_get (rg_lineage rg2) key"
  have run: "on_failure env a r rg =
      (case refused_early (rv_config env) a e f of
         Some (reason, report) \<Rightarrow> stop_episode k reason (Some report) ?rg2
       | None \<Rightarrow>
           (case refused_late env a r f ?n of
              Some (reason, report) \<Rightarrow> stop_episode k reason (Some report) rg3
            | None \<Rightarrow> arm_or_stop env r k (available_now env (ag_id a)) (put_episode k (set_pending e key f) rg3)))"
    unfolding failure_milestone [OF e] o prod.case f option.case r3 Let_def key ..
  have same: "retry_allowed env a r e ep ?n = retry_allowed env a r e f ?n"
    "retry_delay env a e key ep = retry_delay env a e key f" "episode_deadline ep = episode_deadline f"
    by (simp_all add: f_def)
  show ?thesis
  proof (cases "retry_allowed env a r e f ?n")
    case True
    then have go: "refused_early (rv_config env) a e f = None" "refused_late env a r f ?n = None"
      by (simp_all add: gates_pass)
    have put: "rg_episodes (put_episode k (set_pending e key f) rg3) k = Some (set_pending e key f)"
      "ep_active (set_pending e key f)" and dl: "episode_deadline (set_pending e key f) = episode_deadline f"
      using active by (simp_all add: put_episode_def set_pending_def episode_deadline_def)
    show ?thesis
      using arm_or_stop_timer [OF put, of env r "available_now env (ag_id a)"] True
      unfolding dl retry_delay_def [symmetric] unfolding same unfolding run go option.case by (simp only: simp_thms)
  next
    case False
    then have "refused_early (rv_config env) a e f \<noteq> None \<or> refused_late env a r f ?n \<noteq> None"
      by (simp add: gates_pass)
    then show ?thesis
      using False stop_timer [OF f active] stop_timer [OF f3 active]
      by (auto simp: run same split: option.split)
  qed
qed

text \<open>A stalled run of a suspended agent is retried after the first cooldown.\<close>

definition stalled_agent :: agent where
  "stalled_agent = (new_agent ''agent-1'' ''worker'' ''main'' 0 False [asked])
     \<lparr>ag_state := Suspended, ag_latest := Some ''r1'', ag_history := [failed_run ''agent-1'' ''r1'' Eligible None]\<rparr>"

definition stalled_registry :: recovery_registry where
  "stalled_registry = put_record stalled_agent (empty_registry ''main'' 4)"

definition opened :: "nat \<times> recovery_registry" where
  "opened = open_episode (sample_env 1) stalled_agent (failed_run ''agent-1'' ''r1'' Eligible None) stalled_registry"

theorem retry_armed_exactly_witness:
  "\<exists>ep'. rg_episodes (on_failure (sample_env 1) stalled_agent (failed_run ''agent-1'' ''r1'' Eligible None) stalled_registry) 0 =
     Some ep' \<and> ep_timer ep' = Some (''r1'', 30)"
proof -
  let ?r = "failed_run ''agent-1'' ''r1'' Eligible None" and ?e = "sample_envelope ''agent-1'' ''r1'' Eligible None"
  let ?ep = "new_episode ''agent-1'' ''chain-r1'' 0 sample_config"
  have e: "ru_failure ?r = Some ?e" by (simp add: failed_run_def)
  have o: "open_episode (sample_env 1) stalled_agent ?r stalled_registry = (0, snd opened)"
    by (simp add: opened_def open_episode_def episode_at_def stalled_registry_def empty_registry_def put_record_def Let_def)
  have ep: "rg_episodes (snd opened) 0 = Some ?ep"
    by (simp add: opened_def open_episode_def episode_at_def stalled_registry_def empty_registry_def put_record_def Let_def
        put_episode_def failure_chain_def failed_run_def or_else_def stalled_agent_def new_agent_def sample_envelope_def
        sample_env_def)
  have allowed: "retry_allowed (sample_env 1) stalled_agent ?r ?e ?ep 0" by code_simp
  have delay: "retry_delay (sample_env 1) stalled_agent ?e k ?ep = 30" for k by code_simp
  obtain key rg2 where res: "resolve_lineage_key stalled_agent ?e (snd opened) = (key, rg2)" by force
  have "rg_lineage (snd (resolve_lineage_key stalled_agent ?e (snd opened))) = []" by code_simp
  then have "rg_lineage rg2 = []" using res by simp
  moreover have "episode_deadline ?ep - rv_epoch (sample_env 1) = 599" "ru_id ?r = ''r1''" by code_simp+
  ultimately show ?thesis
    using retry_armed_exactly [OF e o ep res] allowed delay by (simp add: int_get_def)
qed

section \<open>A server's own delay can be undercut\<close>

text \<open>
  The jitter is symmetric and applied last, so the timer can wake before the cooldown and before the
  time a \<open>Retry-After\<close> asked for.
\<close>

lemma jitter_undercuts_retry_after:
  "compute_delay ((sample_env 1)\<lparr>rv_draw := 0\<rparr>)
     ((new_episode ''agent-1'' ''chain-r1'' 0 sample_config)\<lparr>ep_jitter := 1 / 4, ep_retry_after := 80\<rparr>)
     \<lparr>av_available = True, av_permanent = False, av_next_check = 0, av_endpoint_blocked = False\<rparr> = 60"
  by code_simp

section \<open>The accounting of a retry can strand its episode\<close>

text \<open>
  When the successor of a retry fails before the retry is accounted, the failure has armed the next
  timer; the accounting then clears the pin that timer is checked against, and the timer wakes to
  nothing.  The episode stays active with no timer.
\<close>

lemma accounting_strands_timer:
  assumes "rg_episodes rg k = Some ep" "ep_active ep" "ep_timer ep = Some (failed, delay)" "rs_outcome res = Scheduled"
  shows "\<exists>ep'. rg_episodes (account_admission k res rg) k = Some ep' \<and> ep_active ep' \<and> ep_scheduled ep' = None \<and>
    ep_timer ep' = Some (failed, delay) \<and>
    timer_wakes env k failed (account_admission k res rg) =
      (put_episode k (ep'\<lparr>ep_timer := None\<rparr>) (account_admission k res rg), None)"
proof -
  let ?ep1 = "ep\<lparr>ep_used := ep_used ep + 1, ep_launch_used := ep_launch_used ep + of_bool (ep_launch_pending ep),
    ep_scheduled := None\<rparr>"
  have "rg_episodes (put_episode k ?ep1 (count_admission ep rg)) k = Some ?ep1" by (simp add: put_episode_def)
  then have "\<exists>ids. rg_episodes (account_admission k res rg) k = Some (?ep1\<lparr>ep_emitted := ids\<rparr>)"
    using assms by (simp only: account_admission_def option.case assms resume_outcome.case Let_def if_False not_True_eq_False)
      (rule emit_episode)
  then obtain ids where ids: "rg_episodes (account_admission k res rg) k = Some (?ep1\<lparr>ep_emitted := ids\<rparr>)" by blast
  with assms show ?thesis by (simp add: timer_wakes_def Let_def)
qed

end
