(* ===== verification/Override_Ledger.thy ===== *)
theory Override_Ledger
  imports Endpoint
begin

text \<open>
  The ledger of forced attempts (\<open>core/recovery_override.py\<close>): an explicit request may attempt a
  completion past the cooldown of an endpoint, metered per endpoint and episode.  The clock is an
  argument of the operations that read it.
\<close>

section \<open>The state\<close>

definition max_forced_starts :: int where "max_forced_starts = 2"
definition start_spacing_seconds :: rat where "start_spacing_seconds = 30"

text \<open>\<open>None\<close> is the \<open>ValueError\<close> of a bound that is not positive.\<close>

definition episode_pressure_bound :: "rat \<Rightarrow> int \<Rightarrow> rat \<Rightarrow> int option" where
  "episode_pressure_bound elapsed max_starts spacing =
     (if max_starts < 1 \<or> spacing \<le> 0 then None
      else Some (if elapsed \<le> 0 then 1 else min max_starts (1 + \<lfloor>elapsed / spacing\<rfloor>)))"

datatype override_transition = Tr_Reserve | Tr_Start | Tr_Release
datatype override_phase = Ph_Reserved | Ph_Started | Ph_Released_Pretransport
datatype override_denial =
  Dn_Unknown_Endpoint | Dn_No_Active_Episode | Dn_Episode_Exhausted | Dn_Spacing_Exceeded
  | Dn_Attempt_In_Flight | Dn_Episode_Closed | Dn_Unknown_Permit

record override_permit =
  pt_token :: nat
  pt_endpoint :: string
  pt_episode :: nat
  pt_issued_at :: rat

record ledger_outcome =
  lo_transition :: override_transition
  lo_phase :: "override_phase option"
  lo_denial :: "override_denial option"
  lo_permit :: "override_permit option"

record endpoint_episode =
  ee_id :: nat
  ee_opened_at :: rat
  ee_starts_used :: int
  ee_last_started_at :: "rat option"

record override_state =
  ov_episode :: "endpoint_episode option"
  ov_outstanding :: "override_permit option"

record override_ledger =
  ld_max_starts :: int
  ld_spacing :: rat
  ld_states :: "(string \<times> override_state) list"
  ld_next_token :: nat
  ld_next_episode :: nat

definition new_ledger :: "int \<Rightarrow> rat \<Rightarrow> override_ledger option" where
  "new_ledger max_starts spacing =
     (if max_starts < 1 \<or> spacing \<le> 0 then None
      else Some \<lparr>ld_max_starts = max_starts, ld_spacing = spacing, ld_states = [], ld_next_token = 0, ld_next_episode = 0\<rparr>)"

definition ledger_state :: "override_ledger \<Rightarrow> string \<Rightarrow> override_state option" where
  "ledger_state ld e = map_of (ld_states ld) e"

definition put_state :: "string \<Rightarrow> override_state \<Rightarrow> override_ledger \<Rightarrow> override_ledger" where
  "put_state e st ld = ld\<lparr>ld_states := dict_set e st (ld_states ld)\<rparr>"

definition active_episode :: "override_ledger \<Rightarrow> string \<Rightarrow> endpoint_episode option" where
  "active_episode ld e = Option.bind (ledger_state ld e) ov_episode"

definition outstanding_permit :: "override_ledger \<Rightarrow> string \<Rightarrow> override_permit option" where
  "outstanding_permit ld e = Option.bind (ledger_state ld e) ov_outstanding"

definition denied :: "override_transition \<Rightarrow> override_denial \<Rightarrow> ledger_outcome" where
  "denied t d = \<lparr>lo_transition = t, lo_phase = None, lo_denial = Some d, lo_permit = None\<rparr>"

section \<open>Episodes\<close>

definition note_endpoint_failure :: "(string \<Rightarrow> bool) \<Rightarrow> rat \<Rightarrow> string option \<Rightarrow> override_ledger \<Rightarrow> bool \<times> override_ledger" where
  "note_endpoint_failure netloc_ok now endpoint ld =
     (case canonical_endpoint_identity netloc_ok endpoint of
        None \<Rightarrow> (False, ld)
      | Some e \<Rightarrow>
          if active_episode ld e \<noteq> None then (False, ld)
          else
            let i = ld_next_episode ld + 1;
                st = (case ledger_state ld e of None \<Rightarrow> \<lparr>ov_episode = None, ov_outstanding = None\<rparr> | Some st \<Rightarrow> st);
                ep = \<lparr>ee_id = i, ee_opened_at = now, ee_starts_used = 0, ee_last_started_at = None\<rparr>
            in (True, put_state e (st\<lparr>ov_episode := Some ep\<rparr>) (ld\<lparr>ld_next_episode := i\<rparr>)))"

definition note_endpoint_recovery :: "(string \<Rightarrow> bool) \<Rightarrow> string option \<Rightarrow> override_ledger \<Rightarrow> bool \<times> override_ledger" where
  "note_endpoint_recovery netloc_ok endpoint ld =
     (case canonical_endpoint_identity netloc_ok endpoint of
        None \<Rightarrow> (False, ld)
      | Some e \<Rightarrow>
          (case ledger_state ld e of
             None \<Rightarrow> (False, ld)
           | Some st \<Rightarrow> if ov_episode st = None then (False, ld) else (True, put_state e (st\<lparr>ov_episode := None\<rparr>) ld)))"

section \<open>Permits\<close>

definition pressure_bound :: "override_ledger \<Rightarrow> endpoint_episode \<Rightarrow> rat \<Rightarrow> int" where
  "pressure_bound ld ep now =
     (case episode_pressure_bound (now - ee_opened_at ep) (ld_max_starts ld) (ld_spacing ld) of
        None \<Rightarrow> 0 | Some b \<Rightarrow> b)"

text \<open>The clock is read for the bound and again for the permit.\<close>

definition reserve_permit ::
  "(string \<Rightarrow> bool) \<Rightarrow> rat \<Rightarrow> rat \<Rightarrow> string option \<Rightarrow> override_ledger \<Rightarrow> ledger_outcome \<times> override_ledger" where
  "reserve_permit netloc_ok now issued endpoint ld =
     (case canonical_endpoint_identity netloc_ok endpoint of
        None \<Rightarrow> (denied Tr_Reserve Dn_Unknown_Endpoint, ld)
      | Some e \<Rightarrow>
          (case ledger_state ld e of
             None \<Rightarrow> (denied Tr_Reserve Dn_No_Active_Episode, ld)
           | Some st \<Rightarrow>
               (case ov_episode st of
                  None \<Rightarrow> (denied Tr_Reserve Dn_No_Active_Episode, ld)
                | Some ep \<Rightarrow>
                    if ov_outstanding st \<noteq> None then (denied Tr_Reserve Dn_Attempt_In_Flight, ld)
                    else if ee_starts_used ep \<ge> ld_max_starts ld then (denied Tr_Reserve Dn_Episode_Exhausted, ld)
                    else if ee_starts_used ep + 1 > pressure_bound ld ep now then (denied Tr_Reserve Dn_Spacing_Exceeded, ld)
                    else
                      let t = ld_next_token ld + 1;
                          p = \<lparr>pt_token = t, pt_endpoint = e, pt_episode = ee_id ep, pt_issued_at = issued\<rparr>
                      in (\<lparr>lo_transition = Tr_Reserve, lo_phase = Some Ph_Reserved, lo_denial = None, lo_permit = Some p\<rparr>,
                          put_state e (st\<lparr>ov_outstanding := Some p\<rparr>) (ld\<lparr>ld_next_token := t\<rparr>)))))"

definition reservation_token_matches :: "override_ledger \<Rightarrow> override_permit \<Rightarrow> bool" where
  "reservation_token_matches ld p \<longleftrightarrow>
     (case outstanding_permit ld (pt_endpoint p) of None \<Rightarrow> False | Some q \<Rightarrow> pt_token q = pt_token p)"

definition permit_outstanding :: "override_ledger \<Rightarrow> override_permit \<Rightarrow> bool" where
  "permit_outstanding ld p \<longleftrightarrow>
     reservation_token_matches ld p \<and>
     (case active_episode ld (pt_endpoint p) of None \<Rightarrow> False | Some ep \<Rightarrow> ee_id ep = pt_episode p)"

definition clear_outstanding :: "string \<Rightarrow> override_ledger \<Rightarrow> override_ledger" where
  "clear_outstanding e ld =
     (case ledger_state ld e of None \<Rightarrow> ld | Some st \<Rightarrow> put_state e (st\<lparr>ov_outstanding := None\<rparr>) ld)"

definition start_permit :: "rat \<Rightarrow> override_permit \<Rightarrow> override_ledger \<Rightarrow> ledger_outcome \<times> override_ledger" where
  "start_permit now p ld =
     (if \<not> reservation_token_matches ld p then (denied Tr_Start Dn_Unknown_Permit, ld)
      else case active_episode ld (pt_endpoint p) of
        None \<Rightarrow> (denied Tr_Start Dn_Episode_Closed, ld)
      | Some ep \<Rightarrow>
          if ee_id ep \<noteq> pt_episode p then (denied Tr_Start Dn_Episode_Closed, ld)
          else if (case ee_last_started_at ep of None \<Rightarrow> False | Some t \<Rightarrow> now - t < ld_spacing ld)
          then (denied Tr_Start Dn_Spacing_Exceeded, ld)
          else if ee_starts_used ep + 1 > pressure_bound ld ep now
          then (denied Tr_Start (if ee_starts_used ep \<ge> ld_max_starts ld then Dn_Episode_Exhausted else Dn_Spacing_Exceeded), ld)
          else
            (\<lparr>lo_transition = Tr_Start, lo_phase = Some Ph_Started, lo_denial = None, lo_permit = Some p\<rparr>,
             put_state (pt_endpoint p)
               \<lparr>ov_episode = Some (ep\<lparr>ee_starts_used := ee_starts_used ep + 1, ee_last_started_at := Some now\<rparr>),
                ov_outstanding = None\<rparr> ld))"

definition release_permit :: "override_permit \<Rightarrow> override_ledger \<Rightarrow> ledger_outcome \<times> override_ledger" where
  "release_permit p ld =
     (if \<not> reservation_token_matches ld p then (denied Tr_Release Dn_Unknown_Permit, ld)
      else (\<lparr>lo_transition = Tr_Release, lo_phase = Some Ph_Released_Pretransport, lo_denial = None, lo_permit = None\<rparr>,
            clear_outstanding (pt_endpoint p) ld))"

section \<open>Diagnostics\<close>

record override_episode_status =
  es_id :: nat
  es_opened_at :: rat
  es_starts_used :: int
  es_max_starts :: int
  es_spacing :: rat
  es_last_started_at :: "rat option"

definition starts_remaining :: "override_episode_status \<Rightarrow> int" where
  "starts_remaining s = max 0 (es_max_starts s - es_starts_used s)"

definition next_start_delay_seconds :: "rat \<Rightarrow> override_episode_status \<Rightarrow> rat option" where
  "next_start_delay_seconds now s =
     (if es_starts_used s \<ge> es_max_starts s then None
      else
        let t = es_opened_at s + of_int (es_starts_used s) * es_spacing s;
            t = (case es_last_started_at s of None \<Rightarrow> t | Some l \<Rightarrow> max t (l + es_spacing s))
        in Some (max 0 (t - now)))"

definition episode_status :: "(string \<Rightarrow> bool) \<Rightarrow> string option \<Rightarrow> override_ledger \<Rightarrow> override_episode_status option" where
  "episode_status netloc_ok endpoint ld =
     Option.bind (canonical_endpoint_identity netloc_ok endpoint) (\<lambda>e.
       map_option (\<lambda>ep. \<lparr>es_id = ee_id ep, es_opened_at = ee_opened_at ep, es_starts_used = ee_starts_used ep,
           es_max_starts = ld_max_starts ld, es_spacing = ld_spacing ld, es_last_started_at = ee_last_started_at ep\<rparr>)
         (active_episode ld e))"

end
