(* ===== verification/Ledger_Props.thy ===== *)
theory Ledger_Props
  imports Override_Ledger
begin

text \<open>
  What any sequence of calls of the ledger guarantees: forced starts of an episode are spaced, and
  nothing but a measured recovery followed by a measured failure gives an endpoint new ones.
\<close>

section \<open>Sequences of calls\<close>

datatype ledger_call =
  Note_Failure "string option" rat | Note_Recovery "string option"
  | Reserve_Permit "string option" rat rat | Start_Permit override_permit rat | Release_Permit override_permit

record forced_start =
  fs_endpoint :: string
  fs_episode :: nat
  fs_time :: rat

text \<open>The ledger with the starts it granted, newest first.\<close>

type_synonym metered = "override_ledger \<times> forced_start list"

definition granted :: "override_permit \<Rightarrow> rat \<Rightarrow> ledger_outcome \<Rightarrow> forced_start list" where
  "granted p now out =
     (if lo_phase out = Some Ph_Started
      then [\<lparr>fs_endpoint = pt_endpoint p, fs_episode = pt_episode p, fs_time = now\<rparr>] else [])"

fun perform_call :: "(string \<Rightarrow> bool) \<Rightarrow> ledger_call \<Rightarrow> metered \<Rightarrow> metered" where
  "perform_call ok (Note_Failure e now) (ld, ss) = (snd (note_endpoint_failure ok now e ld), ss)"
| "perform_call ok (Note_Recovery e) (ld, ss) = (snd (note_endpoint_recovery ok e ld), ss)"
| "perform_call ok (Reserve_Permit e now issued) (ld, ss) = (snd (reserve_permit ok now issued e ld), ss)"
| "perform_call ok (Start_Permit p now) (ld, ss) =
     (snd (start_permit now p ld), granted p now (fst (start_permit now p ld)) @ ss)"
| "perform_call ok (Release_Permit p) (ld, ss) = (snd (release_permit p ld), ss)"

definition perform_calls :: "(string \<Rightarrow> bool) \<Rightarrow> ledger_call list \<Rightarrow> metered \<Rightarrow> metered" where
  "perform_calls ok cs x = fold (perform_call ok) cs x"

text \<open>The measured recoveries of an endpoint among the calls.\<close>

definition recoveries :: "(string \<Rightarrow> bool) \<Rightarrow> string \<Rightarrow> ledger_call list \<Rightarrow> nat" where
  "recoveries ok e cs =
     length (filter (\<lambda>c. case c of Note_Recovery x \<Rightarrow> canonical_endpoint_identity ok x = Some e | _ \<Rightarrow> False) cs)"

definition starts_on :: "string \<Rightarrow> forced_start list \<Rightarrow> int" where
  "starts_on e ss = int (length (filter (\<lambda>s. fs_endpoint s = e) ss))"

section \<open>Views of the state\<close>

lemma ledger_state_put [simp]: "ledger_state (put_state e st ld) = (ledger_state ld)(e \<mapsto> st)"
  by (simp add: ledger_state_def put_state_def fun_eq_iff)

lemma put_state_fields [simp]:
  "ld_max_starts (put_state e st ld) = ld_max_starts ld" "ld_spacing (put_state e st ld) = ld_spacing ld"
  "ld_next_token (put_state e st ld) = ld_next_token ld" "ld_next_episode (put_state e st ld) = ld_next_episode ld"
  by (simp_all add: put_state_def)

lemma active_put [simp]:
  "active_episode (put_state e st ld) x = (if x = e then ov_episode st else active_episode ld x)"
  by (simp add: active_episode_def)

lemma ledger_state_counters [simp]:
  "ledger_state (ld\<lparr>ld_next_token := t\<rparr>) = ledger_state ld" "ledger_state (ld\<lparr>ld_next_episode := n\<rparr>) = ledger_state ld"
  by (simp_all add: ledger_state_def fun_eq_iff)

lemma active_counters [simp]:
  "active_episode (ld\<lparr>ld_next_token := t\<rparr>) = active_episode ld"
  "active_episode (ld\<lparr>ld_next_episode := n\<rparr>) = active_episode ld"
  by (simp_all add: active_episode_def fun_eq_iff)

text \<open>What the operations do to the active episodes.\<close>

lemma failure_episodes:
  "\<exists>e. snd (note_endpoint_failure ok now x ld) = ld \<or>
    active_episode ld e = None \<and>
    active_episode (snd (note_endpoint_failure ok now x ld)) = (active_episode ld)(e \<mapsto>
      \<lparr>ee_id = ld_next_episode ld + 1, ee_opened_at = now, ee_starts_used = 0, ee_last_started_at = None\<rparr>) \<and>
    ld_next_episode (snd (note_endpoint_failure ok now x ld)) = ld_next_episode ld + 1"
  by (auto simp: note_endpoint_failure_def Let_def fun_eq_iff split: option.split)

lemma recovery_episodes:
  "active_episode (snd (note_endpoint_recovery ok x ld)) = active_episode ld \<and>
     (\<forall>e. canonical_endpoint_identity ok x = Some e \<longrightarrow> active_episode ld e = None) \<or>
   (\<exists>e. canonical_endpoint_identity ok x = Some e \<and>
     active_episode (snd (note_endpoint_recovery ok x ld)) = (active_episode ld)(e := None))"
  by (auto simp: note_endpoint_recovery_def active_episode_def fun_eq_iff split: option.split)

lemma reserve_episodes: "active_episode (snd (reserve_permit ok now issued x ld)) = active_episode ld"
  by (auto simp: reserve_permit_def active_episode_def Let_def fun_eq_iff split: option.split)

lemma release_episodes: "active_episode (snd (release_permit p ld)) = active_episode ld"
  by (auto simp: release_permit_def clear_outstanding_def active_episode_def fun_eq_iff split: option.split)

lemma operation_fields:
  "ld_max_starts (snd (note_endpoint_failure ok now x ld)) = ld_max_starts ld"
  "ld_spacing (snd (note_endpoint_failure ok now x ld)) = ld_spacing ld"
  "ld_max_starts (snd (note_endpoint_recovery ok x ld)) = ld_max_starts ld"
  "ld_spacing (snd (note_endpoint_recovery ok x ld)) = ld_spacing ld"
  "ld_next_episode (snd (note_endpoint_recovery ok x ld)) = ld_next_episode ld"
  "ld_max_starts (snd (reserve_permit ok now issued x ld)) = ld_max_starts ld"
  "ld_spacing (snd (reserve_permit ok now issued x ld)) = ld_spacing ld"
  "ld_next_episode (snd (reserve_permit ok now issued x ld)) = ld_next_episode ld"
  "ld_max_starts (snd (release_permit p ld)) = ld_max_starts ld"
  "ld_spacing (snd (release_permit p ld)) = ld_spacing ld"
  "ld_next_episode (snd (release_permit p ld)) = ld_next_episode ld"
  "ld_max_starts (snd (start_permit now p ld)) = ld_max_starts ld"
  "ld_spacing (snd (start_permit now p ld)) = ld_spacing ld"
  "ld_next_episode (snd (start_permit now p ld)) = ld_next_episode ld"
  by (simp_all add: note_endpoint_failure_def note_endpoint_recovery_def reserve_permit_def release_permit_def
      start_permit_def clear_outstanding_def Let_def split: option.split)

text \<open>A start: refused without effect, or granted to the active episode of the permit.\<close>

lemma start_cases:
  obtains (refused) "snd (start_permit now p ld) = ld" "granted p now (fst (start_permit now p ld)) = []"
  | (started) ep where "active_episode ld (pt_endpoint p) = Some ep" "ee_id ep = pt_episode p"
      "\<forall>t. ee_last_started_at ep = Some t \<longrightarrow> ld_spacing ld \<le> now - t"
      "ee_starts_used ep + 1 \<le> pressure_bound ld ep now"
      "granted p now (fst (start_permit now p ld)) =
         [\<lparr>fs_endpoint = pt_endpoint p, fs_episode = pt_episode p, fs_time = now\<rparr>]"
      "active_episode (snd (start_permit now p ld)) = (active_episode ld)(pt_endpoint p \<mapsto>
         ep\<lparr>ee_starts_used := ee_starts_used ep + 1, ee_last_started_at := Some now\<rparr>)"
proof (cases "reservation_token_matches ld p")
  case False
  with refused show thesis by (simp add: start_permit_def granted_def denied_def)
next
  case match: True
  show thesis
  proof (cases "active_episode ld (pt_endpoint p)")
    case None
    with match refused show thesis by (simp add: start_permit_def granted_def denied_def)
  next
    case (Some ep)
    show thesis
    proof (cases "ee_id ep = pt_episode p \<and> (\<forall>t. ee_last_started_at ep = Some t \<longrightarrow> ld_spacing ld \<le> now - t) \<and>
        ee_starts_used ep + 1 \<le> pressure_bound ld ep now")
      case True
      then have nolast: "\<not> (case ee_last_started_at ep of None \<Rightarrow> False | Some t \<Rightarrow> now - t < ld_spacing ld)"
        by (auto split: option.split)
      with True match Some show thesis
        by (intro started [of ep]) (auto simp: start_permit_def granted_def fun_eq_iff split: option.split)
    next
      case False
      then have "snd (start_permit now p ld) = ld \<and> granted p now (fst (start_permit now p ld)) = []"
        using match Some by (auto simp: start_permit_def granted_def denied_def split: option.splits)
      with refused show thesis by blast
    qed
  qed
qed

section \<open>The invariant\<close>

definition spaced :: "rat \<Rightarrow> forced_start \<Rightarrow> forced_start \<Rightarrow> bool" where
  "spaced spacing newer older \<longleftrightarrow> (fs_episode newer = fs_episode older \<longrightarrow> spacing \<le> fs_time newer - fs_time older)"

text \<open>\<open>n e\<close> is the number of measured recoveries of the endpoint so far.\<close>

definition episode_ok :: "(string \<Rightarrow> nat) \<Rightarrow> override_ledger \<Rightarrow> forced_start list \<Rightarrow> string \<Rightarrow> endpoint_episode \<Rightarrow> bool" where
  "episode_ok n ld ss e ep \<longleftrightarrow>
     ee_id ep \<le> ld_next_episode ld \<and> 0 \<le> ee_starts_used ep \<and> ee_starts_used ep \<le> ld_max_starts ld \<and>
     starts_on e ss + (ld_max_starts ld - ee_starts_used ep) \<le> ld_max_starts ld * (1 + int (n e)) \<and>
     (\<forall>s \<in> set ss. fs_episode s = ee_id ep \<longrightarrow> (\<exists>t. ee_last_started_at ep = Some t \<and> fs_time s \<le> t))"

definition meter_ok :: "(string \<Rightarrow> nat) \<Rightarrow> metered \<Rightarrow> bool" where
  "meter_ok n x \<longleftrightarrow> (case x of (ld, ss) \<Rightarrow>
     1 \<le> ld_max_starts ld \<and> 0 < ld_spacing ld \<and>
     (\<forall>e ep. active_episode ld e = Some ep \<longrightarrow> episode_ok n ld ss e ep) \<and>
     (\<forall>e. active_episode ld e = None \<longrightarrow> starts_on e ss \<le> ld_max_starts ld * int (n e)) \<and>
     (\<forall>s \<in> set ss. fs_episode s \<le> ld_next_episode ld) \<and>
     (\<forall>e e' ep ep'. active_episode ld e = Some ep \<longrightarrow> active_episode ld e' = Some ep' \<longrightarrow> ee_id ep = ee_id ep' \<longrightarrow> e = e') \<and>
     sorted_wrt (spaced (ld_spacing ld)) ss)"

lemma meter_active: "meter_ok n (ld, ss) \<Longrightarrow> active_episode ld e = Some ep \<Longrightarrow> episode_ok n ld ss e ep"
  by (simp add: meter_ok_def)

lemma meter_idle: "meter_ok n (ld, ss) \<Longrightarrow> active_episode ld e = None \<Longrightarrow> starts_on e ss \<le> ld_max_starts ld * int (n e)"
  by (simp add: meter_ok_def)

lemma meter_unchanged:
  assumes ok: "meter_ok n (ld, ss)" and ep: "active_episode ld' = active_episode ld"
    and f: "ld_max_starts ld' = ld_max_starts ld" "ld_spacing ld' = ld_spacing ld" "ld_next_episode ld' = ld_next_episode ld"
  shows "meter_ok n (ld', ss)"
  using ok by (simp add: meter_ok_def episode_ok_def ep f)

lemma meter_grow:
  assumes ok: "meter_ok n (ld, ss)" and n: "\<And>e. n e \<le> n' e"
  shows "meter_ok n' (ld, ss)"
proof -
  have m: "0 \<le> ld_max_starts ld" using ok by (simp add: meter_ok_def)
  have grow: "ld_max_starts ld * int (n e) \<le> ld_max_starts ld * int (n' e)" for e
    using m n by (simp add: mult_left_mono)
  have grow1: "ld_max_starts ld * (1 + int (n e)) \<le> ld_max_starts ld * (1 + int (n' e))" for e
    using grow [of e] by (simp add: distrib_left)
  have "episode_ok n' ld ss e ep" if "active_episode ld e = Some ep" for e ep
  proof -
    note o = meter_active [OF ok that, unfolded episode_ok_def]
    then have "starts_on e ss + (ld_max_starts ld - ee_starts_used ep) \<le> ld_max_starts ld * (1 + int (n' e))"
      using grow1 [of e] by linarith
    with o show ?thesis unfolding episode_ok_def by blast
  qed
  moreover have "starts_on e ss \<le> ld_max_starts ld * int (n' e)" if "active_episode ld e = None" for e
    using meter_idle [OF ok that] grow [of e] by linarith
  ultimately show ?thesis using ok unfolding meter_ok_def by simp
qed

lemma pressure_limits:
  assumes "1 \<le> ld_max_starts ld" "0 < ld_spacing ld"
  shows "pressure_bound ld ep now \<le> ld_max_starts ld"
  using assms by (simp add: pressure_bound_def episode_pressure_bound_def)

lemma meter_failure:
  assumes ok: "meter_ok n (ld, ss)"
  shows "meter_ok n (snd (note_endpoint_failure netloc now x ld), ss)"
proof -
  obtain e where e: "snd (note_endpoint_failure netloc now x ld) = ld \<or>
      active_episode ld e = None \<and>
      active_episode (snd (note_endpoint_failure netloc now x ld)) = (active_episode ld)(e \<mapsto>
        \<lparr>ee_id = ld_next_episode ld + 1, ee_opened_at = now, ee_starts_used = 0, ee_last_started_at = None\<rparr>) \<and>
      ld_next_episode (snd (note_endpoint_failure netloc now x ld)) = ld_next_episode ld + 1"
    using failure_episodes [of netloc now x ld] by blast
  let ?ld = "snd (note_endpoint_failure netloc now x ld)"
  from e show ?thesis
  proof (elim disjE conjE)
    assume none: "active_episode ld e = None"
      and act: "active_episode ?ld = (active_episode ld)(e \<mapsto>
        \<lparr>ee_id = ld_next_episode ld + 1, ee_opened_at = now, ee_starts_used = 0, ee_last_started_at = None\<rparr>)"
      and nx: "ld_next_episode ?ld = ld_next_episode ld + 1"
    have room: "starts_on e ss \<le> ld_max_starts ld * int (n e)" using ok none by (simp add: meter_ok_def)
    have new: "fs_episode s \<noteq> ld_next_episode ld + 1" if "s \<in> set ss" for s
      using ok that by (fastforce simp: meter_ok_def)
    have "episode_ok n ?ld ss j ep" if "active_episode ?ld j = Some ep" for j ep
    proof (cases "j = e")
      case True
      with that act room new ok show ?thesis
        by (auto simp: episode_ok_def meter_ok_def nx operation_fields distrib_left)
    next
      case False
      with that act have "active_episode ld j = Some ep" by simp
      with ok have "episode_ok n ld ss j ep" by (simp add: meter_ok_def)
      then show ?thesis by (auto simp: episode_ok_def nx operation_fields)
    qed
    moreover have "ee_id ep \<noteq> Suc (ld_next_episode ld) \<and> Suc (ld_next_episode ld) \<noteq> ee_id ep"
      if "active_episode ld j = Some ep" for j ep
      using meter_active [OF ok that] by (simp add: episode_ok_def)
    ultimately show ?thesis
      using ok by (auto simp: meter_ok_def act nx operation_fields le_Suc_eq split: if_splits)
  qed (use ok in simp)
qed

lemma meter_recovery:
  assumes ok: "meter_ok n (ld, ss)"
    and n: "\<And>e. n' e = n e + (if canonical_endpoint_identity netloc x = Some e then 1 else 0)"
  shows "meter_ok n' (snd (note_endpoint_recovery netloc x ld), ss)"
proof -
  let ?ld = "snd (note_endpoint_recovery netloc x ld)"
  from recovery_episodes [of netloc x ld] show ?thesis
  proof (elim disjE conjE exE)
    assume "active_episode ?ld = active_episode ld"
    then have "meter_ok n (?ld, ss)" by (intro meter_unchanged [OF ok]) (simp_all add: operation_fields)
    then show ?thesis by (rule meter_grow) (simp add: n)
  next
    fix e
    assume e: "canonical_endpoint_identity netloc x = Some e" and act: "active_episode ?ld = (active_episode ld)(e := None)"
    have same: "n' j = n j" if "j \<noteq> e" for j using n e that by simp
    have closed: "starts_on e ss \<le> ld_max_starts ld * int (n' e)"
    proof (cases "active_episode ld e")
      case None
      with ok have "starts_on e ss \<le> ld_max_starts ld * int (n e)" "0 \<le> ld_max_starts ld" by (simp_all add: meter_ok_def)
      with n e show ?thesis by (simp add: distrib_left)
    next
      case (Some ep)
      with ok have "episode_ok n ld ss e ep" by (simp add: meter_ok_def)
      with n e show ?thesis by (simp add: episode_ok_def algebra_simps)
    qed
    have "episode_ok n' ?ld ss j ep" if "active_episode ?ld j = Some ep" for j ep
    proof -
      from that act have j: "j \<noteq> e" "active_episode ld j = Some ep" by (auto split: if_splits)
      with ok have "episode_ok n ld ss j ep" by (simp add: meter_ok_def)
      with same [OF j(1)] show ?thesis by (simp add: episode_ok_def operation_fields)
    qed
    moreover have "starts_on j ss \<le> ld_max_starts ld * int (n' j)" if "active_episode ?ld j = None" for j
      using that act closed same [of j] ok by (cases "j = e") (auto simp: meter_ok_def)
    ultimately show ?thesis
      using ok by (auto simp: meter_ok_def act operation_fields split: if_splits)
  qed
qed

lemma meter_start:
  assumes ok: "meter_ok n (ld, ss)"
  shows "meter_ok n (snd (start_permit now p ld), granted p now (fst (start_permit now p ld)) @ ss)"
proof (cases rule: start_cases [of now p ld])
  case refused
  with ok show ?thesis by simp
next
  case (started ep)
  let ?e = "pt_endpoint p" and ?ld = "snd (start_permit now p ld)"
  let ?ep = "ep\<lparr>ee_starts_used := ee_starts_used ep + 1, ee_last_started_at := Some now\<rparr>"
  let ?s = "\<lparr>fs_endpoint = ?e, fs_episode = pt_episode p, fs_time = now\<rparr>"
  have bounds: "1 \<le> ld_max_starts ld" "0 < ld_spacing ld" using ok by (simp_all add: meter_ok_def)
  have epo: "episode_ok n ld ss ?e ep" using ok started(1) by (simp add: meter_ok_def)
  have used: "ee_starts_used ep + 1 \<le> ld_max_starts ld"
    using started(4) pressure_limits [OF bounds] order_trans by blast
  have later: "ld_spacing ld \<le> now - fs_time s" if "s \<in> set ss" "fs_episode s = ee_id ep" for s
    using epo that started(3) by (fastforce simp: episode_ok_def)
  then have before: "fs_time s \<le> now" if "s \<in> set ss" "fs_episode s = ee_id ep" for s
    using that bounds(2) by fastforce
  have mine: "episode_ok n ?ld (?s # ss) ?e ?ep"
    using epo used before by (auto simp: episode_ok_def operation_fields starts_on_def)
  have other: "episode_ok n ?ld (?s # ss) j ep'" if "j \<noteq> ?e" "active_episode ld j = Some ep'" for j ep'
  proof -
    have "ee_id ep' \<noteq> ee_id ep" using ok that started(1) by (fastforce simp: meter_ok_def)
    moreover have "episode_ok n ld ss j ep'" using ok that by (simp add: meter_ok_def)
    ultimately show ?thesis using that started(2) by (auto simp: episode_ok_def operation_fields starts_on_def)
  qed
  have "sorted_wrt (spaced (ld_spacing ld)) (?s # ss)"
    using ok later started(2) by (auto simp: meter_ok_def spaced_def)
  moreover have "starts_on j (?s # ss) \<le> ld_max_starts ld * int (n j)" if "j \<noteq> ?e" "active_episode ld j = None" for j
    using ok that by (simp add: meter_ok_def starts_on_def)
  moreover have "pt_episode p \<le> ld_next_episode ld" using epo started(2) by (simp add: episode_ok_def)
  ultimately show ?thesis
    using ok mine other started(1,5,6)
    by (auto simp: meter_ok_def operation_fields split: if_splits)
qed

lemma recoveries_snoc [simp]:
  "recoveries netloc e (cs @ [c]) = recoveries netloc e cs +
     (case c of Note_Recovery x \<Rightarrow> if canonical_endpoint_identity netloc x = Some e then 1 else 0 | _ \<Rightarrow> 0)"
  by (simp add: recoveries_def split: ledger_call.split)

lemma new_ledger_ok: "new_ledger m sp = Some ld \<Longrightarrow> meter_ok (\<lambda>e. 0) (ld, [])"
  by (auto simp: new_ledger_def meter_ok_def active_episode_def ledger_state_def starts_on_def split: if_splits)

lemma new_ledger_fields: "new_ledger m sp = Some ld \<Longrightarrow> ld_max_starts ld = m \<and> ld_spacing ld = sp"
  by (auto simp: new_ledger_def split: if_splits)

lemma perform_call_fields:
  "ld_max_starts (fst (perform_call netloc c x)) = ld_max_starts (fst x) \<and>
   ld_spacing (fst (perform_call netloc c x)) = ld_spacing (fst x)"
  by (cases c; cases x) (simp_all add: operation_fields)

lemma perform_calls_fields:
  "ld_max_starts (fst (perform_calls netloc cs x)) = ld_max_starts (fst x) \<and>
   ld_spacing (fst (perform_calls netloc cs x)) = ld_spacing (fst x)"
  by (induction cs arbitrary: x) (simp_all add: perform_calls_def perform_call_fields)

lemma meter_calls:
  assumes "meter_ok (\<lambda>e. 0) x"
  shows "meter_ok (\<lambda>e. recoveries netloc e cs) (perform_calls netloc cs x)"
proof (induction cs rule: rev_induct)
  case Nil
  with assms show ?case by (simp add: perform_calls_def recoveries_def)
next
  case (snoc c cs)
  obtain ld ss where s: "perform_calls netloc cs x = (ld, ss)" by force
  then have step: "perform_calls netloc (cs @ [c]) x = perform_call netloc c (ld, ss)"
    by (simp add: perform_calls_def)
  from snoc s have ok: "meter_ok (\<lambda>e. recoveries netloc e cs) (ld, ss)" by simp
  show ?case
  proof (cases c)
    case (Note_Failure e now)
    show ?thesis unfolding step unfolding Note_Failure using meter_failure [OF ok] by simp
  next
    case (Note_Recovery e)
    show ?thesis unfolding step unfolding Note_Recovery perform_call.simps by (rule meter_recovery [OF ok]) simp
  next
    case (Reserve_Permit e now issued)
    have "meter_ok (\<lambda>e. recoveries netloc e cs) (snd (reserve_permit netloc now issued e ld), ss)"
      by (rule meter_unchanged [OF ok]) (simp_all add: reserve_episodes operation_fields)
    then show ?thesis unfolding step unfolding Reserve_Permit by simp
  next
    case (Start_Permit p now)
    show ?thesis unfolding step unfolding Start_Permit using meter_start [OF ok] by simp
  next
    case (Release_Permit p)
    have "meter_ok (\<lambda>e. recoveries netloc e cs) (snd (release_permit p ld), ss)"
      by (rule meter_unchanged [OF ok]) (simp_all add: release_episodes operation_fields)
    then show ?thesis unfolding step unfolding Release_Permit by simp
  qed
qed

section \<open>A sample sequence\<close>

definition sample_url :: string where "sample_url = ''https://a.example/v1''"
definition sample_endpoint :: string where "sample_endpoint = ''a.example''"

definition sample_permit :: "nat \<Rightarrow> nat \<Rightarrow> rat \<Rightarrow> override_permit" where
  "sample_permit t i issued = \<lparr>pt_token = t, pt_endpoint = sample_endpoint, pt_episode = i, pt_issued_at = issued\<rparr>"

text \<open>Two starts of the first episode, a third refused, and one of the next after a recovery.\<close>

definition sample_calls :: "ledger_call list" where
  "sample_calls =
     [Note_Failure (Some sample_url) 0, Reserve_Permit (Some sample_url) 0 0, Start_Permit (sample_permit 1 1 0) 0,
      Reserve_Permit (Some sample_url) 31 31, Start_Permit (sample_permit 2 1 31) 31,
      Reserve_Permit (Some sample_url) 90 90, Note_Recovery (Some sample_url),
      Note_Failure (Some sample_url) 100, Reserve_Permit (Some sample_url) 100 100,
      Start_Permit (sample_permit 3 2 100) 100]"

definition sample_ledger :: override_ledger where
  "sample_ledger = \<lparr>ld_max_starts = 2, ld_spacing = 30, ld_states = [], ld_next_token = 0, ld_next_episode = 0\<rparr>"

definition sample_metered :: metered where
  "sample_metered = perform_calls (\<lambda>_. True) sample_calls (sample_ledger, [])"

lemma sample_new: "new_ledger 2 30 = Some sample_ledger"
  by (simp add: new_ledger_def sample_ledger_def)

lemma sample_run: "perform_calls (\<lambda>_. True) sample_calls (sample_ledger, []) = (fst sample_metered, snd sample_metered)"
  by (simp add: sample_metered_def)

lemma sample_starts:
  "map fs_time (snd sample_metered) = [100, 31, 0] \<and> map fs_episode (snd sample_metered) = [2, 1, 1] \<and>
   starts_on sample_endpoint (snd sample_metered) = 3 \<and> recoveries (\<lambda>_. True) sample_endpoint sample_calls = 1"
  by code_simp

section \<open>What is metered\<close>

text \<open>
  C11. Two forced starts of one episode are at least the spacing apart, in whatever order the calls
  of the ledger come and whatever the clock does.
\<close>

theorem forced_starts_spaced:
  assumes "new_ledger m sp = Some ld0" "perform_calls netloc cs (ld0, []) = (ld, ss)"
  shows "sorted_wrt (\<lambda>newer older. fs_episode newer = fs_episode older \<longrightarrow> sp \<le> fs_time newer - fs_time older) ss"
  using meter_calls [OF new_ledger_ok [OF assms(1)], of netloc cs] perform_calls_fields [of netloc cs "(ld0, [])"]
    new_ledger_fields [OF assms(1)] assms(2)
  by (simp add: meter_ok_def spaced_def [abs_def])

theorem forced_starts_spaced_witness:
  "sorted_wrt (\<lambda>newer older. fs_episode newer = fs_episode older \<longrightarrow> 30 \<le> fs_time newer - fs_time older) (snd sample_metered)
   \<and> map fs_episode (snd sample_metered) = [2, 1, 1] \<and> map fs_time (snd sample_metered) = [100, 31, 0]"
  using forced_starts_spaced [OF sample_new sample_run] sample_starts by blast

text \<open>
  The forced starts an endpoint is granted are bounded by the starts of one episode for its
  first failure and for each measured recovery: releases, elapsed time and repeated failures give
  none back.
\<close>

theorem forced_starts_never_replenished:
  assumes "new_ledger m sp = Some ld0" "perform_calls netloc cs (ld0, []) = (ld, ss)"
  shows "starts_on e ss \<le> m * (1 + int (recoveries netloc e cs))"
proof -
  have ok: "meter_ok (\<lambda>e. recoveries netloc e cs) (ld, ss)"
    using meter_calls [OF new_ledger_ok [OF assms(1)], of netloc cs] assms(2) by simp
  have m: "ld_max_starts ld = m" using perform_calls_fields [of netloc cs "(ld0, [])"] new_ledger_fields [OF assms(1)] assms(2)
    by simp
  show ?thesis
  proof (cases "active_episode ld e")
    case None
    with ok have "starts_on e ss \<le> ld_max_starts ld * int (recoveries netloc e cs)" "0 \<le> ld_max_starts ld"
      by (simp_all add: meter_ok_def)
    with m show ?thesis by (simp add: distrib_left)
  next
    case (Some ep)
    with ok have "episode_ok (\<lambda>e. recoveries netloc e cs) ld ss e ep" by (simp add: meter_ok_def)
    with m show ?thesis by (simp add: episode_ok_def)
  qed
qed

theorem forced_starts_never_replenished_witness:
  "starts_on sample_endpoint (snd sample_metered) \<le> 2 * (1 + int (recoveries (\<lambda>_. True) sample_endpoint sample_calls))
   \<and> starts_on sample_endpoint (snd sample_metered) = 3"
  using forced_starts_never_replenished [OF sample_new sample_run, of sample_endpoint] sample_starts by blast

end
