(* ===== verification/Glob.thy ===== *)
theory Glob
  imports Endpoint
begin

text \<open>
  Matching a name against patterns (\<open>core/utils/matching.py\<close>) with the globs of the library module
  \<open>fnmatch\<close>.  Regular expressions are the parameter \<open>rx\<close>: the answer of a full, case-insensitive
  match, \<open>None\<close> for an expression that does not compile.
\<close>

section \<open>Globs\<close>

datatype glob_item = Any_Text | Any_Char | Literal char | One_Of bool "(char \<times> char) list" | Nothing

definition char_le :: "char \<Rightarrow> char \<Rightarrow> bool" where
  "char_le a b \<longleftrightarrow> (of_char a :: nat) \<le> of_char b"

definition in_ranges :: "char \<Rightarrow> (char \<times> char) list \<Rightarrow> bool" where
  "in_ranges c rs \<longleftrightarrow> list_ex (\<lambda>r. char_le (fst r) c \<and> char_le c (snd r)) rs"

fun glob_match :: "glob_item list \<Rightarrow> string \<Rightarrow> bool" where
  "glob_match [] s \<longleftrightarrow> s = []"
| "glob_match (Any_Text # g) [] \<longleftrightarrow> glob_match g []"
| "glob_match (Any_Text # g) (c # s) \<longleftrightarrow> glob_match g (c # s) \<or> glob_match (Any_Text # g) s"
| "glob_match (i # g) [] \<longleftrightarrow> False"
| "glob_match (Any_Char # g) (c # s) \<longleftrightarrow> glob_match g s"
| "glob_match (Literal d # g) (c # s) \<longleftrightarrow> c = d \<and> glob_match g s"
| "glob_match (One_Of neg rs # g) (c # s) \<longleftrightarrow> in_ranges c rs \<noteq> neg \<and> glob_match g s"
| "glob_match (Nothing # g) (c # s) \<longleftrightarrow> False"

text \<open>The chunks of a class between the hyphens that make ranges.\<close>

definition find_from :: "nat \<Rightarrow> char \<Rightarrow> string \<Rightarrow> nat option" where
  "find_from k c s = map_option (\<lambda>i. k + i) (first_index (\<lambda>x. x = c) (drop k s))"

function range_chunks :: "nat \<Rightarrow> string \<Rightarrow> string list" where
  "range_chunks off s =
     (case find_from off (CHR ''-'') s of
        None \<Rightarrow> [s]
      | Some k \<Rightarrow> take k s # range_chunks 2 (drop (k + 1) s))"
  by pat_completeness auto
termination
proof (relation "measure (\<lambda>(off, s). length s)")
  fix off s k
  assume "find_from off (CHR ''-'') s = Some k"
  then obtain i where "k = off + i" "first_index (\<lambda>x. x = CHR ''-'') (drop off s) = Some i"
    by (auto simp: find_from_def)
  then have "k < length s" using first_index_Some [of "\<lambda>x. x = CHR ''-''" "drop off s" i] by auto
  then show "((2, drop (k + 1) s), off, s) \<in> measure (\<lambda>(off, s). length s)" by simp
qed simp

declare range_chunks.simps [simp del]

text \<open>An empty last chunk is a literal hyphen at the end of the one before it.\<close>

definition close_chunks :: "string list \<Rightarrow> string list" where
  "close_chunks cs =
     (if last cs = [] then butlast (butlast cs) @ [last (butlast cs) @ ''-''] else cs)"

text \<open>Ranges that are empty are dropped from the right, with their two ends.\<close>

fun drop_empty_ranges :: "string list \<Rightarrow> string list" where
  "drop_empty_ranges [] = []"
| "drop_empty_ranges (c # cs) =
     (case drop_empty_ranges cs of
        [] \<Rightarrow> [c]
      | d # ds \<Rightarrow> if \<not> char_le (last c) (hd d) then (butlast c @ tl d) # ds else c # d # ds)"

fun chunk_ranges :: "string list \<Rightarrow> (char \<times> char) list" where
  "chunk_ranges [] = []"
| "chunk_ranges [c] = map (\<lambda>x. (x, x)) c"
| "chunk_ranges (c # d # ds) = map (\<lambda>x. (x, x)) c @ (last c, hd d) # chunk_ranges (d # ds)"

definition class_item :: "string \<Rightarrow> glob_item" where
  "class_item body =
     (let chunks =
        (if CHR ''-'' \<notin> set body then [body]
         else drop_empty_ranges (close_chunks (range_chunks (if take 1 body = ''!'' then 2 else 1) body)))
      in if chunks = [[]] then Nothing
         else if chunks = [''!''] then Any_Char
         else if take 1 (hd chunks) = ''!'' then One_Of True (chunk_ranges (tl (hd chunks) # tl chunks))
         else One_Of False (chunk_ranges chunks))"

text \<open>The text of a class after its opening bracket, and what follows the closing one.\<close>

definition split_class :: "string \<Rightarrow> (string \<times> string) option" where
  "split_class s =
     (let a = (if take 1 s = ''!'' then 1 else 0);
          b = (if take 1 (drop a s) = '']'' then a + 1 else a)
      in map_option (\<lambda>j. (take j s, drop (j + 1) s)) (find_from b (CHR '']'') s))"

function glob_items :: "string \<Rightarrow> glob_item list" where
  "glob_items [] = []"
| "glob_items (c # s) =
     (if c = CHR ''*'' then Any_Text # glob_items s
      else if c = CHR ''?'' then Any_Char # glob_items s
      else if c = CHR ''['' then
        (case split_class s of
           None \<Rightarrow> Literal c # glob_items s
         | Some (body, rest) \<Rightarrow> class_item body # glob_items rest)
      else Literal c # glob_items s)"
  by pat_completeness auto
termination
proof (relation "measure length")
  fix c :: char and s x body rest
  assume "split_class s = Some x" "(body, rest) = x"
  then show "(rest, c # s) \<in> measure length" by (auto simp: split_class_def Let_def split: if_splits)
qed simp_all

definition fnmatch :: "string \<Rightarrow> string \<Rightarrow> bool" where
  "fnmatch name pat \<longleftrightarrow> glob_match (glob_items pat) name"

section \<open>Names and patterns\<close>

type_synonym regex = "string \<Rightarrow> string \<Rightarrow> bool option"

definition pattern_matches :: "regex \<Rightarrow> string \<Rightarrow> string \<Rightarrow> bool" where
  "pattern_matches rx name raw \<longleftrightarrow>
     (let p = py_strip raw
      in if p = [] then False
         else if take 3 p = ''re:'' then rx (drop 3 p) name = Some True
         else fnmatch (py_lower name) (py_lower p))"

definition name_matches :: "regex \<Rightarrow> string \<Rightarrow> string list \<Rightarrow> bool" where
  "name_matches rx name patterns \<longleftrightarrow> list_ex (pattern_matches rx name) patterns"

section \<open>What a glob means\<close>

lemma glob_match_star: "glob_match (Any_Text # g) s \<longleftrightarrow> (\<exists>k \<le> length s. glob_match g (drop k s))"
proof (induction s)
  case (Cons c s)
  have "(\<exists>k \<le> length (c # s). glob_match g (drop k (c # s))) \<longleftrightarrow>
      glob_match g (c # s) \<or> (\<exists>k \<le> length s. glob_match g (drop k s))"
    by (metis Suc_le_mono drop0 drop_Suc_Cons length_Cons not0_implies_Suc zero_le)
  with Cons show ?case by simp
qed simp

lemma glob_match_literal: "glob_match (map Literal p @ g) s \<longleftrightarrow> (\<exists>t. s = p @ t \<and> glob_match g t)"
proof (induction p arbitrary: s)
  case (Cons c p)
  then show ?case by (cases s) auto
qed simp

text \<open>A pattern without special characters matches itself only, and a final star any continuation.\<close>

definition plain_pattern :: "string \<Rightarrow> bool" where
  "plain_pattern p \<longleftrightarrow> list_all (\<lambda>c. c \<notin> set ''*?['') p"

lemma glob_items_plain: "plain_pattern p \<Longrightarrow> glob_items (p @ s) = map Literal p @ glob_items s"
  by (induction p) (auto simp: plain_pattern_def)

lemma fnmatch_plain: "plain_pattern p \<Longrightarrow> fnmatch name p \<longleftrightarrow> name = p"
  using glob_items_plain [of p "[]"] glob_match_literal [of p "[]" name] by (simp add: fnmatch_def)

lemma glob_match_any: "glob_match [Any_Text] s"
  by (induction s) simp_all

lemma fnmatch_prefix: "plain_pattern p \<Longrightarrow> fnmatch name (p @ ''*'') \<longleftrightarrow> prefix p name"
  using glob_items_plain [of p "''*''"] glob_match_literal [of p "[Any_Text]" name]
  by (simp add: fnmatch_def glob_match_any prefix_def)

end
