(* ===== verification/Model_Resolver.thy ===== *)
theory Model_Resolver
  imports Catalog Glob
begin

text \<open>
  The resolution of model expressions (\<open>core/model_catalog/resolver.py\<close>).  A \<open>ModelResolutionError\<close>
  is a constructor of \<open>resolution_error\<close> with the values its message shows; \<open>Key_Error\<close> is the
  \<open>KeyError\<close> of a lookup that a validated catalog cannot fail, \<open>Validation_Error\<close> the error of
  \<open>ModelConfig\<close> for a level outside the vocabulary.
\<close>

section \<open>Errors\<close>

datatype resolution_error =
  Retired_Role | Unknown_Role string "string list" | Unknown_Thinking_Level string
  | Thinking_Not_Encodable string string | Thinking_Level_Not_Encodable string string
  | Invalid_Expression | Reserved_At | Role_Not_Scalar | Provider_Qualified | Unknown_Model string "string list"
  | Preset_Model_Missing string string | Model_Disabled string | All_Deployments_Disabled string
  | Allowlist_Excluded string | No_Compatible_Deployment string | No_Eligible_Model
  | Committed_Model_Missing string | Committed_Model_Disabled string | Committed_Deployment_Missing string string string
  | Committed_Deployment_Disabled string string string | Committed_Excluded string string | Committed_Thinking_Unknown string
  | No_Selection | Conflicting_Thinking_Override string | Catalog_Unattached | Key_Error string | Validation_Error

fun error_code :: "resolution_error \<Rightarrow> string option" where
  "error_code Retired_Role = Some ''retired_role''"
| "error_code (Unknown_Role _ _) = Some ''unknown_role''"
| "error_code (Unknown_Thinking_Level _) = Some ''unknown_thinking_level''"
| "error_code (Thinking_Not_Encodable _ _) = Some ''thinking_unsupported''"
| "error_code (Thinking_Level_Not_Encodable _ _) = Some ''thinking_unsupported''"
| "error_code Invalid_Expression = Some ''invalid_expression''"
| "error_code Reserved_At = Some ''reserved_at''"
| "error_code Role_Not_Scalar = Some ''role_not_scalar''"
| "error_code Provider_Qualified = Some ''invalid_expression''"
| "error_code (Unknown_Model _ _) = Some ''unknown_model''"
| "error_code (Preset_Model_Missing _ _) = Some ''preset_model_missing''"
| "error_code (Model_Disabled _) = Some ''model_disabled''"
| "error_code (All_Deployments_Disabled _) = Some ''all_deployments_disabled''"
| "error_code (Allowlist_Excluded _) = Some ''allowlist_excluded''"
| "error_code (No_Compatible_Deployment _) = Some ''no_compatible_deployment''"
| "error_code No_Eligible_Model = Some ''no_eligible_model''"
| "error_code (Committed_Model_Missing _) = Some ''committed_model_missing''"
| "error_code (Committed_Model_Disabled _) = Some ''committed_model_disabled''"
| "error_code (Committed_Deployment_Missing _ _ _) = Some ''committed_deployment_missing''"
| "error_code (Committed_Deployment_Disabled _ _ _) = Some ''committed_deployment_disabled''"
| "error_code (Committed_Excluded _ _) = Some ''allowlist_excluded''"
| "error_code (Committed_Thinking_Unknown _) = Some ''committed_thinking_unknown''"
| "error_code No_Selection = Some ''no_selection''"
| "error_code (Conflicting_Thinking_Override _) = Some ''conflicting_thinking_override''"
| "error_code Catalog_Unattached = Some ''catalog_unattached''"
| "error_code (Key_Error _) = None"
| "error_code Validation_Error = None"

fun is_key_error :: "resolution_error \<Rightarrow> bool" where
  "is_key_error (Key_Error _) = True"
| "is_key_error _ = False"

type_synonym 'a resolution = "resolution_error + 'a"

text \<open>Sequencing, a lookup by subscript, \<open>any\<close> and a filtering comprehension over a test that may raise.\<close>

definition and_then :: "'e + 'a \<Rightarrow> ('a \<Rightarrow> 'e + 'b) \<Rightarrow> 'e + 'b" where
  "and_then r f = (case r of Inl e \<Rightarrow> Inl e | Inr x \<Rightarrow> f x)"

definition subscript :: "(string \<times> 'a) list \<Rightarrow> string \<Rightarrow> 'a resolution" where
  "subscript d k = (case map_of d k of None \<Rightarrow> Inl (Key_Error k) | Some v \<Rightarrow> Inr v)"

fun any_of :: "('a \<Rightarrow> 'e + bool) \<Rightarrow> 'a list \<Rightarrow> 'e + bool" where
  "any_of f [] = Inr False"
| "any_of f (x # xs) = and_then (f x) (\<lambda>b. if b then Inr True else any_of f xs)"

fun filter_of :: "('a \<Rightarrow> 'e + bool) \<Rightarrow> 'a list \<Rightarrow> 'e + 'a list" where
  "filter_of f [] = Inr []"
| "filter_of f (x # xs) = and_then (f x) (\<lambda>b. and_then (filter_of f xs) (\<lambda>ys. Inr (if b then x # ys else ys)))"

section \<open>Thinking\<close>

definition deployment_levels :: "provider_definition \<Rightarrow> deployment_definition \<Rightarrow> thinking_levels option" where
  "deployment_levels p d = get_thinking_levels (pd_backend p) (Some (style_value (pd_api_style p))) (dd_name d)"

definition supports_thinking :: "provider_definition \<Rightarrow> deployment_definition \<Rightarrow> string \<Rightarrow> bool" where
  "supports_thinking p d thinking \<longleftrightarrow>
     (if (case dd_supported_levels d of None \<Rightarrow> False | Some ds \<Rightarrow> thinking \<notin> set ds) then False
      else case deployment_levels p d of None \<Rightarrow> True | Some ls \<Rightarrow> level_in thinking ls)"

definition validate_thinking_selection ::
  "provider_definition \<Rightarrow> deployment_definition \<Rightarrow> string \<Rightarrow> unit resolution" where
  "validate_thinking_selection p d thinking =
     (if \<not> thinking_level_is_known thinking then Inl (Unknown_Thinking_Level thinking)
      else case dd_supported_levels d of
        None \<Rightarrow> Inr ()
      | Some declared \<Rightarrow>
          (case deployment_levels p d of
             None \<Rightarrow> Inl (Thinking_Not_Encodable (dd_provider d) (dd_name d))
           | Some ls \<Rightarrow>
               if list_ex (\<lambda>l. \<not> level_in l ls) declared
               then Inl (Thinking_Level_Not_Encodable (dd_provider d) (dd_name d)) else Inr ()))"

section \<open>Resolved models\<close>

record committed_identity =
  ci_base_model :: string
  ci_provider :: string
  ci_wire_name :: string
  ci_catalog_revision :: string
  ci_thinking :: "string option"

record resolved_model =
  rz_base_model :: string
  rz_definition :: model_definition
  rz_deployment :: deployment_definition
  rz_provider :: provider_definition
  rz_catalog_revision :: string
  rz_thinking :: "string option"

definition identity_of :: "resolved_model \<Rightarrow> committed_identity" where
  "identity_of r =
     \<lparr>ci_base_model = rz_base_model r, ci_provider = dd_provider (rz_deployment r), ci_wire_name = dd_name (rz_deployment r),
      ci_catalog_revision = rz_catalog_revision r, ci_thinking = rz_thinking r\<rparr>"

text \<open>\<open>ModelConfig\<close>; the flags of a known price are part of the options.\<close>

record model_config =
  mf_name :: string
  mf_provider :: string
  mf_alias :: string
  mf_display_name :: string
  mf_temperature :: rat
  mf_input_price :: rat
  mf_output_price :: rat
  mf_cached_input_price :: "rat option"
  mf_input_price_known :: bool
  mf_output_price_known :: bool
  mf_cached_input_price_known :: bool
  mf_thinking :: string
  mf_supported_levels :: "string list option"
  mf_supports_images :: bool
  mf_auto_compact_threshold :: int

definition opt_else :: "'a option \<Rightarrow> 'a \<Rightarrow> 'a" where
  "opt_else x d = (case x of None \<Rightarrow> d | Some v \<Rightarrow> v)"

text \<open>An empty own level falls through to the definition's, as \<open>or\<close> does.\<close>

definition selected_thinking :: "resolved_model \<Rightarrow> string option \<Rightarrow> string" where
  "selected_thinking r thinking =
     (case thinking of
        Some t \<Rightarrow> t
      | None \<Rightarrow> if rz_thinking r = None \<or> rz_thinking r = Some [] then md_thinking (rz_definition r) else opt_else (rz_thinking r) [])"

definition config_of :: "resolved_model \<Rightarrow> int \<Rightarrow> string \<Rightarrow> model_config" where
  "config_of r threshold thinking =
     (let d = rz_deployment r; px = dd_prices d
      in \<lparr>mf_name = dd_name d, mf_provider = dd_provider d, mf_alias = rz_base_model r,
          mf_display_name = dd_provider d @ ''/'' @ dd_name d,
          mf_temperature = opt_else (md_temperature (rz_definition r)) 1,
          mf_input_price = opt_else (px_input px) 0, mf_output_price = opt_else (px_output px) 0,
          mf_cached_input_price = px_cached_input px,
          mf_input_price_known = (px_input px \<noteq> None), mf_output_price_known = (px_output px \<noteq> None),
          mf_cached_input_price_known = (px_cached_input px \<noteq> None),
          mf_thinking = thinking, mf_supported_levels = dd_supported_levels d, mf_supports_images = dd_supports_images d,
          mf_auto_compact_threshold = opt_else (dd_auto_compact_threshold d) threshold\<rparr>)"

definition materialize :: "resolved_model \<Rightarrow> int \<Rightarrow> string option \<Rightarrow> bool \<Rightarrow> model_config resolution" where
  "materialize r threshold thinking validate =
     (let t = selected_thinking r thinking
      in and_then (if validate then validate_thinking_selection (rz_provider r) (rz_deployment r) t else Inr ())
           (\<lambda>_. if \<not> thinking_level_is_known t \<or> \<not> levels_are_known (dd_supported_levels (rz_deployment r))
                 then Inl Validation_Error else Inr (config_of r threshold t)))"

section \<open>Eligibility\<close>

definition deployment_allowed :: "regex \<Rightarrow> string \<Rightarrow> deployment_definition \<Rightarrow> string list \<Rightarrow> bool" where
  "deployment_allowed rx base d patterns \<longleftrightarrow>
     (if patterns = [] then True
      else list_ex (\<lambda>c. name_matches rx c patterns) [base, dd_provider d @ ''/'' @ dd_name d])"

text \<open>\<open>not deployment.disabled and not providers[deployment.provider].disabled\<close>.\<close>

definition deployment_enabled :: "catalog \<Rightarrow> deployment_definition \<Rightarrow> bool resolution" where
  "deployment_enabled c d =
     (if dd_disabled d then Inr False
      else and_then (subscript (cg_providers c) (dd_provider d)) (\<lambda>p. Inr (\<not> pd_disabled p)))"

definition deployment_usable :: "regex \<Rightarrow> catalog \<Rightarrow> string list \<Rightarrow> string \<Rightarrow> deployment_definition \<Rightarrow> bool resolution" where
  "deployment_usable rx c allowed base d =
     and_then (deployment_enabled c d) (\<lambda>b. Inr (b \<and> deployment_allowed rx base d allowed))"

definition eligible_models :: "regex \<Rightarrow> catalog \<Rightarrow> string list \<Rightarrow> (string list) resolution" where
  "eligible_models rx c allowed =
     and_then
       (filter_of (\<lambda>e. if md_disabled (snd e) then Inr False
                       else any_of (deployment_usable rx c allowed (fst e)) (md_deployments (snd e))) (cg_models c))
       (\<lambda>es. Inr (map fst es))"

definition eligible_roles :: "regex \<Rightarrow> catalog \<Rightarrow> string list \<Rightarrow> (string list) resolution" where
  "eligible_roles rx c allowed =
     and_then (eligible_models rx c allowed)
       (\<lambda>bases. Inr (sort (map fst (filter (\<lambda>e. rl_model (snd e) \<in> set bases) (cg_roles c)))))"

definition canonical_model_map :: "catalog \<Rightarrow> (string \<times> string) list" where
  "canonical_model_map c =
     fold (\<lambda>e d. dict_set (CHR ''@'' # fst e) (rl_model (snd e)) d) (cg_roles c) (map (\<lambda>e. (fst e, fst e)) (cg_models c))"

definition total_price :: "deployment_definition \<Rightarrow> rat option" where
  "total_price d =
     (case (px_input (dd_prices d), px_output (dd_prices d)) of (Some a, Some b) \<Rightarrow> Some (a + b) | _ \<Rightarrow> None)"

text \<open>Every base in the list is a key of the catalog.\<close>

fun price_entries :: "regex \<Rightarrow> catalog \<Rightarrow> string list \<Rightarrow> string list \<Rightarrow> ((string \<times> rat) list) resolution" where
  "price_entries rx c allowed [] = Inr []"
| "price_entries rx c allowed (base # bases) =
     and_then (subscript (cg_models c) base) (\<lambda>m.
       and_then (filter_of (deployment_usable rx c allowed base) (md_deployments m)) (\<lambda>ds.
         and_then (price_entries rx c allowed bases) (\<lambda>es.
           let totals = List.map_filter total_price ds
           in Inr (if totals = [] then es else (base, foldl min (hd totals) (tl totals)) # es))))"

definition catalog_prices :: "regex \<Rightarrow> catalog \<Rightarrow> string list \<Rightarrow> ((string \<times> rat) list) resolution" where
  "catalog_prices rx c allowed = and_then (eligible_models rx c allowed) (price_entries rx c allowed)"

section \<open>Expressions\<close>

definition role_error :: "string \<Rightarrow> string list \<Rightarrow> resolution_error" where
  "role_error expression roles = (if expression = ''@orchestrator'' then Retired_Role else Unknown_Role expression roles)"

definition canonicalize :: "regex \<Rightarrow> catalog \<Rightarrow> string list \<Rightarrow> string \<Rightarrow> string resolution" where
  "canonicalize rx c allowed expression =
     (if expression = [] then Inl Invalid_Expression
      else if take 1 expression = ''@'' then Inl (if expression = ''@'' then Reserved_At else Role_Not_Scalar)
      else if map_of (cg_models c) expression \<noteq> None then Inr expression
      else if CHR ''/'' \<in> set expression then Inl Provider_Qualified
      else and_then (eligible_models rx c allowed) (\<lambda>bases. Inl (Unknown_Model expression (sort bases))))"

definition expression_bases :: "regex \<Rightarrow> catalog \<Rightarrow> string list \<Rightarrow> string \<Rightarrow> (string list) resolution" where
  "expression_bases rx c allowed expression =
     (if expression = ''@'' then Inl Reserved_At
      else if take 1 expression = ''@'' then
        (case map_of (cg_roles c) (drop 1 expression) of
           None \<Rightarrow> and_then (eligible_roles rx c allowed) (\<lambda>roles. Inl (role_error expression roles))
         | Some r \<Rightarrow> Inr [rl_model r])
      else and_then (canonicalize rx c allowed expression) (\<lambda>base. Inr [base]))"

section \<open>Resolution\<close>

text \<open>Deployments that encode the requested level come first, in their order.\<close>

fun sort_flagged :: "('a \<Rightarrow> 'e + bool) \<Rightarrow> 'a list \<Rightarrow> 'e + ('a list \<times> 'a list)" where
  "sort_flagged f [] = Inr ([], [])"
| "sort_flagged f (x # xs) =
     and_then (f x) (\<lambda>b. and_then (sort_flagged f xs) (\<lambda>(ys, zs). Inr (if b then (x # ys, zs) else (ys, x # zs))))"

definition preferred_order :: "catalog \<Rightarrow> string option \<Rightarrow> deployment_definition list \<Rightarrow> (deployment_definition list) resolution" where
  "preferred_order c level ds =
     (case level of
        None \<Rightarrow> Inr ds
      | Some l \<Rightarrow>
          and_then (sort_flagged (\<lambda>d. and_then (subscript (cg_providers c) (dd_provider d)) (\<lambda>p. Inr (supports_thinking p d l))) ds)
            (\<lambda>(ys, zs). Inr (ys @ zs)))"

definition resolved_of ::
  "catalog_snapshot \<Rightarrow> string \<Rightarrow> model_definition \<Rightarrow> deployment_definition \<Rightarrow> string option \<Rightarrow> resolved_model resolution" where
  "resolved_of sn base m d thinking =
     and_then (subscript (cg_providers (sn_catalog sn)) (dd_provider d)) (\<lambda>p.
       Inr \<lparr>rz_base_model = base, rz_definition = m, rz_deployment = d, rz_provider = p,
            rz_catalog_revision = sn_revision sn, rz_thinking = thinking\<rparr>)"

text \<open>The first candidate the filter accepts.\<close>

fun first_accepted ::
  "catalog_snapshot \<Rightarrow> string \<Rightarrow> model_definition \<Rightarrow> string option \<Rightarrow> (resolved_model \<Rightarrow> bool) option \<Rightarrow>
     deployment_definition list \<Rightarrow> (resolved_model option) resolution" where
  "first_accepted sn base m thinking flt [] = Inr None"
| "first_accepted sn base m thinking flt (d # ds) =
     and_then (resolved_of sn base m d thinking) (\<lambda>r.
       if (case flt of None \<Rightarrow> True | Some f \<Rightarrow> f r) then Inr (Some r) else first_accepted sn base m thinking flt ds)"

text \<open>One base of the loop: a model, the error to remember, or an error raised.\<close>

definition resolve_base ::
  "regex \<Rightarrow> catalog_snapshot \<Rightarrow> string \<Rightarrow> string list \<Rightarrow> (resolved_model \<Rightarrow> bool) option \<Rightarrow> string option \<Rightarrow> string \<Rightarrow>
     (resolution_error + resolved_model) resolution" where
  "resolve_base rx sn expression allowed flt override base =
     (let c = sn_catalog sn;
          role = (if take 1 expression = ''@'' then map_of (cg_roles c) (drop 1 expression) else None)
      in case map_of (cg_models c) base of
           None \<Rightarrow> Inl (Preset_Model_Missing expression base)
         | Some m \<Rightarrow>
             if md_disabled m then Inr (Inl (Model_Disabled base))
             else
               and_then (filter_of (deployment_enabled c) (md_deployments m)) (\<lambda>eligible.
                 if eligible = [] then Inr (Inl (All_Deployments_Disabled base))
                 else
                   let permitted = filter (\<lambda>d. deployment_allowed rx base d allowed) eligible
                   in if permitted = [] then Inr (Inl (Allowlist_Excluded base))
                      else
                        and_then (preferred_order c (if override \<noteq> None then override else map_option rl_thinking role) permitted)
                          (\<lambda>candidates.
                             and_then (first_accepted sn base m (map_option rl_thinking role) flt candidates) (\<lambda>found.
                               Inr (case found of None \<Rightarrow> Inl (No_Compatible_Deployment base) | Some r \<Rightarrow> Inr r)))))"

fun resolve_bases ::
  "regex \<Rightarrow> catalog_snapshot \<Rightarrow> string \<Rightarrow> string list \<Rightarrow> (resolved_model \<Rightarrow> bool) option \<Rightarrow> string option \<Rightarrow>
     resolution_error option \<Rightarrow> string list \<Rightarrow> resolved_model resolution" where
  "resolve_bases rx sn expression allowed flt override last_error [] =
     Inl (case last_error of None \<Rightarrow> No_Eligible_Model | Some e \<Rightarrow> e)"
| "resolve_bases rx sn expression allowed flt override last_error (base # bases) =
     and_then (resolve_base rx sn expression allowed flt override base) (\<lambda>x.
       case x of Inr r \<Rightarrow> Inr r
       | Inl e \<Rightarrow> resolve_bases rx sn expression allowed flt override (Some e) bases)"

definition resolve ::
  "regex \<Rightarrow> catalog_snapshot \<Rightarrow> string list \<Rightarrow> (resolved_model \<Rightarrow> bool) option \<Rightarrow> string option \<Rightarrow> string \<Rightarrow>
     resolved_model resolution" where
  "resolve rx sn allowed flt override expression =
     and_then (expression_bases rx (sn_catalog sn) allowed expression)
       (resolve_bases rx sn expression allowed flt override None)"

definition resolve_committed :: "regex \<Rightarrow> catalog_snapshot \<Rightarrow> string list \<Rightarrow> committed_identity \<Rightarrow> resolved_model resolution" where
  "resolve_committed rx sn allowed i =
     (case map_of (cg_models (sn_catalog sn)) (ci_base_model i) of
        None \<Rightarrow> Inl (Committed_Model_Missing (ci_base_model i))
      | Some m \<Rightarrow>
          if md_disabled m then Inl (Committed_Model_Disabled (ci_base_model i))
          else case find (\<lambda>d. dd_provider d = ci_provider i \<and> dd_name d = ci_wire_name i) (md_deployments m) of
            None \<Rightarrow> Inl (Committed_Deployment_Missing (ci_base_model i) (ci_provider i) (ci_wire_name i))
          | Some d \<Rightarrow>
              (case (if dd_disabled d then None else map_of (cg_providers (sn_catalog sn)) (ci_provider i)) of
                 None \<Rightarrow> Inl (Committed_Deployment_Disabled (ci_base_model i) (ci_provider i) (ci_wire_name i))
               | Some p \<Rightarrow>
                   if pd_disabled p then Inl (Committed_Deployment_Disabled (ci_base_model i) (ci_provider i) (ci_wire_name i))
                   else if \<not> deployment_allowed rx (ci_base_model i) d allowed
                   then Inl (Committed_Excluded (ci_provider i) (ci_wire_name i))
                   else if (case ci_thinking i of None \<Rightarrow> False | Some t \<Rightarrow> \<not> thinking_level_is_known t)
                   then Inl (Committed_Thinking_Unknown (opt_else (ci_thinking i) []))
                   else Inr \<lparr>rz_base_model = ci_base_model i, rz_definition = m, rz_deployment = d, rz_provider = p,
                             rz_catalog_revision = sn_revision sn, rz_thinking = ci_thinking i\<rparr>))"

definition resolve_precedence ::
  "regex \<Rightarrow> catalog_snapshot \<Rightarrow> string list \<Rightarrow> string option list \<Rightarrow> resolved_model resolution" where
  "resolve_precedence rx sn allowed selections =
     (case filter (\<lambda>e. e \<noteq> []) (List.map_filter id selections) of
        [] \<Rightarrow> Inl No_Selection
      | e # _ \<Rightarrow> resolve rx sn allowed None None e)"

fun canonicalize_overrides ::
  "regex \<Rightarrow> catalog \<Rightarrow> (string \<times> 'v) list \<Rightarrow> (string \<times> 'v) list \<Rightarrow> ((string \<times> 'v) list) resolution" where
  "canonicalize_overrides rx c acc [] = Inr acc"
| "canonicalize_overrides rx c acc ((expression, v) # es) =
     and_then (canonicalize rx c [] expression) (\<lambda>base.
       if map_of acc base \<noteq> None then Inl (Conflicting_Thinking_Override base)
       else canonicalize_overrides rx c (acc @ [(base, v)]) es)"

end
