(* ===== verification/Availability.thy ===== *)
theory Availability
  imports Endpoint
begin

text \<open>
  The registry of cooldowns (\<open>AvailabilityRegistry\<close> of \<open>core/model_catalog/availability.py\<close>): the
  cooldown of a deployment with the claim of its recovery probe, and the cooldown of an endpoint
  armed from the failures of several models.  The clock is a function \<open>ck\<close> from the number of its
  readings to the time; the registry counts the readings, so two readings of one operation may
  differ.
\<close>

section \<open>The state\<close>

record cooldown =
  cd_until :: rat
  cd_probe :: bool
  cd_token :: "nat option"
  cd_claimed_at :: "rat option"

record endpoint_failure =
  fe_observed_at :: rat
  fe_base_model :: string
  fe_category :: "failure_category option"
  fe_signature :: "string option"

definition max_endpoint_events :: nat where "max_endpoint_events = 128"
definition default_probe_claim_ttl :: rat where "default_probe_claim_ttl = 1200"

type_synonym deployment_key = "string \<times> string"

record availability_registry =
  ar_initial_cooldown :: rat
  ar_claim_ttl :: rat
  ar_cooldowns :: "(deployment_key \<times> cooldown) list"
  ar_next_token :: nat
  ar_window :: rat
  ar_min_events :: int
  ar_min_models :: int
  ar_endpoint_cooldown :: rat
  ar_events :: "(string \<times> endpoint_failure list) list"
  ar_endpoint_cooldowns :: "(string \<times> rat) list"
  ar_reads :: nat

text \<open>\<open>None\<close> is the \<open>ValueError\<close> of a parameter out of range.\<close>

definition new_availability ::
  "rat \<Rightarrow> rat \<Rightarrow> int \<Rightarrow> int \<Rightarrow> rat option \<Rightarrow> rat \<Rightarrow> availability_registry option" where
  "new_availability initial window min_events min_models endpoint_cooldown ttl =
     (if initial < 0 \<or> window \<le> 0 \<or> min_events < 1 \<or> min_models < 1 \<or>
         (case endpoint_cooldown of None \<Rightarrow> False | Some x \<Rightarrow> x < 0) \<or> ttl \<le> 0
      then None
      else Some \<lparr>ar_initial_cooldown = initial, ar_claim_ttl = ttl, ar_cooldowns = [], ar_next_token = 0,
             ar_window = window, ar_min_events = min_events, ar_min_models = min_models,
             ar_endpoint_cooldown = (case endpoint_cooldown of None \<Rightarrow> initial | Some x \<Rightarrow> x),
             ar_events = [], ar_endpoint_cooldowns = [], ar_reads = 0\<rparr>)"

type_synonym clock = "nat \<Rightarrow> rat"

definition read_clock :: "clock \<Rightarrow> availability_registry \<Rightarrow> rat \<times> availability_registry" where
  "read_clock ck r = (ck (ar_reads r), r\<lparr>ar_reads := ar_reads r + 1\<rparr>)"

definition cooldown_of :: "availability_registry \<Rightarrow> deployment_key \<Rightarrow> cooldown option" where
  "cooldown_of r k = map_of (ar_cooldowns r) k"

definition put_cooldown :: "deployment_key \<Rightarrow> cooldown \<Rightarrow> availability_registry \<Rightarrow> availability_registry" where
  "put_cooldown k c r = r\<lparr>ar_cooldowns := dict_set k c (ar_cooldowns r)\<rparr>"

definition drop_cooldown :: "deployment_key \<Rightarrow> availability_registry \<Rightarrow> availability_registry" where
  "drop_cooldown k r = r\<lparr>ar_cooldowns := dict_pop k (ar_cooldowns r)\<rparr>"

definition events_of :: "availability_registry \<Rightarrow> string \<Rightarrow> endpoint_failure list" where
  "events_of r e = (case map_of (ar_events r) e of None \<Rightarrow> [] | Some es \<Rightarrow> es)"

section \<open>Endpoint correlation\<close>

text \<open>The signatures of the events with the models they were observed on.\<close>

definition models_by_signature :: "endpoint_failure list \<Rightarrow> (string \<times> string list) list" where
  "models_by_signature es =
     fold (\<lambda>e d. case fe_signature e of None \<Rightarrow> d | Some s \<Rightarrow> group_add s (fe_base_model e) d) es []"

definition rate_limit_evidence :: "rat \<Rightarrow> endpoint_failure \<Rightarrow> bool" where
  "rate_limit_evidence cutoff e \<longleftrightarrow>
     cutoff \<le> fe_observed_at e \<and> fe_category e = Some Rate_Limit \<and> fe_signature e \<noteq> None \<and> fe_signature e \<noteq> Some []"

definition correlated :: "rat \<Rightarrow> availability_registry \<Rightarrow> string \<Rightarrow> bool" where
  "correlated now r endpoint \<longleftrightarrow>
     (let es = filter (rate_limit_evidence (now - ar_window r)) (events_of r endpoint)
      in ar_min_events r \<le> int (length es) \<and>
         list_ex (\<lambda>g. ar_min_models r \<le> int (length (remdups (snd g)))) (models_by_signature es))"

definition arm_endpoint_correlation :: "string \<Rightarrow> rat \<Rightarrow> availability_registry \<Rightarrow> availability_registry" where
  "arm_endpoint_correlation endpoint now r =
     (if \<not> correlated now r endpoint then r
      else
        let until = now + ar_endpoint_cooldown r
        in r\<lparr>ar_endpoint_cooldowns :=
             dict_set endpoint (case map_of (ar_endpoint_cooldowns r) endpoint of None \<Rightarrow> until | Some c \<Rightarrow> max until c)
               (ar_endpoint_cooldowns r)\<rparr>)"

definition retained_events :: "rat \<Rightarrow> endpoint_failure list \<Rightarrow> endpoint_failure list" where
  "retained_events cutoff es =
     (let kept = dropWhile (\<lambda>e. fe_observed_at e < cutoff) es
      in if max_endpoint_events \<le> length kept then drop 1 kept else kept)"

definition record_endpoint_failure ::
  "clock \<Rightarrow> string \<Rightarrow> string \<Rightarrow> failure_info option \<Rightarrow> string option \<Rightarrow> availability_registry \<Rightarrow> availability_registry" where
  "record_endpoint_failure ck endpoint base failure signature r =
     (case read_clock ck r of (now, r) \<Rightarrow>
        let event = \<lparr>fe_observed_at = now, fe_base_model = base, fe_category = map_option fi_category failure,
                     fe_signature = signature\<rparr>;
            es = retained_events (now - ar_window r) (events_of r endpoint) @ [event]
        in arm_endpoint_correlation endpoint now (r\<lparr>ar_events := dict_set endpoint es (ar_events r)\<rparr>))"

section \<open>Failures and successes\<close>

definition failure_delay :: "availability_registry \<Rightarrow> failure_info option \<Rightarrow> rat" where
  "failure_delay r failure =
     max (ar_initial_cooldown r)
       (case Option.bind failure fi_retry_after of None \<Rightarrow> 0 | Some x \<Rightarrow> x)"

text \<open>A claim is foreign to a caller that does not hold its token.\<close>

definition foreign_probe :: "cooldown \<Rightarrow> nat option \<Rightarrow> bool" where
  "foreign_probe c token \<longleftrightarrow> cd_probe c \<and> cd_token c \<noteq> token"

definition cooled_down :: "cooldown option \<Rightarrow> rat \<Rightarrow> nat option \<Rightarrow> cooldown" where
  "cooled_down current until token =
     (case current of
        None \<Rightarrow> \<lparr>cd_until = until, cd_probe = False, cd_token = None, cd_claimed_at = None\<rparr>
      | Some c \<Rightarrow>
          if foreign_probe c token then c\<lparr>cd_until := max until (cd_until c)\<rparr>
          else \<lparr>cd_until = max until (cd_until c), cd_probe = False, cd_token = None, cd_claimed_at = None\<rparr>)"

definition record_failure ::
  "clock \<Rightarrow> (string \<Rightarrow> bool) \<Rightarrow> string \<Rightarrow> string \<Rightarrow> failure_info option \<Rightarrow> string option \<Rightarrow> string option \<Rightarrow> nat option \<Rightarrow>
     availability_registry \<Rightarrow> availability_registry" where
  "record_failure ck netloc_ok base provider failure endpoint signature token r =
     (let delay = failure_delay r failure
      in case read_clock ck r of (now, r) \<Rightarrow>
           let r' = put_cooldown (base, provider) (cooled_down (cooldown_of r (base, provider)) (now + delay) token) r
           in case canonical_endpoint_identity netloc_ok endpoint of
                None \<Rightarrow> r'
              | Some e \<Rightarrow> record_endpoint_failure ck e base failure signature r')"

definition record_success ::
  "clock \<Rightarrow> string \<Rightarrow> string \<Rightarrow> nat option \<Rightarrow> availability_registry \<Rightarrow> availability_registry" where
  "record_success ck base provider token r =
     (case cooldown_of r (base, provider) of
        None \<Rightarrow> r
      | Some c \<Rightarrow>
          if foreign_probe c token
          then (case read_clock ck r of (now, r) \<Rightarrow> put_cooldown (base, provider) (c\<lparr>cd_until := min (cd_until c) now\<rparr>) r)
          else drop_cooldown (base, provider) r)"

definition reset_base :: "string \<Rightarrow> availability_registry \<Rightarrow> availability_registry" where
  "reset_base base r = r\<lparr>ar_cooldowns := filter (\<lambda>e. fst (fst e) \<noteq> base) (ar_cooldowns r)\<rparr>"

section \<open>Reading and claiming\<close>

definition endpoint_cooldown_until :: "clock \<Rightarrow> string option \<Rightarrow> availability_registry \<Rightarrow> rat option \<times> availability_registry" where
  "endpoint_cooldown_until ck endpoint r =
     (case endpoint of
        None \<Rightarrow> (None, r)
      | Some e \<Rightarrow>
          if e = [] then (None, r)
          else case map_of (ar_endpoint_cooldowns r) e of
            None \<Rightarrow> (None, r)
          | Some until \<Rightarrow>
              (case read_clock ck r of (now, r) \<Rightarrow>
                 if until \<le> now then (None, r\<lparr>ar_endpoint_cooldowns := dict_pop e (ar_endpoint_cooldowns r)\<rparr>)
                 else (Some until, r)))"

definition endpoint_correlation_active :: "clock \<Rightarrow> string option \<Rightarrow> availability_registry \<Rightarrow> bool \<times> availability_registry" where
  "endpoint_correlation_active ck endpoint r =
     (case endpoint_cooldown_until ck endpoint r of (u, r) \<Rightarrow> (u \<noteq> None, r))"

text \<open>The clock is read only for a claim that is dated.\<close>

definition probe_claim_stale :: "clock \<Rightarrow> cooldown \<Rightarrow> availability_registry \<Rightarrow> bool \<times> availability_registry" where
  "probe_claim_stale ck c r =
     (case (if cd_probe c then cd_claimed_at c else None) of
        None \<Rightarrow> (False, r)
      | Some t \<Rightarrow> (case read_clock ck r of (now, r) \<Rightarrow> (ar_claim_ttl r \<le> now - t, r)))"

definition is_available ::
  "clock \<Rightarrow> string \<Rightarrow> string \<Rightarrow> string option \<Rightarrow> availability_registry \<Rightarrow> bool \<times> availability_registry" where
  "is_available ck base provider endpoint r =
     (case endpoint_correlation_active ck endpoint r of (active, r) \<Rightarrow>
        if active then (False, r)
        else case cooldown_of r (base, provider) of
          None \<Rightarrow> (True, r)
        | Some c \<Rightarrow>
            (case read_clock ck r of (now, r) \<Rightarrow>
               if now < cd_until c then (False, r)
               else if \<not> cd_probe c then (True, r)
               else probe_claim_stale ck c r))"

text \<open>Admitted or not, with the token of a claimed probe.\<close>

definition probe_admission ::
  "clock \<Rightarrow> string \<Rightarrow> string \<Rightarrow> string option \<Rightarrow> availability_registry \<Rightarrow> (bool \<times> nat option) \<times> availability_registry" where
  "probe_admission ck base provider endpoint r =
     (case endpoint_correlation_active ck endpoint r of (active, r) \<Rightarrow>
        if active then ((False, None), r)
        else case cooldown_of r (base, provider) of
          None \<Rightarrow> ((True, None), r)
        | Some c \<Rightarrow>
            (case read_clock ck r of (now, r) \<Rightarrow>
               if now < cd_until c then ((False, None), r)
               else case (if cd_probe c then probe_claim_stale ck c r else (True, r)) of (free, r) \<Rightarrow>
                 if \<not> free then ((False, None), r)
                 else
                   let t = ar_next_token r + 1
                   in ((True, Some t),
                       put_cooldown (base, provider) (c\<lparr>cd_probe := True, cd_token := Some t, cd_claimed_at := Some now\<rparr>)
                         (r\<lparr>ar_next_token := t\<rparr>))))"

definition release_probe :: "string \<Rightarrow> string \<Rightarrow> nat \<Rightarrow> availability_registry \<Rightarrow> availability_registry" where
  "release_probe base provider token r =
     (case cooldown_of r (base, provider) of
        None \<Rightarrow> r
      | Some c \<Rightarrow>
          if cd_token c = Some token
          then put_cooldown (base, provider) (c\<lparr>cd_probe := False, cd_token := None, cd_claimed_at := None\<rparr>) r
          else r)"

definition deployment_cooldown_until :: "string \<Rightarrow> string \<Rightarrow> availability_registry \<Rightarrow> rat option" where
  "deployment_cooldown_until base provider r = map_option cd_until (cooldown_of r (base, provider))"

definition probe_in_flight :: "clock \<Rightarrow> string \<Rightarrow> string \<Rightarrow> availability_registry \<Rightarrow> bool \<times> availability_registry" where
  "probe_in_flight ck base provider r =
     (case cooldown_of r (base, provider) of
        None \<Rightarrow> (False, r)
      | Some c \<Rightarrow> if \<not> cd_probe c then (False, r) else (case probe_claim_stale ck c r of (stale, r) \<Rightarrow> (\<not> stale, r)))"

end
