(* ===== verification/Eligibility.thy ===== *)
theory Eligibility
  imports Model_Resolver Override_Ledger Availability Recovery_Records
begin

text \<open>
  Which deployments of the committed base can serve a request now (\<open>eligible_deployments\<close> of
  \<open>core/model_catalog/availability.py\<close>), and the read-only view of it the recovery controllers use
  (\<open>availability_snapshot\<close>).  The resolver, the registry of cooldowns and the override ledger are the
  modelled ones.
\<close>

section \<open>Requests and answers\<close>

datatype exclusion_kind =
  Xk_Cooldown | Xk_Endpoint_Cooldown | Xk_Images | Xk_Thinking | Xk_Reasoning | Xk_Compaction | Xk_Disabled | Xk_Allowlist

fun kind_value :: "exclusion_kind \<Rightarrow> string" where
  "kind_value Xk_Cooldown = ''cooldown''"
| "kind_value Xk_Endpoint_Cooldown = ''endpoint-cooldown''"
| "kind_value Xk_Images = ''images-unsupported''"
| "kind_value Xk_Thinking = ''thinking-unsupported''"
| "kind_value Xk_Reasoning = ''reasoning-unsupported''"
| "kind_value Xk_Compaction = ''compaction-incompatible''"
| "kind_value Xk_Disabled = ''disabled''"
| "kind_value Xk_Allowlist = ''allowlist-excluded''"

record deployment_exclusion =
  xc_base_model :: string
  xc_provider :: string
  xc_wire_name :: string
  xc_reason :: exclusion_kind
  xc_detail :: "string option"

record eligible_deployment =
  ely_resolved :: resolved_model
  ely_recovery_probe :: bool
  ely_probe_token :: "nat option"

datatype eligibility_error =
  All_Deployments_Unavailable string "deployment_exclusion list" | Raised resolution_error | Provider_Not_Found string | Stop_Iteration

text \<open>
  The fields of a message the request needs beyond the transcript's: whether it has images, the
  \<open>type\<close> entries of its reasoning blocks, and its reasoning text.
\<close>

record request_message = llm_message +
  rm_images :: bool
  rm_payload_types :: "string option list option"
  rm_reasoning_content :: "string option"

record request_config =
  qc_auto_compact_threshold :: int
  qc_thinking_overrides :: "(string \<times> string) list"
  qc_catalog :: catalog

record eligibility_request =
  ask_snapshot :: catalog_snapshot
  ask_committed :: committed_identity
  ask_config :: request_config
  ask_history :: "request_message list"
  ask_thinking :: string
  ask_compaction_base :: "string option"
  ask_compaction_only :: bool
  ask_allowed :: "string list"
  ask_claim_probes :: bool
  ask_permit :: "override_permit option"
  ask_ledger :: "override_ledger option"

text \<open>What is not code of the repository: the host check of \<open>urlsplit\<close>, regular expressions, the clock.\<close>

record platform =
  pf_netloc_ok :: "string \<Rightarrow> bool"
  pf_regex :: regex
  pf_clock :: clock

section \<open>Compatibility\<close>

definition reasoning_block_types :: "string set" where
  "reasoning_block_types = {''thinking'', ''redacted_thinking''}"

definition known_backends :: "string list" where "known_backends = [''mistral'', ''generic'']"

definition get_provider_for_model :: "request_config \<Rightarrow> model_config \<Rightarrow> eligibility_error + provider_definition" where
  "get_provider_for_model q m =
     (case map_of (cg_providers (qc_catalog q)) (mf_provider m) of
        None \<Rightarrow> Inl (Provider_Not_Found (mf_provider m))
      | Some p \<Rightarrow>
          if pd_disabled p then Inl (Provider_Not_Found (mf_provider m))
          else if pd_backend p \<notin> set known_backends then Inl (Raised Validation_Error) else Inr p)"

text \<open>Why the reasoning blocks of one message cannot be sent, if they cannot.\<close>

definition reasoning_problem :: "api_style \<Rightarrow> request_message \<Rightarrow> string option" where
  "reasoning_problem style m =
     (let ts = opt_else (rm_payload_types m) []
      in if ts = [] then None
         else case style of
           Anthropic \<Rightarrow>
             if list_ex (\<lambda>t. case t of None \<Rightarrow> True | Some s \<Rightarrow> s \<notin> reasoning_block_types) ts
             then Some ''Retained history contains incompatible provider reasoning blocks'' else None
         | Openai_Responses \<Rightarrow>
             if list_ex (\<lambda>t. t \<noteq> Some ''reasoning'') ts \<and> \<not> truthy (rm_reasoning_content m)
             then Some ''Retained history contains non-convertible provider reasoning blocks'' else None
         | Openai \<Rightarrow>
             if \<not> truthy (rm_reasoning_content m)
             then Some ''Retained history contains non-convertible provider reasoning blocks'' else None)"

definition thinking_incompatible :: "thinking_levels option \<Rightarrow> string list option \<Rightarrow> string \<Rightarrow> bool" where
  "thinking_incompatible levels declared thinking \<longleftrightarrow>
     (case declared of
        None \<Rightarrow> False
      | Some ds \<Rightarrow> (case levels of None \<Rightarrow> True | Some ls \<Rightarrow> list_ex (\<lambda>l. \<not> level_in l ls) ds)) \<or>
     \<not> thinking_level_is_known thinking"

definition compatibility_exclusion ::
  "request_config \<Rightarrow> model_config \<Rightarrow> request_message list \<Rightarrow> string \<Rightarrow> bool \<Rightarrow>
     eligibility_error + (exclusion_kind \<times> string) option" where
  "compatibility_exclusion q m history thinking images_only =
     (if list_ex rm_images history \<and> \<not> mf_supports_images m
      then Inr (Some (Xk_Images, ''Retained history contains images unsupported by the model''))
      else and_then (get_provider_for_model q m) (\<lambda>p.
        case List.map_filter (reasoning_problem (pd_api_style p)) (if images_only then [] else history) of
          detail # _ \<Rightarrow> Inr (Some (Xk_Reasoning, detail))
        | [] \<Rightarrow>
            if \<not> images_only \<and>
               thinking_incompatible (get_thinking_levels (pd_backend p) (Some (style_value (pd_api_style p))) (mf_name m))
                 (mf_supported_levels m) thinking
            then Inr (Some (Xk_Thinking, ''Configured thinking level is unsupported by the selected model''))
            else Inr None))"

definition cooldown_override_bypasses ::
  "override_permit option \<Rightarrow> override_ledger option \<Rightarrow> string option \<Rightarrow> bool" where
  "cooldown_override_bypasses permit ledger endpoint \<longleftrightarrow>
     (case (permit, ledger) of
        (Some p, Some ld) \<Rightarrow> endpoint = Some (pt_endpoint p) \<and> permit_outstanding ld p
      | _ \<Rightarrow> False)"

section \<open>The compaction model\<close>

definition compaction_wanted :: "eligibility_request \<Rightarrow> bool" where
  "compaction_wanted q \<longleftrightarrow> truthy (ask_compaction_base q)"

text \<open>The canonical base of the compaction model and its definition; both missing when none is configured.\<close>

definition compaction_target :: "regex \<Rightarrow> eligibility_request \<Rightarrow> (string \<times> model_definition option) option resolution" where
  "compaction_target rx q =
     (if \<not> compaction_wanted q then Inr None
      else and_then (canonicalize rx (sn_catalog (ask_snapshot q)) [] (opt_else (ask_compaction_base q) []))
             (\<lambda>base. Inr (Some (base, map_of (cg_models (sn_catalog (ask_snapshot q))) base))))"

definition compaction_serves :: "catalog \<Rightarrow> model_definition option \<Rightarrow> string \<Rightarrow> bool resolution" where
  "compaction_serves c target provider =
     (case target of
        None \<Rightarrow> Inr False
      | Some m \<Rightarrow>
          if md_disabled m then Inr False
          else any_of (\<lambda>i. if dd_provider i \<noteq> provider \<or> dd_disabled i then Inr False
                           else and_then (subscript (cg_providers c) (dd_provider i)) (\<lambda>p. Inr (\<not> pd_disabled p)))
                 (md_deployments m))"

section \<open>One deployment\<close>

text \<open>The exclusions that do not depend on the registry, in the order of the code.\<close>

definition static_exclusion ::
  "regex \<Rightarrow> eligibility_request \<Rightarrow> (string \<times> model_definition option) option \<Rightarrow> deployment_definition \<Rightarrow>
     provider_definition option \<Rightarrow> (exclusion_kind option) resolution" where
  "static_exclusion rx q target d p =
     (if dd_disabled d \<or> (case p of None \<Rightarrow> True | Some p \<Rightarrow> pd_disabled p) then Inr (Some Xk_Disabled)
      else if \<not> deployment_allowed rx (ci_base_model (ask_committed q)) d (ask_allowed q) then Inr (Some Xk_Allowlist)
      else case target of
        None \<Rightarrow> Inr None
      | Some (base, m) \<Rightarrow>
          and_then (compaction_serves (sn_catalog (ask_snapshot q)) m (dd_provider d))
            (\<lambda>b. Inr (if b then None else Some Xk_Compaction)))"

definition lift_error :: "'a resolution \<Rightarrow> eligibility_error + 'a" where
  "lift_error r = map_sum Raised id r"

definition resolved_here :: "eligibility_request \<Rightarrow> string \<Rightarrow> model_definition \<Rightarrow> deployment_definition \<Rightarrow> provider_definition \<Rightarrow> resolved_model" where
  "resolved_here q base m d p =
     \<lparr>rz_base_model = base, rz_definition = m, rz_deployment = d, rz_provider = p,
      rz_catalog_revision = sn_revision (ask_snapshot q), rz_thinking = None\<rparr>"

text \<open>
  The compaction model on the same provider, on the first deployment there that is not disabled;
  \<open>next\<close> without one would raise \<open>StopIteration\<close>.
\<close>

definition compaction_problem ::
  "eligibility_request \<Rightarrow> string \<Rightarrow> model_definition \<Rightarrow> string \<Rightarrow> eligibility_error + (exclusion_kind \<times> string) option" where
  "compaction_problem q base m provider =
     (case find (\<lambda>i. dd_provider i = provider \<and> \<not> dd_disabled i) (md_deployments m) of
        None \<Rightarrow> Inl Stop_Iteration
      | Some i \<Rightarrow>
          and_then (lift_error (subscript (cg_providers (sn_catalog (ask_snapshot q))) (dd_provider i))) (\<lambda>p.
            let thinking = (if ask_compaction_only q then ask_thinking q
                            else opt_else (map_of (qc_thinking_overrides (ask_config q)) base) (md_thinking m))
            in and_then (lift_error (materialize (resolved_here q base m i p) (qc_auto_compact_threshold (ask_config q)) (Some thinking) False))
                 (\<lambda>c. compatibility_exclusion (ask_config q) c (ask_history q)
                        (if mf_thinking c = [] then ''off'' else mf_thinking c) False)))"

text \<open>The judgement of an admitted deployment: served, excluded, or an error.\<close>

definition judge ::
  "eligibility_request \<Rightarrow> (string \<times> model_definition option) option \<Rightarrow> resolved_model \<Rightarrow>
     eligibility_error + (exclusion_kind \<times> string) option" where
  "judge q target r =
     and_then (lift_error (materialize r (qc_auto_compact_threshold (ask_config q)) (Some (ask_thinking q)) False)) (\<lambda>m.
       and_then (compatibility_exclusion (ask_config q) m (ask_history q) (ask_thinking q) (ask_compaction_only q)) (\<lambda>problem.
         case problem of
           Some x \<Rightarrow> Inr (Some x)
         | None \<Rightarrow>
             (case target of
                Some (base, Some cm) \<Rightarrow>
                  and_then (compaction_problem q base cm (dd_provider (rz_deployment r)))
                    (\<lambda>y. Inr (map_option (\<lambda>(_, detail). (Xk_Compaction, detail)) y))
              | _ \<Rightarrow> Inr None)))"

text \<open>The state of the pass over the deployments; the claims are those made so far, in order.\<close>

record walk =
  wk_registry :: availability_registry
  wk_candidates :: "eligible_deployment list"
  wk_exclusions :: "deployment_exclusion list"
  wk_claimed :: "(string \<times> nat) list"

definition exclude :: "eligibility_request \<Rightarrow> deployment_definition \<Rightarrow> exclusion_kind \<Rightarrow> string option \<Rightarrow> walk \<Rightarrow> walk" where
  "exclude q d k detail w =
     w\<lparr>wk_exclusions := wk_exclusions w @
        [\<lparr>xc_base_model = ci_base_model (ask_committed q), xc_provider = dd_provider d, xc_wire_name = dd_name d,
          xc_reason = k, xc_detail = detail\<rparr>]\<rparr>"

definition admit_deployment ::
  "platform \<Rightarrow> eligibility_request \<Rightarrow> bool \<Rightarrow> string option \<Rightarrow> string \<Rightarrow> availability_registry \<Rightarrow>
     (bool \<times> nat option) \<times> availability_registry" where
  "admit_deployment pf q bypass endpoint provider r =
     (if bypass then ((True, None), r)
      else if ask_claim_probes q then probe_admission (pf_clock pf) (ci_base_model (ask_committed q)) provider endpoint r
      else case is_available (pf_clock pf) (ci_base_model (ask_committed q)) provider endpoint r of (b, r) \<Rightarrow> ((b, None), r))"

text \<open>What follows an admission, with the token of the probe it claimed.\<close>

definition settle_admission ::
  "eligibility_request \<Rightarrow> (string \<times> model_definition option) option \<Rightarrow> deployment_definition \<Rightarrow> resolved_model \<Rightarrow> bool \<times> nat option \<Rightarrow>
     walk \<Rightarrow> eligibility_error option \<times> walk" where
  "settle_admission q target d r adm w =
     (if \<not> fst adm then (None, exclude q d Xk_Cooldown None w)
      else case judge q target r of
        Inl e \<Rightarrow> (Some e, w)
      | Inr None \<Rightarrow>
          (None, w\<lparr>wk_candidates := wk_candidates w @
             [\<lparr>ely_resolved = r, ely_recovery_probe = (snd adm \<noteq> None), ely_probe_token = snd adm\<rparr>]\<rparr>)
      | Inr (Some (k, detail)) \<Rightarrow>
          (None, exclude q d k (Some detail)
             (case snd adm of
                None \<Rightarrow> w
              | Some t \<Rightarrow> w\<lparr>wk_registry := release_probe (ci_base_model (ask_committed q)) (dd_provider d) t (wk_registry w)\<rparr>)))"

definition visit_deployment ::
  "platform \<Rightarrow> eligibility_request \<Rightarrow> model_definition \<Rightarrow> (string \<times> model_definition option) option \<Rightarrow> deployment_definition \<Rightarrow>
     walk \<Rightarrow> eligibility_error option \<times> walk" where
  "visit_deployment pf q m target d w =
     (let p = map_of (cg_providers (sn_catalog (ask_snapshot q))) (dd_provider d);
          endpoint = Option.bind p (\<lambda>p. canonical_endpoint_identity (pf_netloc_ok pf) (Some (pd_api_base p)));
          bypass = cooldown_override_bypasses (ask_permit q) (ask_ledger q) endpoint
      in case (if endpoint \<noteq> None \<and> \<not> bypass then endpoint_correlation_active (pf_clock pf) endpoint (wk_registry w)
               else (False, wk_registry w)) of (blocked, r) \<Rightarrow>
        if blocked
        then (None, exclude q d Xk_Endpoint_Cooldown
                (Some ''endpoint-wide correlation cooldown (cross-model rate-limit evidence)'') (w\<lparr>wk_registry := r\<rparr>))
        else case static_exclusion (pf_regex pf) q target d p of
          Inl e \<Rightarrow> (Some (Raised e), w\<lparr>wk_registry := r\<rparr>)
        | Inr (Some k) \<Rightarrow> (None, exclude q d k None (w\<lparr>wk_registry := r\<rparr>))
        | Inr None \<Rightarrow>
            (case p of
               None \<Rightarrow> (None, w\<lparr>wk_registry := r\<rparr>)
             | Some prov \<Rightarrow>
                 (case admit_deployment pf q bypass endpoint (dd_provider d) r of (adm, r) \<Rightarrow>
                    settle_admission q target d (resolved_here q (ci_base_model (ask_committed q)) m d prov) adm
                      (w\<lparr>wk_registry := r,
                         wk_claimed := (case snd adm of None \<Rightarrow> wk_claimed w | Some t \<Rightarrow> wk_claimed w @ [(dd_provider d, t)])\<rparr>))))"

fun walk_deployments ::
  "platform \<Rightarrow> eligibility_request \<Rightarrow> model_definition \<Rightarrow> (string \<times> model_definition option) option \<Rightarrow>
     deployment_definition list \<Rightarrow> walk \<Rightarrow> eligibility_error option \<times> walk" where
  "walk_deployments pf q m target [] w = (None, w)"
| "walk_deployments pf q m target (d # ds) w =
     (case visit_deployment pf q m target d w of
        (Some e, w) \<Rightarrow> (Some e, w)
      | (None, w) \<Rightarrow> walk_deployments pf q m target ds w)"

section \<open>All deployments\<close>

definition release_all :: "string \<Rightarrow> (string \<times> nat) list \<Rightarrow> availability_registry \<Rightarrow> availability_registry" where
  "release_all base claimed r = fold (\<lambda>(p, t). release_probe base p t) claimed r"

type_synonym eligibility_result = "eligible_deployment list \<times> deployment_exclusion list"

definition eligible_deployments ::
  "platform \<Rightarrow> eligibility_request \<Rightarrow> availability_registry \<Rightarrow>
     (eligibility_error + eligibility_result) \<times> availability_registry" where
  "eligible_deployments pf q r =
     (let base = ci_base_model (ask_committed q)
      in case map_of (cg_models (sn_catalog (ask_snapshot q))) base of
           None \<Rightarrow> (Inl (All_Deployments_Unavailable base []), r)
         | Some m \<Rightarrow>
             if md_disabled m then (Inl (All_Deployments_Unavailable base []), r)
             else case compaction_target (pf_regex pf) q of
               Inl e \<Rightarrow> (Inl (Raised e), r)
             | Inr target \<Rightarrow>
                 (case walk_deployments pf q m target (md_deployments m)
                         \<lparr>wk_registry = r, wk_candidates = [], wk_exclusions = [], wk_claimed = []\<rparr> of
                    (Some e, w) \<Rightarrow> (Inl e, release_all base (wk_claimed w) (wk_registry w))
                  | (None, w) \<Rightarrow>
                      (if wk_candidates w = [] then Inl (All_Deployments_Unavailable base (wk_exclusions w))
                       else Inr (wk_candidates w, wk_exclusions w), wk_registry w)))"

section \<open>The read-only view\<close>

record availability_view =
  vs_available :: bool
  vs_permanent :: bool
  vs_endpoint_blocked :: bool
  vs_probe_in_flight :: bool
  vs_next_check_delay :: rat
  vs_exclusions :: "deployment_exclusion list"

definition temporary_exclusion_reasons :: "exclusion_kind set" where
  "temporary_exclusion_reasons = {Xk_Cooldown, Xk_Endpoint_Cooldown}"

text \<open>One exclusion: the gap until it may lift, whether a probe is in flight, and the registry.\<close>

definition exclusion_gap ::
  "platform \<Rightarrow> catalog_snapshot \<Rightarrow> string \<Rightarrow> rat \<Rightarrow> deployment_exclusion \<Rightarrow> availability_registry \<Rightarrow>
     (rat \<times> bool) \<times> availability_registry" where
  "exclusion_gap pf sn base now x r =
     (case (if xc_reason x = Xk_Endpoint_Cooldown
            then (case endpoint_cooldown_until (pf_clock pf)
                     (Option.bind (map_of (cg_providers (sn_catalog sn)) (xc_provider x))
                        (\<lambda>p. canonical_endpoint_identity (pf_netloc_ok pf) (Some (pd_api_base p)))) r of
                    (u, r) \<Rightarrow> ((u, False), r))
            else (case probe_in_flight (pf_clock pf) base (xc_provider x) r of
                    (b, r') \<Rightarrow> ((deployment_cooldown_until base (xc_provider x) r, b), r'))) of
        ((u, b), r) \<Rightarrow> ((case u of None \<Rightarrow> 0 | Some t \<Rightarrow> max 0 (t - now), b), r))"

fun exclusion_gaps ::
  "platform \<Rightarrow> catalog_snapshot \<Rightarrow> string \<Rightarrow> rat \<Rightarrow> deployment_exclusion list \<Rightarrow> availability_registry \<Rightarrow>
     (rat \<times> bool) list \<times> availability_registry" where
  "exclusion_gaps pf sn base now [] r = ([], r)"
| "exclusion_gaps pf sn base now (x # xs) r =
     (if xc_reason x \<notin> temporary_exclusion_reasons then exclusion_gaps pf sn base now xs r
      else case exclusion_gap pf sn base now x r of (g, r) \<Rightarrow>
        (case exclusion_gaps pf sn base now xs r of (gs, r) \<Rightarrow> (g # gs, r)))"

definition snapshot_from_exclusions ::
  "platform \<Rightarrow> catalog_snapshot \<Rightarrow> string \<Rightarrow> deployment_exclusion list \<Rightarrow> availability_registry \<Rightarrow>
     availability_view \<times> availability_registry" where
  "snapshot_from_exclusions pf sn base xs r =
     (case read_clock (pf_clock pf) r of (now, r) \<Rightarrow>
        (case exclusion_gaps pf sn base now xs r of (gs, r) \<Rightarrow>
           (if xs \<noteq> [] \<and> list_all (\<lambda>x. xc_reason x \<notin> temporary_exclusion_reasons) xs
            then \<lparr>vs_available = False, vs_permanent = True, vs_endpoint_blocked = False, vs_probe_in_flight = False,
                  vs_next_check_delay = 0, vs_exclusions = xs\<rparr>
            else \<lparr>vs_available = False, vs_permanent = False,
                  vs_endpoint_blocked = (xs \<noteq> [] \<and> list_all (\<lambda>x. xc_reason x = Xk_Endpoint_Cooldown) xs),
                  vs_probe_in_flight = list_ex snd gs,
                  vs_next_check_delay = (case map fst gs of [] \<Rightarrow> 0 | g # gs \<Rightarrow> foldl min g gs),
                  vs_exclusions = xs\<rparr>, r)))"

definition read_only_request :: "eligibility_request \<Rightarrow> eligibility_request" where
  "read_only_request q = q\<lparr>ask_compaction_only := False, ask_claim_probes := False, ask_permit := None, ask_ledger := None\<rparr>"

definition availability_snapshot ::
  "platform \<Rightarrow> eligibility_request \<Rightarrow> availability_registry \<Rightarrow>
     (eligibility_error + availability_view) \<times> availability_registry" where
  "availability_snapshot pf q r =
     (case eligible_deployments pf (read_only_request q) r of
        (Inr (cands, xs), r) \<Rightarrow>
          (Inr \<lparr>vs_available = True, vs_permanent = False, vs_endpoint_blocked = False, vs_probe_in_flight = False,
                vs_next_check_delay = 0, vs_exclusions = xs\<rparr>, r)
      | (Inl (All_Deployments_Unavailable base xs), r) \<Rightarrow>
          (case snapshot_from_exclusions pf (ask_snapshot q) (ci_base_model (ask_committed q)) xs r of (v, r) \<Rightarrow> (Inr v, r))
      | (Inl e, r) \<Rightarrow> (Inl e, r))"

end
