(* ===== verification/Availability_Props.thy ===== *)
theory Availability_Props
  imports Availability
begin

text \<open>
  What any sequence of calls of the availability registry guarantees: its invariant, the ownership
  of a claimed probe, and when an endpoint is cooled down.
\<close>

section \<open>Views of the state\<close>

lemma cooldown_put [simp]: "cooldown_of (put_cooldown k c r) = (cooldown_of r)(k \<mapsto> c)"
  by (simp add: cooldown_of_def put_cooldown_def fun_eq_iff)

lemma cooldown_drop [simp]: "cooldown_of (drop_cooldown k r) = (cooldown_of r)(k := None)"
  by (auto simp: cooldown_of_def drop_cooldown_def fun_eq_iff)

lemma cooldown_reset [simp]: "cooldown_of (reset_base b r) k = (if fst k = b then None else cooldown_of r k)"
proof -
  have "map_of (filter (\<lambda>e. fst (fst e) \<noteq> b) d) k = (if fst k = b then None else map_of d k)"
    for d :: "(deployment_key \<times> cooldown) list"
    by (induction d) auto
  then show ?thesis by (simp add: cooldown_of_def reset_base_def)
qed

lemma cooldown_frames [simp]:
  "cooldown_of (r\<lparr>ar_reads := n\<rparr>) = cooldown_of r" "cooldown_of (r\<lparr>ar_next_token := t\<rparr>) = cooldown_of r"
  "cooldown_of (r\<lparr>ar_events := es\<rparr>) = cooldown_of r" "cooldown_of (r\<lparr>ar_endpoint_cooldowns := x\<rparr>) = cooldown_of r"
  by (simp_all add: cooldown_of_def fun_eq_iff)

lemma put_fields [simp]:
  "ar_next_token (put_cooldown k c r) = ar_next_token r" "ar_events (put_cooldown k c r) = ar_events r"
  "ar_claim_ttl (put_cooldown k c r) = ar_claim_ttl r" "ar_reads (put_cooldown k c r) = ar_reads r"
  "ar_next_token (drop_cooldown k r) = ar_next_token r" "ar_events (drop_cooldown k r) = ar_events r"
  "ar_claim_ttl (drop_cooldown k r) = ar_claim_ttl r" "ar_reads (drop_cooldown k r) = ar_reads r"
  "ar_next_token (reset_base b r) = ar_next_token r" "ar_events (reset_base b r) = ar_events r"
  "ar_claim_ttl (reset_base b r) = ar_claim_ttl r" "ar_reads (reset_base b r) = ar_reads r"
  "ar_endpoint_cooldowns (put_cooldown k c r) = ar_endpoint_cooldowns r" "ar_window (put_cooldown k c r) = ar_window r"
  "ar_min_events (put_cooldown k c r) = ar_min_events r" "ar_min_models (put_cooldown k c r) = ar_min_models r"
  "ar_endpoint_cooldown (put_cooldown k c r) = ar_endpoint_cooldown r"
  by (simp_all add: put_cooldown_def drop_cooldown_def reset_base_def)

text \<open>
  An operation that reads: it leaves the deployments, the tokens and the events alone, drops no
  endpoint cooldown but one that a reading of the clock found expired, and moves the clock on.
\<close>

definition reads_only :: "clock \<Rightarrow> availability_registry \<Rightarrow> availability_registry \<Rightarrow> bool" where
  "reads_only ck r r' \<longleftrightarrow>
     ar_cooldowns r' = ar_cooldowns r \<and> ar_next_token r' = ar_next_token r \<and> ar_events r' = ar_events r \<and>
     ar_claim_ttl r' = ar_claim_ttl r \<and> ar_initial_cooldown r' = ar_initial_cooldown r \<and> ar_window r' = ar_window r \<and>
     ar_min_events r' = ar_min_events r \<and> ar_min_models r' = ar_min_models r \<and>
     ar_endpoint_cooldown r' = ar_endpoint_cooldown r \<and> ar_reads r \<le> ar_reads r' \<and>
     map_of (ar_endpoint_cooldowns r') \<subseteq>\<^sub>m map_of (ar_endpoint_cooldowns r) \<and>
     (\<forall>e u. map_of (ar_endpoint_cooldowns r) e = Some u \<longrightarrow>
        map_of (ar_endpoint_cooldowns r') e = Some u \<or> (\<exists>m. ar_reads r \<le> m \<and> m < ar_reads r' \<and> u \<le> ck m))"

lemma reads_only_refl [simp]: "reads_only ck r r"
  by (simp add: reads_only_def)

lemma reads_only_trans: "reads_only ck a b \<Longrightarrow> reads_only ck b c \<Longrightarrow> reads_only ck a c"
proof -
  assume a: "reads_only ck a b" "reads_only ck b c"
  have "map_of (ar_endpoint_cooldowns c) e = Some u \<or> (\<exists>m. ar_reads a \<le> m \<and> m < ar_reads c \<and> u \<le> ck m)"
    if e: "map_of (ar_endpoint_cooldowns a) e = Some u" for e u
  proof -
    consider (kept) "map_of (ar_endpoint_cooldowns b) e = Some u" | (dropped) m where "ar_reads a \<le> m" "m < ar_reads b" "u \<le> ck m"
      using a(1) e unfolding reads_only_def by blast
    then show ?thesis
    proof cases
      case kept
      then consider "map_of (ar_endpoint_cooldowns c) e = Some u" | m where "ar_reads b \<le> m" "m < ar_reads c" "u \<le> ck m"
        using a(2) unfolding reads_only_def by blast
      then show ?thesis using a(1) unfolding reads_only_def by cases (auto intro: order_trans)
    next
      case dropped
      moreover have "ar_reads b \<le> ar_reads c" using a(2) by (simp add: reads_only_def)
      ultimately show ?thesis by (meson less_le_trans)
    qed
  qed
  then show ?thesis using a by (auto simp: reads_only_def intro: map_le_trans)
qed

lemma reads_only_clock [simp]: "reads_only ck r (r\<lparr>ar_reads := Suc (ar_reads r)\<rparr>)"
  by (simp add: reads_only_def)

lemma reads_only_cooldown: "reads_only ck r r' \<Longrightarrow> cooldown_of r' = cooldown_of r"
  by (simp add: reads_only_def cooldown_of_def fun_eq_iff)

lemma read_clock_only: "read_clock ck r = (t, r') \<Longrightarrow> reads_only ck r r'"
  by (auto simp: read_clock_def)

lemma endpoint_until_only: "endpoint_cooldown_until ck e r = (u, r') \<Longrightarrow> reads_only ck r r'"
  by (auto simp: endpoint_cooldown_until_def read_clock_def reads_only_def map_le_def split: option.splits if_splits)

lemma correlation_only: "endpoint_correlation_active ck e r = (b, r') \<Longrightarrow> reads_only ck r r'"
  by (auto simp: endpoint_correlation_active_def split: prod.splits intro: endpoint_until_only)

lemma stale_only: "probe_claim_stale ck c r = (b, r') \<Longrightarrow> reads_only ck r r'"
  by (auto simp: probe_claim_stale_def read_clock_def split: option.splits)

lemma is_available_only: "is_available ck base provider e r = (b, r') \<Longrightarrow> reads_only ck r r'"
proof -
  assume a: "is_available ck base provider e r = (b, r')"
  obtain act r1 where r1: "endpoint_correlation_active ck e r = (act, r1)" by force
  note o1 = correlation_only [OF r1]
  show "reads_only ck r r'"
  proof (cases "act \<or> cooldown_of r1 (base, provider) = None")
    case True
    with a r1 o1 show ?thesis by (auto simp: is_available_def split: if_splits option.splits)
  next
    case False
    then obtain c where c: "cooldown_of r1 (base, provider) = Some c" "\<not> act" by auto
    obtain t r2 where r2: "read_clock ck r1 = (t, r2)" by force
    note o2 = reads_only_trans [OF o1 read_clock_only [OF r2]]
    from a r1 c r2 have "r' = r2 \<or> probe_claim_stale ck c r2 = (b, r')"
      by (auto simp: is_available_def split: if_splits)
    with o2 stale_only reads_only_trans show ?thesis by blast
  qed
qed

lemma in_flight_only: "probe_in_flight ck base provider r = (b, r') \<Longrightarrow> reads_only ck r r'"
  by (auto simp: probe_in_flight_def split: option.splits if_splits prod.splits dest: stale_only)

section \<open>Admission\<close>

text \<open>An admission: no claim, or a claim under a new token of a deployment that no live claim holds.\<close>

lemma admission_cases:
  assumes "probe_admission ck base provider e r = ((adm, tok), r')"
  obtains (unclaimed) "tok = None" "reads_only ck r r'"
  | (claimed) r0 c t now where "reads_only ck r r0" "cooldown_of r (base, provider) = Some c" "adm" "tok = Some t"
      "t = ar_next_token r + 1" "ar_reads r < ar_reads r0"
      "\<exists>m. ar_reads r \<le> m \<and> m < ar_reads r0 \<and> now = ck m"
      "cd_probe c \<Longrightarrow> \<exists>c0 m. cd_claimed_at c = Some c0 \<and> m < ar_reads r0 \<and> ar_reads r \<le> m \<and> ar_claim_ttl r \<le> ck m - c0"
      "cd_until c \<le> now"
      "r' = put_cooldown (base, provider) (c\<lparr>cd_probe := True, cd_token := Some t, cd_claimed_at := Some now\<rparr>)
         (r0\<lparr>ar_next_token := t\<rparr>)"
proof -
  obtain act r1 where r1: "endpoint_correlation_active ck e r = (act, r1)" by force
  note o1 = correlation_only [OF r1]
  show thesis
  proof (cases "act \<or> cooldown_of r1 (base, provider) = None")
    case True
    with assms r1 o1 show thesis by (intro unclaimed) (auto simp: probe_admission_def split: if_splits option.splits)
  next
    case False
    then obtain c where c: "cooldown_of r1 (base, provider) = Some c" "\<not> act" by auto
    let ?now = "ck (ar_reads r1)" and ?r2 = "r1\<lparr>ar_reads := Suc (ar_reads r1)\<rparr>"
    have o2: "reads_only ck r ?r2" using o1 reads_only_clock by (rule reads_only_trans)
    have reads: "ar_reads r \<le> ar_reads r1" using o1 by (simp add: reads_only_def)
    obtain free r3 where r3: "(if cd_probe c then probe_claim_stale ck c ?r2 else (True, ?r2)) = (free, r3)" by force
    have o3: "reads_only ck ?r2 r3" using r3 by (auto split: if_splits dest: stale_only)
    note o3' = reads_only_trans [OF o2 o3]
    show thesis
    proof (cases "?now < cd_until c \<or> \<not> free")
      case True
      with assms r1 c r3 o2 o3' show thesis
        by (intro unclaimed) (auto simp: probe_admission_def read_clock_def split: if_splits)
    next
      case False
      then have now: "cd_until c \<le> ?now" and fr: free by auto
      let ?t = "ar_next_token r3 + 1"
      let ?r' = "put_cooldown (base, provider) (c\<lparr>cd_probe := True, cd_token := Some ?t, cd_claimed_at := Some ?now\<rparr>)
          (r3\<lparr>ar_next_token := ?t\<rparr>)"
      have "((adm, tok), r') = ((True, Some ?t), ?r')"
        unfolding assms [symmetric] using c r1 r3 now fr by (simp add: probe_admission_def read_clock_def)
      moreover have "ar_next_token r3 = ar_next_token r" using o3' by (simp add: reads_only_def)
      moreover have "ar_reads r1 < ar_reads r3" using o3 by (simp add: reads_only_def)
      moreover have "cooldown_of r (base, provider) = Some c" using reads_only_cooldown [OF o1] c(1) by simp
      moreover have "\<exists>c0 m. cd_claimed_at c = Some c0 \<and> m < ar_reads r3 \<and> ar_reads r \<le> m \<and> ar_claim_ttl r \<le> ck m - c0"
        if "cd_probe c"
      proof -
        from that r3 fr obtain c0 where c0: "cd_claimed_at c = Some c0" "ar_claim_ttl ?r2 \<le> ck (ar_reads ?r2) - c0"
            "r3 = ?r2\<lparr>ar_reads := Suc (ar_reads ?r2)\<rparr>"
          by (auto simp: probe_claim_stale_def read_clock_def split: option.splits)
        moreover have "ar_claim_ttl ?r2 = ar_claim_ttl r" using o2 by (simp add: reads_only_def)
        ultimately show ?thesis
          using reads by (intro exI [of _ c0] exI [of _ "ar_reads ?r2"]) simp
      qed
      ultimately show thesis using o3' now reads
        by (intro claimed [of r3 c ?t ?now]) (auto intro!: exI [of _ "ar_reads r1"])
    qed
  qed
qed

section \<open>Sequences of calls\<close>

datatype registry_call =
  Failure_Call string string "failure_info option" "string option" "string option" "nat option"
  | Success_Call string string "nat option"
  | Reset_Call string
  | Admission_Call string string "string option"
  | Release_Call string string nat
  | Available_Call string string "string option"
  | Correlation_Call "string option"
  | In_Flight_Call string string

text \<open>The registry with the claims it granted, newest first.\<close>

type_synonym granting = "availability_registry \<times> (deployment_key \<times> nat) list"

fun perform_registry :: "clock \<Rightarrow> (string \<Rightarrow> bool) \<Rightarrow> registry_call \<Rightarrow> granting \<Rightarrow> granting" where
  "perform_registry ck ok (Failure_Call b p f e sg t) (r, gs) = (record_failure ck ok b p f e sg t r, gs)"
| "perform_registry ck ok (Success_Call b p t) (r, gs) = (record_success ck b p t r, gs)"
| "perform_registry ck ok (Reset_Call b) (r, gs) = (reset_base b r, gs)"
| "perform_registry ck ok (Admission_Call b p e) (r, gs) =
     (case probe_admission ck b p e r of ((_, tok), r) \<Rightarrow>
        (r, case tok of None \<Rightarrow> gs | Some t \<Rightarrow> ((b, p), t) # gs))"
| "perform_registry ck ok (Release_Call b p t) (r, gs) = (release_probe b p t r, gs)"
| "perform_registry ck ok (Available_Call b p e) (r, gs) = (snd (is_available ck b p e r), gs)"
| "perform_registry ck ok (Correlation_Call e) (r, gs) = (snd (endpoint_correlation_active ck e r), gs)"
| "perform_registry ck ok (In_Flight_Call b p) (r, gs) = (snd (probe_in_flight ck b p r), gs)"

definition perform_registry_calls :: "clock \<Rightarrow> (string \<Rightarrow> bool) \<Rightarrow> registry_call list \<Rightarrow> granting \<Rightarrow> granting" where
  "perform_registry_calls ck ok cs x = fold (perform_registry ck ok) cs x"

section \<open>A sample sequence\<close>

definition registry_sample_clock :: clock where "registry_sample_clock n = 10 * of_nat n"

definition fresh_registry :: availability_registry where
  "fresh_registry =
     \<lparr>ar_initial_cooldown = 30, ar_claim_ttl = 1200, ar_cooldowns = [], ar_next_token = 0, ar_window = 300,
      ar_min_events = 2, ar_min_models = 2, ar_endpoint_cooldown = 30, ar_events = [], ar_endpoint_cooldowns = [],
      ar_reads = 0\<rparr>"

lemma fresh_registry: "new_availability 30 300 2 2 None 1200 = Some fresh_registry"
  by (simp add: new_availability_def fresh_registry_def)

text \<open>Two models are rate-limited on one endpoint; then the probe of the first is claimed.\<close>

definition rate_limited :: "string \<Rightarrow> registry_call" where
  "rate_limited m =
     Failure_Call m ''p'' (Some (info_of Rate_Limit)) (Some ''https://a.example/v1'') (Some ''429'') None"

definition correlating_calls :: "registry_call list" where
  "correlating_calls = [rate_limited ''m1'', rate_limited ''m2'', Admission_Call ''m1'' ''p'' None]"

text \<open>Late settlements of other attempts, and admissions, while the probe is in flight.\<close>

definition late_calls :: "registry_call list" where
  "late_calls =
     [Success_Call ''m1'' ''p'' None, Admission_Call ''m1'' ''p'' None, Failure_Call ''m1'' ''p'' None None None (Some 7),
      Release_Call ''m1'' ''p'' 2, Reset_Call ''m2'', Available_Call ''m1'' ''p'' None]"

definition claimed_state :: granting where
  "claimed_state = perform_registry_calls registry_sample_clock (\<lambda>_. True) correlating_calls (fresh_registry, [])"

definition late_state :: granting where
  "late_state = perform_registry_calls registry_sample_clock (\<lambda>_. True) late_calls claimed_state"

section \<open>The invariant\<close>

definition cooldown_ok :: "nat \<Rightarrow> cooldown \<Rightarrow> bool" where
  "cooldown_ok n c \<longleftrightarrow>
     (cd_probe c \<longleftrightarrow> cd_token c \<noteq> None) \<and> (cd_probe c \<longleftrightarrow> cd_claimed_at c \<noteq> None) \<and> (\<forall>t. cd_token c = Some t \<longrightarrow> t \<le> n)"

definition registry_ok :: "availability_registry \<Rightarrow> bool" where
  "registry_ok r \<longleftrightarrow>
     (\<forall>k c. cooldown_of r k = Some c \<longrightarrow> cooldown_ok (ar_next_token r) c) \<and>
     (\<forall>k k' c c' t. cooldown_of r k = Some c \<longrightarrow> cooldown_of r k' = Some c' \<longrightarrow>
        cd_token c = Some t \<longrightarrow> cd_token c' = Some t \<longrightarrow> k = k') \<and>
     (\<forall>e. length (events_of r e) \<le> max_endpoint_events)"

lemma registry_ok_cooldown: "registry_ok r \<Longrightarrow> cooldown_of r k = Some c \<Longrightarrow> cooldown_ok (ar_next_token r) c"
  unfolding registry_ok_def by blast

lemma registry_ok_token:
  "registry_ok r \<Longrightarrow> cooldown_of r k = Some c \<Longrightarrow> cooldown_of r k' = Some c' \<Longrightarrow> cd_token c = Some t \<Longrightarrow>
    cd_token c' = Some t \<Longrightarrow> k = k'"
  unfolding registry_ok_def by blast

lemma registry_okI:
  assumes "\<And>k c. cooldown_of r k = Some c \<Longrightarrow> cooldown_ok (ar_next_token r) c"
    "\<And>k k' c c' t. cooldown_of r k = Some c \<Longrightarrow> cooldown_of r k' = Some c' \<Longrightarrow> cd_token c = Some t \<Longrightarrow>
       cd_token c' = Some t \<Longrightarrow> k = k'"
    "\<And>e. length (events_of r e) \<le> max_endpoint_events"
  shows "registry_ok r"
  unfolding registry_ok_def using assms by blast

lemma registry_ok_frame:
  "registry_ok r \<Longrightarrow> cooldown_of r' = cooldown_of r \<Longrightarrow> ar_next_token r' = ar_next_token r \<Longrightarrow> ar_events r' = ar_events r \<Longrightarrow>
    registry_ok r'"
  by (simp add: registry_ok_def events_of_def)

lemma registry_ok_reads: "registry_ok r \<Longrightarrow> reads_only ck r r' \<Longrightarrow> registry_ok r'"
  by (rule registry_ok_frame) (auto simp: reads_only_cooldown reads_only_def)

text \<open>A deployment whose new entry claims nothing, or keeps the claim it had.\<close>

lemma registry_ok_put:
  assumes ok: "registry_ok r" and c: "cd_token c = None \<and> \<not> cd_probe c \<and> cd_claimed_at c = None \<or>
      (\<exists>d. cooldown_of r k = Some d \<and> cd_token c = cd_token d \<and> cd_probe c = cd_probe d \<and> cd_claimed_at c = cd_claimed_at d)"
  shows "registry_ok (put_cooldown k c r)"
proof -
  have "cooldown_ok (ar_next_token r) c"
    using c
  proof (elim disjE exE conjE)
    fix d assume "cooldown_of r k = Some d" "cd_token c = cd_token d" "cd_probe c = cd_probe d" "cd_claimed_at c = cd_claimed_at d"
    with registry_ok_cooldown [OF ok this(1)] show ?thesis unfolding cooldown_ok_def by metis
  qed (simp add: cooldown_ok_def)
  moreover have "k = k'" if "cooldown_of r k' = Some c'" "cd_token c = Some t" "cd_token c' = Some t" for k' c' t
  proof -
    from c that(2) obtain d where "cooldown_of r k = Some d" "cd_token d = Some t" by auto
    with ok that show ?thesis unfolding registry_ok_def by blast
  qed
  ultimately show ?thesis
    using registry_ok_cooldown [OF ok] registry_ok_token [OF ok] ok
    by (intro registry_okI) (auto simp: registry_ok_def events_of_def simp del: split_paired_All split: if_splits)
qed

lemma registry_ok_less:
  assumes ok: "registry_ok r" and sub: "\<And>k c. cooldown_of r' k = Some c \<Longrightarrow> cooldown_of r k = Some c"
    and f: "ar_next_token r' = ar_next_token r" "ar_events r' = ar_events r"
  shows "registry_ok r'"
  using ok sub unfolding registry_ok_def events_of_def f by blast

lemma retained_length: "length es \<le> max_endpoint_events \<Longrightarrow> length (retained_events t es) < max_endpoint_events"
proof -
  assume "length es \<le> max_endpoint_events"
  moreover have "length (dropWhile (\<lambda>e. fe_observed_at e < t) es) \<le> length es" by (rule length_dropWhile_le)
  ultimately have "length (dropWhile (\<lambda>e. fe_observed_at e < t) es) \<le> max_endpoint_events" by simp
  then show ?thesis by (auto simp: retained_events_def Let_def max_endpoint_events_def)
qed

lemma arm_frames [simp]:
  "cooldown_of (arm_endpoint_correlation e now r) = cooldown_of r"
  "ar_next_token (arm_endpoint_correlation e now r) = ar_next_token r"
  "ar_events (arm_endpoint_correlation e now r) = ar_events r"
  "ar_claim_ttl (arm_endpoint_correlation e now r) = ar_claim_ttl r"
  "ar_reads (arm_endpoint_correlation e now r) = ar_reads r"
  by (simp_all add: arm_endpoint_correlation_def Let_def)

lemma endpoint_failure_frames [simp]:
  "cooldown_of (record_endpoint_failure ck e b f sg r) = cooldown_of r"
  "ar_next_token (record_endpoint_failure ck e b f sg r) = ar_next_token r"
  "ar_claim_ttl (record_endpoint_failure ck e b f sg r) = ar_claim_ttl r"
  "ar_reads (record_endpoint_failure ck e b f sg r) = Suc (ar_reads r)"
  by (simp_all add: record_endpoint_failure_def read_clock_def Let_def)

lemma endpoint_failure_ok:
  assumes ok: "registry_ok r"
  shows "registry_ok (record_endpoint_failure ck e b f sg r)"
proof -
  have len: "length (events_of r x) \<le> max_endpoint_events" for x using ok by (simp add: registry_ok_def)
  have "length (events_of (record_endpoint_failure ck e b f sg r) x) \<le> max_endpoint_events" for x
    using retained_length [OF len [of e]] len [of x]
    by (auto simp: record_endpoint_failure_def read_clock_def Let_def events_of_def less_eq_Suc_le split: option.splits)
  with ok show ?thesis by (simp add: registry_ok_def)
qed

lemma cooled_down_claim:
  "cd_token (cooled_down cur u t) = None \<and> \<not> cd_probe (cooled_down cur u t) \<and> cd_claimed_at (cooled_down cur u t) = None \<or>
   (\<exists>d. cur = Some d \<and> cd_token (cooled_down cur u t) = cd_token d \<and> cd_probe (cooled_down cur u t) = cd_probe d \<and>
      cd_claimed_at (cooled_down cur u t) = cd_claimed_at d)"
  by (auto simp: cooled_down_def split: option.splits)

lemma record_failure_ok: "registry_ok r \<Longrightarrow> registry_ok (record_failure ck ok b p f e sg t r)"
proof -
  assume r: "registry_ok r"
  let ?r1 = "r\<lparr>ar_reads := Suc (ar_reads r)\<rparr>"
  have r1: "registry_ok ?r1" using r reads_only_clock by (rule registry_ok_reads)
  have "registry_ok (put_cooldown (b, p) (cooled_down (cooldown_of ?r1 (b, p)) u t) ?r1)" for u
    using r1 cooled_down_claim by (rule registry_ok_put)
  then show ?thesis
    by (auto simp: record_failure_def read_clock_def Let_def intro: endpoint_failure_ok split: option.split)
qed

lemma record_success_ok: "registry_ok r \<Longrightarrow> registry_ok (record_success ck b p t r)"
proof -
  assume r: "registry_ok r"
  let ?r1 = "r\<lparr>ar_reads := Suc (ar_reads r)\<rparr>"
  have r1: "registry_ok ?r1" using r reads_only_clock by (rule registry_ok_reads)
  have "registry_ok (put_cooldown (b, p) (c\<lparr>cd_until := u\<rparr>) ?r1)" if "cooldown_of r (b, p) = Some c" for c u
    using r1 by (rule registry_ok_put) (simp add: that)
  moreover have "registry_ok (drop_cooldown (b, p) r)"
    using r by (rule registry_ok_less) (auto split: if_splits)
  ultimately show ?thesis
    using r by (auto simp: record_success_def read_clock_def split: option.split)
qed

lemma release_probe_ok: "registry_ok r \<Longrightarrow> registry_ok (release_probe b p t r)"
  by (auto simp: release_probe_def split: option.split intro: registry_ok_put)

lemma reset_base_ok: "registry_ok r \<Longrightarrow> registry_ok (reset_base b r)"
  by (rule registry_ok_less [of r]) (auto split: if_splits)

lemma probe_admission_ok:
  assumes ok: "registry_ok r" and a: "probe_admission ck b p e r = ((adm, tok), r')"
  shows "registry_ok r'"
  using a
proof (cases rule: admission_cases)
  case unclaimed
  from ok unclaimed(2) show ?thesis by (rule registry_ok_reads)
next
  case (claimed r0 c t now)
  have r0: "registry_ok r0" using ok claimed(1) by (rule registry_ok_reads)
  have next0: "ar_next_token r0 = ar_next_token r" using claimed(1) by (simp add: reads_only_def)
  have old: "u \<le> ar_next_token r" if "cooldown_of r0 k = Some d" "cd_token d = Some u" for k d u
    using registry_ok_cooldown [OF r0 that(1)] that(2) next0 by (simp add: cooldown_ok_def)
  then have fresh: "u \<noteq> Suc (ar_next_token r)" if "cooldown_of r0 k = Some d" "cd_token d = Some u" for k d u
    using that by fastforce
  have "cooldown_ok (Suc (ar_next_token r)) d" if "cooldown_of r0 k = Some d" for k d
    using registry_ok_cooldown [OF r0 that] next0 by (auto simp: cooldown_ok_def intro: le_SucI)
  moreover have "cooldown_ok (Suc (ar_next_token r)) (c\<lparr>cd_probe := True, cd_token := Some t, cd_claimed_at := Some now\<rparr>)"
    by (simp add: cooldown_ok_def claimed(5))
  moreover have "length (events_of r' x) \<le> max_endpoint_events" for x
    using r0 claimed(10) by (simp add: registry_ok_def events_of_def)
  moreover have "k = k'" if "cooldown_of r' k = Some d" "cooldown_of r' k' = Some d'" "cd_token d = Some u" "cd_token d' = Some u"
    for k k' d d' u
  proof (cases "k = (b, p)"; cases "k' = (b, p)")
    assume "k \<noteq> (b, p)" "k' \<noteq> (b, p)"
    with that claimed(10) registry_ok_token [OF r0, of k d k' d' u] show ?thesis by simp
  next
    assume "k = (b, p)" "k' \<noteq> (b, p)"
    with that claimed(5,10) fresh [of k' d' u] show ?thesis by auto
  next
    assume "k \<noteq> (b, p)" "k' = (b, p)"
    with that claimed(5,10) fresh [of k d u] show ?thesis by auto
  qed simp
  moreover have "cooldown_ok (ar_next_token r') d" if "cooldown_of r' k = Some d" for k d
    using that calculation(1) [of k d] calculation(2) claimed(5,10) by (cases "k = (b, p)") simp_all
  ultimately show ?thesis by (intro registry_okI)
qed

lemma perform_registry_ok: "registry_ok (fst x) \<Longrightarrow> registry_ok (fst (perform_registry ck ok c x))"
proof -
  assume ok: "registry_ok (fst x)"
  obtain r gs where x: "x = (r, gs)" by force
  with ok have r: "registry_ok r" by simp
  show ?thesis
  proof (cases c)
    case (Admission_Call b p e)
    obtain adm tok r' where a: "probe_admission ck b p e r = ((adm, tok), r')" by (metis prod.collapse)
    show ?thesis unfolding x Admission_Call using probe_admission_ok [OF r a] a by simp
  next
    case (Available_Call b p e)
    have "reads_only ck r (snd (is_available ck b p e r))" by (rule is_available_only) (rule surjective_pairing)
    with r registry_ok_reads show ?thesis unfolding x Available_Call by simp
  next
    case (Correlation_Call e)
    have "reads_only ck r (snd (endpoint_correlation_active ck e r))" by (rule correlation_only) (rule surjective_pairing)
    with r registry_ok_reads show ?thesis unfolding x Correlation_Call by simp
  next
    case (In_Flight_Call b p)
    have "reads_only ck r (snd (probe_in_flight ck b p r))" by (rule in_flight_only) (rule surjective_pairing)
    with r registry_ok_reads show ?thesis unfolding x In_Flight_Call by simp
  qed (simp_all add: x r record_failure_ok record_success_ok reset_base_ok release_probe_ok)
qed

lemma new_availability_ok: "new_availability i w me mm ec ttl = Some r \<Longrightarrow> registry_ok r"
  by (auto simp: new_availability_def registry_ok_def cooldown_of_def events_of_def split: if_splits)

text \<open>
  Through any calls of the registry a claimed probe has a token and a date, no two deployments share
  a token, and an endpoint retains a bounded number of events.
\<close>

theorem registry_invariant:
  assumes "new_availability initial window min_events min_models ec ttl = Some r0"
  shows "registry_ok (fst (perform_registry_calls ck netloc cs (r0, [])))"
proof -
  have "registry_ok (fst x) \<Longrightarrow> registry_ok (fst (perform_registry_calls ck netloc cs x))" for x
    unfolding perform_registry_calls_def
    by (induction cs arbitrary: x) (simp_all add: perform_registry_ok)
  with new_availability_ok [OF assms] show ?thesis by simp
qed

theorem registry_invariant_witness:
  "registry_ok (fst claimed_state) \<and> snd claimed_state = [((''m1'', ''p''), 1)]"
proof -
  have "snd claimed_state = [((''m1'', ''p''), 1)]" by code_simp
  with registry_invariant [OF fresh_registry, of registry_sample_clock "\<lambda>_. True" correlating_calls]
  show ?thesis by (simp add: claimed_state_def)
qed

section \<open>A claim is owned\<close>

definition claims :: "availability_registry \<Rightarrow> deployment_key \<Rightarrow> nat \<Rightarrow> rat \<Rightarrow> bool" where
  "claims r k t a \<longleftrightarrow>
     (case cooldown_of r k of None \<Rightarrow> False
      | Some c \<Rightarrow> cd_probe c \<and> cd_token c = Some t \<and> cd_claimed_at c = Some a)"

text \<open>The calls that carry the token of the claim.\<close>

fun settles :: "deployment_key \<Rightarrow> nat \<Rightarrow> registry_call \<Rightarrow> bool" where
  "settles k t (Failure_Call b p f e sg tok) \<longleftrightarrow> (b, p) = k \<and> tok = Some t"
| "settles k t (Success_Call b p tok) \<longleftrightarrow> (b, p) = k \<and> tok = Some t"
| "settles k t (Release_Call b p u) \<longleftrightarrow> (b, p) = k \<and> u = t"
| "settles k t _ \<longleftrightarrow> False"

lemma claims_frame: "cooldown_of r' k = cooldown_of r k \<Longrightarrow> claims r' k t a = claims r k t a"
  by (simp add: claims_def)

lemma claims_reads: "reads_only ck r r' \<Longrightarrow> claims r' k t a = claims r k t a"
  by (simp add: claims_def reads_only_cooldown)

lemma failure_frames [simp]:
  "cooldown_of (record_failure ck ok b p f e sg tok r) =
     (cooldown_of r)((b, p) \<mapsto> cooled_down (cooldown_of r (b, p)) (ck (ar_reads r) + failure_delay r f) tok)"
  "ar_claim_ttl (record_failure ck ok b p f e sg tok r) = ar_claim_ttl r"
  "ar_reads r \<le> ar_reads (record_failure ck ok b p f e sg tok r)"
  by (simp_all add: record_failure_def read_clock_def Let_def split: option.split)

lemma success_frames [simp]:
  "ar_claim_ttl (record_success ck b p tok r) = ar_claim_ttl r" "ar_reads r \<le> ar_reads (record_success ck b p tok r)"
  by (simp_all add: record_success_def read_clock_def split: option.split)

lemma release_frames [simp]:
  "ar_claim_ttl (release_probe b p tok r) = ar_claim_ttl r" "ar_reads (release_probe b p tok r) = ar_reads r"
  by (simp_all add: release_probe_def split: option.split)

lemma claim_survives_failure:
  "claims r k t a \<Longrightarrow> \<not> ((b, p) = k \<and> tok = Some t) \<Longrightarrow> claims (record_failure ck ok b p f e sg tok r) k t a"
  by (auto simp: claims_def cooled_down_def foreign_probe_def split: option.splits)

lemma claim_survives_success:
  "claims r k t a \<Longrightarrow> \<not> ((b, p) = k \<and> tok = Some t) \<Longrightarrow> claims (record_success ck b p tok r) k t a"
  by (auto simp: claims_def record_success_def foreign_probe_def read_clock_def split: option.splits)

lemma claim_survives_release:
  "claims r k t a \<Longrightarrow> \<not> ((b, p) = k \<and> u = t) \<Longrightarrow> claims (release_probe b p u r) k t a"
  by (auto simp: claims_def release_probe_def split: option.splits)

lemma claim_survives_reset: "claims r k t a \<Longrightarrow> b \<noteq> fst k \<Longrightarrow> claims (reset_base b r) k t a"
  by (simp add: claims_def)

lemma claim_survives_admission:
  assumes c: "claims r k t a" and adm: "probe_admission ck b p e r = ((x, tok), r')"
    and live: "\<forall>m < ar_reads r'. ck m - a < ar_claim_ttl r"
  shows "claims r' k t a \<and> (tok = None \<or> (b, p) \<noteq> k) \<and> ar_claim_ttl r' = ar_claim_ttl r \<and> ar_reads r \<le> ar_reads r'"
  using adm
proof (cases rule: admission_cases)
  case unclaimed
  with c show ?thesis by (simp add: claims_reads) (simp add: reads_only_def)
next
  case (claimed r0 d u now)
  have "(b, p) \<noteq> k"
  proof
    assume k: "(b, p) = k"
    with c claimed(2) have d: "cd_probe d" "cd_claimed_at d = Some a" by (auto simp: claims_def)
    from claimed(8) [OF d(1)] d(2) obtain m where "m < ar_reads r0" "ar_claim_ttl r \<le> ck m - a" by auto
    moreover have "ar_reads r' = ar_reads r0" using claimed(10) by simp
    ultimately show False using live by fastforce
  qed
  moreover have "claims r0 k t a" "ar_claim_ttl r0 = ar_claim_ttl r" "ar_reads r \<le> ar_reads r0"
    using c claims_reads [OF claimed(1)] claimed(1) by (simp_all add: reads_only_def)
  ultimately show ?thesis using claimed(10) by (auto simp: claims_def)
qed

lemma claim_survives_call:
  assumes c: "claims r k t a" and s: "\<not> settles k t call" "call \<noteq> Reset_Call (fst k)" and x: "perform_registry ck ok call (r, gs) = (r', gs')"
    and live: "\<forall>m < ar_reads r'. ck m - a < ar_claim_ttl r"
  shows "claims r' k t a \<and> filter (\<lambda>g. fst g = k) gs' = filter (\<lambda>g. fst g = k) gs \<and> ar_claim_ttl r' = ar_claim_ttl r \<and>
     ar_reads r \<le> ar_reads r'"
proof -
  have reading: ?thesis if "reads_only ck r r'" "gs' = gs"
    using that c claims_reads [OF that(1)] by (simp add: reads_only_def)
  show ?thesis
  proof (cases call)
    case (Admission_Call b p e)
    obtain adm tok r1 where a: "probe_admission ck b p e r = ((adm, tok), r1)" by (metis prod.collapse)
    from x have "r' = r1" "gs' = (case tok of None \<Rightarrow> gs | Some t \<Rightarrow> ((b, p), t) # gs)"
      unfolding Admission_Call by (simp_all add: a)
    with claim_survives_admission [OF c a] live show ?thesis by (auto split: option.split)
  next
    case (Available_Call b p e)
    have "reads_only ck r (snd (is_available ck b p e r))" by (rule is_available_only) (rule surjective_pairing)
    with reading x show ?thesis unfolding Available_Call by simp
  next
    case (Correlation_Call e)
    have "reads_only ck r (snd (endpoint_correlation_active ck e r))" by (rule correlation_only) (rule surjective_pairing)
    with reading x show ?thesis unfolding Correlation_Call by simp
  next
    case (In_Flight_Call b p)
    have "reads_only ck r (snd (probe_in_flight ck b p r))" by (rule in_flight_only) (rule surjective_pairing)
    with reading x show ?thesis unfolding In_Flight_Call by simp
  next
    case (Failure_Call b p f e sg tok)
    with x s claim_survives_failure [OF c] show ?thesis by auto
  next
    case (Success_Call b p tok)
    with x s claim_survives_success [OF c] show ?thesis by auto
  next
    case (Reset_Call b)
    with x s claim_survives_reset [OF c] show ?thesis by auto
  next
    case (Release_Call b p u)
    with x s claim_survives_release [OF c] show ?thesis by auto
  qed
qed

lemma reads_grow: "ar_reads (fst x) \<le> ar_reads (fst (perform_registry ck ok call x))"
proof -
  obtain r gs where x: "x = (r, gs)" by force
  have re: "reads_only ck r r' \<Longrightarrow> ar_reads r \<le> ar_reads r'" for r' by (simp add: reads_only_def)
  show ?thesis
  proof (cases call)
    case (Admission_Call b p e)
    obtain adm tok r1 where a: "probe_admission ck b p e r = ((adm, tok), r1)" by (metis prod.collapse)
    then have "ar_reads r \<le> ar_reads r1"
    proof (cases rule: admission_cases)
      case unclaimed
      from unclaimed(2) show ?thesis by (rule re)
    next
      case (claimed r0 c t now)
      then show ?thesis using re [OF claimed(1)] by simp
    qed
    then show ?thesis unfolding x Admission_Call by (simp add: a)
  next
    case (Available_Call b p e)
    have "reads_only ck r (snd (is_available ck b p e r))" by (rule is_available_only) (rule surjective_pairing)
    then show ?thesis unfolding x Available_Call by (simp add: re)
  next
    case (Correlation_Call e)
    have "reads_only ck r (snd (endpoint_correlation_active ck e r))" by (rule correlation_only) (rule surjective_pairing)
    then show ?thesis unfolding x Correlation_Call by (simp add: re)
  next
    case (In_Flight_Call b p)
    have "reads_only ck r (snd (probe_in_flight ck b p r))" by (rule in_flight_only) (rule surjective_pairing)
    then show ?thesis unfolding x In_Flight_Call by (simp add: re)
  qed (simp_all add: x)
qed

lemma reads_grow_calls: "ar_reads (fst x) \<le> ar_reads (fst (perform_registry_calls ck ok cs x))"
proof (induction cs arbitrary: x)
  case (Cons c cs)
  have "ar_reads (fst x) \<le> ar_reads (fst (perform_registry ck ok c x))" by (rule reads_grow)
  also have "\<dots> \<le> ar_reads (fst (perform_registry_calls ck ok cs (perform_registry ck ok c x)))" by (rule Cons)
  finally show ?case by (simp add: perform_registry_calls_def)
qed (simp add: perform_registry_calls_def)

text \<open>
  C16. A claimed probe is single-flight: until its time to live has passed, any sequence of calls without a
  user's reset of its base model and without a settlement or release that carries its token, late
  settlements of other attempts among them, neither ends the claim nor gets another one for the
  deployment.
\<close>

theorem probe_single_flight:
  assumes "claims r k t a" "list_all (\<lambda>c. \<not> settles k t c) cs" "Reset_Call (fst k) \<notin> set cs"
    and "perform_registry_calls ck netloc cs (r, gs) = (r', gs')"
    and "\<forall>m < ar_reads r'. ck m - a < ar_claim_ttl r"
  shows "claims r' k t a \<and> filter (\<lambda>g. fst g = k) gs' = filter (\<lambda>g. fst g = k) gs"
  using assms
proof (induction cs arbitrary: r gs)
  case Nil
  then show ?case by (simp add: perform_registry_calls_def)
next
  case (Cons c cs)
  obtain r1 gs1 where s: "perform_registry ck netloc c (r, gs) = (r1, gs1)" by force
  with Cons.prems(4) have rest: "perform_registry_calls ck netloc cs (r1, gs1) = (r', gs')"
    by (simp add: perform_registry_calls_def)
  have "ar_reads r1 \<le> ar_reads r'" using reads_grow_calls [of "(r1, gs1)" ck netloc cs] rest by simp
  with Cons.prems(5) have "\<forall>m < ar_reads r1. ck m - a < ar_claim_ttl r" by auto
  have "c \<noteq> Reset_Call (fst k)" using Cons.prems(3) by auto
  with Cons.prems(1,2) s \<open>\<forall>m < ar_reads r1. ck m - a < ar_claim_ttl r\<close> have one: "claims r1 k t a" "filter (\<lambda>g. fst g = k) gs1 = filter (\<lambda>g. fst g = k) gs"
      "ar_claim_ttl r1 = ar_claim_ttl r"
    using claim_survives_call [of r k t a c ck netloc gs r1 gs1] by simp_all
  with Cons.IH [OF one(1) _ _ rest] Cons.prems(2,3,5) show ?case by simp
qed

theorem probe_single_flight_witness:
  "claims (fst late_state) (''m1'', ''p'') 1 40 \<and> snd late_state = [((''m1'', ''p''), 1)] \<and>
   filter (\<lambda>g. fst g = (''m1'', ''p'')) (snd late_state) = filter (\<lambda>g. fst g = (''m1'', ''p'')) (snd claimed_state)"
proof -
  have c: "claims (fst claimed_state) (''m1'', ''p'') 1 40" by code_simp
  have s: "list_all (\<lambda>c. \<not> settles (''m1'', ''p'') 1 c) late_calls" by code_simp
  have n: "Reset_Call (fst (''m1'', ''p'')) \<notin> set late_calls" by (simp add: late_calls_def)
  have l: "perform_registry_calls registry_sample_clock (\<lambda>_. True) late_calls (fst claimed_state, snd claimed_state) =
      (fst late_state, snd late_state)"
    by (simp add: late_state_def)
  have "ar_reads (fst late_state) \<le> 100 \<and> ar_claim_ttl (fst claimed_state) = 1200" by code_simp
  then have live: "\<forall>m < ar_reads (fst late_state). registry_sample_clock m - 40 < ar_claim_ttl (fst claimed_state)"
    by (auto simp: registry_sample_clock_def)
  have "snd late_state = [((''m1'', ''p''), 1)]" by code_simp
  with probe_single_flight [OF c s n l live] show ?thesis by blast
qed

section \<open>When an endpoint is cooled down\<close>

lemma models_by_signature_get:
  "group_get (fold (\<lambda>e d. case fe_signature e of None \<Rightarrow> d | Some s \<Rightarrow> group_add s (fe_base_model e) d) es d0) s =
     group_get d0 s @ map fe_base_model (filter (\<lambda>e. fe_signature e = Some s) es)"
  by (induction es arbitrary: d0) (auto split: option.split)

lemma models_by_signature_wf:
  "distinct (map fst d0) \<and> (\<forall>g \<in> set d0. snd g \<noteq> []) \<Longrightarrow>
   distinct (map fst (fold (\<lambda>e d. case fe_signature e of None \<Rightarrow> d | Some s \<Rightarrow> group_add s (fe_base_model e) d) es d0)) \<and>
   (\<forall>g \<in> set (fold (\<lambda>e d. case fe_signature e of None \<Rightarrow> d | Some s \<Rightarrow> group_add s (fe_base_model e) d) es d0). snd g \<noteq> [])"
proof (induction es arbitrary: d0)
  case (Cons e es)
  have "distinct (map fst (group_add s b d0)) \<and> (\<forall>g \<in> set (group_add s b d0). snd g \<noteq> [])" for s b
    using Cons.prems distinct_group_add group_add_nonempty by metis
  note step = Cons.IH [OF this] Cons.IH [OF Cons.prems]
  show ?case
  proof (cases "fe_signature e")
    case None
    with step(2) show ?thesis by simp
  next
    case (Some s)
    with step(1) [of s "fe_base_model e"] show ?thesis by simp
  qed
qed simp

lemma models_by_signature_iff:
  "(s, ms) \<in> set (models_by_signature es) \<longleftrightarrow> ms \<noteq> [] \<and> ms = map fe_base_model (filter (\<lambda>e. fe_signature e = Some s) es)"
proof -
  have wf: "distinct (map fst (models_by_signature es))" "\<forall>g \<in> set (models_by_signature es). snd g \<noteq> []"
    using models_by_signature_wf [of "[]" es] by (simp_all add: models_by_signature_def)
  have "group_get (models_by_signature es) s = map fe_base_model (filter (\<lambda>e. fe_signature e = Some s) es)"
    using models_by_signature_get [of es "[]" s] by (simp add: models_by_signature_def)
  with group_get_mem [OF wf, of s ms] show ?thesis by auto
qed

text \<open>
  The evidence: enough recent rate-limit failures that carry a signature, and one signature seen on
  enough different models.
\<close>

definition endpoint_evidence :: "rat \<Rightarrow> availability_registry \<Rightarrow> endpoint_failure list \<Rightarrow> bool" where
  "endpoint_evidence now r es \<longleftrightarrow>
     ar_min_events r \<le> int (card {i. i < length es \<and> rate_limit_evidence (now - ar_window r) (es ! i)}) \<and>
     (\<exists>s. ar_min_models r \<le>
        int (card {fe_base_model e | e. e \<in> set es \<and> rate_limit_evidence (now - ar_window r) e \<and> fe_signature e = Some s}))"

lemma correlated_iff:
  assumes "1 \<le> ar_min_models r"
  shows "correlated now r endpoint \<longleftrightarrow> endpoint_evidence now r (events_of r endpoint)"
proof -
  let ?p = "rate_limit_evidence (now - ar_window r)" and ?es = "events_of r endpoint"
  have n: "length (filter ?p ?es) = card {i. i < length ?es \<and> ?p (?es ! i)}" by (rule length_filter_conv_card)
  have dom: "set (map fe_base_model (filter (\<lambda>e. fe_signature e = Some s) (filter ?p ?es))) =
      {fe_base_model e | e. e \<in> set ?es \<and> ?p e \<and> fe_signature e = Some s}" for s
    by auto
  have "list_ex (\<lambda>g. ar_min_models r \<le> int (length (remdups (snd g)))) (models_by_signature (filter ?p ?es)) \<longleftrightarrow>
      (\<exists>s ms. (s, ms) \<in> set (models_by_signature (filter ?p ?es)) \<and> ar_min_models r \<le> int (card (set ms)))"
    by (simp add: list_ex_iff length_remdups_card_conv) (metis prod.collapse snd_conv)
  also have "\<dots> \<longleftrightarrow> (\<exists>s. ar_min_models r \<le>
      int (card {fe_base_model e | e. e \<in> set ?es \<and> ?p e \<and> fe_signature e = Some s}))"
    unfolding models_by_signature_iff dom [symmetric]
  proof (rule ex_cong1)
    fix s
    let ?ms = "map fe_base_model (filter (\<lambda>e. fe_signature e = Some s) (filter ?p ?es))"
    have "?ms \<noteq> []" if "ar_min_models r \<le> int (card (set ?ms))"     proof
      assume e: "?ms = []"
      show False using that assms unfolding e by simp
    qed
    then show "(\<exists>ms. (ms \<noteq> [] \<and> ms = ?ms) \<and> ar_min_models r \<le> int (card (set ms))) \<longleftrightarrow> ar_min_models r \<le> int (card (set ?ms))"
      by metis
  qed
  finally show ?thesis by (simp only: correlated_def Let_def endpoint_evidence_def n)
qed

definition endpoint_events_after ::
  "rat \<Rightarrow> availability_registry \<Rightarrow> string \<Rightarrow> string \<Rightarrow> failure_info option \<Rightarrow> string option \<Rightarrow> endpoint_failure list" where
  "endpoint_events_after now r e base failure signature =
     retained_events (now - ar_window r) (events_of r e) @
     [\<lparr>fe_observed_at = now, fe_base_model = base, fe_category = map_option fi_category failure, fe_signature = signature\<rparr>]"

text \<open>
  What a measured failure does to the cooldown of its endpoint, for events of any signatures.
\<close>

lemma endpoint_cooldown_after:
  assumes "1 \<le> ar_min_models r" "canonical_endpoint_identity netloc endpoint = Some e" "now = ck (ar_reads r + 1)"
  shows "map_of (ar_endpoint_cooldowns (record_failure ck netloc base provider failure endpoint signature token r)) e =
    (if endpoint_evidence now r (endpoint_events_after now r e base failure signature)
     then Some (case map_of (ar_endpoint_cooldowns r) e of
                  None \<Rightarrow> now + ar_endpoint_cooldown r
                | Some u \<Rightarrow> max (now + ar_endpoint_cooldown r) u)
     else map_of (ar_endpoint_cooldowns r) e)"
proof -
  let ?k = "(base, provider)" and ?es = "endpoint_events_after now r e base failure signature"
  let ?c = "cooled_down (cooldown_of r ?k) (ck (ar_reads r) + failure_delay r failure) token"
  let ?r2 = "(put_cooldown ?k ?c (r\<lparr>ar_reads := Suc (ar_reads r)\<rparr>))\<lparr>ar_reads := Suc (Suc (ar_reads r)), ar_events := dict_set e ?es (ar_events r)\<rparr>"
  have r': "record_failure ck netloc base provider failure endpoint signature token r = arm_endpoint_correlation e now ?r2"
    using assms(2,3)
    by (simp add: record_failure_def record_endpoint_failure_def read_clock_def Let_def endpoint_events_after_def
        put_cooldown_def events_of_def)
  have "events_of ?r2 e = ?es" by (simp add: events_of_def)
  then have "correlated now ?r2 e \<longleftrightarrow> endpoint_evidence now r ?es"
    using correlated_iff [of ?r2 now e] assms(1) by (simp add: endpoint_evidence_def)
  then show ?thesis
    by (simp add: r' arm_endpoint_correlation_def Let_def split: option.split)
qed

text \<open>
  The documented evidence: enough recent rate-limit failures that share one signature, seen on enough
  models.  \<open>one_signature\<close>: the recent failures that carry a signature carry the same one.
\<close>

definition documented_evidence :: "rat \<Rightarrow> availability_registry \<Rightarrow> endpoint_failure list \<Rightarrow> bool" where
  "documented_evidence now r es \<longleftrightarrow>
     (\<exists>s. let same = filter (\<lambda>e. rate_limit_evidence (now - ar_window r) e \<and> fe_signature e = Some s) es
      in ar_min_events r \<le> int (length same) \<and> ar_min_models r \<le> int (card (fe_base_model ` set same)))"

definition one_signature :: "rat \<Rightarrow> availability_registry \<Rightarrow> endpoint_failure list \<Rightarrow> bool" where
  "one_signature now r es \<longleftrightarrow>
     (\<exists>s. list_all (\<lambda>e. rate_limit_evidence (now - ar_window r) e \<longrightarrow> fe_signature e = Some s) es)"

lemma endpoint_evidence_filter:
  "endpoint_evidence now r es \<longleftrightarrow>
     ar_min_events r \<le> int (length (filter (rate_limit_evidence (now - ar_window r)) es)) \<and>
     (\<exists>s. ar_min_models r \<le> int (card (fe_base_model `
        set (filter (\<lambda>e. rate_limit_evidence (now - ar_window r) e \<and> fe_signature e = Some s) es))))"
proof -
  have "{fe_base_model e | e. e \<in> set es \<and> rate_limit_evidence (now - ar_window r) e \<and> fe_signature e = Some s} =
      fe_base_model ` set (filter (\<lambda>e. rate_limit_evidence (now - ar_window r) e \<and> fe_signature e = Some s) es)" for s
    by auto
  then show ?thesis by (simp add: endpoint_evidence_def length_filter_conv_card)
qed

text \<open>The documented evidence is enough in any case.\<close>

lemma documented_evidence_enough: "documented_evidence now r es \<Longrightarrow> endpoint_evidence now r es"
proof -
  let ?p = "rate_limit_evidence (now - ar_window r)"
  assume "documented_evidence now r es"
  then obtain s where s: "ar_min_events r \<le> int (length (filter (\<lambda>e. ?p e \<and> fe_signature e = Some s) es))"
    "ar_min_models r \<le> int (card (fe_base_model ` set (filter (\<lambda>e. ?p e \<and> fe_signature e = Some s) es)))"
    by (auto simp: documented_evidence_def Let_def)
  have "length (filter (\<lambda>e. fe_signature e = Some s) (filter ?p es)) \<le> length (filter ?p es)" by (rule length_filter_le)
  then have "length (filter (\<lambda>e. ?p e \<and> fe_signature e = Some s) es) \<le> length (filter ?p es)"
    by (simp add: conj_commute)
  with s show ?thesis unfolding endpoint_evidence_filter by (intro conjI exI [of _ s]) linarith+
qed

lemma one_signature_evidence:
  assumes "1 \<le> ar_min_models r" "one_signature now r es"
  shows "endpoint_evidence now r es \<longleftrightarrow> documented_evidence now r es"
proof
  let ?p = "rate_limit_evidence (now - ar_window r)"
  let ?same = "\<lambda>s. filter (\<lambda>e. ?p e \<and> fe_signature e = Some s) es"
  obtain s where s: "\<forall>e \<in> set es. ?p e \<longrightarrow> fe_signature e = Some s"
    using assms(2) by (auto simp: one_signature_def list_all_iff)
  assume "endpoint_evidence now r es"
  then obtain t where n: "ar_min_events r \<le> int (length (filter ?p es))"
    and t: "ar_min_models r \<le> int (card (fe_base_model ` set (?same t)))"
    unfolding endpoint_evidence_filter by blast
  have "?same t \<noteq> []"
  proof
    assume "?same t = []"
    with t assms(1) show False by simp
  qed
  then obtain e where "e \<in> set (?same t)" by (meson last_in_set)
  with s have "t = s" by auto
  moreover have "filter ?p es = ?same s" using s by (auto intro: filter_cong)
  ultimately show "documented_evidence now r es"
    unfolding documented_evidence_def Let_def using n t by (intro exI [of _ s]) simp
qed (rule documented_evidence_enough)

text \<open>
  C18. When the recent rate-limit failures of an endpoint carry one signature, a further failure cools the
  endpoint down exactly when, with it, the configured number of failures share that signature across
  the configured number of models; a cooldown that is armed is never shortened.
\<close>

theorem endpoint_cooled_down_exactly:
  assumes "1 \<le> ar_min_models r" "canonical_endpoint_identity netloc endpoint = Some e" "now = ck (ar_reads r + 1)"
    and "one_signature now r (endpoint_events_after now r e base failure signature)"
  shows "map_of (ar_endpoint_cooldowns (record_failure ck netloc base provider failure endpoint signature token r)) e =
    (if documented_evidence now r (endpoint_events_after now r e base failure signature)
     then Some (case map_of (ar_endpoint_cooldowns r) e of
                  None \<Rightarrow> now + ar_endpoint_cooldown r
                | Some u \<Rightarrow> max (now + ar_endpoint_cooldown r) u)
     else map_of (ar_endpoint_cooldowns r) e)"
  using endpoint_cooldown_after [of r netloc endpoint e now ck base provider failure signature token, OF assms(1-3)]
  unfolding one_signature_evidence [OF assms(1,4)] .

definition one_failure :: availability_registry where
  "one_failure = fst (perform_registry registry_sample_clock (\<lambda>_. True) (rate_limited ''m1'') (fresh_registry, []))"

theorem endpoint_cooled_down_exactly_witness:
  "map_of (ar_endpoint_cooldowns (record_failure registry_sample_clock (\<lambda>_. True) ''m2'' ''p'' (Some (info_of Rate_Limit))
     (Some ''https://a.example/v1'') (Some ''429'') None one_failure)) ''a.example'' = Some 60"
proof -
  have m: "1 \<le> ar_min_models one_failure" by code_simp
  have e: "canonical_endpoint_identity (\<lambda>_. True) (Some ''https://a.example/v1'') = Some ''a.example''" by code_simp
  have t: "(30 :: rat) = registry_sample_clock (ar_reads one_failure + 1)" by code_simp
  have ev: "correlated 30 (one_failure\<lparr>ar_events := [(''a.example'', endpoint_events_after 30 one_failure ''a.example'' ''m2''
      (Some (info_of Rate_Limit)) (Some ''429''))]\<rparr>) ''a.example''"
    by code_simp
  have "endpoint_evidence 30 one_failure (endpoint_events_after 30 one_failure ''a.example'' ''m2''
      (Some (info_of Rate_Limit)) (Some ''429''))"
    using ev m by (subst (asm) correlated_iff) (simp_all add: endpoint_evidence_def events_of_def)
  moreover have "map_of (ar_endpoint_cooldowns one_failure) ''a.example'' = None \<and> ar_endpoint_cooldown one_failure = 30"
    by code_simp
  moreover have one: "one_signature 30 one_failure (endpoint_events_after 30 one_failure ''a.example'' ''m2''
      (Some (info_of Rate_Limit)) (Some ''429''))"
    unfolding one_signature_def by (rule exI [of _ "''429''"]) code_simp
  ultimately show ?thesis
    using endpoint_cooled_down_exactly [where netloc = "\<lambda>_. True" and ck = registry_sample_clock and base = "''m2''"
        and provider = "''p''" and failure = "Some (info_of Rate_Limit)" and signature = "Some ''429''" and token = None, OF m e t one]
    by (simp add: one_signature_evidence [OF m one])
qed

text \<open>
  The events that count towards the least number need not share a signature: here three do, where no
  signature has more than two.
\<close>

definition mixed_events :: "endpoint_failure list" where
  "mixed_events =
     map (\<lambda>(m, s). \<lparr>fe_observed_at = 0, fe_base_model = m, fe_category = Some Rate_Limit, fe_signature = Some s\<rparr>)
       [(''m1'', ''a''), (''m2'', ''a''), (''m3'', ''b'')]"

lemma evidence_mixes_signatures:
  "correlated 0 (fresh_registry\<lparr>ar_min_events := 3, ar_events := [(''e'', mixed_events)]\<rparr>) ''e'' \<and>
   list_all (\<lambda>s. length (filter (\<lambda>e. fe_signature e = s) mixed_events) < 3) (map fe_signature mixed_events)"
  by code_simp

end
