(* ===== verification/Eligibility_Props.thy ===== *)
theory Eligibility_Props
  imports Eligibility Availability_Props
begin

text \<open>
  What the pass over the deployments of a model guarantees: a well-formed request gets an answer,
  every probe it claims ends in a candidate or is released, and the read-only view changes nothing.
\<close>

section \<open>A well-formed request does not go wrong\<close>

definition catalog_levels_ok :: "catalog \<Rightarrow> bool" where
  "catalog_levels_ok c \<longleftrightarrow>
     list_all (\<lambda>e. thinking_level_is_known (md_thinking (snd e)) \<and>
       list_all (\<lambda>d. levels_are_known (dd_supported_levels d)) (md_deployments (snd e))) (cg_models c)"

definition request_ok :: "eligibility_request \<Rightarrow> bool" where
  "request_ok q \<longleftrightarrow>
     (let c = sn_catalog (ask_snapshot q)
      in catalog_ok c \<and> catalog_levels_ok c \<and> qc_catalog (ask_config q) = c \<and>
         list_all (\<lambda>e. pd_backend (snd e) \<in> set known_backends) (cg_providers c) \<and>
         thinking_level_is_known (ask_thinking q) \<and>
         list_all (\<lambda>e. thinking_level_is_known (snd e)) (qc_thinking_overrides (ask_config q)))"

text \<open>The compaction base, where one is configured, is the name of a model of the catalog.\<close>

definition compaction_base_named :: "eligibility_request \<Rightarrow> bool" where
  "compaction_base_named q \<longleftrightarrow>
     \<not> compaction_wanted q \<or>
     (opt_else (ask_compaction_base q) [] \<in> fst ` set (cg_models (sn_catalog (ask_snapshot q))) \<and>
      take 1 (opt_else (ask_compaction_base q) []) \<noteq> ''@'')"

definition answerable :: "eligibility_request \<Rightarrow> bool" where
  "answerable q \<longleftrightarrow> request_ok q \<and> compaction_base_named q"

lemma and_then_simps [simp]: "and_then (Inl e) f = Inl e" "and_then (Inr x) f = f x"
  by (simp_all add: and_then_def)

lemma and_then_Inr: "and_then r f = Inr y \<longleftrightarrow> (\<exists>x. r = Inr x \<and> f x = Inr y)"
  by (cases r) simp_all

lemma lift_simps [simp]: "lift_error (Inl e) = Inl (Raised e)" "lift_error (Inr x) = Inr x"
  by (simp_all add: lift_error_def)

lemma known_provider:
  assumes "references_exist c" "(base, m) \<in> set (cg_models c)" "d \<in> set (md_deployments m)"
  obtains p where "map_of (cg_providers c) (dd_provider d) = Some p"
  using assms by (fastforce simp: references_exist_def list_all_iff)

lemma ex_bool [simp]: "\<exists>b. b" "Ex Not"
  by (rule exI [of _ True]; simp) (rule exI [of _ False]; simp)

lemma any_of_total: "(\<And>x. x \<in> set xs \<Longrightarrow> \<exists>b. f x = Inr b) \<Longrightarrow> \<exists>b. any_of f xs = Inr b"
proof (induction xs)
  case (Cons x xs)
  then obtain b c where "f x = Inr b" "any_of f xs = Inr c" by fastforce
  then show ?case by (cases b) auto
qed simp

lemma any_of_True: "any_of f xs = Inr True \<Longrightarrow> \<exists>x \<in> set xs. f x = Inr True"
  by (induction xs) (auto simp: and_then_Inr split: if_splits)

lemma compaction_serves_total:
  assumes "references_exist c" "\<And>m. target = Some m \<Longrightarrow> \<exists>base. (base, m) \<in> set (cg_models c)"
  shows "\<exists>b. compaction_serves c target provider = Inr b"
proof (cases target)
  case (Some m)
  then obtain base where m: "(base, m) \<in> set (cg_models c)" using assms(2) by blast
  have "\<exists>b. any_of (\<lambda>i. if dd_provider i \<noteq> provider \<or> dd_disabled i then Inr False
      else and_then (subscript (cg_providers c) (dd_provider i)) (\<lambda>p. Inr (\<not> pd_disabled p))) (md_deployments m) = Inr b"
  proof (rule any_of_total)
    fix i assume "i \<in> set (md_deployments m)"
    with assms(1) m obtain p where "map_of (cg_providers c) (dd_provider i) = Some p" by (rule known_provider)
    then show "\<exists>b. (if dd_provider i \<noteq> provider \<or> dd_disabled i then Inr False
      else and_then (subscript (cg_providers c) (dd_provider i)) (\<lambda>p. Inr (\<not> pd_disabled p))) = Inr b"
      by (auto simp: subscript_def)
  qed
  with Some show ?thesis by (simp add: compaction_serves_def)
qed (simp add: compaction_serves_def)

lemma compaction_serves_deployment:
  assumes "compaction_serves c (Some m) provider = Inr True"
  shows "\<exists>i. find (\<lambda>i. dd_provider i = provider \<and> \<not> dd_disabled i) (md_deployments m) = Some i"
proof -
  from assms obtain i where "i \<in> set (md_deployments m)" "dd_provider i = provider" "\<not> dd_disabled i"
    by (auto simp: compaction_serves_def split: if_splits dest!: any_of_True)
  then show ?thesis by (cases "find (\<lambda>i. dd_provider i = provider \<and> \<not> dd_disabled i) (md_deployments m)") (auto simp: find_None_iff)
qed

lemma materialize_total:
  assumes "thinking_level_is_known t" "levels_are_known (dd_supported_levels (rz_deployment r))"
  shows "materialize r n (Some t) False = Inr (config_of r n t)"
  using assms by (simp add: materialize_def selected_thinking_def)

lemma compatibility_total:
  assumes "list_all (\<lambda>e. pd_backend (snd e) \<in> set known_backends) (cg_providers (qc_catalog q))"
    "map_of (cg_providers (qc_catalog q)) (mf_provider m) = Some p" "\<not> pd_disabled p"
  shows "\<exists>x. compatibility_exclusion q m history thinking images_only = Inr x"
proof -
  have "pd_backend p \<in> set known_backends" using assms(1) map_of_SomeD [OF assms(2)] by (auto simp: list_all_iff)
  with assms(2,3) have "get_provider_for_model q m = Inr p" by (simp add: get_provider_for_model_def)
  then show ?thesis by (simp add: compatibility_exclusion_def split: list.split)
qed

lemma config_provider [simp]: "mf_provider (config_of r n t) = dd_provider (rz_deployment r)"
  by (simp add: config_of_def Let_def)

text \<open>The target of the compaction in a well-formed request.\<close>

lemma compaction_target_total:
  assumes "answerable q"
  obtains target where "compaction_target rx q = Inr target"
    "\<And>base cm. target = Some (base, Some cm) \<Longrightarrow> (base, cm) \<in> set (cg_models (sn_catalog (ask_snapshot q)))"
proof (cases "compaction_wanted q")
  case False
  then show thesis by (intro that [of None]) (simp_all add: compaction_target_def)
next
  case True
  let ?c = "sn_catalog (ask_snapshot q)" and ?b = "opt_else (ask_compaction_base q) []"
  from True assms have b: "?b \<in> fst ` set (cg_models ?c)" "take 1 ?b \<noteq> ''@''" by (simp_all add: answerable_def request_ok_def compaction_base_named_def Let_def)
  have "?b \<noteq> []" using True by (auto simp: compaction_wanted_def truthy_def opt_else_def)
  with b have "canonicalize rx ?c [] ?b = Inr ?b"
    by (simp add: canonicalize_def map_of_eq_None_iff)
  with True show thesis
    by (intro that [of "Some (?b, map_of (cg_models ?c) ?b)"]) (auto simp: compaction_target_def dest: map_of_SomeD)
qed

lemma judge_total:
  assumes ok: "answerable q" and r: "r = resolved_here q base m d prov"
    and prov: "map_of (cg_providers (sn_catalog (ask_snapshot q))) (dd_provider d) = Some prov" "\<not> pd_disabled prov"
    and m: "(base, m) \<in> set (cg_models (sn_catalog (ask_snapshot q)))" "d \<in> set (md_deployments m)"
    and target: "\<And>b cm. target = Some (b, Some cm) \<Longrightarrow> (b, cm) \<in> set (cg_models (sn_catalog (ask_snapshot q))) \<and>
      compaction_serves (sn_catalog (ask_snapshot q)) (Some cm) (dd_provider d) = Inr True"
  shows "\<exists>x. judge q target r = Inr x"
proof -
  let ?c = "sn_catalog (ask_snapshot q)" and ?n = "qc_auto_compact_threshold (ask_config q)"
  have c: "qc_catalog (ask_config q) = ?c" "references_exist ?c" "catalog_levels_ok ?c" "thinking_level_is_known (ask_thinking q)"
    "list_all (\<lambda>e. pd_backend (snd e) \<in> set known_backends) (cg_providers ?c)"
    "list_all (\<lambda>e. thinking_level_is_known (snd e)) (qc_thinking_overrides (ask_config q))"
    using ok by (simp_all add: answerable_def request_ok_def compaction_base_named_def Let_def catalog_ok_def)
  have lv: "levels_are_known (dd_supported_levels e)" if "(b, n) \<in> set (cg_models ?c)" "e \<in> set (md_deployments n)" for b n e
    using c(3) that by (fastforce simp: catalog_levels_ok_def list_all_iff)
  have rd: "rz_deployment r = d" using r by (simp add: resolved_here_def)
  have mat: "materialize r ?n (Some (ask_thinking q)) False = Inr (config_of r ?n (ask_thinking q))"
    using c(4) lv [OF m] rd by (intro materialize_total) simp_all
  have "\<exists>x. compatibility_exclusion (ask_config q) (config_of r ?n (ask_thinking q)) (ask_history q) (ask_thinking q)
      (ask_compaction_only q) = Inr x"
    by (rule compatibility_total [where p = prov]) (simp_all add: c(1,5) prov rd)
  then obtain x where x: "compatibility_exclusion (ask_config q) (config_of r ?n (ask_thinking q)) (ask_history q) (ask_thinking q)
      (ask_compaction_only q) = Inr x" ..
  have "\<exists>y. compaction_problem q b cm (dd_provider d) = Inr y" if t: "target = Some (b, Some cm)" for b cm
  proof -
    note cm = target [OF t]
    obtain i where i: "find (\<lambda>i. dd_provider i = dd_provider d \<and> \<not> dd_disabled i) (md_deployments cm) = Some i"
      using compaction_serves_deployment cm by blast
    then have ip: "i \<in> set (md_deployments cm)" "dd_provider i = dd_provider d"
      by (auto simp: find_Some_iff)
    let ?t = "if ask_compaction_only q then ask_thinking q
              else opt_else (map_of (qc_thinking_overrides (ask_config q)) b) (md_thinking cm)"
    have "thinking_level_is_known (md_thinking cm)" using c(3) cm by (fastforce simp: catalog_levels_ok_def list_all_iff)
    then have t: "thinking_level_is_known ?t"
      using c(4,6) by (auto simp: opt_else_def list_all_iff dest!: map_of_SomeD split: option.split)
    let ?r = "resolved_here q b cm i prov"
    have mat: "materialize ?r ?n (Some ?t) False = Inr (config_of ?r ?n ?t)"
      using t lv cm ip(1) by (intro materialize_total) (auto simp: resolved_here_def)
    have "\<exists>y. compatibility_exclusion (ask_config q) (config_of ?r ?n ?t) (ask_history q)
        (if mf_thinking (config_of ?r ?n ?t) = [] then ''off'' else mf_thinking (config_of ?r ?n ?t)) False = Inr y"
      by (rule compatibility_total [where p = prov]) (simp_all add: c(1,5) prov ip(2) resolved_here_def)
    then obtain y where y: "compatibility_exclusion (ask_config q) (config_of ?r ?n ?t) (ask_history q)
        (if mf_thinking (config_of ?r ?n ?t) = [] then ''off'' else mf_thinking (config_of ?r ?n ?t)) False = Inr y" ..
    show ?thesis
      unfolding compaction_problem_def i using ip(2) prov(1) mat y by (simp add: subscript_def Let_def)
  qed
  then show ?thesis
    using mat x rd by (simp add: judge_def split: option.split prod.split) (metis and_then_simps(2))
qed

text \<open>
  One visit: the deployment is excluded without a claim, or it is admitted and judged.
\<close>

lemma visit_cases:
  obtains (excluded) k detail r where "reads_only (pf_clock pf) (wk_registry w) r"
      "k = Xk_Endpoint_Cooldown \<or> static_exclusion (pf_regex pf) q target d
         (map_of (cg_providers (sn_catalog (ask_snapshot q))) (dd_provider d)) = Inr (Some k)"
      "visit_deployment pf q m target d w = (None, exclude q d k detail (w\<lparr>wk_registry := r\<rparr>))"
  | (failed) e r where "reads_only (pf_clock pf) (wk_registry w) r" "static_exclusion (pf_regex pf) q target d
        (map_of (cg_providers (sn_catalog (ask_snapshot q))) (dd_provider d)) = Inl e"
      "visit_deployment pf q m target d w = (Some (Raised e), w\<lparr>wk_registry := r\<rparr>)"
  | (admitted) prov endpoint bypass r adm r' where "reads_only (pf_clock pf) (wk_registry w) r"
      "map_of (cg_providers (sn_catalog (ask_snapshot q))) (dd_provider d) = Some prov"
      "static_exclusion (pf_regex pf) q target d (Some prov) = Inr None"
      "admit_deployment pf q bypass endpoint (dd_provider d) r = (adm, r')"
      "bypass = cooldown_override_bypasses (ask_permit q) (ask_ledger q) endpoint"
      "endpoint = canonical_endpoint_identity (pf_netloc_ok pf) (Some (pd_api_base prov))"
      "visit_deployment pf q m target d w = settle_admission q target d
         (resolved_here q (ci_base_model (ask_committed q)) m d prov) adm
         (w\<lparr>wk_registry := r',
            wk_claimed := (case snd adm of None \<Rightarrow> wk_claimed w | Some t \<Rightarrow> wk_claimed w @ [(dd_provider d, t)])\<rparr>)"
proof -
  let ?p = "map_of (cg_providers (sn_catalog (ask_snapshot q))) (dd_provider d)"
  define endpoint where "endpoint = Option.bind ?p (\<lambda>p. canonical_endpoint_identity (pf_netloc_ok pf) (Some (pd_api_base p)))"
  define bypass where "bypass = cooldown_override_bypasses (ask_permit q) (ask_ledger q) endpoint"
  obtain blocked r where br: "(if endpoint \<noteq> None \<and> \<not> bypass then endpoint_correlation_active (pf_clock pf) endpoint (wk_registry w)
      else (False, wk_registry w)) = (blocked, r)" by force
  have ro: "reads_only (pf_clock pf) (wk_registry w) r" using br by (auto split: if_splits dest: correlation_only)
  note v = visit_deployment_def [of pf q m target d w, unfolded Let_def, folded endpoint_def, folded bypass_def, unfolded br prod.case]
  show thesis
  proof (cases blocked)
    case True
    with v ro show thesis by (intro excluded [OF ro]) simp_all
  next
    case nb: False
    show thesis
    proof (cases "static_exclusion (pf_regex pf) q target d ?p")
      case (Inl e)
      with v ro nb show thesis by (intro failed) simp_all
    next
      case (Inr k)
      show thesis
      proof (cases k)
        case (Some k')
        with Inr v nb show thesis by (intro excluded [OF ro]) simp_all
      next
        case None
        with Inr obtain prov where prov: "?p = Some prov" by (cases ?p) (simp_all add: static_exclusion_def)
        obtain adm r' where a: "admit_deployment pf q bypass endpoint (dd_provider d) r = (adm, r')" by (rule prod.exhaust)
        from prov have "endpoint = canonical_endpoint_identity (pf_netloc_ok pf) (Some (pd_api_base prov))"
          by (simp add: endpoint_def)
        moreover have "static_exclusion (pf_regex pf) q target d (Some prov) = Inr None" using Inr None prov by simp
        ultimately show thesis
          using v nb Inr None prov a by (intro admitted [OF ro prov _ a bypass_def]) simp_all
      qed
    qed
  qed
qed

lemma static_exclusion_passed:
  assumes "static_exclusion rx q target d (Some prov) = Inr None"
  shows "\<not> dd_disabled d \<and> \<not> pd_disabled prov \<and> deployment_allowed rx (ci_base_model (ask_committed q)) d (ask_allowed q) \<and>
    (\<forall>b cm. target = Some (b, cm) \<longrightarrow> compaction_serves (sn_catalog (ask_snapshot q)) cm (dd_provider d) = Inr True)"
  using assms by (auto simp: static_exclusion_def and_then_Inr split: if_splits option.splits)

lemma static_exclusion_total:
  assumes ok: "answerable q" and target: "compaction_target rx q = Inr target"
  shows "\<exists>k. static_exclusion rx q target d p = Inr k"
proof -
  obtain target' where t: "compaction_target rx q = Inr target'"
    "\<And>base cm. target' = Some (base, Some cm) \<Longrightarrow> (base, cm) \<in> set (cg_models (sn_catalog (ask_snapshot q)))"
    using compaction_target_total [OF ok] by blast
  have refs: "references_exist (sn_catalog (ask_snapshot q))" using ok by (simp add: answerable_def request_ok_def compaction_base_named_def Let_def catalog_ok_def)
  have "\<exists>b. compaction_serves (sn_catalog (ask_snapshot q)) cm (dd_provider d) = Inr b" if "target = Some (base, cm)" for base cm
    using refs
  proof (rule compaction_serves_total)
    fix n assume "cm = Some n"
    with that t target show "\<exists>base. (base, n) \<in> set (cg_models (sn_catalog (ask_snapshot q)))" by auto
  qed
  then show ?thesis by (auto simp: static_exclusion_def and_then_def split: option.split prod.split) 
qed

lemma visit_total:
  assumes ok: "answerable q" and target: "compaction_target (pf_regex pf) q = Inr target"
    and m: "(ci_base_model (ask_committed q), m) \<in> set (cg_models (sn_catalog (ask_snapshot q)))" "d \<in> set (md_deployments m)"
  shows "fst (visit_deployment pf q m target d w) = None"
proof (cases rule: visit_cases [of pf w q target d m])
  case (failed e r)
  from static_exclusion_total [OF ok target] obtain k where "static_exclusion (pf_regex pf) q target d
      (map_of (cg_providers (sn_catalog (ask_snapshot q))) (dd_provider d)) = Inr k" by blast
  with failed(2) show ?thesis by simp
next
  case (admitted prov endpoint bypass r adm r')
  obtain target' where t: "compaction_target (pf_regex pf) q = Inr target'"
    "\<And>base cm. target' = Some (base, Some cm) \<Longrightarrow> (base, cm) \<in> set (cg_models (sn_catalog (ask_snapshot q)))"
    using compaction_target_total [OF ok] by blast
  note passed = static_exclusion_passed [OF admitted(3)]
  have "\<exists>x. judge q target (resolved_here q (ci_base_model (ask_committed q)) m d prov) = Inr x"
    by (rule judge_total [OF ok refl admitted(2) _ m]) (use passed t target in auto)
  then show ?thesis unfolding admitted(7)
    by (auto simp: settle_admission_def split: option.split)
qed simp

lemma walk_total:
  assumes ok: "answerable q" and target: "compaction_target (pf_regex pf) q = Inr target"
    and m: "(ci_base_model (ask_committed q), m) \<in> set (cg_models (sn_catalog (ask_snapshot q)))" "set ds \<subseteq> set (md_deployments m)"
  shows "fst (walk_deployments pf q m target ds w) = None"
  using m(2)
proof (induction ds arbitrary: w)
  case (Cons d ds)
  then have "d \<in> set (md_deployments m)" by simp
  from visit_total [OF ok target m(1) this, of w] obtain w' where "visit_deployment pf q m target d w = (None, w')"
    by (metis prod.collapse)
  with Cons show ?case by simp
qed simp

text \<open>
  A configured role expression is not looked up: the pass raises the error of a role that is no single
  model, whatever the deployments.
\<close>

lemma role_compaction_base_raises:
  assumes "map_of (cg_models (sn_catalog (ask_snapshot q))) (ci_base_model (ask_committed q)) = Some m" "\<not> md_disabled m"
    and "ask_compaction_base q = Some (CHR ''@'' # role)" "role \<noteq> []"
  shows "fst (eligible_deployments pf q r) = Inl (Raised Role_Not_Scalar)"
  using assms by (simp add: eligible_deployments_def compaction_target_def compaction_wanted_def truthy_def opt_else_def
      canonicalize_def Let_def)

text \<open>
  C20. A request over a validated catalog whose levels and backends are known, and whose compaction base,
  where one is configured, is the name of a model of the catalog, gets candidates or the error that
  no deployment is available: no lookup, validation or iteration of the pass fails.
\<close>

theorem well_formed_request_answered:
  assumes "request_ok q" "compaction_base_named q"
  shows "\<exists>x xs. fst (eligible_deployments pf q r) = Inr x \<or>
    fst (eligible_deployments pf q r) = Inl (All_Deployments_Unavailable (ci_base_model (ask_committed q)) xs)"
proof -
  have ok: "answerable q" using assms by (simp add: answerable_def)
  let ?c = "sn_catalog (ask_snapshot q)" and ?b = "ci_base_model (ask_committed q)"
  show ?thesis
  proof (cases "map_of (cg_models ?c) ?b")
    case None
    then show ?thesis by (simp add: eligible_deployments_def Let_def)
  next
    case (Some m)
    obtain target where target: "compaction_target (pf_regex pf) q = Inr target"
      using compaction_target_total [OF ok] by blast
    let ?w = "\<lparr>wk_registry = r, wk_candidates = [], wk_exclusions = [], wk_claimed = []\<rparr>"
    have "fst (walk_deployments pf q m target (md_deployments m) ?w) = None"
      using walk_total [OF ok target map_of_SomeD [OF Some]] by simp
    then obtain w where "walk_deployments pf q m target (md_deployments m) ?w = (None, w)" by (metis prod.collapse)
    with Some target show ?thesis by (simp add: eligible_deployments_def Let_def)
  qed
qed

section \<open>The read-only view\<close>

lemma visit_reads_only:
  assumes "\<not> ask_claim_probes q"
  shows "reads_only (pf_clock pf) (wk_registry w) (wk_registry (snd (visit_deployment pf q m target d w)))"
proof (cases rule: visit_cases [of pf w q target d m])
  case (admitted prov endpoint bypass r adm r')
  have "snd adm = None \<and> reads_only (pf_clock pf) r r'"
    using admitted(4) assms by (auto simp: admit_deployment_def split: if_splits prod.splits dest: is_available_only)
  with admitted(1) have "snd adm = None" "reads_only (pf_clock pf) (wk_registry w) r'" by (auto intro: reads_only_trans)
  then show ?thesis unfolding admitted(7)
    by (auto simp: settle_admission_def exclude_def split: sum.split option.split)
qed (simp_all add: exclude_def)

lemma visit_claims_nothing:
  assumes "\<not> ask_claim_probes q"
  shows "wk_claimed (snd (visit_deployment pf q m target d w)) = wk_claimed w"
proof (cases rule: visit_cases [of pf w q target d m])
  case (admitted prov endpoint bypass r adm r')
  have "snd adm = None" using admitted(4) assms by (auto simp: admit_deployment_def split: if_splits prod.splits)
  then show ?thesis unfolding admitted(7)
    by (auto simp: settle_admission_def exclude_def split: sum.split option.split)
qed (simp_all add: exclude_def)

lemma walk_reads_only:
  assumes "\<not> ask_claim_probes q"
  shows "reads_only (pf_clock pf) (wk_registry w) (wk_registry (snd (walk_deployments pf q m target ds w))) \<and>
    wk_claimed (snd (walk_deployments pf q m target ds w)) = wk_claimed w"
proof (induction ds arbitrary: w)
  case (Cons d ds)
  obtain e w' where v: "visit_deployment pf q m target d w = (e, w')" by force
  have "reads_only (pf_clock pf) (wk_registry w) (wk_registry w')" "wk_claimed w' = wk_claimed w"
    using visit_reads_only [OF assms, of pf w m target d] visit_claims_nothing [OF assms, of pf m target d w] v by simp_all
  with Cons.IH [of w'] v show ?case by (cases e) (auto intro: reads_only_trans)
qed simp

lemma eligible_reads_only:
  assumes "\<not> ask_claim_probes q"
  shows "reads_only (pf_clock pf) r (snd (eligible_deployments pf q r))"
proof -
  let ?b = "ci_base_model (ask_committed q)" and ?w = "\<lparr>wk_registry = r, wk_candidates = [], wk_exclusions = [], wk_claimed = []\<rparr>"
  show ?thesis
  proof (cases "map_of (cg_models (sn_catalog (ask_snapshot q))) ?b")
    case (Some m)
    show ?thesis
    proof (cases "compaction_target (pf_regex pf) q")
      case (Inr target)
      obtain e w where w: "walk_deployments pf q m target (md_deployments m) ?w = (e, w)" by force
      have "reads_only (pf_clock pf) r (wk_registry w)" "wk_claimed w = []"
        using walk_reads_only [OF assms, of pf ?w m target "md_deployments m"] w by simp_all
      with Some Inr w show ?thesis by (cases e) (simp_all add: eligible_deployments_def Let_def release_all_def)
    qed (use Some in \<open>simp add: eligible_deployments_def Let_def\<close>)
  qed (simp add: eligible_deployments_def Let_def)
qed

lemma gap_only: "exclusion_gap pf sn base now x r = (g, r') \<Longrightarrow> reads_only (pf_clock pf) r r'"
  by (auto simp: exclusion_gap_def split: if_splits prod.splits dest: endpoint_until_only in_flight_only)

lemma gaps_only: "exclusion_gaps pf sn base now xs r = (gs, r') \<Longrightarrow> reads_only (pf_clock pf) r r'"
proof (induction xs arbitrary: r gs)
  case (Cons x xs)
  show ?case
  proof (cases "xc_reason x \<in> temporary_exclusion_reasons")
    case True
    obtain g r1 where g: "exclusion_gap pf sn base now x r = (g, r1)" by (rule prod.exhaust)
    obtain gs1 r2 where gs: "exclusion_gaps pf sn base now xs r1 = (gs1, r2)" by force
    from Cons.prems True g gs have r2: "r2 = r'" by simp
    with reads_only_trans [OF gap_only [OF g] Cons.IH [OF gs [unfolded r2]]] show ?thesis by simp
  qed (use Cons in simp)
qed simp

lemma exclusions_only: "snapshot_from_exclusions pf sn base xs r = (v, r') \<Longrightarrow> reads_only (pf_clock pf) r r'"
proof -
  assume a: "snapshot_from_exclusions pf sn base xs r = (v, r')"
  obtain now r1 where r1: "read_clock (pf_clock pf) r = (now, r1)" by force
  obtain gs r2 where gs: "exclusion_gaps pf sn base now xs r1 = (gs, r2)" by force
  from a r1 gs have "r' = r2" by (simp add: snapshot_from_exclusions_def split: if_splits)
  with reads_only_trans [OF read_clock_only [OF r1] gaps_only [OF gs]] show ?thesis by simp
qed

text \<open>
  The read-only view never claims, releases or settles a probe, records nothing and clears no
  cooldown; the only thing it drops is an endpoint cooldown that has expired.
\<close>

theorem snapshot_is_read_only:
  "reads_only (pf_clock pf) r (snd (availability_snapshot pf q r))"
proof -
  have q: "\<not> ask_claim_probes (read_only_request q)" by (simp add: read_only_request_def)
  obtain x r1 where e: "eligible_deployments pf (read_only_request q) r = (x, r1)" by force
  then have r1: "reads_only (pf_clock pf) r r1" using eligible_reads_only [OF q, of pf r] by simp
  show ?thesis
  proof (cases x)
    case (Inl err)
    show ?thesis
    proof (cases err)
      case (All_Deployments_Unavailable b xs)
      obtain v r2 where v: "snapshot_from_exclusions pf (ask_snapshot q) (ci_base_model (ask_committed q)) xs r1 = (v, r2)" by force
      from reads_only_trans [OF r1 exclusions_only [OF v]] Inl e v show ?thesis
        by (simp add: availability_snapshot_def All_Deployments_Unavailable)
    qed (use Inl e r1 in \<open>simp_all add: availability_snapshot_def\<close>)
  next
    case (Inr y)
    with e r1 show ?thesis by (cases y) (simp add: availability_snapshot_def)
  qed
qed

section \<open>A sample request\<close>

definition sample_provider :: "string \<Rightarrow> provider_definition" where
  "sample_provider url =
     \<lparr>pd_api_base = url, pd_api_key_env_var = [], pd_api_style = Openai, pd_backend = ''generic'',
      pd_reasoning_field_name = ''reasoning_content'', pd_emits_finish_reason = True,
      pd_supports_tool_result_images = True, pd_extra_headers = [], pd_disabled = False\<rparr>"

definition sample_deployment :: "string \<Rightarrow> bool \<Rightarrow> deployment_definition" where
  "sample_deployment p images =
     \<lparr>dd_provider = p, dd_name = ''wire'', dd_prices = \<lparr>px_input = None, px_output = None, px_cached_input = None\<rparr>,
      dd_supports_images = images, dd_supported_levels = None, dd_auto_compact_threshold = None, dd_disabled = False\<rparr>"

definition sample_catalog :: catalog where
  "sample_catalog =
     \<lparr>cg_providers = [(''p1'', sample_provider ''https://a.example''), (''p2'', sample_provider ''https://b.example'')],
      cg_models = [(''m'', \<lparr>md_thinking = ''medium'', md_temperature = None,
        md_deployments = [sample_deployment ''p1'' False, sample_deployment ''p2'' True], md_disabled = False\<rparr>)],
      cg_roles = []\<rparr>"

definition image_message :: request_message where
  "image_message =
     \<lparr>ident = 0, role_of = User, content = None, injected = False, tool_calls = None, tool_call_id = None, tool_result = None,
      message_id = None, context_boundary = None, injection_origin = None, archive_ref = None,
      rm_images = True, rm_payload_types = None, rm_reasoning_content = None\<rparr>"

definition sample_request :: eligibility_request where
  "sample_request =
     \<lparr>ask_snapshot = \<lparr>sn_catalog = sample_catalog, sn_revision = ''r'', sn_overlaid_providers = {}, sn_dispatch_diagnostics = []\<rparr>,
      ask_committed = \<lparr>ci_base_model = ''m'', ci_provider = ''p1'', ci_wire_name = ''wire'', ci_catalog_revision = ''r'',
        ci_thinking = None\<rparr>,
      ask_config = \<lparr>qc_auto_compact_threshold = 1000, qc_thinking_overrides = [], qc_catalog = sample_catalog\<rparr>,
      ask_history = [image_message], ask_thinking = ''medium'', ask_compaction_base = None, ask_compaction_only = False,
      ask_allowed = [], ask_claim_probes = True, ask_permit = None, ask_ledger = None\<rparr>"

definition sample_platform :: platform where
  "sample_platform = \<lparr>pf_netloc_ok = (\<lambda>_. True), pf_regex = (\<lambda>_ _. None), pf_clock = registry_sample_clock\<rparr>"

text \<open>Both deployments were cooled down, and their cooldowns have passed.\<close>

definition expired_cooldown :: cooldown where
  "expired_cooldown = \<lparr>cd_until = 5, cd_probe = False, cd_token = None, cd_claimed_at = None\<rparr>"

definition expired_registry :: availability_registry where
  "expired_registry =
     fresh_registry\<lparr>ar_reads := 1, ar_cooldowns := [((''m'', ''p1''), expired_cooldown), ((''m'', ''p2''), expired_cooldown)]\<rparr>"

lemma sample_request_ok: "request_ok sample_request" "compaction_base_named sample_request"
  by code_simp+

lemma sample_answer:
  "(case fst (eligible_deployments sample_platform sample_request expired_registry) of
      Inr (cands, xs) \<Rightarrow> map ely_probe_token cands = [Some 2] \<and> map xc_reason xs = [Xk_Images]
    | Inl _ \<Rightarrow> False)"
  by code_simp

theorem well_formed_request_answered_witness:
  "(\<exists>x xs. fst (eligible_deployments sample_platform sample_request expired_registry) = Inr x \<or>
     fst (eligible_deployments sample_platform sample_request expired_registry) = Inl (All_Deployments_Unavailable ''m'' xs)) \<and>
   request_ok sample_request \<and> compaction_base_named sample_request"
  using well_formed_request_answered [OF sample_request_ok, of sample_platform expired_registry] sample_request_ok
  by (simp add: sample_request_def)

end
