(* ===== verification/Availability_Wait.thy ===== *)
theory Availability_Wait
  imports Eligibility_Props
begin

text \<open>
  The delay of the read-only view: until it has passed, nothing the view found excluded can be
  served.
\<close>

section \<open>What stays blocked\<close>

text \<open>A deployment no passing of time makes a candidate.\<close>

definition never_served ::
  "platform \<Rightarrow> eligibility_request \<Rightarrow> (string \<times> model_definition option) option \<Rightarrow> model_definition \<Rightarrow> deployment_definition \<Rightarrow> bool" where
  "never_served pf q target m d \<longleftrightarrow>
     (let p = map_of (cg_providers (sn_catalog (ask_snapshot q))) (dd_provider d)
      in static_exclusion (pf_regex pf) q target d p \<noteq> Inr None \<or>
         (\<forall>prov. p = Some prov \<longrightarrow>
            judge q target (resolved_here q (ci_base_model (ask_committed q)) m d prov) \<noteq> Inr None))"

definition endpoint_of :: "platform \<Rightarrow> catalog_snapshot \<Rightarrow> string \<Rightarrow> string option" where
  "endpoint_of pf sn provider =
     Option.bind (map_of (cg_providers (sn_catalog sn)) provider)
       (\<lambda>p. canonical_endpoint_identity (pf_netloc_ok pf) (Some (pd_api_base p)))"

definition cooled_until :: "platform \<Rightarrow> eligibility_request \<Rightarrow> rat \<Rightarrow> string \<Rightarrow> availability_registry \<Rightarrow> bool" where
  "cooled_until pf q b provider r \<longleftrightarrow>
     (\<exists>e u. endpoint_of pf (ask_snapshot q) provider = Some e \<and> e \<noteq> [] \<and> map_of (ar_endpoint_cooldowns r) e = Some u \<and> b \<le> u) \<or>
     (\<exists>c. cooldown_of r (ci_base_model (ask_committed q), provider) = Some c \<and> b \<le> cd_until c)"

lemma cooled_until_keeps:
  assumes "cooled_until pf q b p r" "reads_only (pf_clock pf) r r'" "\<forall>m < ar_reads r'. pf_clock pf m < b"
  shows "cooled_until pf q b p r'"
  using assms(1) unfolding cooled_until_def
proof (elim disjE exE conjE)
  fix e u assume e: "endpoint_of pf (ask_snapshot q) p = Some e" "e \<noteq> []" "map_of (ar_endpoint_cooldowns r) e = Some u" "b \<le> u"
  have "map_of (ar_endpoint_cooldowns r') e = Some u"
    using assms(2,3) e(3,4) unfolding reads_only_def by (meson leD less_le_trans)
  with e show "(\<exists>e u. endpoint_of pf (ask_snapshot q) p = Some e \<and> e \<noteq> [] \<and> map_of (ar_endpoint_cooldowns r') e = Some u \<and> b \<le> u) \<or>
     (\<exists>c. cooldown_of r' (ci_base_model (ask_committed q), p) = Some c \<and> b \<le> cd_until c)"
    by blast
next
  fix c assume "cooldown_of r (ci_base_model (ask_committed q), p) = Some c" "b \<le> cd_until c"
  then show "(\<exists>e u. endpoint_of pf (ask_snapshot q) p = Some e \<and> e \<noteq> [] \<and> map_of (ar_endpoint_cooldowns r') e = Some u \<and> b \<le> u) \<or>
     (\<exists>c. cooldown_of r' (ci_base_model (ask_committed q), p) = Some c \<and> b \<le> cd_until c)"
    using reads_only_cooldown [OF assms(2)] by auto
qed

lemma correlation_inactive:
  assumes "endpoint_correlation_active ck (Some e) r = (False, r')" "e \<noteq> []" "map_of (ar_endpoint_cooldowns r) e = Some u"
  shows "u \<le> ck (ar_reads r) \<and> ar_reads r < ar_reads r'"
  using assms by (auto simp: endpoint_correlation_active_def endpoint_cooldown_until_def read_clock_def split: if_splits)

lemma available_only_after:
  assumes a: "is_available (pf_clock pf) (ci_base_model (ask_committed q)) p (endpoint_of pf (ask_snapshot q) p) r = (True, r')"
    and c: "cooled_until pf q b p r" and reads: "\<forall>m < ar_reads r'. pf_clock pf m < b"
  shows False
proof -
  let ?e = "endpoint_of pf (ask_snapshot q) p" and ?k = "(ci_base_model (ask_committed q), p)"
  obtain act r1 where r1: "endpoint_correlation_active (pf_clock pf) ?e r = (act, r1)" by force
  with a have act: "\<not> act" by (auto simp: is_available_def)
  have up: "ar_reads r1 \<le> ar_reads r'"
  proof (cases "cooldown_of r1 ?k")
    case (Some d)
    let ?r2 = "r1\<lparr>ar_reads := Suc (ar_reads r1)\<rparr>"
    from a r1 act Some have "r' = ?r2 \<or> probe_claim_stale (pf_clock pf) d ?r2 = (True, r')"
      by (auto simp: is_available_def read_clock_def split: if_splits)
    then have "reads_only (pf_clock pf) ?r2 r'" using stale_only by auto
    then show ?thesis by (simp add: reads_only_def)
  qed (use a r1 act in \<open>simp add: is_available_def\<close>)
  from c show False unfolding cooled_until_def
  proof (elim disjE exE conjE)
    fix e u assume e: "?e = Some e" "e \<noteq> []" "map_of (ar_endpoint_cooldowns r) e = Some u" "b \<le> u"
    with r1 act have "u \<le> pf_clock pf (ar_reads r)" "ar_reads r < ar_reads r1"
      using correlation_inactive [of "pf_clock pf" e r r1 u] by simp_all
    with reads up e(4) show False by (meson leD less_le_trans order_trans)
  next
    fix d assume d: "cooldown_of r ?k = Some d" "b \<le> cd_until d"
    have d1: "cooldown_of r1 ?k = Some d" using d(1) reads_only_cooldown [OF correlation_only [OF r1]] by simp
    let ?r2 = "r1\<lparr>ar_reads := Suc (ar_reads r1)\<rparr>"
    from a r1 act d1 have until: "cd_until d \<le> pf_clock pf (ar_reads r1)" "r' = ?r2 \<or> probe_claim_stale (pf_clock pf) d ?r2 = (True, r')"
      by (auto simp: is_available_def read_clock_def split: if_splits)
    then have "ar_reads r1 < ar_reads r'" using stale_only [of "pf_clock pf" d ?r2 True r'] by (auto simp: reads_only_def)
    with reads until(1) d(2) show False by (meson leD order_trans)
  qed
qed

text \<open>A request that claims nothing and carries no permit.\<close>

definition is_passive :: "eligibility_request \<Rightarrow> bool" where
  "is_passive q \<longleftrightarrow> \<not> ask_claim_probes q \<and> ask_permit q = None"

lemma passive_read_only: "is_passive (read_only_request q)"
  by (simp add: is_passive_def read_only_request_def)

lemma settle_outcome:
  "settle_admission q target d r (a, None) w =
     (if \<not> a then (None, exclude q d Xk_Cooldown None w)
      else case judge q target r of
        Inl e \<Rightarrow> (Some e, w)
      | Inr None \<Rightarrow> (None, w\<lparr>wk_candidates := wk_candidates w @
             [\<lparr>ely_resolved = r, ely_recovery_probe = False, ely_probe_token = None\<rparr>]\<rparr>)
      | Inr (Some (k, detail)) \<Rightarrow> (None, exclude q d k (Some detail) w))"
  by (auto simp: settle_admission_def split: sum.split option.split)

lemma passive_admission:
  assumes "is_passive q" "admit_deployment pf q bypass endpoint p r = (adm, r')" "bypass = cooldown_override_bypasses (ask_permit q) l endpoint"
  obtains a where "adm = (a, None)" "is_available (pf_clock pf) (ci_base_model (ask_committed q)) p endpoint r = (a, r')"
  using assms by (auto simp: is_passive_def admit_deployment_def cooldown_override_bypasses_def split: prod.splits)

lemma blocked_visit:
  assumes q: "is_passive q" and v: "visit_deployment pf q m target d w = (e, w')"
    and reads: "\<forall>n < ar_reads (wk_registry w'). pf_clock pf n < b"
    and c: "never_served pf q target m d \<or> cooled_until pf q b (dd_provider d) (wk_registry w)"
  shows "wk_candidates w' = wk_candidates w"
proof (cases rule: visit_cases [of pf w q target d m])
  case (excluded k detail r)
  from excluded(3) v show ?thesis by (auto simp: exclude_def)
next
  case (failed e r)
  from failed(3) v show ?thesis by auto
next
  case (admitted prov endpoint bypass r adm r')
  obtain a where a: "adm = (a, None)"
    "is_available (pf_clock pf) (ci_base_model (ask_committed q)) (dd_provider d) endpoint r = (a, r')"
    using q admitted(4,5) by (rule passive_admission)
  let ?res = "resolved_here q (ci_base_model (ask_committed q)) m d prov"
  have s: "settle_admission q target d ?res (a, None) (w\<lparr>wk_registry := r', wk_claimed := wk_claimed w\<rparr>) = (e, w')"
    using v admitted(7) a(1) by simp
  have ep: "endpoint = endpoint_of pf (ask_snapshot q) (dd_provider d)"
    using admitted(2,6) by (simp add: endpoint_of_def)
  show ?thesis
  proof (cases "a \<and> judge q target ?res = Inr None")
    case True
    have reg: "wk_registry w' = r'" using s True by (auto simp: settle_outcome)
    have "\<not> never_served pf q target m d" using True admitted(2,3) by (simp add: never_served_def Let_def)
    with c have "cooled_until pf q b (dd_provider d) (wk_registry w)" by simp
    moreover have "ar_reads r \<le> ar_reads r'" using is_available_only [OF a(2)] by (simp add: reads_only_def)
    ultimately have "cooled_until pf q b (dd_provider d) r"
      using reads reg by (intro cooled_until_keeps [OF _ admitted(1)]) auto
    moreover have "is_available (pf_clock pf) (ci_base_model (ask_committed q)) (dd_provider d)
        (endpoint_of pf (ask_snapshot q) (dd_provider d)) r = (True, r')"
      using a(2) True ep by simp
    ultimately show ?thesis using available_only_after reads reg by metis
  next
    case False
    with s show ?thesis by (auto simp: settle_outcome exclude_def split: sum.splits option.splits if_splits)
  qed
qed

lemma blocked_walk:
  assumes "is_passive q" "walk_deployments pf q m target ds w = (e, w')"
    "\<forall>n < ar_reads (wk_registry w'). pf_clock pf n < b"
    "\<forall>d \<in> set ds. never_served pf q target m d \<or> cooled_until pf q b (dd_provider d) (wk_registry w)"
  shows "wk_candidates w' = wk_candidates w"
  using assms
proof (induction ds arbitrary: w)
  case (Cons d ds)
  have np: "\<not> ask_claim_probes q" using Cons.prems(1) by (simp add: is_passive_def)
  obtain e1 w1 where v: "visit_deployment pf q m target d w = (e1, w1)" by force
  have r1: "reads_only (pf_clock pf) (wk_registry w) (wk_registry w1)" using visit_reads_only [OF np, of pf w m target d] v by simp
  have le: "ar_reads (wk_registry w1) \<le> ar_reads (wk_registry w')"
  proof (cases e1)
    case None
    with Cons.prems(2) v walk_reads_only [OF np, of pf w1 m target ds] show ?thesis by (simp add: reads_only_def)
  next
    case (Some x)
    with Cons.prems(2) v show ?thesis by simp
  qed
  with Cons.prems(3) have reads1: "\<forall>n < ar_reads (wk_registry w1). pf_clock pf n < b" by auto
  have one: "wk_candidates w1 = wk_candidates w"
    using blocked_visit [OF Cons.prems(1) v reads1] Cons.prems(4) by simp
  show ?case
  proof (cases e1)
    case None
    then have "walk_deployments pf q m target ds w1 = (e, w')" using Cons.prems(2) v by simp
    moreover have "\<forall>d \<in> set ds. never_served pf q target m d \<or> cooled_until pf q b (dd_provider d) (wk_registry w1)"
      using Cons.prems(4) cooled_until_keeps [OF _ r1 reads1] by auto
    ultimately show ?thesis using Cons.IH [of w1] Cons.prems(1,3) one by simp
  next
    case (Some x)
    with Cons.prems(2) v one show ?thesis by simp
  qed
qed simp

section \<open>What the first view found\<close>

definition accounted :: "platform \<Rightarrow> eligibility_request \<Rightarrow> (string \<times> model_definition option) option \<Rightarrow> model_definition \<Rightarrow>
    deployment_exclusion list \<Rightarrow> deployment_definition \<Rightarrow> bool" where
  "accounted pf q target m xs d \<longleftrightarrow>
     never_served pf q target m d \<or>
     (\<exists>x \<in> set xs. xc_provider x = dd_provider d \<and> xc_reason x \<in> temporary_exclusion_reasons)"

lemma visit_accounts:
  assumes q: "is_passive q" and v: "visit_deployment pf q m target d w = (None, w')"
  shows "(wk_candidates w' = wk_candidates w \<longrightarrow> accounted pf q target m (wk_exclusions w') d) \<and>
    set (wk_exclusions w) \<subseteq> set (wk_exclusions w') \<and> (\<exists>ys. wk_candidates w' = wk_candidates w @ ys)"
proof (cases rule: visit_cases [of pf w q target d m])
  case (excluded k detail r)
  from excluded(3) v have w': "w' = exclude q d k detail (w\<lparr>wk_registry := r\<rparr>)" by auto
  from excluded(2) have "accounted pf q target m (wk_exclusions w') d"
  proof
    assume "k = Xk_Endpoint_Cooldown"
    then show ?thesis by (simp add: accounted_def w' exclude_def temporary_exclusion_reasons_def)
  next
    assume "static_exclusion (pf_regex pf) q target d
        (map_of (cg_providers (sn_catalog (ask_snapshot q))) (dd_provider d)) = Inr (Some k)"
    then show ?thesis by (simp add: accounted_def never_served_def Let_def)
  qed
  then show ?thesis by (auto simp: w' exclude_def)
next
  case (failed e r)
  from failed(3) v show ?thesis by auto
next
  case (admitted prov endpoint bypass r adm r')
  obtain a where a: "adm = (a, None)"
    using q admitted(4,5) by (rule passive_admission)
  let ?res = "resolved_here q (ci_base_model (ask_committed q)) m d prov"
  have s: "settle_admission q target d ?res (a, None) (w\<lparr>wk_registry := r', wk_claimed := wk_claimed w\<rparr>) = (None, w')"
    using v admitted(7) a by simp
  show ?thesis
  proof (cases "a \<and> judge q target ?res = Inr None")
    case True
    with s have "w' = w\<lparr>wk_registry := r', wk_candidates := wk_candidates w @
        [\<lparr>ely_resolved = ?res, ely_recovery_probe = False, ely_probe_token = None\<rparr>]\<rparr>"
      by (auto simp: settle_outcome)
    then show ?thesis by simp
  next
    case False
    have "accounted pf q target m (wk_exclusions w') d"
    proof (cases a)
      case True
      with False admitted(2) show ?thesis by (simp add: accounted_def never_served_def Let_def)
    next
      case na: False
      with s have "w' = exclude q d Xk_Cooldown None (w\<lparr>wk_registry := r', wk_claimed := wk_claimed w\<rparr>)"
        by (auto simp: settle_outcome)
      then show ?thesis by (simp add: accounted_def exclude_def temporary_exclusion_reasons_def)
    qed
    moreover have "wk_candidates w' = wk_candidates w \<and> set (wk_exclusions w) \<subseteq> set (wk_exclusions w')"
      using s False by (auto simp: settle_outcome exclude_def split: sum.splits option.splits if_splits)
    ultimately show ?thesis by simp
  qed
qed

lemma accounted_mono: "accounted pf q target m xs d \<Longrightarrow> set xs \<subseteq> set ys \<Longrightarrow> accounted pf q target m ys d"
  by (auto simp: accounted_def)

lemma walk_accounts:
  assumes "is_passive q" "walk_deployments pf q m target ds w = (None, w')"
  shows "(wk_candidates w' = wk_candidates w \<longrightarrow> (\<forall>d \<in> set ds. accounted pf q target m (wk_exclusions w') d)) \<and>
    set (wk_exclusions w) \<subseteq> set (wk_exclusions w') \<and> (\<exists>ys. wk_candidates w' = wk_candidates w @ ys)"
  using assms(2)
proof (induction ds arbitrary: w)
  case (Cons d ds)
  obtain e1 w1 where v: "visit_deployment pf q m target d w = (e1, w1)" by force
  with Cons.prems have e: "e1 = None" "walk_deployments pf q m target ds w1 = (None, w')" by (auto split: option.splits)
  note one = visit_accounts [OF assms(1) v [unfolded e(1)]] and rest = Cons.IH [OF e(2)]
  obtain ys zs where cs: "wk_candidates w1 = wk_candidates w @ ys" "wk_candidates w' = wk_candidates w1 @ zs"
    using one rest by blast
  have "\<forall>x \<in> set (d # ds). accounted pf q target m (wk_exclusions w') x" if "wk_candidates w' = wk_candidates w"
  proof -
    from that cs have "wk_candidates w1 = wk_candidates w" "wk_candidates w' = wk_candidates w1" by simp_all
    with one rest show ?thesis by (auto intro: accounted_mono)
  qed
  with one rest cs show ?case by auto
qed simp

section \<open>The delay\<close>

lemma foldl_min_le: "foldl min g gs \<le> g \<and> (\<forall>x \<in> set gs. foldl min g gs \<le> x)" for g :: rat
proof (induction gs arbitrary: g)
  case (Cons y gs)
  from Cons.IH [of "min g y"] show ?case by auto
qed simp

lemma gap_bounds:
  assumes g: "exclusion_gap pf (ask_snapshot q) (ci_base_model (ask_committed q)) now x r = ((g, b), r')"
    and t: "xc_reason x \<in> temporary_exclusion_reasons" and d: "0 < d" "d \<le> g"
  shows "cooled_until pf q (now + d) (xc_provider x) r'"
proof (cases "xc_reason x = Xk_Endpoint_Cooldown")
  case True
  obtain u r1 where u: "endpoint_cooldown_until (pf_clock pf) (endpoint_of pf (ask_snapshot q) (xc_provider x)) r = (u, r1)" by force
  with g True have gu: "g = (case u of None \<Rightarrow> 0 | Some t \<Rightarrow> max 0 (t - now))" "r' = r1"
    by (simp_all add: exclusion_gap_def endpoint_of_def)
  with d obtain t where t: "u = Some t" "now + d \<le> t" by (cases u) auto
  with u obtain e where "endpoint_of pf (ask_snapshot q) (xc_provider x) = Some e" "e \<noteq> []"
    "map_of (ar_endpoint_cooldowns r1) e = Some t"
    by (auto simp: endpoint_cooldown_until_def read_clock_def split: option.splits if_splits)
  with t gu show ?thesis by (auto simp: cooled_until_def)
next
  case False
  obtain f r1 where f: "probe_in_flight (pf_clock pf) (ci_base_model (ask_committed q)) (xc_provider x) r = (f, r1)" by force
  with g False have gu: "g = (case deployment_cooldown_until (ci_base_model (ask_committed q)) (xc_provider x) r of
      None \<Rightarrow> 0 | Some t \<Rightarrow> max 0 (t - now))" "r' = r1"
    by (simp_all add: exclusion_gap_def)
  with d obtain c where c: "cooldown_of r (ci_base_model (ask_committed q), xc_provider x) = Some c" "now + d \<le> cd_until c"
    by (cases "cooldown_of r (ci_base_model (ask_committed q), xc_provider x)") (auto simp: deployment_cooldown_until_def)
  moreover have "cooldown_of r1 = cooldown_of r" using reads_only_cooldown [OF in_flight_only [OF f]] .
  ultimately show ?thesis using gu(2) by (auto simp: cooled_until_def)
qed

lemma gaps_bound:
  assumes "exclusion_gaps pf (ask_snapshot q) (ci_base_model (ask_committed q)) now xs r = (gs, r')"
    "0 < d" "\<forall>g \<in> set gs. d \<le> fst g" "\<forall>n < ar_reads r'. pf_clock pf n < now + d"
    "x \<in> set xs" "xc_reason x \<in> temporary_exclusion_reasons"
  shows "cooled_until pf q (now + d) (xc_provider x) r'"
  using assms(1,3,4,5)
proof (induction xs arbitrary: r gs)
  case (Cons y ys)
  show ?case
  proof (cases "xc_reason y \<in> temporary_exclusion_reasons")
    case True
    obtain g b r1 where g: "exclusion_gap pf (ask_snapshot q) (ci_base_model (ask_committed q)) now y r = ((g, b), r1)"
      by (metis prod.collapse)
    obtain gs1 r2 where gs: "exclusion_gaps pf (ask_snapshot q) (ci_base_model (ask_committed q)) now ys r1 = (gs1, r2)" by force
    from Cons.prems(1) True g gs have e: "gs = (g, b) # gs1" "r2 = r'" by simp_all
    show ?thesis
    proof (cases "x \<in> set ys")
      case True
      with Cons.IH [OF gs [unfolded e(2)]] Cons.prems(2,3) e(1) show ?thesis by simp
    next
      case False
      with Cons.prems(4) have "x = y" by simp
      moreover have "cooled_until pf q (now + d) (xc_provider y) r1"
        using gap_bounds [OF g True assms(2)] Cons.prems(2) e(1) by simp
      ultimately show ?thesis using cooled_until_keeps [OF _ gaps_only [OF gs [unfolded e(2)]] Cons.prems(3)] by simp
    qed
  next
    case False
    then have "x \<in> set ys" using Cons.prems(4) assms(6) by auto
    with Cons.IH [of r gs] Cons.prems False show ?thesis by simp
  qed
qed simp

lemma judge_error: "judge q target r = Inl e \<Longrightarrow> e \<noteq> All_Deployments_Unavailable b xs"
proof -
  have lift: "lift_error y = Inl e \<Longrightarrow> e \<noteq> All_Deployments_Unavailable b xs" for y :: "'x resolution" and e
    by (cases y) auto
  have provider: "get_provider_for_model c m = Inl e \<Longrightarrow> e \<noteq> All_Deployments_Unavailable b xs" for c m e
    by (auto simp: get_provider_for_model_def split: option.splits if_splits)
  have compat: "compatibility_exclusion c m h t f = Inl e \<Longrightarrow> e \<noteq> All_Deployments_Unavailable b xs" for c m h t f e
    by (auto simp: compatibility_exclusion_def and_then_def split: if_splits sum.splits list.splits dest: provider)
  have compact: "compaction_problem q base m p = Inl e \<Longrightarrow> e \<noteq> All_Deployments_Unavailable b xs" for base m p e
    by (auto simp: compaction_problem_def Let_def and_then_def split: option.splits sum.splits dest: lift compat)
  assume "judge q target r = Inl e"
  then show ?thesis
    by (auto simp: judge_def and_then_def split: option.splits sum.splits prod.splits dest: lift compat compact)
qed

lemma visit_error: "visit_deployment pf q m target d w = (Some e, w') \<Longrightarrow> e \<noteq> All_Deployments_Unavailable b xs"
proof -
  assume v: "visit_deployment pf q m target d w = (Some e, w')"
  show ?thesis
  proof (cases rule: visit_cases [of pf w q target d m])
    case (excluded k detail r)
    from excluded(3) v show ?thesis by simp
  next
    case (failed e r)
    from failed(3) v show ?thesis by auto
  next
    case (admitted prov endpoint bypass r adm r')
    from admitted(7) v show ?thesis
      by (auto simp: settle_admission_def split: if_splits sum.splits option.splits dest: judge_error)
  qed
qed

lemma walk_error: "walk_deployments pf q m target ds w = (Some e, w') \<Longrightarrow> e \<noteq> All_Deployments_Unavailable b xs"
proof (induction ds arbitrary: w)
  case (Cons d ds)
  obtain e1 w1 where v: "visit_deployment pf q m target d w = (e1, w1)" by force
  show ?case
  proof (cases e1)
    case None
    with Cons v show ?thesis by simp
  next
    case (Some y)
    with Cons.prems v visit_error show ?thesis by fastforce
  qed
qed simp

definition first_walk :: "availability_registry \<Rightarrow> walk" where
  "first_walk r = \<lparr>wk_registry = r, wk_candidates = [], wk_exclusions = [], wk_claimed = []\<rparr>"

lemma eligible_none_available:
  assumes e: "eligible_deployments pf q r = (Inl (All_Deployments_Unavailable b xs), r1)" and q: "is_passive q"
  obtains (no_model) "\<And>r'. fst (eligible_deployments pf q r') = Inl (All_Deployments_Unavailable (ci_base_model (ask_committed q)) [])"
      "xs = []"
  | (walked) m target where
      "map_of (cg_models (sn_catalog (ask_snapshot q))) (ci_base_model (ask_committed q)) = Some m" "\<not> md_disabled m"
      "compaction_target (pf_regex pf) q = Inr target"
      "\<forall>d \<in> set (md_deployments m). accounted pf q target m xs d"
proof (cases "map_of (cg_models (sn_catalog (ask_snapshot q))) (ci_base_model (ask_committed q))")
  case None
  with e show thesis by (intro no_model) (auto simp: eligible_deployments_def Let_def)
next
  case (Some m)
  show thesis
  proof (cases "md_disabled m")
    case True
    with Some e show thesis by (intro no_model) (auto simp: eligible_deployments_def Let_def)
  next
    case False
    from e Some False obtain target where t: "compaction_target (pf_regex pf) q = Inr target"
      by (auto simp: eligible_deployments_def Let_def split: sum.splits)
    obtain err w where w: "walk_deployments pf q m target (md_deployments m) (first_walk r) = (err, w)" by force
    have none: "err = None"
    proof (rule ccontr)
      assume "err \<noteq> None"
      then obtain y where y: "err = Some y" by blast
      with e Some False t w have "y = All_Deployments_Unavailable b xs"
        by (simp add: eligible_deployments_def Let_def first_walk_def)
      with walk_error w y show False by blast
    qed
    with e Some False t w have "wk_candidates w = []" "xs = wk_exclusions w"
      by (auto simp: eligible_deployments_def Let_def first_walk_def split: if_splits)
    with walk_accounts [OF q w [unfolded none]] have "\<forall>d \<in> set (md_deployments m). accounted pf q target m xs d"
      by (simp add: first_walk_def)
    with Some False t show thesis by (rule walked)
  qed
qed

lemma still_unavailable:
  assumes q: "is_passive q"
    and m: "map_of (cg_models (sn_catalog (ask_snapshot q))) (ci_base_model (ask_committed q)) = Some m" "\<not> md_disabled m"
      "compaction_target (pf_regex pf) q = Inr target"
    and blocked: "\<forall>d \<in> set (md_deployments m). never_served pf q target m d \<or> cooled_until pf q b (dd_provider d) r"
    and e: "eligible_deployments pf q r = (y, r')" and early: "\<forall>n < ar_reads r'. pf_clock pf n < b"
  shows "\<exists>z. y = Inl z"
proof -
  have np: "\<not> ask_claim_probes q" using q by (simp add: is_passive_def)
  obtain err w where w: "walk_deployments pf q m target (md_deployments m) (first_walk r) = (err, w)" by force
  have "wk_claimed w = []" using walk_reads_only [OF np, of pf "first_walk r" m target "md_deployments m"] w by (simp add: first_walk_def)
  with e m w have r': "r' = wk_registry w"
    by (auto simp: eligible_deployments_def Let_def first_walk_def release_all_def split: option.splits)
  have "wk_candidates w = []"
    using blocked_walk [OF q w, of b] blocked early by (simp add: r' first_walk_def)
  with e m w show ?thesis
    by (auto simp: eligible_deployments_def Let_def first_walk_def split: option.splits)
qed

lemma exclusions_view:
  assumes "snapshot_from_exclusions pf sn base xs r = (v, r')"
  obtains gs where "exclusion_gaps pf sn base (pf_clock pf (ar_reads r)) xs (r\<lparr>ar_reads := Suc (ar_reads r)\<rparr>) = (gs, r')"
    "\<not> vs_available v" "0 < vs_next_check_delay v \<Longrightarrow> \<forall>g \<in> set gs. vs_next_check_delay v \<le> fst g"
proof -
  obtain gs r2 where gs: "exclusion_gaps pf sn base (pf_clock pf (ar_reads r)) xs (r\<lparr>ar_reads := Suc (ar_reads r)\<rparr>) = (gs, r2)"
    by force
  with assms have "r2 = r'" "\<not> vs_available v"
    by (auto simp: snapshot_from_exclusions_def read_clock_def split: if_splits)
  moreover have "\<forall>g \<in> set gs. vs_next_check_delay v \<le> fst g" if "0 < vs_next_check_delay v"
  proof (cases gs)
    case (Cons a as)
    with assms gs that have "vs_next_check_delay v = foldl min (fst a) (map fst as)"
      by (auto simp: snapshot_from_exclusions_def read_clock_def split: if_splits)
    with foldl_min_le [of "fst a" "map fst as"] Cons show ?thesis by auto
  qed simp
  ultimately show thesis using gs that by blast
qed

text \<open>
  C19. Until the delay of the read-only view has passed, the view stays unavailable: a caller that sleeps
  for the delay does not miss a deployment that could have served it earlier.
\<close>

theorem wait_does_not_oversleep:
  assumes first: "availability_snapshot pf q r = (Inr v, r1)" "\<not> vs_available v"
    and later: "availability_snapshot pf q r1 = (x, r2)"
    and early: "\<forall>n < ar_reads r2. pf_clock pf n <
      pf_clock pf (ar_reads (snd (eligible_deployments pf (read_only_request q) r))) + vs_next_check_delay v"
  shows "case x of Inl _ \<Rightarrow> True | Inr v' \<Rightarrow> \<not> vs_available v'"
proof -
  let ?q = "read_only_request q" and ?base = "ci_base_model (ask_committed q)"
  have same: "ask_snapshot ?q = ask_snapshot q" "ask_committed ?q = ask_committed q" by (simp_all add: read_only_request_def)
  obtain y r0 where e: "eligible_deployments pf ?q r = (y, r0)" by force
  from first e obtain b xs where y: "y = Inl (All_Deployments_Unavailable b xs)"
    by (auto simp: availability_snapshot_def split: sum.splits prod.splits eligibility_error.splits)
  with first e have sn: "snapshot_from_exclusions pf (ask_snapshot q) ?base xs r0 = (v, r1)"
    by (auto simp: availability_snapshot_def split: prod.splits)
  let ?now = "pf_clock pf (ar_reads r0)" and ?d = "vs_next_check_delay v"
  obtain gs where gs: "exclusion_gaps pf (ask_snapshot q) ?base ?now xs (r0\<lparr>ar_reads := Suc (ar_reads r0)\<rparr>) = (gs, r1)"
    and gd: "0 < ?d \<Longrightarrow> \<forall>g \<in> set gs. ?d \<le> fst g"
    using exclusions_view [OF sn] by metis
  obtain y2 r1' where e2: "eligible_deployments pf ?q r1 = (y2, r1')" by force
  have up: "ar_reads r0 < ar_reads r1" "ar_reads r1 \<le> ar_reads r1'" "ar_reads r1' \<le> ar_reads r2"
  proof -
    show "ar_reads r0 < ar_reads r1" using gaps_only [OF gs] by (simp add: reads_only_def)
    show "ar_reads r1 \<le> ar_reads r1'" using eligible_reads_only [of ?q pf r1] passive_read_only [of q] e2
      by (simp add: is_passive_def reads_only_def)
    show "ar_reads r1' \<le> ar_reads r2"
      using later e2 exclusions_only
      by (auto simp: availability_snapshot_def reads_only_def split: sum.splits prod.splits eligibility_error.splits)
  qed
  have early': "\<forall>n < ar_reads r2. pf_clock pf n < ?now + ?d" using early e by simp
  have "ar_reads r0 < ar_reads r2" using up by simp
  with early' have "?now < ?now + ?d" by blast
  then have d: "0 < ?d" by simp
  have "\<exists>z. y2 = Inl z"
    using e [unfolded y] passive_read_only [of q]
  proof (cases rule: eligible_none_available)
    case no_model
    with e2 show ?thesis by (metis fst_conv)
  next
    case (walked m target)
    have early1: "\<forall>n < ar_reads r1. pf_clock pf n < ?now + ?d" using early' up by auto
    have "never_served pf ?q target m dep \<or> cooled_until pf ?q (?now + ?d) (dd_provider dep) r1"
      if "dep \<in> set (md_deployments m)" for dep
    proof (cases "never_served pf ?q target m dep")
      case False
      with walked(4) that obtain z where z: "z \<in> set xs" "xc_provider z = dd_provider dep"
          "xc_reason z \<in> temporary_exclusion_reasons"
        by (auto simp: accounted_def)
      then show ?thesis
        using gaps_bound [of pf ?q ?now xs _ gs r1 ?d z] gs d gd early1 same by simp
    qed simp
    then have blk: "\<forall>dep \<in> set (md_deployments m). never_served pf ?q target m dep \<or>
        cooled_until pf ?q (?now + ?d) (dd_provider dep) r1" by blast
    have "\<forall>n < ar_reads r1'. pf_clock pf n < ?now + ?d" using early' up by auto
    with still_unavailable [OF passive_read_only walked(1,2,3) blk e2] show ?thesis .
  qed
  then obtain z where z: "y2 = Inl z" ..
  show ?thesis
  proof (cases z)
    case (All_Deployments_Unavailable b2 xs2)
    obtain v2 r3 where v2: "snapshot_from_exclusions pf (ask_snapshot q) ?base xs2 r1' = (v2, r3)" by force
    have "\<not> vs_available v2" using exclusions_view [OF v2] by metis
    moreover have "x = Inr v2" using later e2 z v2 by (simp add: availability_snapshot_def All_Deployments_Unavailable)
    ultimately show ?thesis by simp
  qed (use later e2 z in \<open>auto simp: availability_snapshot_def\<close>)
qed

definition cooling_registry :: availability_registry where
  "cooling_registry =
     fresh_registry\<lparr>ar_reads := 1, ar_cooldowns :=
       [((''m'', ''p1''), expired_cooldown\<lparr>cd_until := 500\<rparr>), ((''m'', ''p2''), expired_cooldown\<lparr>cd_until := 300\<rparr>)]\<rparr>"

definition cooling_view :: "(eligibility_error + availability_view) \<times> availability_registry" where
  "cooling_view = availability_snapshot sample_platform sample_request cooling_registry"

theorem wait_does_not_oversleep_witness:
  "(case fst (availability_snapshot sample_platform sample_request (snd cooling_view)) of
      Inl _ \<Rightarrow> True | Inr v' \<Rightarrow> \<not> vs_available v') \<and>
   (case fst cooling_view of Inl _ \<Rightarrow> False | Inr v \<Rightarrow> \<not> vs_available v \<and> vs_next_check_delay v = 270)"
proof -
  have c: "(case fst cooling_view of Inl _ \<Rightarrow> False | Inr v \<Rightarrow> \<not> vs_available v \<and> vs_next_check_delay v = 270)" by code_simp
  then obtain v where v: "fst cooling_view = Inr v" "\<not> vs_available v" "vs_next_check_delay v = 270"
    by (cases "fst cooling_view") auto
  then have first: "availability_snapshot sample_platform sample_request cooling_registry = (Inr v, snd cooling_view)"
    by (metis cooling_view_def prod.collapse)
  let ?later = "availability_snapshot sample_platform sample_request (snd cooling_view)"
  have n: "ar_reads (snd (eligible_deployments sample_platform (read_only_request sample_request) cooling_registry)) = 3" by code_simp
  have "ar_reads (snd ?later) \<le> 10" by code_simp
  then have early: "\<forall>n < ar_reads (snd ?later). pf_clock sample_platform n <
      pf_clock sample_platform (ar_reads (snd (eligible_deployments sample_platform (read_only_request sample_request) cooling_registry))) +
      vs_next_check_delay v"
    unfolding n v(3) by (auto simp: sample_platform_def registry_sample_clock_def)
  show ?thesis
    using wait_does_not_oversleep [OF first v(2) surjective_pairing early] c by blast
qed

end
