(* ===== verification/Probe_Claims.thy ===== *)
theory Probe_Claims
  imports Eligibility_Props
begin

text \<open>
  The probes a pass claims: after it, those of its candidates are held and no other, whether it
  answers, finds nothing or fails.
\<close>

section \<open>Tokens held\<close>

definition held :: "availability_registry \<Rightarrow> deployment_key \<Rightarrow> nat \<Rightarrow> bool" where
  "held r k t \<longleftrightarrow> Option.bind (cooldown_of r k) cd_token = Some t"

definition fresh_claims :: "availability_registry \<Rightarrow> availability_registry \<Rightarrow> (deployment_key \<times> nat) set" where
  "fresh_claims r0 r = {(k, t). ar_next_token r0 < t \<and> held r k t}"

definition candidate_claims :: "string \<Rightarrow> eligible_deployment list \<Rightarrow> (deployment_key \<times> nat) set" where
  "candidate_claims base xs =
     {((base, dd_provider (rz_deployment (ely_resolved x))), t) | x t. x \<in> set xs \<and> ely_probe_token x = Some t}"

definition listed_claims :: "string \<Rightarrow> (string \<times> nat) list \<Rightarrow> (deployment_key \<times> nat) set" where
  "listed_claims base ps = {((base, p), t) | p t. (p, t) \<in> set ps}"

lemma held_frame: "cooldown_of r' = cooldown_of r \<Longrightarrow> held r' = held r"
  by (simp add: held_def fun_eq_iff)

lemma fresh_claims_reads: "reads_only (pf_clock pf) r r' \<Longrightarrow> fresh_claims r0 r' = fresh_claims r0 r"
  by (simp add: fresh_claims_def held_frame [OF reads_only_cooldown])

lemma held_put: "held (put_cooldown k c r) j t \<longleftrightarrow> (if j = k then cd_token c = Some t else held r j t)"
  by (simp add: held_def)

lemma held_counter [simp]: "held (r\<lparr>ar_next_token := n\<rparr>) = held r"
  by (simp add: held_def fun_eq_iff)

lemma release_held: "held (release_probe b p t r) k u \<longleftrightarrow> held r k u \<and> \<not> (k = (b, p) \<and> u = t)"
proof (cases "cooldown_of r (b, p)")
  case None
  then show ?thesis by (auto simp: release_probe_def held_def)
next
  case (Some c)
  then show ?thesis by (cases "k = (b, p)") (auto simp: release_probe_def held_def)
qed

lemma release_fresh: "fresh_claims r0 (release_probe b p t r) = fresh_claims r0 r - {((b, p), t)}"
  by (auto simp: fresh_claims_def release_held)

lemma release_all_held: "held (release_all b ps r) k u \<Longrightarrow> held r k u \<and> (k, u) \<notin> listed_claims b ps"
proof (induction ps arbitrary: r)
  case (Cons e ps)
  obtain p t where e: "e = (p, t)" by force
  have "held (release_all b ps (release_probe b p t r)) k u" using Cons.prems by (simp add: release_all_def e)
  from Cons.IH [OF this] show ?case by (auto simp: e listed_claims_def release_held)
qed (simp add: release_all_def listed_claims_def)

lemma candidate_claims_simps [simp]:
  "candidate_claims b [] = {}"
  "candidate_claims b (xs @ ys) = candidate_claims b xs \<union> candidate_claims b ys"
  "candidate_claims b [\<lparr>ely_resolved = r, ely_recovery_probe = f, ely_probe_token = None\<rparr>] = {}"
  "candidate_claims b [\<lparr>ely_resolved = r, ely_recovery_probe = f, ely_probe_token = Some t\<rparr>] =
     {((b, dd_provider (rz_deployment r)), t)}"
  by (auto simp: candidate_claims_def)

lemma listed_claims_snoc [simp]: "listed_claims b (ps @ [(p, t)]) = insert ((b, p), t) (listed_claims b ps)"
  by (auto simp: listed_claims_def)

section \<open>The pass\<close>

definition candidate_providers :: "eligible_deployment list \<Rightarrow> string set" where
  "candidate_providers xs = (\<lambda>x. dd_provider (rz_deployment (ely_resolved x))) ` set xs"

definition walk_ok :: "string \<Rightarrow> availability_registry \<Rightarrow> walk \<Rightarrow> bool" where
  "walk_ok base r0 w \<longleftrightarrow>
     ar_next_token r0 \<le> ar_next_token (wk_registry w) \<and>
     fresh_claims r0 (wk_registry w) = candidate_claims base (wk_candidates w) \<and>
     candidate_claims base (wk_candidates w) \<subseteq> listed_claims base (wk_claimed w)"

lemma admit_cases:
  assumes "admit_deployment pf q bypass endpoint p r = (adm, r')"
  obtains (unclaimed) "snd adm = None" "reads_only (pf_clock pf) r r'"
  | (claimed) t r1 c where "snd adm = Some t" "fst adm" "reads_only (pf_clock pf) r r1" "t = ar_next_token r + 1" "cd_token c = Some t"
      "r' = put_cooldown (ci_base_model (ask_committed q), p) c (r1\<lparr>ar_next_token := t\<rparr>)"
proof (cases "bypass \<or> \<not> ask_claim_probes q")
  case True
  with assms show thesis
    by (intro unclaimed) (auto simp: admit_deployment_def split: if_splits prod.splits dest: is_available_only)
next
  case False
  obtain a tok where adm: "adm = (a, tok)" by force
  from assms False adm have "probe_admission (pf_clock pf) (ci_base_model (ask_committed q)) p endpoint r = ((a, tok), r')"
    by (simp add: admit_deployment_def)
  then show thesis
  proof (cases rule: admission_cases)
    case unclaimed
    with adm show thesis by (intro that(1)) simp_all
  next
    case (claimed r0 c t now)
    with adm show thesis by (intro that(2) [OF _ _ claimed(1)]) simp_all
  qed
qed

lemma claim_fresh:
  assumes n: "ar_next_token r0 \<le> ar_next_token r" and old: "\<And>t. ((b, p), t) \<notin> fresh_claims r0 r"
    and r: "reads_only (pf_clock pf) r r1" and t: "t = ar_next_token r + 1" "cd_token c = Some t"
  shows "fresh_claims r0 (put_cooldown (b, p) c (r1\<lparr>ar_next_token := t\<rparr>)) = insert ((b, p), t) (fresh_claims r0 r)"
proof -
  have h: "held r1 = held r" using held_frame [OF reads_only_cooldown [OF r]] .
  show ?thesis
    using n old t by (auto simp: fresh_claims_def held_put h)
qed

lemma visit_claims:
  assumes ok: "walk_ok base r0 w" and base: "base = ci_base_model (ask_committed q)"
    and new: "dd_provider d \<notin> candidate_providers (wk_candidates w)"
    and v: "visit_deployment pf q m target d w = (e, w')"
  shows "(e = None \<longrightarrow> walk_ok base r0 w' \<and>
       candidate_providers (wk_candidates w') \<subseteq> insert (dd_provider d) (candidate_providers (wk_candidates w))) \<and>
    fresh_claims r0 (wk_registry w') \<subseteq> listed_claims base (wk_claimed w')"
proof -
  note inv = ok [unfolded walk_ok_def]
  have keep: ?thesis if "reads_only (pf_clock pf) (wk_registry w) (wk_registry w')" "wk_candidates w' = wk_candidates w" "wk_claimed w' = wk_claimed w"
  proof -
    have "walk_ok base r0 w'"
      using inv that fresh_claims_reads [OF that(1)] by (simp add: walk_ok_def reads_only_def)
    with that(2) show ?thesis by (auto simp: walk_ok_def)
  qed
  show ?thesis
  proof (cases rule: visit_cases [of pf w q target d m])
    case (excluded k detail r)
    with v have w': "w' = exclude q d k detail (w\<lparr>wk_registry := r\<rparr>)" by simp
    show ?thesis by (rule keep) (simp_all add: w' exclude_def excluded(1))
  next
    case (failed e r)
    with v have w': "w' = w\<lparr>wk_registry := r\<rparr>" by simp
    show ?thesis by (rule keep) (simp_all add: w' failed(1))
  next
    case (admitted prov endpoint bypass r adm r')
    let ?res = "resolved_here q (ci_base_model (ask_committed q)) m d prov"
    have dep: "rz_deployment ?res = d" by (simp add: resolved_here_def)
    have r: "ar_next_token r = ar_next_token (wk_registry w)" "fresh_claims r0 r = fresh_claims r0 (wk_registry w)"
      using admitted(1) fresh_claims_reads by (simp_all add: reads_only_def)
    from admitted(4) show ?thesis
    proof (cases rule: admit_cases)
      case unclaimed
      have ro: "reads_only (pf_clock pf) (wk_registry w) r'" using admitted(1) unclaimed(2) by (rule reads_only_trans)
      let ?w = "w\<lparr>wk_registry := r', wk_claimed := (case snd adm of None \<Rightarrow> wk_claimed w | Some t \<Rightarrow> wk_claimed w @ [(dd_provider d, t)])\<rparr>"
      from v admitted(7) have s: "settle_admission q target d ?res adm ?w = (e, w')" by simp
      show ?thesis
      proof (cases "wk_candidates w' = wk_candidates w")
        case True
        show ?thesis
          by (rule keep [OF _ True]) (use s unclaimed ro in \<open>auto simp: settle_admission_def exclude_def split: if_splits sum.splits option.splits\<close>)
      next
        case False
        with s unclaimed have w': "e = None" "w' = w\<lparr>wk_registry := r', wk_claimed := wk_claimed w, wk_candidates := wk_candidates w @
            [\<lparr>ely_resolved = ?res, ely_recovery_probe = False, ely_probe_token = None\<rparr>]\<rparr>"
          by (auto simp: settle_admission_def exclude_def split: if_splits sum.splits option.splits)
        have "walk_ok base r0 w'"
          using inv fresh_claims_reads [OF ro] ro by (simp add: walk_ok_def w' reads_only_def)
        then show ?thesis by (auto simp: walk_ok_def w' candidate_providers_def dep)
      qed
    next
      case (claimed t r1 c)
      have notin: "((base, dd_provider d), u) \<notin> fresh_claims r0 r" for u
        using inv r(2) new by (auto simp: candidate_claims_def candidate_providers_def)
      have f: "fresh_claims r0 r' = insert ((base, dd_provider d), t) (fresh_claims r0 (wk_registry w))"
        using claim_fresh [OF _ notin claimed(3,4,5)] inv r claimed(6) base by simp
      have n: "ar_next_token r' = ar_next_token (wk_registry w) + 1" using claimed(4,6) r(1) by simp
      let ?w = "w\<lparr>wk_registry := r', wk_claimed := wk_claimed w @ [(dd_provider d, t)]\<rparr>"
      from v admitted(7) claimed(1) have s: "settle_admission q target d ?res adm ?w = (e, w')" by simp
      from s claimed(1,2) consider
          (err) "e \<noteq> None" "w' = ?w"
        | (cand) "e = None" "w' = ?w\<lparr>wk_candidates := wk_candidates w @
            [\<lparr>ely_resolved = ?res, ely_recovery_probe = True, ely_probe_token = Some t\<rparr>]\<rparr>"
        | (prob) k detail where "e = None"
            "w' = exclude q d k detail (?w\<lparr>wk_registry := release_probe base (dd_provider d) t r'\<rparr>)"
        unfolding base
        by (auto simp: settle_admission_def split: sum.splits option.splits)
      then show ?thesis
      proof cases
        case err
        with inv f show ?thesis by auto
      next
        case cand
        have "walk_ok base r0 w'" using inv f n by (simp add: walk_ok_def cand dep) blast
        then show ?thesis by (auto simp: walk_ok_def cand candidate_providers_def dep)
      next
        case prob
        have "fresh_claims r0 (wk_registry w') = fresh_claims r0 (wk_registry w)"
          using notin r(2) by (auto simp: prob exclude_def release_fresh f)
        moreover have "ar_next_token (wk_registry w') = ar_next_token r'"
          by (simp add: prob exclude_def release_probe_def split: option.split)
        ultimately have "walk_ok base r0 w'" using inv n by (simp add: walk_ok_def prob exclude_def) blast
        then show ?thesis by (auto simp: walk_ok_def prob exclude_def)
      qed
    qed
  qed
qed

lemma walk_claims:
  assumes "walk_ok base r0 w" "base = ci_base_model (ask_committed q)"
    "distinct (map dd_provider ds)" "set (map dd_provider ds) \<inter> candidate_providers (wk_candidates w) = {}"
    "walk_deployments pf q m target ds w = (e, w')"
  shows "(e = None \<longrightarrow> walk_ok base r0 w') \<and> fresh_claims r0 (wk_registry w') \<subseteq> listed_claims base (wk_claimed w')"
  using assms
proof (induction ds arbitrary: w)
  case Nil
  then show ?case by (auto simp: walk_ok_def)
next
  case (Cons d ds)
  obtain e1 w1 where v: "visit_deployment pf q m target d w = (e1, w1)" by force
  from Cons.prems have new: "dd_provider d \<notin> candidate_providers (wk_candidates w)" by auto
  note one = visit_claims [OF Cons.prems(1,2) new v]
  show ?case
  proof (cases e1)
    case None
    then have "walk_ok base r0 w1" "candidate_providers (wk_candidates w1) \<subseteq> insert (dd_provider d) (candidate_providers (wk_candidates w))"
      using one by simp_all
    moreover have "walk_deployments pf q m target ds w1 = (e, w')" using Cons.prems(5) v None by simp
    moreover have "distinct (map dd_provider ds)" using Cons.prems(3) by simp
    moreover have "set (map dd_provider ds) \<inter> candidate_providers (wk_candidates w1) = {}"
    proof -
      have "set (map dd_provider ds) \<inter> insert (dd_provider d) (candidate_providers (wk_candidates w)) = {}"
        using Cons.prems(3,4) by auto
      with calculation(2) show ?thesis by blast
    qed
    ultimately show ?thesis using Cons.IH [of w1] Cons.prems(2) by blast
  next
    case (Some x)
    with Cons.prems(5) v one show ?thesis by simp
  qed
qed

text \<open>
  C17. Every probe that a pass claims belongs to a candidate it returns, and every candidate with a probe
  holds it; a pass that finds nothing or fails leaves none of its claims behind.
\<close>

theorem claimed_probes_are_candidates:
  assumes "catalog_ok (sn_catalog (ask_snapshot q))" "registry_ok r"
  shows "case eligible_deployments pf q r of
      (Inr (cands, _), r') \<Rightarrow> fresh_claims r r' = candidate_claims (ci_base_model (ask_committed q)) cands
    | (Inl _, r') \<Rightarrow> fresh_claims r r' = {}"
proof -
  let ?b = "ci_base_model (ask_committed q)" and ?c = "sn_catalog (ask_snapshot q)"
  let ?w = "\<lparr>wk_registry = r, wk_candidates = [], wk_exclusions = [], wk_claimed = []\<rparr>"
  have none: "fresh_claims r r = {}"
    using registry_ok_cooldown [OF assms(2)] by (fastforce simp: fresh_claims_def held_def cooldown_ok_def bind_eq_Some_conv)
  show ?thesis
  proof (cases "map_of (cg_models ?c) ?b")
    case None
    with none show ?thesis by (simp add: eligible_deployments_def Let_def)
  next
    case (Some m)
    show ?thesis
    proof (cases "compaction_target (pf_regex pf) q")
      case (Inl e)
      with Some none show ?thesis by (simp add: eligible_deployments_def Let_def)
    next
      case (Inr target)
      have dist: "distinct (map dd_provider (md_deployments m))"
        using assms map_of_SomeD [OF Some] by (fastforce simp: catalog_ok_def list_all_iff)
      obtain e w where w: "walk_deployments pf q m target (md_deployments m) ?w = (e, w)" by force
      have "walk_ok ?b r ?w" using none by (simp add: walk_ok_def listed_claims_def)
      from walk_claims [OF this refl dist _ w]
      have inv: "e = None \<longrightarrow> walk_ok ?b r w" "fresh_claims r (wk_registry w) \<subseteq> listed_claims ?b (wk_claimed w)"
        by (simp_all add: candidate_providers_def)
      show ?thesis
      proof (cases "md_disabled m")
        case True
        with Some none show ?thesis by (simp add: eligible_deployments_def Let_def)
      next
        case False
        show ?thesis
        proof (cases e)
          case None
          with inv(1) Some Inr False w show ?thesis by (simp add: eligible_deployments_def Let_def walk_ok_def)
        next
          case (Some x)
          have "fresh_claims r (release_all ?b (wk_claimed w) (wk_registry w)) = {}"
            using inv(2) release_all_held [of ?b "wk_claimed w" "wk_registry w"] unfolding fresh_claims_def by fast
          with Some \<open>map_of (cg_models ?c) ?b = Some m\<close> Inr False w show ?thesis
            by (simp add: eligible_deployments_def Let_def)
        qed
      qed
    qed
  qed
qed

theorem claimed_probes_are_candidates_witness:
  "(case eligible_deployments sample_platform sample_request expired_registry of
      (Inr (cands, _), r') \<Rightarrow> fresh_claims expired_registry r' = candidate_claims ''m'' cands \<and> map ely_probe_token cands = [Some 2]
    | (Inl _, r') \<Rightarrow> False)"
proof -
  have c: "catalog_ok (sn_catalog (ask_snapshot sample_request))" by code_simp
  have free: "cd_token d = None \<and> \<not> cd_probe d \<and> cd_claimed_at d = None" if "cooldown_of expired_registry k = Some d" for k d
    using that by (auto simp: cooldown_of_def expired_registry_def expired_cooldown_def split: if_splits)
  have r: "registry_ok expired_registry"
  proof (rule registry_okI)
    show "cooldown_ok (ar_next_token expired_registry) c" if "cooldown_of expired_registry k = Some c" for k c
      using free [OF that] by (simp add: cooldown_ok_def)
    show "k = k'" if "cooldown_of expired_registry k = Some c" "cd_token c = Some t" for k k' c t
      using free [OF that(1)] that(2) by simp
  qed (simp add: events_of_def expired_registry_def fresh_registry_def)
  have "ci_base_model (ask_committed sample_request) = ''m''" by code_simp
  with claimed_probes_are_candidates [OF c r, of sample_platform] sample_answer show ?thesis
    by (auto split: prod.splits sum.splits)
qed

end
