(* ===== verification/Resolver_Props.thy ===== *)
theory Resolver_Props
  imports Model_Resolver
begin

text \<open>
  What a resolution of a model expression guarantees: no lookup fails on a validated catalog, the
  deployment chosen is enabled and permitted and encodes the level where one does, and the identity
  it commits resolves to the same model again.
\<close>

section \<open>Sequencing\<close>

lemma then_simps [simp]: "and_then (Inl e) f = Inl e" "and_then (Inr x) f = f x"
  by (simp_all add: and_then_def)

lemma then_Inr: "and_then r f = Inr y \<longleftrightarrow> (\<exists>x. r = Inr x \<and> f x = Inr y)"
  by (cases r) simp_all

lemma then_Inl: "and_then r f = Inl e \<longleftrightarrow> r = Inl e \<or> (\<exists>x. r = Inr x \<and> f x = Inl e)"
  by (cases r) simp_all

text \<open>A test that does not raise makes the list operations the ordinary ones.\<close>

lemma any_of_pure: "(\<And>x. x \<in> set xs \<Longrightarrow> f x = Inr (p x)) \<Longrightarrow> any_of f xs = Inr (list_ex p xs)"
  by (induction xs) auto

lemma filter_of_pure: "(\<And>x. x \<in> set xs \<Longrightarrow> f x = Inr (p x)) \<Longrightarrow> filter_of f xs = Inr (filter p xs)"
  by (induction xs) auto

lemma sort_flagged_pure:
  "(\<And>x. x \<in> set xs \<Longrightarrow> f x = Inr (p x)) \<Longrightarrow> sort_flagged f xs = Inr (filter p xs, filter (\<lambda>x. \<not> p x) xs)"
  by (induction xs) auto

section \<open>Lookups on a validated catalog\<close>

definition enabled_in :: "catalog \<Rightarrow> deployment_definition \<Rightarrow> bool" where
  "enabled_in c d \<longleftrightarrow>
     \<not> dd_disabled d \<and> (case map_of (cg_providers c) (dd_provider d) of None \<Rightarrow> False | Some p \<Rightarrow> \<not> pd_disabled p)"

lemma provider_known:
  assumes "references_exist c" "(base, m) \<in> set (cg_models c)" "d \<in> set (md_deployments m)"
  obtains p where "map_of (cg_providers c) (dd_provider d) = Some p"
  using assms by (fastforce simp: references_exist_def list_all_iff)

lemma enabled_pure:
  assumes "references_exist c" "(base, m) \<in> set (cg_models c)" "d \<in> set (md_deployments m)"
  shows "deployment_enabled c d = Inr (enabled_in c d)"
  by (rule provider_known [OF assms]) (simp add: deployment_enabled_def enabled_in_def subscript_def)

lemma usable_pure:
  assumes "references_exist c" "(base, m) \<in> set (cg_models c)" "d \<in> set (md_deployments m)"
  shows "deployment_usable rx c allowed b d = Inr (enabled_in c d \<and> deployment_allowed rx b d allowed)"
  using enabled_pure [OF assms] by (simp add: deployment_usable_def)

lemma eligible_models_total: "references_exist c \<Longrightarrow> \<exists>bs. eligible_models rx c allowed = Inr bs"
proof -
  assume refs: "references_exist c"
  have "filter_of (\<lambda>e. if md_disabled (snd e) then Inr False
        else any_of (deployment_usable rx c allowed (fst e)) (md_deployments (snd e))) (cg_models c) =
      Inr (filter (\<lambda>e. \<not> md_disabled (snd e) \<and>
        list_ex (\<lambda>d. enabled_in c d \<and> deployment_allowed rx (fst e) d allowed) (md_deployments (snd e))) (cg_models c))"
  proof (rule filter_of_pure)
    fix e assume "e \<in> set (cg_models c)"
    then have e: "(fst e, snd e) \<in> set (cg_models c)" by simp
    have "any_of (deployment_usable rx c allowed (fst e)) (md_deployments (snd e)) =
        Inr (list_ex (\<lambda>d. enabled_in c d \<and> deployment_allowed rx (fst e) d allowed) (md_deployments (snd e)))"
      by (rule any_of_pure) (rule usable_pure [OF refs e])
    then show "(if md_disabled (snd e) then Inr False
        else any_of (deployment_usable rx c allowed (fst e)) (md_deployments (snd e))) =
      Inr (\<not> md_disabled (snd e) \<and>
        list_ex (\<lambda>d. enabled_in c d \<and> deployment_allowed rx (fst e) d allowed) (md_deployments (snd e)))"
      by simp
  qed
  then show ?thesis by (simp add: eligible_models_def)
qed

definition raises_no_key :: "'a resolution \<Rightarrow> bool" where
  "raises_no_key r \<longleftrightarrow> (case r of Inl e \<Rightarrow> \<not> is_key_error e | Inr _ \<Rightarrow> True)"

lemma no_key_simps [simp]: "raises_no_key (Inr x)" "raises_no_key (Inl e) \<longleftrightarrow> \<not> is_key_error e"
  by (simp_all add: raises_no_key_def)

lemma no_key_then: "raises_no_key r \<Longrightarrow> (\<And>x. r = Inr x \<Longrightarrow> raises_no_key (f x)) \<Longrightarrow> raises_no_key (and_then r f)"
  by (cases r) simp_all

lemma canonicalize_no_key: "references_exist c \<Longrightarrow> raises_no_key (canonicalize rx c allowed e)"
  using eligible_models_total [of c rx allowed] by (auto simp: canonicalize_def)

lemma expression_bases_no_key: "references_exist c \<Longrightarrow> raises_no_key (expression_bases rx c allowed e)"
proof -
  assume refs: "references_exist c"
  obtain bs where "eligible_models rx c allowed = Inr bs" using eligible_models_total [OF refs] by blast
  then have "\<exists>rs. eligible_roles rx c allowed = Inr rs" by (simp add: eligible_roles_def)
  then show ?thesis
    using canonicalize_no_key [OF refs]
    by (auto simp: expression_bases_def role_error_def intro!: no_key_then split: option.split)
qed

section \<open>The choice among the deployments of one base\<close>

text \<open>The usable deployments with the requested level first, as ordinary lists.\<close>

definition level_encoded :: "catalog \<Rightarrow> string \<Rightarrow> deployment_definition \<Rightarrow> bool" where
  "level_encoded c l d \<longleftrightarrow>
     (case map_of (cg_providers c) (dd_provider d) of None \<Rightarrow> False | Some p \<Rightarrow> supports_thinking p d l)"

definition usable_deployments :: "regex \<Rightarrow> catalog \<Rightarrow> string list \<Rightarrow> string \<Rightarrow> model_definition \<Rightarrow> deployment_definition list" where
  "usable_deployments rx c allowed base m =
     filter (\<lambda>d. deployment_allowed rx base d allowed) (filter (enabled_in c) (md_deployments m))"

definition ordered_deployments :: "catalog \<Rightarrow> string option \<Rightarrow> deployment_definition list \<Rightarrow> deployment_definition list" where
  "ordered_deployments c level ds =
     (case level of None \<Rightarrow> ds | Some l \<Rightarrow> filter (level_encoded c l) ds @ filter (\<lambda>d. \<not> level_encoded c l d) ds)"

definition role_of_expression :: "catalog \<Rightarrow> string \<Rightarrow> role_definition option" where
  "role_of_expression c e = (if take 1 e = ''@'' then map_of (cg_roles c) (drop 1 e) else None)"

definition requested_level :: "catalog \<Rightarrow> string \<Rightarrow> string option \<Rightarrow> string option" where
  "requested_level c e override = (if override \<noteq> None then override else map_option rl_thinking (role_of_expression c e))"

lemma preferred_pure:
  assumes refs: "references_exist c" and m: "(base, m) \<in> set (cg_models c)" and ds: "set ds \<subseteq> set (md_deployments m)"
  shows "preferred_order c level ds = Inr (ordered_deployments c level ds)"
proof (cases level)
  case (Some l)
  have "sort_flagged (\<lambda>d. and_then (subscript (cg_providers c) (dd_provider d)) (\<lambda>p. Inr (supports_thinking p d l))) ds =
      Inr (filter (level_encoded c l) ds, filter (\<lambda>d. \<not> level_encoded c l d) ds)"
  proof (rule sort_flagged_pure)
    fix d assume "d \<in> set ds"
    with ds have "d \<in> set (md_deployments m)" by blast
    with refs m obtain p where "map_of (cg_providers c) (dd_provider d) = Some p" by (rule provider_known)
    then show "and_then (subscript (cg_providers c) (dd_provider d)) (\<lambda>p. Inr (supports_thinking p d l)) = Inr (level_encoded c l d)"
      by (simp add: subscript_def level_encoded_def)
  qed
  with Some show ?thesis by (simp add: preferred_order_def ordered_deployments_def)
qed (simp add: preferred_order_def ordered_deployments_def)

definition accepts :: "(resolved_model \<Rightarrow> bool) option \<Rightarrow> resolved_model \<Rightarrow> bool" where
  "accepts flt r = (case flt of None \<Rightarrow> True | Some f \<Rightarrow> f r)"

definition model_at ::
  "catalog_snapshot \<Rightarrow> string \<Rightarrow> model_definition \<Rightarrow> string option \<Rightarrow> deployment_definition \<Rightarrow> resolved_model" where
  "model_at sn base m thinking d =
     \<lparr>rz_base_model = base, rz_definition = m, rz_deployment = d,
      rz_provider = the (map_of (cg_providers (sn_catalog sn)) (dd_provider d)),
      rz_catalog_revision = sn_revision sn, rz_thinking = thinking\<rparr>"

lemma first_accepted_pure:
  assumes refs: "references_exist (sn_catalog sn)" and m: "(base, m) \<in> set (cg_models (sn_catalog sn))"
    and ds: "set ds \<subseteq> set (md_deployments m)"
  shows "first_accepted sn base m thinking flt ds =
    Inr (map_option (model_at sn base m thinking) (find (\<lambda>d. accepts flt (model_at sn base m thinking d)) ds))"
  using ds
proof (induction ds)
  case (Cons d ds)
  from Cons.prems have "d \<in> set (md_deployments m)" by simp
  with refs m obtain p where "map_of (cg_providers (sn_catalog sn)) (dd_provider d) = Some p" by (rule provider_known)
  then have "resolved_of sn base m d thinking = Inr (model_at sn base m thinking d)"
    by (simp add: resolved_of_def subscript_def model_at_def)
  with Cons show ?case by (simp add: accepts_def split: option.split)
qed simp

text \<open>One base, without the errors of lookups.\<close>

lemma resolve_base_pure:
  assumes refs: "references_exist (sn_catalog sn)" and m: "map_of (cg_models (sn_catalog sn)) base = Some m"
  shows "resolve_base rx sn e allowed flt override base = Inr (
     let c = sn_catalog sn; us = usable_deployments rx c allowed base m;
         th = map_option rl_thinking (role_of_expression c e)
     in if md_disabled m then Inl (Model_Disabled base)
        else if filter (enabled_in c) (md_deployments m) = [] then Inl (All_Deployments_Disabled base)
        else if us = [] then Inl (Allowlist_Excluded base)
        else case find (\<lambda>d. accepts flt (model_at sn base m th d)) (ordered_deployments c (requested_level c e override) us) of
          None \<Rightarrow> Inl (No_Compatible_Deployment base) | Some d \<Rightarrow> Inr (model_at sn base m th d))"
proof -
  let ?c = "sn_catalog sn" and ?us = "usable_deployments rx (sn_catalog sn) allowed base m"
  note mem = map_of_SomeD [OF m]
  have en: "filter_of (deployment_enabled ?c) (md_deployments m) = Inr (filter (enabled_in ?c) (md_deployments m))"
    by (rule filter_of_pure) (rule enabled_pure [OF refs mem])
  have sub: "set ?us \<subseteq> set (md_deployments m)" by (auto simp: usable_deployments_def)
  have osub: "set (ordered_deployments ?c l ?us) \<subseteq> set (md_deployments m)" for l
    using sub by (auto simp: ordered_deployments_def split: option.splits)
  have role: "(if take 1 e = ''@'' then map_of (cg_roles ?c) (drop 1 e) else None) = role_of_expression ?c e"
    by (simp add: role_of_expression_def)
  have level: "(if override \<noteq> None then override else map_option rl_thinking (role_of_expression ?c e)) =
      requested_level ?c e override"
    by (simp add: requested_level_def)
  show ?thesis
    unfolding resolve_base_def Let_def role level m option.case en then_simps
      usable_deployments_def [symmetric] preferred_pure [OF refs mem sub] first_accepted_pure [OF refs mem osub]
    by (auto split: option.split)
qed

section \<open>Resolution\<close>

lemma expression_bases_single: "expression_bases rx c allowed e = Inr bs \<Longrightarrow> \<exists>b. bs = [b]"
  by (auto simp: expression_bases_def then_Inr split: if_splits option.splits)

lemma resolve_single:
  "expression_bases rx (sn_catalog sn) allowed e = Inr bs \<Longrightarrow>
    \<exists>b. bs = [b] \<and> resolve rx sn allowed flt override e =
      and_then (resolve_base rx sn e allowed flt override b) (\<lambda>x. case x of Inr r \<Rightarrow> Inr r | Inl err \<Rightarrow> Inl err)"
  using expression_bases_single [of rx "sn_catalog sn" allowed e bs] by (auto simp: resolve_def)

lemma checked_catalog:
  assumes "check_catalog netloc raw = Some c"
  shows "catalog_ok c" "references_exist c" "list_all (\<lambda>e. role_ok (snd e)) (cg_roles c)"
proof -
  show "catalog_ok c" using check_catalog_roundtrip [OF assms] ..
  then show "references_exist c" by (simp add: catalog_ok_def)
  show "list_all (\<lambda>e. role_ok (snd e)) (cg_roles c)"
    using assms by (auto simp: check_catalog_def Let_def split: if_splits option.splits)
qed

lemma find_least: "find p xs = Some x \<Longrightarrow> x \<in> set xs \<and> p x"
  by (induction xs) (auto split: if_splits)

lemma resolve_result:
  assumes refs: "references_exist (sn_catalog sn)" and r: "resolve rx sn allowed flt override e = Inr r"
  obtains base m d where "expression_bases rx (sn_catalog sn) allowed e = Inr [base]"
    "map_of (cg_models (sn_catalog sn)) base = Some m" "\<not> md_disabled m"
    "find (\<lambda>d. accepts flt (model_at sn base m (map_option rl_thinking (role_of_expression (sn_catalog sn) e)) d))
       (ordered_deployments (sn_catalog sn) (requested_level (sn_catalog sn) e override)
         (usable_deployments rx (sn_catalog sn) allowed base m)) = Some d"
    "r = model_at sn base m (map_option rl_thinking (role_of_expression (sn_catalog sn) e)) d"
proof -
  from r obtain bs where bs: "expression_bases rx (sn_catalog sn) allowed e = Inr bs"
    by (auto simp: resolve_def then_Inr)
  from resolve_single [OF bs, of flt override] obtain base where base: "bs = [base]"
    and res: "and_then (resolve_base rx sn e allowed flt override base) (\<lambda>x. case x of Inr r \<Rightarrow> Inr r | Inl err \<Rightarrow> Inl err) = Inr r"
    using r by auto
  from res have rb: "resolve_base rx sn e allowed flt override base = Inr (Inr r)"
  proof (cases "resolve_base rx sn e allowed flt override base")
    case (Inr x)
    with res show ?thesis by (cases x) simp_all
  qed simp
  obtain m where m: "map_of (cg_models (sn_catalog sn)) base = Some m"
    using rb by (cases "map_of (cg_models (sn_catalog sn)) base") (simp_all add: resolve_base_def Let_def)
  show ?thesis
    using rb bs base m that by (auto simp: resolve_base_pure [OF refs m] Let_def split: if_splits option.splits)
qed

text \<open>
  On a validated catalog, resolving a model expression never fails with a lookup error: every
  failure is one of the resolution errors the caller handles, whatever the expression, the allowlist,
  the compatibility test and the thinking override.
\<close>

theorem resolve_raises_no_key:
  assumes "check_catalog netloc raw = Some (sn_catalog sn)"
  shows "raises_no_key (resolve rx sn allowed flt override e)"
proof -
  note refs = checked_catalog(2) [OF assms]
  show ?thesis
  proof (cases "expression_bases rx (sn_catalog sn) allowed e")
    case (Inl err)
    with expression_bases_no_key [OF refs, of rx allowed e] show ?thesis by (simp add: resolve_def)
  next
    case (Inr bs)
    from resolve_single [OF this, of flt override] obtain base where
      res: "resolve rx sn allowed flt override e =
        and_then (resolve_base rx sn e allowed flt override base) (\<lambda>x. case x of Inr r \<Rightarrow> Inr r | Inl err \<Rightarrow> Inl err)"
      by blast
    show ?thesis
    proof (cases "map_of (cg_models (sn_catalog sn)) base")
      case None
      then show ?thesis by (simp add: res resolve_base_def Let_def)
    next
      case (Some m)
      show ?thesis
        unfolding res resolve_base_pure [OF refs Some] Let_def
        by (simp split: option.split)
    qed
  qed
qed

lemma ordered_prefers:
  assumes "find p (ordered_deployments c (Some l) ds) = Some d" "d' \<in> set ds" "p d'" "level_encoded c l d'"
  shows "level_encoded c l d"
proof -
  have "find p (filter (level_encoded c l) ds) \<noteq> None"
    using assms(2-4) by (auto simp: find_None_iff)
  then obtain x where x: "find p (filter (level_encoded c l) ds) = Some x" by blast
  have "find p (xs @ ys) = Some y" if "find p xs = Some y" for xs ys y
    using that by (induction xs) auto
  from this [OF x] have "d = x" using assms(1) by (simp add: ordered_deployments_def)
  with find_least [OF x] show ?thesis by simp
qed

lemma set_ordered [simp]: "set (ordered_deployments c level ds) = set ds"
  by (auto simp: ordered_deployments_def split: option.split)

lemma find_least_ordered:
  "find p (ordered_deployments c level ds) = Some d \<Longrightarrow> d \<in> set ds \<and> p d"
  using find_least [of p "ordered_deployments c level ds" d] by simp

lemma model_at_simps [simp]:
  "rz_base_model (model_at sn base m th d) = base" "rz_definition (model_at sn base m th d) = m"
  "rz_deployment (model_at sn base m th d) = d" "rz_thinking (model_at sn base m th d) = th"
  "rz_catalog_revision (model_at sn base m th d) = sn_revision sn"
  "rz_provider (model_at sn base m th d) = the (map_of (cg_providers (sn_catalog sn)) (dd_provider d))"
  by (simp_all add: model_at_def)

text \<open>
  C22. A resolved deployment is enabled and permitted, passes the compatibility test, and a deployment
  that cannot encode the requested level is chosen only when no usable compatible deployment of the
  model encodes it.
\<close>

theorem resolve_prefers_exact:
  assumes "check_catalog netloc raw = Some (sn_catalog sn)" "resolve rx sn allowed flt override e = Inr r"
    "c = sn_catalog sn" "us = usable_deployments rx c allowed (rz_base_model r) (rz_definition r)"
  shows "rz_deployment r \<in> set us \<and> accepts flt r \<and>
    (\<forall>l. requested_level c e override = Some l \<and>
       list_ex (\<lambda>d. level_encoded c l d \<and> accepts flt (model_at sn (rz_base_model r) (rz_definition r) (rz_thinking r) d)) us \<longrightarrow>
       level_encoded c l (rz_deployment r))"
proof (rule resolve_result [OF checked_catalog(2) [OF assms(1)] assms(2)])
  fix base m d
  let ?th = "map_option rl_thinking (role_of_expression (sn_catalog sn) e)"
  assume found: "find (\<lambda>d. accepts flt (model_at sn base m ?th d))
      (ordered_deployments (sn_catalog sn) (requested_level (sn_catalog sn) e override)
        (usable_deployments rx (sn_catalog sn) allowed base m)) = Some d"
    and r: "r = model_at sn base m ?th d"
  have pref: "level_encoded c l d"
    if "requested_level c e override = Some l"
      "list_ex (\<lambda>d. level_encoded c l d \<and> accepts flt (model_at sn base m ?th d)) us" for l
  proof -
    from that(2) obtain d' where d': "d' \<in> set us" "level_encoded c l d'" "accepts flt (model_at sn base m ?th d')"
      by (auto simp: list_ex_iff)
    show ?thesis
      using ordered_prefers [OF found [unfolded assms(3) [symmetric] that(1)], of d'] d' by (simp add: assms(3,4) r)
  qed
  show ?thesis using find_least_ordered [OF found] pref by (auto simp: assms(3,4) r)
qed

lemma find_only:
  "d \<in> set xs \<Longrightarrow> P d \<Longrightarrow> \<forall>x \<in> set xs. P x \<longrightarrow> x = d \<Longrightarrow> find P xs = Some d"
proof (induction xs)
  case (Cons x xs)
  show ?case
  proof (cases "P x")
    case True
    with Cons.prems(3) have "x = d" by (meson list.set_intros(1))
    with True show ?thesis by simp
  next
    case False
    with Cons.prems(1,2) have "d \<in> set xs" by auto
    moreover have "\<forall>y \<in> set xs. P y \<longrightarrow> y = d" using Cons.prems(3) by (meson list.set_intros(2))
    ultimately have "find P xs = Some d" by (rule Cons.IH [OF _ Cons.prems(2)])
    with False show ?thesis by simp
  qed
qed simp

lemma role_level_known:
  assumes "list_all (\<lambda>e. role_ok (snd e)) (cg_roles c)" "role_of_expression c e = Some r"
  shows "thinking_level_is_known (rl_thinking r)"
  using assms by (auto simp: role_of_expression_def list_all_iff role_ok_def dest!: map_of_SomeD split: if_splits)

text \<open>
  C21. The identity committed for a resolved model resolves, against the same catalog and allowlist, to
  the same model: storing a selection and reading it back never picks another deployment.
\<close>

theorem resolve_committed_roundtrip:
  assumes "check_catalog netloc raw = Some (sn_catalog sn)" "resolve rx sn allowed flt override e = Inr r"
  shows "resolve_committed rx sn allowed (identity_of r) = Inr r"
proof (rule resolve_result [OF checked_catalog(2) [OF assms(1)] assms(2)])
  fix base m d
  let ?th = "map_option rl_thinking (role_of_expression (sn_catalog sn) e)"
  assume m: "map_of (cg_models (sn_catalog sn)) base = Some m" and on: "\<not> md_disabled m"
    and found: "find (\<lambda>d. accepts flt (model_at sn base m ?th d))
      (ordered_deployments (sn_catalog sn) (requested_level (sn_catalog sn) e override)
        (usable_deployments rx (sn_catalog sn) allowed base m)) = Some d"
    and r: "r = model_at sn base m ?th d"
  from find_least_ordered [OF found] have d: "d \<in> set (md_deployments m)" "enabled_in (sn_catalog sn) d"
    "deployment_allowed rx base d allowed" by (auto simp: usable_deployments_def)
  from d(2) obtain p where p: "map_of (cg_providers (sn_catalog sn)) (dd_provider d) = Some p" "\<not> pd_disabled p"
    "\<not> dd_disabled d" by (auto simp: enabled_in_def split: option.splits)
  have "inj_on dd_provider (set (md_deployments m))"
    using checked_catalog(1) [OF assms(1)] map_of_SomeD [OF m] by (auto simp: catalog_ok_def list_all_iff distinct_map)
  then have "find (\<lambda>x. dd_provider x = dd_provider d \<and> dd_name x = dd_name d) (md_deployments m) = Some d"
    by (intro find_only [OF d(1)] ballI impI) (auto dest: inj_onD [OF _ _ _ d(1)])
  moreover have "\<not> (case ?th of None \<Rightarrow> False | Some t \<Rightarrow> \<not> thinking_level_is_known t)"
    using role_level_known [OF checked_catalog(3) [OF assms(1)], of e]
    by (cases "role_of_expression (sn_catalog sn) e") simp_all
  moreover have "identity_of r =
      \<lparr>ci_base_model = base, ci_provider = dd_provider d, ci_wire_name = dd_name d,
       ci_catalog_revision = sn_revision sn, ci_thinking = ?th\<rparr>"
    by (simp add: r identity_of_def)
  ultimately show ?thesis
    using on p d(3) by (simp add: resolve_committed_def m r model_at_def del: not_None_eq split del: option.split)
qed

section \<open>A sample catalog\<close>

text \<open>Two deployments of one model; only the second encodes the level of the preset.\<close>

definition leveled_provider :: provider_definition where
  "leveled_provider =
     \<lparr>pd_api_base = ''https://a.example'', pd_api_key_env_var = [], pd_api_style = Openai, pd_backend = ''generic'',
      pd_reasoning_field_name = ''reasoning_content'', pd_emits_finish_reason = True,
      pd_supports_tool_result_images = True, pd_extra_headers = [], pd_disabled = False\<rparr>"

definition leveled_deployment :: "string \<Rightarrow> string \<Rightarrow> deployment_definition" where
  "leveled_deployment p level =
     \<lparr>dd_provider = p, dd_name = ''wire'', dd_prices = \<lparr>px_input = None, px_output = None, px_cached_input = None\<rparr>,
      dd_supports_images = False, dd_supported_levels = Some [level], dd_auto_compact_threshold = None, dd_disabled = False\<rparr>"

definition leveled_catalog :: catalog where
  "leveled_catalog =
     \<lparr>cg_providers = [(''p1'', leveled_provider), (''p2'', leveled_provider)],
      cg_models = [(''m'', \<lparr>md_thinking = ''medium'', md_temperature = None,
        md_deployments = [leveled_deployment ''p1'' ''low'', leveled_deployment ''p2'' ''high''], md_disabled = False\<rparr>)],
      cg_roles = [(''w'', \<lparr>rl_description = [], rl_model = ''m'', rl_thinking = ''high''\<rparr>)]\<rparr>"

definition leveled_snapshot :: catalog_snapshot where
  "leveled_snapshot =
     \<lparr>sn_catalog = leveled_catalog, sn_revision = ''r'', sn_overlaid_providers = {}, sn_dispatch_diagnostics = []\<rparr>"

definition leveled_choice :: resolved_model where
  "leveled_choice =
     model_at leveled_snapshot ''m'' (snd (hd (cg_models leveled_catalog))) (Some ''high'') (leveled_deployment ''p2'' ''high'')"

lemma leveled_checks: "check_catalog (\<lambda>_. True) leveled_catalog = Some (sn_catalog leveled_snapshot)"
  by code_simp

lemma leveled_resolves: "resolve (\<lambda>_ _. None) leveled_snapshot [] None None ''@w'' = Inr leveled_choice"
  by code_simp

theorem resolve_raises_no_key_witness: "raises_no_key (resolve (\<lambda>_ _. None) leveled_snapshot [] None None ''unknown'')"
  by (rule resolve_raises_no_key [OF leveled_checks])

theorem resolve_prefers_exact_witness:
  "level_encoded leveled_catalog ''high'' (rz_deployment leveled_choice) \<and>
   requested_level leveled_catalog ''@w'' None = Some ''high''"
proof -
  let ?us = "usable_deployments (\<lambda>_ _. None) leveled_catalog [] ''m'' (rz_definition leveled_choice)"
  have base: "rz_base_model leveled_choice = ''m''" "rz_thinking leveled_choice = Some ''high''" "leveled_catalog = sn_catalog leveled_snapshot"
    by (simp_all add: leveled_choice_def leveled_snapshot_def)
  have asked: "requested_level leveled_catalog ''@w'' None = Some ''high''" by code_simp
  have encoded: "list_ex (\<lambda>d. level_encoded leveled_catalog ''high'' d \<and>
      accepts None (model_at leveled_snapshot ''m'' (rz_definition leveled_choice) (Some ''high'') d)) ?us"
    unfolding accepts_def by code_simp
  show ?thesis
    using resolve_prefers_exact [OF leveled_checks leveled_resolves base(3) refl] asked encoded unfolding base by blast
qed

theorem resolve_committed_roundtrip_witness:
  "resolve_committed (\<lambda>_ _. None) leveled_snapshot [] (identity_of leveled_choice) = Inr leveled_choice \<and>
   dd_provider (rz_deployment leveled_choice) = ''p2''"
  using resolve_committed_roundtrip [OF leveled_checks leveled_resolves] by (simp add: leveled_choice_def leveled_deployment_def)

end
