(* ===== verification/Root_Recovery.thy ===== *)
theory Root_Recovery
  imports Eligibility Envelope Validators Message_List Recovery_Controller
begin

text \<open>
  The gate of automatic root-turn recovery (\<open>RootRecoveryGate\<close> of \<open>app_server/_root_recovery.py\<close>).
  A method runs without interruption up to the delivery of its notice; what it does after the
  delivery, while other calls may have run, is the second part of its answer: the episode that it then
  ends.  The staged notices are kept in their order; whether staging one yields an update to deliver,
  the configuration, the view of the session, the availability and the clock are the environment's
  answers.  The text of a message is not modelled.
\<close>

section \<open>Classes\<close>

definition projection_capacity :: nat where "projection_capacity = 64"
definition episode_capacity :: nat where "episode_capacity = 16"
definition terminal_turn_capacity :: nat where "terminal_turn_capacity = 64"

definition transient_failure_classes :: "failure_class set" where
  "transient_failure_classes =
     {Provider_Stall, Provider_Overloaded, Provider_Rate_Limit, Launch_Failure, Class_Incomplete_Stream, Class_Empty_Response}"

definition root_eligible_class :: "root_turn_failure \<Rightarrow> eligible_class option" where
  "root_eligible_class f =
     (if rt_class f = Launch_Failure then Some El_Launch_Failure else Option.bind (rt_cause f) cause_to_eligible_class)"

fun eligible_class_value :: "eligible_class \<Rightarrow> string" where
  "eligible_class_value El_Connection = ''connection''"
| "eligible_class_value El_Timeout = ''timeout''"
| "eligible_class_value El_Server_Error = ''server_error''"
| "eligible_class_value El_Overload = ''overload''"
| "eligible_class_value El_Rate_Limit = ''rate_limit''"
| "eligible_class_value El_Launch_Failure = ''launch_failure''"
| "eligible_class_value El_Incomplete_Stream = ''incomplete_stream''"
| "eligible_class_value El_Empty_Response = ''empty_response''"

definition affected_deployment :: "root_turn_failure \<Rightarrow> string option" where
  "affected_deployment f =
     (case rt_provider f of
        Some p \<Rightarrow> Some (case rt_wire_name f of Some w \<Rightarrow> p @ ''/'' @ w | None \<Rightarrow> p)
      | None \<Rightarrow> rt_base_model f)"

section \<open>The state\<close>

record root_session_view =
  rvw_session_id :: string
  rvw_active_turn :: "string option"
  rvw_queued_work :: bool
  rvw_open_callbacks :: bool
  rvw_stop_requested :: bool
  rvw_handoff_pending :: bool
  rvw_lifecycle_reserved :: bool
  rvw_closing :: bool

record root_config =
  rcg_enabled :: bool
  rcg_auto_max :: int
  rcg_deadline :: rat
  rcg_cooldowns :: "rat list"
  rcg_jitter :: rat
  rcg_recheck :: rat
  rcg_eligible :: "eligible_class list"

record root_episode =
  rte_id :: string
  rte_initial :: string
  rte_started :: rat
  rte_deadline :: rat
  rte_auto_max :: int
  rte_cooldowns :: "rat list"
  rte_jitter :: rat
  rte_recheck :: rat
  rte_admitted :: int
  rte_pending_key :: "string option"
  rte_pending_turn :: "string option"
  rte_pending_attempt :: int
  rte_pending_delay :: rat
  rte_pending_generation :: int
  rte_successor :: "string option"
  rte_in_flight :: bool
  rte_awaiting :: bool
  rte_keys :: "(string \<times> int) list"
  rte_emitted :: "string list"

datatype root_milestone = Rm_Scheduled | Rm_Started | Rm_Recovered | Rm_Exhausted | Rm_Cancelled

fun milestone_value :: "root_milestone \<Rightarrow> string" where
  "milestone_value Rm_Scheduled = ''scheduled''"
| "milestone_value Rm_Started = ''started''"
| "milestone_value Rm_Recovered = ''recovered''"
| "milestone_value Rm_Exhausted = ''exhausted''"
| "milestone_value Rm_Cancelled = ''cancelled''"

record root_notice =
  ntx_milestone :: root_milestone
  ntx_episode :: string
  ntx_attempt :: int
  ntx_limit :: int
  ntx_reason :: string
  ntx_delay :: rat
  ntx_successor :: "string option"
  ntx_predecessor :: "string option"
  ntx_class :: "string option"
  ntx_deployment :: "string option"

record root_gate =
  gt_projections :: "(string \<times> root_turn_failure) list"
  gt_episodes :: "(string \<times> root_episode) list"
  gt_terminal :: "(string \<times> string) list"
  gt_staged :: "root_notice list"

definition new_root_gate :: root_gate where
  "new_root_gate = \<lparr>gt_projections = [], gt_episodes = [], gt_terminal = [], gt_staged = []\<rparr>"

text \<open>
  The answers of the collaborators during one section: \<open>None\<close> for the transcript is a missing or
  failing collaborator, \<open>None\<close> for the availability a read that raised; the \<open>n\<close>-th reading of the
  clock is \<open>rev_clock n\<close>.
\<close>

record root_env =
  rev_config :: root_config
  rev_view :: root_session_view
  rev_availability :: "availability_view option"
  rev_transcript :: "message_list option"
  rev_clock :: "nat \<Rightarrow> rat"
  rev_draw :: rat
  rev_stages :: "root_notice \<Rightarrow> bool"

definition root_driven :: "root_episode \<Rightarrow> bool" where
  "root_driven e \<longleftrightarrow> rte_admitted e > 0 \<or> rte_pending_key e \<noteq> None \<or> rte_successor e \<noteq> None"

text \<open>An answer at once, or after the delivery of a notice and the end of an episode.\<close>

datatype 'a gate_answer = At_Once 'a | After_Delivery "string option" 'a

definition put_root_episode :: "root_episode \<Rightarrow> root_gate \<Rightarrow> root_gate" where
  "put_root_episode e g = g\<lparr>gt_episodes := dict_set (rte_id e) e (gt_episodes g)\<rparr>"

definition end_root_episode :: "string \<Rightarrow> root_gate \<Rightarrow> root_gate" where
  "end_root_episode i g = g\<lparr>gt_episodes := dict_pop i (gt_episodes g)\<rparr>"

definition newest :: "nat \<Rightarrow> 'a list \<Rightarrow> 'a list" where
  "newest n xs = drop (length xs - n) xs"

definition capture_terminal :: "root_turn_failure \<Rightarrow> root_gate \<Rightarrow> root_gate" where
  "capture_terminal f g =
     g\<lparr>gt_projections := newest projection_capacity (dict_set (rt_turn_id f) f (gt_projections g))\<rparr>"

definition invalidate_all :: "root_gate \<Rightarrow> root_gate" where
  "invalidate_all g = g\<lparr>gt_projections := [], gt_episodes := [], gt_terminal := []\<rparr>"

section \<open>Notices\<close>

definition notice_of :: "root_episode \<Rightarrow> root_milestone \<Rightarrow> int \<Rightarrow> root_notice" where
  "notice_of e m attempt =
     \<lparr>ntx_milestone = m, ntx_episode = rte_id e, ntx_attempt = attempt, ntx_limit = rte_auto_max e, ntx_reason = [],
      ntx_delay = 0, ntx_successor = None, ntx_predecessor = None, ntx_class = None, ntx_deployment = None\<rparr>"

definition notice_id :: "root_milestone \<Rightarrow> int \<Rightarrow> string" where
  "notice_id m attempt = milestone_value m @ '':'' @ show_int attempt"

text \<open>Once per milestone and attempt; the answer is whether there is an update to deliver.\<close>

definition stage_notice :: "root_env \<Rightarrow> root_episode \<Rightarrow> root_notice \<Rightarrow> root_gate \<Rightarrow> bool \<times> root_gate" where
  "stage_notice env e n g =
     (let i = notice_id (ntx_milestone n) (ntx_attempt n)
      in if i \<in> set (rte_emitted e) then (False, g)
         else (rev_stages env n,
               put_root_episode (e\<lparr>rte_emitted := rte_emitted e @ [i]\<rparr>) (g\<lparr>gt_staged := gt_staged g @ [n]\<rparr>)))"

text \<open>A notice, then the end of the episode, then the answer; without a delivery all in one section.\<close>

definition notify_and_end :: "root_env \<Rightarrow> root_episode \<Rightarrow> root_notice \<Rightarrow> 'a \<Rightarrow> root_gate \<Rightarrow> 'a gate_answer \<times> root_gate" where
  "notify_and_end env e n a g =
     (case stage_notice env e n g of
        (True, g) \<Rightarrow> (After_Delivery (Some (rte_id e)) a, g)
      | (False, g) \<Rightarrow> (At_Once a, end_root_episode (rte_id e) g))"

definition close_episode ::
  "root_env \<Rightarrow> root_milestone \<Rightarrow> root_episode \<Rightarrow> string \<Rightarrow> 'a \<Rightarrow> root_gate \<Rightarrow> 'a gate_answer \<times> root_gate" where
  "close_episode env m e reason a g =
     (if root_driven e
      then notify_and_end env e ((notice_of e m (max (rte_admitted e) (rte_pending_attempt e)))\<lparr>ntx_reason := reason\<rparr>) a g
      else (At_Once a, end_root_episode (rte_id e) g))"

abbreviation exhaust :: "root_env \<Rightarrow> root_episode \<Rightarrow> string \<Rightarrow> 'a \<Rightarrow> root_gate \<Rightarrow> 'a gate_answer \<times> root_gate" where
  "exhaust env \<equiv> close_episode env Rm_Exhausted"

abbreviation cancel_episode :: "root_env \<Rightarrow> root_episode \<Rightarrow> string \<Rightarrow> 'a \<Rightarrow> root_gate \<Rightarrow> 'a gate_answer \<times> root_gate" where
  "cancel_episode env \<equiv> close_episode env Rm_Cancelled"

definition linked_episode :: "string \<Rightarrow> root_gate \<Rightarrow> root_episode option" where
  "linked_episode turn g =
     find (\<lambda>e. Some turn \<in> {rte_successor e, rte_pending_turn e, Some (rte_initial e)}) (map snd (gt_episodes g))"

definition end_linked_episode :: "root_env \<Rightarrow> string \<Rightarrow> string \<Rightarrow> 'a \<Rightarrow> root_gate \<Rightarrow> 'a gate_answer \<times> root_gate" where
  "end_linked_episode env turn reason a g =
     (case linked_episode turn g of None \<Rightarrow> (At_Once a, g) | Some e \<Rightarrow> exhaust env e reason a g)"

section \<open>Checks\<close>

definition root_barrier :: "root_session_view \<Rightarrow> string option" where
  "root_barrier v =
     (if rvw_closing v then Some ''closing''
      else if rvw_open_callbacks v then Some ''open_callbacks''
      else if rvw_queued_work v then Some ''queued_work''
      else if rvw_stop_requested v then Some ''stop_requested''
      else if rvw_handoff_pending v then Some ''handoff_pending''
      else if rvw_lifecycle_reserved v then Some ''lifecycle_reserved'' else None)"

definition poisoned_transcript :: "root_env \<Rightarrow> bool" where
  "poisoned_transcript env \<longleftrightarrow>
     (case rev_transcript env of
        None \<Rightarrow> False
      | Some l \<Rightarrow> validate_transcript (ml_data l) {} True (live_archive_authority l) None \<noteq> [])"

definition live_availability :: "root_env \<Rightarrow> availability_view" where
  "live_availability env =
     (case rev_availability env of
        Some v \<Rightarrow> v
      | None \<Rightarrow> \<lparr>vs_available = True, vs_permanent = False, vs_endpoint_blocked = False, vs_probe_in_flight = False,
                 vs_next_check_delay = 0, vs_exclusions = []\<rparr>)"

text \<open>The clock was read once before.\<close>

definition root_delay :: "root_env \<Rightarrow> root_episode \<Rightarrow> root_turn_failure \<Rightarrow> availability_view \<Rightarrow> rat" where
  "root_delay env e f v =
     (let cooldowns = (if rte_cooldowns e = [] then [0] else rte_cooldowns e);
          backoff = cooldowns ! nat (min (rte_admitted e) (int (length cooldowns) - 1));
          retry_after = (case rt_retry_after f of None \<Rightarrow> 0 | Some s \<Rightarrow> max 0 (s - (rev_clock env 1 - rt_observed_at f)));
          base = max backoff retry_after;
          base = (if vs_available v then base else max base (vs_next_check_delay v))
      in jittered_backoff base (rte_jitter e) (rev_draw env))"

definition new_root_episode :: "root_config \<Rightarrow> root_turn_failure \<Rightarrow> root_episode" where
  "new_root_episode c f =
     (let started = rt_observed_at f - (case rt_elapsed f of None \<Rightarrow> 0 | Some s \<Rightarrow> s)
      in \<lparr>rte_id = ''root-auto-'' @ rt_turn_id f, rte_initial = rt_turn_id f, rte_started = started,
          rte_deadline = started + rcg_deadline c, rte_auto_max = rcg_auto_max c, rte_cooldowns = rcg_cooldowns c,
          rte_jitter = rcg_jitter c, rte_recheck = rcg_recheck c, rte_admitted = 0, rte_pending_key = None,
          rte_pending_turn = None, rte_pending_attempt = 0, rte_pending_delay = 0, rte_pending_generation = 0,
          rte_successor = None, rte_in_flight = False, rte_awaiting = False, rte_keys = [], rte_emitted = []\<rparr>)"

text \<open>The episode whose successor failed, or a new one.\<close>

definition root_episode_for :: "root_turn_failure \<Rightarrow> root_config \<Rightarrow> root_gate \<Rightarrow> root_episode \<times> root_gate" where
  "root_episode_for f c g =
     (case find (\<lambda>e. rte_successor e = Some (rt_turn_id f)) (map snd (gt_episodes g)) of
        Some e \<Rightarrow> (e, g)
      | None \<Rightarrow>
          let e = new_root_episode c f
          in (e, g\<lparr>gt_episodes := newest episode_capacity (dict_set (rte_id e) e (gt_episodes g))\<rparr>))"

section \<open>Scheduling\<close>

record schedule_params =
  sp_session :: string
  sp_turn :: string
  sp_generation :: int

datatype schedule_decision = Sd_Scheduled | Sd_Already | Sd_Declined

record schedule_response =
  srp_decision :: schedule_decision
  srp_reason :: string
  srp_episode :: "string option"
  srp_key :: "string option"
  srp_attempt :: int
  srp_limit :: int
  srp_delay :: rat
  srp_class :: "string option"
  srp_deployment :: "string option"

definition declined_schedule :: "string \<Rightarrow> root_episode option \<Rightarrow> string option \<Rightarrow> string \<Rightarrow> schedule_response" where
  "declined_schedule reason e cls detail =
     \<lparr>srp_decision = Sd_Declined, srp_reason = reason @ (if detail = [] then [] else '': '' @ detail),
      srp_episode = map_option rte_id e, srp_key = None, srp_attempt = 0,
      srp_limit = (case e of None \<Rightarrow> 0 | Some e \<Rightarrow> rte_auto_max e), srp_delay = 0, srp_class = cls, srp_deployment = None\<rparr>"

definition retry_key :: "root_episode \<Rightarrow> int \<Rightarrow> string" where
  "retry_key e attempt = ''root-auto-recovery:'' @ rte_id e @ '':'' @ show_int attempt"

text \<open>The checks of the failure and of the session, in the order of the code.\<close>

definition failure_decline :: "root_env \<Rightarrow> root_turn_failure \<Rightarrow> (string \<times> string option \<times> string) option" where
  "failure_decline env f =
     (if poisoned_transcript env then Some (''transcript_integrity'', None, [])
      else case (if rt_class f \<notin> transient_failure_classes \<or> \<not> rt_transient_confirmed f then None else root_eligible_class f) of
        None \<Rightarrow> Some (''not_eligible'', Some (class_value (rt_class f)), [])
      | Some k \<Rightarrow>
          if k \<notin> set (rcg_eligible (rev_config env)) then Some (''class_not_enabled'', Some (eligible_class_value k), [])
          else if rt_interaction_barrier f
          then Some (''interaction_barrier'', Some (eligible_class_value k), rt_barrier_detail f)
          else if \<not> rt_effects_settled f then Some (''effects_unsettled'', Some (eligible_class_value k), [])
          else map_option (\<lambda>b. (b, Some (eligible_class_value k), [])) (root_barrier (rev_view env)))"

text \<open>The bounds of the episode: why it is exhausted, or the delay of the next attempt.\<close>

definition episode_bounds :: "root_env \<Rightarrow> root_turn_failure \<Rightarrow> root_episode \<Rightarrow> string + rat" where
  "episode_bounds env f e =
     (if rte_auto_max e \<le> rte_admitted e then Inl ''budget_exhausted''
      else if rte_deadline e \<le> rev_clock env 0 then Inl ''deadline_exceeded''
      else if vs_permanent (live_availability env) then Inl ''permanent_incompatibility''
      else
        let delay = root_delay env e f (live_availability env)
        in if rte_deadline e - rev_clock env 0 < delay then Inl ''deadline_exceeded'' else Inr delay)"

definition arm_root_retry ::
  "root_env \<Rightarrow> schedule_params \<Rightarrow> root_turn_failure \<Rightarrow> root_episode \<Rightarrow> rat \<Rightarrow> root_gate \<Rightarrow>
     schedule_response gate_answer \<times> root_gate" where
  "arm_root_retry env p f e delay g =
     (let attempt = rte_admitted e + 1;
          key = retry_key e attempt;
          e = e\<lparr>rte_pending_key := Some key, rte_pending_turn := Some (sp_turn p), rte_pending_attempt := attempt,
                rte_pending_delay := delay, rte_pending_generation := sp_generation p\<rparr>;
          g = (put_root_episode e g)
                \<lparr>gt_terminal := newest terminal_turn_capacity (dict_set (sp_turn p) (rte_id e) (gt_terminal g))\<rparr>;
          cls = map_option eligible_class_value (root_eligible_class f);
          notice = (notice_of e Rm_Scheduled attempt)
                     \<lparr>ntx_class := cls, ntx_deployment := affected_deployment f, ntx_delay := delay\<rparr>;
          answer = \<lparr>srp_decision = Sd_Scheduled, srp_reason = [], srp_episode = Some (rte_id e), srp_key = Some key,
                    srp_attempt = attempt, srp_limit = rte_auto_max e, srp_delay = delay, srp_class = cls,
                    srp_deployment = affected_deployment f\<rparr>
      in case stage_notice env e notice g of
           (True, g) \<Rightarrow> (After_Delivery None answer, g)
         | (False, g) \<Rightarrow> (At_Once answer, g))"

definition schedule_failure ::
  "root_env \<Rightarrow> schedule_params \<Rightarrow> root_turn_failure \<Rightarrow> root_gate \<Rightarrow> schedule_response gate_answer \<times> root_gate" where
  "schedule_failure env p f g =
     (case failure_decline env f of
        Some (reason, cls, detail) \<Rightarrow> end_linked_episode env (rt_turn_id f) reason (declined_schedule reason None cls detail) g
      | None \<Rightarrow>
          (case root_episode_for f (rev_config env) g of (e, g) \<Rightarrow>
             (case episode_bounds env f e of
                Inl reason \<Rightarrow>
                  exhaust env e reason
                    (declined_schedule reason (Some e) (map_option eligible_class_value (root_eligible_class f)) []) g
              | Inr delay \<Rightarrow> arm_root_retry env p f e delay g)))"

definition schedule_root :: "root_env \<Rightarrow> schedule_params \<Rightarrow> root_gate \<Rightarrow> schedule_response gate_answer \<times> root_gate" where
  "schedule_root env p g =
     (if rvw_session_id (rev_view env) \<noteq> sp_session p
      then (At_Once (declined_schedule ''session_changed'' None None []), g)
      else if \<not> rcg_enabled (rev_config env) then (At_Once (declined_schedule ''disabled'' None None []), g)
      else case map_of (gt_terminal g) (sp_turn p) of
        Some i \<Rightarrow>
          (case map_of (gt_episodes g) i of
             Some e \<Rightarrow>
               if rte_pending_key e \<noteq> None
               then (At_Once \<lparr>srp_decision = Sd_Already, srp_reason = [], srp_episode = Some (rte_id e),
                       srp_key = rte_pending_key e, srp_attempt = rte_pending_attempt e, srp_limit = rte_auto_max e,
                       srp_delay = rte_pending_delay e, srp_class = None, srp_deployment = None\<rparr>, g)
               else (At_Once (declined_schedule ''episode_ended'' None None []), g)
           | None \<Rightarrow> (At_Once (declined_schedule ''episode_ended'' None None []), g))
      | None \<Rightarrow>
          (case map_of (gt_projections g) (sp_turn p) of
             None \<Rightarrow> (At_Once (declined_schedule ''no_typed_projection'' None None []), g)
           | Some f \<Rightarrow> schedule_failure env p f g))"

section \<open>Admission\<close>

record admit_params =
  amp_session :: string
  amp_episode :: string
  amp_key :: string
  amp_turn :: string
  amp_generation :: int

datatype admit_decision = Ad_Admitted | Ad_Already | Ad_Deferred | Ad_Declined

record admit_response =
  arp_decision :: admit_decision
  arp_reason :: string
  arp_attempt :: int
  arp_limit :: int
  arp_delay :: rat
  arp_turn :: "string option"
  arp_predecessor :: "string option"

definition declined_admit :: "string \<Rightarrow> admit_response" where
  "declined_admit reason =
     \<lparr>arp_decision = Ad_Declined, arp_reason = reason, arp_attempt = 0, arp_limit = 0, arp_delay = 0, arp_turn = None,
      arp_predecessor = None\<rparr>"

text \<open>Why an admission of the pending attempt is refused, with the milestone of the episode's end.\<close>

definition admit_refusal :: "root_env \<Rightarrow> admit_params \<Rightarrow> root_episode \<Rightarrow> (root_milestone \<times> string) option" where
  "admit_refusal env p e =
     (if amp_generation p \<noteq> rte_pending_generation e then Some (Rm_Cancelled, ''user_input'')
      else case root_barrier (rev_view env) of
        Some b \<Rightarrow> Some (Rm_Cancelled, b)
      | None \<Rightarrow>
          if rvw_active_turn (rev_view env) \<noteq> None then Some (Rm_Cancelled, ''turn_active'')
          else if rte_auto_max e \<le> rte_admitted e then Some (Rm_Exhausted, ''budget_exhausted'')
          else if rte_deadline e \<le> rev_clock env 0 then Some (Rm_Exhausted, ''deadline_exceeded'')
          else if vs_permanent (live_availability env) then Some (Rm_Exhausted, ''permanent_incompatibility'')
          else None)"

definition defer_delay :: "root_env \<Rightarrow> root_episode \<Rightarrow> rat" where
  "defer_delay env e =
     (let v = live_availability env; delay = vs_next_check_delay v
      in if vs_probe_in_flight v \<or> delay \<le> 0 then max delay (rte_recheck e) else delay)"

definition admit_pending ::
  "root_env \<Rightarrow> admit_params \<Rightarrow> root_episode \<Rightarrow> root_gate \<Rightarrow> admit_response gate_answer \<times> root_gate" where
  "admit_pending env p e g =
     (case admit_refusal env p e of
        Some (m, reason) \<Rightarrow> close_episode env m e reason (declined_admit reason) g
      | None \<Rightarrow>
          if \<not> vs_available (live_availability env) then
            (if rte_deadline e \<le> rev_clock env 0 + defer_delay env e
             then exhaust env e ''deadline_exceeded'' (declined_admit ''deadline_exceeded'') g
             else (At_Once \<lparr>arp_decision = Ad_Deferred, arp_reason = [], arp_attempt = rte_pending_attempt e,
                     arp_limit = rte_auto_max e, arp_delay = defer_delay env e, arp_turn = None, arp_predecessor = None\<rparr>, g))
          else
            (At_Once \<lparr>arp_decision = Ad_Admitted, arp_reason = [], arp_attempt = rte_pending_attempt e,
               arp_limit = rte_auto_max e, arp_delay = 0, arp_turn = None, arp_predecessor = Some (amp_turn p)\<rparr>,
             put_root_episode
               (e\<lparr>rte_admitted := rte_admitted e + 1, rte_keys := dict_set (amp_key p) (rte_pending_attempt e) (rte_keys e),
                  rte_awaiting := True\<rparr>) g))"

definition admit_root :: "root_env \<Rightarrow> admit_params \<Rightarrow> root_gate \<Rightarrow> admit_response gate_answer \<times> root_gate" where
  "admit_root env p g =
     (if rvw_session_id (rev_view env) \<noteq> amp_session p then (At_Once (declined_admit ''session_changed''), g)
      else case map_of (gt_episodes g) (amp_episode p) of
        None \<Rightarrow> (At_Once (declined_admit ''no_episode''), g)
      | Some e \<Rightarrow>
          if \<not> rcg_enabled (rev_config env) then
            (if rte_in_flight e then (At_Once (declined_admit ''disabled''), g)
             else cancel_episode env e ''disabled'' (declined_admit ''disabled'') g)
          else if poisoned_transcript env
          then cancel_episode env e ''transcript_integrity'' (declined_admit ''transcript_integrity'') g
          else case map_of (rte_keys e) (amp_key p) of
            Some attempt \<Rightarrow>
              (At_Once \<lparr>arp_decision = Ad_Already, arp_reason = [], arp_attempt = attempt, arp_limit = rte_auto_max e,
                 arp_delay = 0, arp_turn = (if rte_awaiting e then None else rte_successor e),
                 arp_predecessor = rte_pending_turn e\<rparr>, g)
          | None \<Rightarrow>
              if Some (amp_key p) \<noteq> rte_pending_key e \<or> Some (amp_turn p) \<noteq> rte_pending_turn e
              then (At_Once (declined_admit ''key_mismatch''), g)
              else admit_pending env p e g)"

section \<open>Cancellation and turns\<close>

definition cancel_root :: "root_env \<Rightarrow> string \<Rightarrow> string \<Rightarrow> string \<Rightarrow> root_gate \<Rightarrow> bool gate_answer \<times> root_gate" where
  "cancel_root env session i reason g =
     (if rvw_session_id (rev_view env) \<noteq> session then (At_Once False, g)
      else case map_of (gt_episodes g) i of
        None \<Rightarrow> (At_Once False, g)
      | Some e \<Rightarrow>
          if rte_in_flight e then (At_Once False, g)
          else cancel_episode env e (if reason = [] then ''cancelled_by_user'' else reason) True g)"

text \<open>The start of a continuation links it; the answer is the notices to deliver.\<close>

definition link_successor :: "root_env \<Rightarrow> string \<Rightarrow> string \<Rightarrow> root_episode \<Rightarrow> root_gate \<Rightarrow> root_notice list \<times> root_gate" where
  "link_successor env turn key e g =
     (if \<not> rte_awaiting e then ([], g)
      else
        let attempt = the (map_of (rte_keys e) key);
            e = e\<lparr>rte_awaiting := False, rte_successor := Some turn, rte_in_flight := True\<rparr>;
            n = (notice_of e Rm_Started attempt)\<lparr>ntx_successor := Some turn, ntx_predecessor := rte_pending_turn e\<rparr>
        in case stage_notice env e n (put_root_episode e g) of (update, g) \<Rightarrow> (if update then [n] else [], g))"

text \<open>Any other start takes over: every episode without a successor in flight is cancelled.\<close>

fun take_over :: "root_env \<Rightarrow> root_episode list \<Rightarrow> root_gate \<Rightarrow> root_notice list \<times> root_gate" where
  "take_over env [] g = ([], g)"
| "take_over env (e # es) g =
     (if rte_in_flight e then take_over env es g
      else
        let n = (notice_of e Rm_Cancelled (max (rte_admitted e) (rte_pending_attempt e)))\<lparr>ntx_reason := ''superseded_by_turn''\<rparr>
        in case stage_notice env e n g of (update, g) \<Rightarrow>
             (case take_over env es (end_root_episode (rte_id e) g) of (ns, g) \<Rightarrow> (if update then n # ns else ns, g)))"

definition turn_started :: "root_env \<Rightarrow> string \<Rightarrow> string option \<Rightarrow> root_gate \<Rightarrow> root_notice list \<times> root_gate" where
  "turn_started env turn key g =
     (case Option.bind key (\<lambda>k. find (\<lambda>e. map_of (rte_keys e) k \<noteq> None) (map snd (gt_episodes g))) of
        Some e \<Rightarrow> link_successor env turn (the key) e g
      | None \<Rightarrow> take_over env (map snd (gt_episodes g)) g)"

datatype turn_status = Turn_In_Progress | Turn_Completed | Turn_Failed | Turn_Interrupted

definition turn_finished :: "root_env \<Rightarrow> string \<Rightarrow> turn_status \<Rightarrow> root_gate \<Rightarrow> unit gate_answer \<times> root_gate" where
  "turn_finished env turn status g =
     (case find (\<lambda>e. rte_successor e = Some turn) (map snd (gt_episodes g)) of
        None \<Rightarrow> (At_Once (), g)
      | Some e \<Rightarrow>
          (case status of
             Turn_Completed \<Rightarrow>
               notify_and_end env e
                 ((notice_of e Rm_Recovered (max (rte_admitted e) 1))\<lparr>ntx_successor := Some turn, ntx_predecessor := rte_pending_turn e\<rparr>) () g
           | Turn_Interrupted \<Rightarrow>
               notify_and_end env e
                 ((notice_of e Rm_Cancelled (max (rte_admitted e) 1))\<lparr>ntx_reason := ''interrupted_by_user'', ntx_successor := Some turn\<rparr>) () g
           | _ \<Rightarrow> (At_Once (), put_root_episode (e\<lparr>rte_in_flight := False\<rparr>) g)))"

end
