(* ===== verification/Root_Recovery_Props.thy ===== *)
theory Root_Recovery_Props
  imports Root_Recovery Endpoint_Props Failure_Props
begin

text \<open>
  The gate of root recovery under every interleaving of its sections.  The machine keeps the gate, the
  episodes that calls waiting for a delivery will end, and the log of the scheduled and admitted
  answers, newest first.
\<close>

section \<open>The machine\<close>

datatype root_event = Rv_Scheduled string int int | Rv_Admitted string string

record root_machine =
  rmc_gate :: root_gate
  rmc_waiting :: "string list"
  rmc_log :: "root_event list"

text \<open>
  \<open>Rc_Delivered\<close>: the notice of a waiting call is delivered.  A waiting call may also be abandoned,
  which is no step at all.
\<close>

datatype root_call =
  Rc_Capture root_turn_failure | Rc_Invalidate | Rc_Schedule root_env schedule_params | Rc_Admit root_env admit_params
  | Rc_Cancel root_env string string string | Rc_Started root_env string "string option"
  | Rc_Finished root_env string turn_status | Rc_Delivered string

fun answer_of :: "'a gate_answer \<Rightarrow> 'a" where
  "answer_of (At_Once a) = a"
| "answer_of (After_Delivery i a) = a"

fun to_end :: "'a gate_answer \<Rightarrow> string list" where
  "to_end (After_Delivery (Some i) a) = [i]"
| "to_end _ = []"

definition scheduled_events :: "schedule_response \<Rightarrow> root_event list" where
  "scheduled_events r =
     (case (srp_decision r, srp_episode r) of
        (Sd_Scheduled, Some i) \<Rightarrow> [Rv_Scheduled i (srp_attempt r) (srp_limit r)] | _ \<Rightarrow> [])"

definition admitted_events :: "admit_params \<Rightarrow> admit_response \<Rightarrow> root_event list" where
  "admitted_events p r = (if arp_decision r = Ad_Admitted then [Rv_Admitted (amp_episode p) (amp_key p)] else [])"

definition after_section :: "('a \<Rightarrow> root_event list) \<Rightarrow> 'a gate_answer \<times> root_gate \<Rightarrow> root_machine \<Rightarrow> root_machine" where
  "after_section evs x m =
     \<lparr>rmc_gate = snd x, rmc_waiting = rmc_waiting m @ to_end (fst x), rmc_log = evs (answer_of (fst x)) @ rmc_log m\<rparr>"

fun root_step :: "root_call \<Rightarrow> root_machine \<Rightarrow> root_machine" where
  "root_step (Rc_Capture f) m = m\<lparr>rmc_gate := capture_terminal f (rmc_gate m)\<rparr>"
| "root_step Rc_Invalidate m = m\<lparr>rmc_gate := invalidate_all (rmc_gate m)\<rparr>"
| "root_step (Rc_Schedule env p) m = after_section scheduled_events (schedule_root env p (rmc_gate m)) m"
| "root_step (Rc_Admit env p) m = after_section (admitted_events p) (admit_root env p (rmc_gate m)) m"
| "root_step (Rc_Cancel env s i r) m = after_section (\<lambda>_. []) (cancel_root env s i r (rmc_gate m)) m"
| "root_step (Rc_Started env t k) m = m\<lparr>rmc_gate := snd (turn_started env t k (rmc_gate m))\<rparr>"
| "root_step (Rc_Finished env t s) m = after_section (\<lambda>_. []) (turn_finished env t s (rmc_gate m)) m"
| "root_step (Rc_Delivered i) m =
     (if i \<in> set (rmc_waiting m)
      then m\<lparr>rmc_gate := end_root_episode i (rmc_gate m), rmc_waiting := remove1 i (rmc_waiting m)\<rparr> else m)"

definition new_root_machine :: root_machine where
  "new_root_machine = \<lparr>rmc_gate = new_root_gate, rmc_waiting = [], rmc_log = []\<rparr>"

definition root_runs :: "root_call list \<Rightarrow> root_machine" where
  "root_runs cs = fold root_step cs new_root_machine"

section \<open>What the log promises\<close>

text \<open>The keys admitted for an episode since it was opened by its first attempt, and its limit.\<close>

fun admitted_since :: "string \<Rightarrow> root_event list \<Rightarrow> string list" where
  "admitted_since i [] = []"
| "admitted_since i (Rv_Scheduled j a l # es) = (if j = i \<and> a = 1 then [] else admitted_since i es)"
| "admitted_since i (Rv_Admitted j k # es) = (if j = i then k # admitted_since i es else admitted_since i es)"

fun limit_of :: "string \<Rightarrow> root_event list \<Rightarrow> int option" where
  "limit_of i [] = None"
| "limit_of i (Rv_Scheduled j a l # es) = (if j = i then Some l else limit_of i es)"
| "limit_of i (Rv_Admitted j k # es) = limit_of i es"

text \<open>Every admission is of a scheduled episode, under a fresh key and within the episode's limit.\<close>

fun within_budget :: "root_event list \<Rightarrow> bool" where
  "within_budget [] \<longleftrightarrow> True"
| "within_budget (Rv_Scheduled i a l # es) \<longleftrightarrow> within_budget es"
| "within_budget (Rv_Admitted i k # es) \<longleftrightarrow>
     within_budget es \<and> k \<notin> set (admitted_since i es) \<and>
     (case limit_of i es of None \<Rightarrow> False | Some l \<Rightarrow> int (length (admitted_since i es)) < l)"

section \<open>The invariant of an episode\<close>

definition root_episode_ok :: "root_event list \<Rightarrow> root_episode \<Rightarrow> bool" where
  "root_episode_ok es e \<longleftrightarrow>
     rte_admitted e = int (length (admitted_since (rte_id e) es)) \<and>
     (\<forall>k. map_of (rte_keys e) k \<noteq> None \<longleftrightarrow> k \<in> set (admitted_since (rte_id e) es)) \<and>
     (\<forall>k a. map_of (rte_keys e) k = Some a \<longrightarrow> k = retry_key e a \<and> 1 \<le> a \<and> a \<le> rte_admitted e) \<and>
     rte_pending_key e = Some (retry_key e (rte_pending_attempt e)) \<and>
     (rte_pending_attempt e = rte_admitted e + 1 \<or>
      (rte_pending_attempt e = rte_admitted e \<and> map_of (rte_keys e) (retry_key e (rte_pending_attempt e)) \<noteq> None)) \<and>
     limit_of (rte_id e) es = Some (rte_auto_max e) \<and>
     (rte_successor e \<noteq> None \<or> rte_awaiting e \<longrightarrow> 1 \<le> rte_admitted e)"

definition gate_ok_but :: "string option \<Rightarrow> root_event list \<Rightarrow> root_gate \<Rightarrow> bool" where
  "gate_ok_but x es g \<longleftrightarrow> distinct (map fst (gt_episodes g)) \<and>
     (\<forall>i e. map_of (gt_episodes g) i = Some e \<and> Some i \<noteq> x \<longrightarrow> rte_id e = i \<and> root_episode_ok es e)"

abbreviation gate_ok :: "root_event list \<Rightarrow> root_gate \<Rightarrow> bool" where
  "gate_ok \<equiv> gate_ok_but None"

lemma gate_ok_D: "gate_ok es g \<Longrightarrow> map_of (gt_episodes g) i = Some e \<Longrightarrow> rte_id e = i \<and> root_episode_ok es e"
  by (simp add: gate_ok_but_def)

lemma gate_ok_frame [simp]:
  "gate_ok_but x es (g\<lparr>gt_terminal := t\<rparr>) \<longleftrightarrow> gate_ok_but x es g"
  "gate_ok_but x es (g\<lparr>gt_staged := ns\<rparr>) \<longleftrightarrow> gate_ok_but x es g"
  "gate_ok_but x es (g\<lparr>gt_projections := ps\<rparr>) \<longleftrightarrow> gate_ok_but x es g"
  by (simp_all add: gate_ok_but_def)

lemma gate_ok_put:
  "gate_ok_but x es g \<Longrightarrow> x = None \<or> x = Some (rte_id e) \<Longrightarrow> root_episode_ok es e \<Longrightarrow> gate_ok es (put_root_episode e g)"
  by (auto simp: gate_ok_but_def put_root_episode_def intro: distinct_dict_set)

lemma gate_ok_end: "gate_ok_but x es g \<Longrightarrow> x = None \<or> x = Some i \<Longrightarrow> gate_ok es (end_root_episode i g)"
  by (auto simp: gate_ok_but_def end_root_episode_def intro: distinct_dict_pop)

text \<open>The notices an episode has emitted play no role in it.\<close>

lemma episode_ok_emitted [simp]: "root_episode_ok es (e\<lparr>rte_emitted := xs\<rparr>) = root_episode_ok es e"
  by (simp add: root_episode_ok_def retry_key_def)

lemma gate_ok_stage:
  "gate_ok es g \<Longrightarrow> root_episode_ok es e \<Longrightarrow> gate_ok es (snd (stage_notice env e n g))"
  using gate_ok_put [of None es "g\<lparr>gt_staged := gt_staged g @ [n]\<rparr>" "e\<lparr>rte_emitted := rte_emitted e @ [notice_id (ntx_milestone n) (ntx_attempt n)]\<rparr>"]
  by (simp add: stage_notice_def Let_def)

lemma gate_ok_notify:
  assumes "gate_ok es g" "root_episode_ok es e"
  shows "gate_ok es (snd (notify_and_end env e n a g))"
proof -
  obtain b g1 where s: "stage_notice env e n g = (b, g1)" by (rule prod.exhaust)
  with gate_ok_stage [OF assms, of env n] have "gate_ok es g1" by simp
  with s gate_ok_end [of None es g1] show ?thesis by (cases b) (simp_all add: notify_and_end_def)
qed

lemma gate_ok_close:
  "gate_ok es g \<Longrightarrow> root_episode_ok es e \<Longrightarrow> gate_ok es (snd (close_episode env m e reason a g))"
  by (simp add: close_episode_def gate_ok_notify gate_ok_end)

text \<open>An episode that was never armed is dropped without a notice.\<close>

lemma gate_ok_close_undriven:
  "gate_ok_but (Some (rte_id e)) es g \<Longrightarrow> \<not> root_driven e \<Longrightarrow> gate_ok es (snd (close_episode env m e reason a g))"
  by (simp add: close_episode_def gate_ok_end)

lemma find_episode:
  assumes "gate_ok es g" "find p (map snd (gt_episodes g)) = Some e"
  shows "map_of (gt_episodes g) (rte_id e) = Some e \<and> root_episode_ok es e \<and> p e"
proof -
  from assms(2) have "p e" "e \<in> set (map snd (gt_episodes g))" by (auto simp: find_Some_iff)
  then obtain i where "(i, e) \<in> set (gt_episodes g)" by auto
  with assms(1) have "map_of (gt_episodes g) i = Some e" by (simp add: gate_ok_but_def)
  with gate_ok_D [OF assms(1) this] \<open>p e\<close> show ?thesis by simp
qed

lemma map_of_newest: "distinct (map fst d) \<Longrightarrow> map_of (newest n d) i = Some e \<Longrightarrow> map_of d i = Some e"
proof -
  assume d: "distinct (map fst d)" and m: "map_of (newest n d) i = Some e"
  from map_of_SomeD [OF m] have "(i, e) \<in> set d" by (auto simp: newest_def dest: in_set_dropD)
  with d show "map_of d i = Some e" by simp
qed

lemma distinct_newest: "distinct (map fst d) \<Longrightarrow> distinct (map fst (newest n d))"
  unfolding newest_def by (metis distinct_drop drop_map)

section \<open>Growth of the log\<close>

lemma since_other:
  "j \<noteq> i \<Longrightarrow> admitted_since i (Rv_Scheduled j a l # es) = admitted_since i es"
  "j \<noteq> i \<Longrightarrow> admitted_since i (Rv_Admitted j k # es) = admitted_since i es"
  by simp_all

lemma episode_ok_other:
  "rte_id e \<noteq> i \<Longrightarrow> root_episode_ok (Rv_Scheduled i a l # es) e = root_episode_ok es e"
  "rte_id e \<noteq> i \<Longrightarrow> root_episode_ok (Rv_Admitted i k # es) e = root_episode_ok es e"
  by (simp_all add: root_episode_ok_def)

lemma gate_ok_log:
  assumes "gate_ok_but x es g" "x = None \<or> x = Some i" "\<And>e. rte_id e \<noteq> i \<Longrightarrow> root_episode_ok es' e = root_episode_ok es e"
  shows "gate_ok_but (Some i) es' g"
  using assms by (auto simp: gate_ok_but_def)

section \<open>The invariant is kept\<close>

lemma answer_close [simp]: "answer_of (fst (close_episode env m e reason a g)) = a"
  by (auto simp: close_episode_def notify_and_end_def split: bool.split prod.split)

lemma no_events [simp]: "scheduled_events (declined_schedule r e c d) = []" "admitted_events p (declined_admit r) = []"
  by (simp_all add: scheduled_events_def declined_schedule_def admitted_events_def declined_admit_def)

text \<open>An episode that may be armed: a new one, or one whose admitted successor failed.\<close>

definition armable :: "root_event list \<Rightarrow> root_episode \<Rightarrow> bool" where
  "armable es e \<longleftrightarrow>
     (rte_admitted e = 0 \<and> rte_keys e = [] \<and> rte_successor e = None \<and> \<not> rte_awaiting e) \<or>
     (root_episode_ok es e \<and> 1 \<le> rte_admitted e)"

lemma armed_ok:
  assumes "armable es e"
  shows "root_episode_ok (Rv_Scheduled (rte_id e) (rte_admitted e + 1) (rte_auto_max e) # es)
     (e\<lparr>rte_pending_key := Some (retry_key e (rte_admitted e + 1)), rte_pending_turn := t,
        rte_pending_attempt := rte_admitted e + 1, rte_pending_delay := d, rte_pending_generation := k\<rparr>)"
  using assms by (auto simp: armable_def root_episode_ok_def retry_key_def)

lemma gate_ok_arm:
  assumes "gate_ok_but x es g" "x = None \<or> x = Some (rte_id e)" "armable es e" "arm_root_retry env p f e delay g = (a, g')"
  shows "gate_ok (scheduled_events (answer_of a) @ es) g'"
proof -
  let ?es = "Rv_Scheduled (rte_id e) (rte_admitted e + 1) (rte_auto_max e) # es"
  let ?e = "e\<lparr>rte_pending_key := Some (retry_key e (rte_admitted e + 1)), rte_pending_turn := Some (sp_turn p),
      rte_pending_attempt := rte_admitted e + 1, rte_pending_delay := delay, rte_pending_generation := sp_generation p\<rparr>"
  let ?g = "(put_root_episode ?e g)
      \<lparr>gt_terminal := newest terminal_turn_capacity (dict_set (sp_turn p) (rte_id ?e) (gt_terminal g))\<rparr>"
  let ?n = "(notice_of ?e Rm_Scheduled (rte_admitted e + 1))
      \<lparr>ntx_class := map_option eligible_class_value (root_eligible_class f), ntx_deployment := affected_deployment f,
       ntx_delay := delay\<rparr>"
  have e: "root_episode_ok ?es ?e" by (rule armed_ok [OF assms(3)])
  have "gate_ok_but (Some (rte_id e)) ?es g"
    by (rule gate_ok_log [OF assms(1,2)]) (simp add: episode_ok_other)
  then have "gate_ok ?es (put_root_episode ?e g)" by (rule gate_ok_put) (simp_all add: e)
  then have g: "gate_ok ?es ?g" by simp
  obtain b g1 where s: "stage_notice env ?e ?n ?g = (b, g1)" by (rule prod.exhaust)
  with gate_ok_stage [OF g e, of env ?n] have g1: "gate_ok ?es g1" by simp
  from s assms(4) have "g' = g1" "scheduled_events (answer_of a) = [Rv_Scheduled (rte_id e) (rte_admitted e + 1) (rte_auto_max e)]"
    by (cases b; clarsimp simp: arm_root_retry_def Let_def scheduled_events_def)+
  with g1 show ?thesis by simp
qed

lemma gate_ok_episode_for:
  assumes "gate_ok es g" "root_episode_for f c g = (e, g')"
  shows "(gate_ok es g' \<and> armable es e \<and> root_episode_ok es e) \<or>
    (gate_ok_but (Some (rte_id e)) es g' \<and> armable es e \<and> \<not> root_driven e)"
proof (cases "find (\<lambda>e. rte_successor e = Some (rt_turn_id f)) (map snd (gt_episodes g))")
  case (Some e')
  with assms(2) have e: "e' = e" "g' = g" by (simp_all add: root_episode_for_def)
  from find_episode [OF assms(1) Some] have ok: "root_episode_ok es e" "rte_successor e \<noteq> None" by (simp_all add: e)
  then have "1 \<le> rte_admitted e" unfolding root_episode_ok_def by blast
  with ok assms(1) show ?thesis by (simp add: e armable_def)
next
  case None
  let ?d = "dict_set (rte_id e) e (gt_episodes g)"
  from None assms(2) have e: "e = new_root_episode c f"
    and g': "g' = g\<lparr>gt_episodes := newest episode_capacity ?d\<rparr>"
    by (auto simp: root_episode_for_def Let_def)
  have d: "distinct (map fst ?d)" using assms(1) by (auto simp: gate_ok_but_def intro: distinct_dict_set)
  have "gate_ok_but (Some (rte_id e)) es g'"
    unfolding gate_ok_but_def g'
  proof (intro conjI allI impI)
    show "distinct (map fst (gt_episodes (g\<lparr>gt_episodes := newest episode_capacity ?d\<rparr>)))"
      using distinct_newest [OF d] by simp
    fix i e1
    assume "map_of (gt_episodes (g\<lparr>gt_episodes := newest episode_capacity ?d\<rparr>)) i = Some e1 \<and> Some i \<noteq> Some (rte_id e)"
    then have "map_of (gt_episodes g) i = Some e1" using map_of_newest [OF d, of _ i e1] by (auto split: if_splits)
    with gate_ok_D [OF assms(1)] show "rte_id e1 = i" "root_episode_ok es e1" by blast+
  qed
  moreover have "armable es e" "\<not> root_driven e"
    by (simp_all add: e new_root_episode_def armable_def root_driven_def Let_def)
  ultimately show ?thesis by blast
qed

lemma gate_ok_end_linked: "gate_ok es g \<Longrightarrow> gate_ok es (snd (end_linked_episode env t r a g))"
  using find_episode [of es g "\<lambda>e. Some t \<in> {rte_successor e, rte_pending_turn e, Some (rte_initial e)}"]
  by (auto simp: end_linked_episode_def linked_episode_def gate_ok_close split: option.split)

lemma answer_end_linked [simp]: "answer_of (fst (end_linked_episode env t r a g)) = a"
  by (simp add: end_linked_episode_def split: option.split)

lemma gate_ok_schedule_failure:
  assumes "gate_ok es g" "schedule_failure env p f g = (a, g')"
  shows "gate_ok (scheduled_events (answer_of a) @ es) g'"
proof (cases "failure_decline env f")
  case (Some x)
  obtain reason cls detail where x: "x = (reason, cls, detail)" by (metis prod.exhaust)
  let ?r = "end_linked_episode env (rt_turn_id f) reason (declined_schedule reason None cls detail) g"
  from assms(2) Some x have r: "?r = (a, g')" by (simp add: schedule_failure_def)
  have "gate_ok es (snd ?r)" by (rule gate_ok_end_linked [OF assms(1)])
  moreover have "answer_of (fst ?r) = declined_schedule reason None cls detail" by simp
  ultimately show ?thesis unfolding r by simp
next
  case None
  obtain e g1 where e: "root_episode_for f (rev_config env) g = (e, g1)" by (rule prod.exhaust)
  note for_e = gate_ok_episode_for [OF assms(1) e]
  show ?thesis
  proof (cases "episode_bounds env f e")
    case (Inl reason)
    let ?a = "declined_schedule reason (Some e) (map_option eligible_class_value (root_eligible_class f)) []"
    let ?r = "close_episode env Rm_Exhausted e reason ?a g1"
    from Inl None e assms(2) have r: "?r = (a, g')" by (simp add: schedule_failure_def)
    have "gate_ok es (snd ?r)" using for_e
      by (elim disjE conjE) (simp_all only: gate_ok_close gate_ok_close_undriven not_False_eq_True)
    moreover have "answer_of (fst ?r) = ?a" by simp
    ultimately show ?thesis unfolding r by simp
  next
    case (Inr delay)
    with None e assms(2) have "arm_root_retry env p f e delay g1 = (a, g')" by (simp add: schedule_failure_def)
    with for_e gate_ok_arm show ?thesis by blast
  qed
qed

lemma gate_ok_schedule:
  assumes "gate_ok es g"
  shows "gate_ok (scheduled_events (answer_of (fst (schedule_root env p g))) @ es) (snd (schedule_root env p g))"
proof -
  have "scheduled_events \<lparr>srp_decision = Sd_Already, srp_reason = r, srp_episode = i, srp_key = k, srp_attempt = n,
      srp_limit = l, srp_delay = d, srp_class = c, srp_deployment = y\<rparr> = []" for r i k n l d c y
    by (simp add: scheduled_events_def)
  moreover have "gate_ok (scheduled_events (answer_of (fst (schedule_failure env p f g))) @ es) (snd (schedule_failure env p f g))" for f
    using gate_ok_schedule_failure [OF assms] by (metis prod.collapse)
  ultimately show ?thesis using assms by (auto simp: schedule_root_def split: option.split)
qed

lemma retry_key_frame [simp]:
  "retry_key (e\<lparr>rte_admitted := n\<rparr>) = retry_key e" "retry_key (e\<lparr>rte_keys := d\<rparr>) = retry_key e"
  "retry_key (e\<lparr>rte_awaiting := w\<rparr>) = retry_key e" "retry_key (e\<lparr>rte_successor := t\<rparr>) = retry_key e"
  "retry_key (e\<lparr>rte_in_flight := w\<rparr>) = retry_key e"
  by (simp_all add: retry_key_def fun_eq_iff)

lemma admitted_ok:
  assumes "root_episode_ok es e" "rte_pending_key e = Some k" "map_of (rte_keys e) k = None" "rte_admitted e < rte_auto_max e"
  shows "root_episode_ok (Rv_Admitted (rte_id e) k # es)
      (e\<lparr>rte_admitted := rte_admitted e + 1, rte_keys := dict_set k (rte_pending_attempt e) (rte_keys e), rte_awaiting := True\<rparr>)"
    and "k \<notin> set (admitted_since (rte_id e) es)"
    and "limit_of (rte_id e) es = Some (rte_auto_max e)" "int (length (admitted_since (rte_id e) es)) < rte_auto_max e"
proof -
  from assms(1-3) have k: "k = retry_key e (rte_pending_attempt e)" "rte_pending_attempt e = rte_admitted e + 1"
    by (auto simp: root_episode_ok_def)
  let ?e = "e\<lparr>rte_admitted := rte_admitted e + 1, rte_keys := dict_set k (rte_pending_attempt e) (rte_keys e), rte_awaiting := True\<rparr>"
  have old: "\<forall>x a. map_of (rte_keys e) x = Some a \<longrightarrow> x = retry_key e a \<and> 1 \<le> a \<and> a \<le> rte_admitted e"
    and n: "0 \<le> rte_admitted e"
    using assms(1) unfolding root_episode_ok_def by (blast, linarith)
  have "map_of (rte_keys ?e) x = Some a \<longrightarrow> x = retry_key ?e a \<and> 1 \<le> a \<and> a \<le> rte_admitted ?e" for x a
  proof (cases "x = k")
    case False
    with old show ?thesis by fastforce
  qed (use k n in simp)
  moreover have "rte_pending_key ?e = Some (retry_key ?e (rte_pending_attempt ?e))" using assms(2) k(1) by simp
  moreover have "map_of (rte_keys ?e) (retry_key ?e (rte_pending_attempt ?e)) \<noteq> None" using k(1) by simp
  moreover have since: "rte_admitted e = int (length (admitted_since (rte_id e) es))"
    "limit_of (rte_id e) es = Some (rte_auto_max e)"
    "\<And>x. map_of (rte_keys e) x \<noteq> None \<longleftrightarrow> x \<in> set (admitted_since (rte_id e) es)"
    using assms(1) unfolding root_episode_ok_def by blast+
  ultimately show "root_episode_ok (Rv_Admitted (rte_id e) k # es) ?e"
    unfolding root_episode_ok_def using k(2) n by (simp del: not_None_eq)
  show "k \<notin> set (admitted_since (rte_id e) es)" using since(3) [of k] assms(3) by simp
  show "limit_of (rte_id e) es = Some (rte_auto_max e)" by (rule since)
  show "int (length (admitted_since (rte_id e) es)) < rte_auto_max e" using since(1) assms(4) by simp
qed

lemma admit_section:
  assumes "gate_ok es g" "within_budget es" "admit_root env p g = (a, g')"
  shows "gate_ok (admitted_events p (answer_of a) @ es) g' \<and> within_budget (admitted_events p (answer_of a) @ es)"
proof (cases "arp_decision (answer_of a) = Ad_Admitted")
  case False
  have quiet: "gate_ok es (snd (admit_root env p g))" if "arp_decision (answer_of (fst (admit_root env p g))) \<noteq> Ad_Admitted"
  proof (cases "map_of (gt_episodes g) (amp_episode p)")
    case (Some e)
    note close = gate_ok_close [OF assms(1) conjunct2 [OF gate_ok_D [OF assms(1) Some]]]
    show ?thesis
      using that assms(1) close Some by (auto simp: admit_root_def admit_pending_def split: option.split_asm option.split if_splits)
  qed (use assms(1) in \<open>simp add: admit_root_def\<close>)
  with False assms(2,3) show ?thesis by (simp add: admitted_events_def)
next
  case True
  with assms(3) obtain e where e: "map_of (gt_episodes g) (amp_episode p) = Some e"
    and adm: "admit_pending env p e g = (a, g')" and key: "map_of (rte_keys e) (amp_key p) = None"
      "rte_pending_key e = Some (amp_key p)"
    by (fastforce simp: admit_root_def declined_admit_def split: if_splits option.splits dest: arg_cong [of _ _ "\<lambda>x. arp_decision (answer_of (fst x))"])
  note ok = gate_ok_D [OF assms(1) e]
  let ?e = "e\<lparr>rte_admitted := rte_admitted e + 1, rte_keys := dict_set (amp_key p) (rte_pending_attempt e) (rte_keys e), rte_awaiting := True\<rparr>"
  from adm True have "g' = put_root_episode ?e g" "rte_admitted e < rte_auto_max e"
    by (auto simp: admit_pending_def admit_refusal_def declined_admit_def split: if_splits option.splits
      dest: arg_cong [of _ _ "\<lambda>x. arp_decision (answer_of (fst x))"])
  note new = admitted_ok [OF conjunct2 [OF ok] key(2,1) this(2)] and g' = this(1)
  have "gate_ok_but (Some (rte_id e)) (Rv_Admitted (rte_id e) (amp_key p) # es) g"
    by (rule gate_ok_log [OF assms(1)]) (simp_all add: episode_ok_other)
  then have "gate_ok (Rv_Admitted (rte_id e) (amp_key p) # es) g'" unfolding g' by (rule gate_ok_put) (simp_all add: new)
  with new assms(2) ok True show ?thesis by (simp add: admitted_events_def)
qed

lemma gate_ok_cancel: "gate_ok es g \<Longrightarrow> gate_ok es (snd (cancel_root env s i r g))"
  using gate_ok_D [of es g i] by (auto simp: cancel_root_def gate_ok_close split: option.split)

text \<open>The linkage of a successor and its settlement.\<close>

lemma episode_ok_same:
  assumes "root_episode_ok es e" "rte_id e' = rte_id e" "rte_admitted e' = rte_admitted e" "rte_keys e' = rte_keys e"
    "rte_pending_key e' = rte_pending_key e" "rte_pending_attempt e' = rte_pending_attempt e"
    "rte_auto_max e' = rte_auto_max e" "rte_successor e' \<noteq> None \<or> rte_awaiting e' \<longrightarrow> rte_successor e \<noteq> None \<or> rte_awaiting e"
  shows "root_episode_ok es e'"
  using assms(1,8) unfolding root_episode_ok_def retry_key_def assms(2-7) by blast

lemma linked_ok:
  "root_episode_ok es e \<Longrightarrow> rte_awaiting e \<Longrightarrow>
    root_episode_ok es (e\<lparr>rte_awaiting := False, rte_successor := Some t, rte_in_flight := True\<rparr>)"
  "root_episode_ok es e \<Longrightarrow> root_episode_ok es (e\<lparr>rte_in_flight := b\<rparr>)"
  by (erule episode_ok_same; simp)+

lemma gate_ok_link:
  assumes "gate_ok es g" "root_episode_ok es e"
  shows "gate_ok es (snd (link_successor env t k e g))"
proof (cases "rte_awaiting e")
  case True
  let ?e = "e\<lparr>rte_awaiting := False, rte_successor := Some t, rte_in_flight := True\<rparr>"
  note e = linked_ok(1) [OF assms(2) True, of t]
  have "gate_ok es (put_root_episode ?e g)" by (rule gate_ok_put [OF assms(1)]) (simp_all add: e)
  from gate_ok_stage [OF this e] True show ?thesis by (simp add: link_successor_def Let_def case_prod_beta)
qed (simp add: link_successor_def assms)

lemma gate_ok_take_over: "gate_ok es g \<Longrightarrow> \<forall>e \<in> set xs. root_episode_ok es e \<Longrightarrow> gate_ok es (snd (take_over env xs g))"
proof (induction xs arbitrary: g)
  case (Cons e xs)
  let ?n = "(notice_of e Rm_Cancelled (max (rte_admitted e) (rte_pending_attempt e)))\<lparr>ntx_reason := ''superseded_by_turn''\<rparr>"
  obtain b g1 where s: "stage_notice env e ?n g = (b, g1)" by (rule prod.exhaust)
  with gate_ok_stage [OF Cons.prems(1), of e env ?n] Cons.prems(2) have "gate_ok es g1" by simp
  then have "gate_ok es (end_root_episode (rte_id e) g1)" by (rule gate_ok_end) simp
  with Cons s show ?case by (simp add: Let_def case_prod_beta)
qed simp

lemma gate_ok_all: "gate_ok es g \<Longrightarrow> \<forall>e \<in> set (map snd (gt_episodes g)). root_episode_ok es e"
  by (auto simp: gate_ok_but_def)

lemma gate_ok_started: "gate_ok es g \<Longrightarrow> gate_ok es (snd (turn_started env t k g))"
proof -
  assume g: "gate_ok es g"
  show ?thesis
  proof (cases "Option.bind k (\<lambda>k. find (\<lambda>e. map_of (rte_keys e) k \<noteq> None) (map snd (gt_episodes g)))")
    case None
    with gate_ok_take_over [OF g gate_ok_all [OF g]] show ?thesis by (simp add: turn_started_def)
  next
    case (Some e)
    then have "root_episode_ok es e" using find_episode [OF g] by (cases k) auto
    with Some gate_ok_link [OF g] show ?thesis by (simp add: turn_started_def)
  qed
qed

lemma gate_ok_finished: "gate_ok es g \<Longrightarrow> gate_ok es (snd (turn_finished env t s g))"
proof -
  assume g: "gate_ok es g"
  show ?thesis
  proof (cases "find (\<lambda>e. rte_successor e = Some t) (map snd (gt_episodes g))")
    case (Some e)
    from find_episode [OF g Some] have e: "root_episode_ok es e" by simp
    have "gate_ok es (put_root_episode (e\<lparr>rte_in_flight := False\<rparr>) g)"
      by (rule gate_ok_put [OF g]) (simp_all add: linked_ok e)
    with Some gate_ok_notify [OF g e] show ?thesis by (cases s) (simp_all add: turn_finished_def)
  qed (simp add: turn_finished_def g)
qed

definition machine_ok :: "root_machine \<Rightarrow> bool" where
  "machine_ok m \<longleftrightarrow> gate_ok (rmc_log m) (rmc_gate m) \<and> within_budget (rmc_log m)"

lemma scheduled_within_budget: "within_budget (scheduled_events r @ es) = within_budget es"
  by (simp add: scheduled_events_def split: schedule_decision.split option.split)

lemma root_step_ok:
  assumes "machine_ok m"
  shows "machine_ok (root_step c m)"
proof -
  from assms have g: "gate_ok (rmc_log m) (rmc_gate m)" and b: "within_budget (rmc_log m)"
    by (simp_all add: machine_ok_def)
  show ?thesis
  proof (cases c)
    case (Rc_Schedule env p)
    with gate_ok_schedule [OF g] b show ?thesis
      by (simp add: machine_ok_def after_section_def scheduled_within_budget)
  next
    case (Rc_Admit env p)
    obtain a g' where "admit_root env p (rmc_gate m) = (a, g')" by (rule prod.exhaust)
    with admit_section [OF g b this] Rc_Admit show ?thesis by (simp add: machine_ok_def after_section_def)
  next
    case (Rc_Cancel env s i r)
    with gate_ok_cancel [OF g] b show ?thesis by (simp add: machine_ok_def after_section_def)
  next
    case (Rc_Finished env t s)
    with gate_ok_finished [OF g] b show ?thesis by (simp add: machine_ok_def after_section_def)
  next
    case (Rc_Started env t k)
    with gate_ok_started [OF g] b show ?thesis by (simp add: machine_ok_def)
  next
    case (Rc_Delivered i)
    with gate_ok_end [OF g, of i] g b show ?thesis by (simp add: machine_ok_def)
  next
    case (Rc_Capture f)
    with g b show ?thesis by (simp add: machine_ok_def capture_terminal_def)
  next
    case Rc_Invalidate
    with b show ?thesis by (simp add: machine_ok_def invalidate_all_def gate_ok_but_def)
  qed
qed

lemma root_runs_ok: "machine_ok (root_runs cs)"
proof -
  have step: "machine_ok m \<Longrightarrow> machine_ok (fold root_step cs m)" for m
    by (induction cs arbitrary: m) (simp_all add: root_step_ok)
  have "machine_ok new_root_machine" by (simp add: machine_ok_def new_root_machine_def new_root_gate_def gate_ok_but_def)
  from step [OF this] show ?thesis by (simp add: root_runs_def)
qed

text \<open>
  C12. However the calls of the gate interleave, every admitted continuation belongs to an episode that
  was scheduled, under a key that was not admitted before in it, and the continuations admitted for
  one episode stay within its limit.
\<close>

theorem root_retries_within_budget: "within_budget (rmc_log (root_runs cs))"
  using root_runs_ok [of cs] by (simp add: machine_ok_def)

end
