(* ===== verification/Root_Decisions.thy ===== *)
theory Root_Decisions
  imports Root_Recovery_Props Recovery_Props
begin

text \<open>
  What the gate of root recovery decides: exactly when a failed turn is scheduled for an automatic
  continuation and when the continuation is admitted, and that a failure the classification protects is
  never continued.
\<close>

section \<open>Scheduling\<close>

definition session_quiet :: "root_session_view \<Rightarrow> bool" where
  "session_quiet v \<longleftrightarrow> \<not> rvw_closing v \<and> \<not> rvw_open_callbacks v \<and> \<not> rvw_queued_work v \<and> \<not> rvw_stop_requested v \<and>
     \<not> rvw_handoff_pending v \<and> \<not> rvw_lifecycle_reserved v"

lemma root_barrier_quiet: "root_barrier v = None \<longleftrightarrow> session_quiet v"
  by (simp add: root_barrier_def session_quiet_def)

text \<open>A measured transient failure of an enabled class, settled, with nothing in the way.\<close>

definition retriable :: "root_env \<Rightarrow> root_turn_failure \<Rightarrow> bool" where
  "retriable env f \<longleftrightarrow>
     rt_class f \<in> transient_failure_classes \<and> rt_transient_confirmed f \<and>
     (\<exists>k \<in> set (rcg_eligible (rev_config env)). root_eligible_class f = Some k) \<and>
     \<not> rt_interaction_barrier f \<and> rt_effects_settled f \<and> session_quiet (rev_view env) \<and> \<not> poisoned_transcript env"

lemma failure_decline_None: "failure_decline env f = None \<longleftrightarrow> retriable env f"
  by (auto simp: failure_decline_def retriable_def root_barrier_quiet split: option.split if_split_asm)

text \<open>The attempt fits the bounds of the episode that the failure belongs to.\<close>

definition within_bounds :: "root_env \<Rightarrow> root_turn_failure \<Rightarrow> root_episode \<Rightarrow> bool" where
  "within_bounds env f e \<longleftrightarrow>
     rte_admitted e < rte_auto_max e \<and> rev_clock env 0 < rte_deadline e \<and> \<not> vs_permanent (live_availability env) \<and>
     rev_clock env 0 + root_delay env e f (live_availability env) \<le> rte_deadline e"

lemma episode_bounds_Inr:
  "episode_bounds env f e = Inr d \<longleftrightarrow> within_bounds env f e \<and> d = root_delay env e f (live_availability env)"
  by (auto simp: episode_bounds_def within_bounds_def Let_def)

lemma declined_decision [simp]:
  "srp_decision (declined_schedule r e c d) = Sd_Declined" "arp_decision (declined_admit r) = Ad_Declined"
  by (simp_all add: declined_schedule_def declined_admit_def)

lemma arm_answer:
  "answer_of (fst (arm_root_retry env p f e delay g)) =
     \<lparr>srp_decision = Sd_Scheduled, srp_reason = [], srp_episode = Some (rte_id e),
      srp_key = Some (retry_key e (rte_admitted e + 1)), srp_attempt = rte_admitted e + 1, srp_limit = rte_auto_max e,
      srp_delay = delay, srp_class = map_option eligible_class_value (root_eligible_class f),
      srp_deployment = affected_deployment f\<rparr>"
  by (auto simp: arm_root_retry_def Let_def case_prod_beta split: bool.split)

definition scheduled :: "root_env \<Rightarrow> schedule_params \<Rightarrow> root_gate \<Rightarrow> bool" where
  "scheduled env p g \<longleftrightarrow> srp_decision (answer_of (fst (schedule_root env p g))) = Sd_Scheduled"

lemma schedule_failure_decision:
  "srp_decision (answer_of (fst (schedule_failure env p f g))) = Sd_Scheduled \<longleftrightarrow>
     retriable env f \<and> within_bounds env f (fst (root_episode_for f (rev_config env) g))"
proof (cases "failure_decline env f")
  case None
  obtain e g1 where e: "root_episode_for f (rev_config env) g = (e, g1)" by (rule prod.exhaust)
  have r: "retriable env f" using None by (simp add: failure_decline_None)
  show ?thesis
  proof (cases "episode_bounds env f e")
    case (Inl reason)
    then have "\<not> within_bounds env f e" using episode_bounds_Inr [of env f e] by auto
    with None e Inl show ?thesis by (simp add: schedule_failure_def)
  next
    case (Inr d)
    then have "within_bounds env f e" using episode_bounds_Inr [of env f e] by auto
    with None e Inr r show ?thesis by (simp add: schedule_failure_def arm_answer)
  qed
next
  case (Some x)
  then have "\<not> retriable env f" using failure_decline_None [of env f] by simp
  with Some show ?thesis by (simp add: schedule_failure_def case_prod_beta)
qed

text \<open>
  C14. A failed root turn is scheduled for an automatic continuation exactly when the session is the one
  asked for, recovery is enabled, the turn was not scheduled before, its typed projection is a measured
  transient failure of an enabled class with settled effects, no interaction is open, and the next
  attempt fits the budget and the deadline of the episode.
\<close>

theorem root_retry_scheduled_exactly:
  "scheduled env p g \<longleftrightarrow>
     rvw_session_id (rev_view env) = sp_session p \<and> rcg_enabled (rev_config env) \<and>
     map_of (gt_terminal g) (sp_turn p) = None \<and>
     (case map_of (gt_projections g) (sp_turn p) of
        None \<Rightarrow> False
      | Some f \<Rightarrow> retriable env f \<and> within_bounds env f (fst (root_episode_for f (rev_config env) g)))"
  by (auto simp: scheduled_def schedule_root_def schedule_failure_decision split: option.split if_splits)

section \<open>Admission\<close>

text \<open>
  C15. A continuation is admitted exactly for the pending attempt of a live episode whose key was not
  admitted before, when no input arrived since it was scheduled, nothing is open or running in the
  session, and budget, deadline and live availability allow it.
\<close>

theorem continuation_admitted_exactly:
  "arp_decision (answer_of (fst (admit_root env p g))) = Ad_Admitted \<longleftrightarrow>
     rvw_session_id (rev_view env) = amp_session p \<and> rcg_enabled (rev_config env) \<and> \<not> poisoned_transcript env \<and>
     session_quiet (rev_view env) \<and> rvw_active_turn (rev_view env) = None \<and>
     vs_available (live_availability env) \<and> \<not> vs_permanent (live_availability env) \<and>
     (case map_of (gt_episodes g) (amp_episode p) of
        None \<Rightarrow> False
      | Some e \<Rightarrow>
          map_of (rte_keys e) (amp_key p) = None \<and> rte_pending_key e = Some (amp_key p) \<and>
          rte_pending_turn e = Some (amp_turn p) \<and> rte_pending_generation e = amp_generation p \<and>
          rte_admitted e < rte_auto_max e \<and> rev_clock env 0 < rte_deadline e)"
proof (cases "map_of (gt_episodes g) (amp_episode p)")
  case (Some e)
  have refusal: "admit_refusal env p e = None \<longleftrightarrow>
      amp_generation p = rte_pending_generation e \<and> session_quiet (rev_view env) \<and> rvw_active_turn (rev_view env) = None \<and>
      rte_admitted e < rte_auto_max e \<and> rev_clock env 0 < rte_deadline e \<and> \<not> vs_permanent (live_availability env)"
    by (auto simp: admit_refusal_def root_barrier_quiet [symmetric] split: option.split)
  have pending: "arp_decision (answer_of (fst (admit_pending env p e g))) = Ad_Admitted \<longleftrightarrow>
      admit_refusal env p e = None \<and> vs_available (live_availability env)"
    by (auto simp: admit_pending_def split: option.split)
  show ?thesis
    using Some by (auto simp: admit_root_def pending refusal split: option.split)
qed (simp add: admit_root_def)

section \<open>Protected failures\<close>

lemma protected_root_class:
  assumes "cf_cause f \<in> Some ` insert Unknown protected_categories" "derive_root_failure_class f \<in> transient_failure_classes"
  shows "derive_root_failure_class f = Launch_Failure \<and> cf_cause f = Some Unknown"
  using assms
  by (auto simp: derive_root_failure_class_def transient_failure_classes_def protected_categories_def
      permanent_config_categories_def split: if_splits option.splits)

text \<open>
  C13. From the exception to the continuation: if anything reachable from the failure of a root turn
  through causes and groups is a cancellation, an authorization, billing, quota, request or context
  error or a model refusal, the turn is not continued automatically, unless the bounded classification
  missed it and nothing had reached a backend.
\<close>

theorem protected_root_failure_not_continued:
  assumes "x \<in> reached (\<lambda>a. exc.truncate (h a)) a" "dominates lib (exc.truncate (h x))" "ex_info (h a) = None"
    and ob: "observe_exception lib redact h a phase turn' agent run now = ob"
    and f: "build_root_turn_failure netloc_ok now' (Some ob) turn committed stop effects barrier detail = f"
    and gate: "map_of (gt_projections g) (sp_turn p) = Some f" "scheduled env p g"
  shows "rt_class f = Launch_Failure \<and> rt_cause f = Some Unknown"
proof -
  let ?i = "classify_failure lib (\<lambda>a. exc.truncate (h a)) a"
  have "fi_category ?i \<in> insert Unknown protected_categories"
    using dominated_category [OF assms(1,2)] assms(3) by (simp add: classify_failure_def exc.defs)
  moreover have "ob_classification ob = Some ?i" by (simp add: ob [symmetric] observe_exception_def Let_def)
  then have "rt_cause f = Some (fi_category ?i)"
    by (simp add: f [symmetric] build_root_turn_failure_def Let_def case_prod_beta)
  ultimately have cause: "rt_cause f \<in> Some ` insert Unknown protected_categories" by blast
  let ?transport = "Option.bind (evidence_of (Some ob)) ce_transport"
  let ?facts = "\<lparr>cf_timeout = None, cf_stop_reason = stop, cf_cause = rt_cause f, cf_phase = derive_phase (Some (ob_phase ob)) ?transport,
      cf_admission_error = (ob_exception_type ob = ''AllDeploymentsUnavailableError''), cf_transport = ?transport\<rparr>"
  have facts: "rt_class f = derive_root_failure_class ?facts" "rt_cause f = cf_cause ?facts"
    by (simp_all add: f [symmetric] build_root_turn_failure_def Let_def case_prod_beta)
  have "retriable env f"
    using gate(2) gate(1)
    by (auto simp: scheduled_def schedule_root_def schedule_failure_decision split: option.splits if_splits)
  then have "derive_root_failure_class ?facts \<in> transient_failure_classes" using facts(1) unfolding retriable_def by metis
  moreover have "cf_cause ?facts \<in> Some ` insert Unknown protected_categories" using cause by simp
  ultimately show ?thesis using protected_root_class [of ?facts] facts by metis
qed

section \<open>Samples\<close>

definition root_sample_config :: root_config where
  "root_sample_config =
     \<lparr>rcg_enabled = True, rcg_auto_max = 2, rcg_deadline = 2400, rcg_cooldowns = [30, 120], rcg_jitter = 0, rcg_recheck = 1,
      rcg_eligible = [El_Connection, El_Rate_Limit, El_Launch_Failure]\<rparr>"

definition root_sample_view :: root_session_view where
  "root_sample_view =
     \<lparr>rvw_session_id = ''s'', rvw_active_turn = None, rvw_queued_work = False, rvw_open_callbacks = False,
      rvw_stop_requested = False, rvw_handoff_pending = False, rvw_lifecycle_reserved = False, rvw_closing = False\<rparr>"

definition root_sample_env :: root_env where
  "root_sample_env =
     \<lparr>rev_config = root_sample_config, rev_view = root_sample_view, rev_availability = None, rev_transcript = None,
      rev_clock = (\<lambda>_. 100), rev_draw = 0, rev_stages = (\<lambda>_. True)\<rparr>"

text \<open>A launch that reached no backend; the cancellation behind it is out of the classification's sight.\<close>

definition missed_cancellation :: root_turn_failure where
  "missed_cancellation =
     build_root_turn_failure (\<lambda>_. True) 0 (Some (observe_exception no_lib Some cancelled_launch_heap 0 ''turn'' None None None 1))
       ''t'' (None, None, None) None True False []"

definition captured_gate :: root_gate where
  "captured_gate = capture_terminal missed_cancellation new_root_gate"

definition sample_schedule :: schedule_params where
  "sample_schedule = \<lparr>sp_session = ''s'', sp_turn = ''t'', sp_generation = 7\<rparr>"

theorem protected_root_failure_not_continued_witness:
  "scheduled root_sample_env sample_schedule captured_gate \<and> rt_class missed_cancellation = Launch_Failure"
proof -
  have s: "scheduled root_sample_env sample_schedule captured_gate" by code_simp
  have "dominates no_lib (exc.truncate (cancelled_launch_heap 9))" by code_simp
  moreover have "ex_info (cancelled_launch_heap 0) = None" by code_simp
  moreover have "map_of (gt_projections captured_gate) (sp_turn sample_schedule) = Some missed_cancellation" by code_simp
  ultimately show ?thesis
    using protected_root_failure_not_continued [OF cancellation_reached _ _ refl missed_cancellation_def [symmetric], of captured_gate sample_schedule root_sample_env]
      s by simp
qed

text \<open>
  A run with an admission.  The call that cancels waits for the delivery of its notice before it ends
  the episode; an admission in between is accepted although the cancellation answers that it took
  effect, and the continuation that then starts belongs to no episode.
\<close>

definition sample_key :: string where
  "sample_key = ''root-auto-recovery:root-auto-t:1''"

definition sample_admit :: admit_params where
  "sample_admit = \<lparr>amp_session = ''s'', amp_episode = ''root-auto-t'', amp_key = sample_key, amp_turn = ''t'', amp_generation = 7\<rparr>"

definition cancelling_calls :: "root_call list" where
  "cancelling_calls =
     [Rc_Capture missed_cancellation, Rc_Schedule root_sample_env sample_schedule,
      Rc_Cancel root_sample_env ''s'' ''root-auto-t'' []]"

lemma cancelled_episode_admits:
  "answer_of (fst (cancel_root root_sample_env ''s'' ''root-auto-t'' []
     (rmc_gate (root_runs (take 2 cancelling_calls))))) = True"
  "arp_decision (answer_of (fst (admit_root root_sample_env sample_admit (rmc_gate (root_runs cancelling_calls))))) = Ad_Admitted"
  "rmc_log (root_runs (cancelling_calls @ [Rc_Admit root_sample_env sample_admit, Rc_Delivered ''root-auto-t''])) =
     [Rv_Admitted ''root-auto-t'' sample_key, Rv_Scheduled ''root-auto-t'' 1 2]"
  "gt_episodes (rmc_gate (root_runs (cancelling_calls @ [Rc_Admit root_sample_env sample_admit, Rc_Delivered ''root-auto-t'']))) = []"
  by code_simp+

end
