(* ===== verification/Dangerous_Commands.thy ===== *)
theory Dangerous_Commands
  imports Endpoint
begin

text \<open>
  The operations a user can be asked to authorize, the choices offered for them, the canonical
  destination of a remote command, and what an authority admits (\<open>core/dangerous_commands.py\<close>).  A path
  is the text of its normalized form.  Answers of the library on addresses are parameters:
  \<open>ipv6\<close> is the compressed form of an IPv6 literal, \<open>parse_ip\<close> the address a text denotes, with
  the properties the library reports for it.
\<close>

section \<open>Operations\<close>

datatype command_class = Publication | Consequential | Remote_Exec
datatype grant_choice = Deny | Allow_Once | Allow_Session | Allow_Project

record dangerous_operation =
  dop_id :: string
  dop_class :: command_class
  dop_persistable :: bool

definition remote_exec_operation_id :: string where "remote_exec_operation_id = ''network.remote-exec''"

definition operation_entries :: "dangerous_operation list" where
  "operation_entries = map (\<lambda>(i, c, p). \<lparr>dop_id = i, dop_class = c, dop_persistable = p\<rparr>)
     [(''git.push'', Publication, True), (''git.push.force'', Consequential, False), (''git.push.delete'', Consequential, False),
      (''git.push.mirror'', Consequential, False), (''git.checkout'', Consequential, False),
      (''git.restore'', Consequential, False), (''git.switch.discard'', Consequential, False),
      (''git.stash.drop'', Consequential, False), (''git.stash.clear'', Consequential, False),
      (''git.reflog.expire'', Consequential, False), (''git.reflog.delete'', Consequential, False),
      (''network.egress'', Publication, True), (''network.remote-exec'', Remote_Exec, True)]"

definition operation_named :: "string \<Rightarrow> dangerous_operation option" where
  "operation_named i = find (\<lambda>e. dop_id e = i) operation_entries"

text \<open>\<open>None\<close> is the \<open>ValueError\<close> for an operation that is not registered.\<close>

definition operations_for_ids :: "string list \<Rightarrow> dangerous_operation list option" where
  "operations_for_ids ids =
     (if list_ex (\<lambda>i. operation_named i = None) ids then None
      else Some (filter (\<lambda>e. dop_id e \<in> set ids) operation_entries))"

fun grant_choices_for :: "command_class \<Rightarrow> grant_choice list" where
  "grant_choices_for Publication = [Deny, Allow_Once, Allow_Session, Allow_Project]"
| "grant_choices_for Consequential = [Deny, Allow_Once, Allow_Session]"
| "grant_choices_for Remote_Exec = [Deny, Allow_Once, Allow_Session, Allow_Project]"

definition is_grant_choice_valid :: "string \<Rightarrow> grant_choice \<Rightarrow> bool" where
  "is_grant_choice_valid i choice \<longleftrightarrow>
     (case operation_named i of None \<Rightarrow> False | Some e \<Rightarrow> choice \<in> set (grant_choices_for (dop_class e)))"

section \<open>Destinations\<close>

record remote_destination =
  rdn_user :: string
  rdn_host :: string
  rdn_port :: nat

definition destination_key :: "remote_destination \<Rightarrow> string" where
  "destination_key d =
     rdn_user d @ ''@'' @ (if CHR '':'' \<in> set (rdn_host d) then ''['' @ rdn_host d @ '']'' else rdn_host d) @
     '':'' @ show_nat (rdn_port d)"

definition is_alnum :: "char \<Rightarrow> bool" where
  "is_alnum c \<longleftrightarrow> (CHR ''0'' \<le> c \<and> c \<le> CHR ''9'') \<or> (CHR ''A'' \<le> c \<and> c \<le> CHR ''Z'') \<or> (CHR ''a'' \<le> c \<and> c \<le> CHR ''z'')"

definition is_user_char :: "char \<Rightarrow> bool" where
  "is_user_char c \<longleftrightarrow> is_alnum c \<or> c \<in> set ''._+-''"

definition is_host_char :: "char \<Rightarrow> bool" where
  "is_host_char c \<longleftrightarrow> is_alnum c \<or> c \<in> set ''.-''"

definition is_ipv6_char :: "char \<Rightarrow> bool" where
  "is_ipv6_char c \<longleftrightarrow> is_alnum c \<and> \<not> (CHR ''G'' \<le> c \<and> c \<le> CHR ''Z'') \<and> \<not> (CHR ''g'' \<le> c \<and> c \<le> CHR ''z'') \<or> c \<in> set '':.''"

definition is_host_name :: "string \<Rightarrow> bool" where
  "is_host_name h \<longleftrightarrow> h \<noteq> [] \<and> is_alnum (hd h) \<and> is_alnum (last h) \<and> list_all is_host_char h"

text \<open>
  The regular expression splits at the first \<open>@\<close>, which no user has; after it the host ends at the
  closing bracket or at the first colon.
\<close>

definition split_destination :: "string \<Rightarrow> (string \<times> string \<times> string option) option" where
  "split_destination s =
     (let user = takeWhile (\<lambda>c. c \<noteq> CHR ''@'') s; rest = drop (length user + 1) s;
          stop = (if take 1 rest = ''['' then CHR '']'' else CHR '':'');
          name = takeWhile (\<lambda>c. c \<noteq> stop) rest;
          closing = (if take 1 rest = ''['' then 1 else 0);
          tail = drop (length name + closing) rest
      in if CHR ''@'' \<notin> set s \<or> (closing = 1 \<and> CHR '']'' \<notin> set rest) then None
         else if tail = [] then Some (user, take (length name + closing) rest, None)
         else if take 1 tail = '':'' then Some (user, take (length name + closing) rest, Some (drop 1 tail))
         else None)"

definition port_digits :: "string \<Rightarrow> bool" where
  "port_digits p \<longleftrightarrow> list_all is_digit p \<and> 1 \<le> length p \<and> length p \<le> 5"

definition max_tcp_port :: nat where "max_tcp_port = 65535"

definition canonical_remote_destination :: "(string \<Rightarrow> string option) \<Rightarrow> string \<Rightarrow> remote_destination option" where
  "canonical_remote_destination ipv6 value =
     (case split_destination (py_strip value) of
        None \<Rightarrow> None
      | Some (user, raw_host, raw_port) \<Rightarrow>
          if user = [] \<or> \<not> list_all is_user_char user \<or> (case raw_port of None \<Rightarrow> False | Some p \<Rightarrow> \<not> port_digits p) then None
          else
            case (if take 1 raw_host = ''['' then
                    (let body = butlast (tl raw_host)
                     in if body = [] \<or> \<not> list_all is_ipv6_char body then None else ipv6 body)
                  else if is_host_name raw_host then Some (py_lower raw_host) else None) of
              None \<Rightarrow> None
            | Some host \<Rightarrow>
                (let port = (case raw_port of None \<Rightarrow> 22 | Some p \<Rightarrow> decimal_value p)
                 in if 1 \<le> port \<and> port \<le> max_tcp_port
                    then Some \<lparr>rdn_user = user, rdn_host = host, rdn_port = port\<rparr> else None))"

section \<open>Locality of addresses\<close>

text \<open>An address with what the library reports of it; its value decides equality.\<close>

record ip_address =
  ipa_v4 :: bool
  ipa_value :: nat
  ipa_unspecified :: bool
  ipa_loopback :: bool
  ipa_link_local :: bool
  ipa_multicast :: bool
  ipa_private :: bool
  ipa_reserved :: bool
  ipa_global :: bool
  ipa_sixtofour :: bool
  ipa_teredo :: bool

definition same_address :: "ip_address \<Rightarrow> ip_address \<Rightarrow> bool" where
  "same_address a b \<longleftrightarrow> ipa_v4 a = ipa_v4 b \<and> ipa_value a = ipa_value b"

definition parse_ip_literal :: "(string \<Rightarrow> ip_address option) \<Rightarrow> string \<Rightarrow> ip_address option" where
  "parse_ip_literal parse_ip host =
     (let text = py_strip host
      in parse_ip (if take 1 text = ''['' \<and> last text = CHR '']'' then butlast (tl text) else text))"

text \<open>\<open>0.0.0.0/8\<close> and \<open>::ffff:0:0/96\<close>.\<close>

definition in_this_network :: "ip_address \<Rightarrow> bool" where
  "in_this_network a \<longleftrightarrow> ipa_value a < 2 ^ 24"

definition in_mapped_block :: "ip_address \<Rightarrow> bool" where
  "in_mapped_block a \<longleftrightarrow> ipa_value a div 2 ^ 32 = 0xffff"

definition is_local_form :: "ip_address \<Rightarrow> bool" where
  "is_local_form a \<longleftrightarrow>
     (if ipa_unspecified a \<or> ipa_loopback a \<or> ipa_link_local a \<or> ipa_multicast a then True
      else if ipa_private a \<or> ipa_reserved a \<or> \<not> ipa_global a then True
      else if ipa_v4 a then in_this_network a
      else in_mapped_block a \<or> ipa_sixtofour a \<or> ipa_teredo a)"

text \<open>\<open>None\<close> for the interfaces is an enumeration that raised; \<open>True\<close> is the verdict \<open>non_local\<close>.\<close>

definition address_non_local :: "ip_address \<Rightarrow> ip_address list option \<Rightarrow> bool" where
  "address_non_local a interfaces \<longleftrightarrow>
     (case interfaces of
        None \<Rightarrow> False
      | Some is \<Rightarrow> is \<noteq> [] \<and> \<not> list_ex (same_address a) is \<and> \<not> is_local_form a)"

definition classify_local_address ::
  "(string \<Rightarrow> ip_address option) \<Rightarrow> ip_address list option \<Rightarrow> string \<Rightarrow> bool" where
  "classify_local_address parse_ip interfaces host \<longleftrightarrow>
     (case parse_ip_literal parse_ip host of None \<Rightarrow> False | Some a \<Rightarrow> address_non_local a interfaces)"

datatype hostname_verdict = Unique_Non_Local | Ambiguous_Host | Local_Host | Resolution_Failed

text \<open>
  The resolver's distinct answers, \<open>None\<close> when it raised.  The code prints the single answer and parses
  it again, which gives the address back.
\<close>

definition classify_hostname_resolution ::
  "(string \<Rightarrow> ip_address option) \<Rightarrow> ip_address list option \<Rightarrow> ip_address list option \<Rightarrow> string \<Rightarrow>
     hostname_verdict \<times> ip_address option" where
  "classify_hostname_resolution parse_ip interfaces answers host =
     (if parse_ip_literal parse_ip host \<noteq> None then (Resolution_Failed, None)
      else case answers of
        None \<Rightarrow> (Resolution_Failed, None)
      | Some [] \<Rightarrow> (Resolution_Failed, None)
      | Some [a] \<Rightarrow> if address_non_local a interfaces then (Unique_Non_Local, Some a) else (Local_Host, Some a)
      | Some _ \<Rightarrow> (Ambiguous_Host, None))"

datatype rebind_verdict = Rebind_Unchanged | Rebind_Changed | Rebind_Denied hostname_verdict

definition classify_resolution_rebind ::
  "(string \<Rightarrow> ip_address option) \<Rightarrow> ip_address list option \<Rightarrow> ip_address list option \<Rightarrow> string \<Rightarrow> string \<Rightarrow>
     rebind_verdict \<times> ip_address option" where
  "classify_resolution_rebind parse_ip interfaces answers host pinned =
     (case parse_ip_literal parse_ip pinned of
        None \<Rightarrow> (Rebind_Denied Resolution_Failed, None)
      | Some pin \<Rightarrow>
          (case classify_hostname_resolution parse_ip interfaces answers host of
             (Unique_Non_Local, Some a) \<Rightarrow> (if same_address a pin then Rebind_Unchanged else Rebind_Changed, Some a)
           | (verdict, a) \<Rightarrow> (Rebind_Denied verdict, a)))"

section \<open>Authority\<close>

record repository_scope =
  rpo_git_dir :: string
  rpo_work_tree :: "string option"

datatype authority_source = Protected_Config | Runtime_Grant

record command_authority =
  cau_operations :: "string set"
  cau_scope :: repository_scope
  cau_source :: authority_source
  cau_destination :: "remote_destination option"

definition authority_admits ::
  "command_authority \<Rightarrow> string \<Rightarrow> repository_scope \<Rightarrow> remote_destination option \<Rightarrow> bool" where
  "authority_admits a i scope destination \<longleftrightarrow>
     (if cau_scope a \<noteq> scope \<or> i \<notin> cau_operations a then False
      else if i = remote_exec_operation_id
      then destination \<noteq> None \<and> cau_destination a \<noteq> None \<and> cau_destination a = destination
      else cau_destination a = None)"

record command_proposal =
  cpr_command :: "string list"
  cpr_project :: string
  cpr_scope :: repository_scope
  cpr_operations :: "string list"
  cpr_destination :: "remote_destination option"

section \<open>Choices\<close>

text \<open>What is persistable is what offers the choice for the project.\<close>

lemma project_choice_iff:
  "is_grant_choice_valid i Allow_Project \<longleftrightarrow> (case operation_named i of None \<Rightarrow> False | Some e \<Rightarrow> dop_persistable e)"
proof -
  have "list_all (\<lambda>e. (Allow_Project \<in> set (grant_choices_for (dop_class e))) = dop_persistable e) operation_entries"
    by code_simp
  moreover have "operation_named i = Some e \<Longrightarrow> e \<in> set operation_entries" for e
    by (auto simp: operation_named_def find_Some_iff)
  ultimately show ?thesis by (auto simp: is_grant_choice_valid_def list_all_iff split: option.split)
qed

end
