(* ===== verification/Grant_Store.thy ===== *)
theory Grant_Store
  imports Dangerous_Commands "HOL-Library.Product_Lexorder"
begin

text \<open>
  The store of one agent loop: session grants, once permits and refusal memory
  (\<open>DangerousCommandGrantStore\<close> of \<open>core/agent_loop/_dangerous_command_grants.py\<close>).  Dictionaries of
  sets are association lists of sets.  A list argument stands for an iterable in the order it is
  walked.
\<close>

section \<open>Records\<close>

type_synonym requirement = "string \<times> repository_scope"

record call_identity =
  cid_scope :: repository_scope
  cid_command :: "string list"

record remote_requirement =
  rxr_scope :: repository_scope
  rxr_destination :: remote_destination

record grant_store =
  gst_session :: "(repository_scope \<times> string set) list"
  gst_once :: "requirement set list"
  gst_remote :: "(repository_scope \<times> remote_destination set) list"
  gst_remote_once :: "remote_requirement set list"
  gst_refusals :: "call_identity set"
  gst_generation :: nat

definition empty_grants :: grant_store where
  "empty_grants = \<lparr>gst_session = [], gst_once = [], gst_remote = [], gst_remote_once = [],
     gst_refusals = {}, gst_generation = 0\<rparr>"

definition bump_generation :: "grant_store \<Rightarrow> grant_store" where
  "bump_generation g = g\<lparr>gst_generation := Suc (gst_generation g)\<rparr>"

definition bump_when :: "bool \<Rightarrow> grant_store \<Rightarrow> grant_store" where
  "bump_when b g = (if b then bump_generation g else g)"

section \<open>Dictionaries of sets\<close>

definition held :: "('k \<times> 'v set) list \<Rightarrow> 'k \<Rightarrow> 'v set" where
  "held d k = (case map_of d k of None \<Rightarrow> {} | Some vs \<Rightarrow> vs)"

text \<open>One turn of a granting loop and of a revoking loop, with the flag \<open>changed\<close>.\<close>

definition grant_one :: "'k \<Rightarrow> 'v \<Rightarrow> bool \<times> ('k \<times> 'v set) list \<Rightarrow> bool \<times> ('k \<times> 'v set) list" where
  "grant_one k v st =
     (case st of (changed, d) \<Rightarrow>
        let vs = held d k in if v \<in> vs then (changed, d) else (True, dict_set k (insert v vs) d))"

definition revoke_one :: "'k \<Rightarrow> 'v \<Rightarrow> bool \<times> ('k \<times> 'v set) list \<Rightarrow> bool \<times> ('k \<times> 'v set) list" where
  "revoke_one k v st =
     (case st of (changed, d) \<Rightarrow>
        (case map_of d k of
           None \<Rightarrow> (changed, d)
         | Some vs \<Rightarrow>
             if v \<in> vs then (True, if vs - {v} = {} then dict_pop k d else dict_set k (vs - {v}) d)
             else (changed, d)))"

section \<open>Operations\<close>

definition record_refusal :: "call_identity \<Rightarrow> grant_store \<Rightarrow> grant_store" where
  "record_refusal c g =
     (if c \<in> gst_refusals g then g else bump_generation (g\<lparr>gst_refusals := insert c (gst_refusals g)\<rparr>))"

definition is_refused :: "call_identity \<Rightarrow> grant_store \<Rightarrow> bool" where
  "is_refused c g \<longleftrightarrow> c \<in> gst_refusals g"

definition grant_session :: "requirement list \<Rightarrow> grant_store \<Rightarrow> bool \<times> grant_store" where
  "grant_session reqs g =
     (let (changed, d) = fold (\<lambda>(i, s). grant_one s i) reqs (False, gst_session g)
      in (changed, bump_when changed (g\<lparr>gst_session := d\<rparr>)))"

definition revoke_turn ::
  "requirement \<Rightarrow> bool \<times> (repository_scope \<times> string set) list \<times> (repository_scope \<times> remote_destination set) list
     \<Rightarrow> bool \<times> (repository_scope \<times> string set) list \<times> (repository_scope \<times> remote_destination set) list" where
  "revoke_turn r st =
     (case (r, st) of ((i, s), (changed, d, remote)) \<Rightarrow>
        let popped = (i = remote_exec_operation_id \<and> map_of remote s \<noteq> None);
            remote' = (if i = remote_exec_operation_id then dict_pop s remote else remote);
            (changed', d') = revoke_one s i (changed \<or> popped, d)
        in (changed', d', remote'))"

definition revoke_session :: "requirement list \<Rightarrow> grant_store \<Rightarrow> bool \<times> grant_store" where
  "revoke_session reqs g =
     (let (changed, d, remote) = fold revoke_turn reqs (False, gst_session g, gst_remote g)
      in (changed, bump_when changed (g\<lparr>gst_session := d, gst_remote := remote\<rparr>)))"

definition grant_remote_exec_session :: "remote_requirement list \<Rightarrow> grant_store \<Rightarrow> bool \<times> grant_store" where
  "grant_remote_exec_session reqs g =
     (let (changed, d) = fold (\<lambda>r. grant_one (rxr_scope r) (rxr_destination r)) reqs (False, gst_remote g)
      in (changed, bump_when changed (g\<lparr>gst_remote := d\<rparr>)))"

definition revoke_remote_exec_session :: "remote_requirement list \<Rightarrow> grant_store \<Rightarrow> bool \<times> grant_store" where
  "revoke_remote_exec_session reqs g =
     (let (changed, d) = fold (\<lambda>r. revoke_one (rxr_scope r) (rxr_destination r)) reqs (False, gst_remote g)
      in (changed, bump_when changed (g\<lparr>gst_remote := d\<rparr>)))"

definition scope_sort_key :: "repository_scope \<Rightarrow> string \<times> string" where
  "scope_sort_key s = (rpo_git_dir s, case rpo_work_tree s of None \<Rightarrow> '''' | Some w \<Rightarrow> w)"

definition remote_exec_scopes_for_destination :: "remote_destination \<Rightarrow> grant_store \<Rightarrow> repository_scope list" where
  "remote_exec_scopes_for_destination x g =
     sort_key scope_sort_key (map fst (filter (\<lambda>(s, xs). x \<in> xs) (gst_remote g)))"

definition install_remote_exec_once :: "remote_requirement set \<Rightarrow> grant_store \<Rightarrow> grant_store" where
  "install_remote_exec_once p g = bump_generation (g\<lparr>gst_remote_once := gst_remote_once g @ [p]\<rparr>)"

definition destroy_remote_exec_once :: "remote_requirement set \<Rightarrow> grant_store \<Rightarrow> grant_store" where
  "destroy_remote_exec_once p g =
     (if p \<in> set (gst_remote_once g)
      then bump_generation (g\<lparr>gst_remote_once := remove1 p (gst_remote_once g)\<rparr>) else g)"

definition install_once :: "requirement set \<Rightarrow> grant_store \<Rightarrow> grant_store" where
  "install_once p g = bump_generation (g\<lparr>gst_once := gst_once g @ [p]\<rparr>)"

definition destroy_once :: "requirement set \<Rightarrow> grant_store \<Rightarrow> grant_store" where
  "destroy_once p g =
     (if p \<in> set (gst_once g) then bump_generation (g\<lparr>gst_once := remove1 p (gst_once g)\<rparr>) else g)"

text \<open>The number of permits invalidated, and the store.\<close>

definition invalidate_pending :: "requirement set \<Rightarrow> grant_store \<Rightarrow> nat \<times> grant_store" where
  "invalidate_pending wanted g =
     (let kept = filter (\<lambda>p. p \<inter> wanted = {}) (gst_once g);
          scopes = snd ` {r \<in> wanted. fst r = remote_exec_operation_id};
          kept_remote = (if scopes = {} then gst_remote_once g
            else filter (\<lambda>p. \<not> (\<exists>r \<in> p. rxr_scope r \<in> scopes)) (gst_remote_once g));
          n = (length (gst_once g) - length kept) + (length (gst_remote_once g) - length kept_remote)
      in (n, bump_when (n \<noteq> 0) (g\<lparr>gst_once := kept, gst_remote_once := kept_remote\<rparr>)))"

definition invalidate_pending_destinations :: "remote_destination set \<Rightarrow> grant_store \<Rightarrow> nat \<times> grant_store" where
  "invalidate_pending_destinations wanted g =
     (let kept = filter (\<lambda>p. \<not> (\<exists>r \<in> p. rxr_destination r \<in> wanted)) (gst_remote_once g);
          n = length (gst_remote_once g) - length kept
      in (n, bump_when (n \<noteq> 0) (g\<lparr>gst_remote_once := kept\<rparr>)))"

definition clear_session_state :: "grant_store \<Rightarrow> bool \<times> grant_store" where
  "clear_session_state g =
     (gst_session g \<noteq> [] \<or> gst_once g \<noteq> [] \<or> gst_remote g \<noteq> [] \<or> gst_remote_once g \<noteq> [] \<or> gst_refusals g \<noteq> {},
      bump_generation (g\<lparr>gst_session := [], gst_once := [], gst_remote := [], gst_remote_once := [], gst_refusals := {}\<rparr>))"

section \<open>Live authority\<close>

text \<open>The tuple of authorities, as a set: its order is not observed by what admits a call.\<close>

definition authorities_for :: "requirement set \<Rightarrow> command_authority set" where
  "authorities_for reqs =
     (\<lambda>s. \<lparr>cau_operations = fst ` {r \<in> reqs. snd r = s}, cau_scope = s, cau_source = Runtime_Grant,
        cau_destination = None\<rparr>) ` (snd ` reqs)"

definition remote_authority :: "repository_scope \<Rightarrow> remote_destination \<Rightarrow> command_authority" where
  "remote_authority s x =
     \<lparr>cau_operations = {remote_exec_operation_id}, cau_scope = s, cau_source = Runtime_Grant, cau_destination = Some x\<rparr>"

definition remote_exec_authorities :: "grant_store \<Rightarrow> command_authority set" where
  "remote_exec_authorities g =
     (\<Union>(s, xs) \<in> set (gst_remote g). remote_authority s ` xs) \<union>
     (\<Union>p \<in> set (gst_remote_once g). (\<lambda>r. remote_authority (rxr_scope r) (rxr_destination r)) ` p)"

definition dangerous_command_authorities :: "grant_store \<Rightarrow> command_authority set" where
  "dangerous_command_authorities g =
     (\<Union>(s, ops) \<in> set (gst_session g). if ops = {} then {} else
        {\<lparr>cau_operations = ops, cau_scope = s, cau_source = Runtime_Grant, cau_destination = None\<rparr>}) \<union>
     (\<Union>p \<in> set (gst_once g). authorities_for p) \<union> remote_exec_authorities g"

text \<open>What a resolution finds covered by the live authority.\<close>

definition live_admits :: "grant_store \<Rightarrow> string \<Rightarrow> repository_scope \<Rightarrow> remote_destination option \<Rightarrow> bool" where
  "live_admits g i s x \<longleftrightarrow> (\<exists>a \<in> dangerous_command_authorities g. authority_admits a i s x)"

section \<open>Removing live authority\<close>

text \<open>
  \<open>_apply_live_removal\<close> of \<open>app_server/_subagent_authority.py\<close>; \<open>walk\<close> is the order in which the set of
  requirements is walked.
\<close>

definition revoked_requirements :: "string \<Rightarrow> grant_store \<Rightarrow> requirement set" where
  "revoked_requirements i g =
     (\<lambda>a. (i, cau_scope a)) ` {a \<in> dangerous_command_authorities g. i \<in> cau_operations a}"

definition apply_live_removal ::
  "(requirement set \<Rightarrow> requirement list) \<Rightarrow> string \<Rightarrow> remote_destination option \<Rightarrow> grant_store \<Rightarrow> grant_store" where
  "apply_live_removal walk i destination g =
     (case destination of
        Some x \<Rightarrow>
          snd (invalidate_pending_destinations {x}
            (snd (revoke_remote_exec_session
              (map (\<lambda>s. \<lparr>rxr_scope = s, rxr_destination = x\<rparr>) (remote_exec_scopes_for_destination x g)) g)))
      | None \<Rightarrow>
          (let reqs = revoked_requirements i g
           in snd (invalidate_pending reqs (snd (revoke_session (walk reqs) g)))))"

end
