(* ===== verification/Grant_Props.thy ===== *)
theory Grant_Props
  imports Grant_Store
begin

text \<open>
  The grant store as a set of session grants and a multiset of permits: every operation refines the
  operation on those, what the store admits is read off them, and the generation number stands for
  the whole content of the store.
\<close>

section \<open>Sequences of operations\<close>

datatype grant_op =
    Record_Refusal call_identity
  | Grant_Session "requirement list"
  | Revoke_Session "requirement list"
  | Grant_Remote "remote_requirement list"
  | Revoke_Remote "remote_requirement list"
  | Install_Once "requirement set"
  | Destroy_Once "requirement set"
  | Install_Remote_Once "remote_requirement set"
  | Destroy_Remote_Once "remote_requirement set"
  | Invalidate_Pending "requirement set"
  | Invalidate_Destinations "remote_destination set"
  | Clear_Session

fun grant_step :: "grant_op \<Rightarrow> grant_store \<Rightarrow> grant_store" where
  "grant_step (Record_Refusal c) g = record_refusal c g"
| "grant_step (Grant_Session rs) g = snd (grant_session rs g)"
| "grant_step (Revoke_Session rs) g = snd (revoke_session rs g)"
| "grant_step (Grant_Remote rs) g = snd (grant_remote_exec_session rs g)"
| "grant_step (Revoke_Remote rs) g = snd (revoke_remote_exec_session rs g)"
| "grant_step (Install_Once p) g = install_once p g"
| "grant_step (Destroy_Once p) g = destroy_once p g"
| "grant_step (Install_Remote_Once p) g = install_remote_exec_once p g"
| "grant_step (Destroy_Remote_Once p) g = destroy_remote_exec_once p g"
| "grant_step (Invalidate_Pending rs) g = snd (invalidate_pending rs g)"
| "grant_step (Invalidate_Destinations xs) g = snd (invalidate_pending_destinations xs g)"
| "grant_step Clear_Session g = snd (clear_session_state g)"

definition run_grants :: "grant_op list \<Rightarrow> grant_store \<Rightarrow> grant_store" where
  "run_grants ops g = fold grant_step ops g"

section \<open>Dictionaries of sets\<close>

definition dict_wf :: "('k \<times> 'v set) list \<Rightarrow> bool" where
  "dict_wf d \<longleftrightarrow> distinct (map fst d) \<and> (\<forall>e \<in> set d. snd e \<noteq> {})"

definition pairs :: "('k \<times> 'v set) list \<Rightarrow> ('k \<times> 'v) set" where
  "pairs d = {(k, v). v \<in> held d k}"

lemma held_dict_set [simp]: "held (dict_set k vs d) q = (if q = k then vs else held d q)"
  by (simp add: held_def)

lemma held_dict_pop [simp]: "held (dict_pop k d) q = (if q = k then {} else held d q)"
  by (simp add: held_def)

lemma mem_pairs [simp]: "(k, v) \<in> pairs d \<longleftrightarrow> v \<in> held d k"
  by (simp add: pairs_def)

lemma set_dict_set_subset: "set (dict_set k vs d) \<subseteq> insert (k, vs) (set d)"
  by (induction k vs d rule: dict_set.induct) auto

lemma dict_wf_set [intro]: "dict_wf d \<Longrightarrow> vs \<noteq> {} \<Longrightarrow> dict_wf (dict_set k vs d)"
  using set_dict_set_subset [of k vs d] by (fastforce simp: dict_wf_def)

lemma dict_wf_pop [intro]: "dict_wf d \<Longrightarrow> dict_wf (dict_pop k d)"
  using distinct_dict_pop [of d k] by (auto simp: dict_wf_def dict_pop_def)

lemma dict_wf_Nil [simp]: "dict_wf []"
  by (simp add: dict_wf_def)

lemma dict_wf_mem: "dict_wf d \<Longrightarrow> (k, vs) \<in> set d \<longleftrightarrow> vs \<noteq> {} \<and> held d k = vs"
proof -
  assume d: "dict_wf d"
  then have "(k, vs) \<in> set d \<longleftrightarrow> map_of d k = Some vs" by (simp add: dict_wf_def)
  moreover have "vs \<noteq> {}" if "(k, vs) \<in> set d" using d that by (auto simp: dict_wf_def)
  ultimately show ?thesis by (cases "map_of d k") (auto simp: held_def)
qed

text \<open>A walk that changes nothing leaves the dictionary as it is, and says so.\<close>

definition walk_ok :: "bool \<times> 'd \<Rightarrow> bool \<times> 'd \<Rightarrow> bool" where
  "walk_ok st st' \<longleftrightarrow> (fst st \<longrightarrow> fst st') \<and> (\<not> fst st' \<longrightarrow> snd st' = snd st)"

lemma fold_walk_ok: "(\<And>x st. walk_ok st (f x st)) \<Longrightarrow> walk_ok st (fold f xs st)"
proof (induction xs arbitrary: st)
  case (Cons x xs)
  have "walk_ok st (f x st)" "walk_ok (f x st) (fold f xs (f x st))" using Cons by blast+
  then show ?case unfolding walk_ok_def fold_simps by metis
qed (simp add: walk_ok_def)

lemma grant_one_ok: "walk_ok st (grant_one k v st)"
  by (auto simp: walk_ok_def grant_one_def Let_def split: prod.split)

lemma revoke_one_ok: "walk_ok st (revoke_one k v st)"
  by (auto simp: walk_ok_def revoke_one_def split: prod.split option.split)

lemma held_grant_one: "held (snd (grant_one k v st)) q = held (snd st) q \<union> (if q = k then {v} else {})"
  by (auto simp: grant_one_def Let_def split: prod.split)

lemma held_revoke_one: "held (snd (revoke_one k v st)) q = held (snd st) q - (if q = k then {v} else {})"
  by (auto simp: revoke_one_def held_def split: prod.split option.split)

lemma wf_grant_one: "dict_wf (snd st) \<Longrightarrow> dict_wf (snd (grant_one k v st))"
  by (auto simp: grant_one_def Let_def split: prod.split)

lemma wf_revoke_one: "dict_wf (snd st) \<Longrightarrow> dict_wf (snd (revoke_one k v st))"
  by (auto simp: revoke_one_def split: prod.split option.split)

lemma fold_grants:
  "pairs (snd (fold (\<lambda>x. grant_one (k x) (v x)) xs st)) = pairs (snd st) \<union> (\<lambda>x. (k x, v x)) ` set xs"
  by (induction xs arbitrary: st) (auto simp: held_grant_one split: if_splits)

lemma fold_revokes:
  "pairs (snd (fold (\<lambda>x. revoke_one (k x) (v x)) xs st)) = pairs (snd st) - (\<lambda>x. (k x, v x)) ` set xs"
  by (induction xs arbitrary: st) (auto simp: held_revoke_one split: if_splits)

lemma fold_grants_wf: "dict_wf (snd st) \<Longrightarrow> dict_wf (snd (fold (\<lambda>x. grant_one (k x) (v x)) xs st))"
proof (induction xs arbitrary: st)
  case (Cons x xs)
  then show ?case using wf_grant_one [OF Cons.prems, of "k x" "v x"] by simp
qed simp

lemma fold_revokes_wf: "dict_wf (snd st) \<Longrightarrow> dict_wf (snd (fold (\<lambda>x. revoke_one (k x) (v x)) xs st))"
proof (induction xs arbitrary: st)
  case (Cons x xs)
  then show ?case using wf_revoke_one [OF Cons.prems, of "k x" "v x"] by simp
qed simp

section \<open>The walk of a revocation\<close>

lemma revoke_turn_parts:
  fixes c i s d x
  defines "c' \<equiv> c \<or> (i = remote_exec_operation_id \<and> map_of x s \<noteq> None)"
  shows "revoke_turn (i, s) (c, d, x) =
    (fst (revoke_one s i (c', d)), snd (revoke_one s i (c', d)), if i = remote_exec_operation_id then dict_pop s x else x)"
  by (simp add: revoke_turn_def c'_def Let_def split: prod.split)

lemma dict_pop_absent: "map_of x s = None \<Longrightarrow> dict_pop s x = x"
  by (auto simp: dict_pop_def map_of_eq_None_iff filter_id_conv image_iff)

lemma revoke_turn_ok: "walk_ok st (revoke_turn r st)"
proof -
  obtain i s c d x where e: "r = (i, s)" "st = (c, d, x)" by (cases r; cases st; auto)
  let ?c = "c \<or> (i = remote_exec_operation_id \<and> map_of x s \<noteq> None)"
  have "walk_ok (?c, d) (revoke_one s i (?c, d))" by (rule revoke_one_ok)
  then show ?thesis unfolding e revoke_turn_parts walk_ok_def
    by (cases "map_of x s") (auto simp: dict_pop_absent)
qed

lemma revoke_turn_session: "held (fst (snd (revoke_turn r st))) q = held (fst (snd st)) q - {i. r = (i, q)}"
proof -
  obtain i s c d x where e: "r = (i, s)" "st = (c, d, x)" by (cases r; cases st; auto)
  show ?thesis unfolding e revoke_turn_parts by (auto simp: held_revoke_one split: if_splits)
qed

lemma revoke_turn_remote:
  "held (snd (snd (revoke_turn r st))) q = (if r = (remote_exec_operation_id, q) then {} else held (snd (snd st)) q)"
  by (cases r; cases st) (auto simp: revoke_turn_def Let_def split: prod.split)

lemma revoke_turn_wf:
  assumes "dict_wf (fst (snd st))" "dict_wf (snd (snd st))"
  shows "dict_wf (fst (snd (revoke_turn r st))) \<and> dict_wf (snd (snd (revoke_turn r st)))"
proof -
  obtain i s c d x where e: "r = (i, s)" "st = (c, d, x)" by (cases r; cases st; auto)
  show ?thesis using assms unfolding e revoke_turn_parts by (auto intro!: wf_revoke_one)
qed

lemma fold_revoke_turns_wf:
  "dict_wf (fst (snd st)) \<Longrightarrow> dict_wf (snd (snd st)) \<Longrightarrow>
     dict_wf (fst (snd (fold revoke_turn rs st))) \<and> dict_wf (snd (snd (fold revoke_turn rs st)))"
proof (induction rs arbitrary: st)
  case (Cons r rs)
  then show ?case using revoke_turn_wf [of st r] by simp
qed simp

lemma fold_revoke_turns:
  "held (fst (snd (fold revoke_turn rs st))) q = held (fst (snd st)) q - {i. (i, q) \<in> set rs}"
  "held (snd (snd (fold revoke_turn rs st))) q =
     (if (remote_exec_operation_id, q) \<in> set rs then {} else held (snd (snd st)) q)"
  by (induction rs arbitrary: st) (auto simp: revoke_turn_session revoke_turn_remote)

section \<open>The abstract store\<close>

record authority_state =
  aus_session :: "requirement set"
  aus_once :: "requirement set multiset"
  aus_remote :: "remote_requirement set"
  aus_remote_once :: "remote_requirement set multiset"
  aus_refusals :: "call_identity set"

definition abs_grants :: "grant_store \<Rightarrow> authority_state" where
  "abs_grants g =
     \<lparr>aus_session = {(i, s). i \<in> held (gst_session g) s}, aus_once = mset (gst_once g),
      aus_remote = {r. rxr_destination r \<in> held (gst_remote g) (rxr_scope r)},
      aus_remote_once = mset (gst_remote_once g), aus_refusals = gst_refusals g\<rparr>"

fun authority_step :: "grant_op \<Rightarrow> authority_state \<Rightarrow> authority_state" where
  "authority_step (Record_Refusal c) a = a\<lparr>aus_refusals := insert c (aus_refusals a)\<rparr>"
| "authority_step (Grant_Session rs) a = a\<lparr>aus_session := aus_session a \<union> set rs\<rparr>"
| "authority_step (Revoke_Session rs) a =
     a\<lparr>aus_session := aus_session a - set rs,
       aus_remote := {r \<in> aus_remote a. (remote_exec_operation_id, rxr_scope r) \<notin> set rs}\<rparr>"
| "authority_step (Grant_Remote rs) a = a\<lparr>aus_remote := aus_remote a \<union> set rs\<rparr>"
| "authority_step (Revoke_Remote rs) a = a\<lparr>aus_remote := aus_remote a - set rs\<rparr>"
| "authority_step (Install_Once p) a = a\<lparr>aus_once := add_mset p (aus_once a)\<rparr>"
| "authority_step (Destroy_Once p) a = a\<lparr>aus_once := aus_once a - {#p#}\<rparr>"
| "authority_step (Install_Remote_Once p) a = a\<lparr>aus_remote_once := add_mset p (aus_remote_once a)\<rparr>"
| "authority_step (Destroy_Remote_Once p) a = a\<lparr>aus_remote_once := aus_remote_once a - {#p#}\<rparr>"
| "authority_step (Invalidate_Pending rs) a =
     a\<lparr>aus_once := filter_mset (\<lambda>p. p \<inter> rs = {}) (aus_once a),
       aus_remote_once := filter_mset (\<lambda>p. \<forall>r \<in> p. (remote_exec_operation_id, rxr_scope r) \<notin> rs) (aus_remote_once a)\<rparr>"
| "authority_step (Invalidate_Destinations xs) a =
     a\<lparr>aus_remote_once := filter_mset (\<lambda>p. rxr_destination ` p \<inter> xs = {}) (aus_remote_once a)\<rparr>"
| "authority_step Clear_Session a =
     \<lparr>aus_session = {}, aus_once = {#}, aus_remote = {}, aus_remote_once = {#}, aus_refusals = {}\<rparr>"

lemma bump_when_fields [simp]:
  "gst_session (bump_when b g) = gst_session g" "gst_once (bump_when b g) = gst_once g"
  "gst_remote (bump_when b g) = gst_remote g" "gst_remote_once (bump_when b g) = gst_remote_once g"
  "gst_refusals (bump_when b g) = gst_refusals g"
  "gst_generation (bump_when b g) = gst_generation g + (if b then 1 else 0)"
  by (simp_all add: bump_when_def bump_generation_def)

lemma bump_fields [simp]:
  "gst_session (bump_generation g) = gst_session g" "gst_once (bump_generation g) = gst_once g"
  "gst_remote (bump_generation g) = gst_remote g" "gst_remote_once (bump_generation g) = gst_remote_once g"
  "gst_refusals (bump_generation g) = gst_refusals g" "gst_generation (bump_generation g) = Suc (gst_generation g)"
  by (simp_all add: bump_generation_def)

lemma remote_scopes_filter:
  "(if S = {} then ps else filter (\<lambda>p. \<not> (\<exists>r \<in> p. rxr_scope r \<in> S)) ps) =
     filter (\<lambda>p. \<forall>r \<in> p. rxr_scope r \<notin> S) ps"
  by (auto simp: filter_id_conv cong: filter_cong)

lemma abs_grant_session: "abs_grants (snd (grant_session rs g)) = authority_step (Grant_Session rs) (abs_grants g)"
proof -
  have "pairs (snd (fold (\<lambda>x. grant_one (snd x) (fst x)) rs (False, gst_session g))) =
    pairs (gst_session g) \<union> (\<lambda>x. (snd x, fst x)) ` set rs"
    using fold_grants [of snd fst rs] by simp
  then have "(s, i) \<in> pairs (snd (fold (\<lambda>x. grant_one (snd x) (fst x)) rs (False, gst_session g))) \<longleftrightarrow>
    (s, i) \<in> pairs (gst_session g) \<or> (i, s) \<in> set rs" for s i by force
  then show ?thesis
    by (auto simp: grant_session_def abs_grants_def case_prod_beta' case_prod_beta Let_def)
qed

lemma same_requirement: "rxr_scope r = rxr_scope q \<Longrightarrow> rxr_destination r = rxr_destination q \<Longrightarrow> r = q"
  for r q :: remote_requirement
  by simp

lemma same_requirement_iff: "(rxr_scope r, rxr_destination r) \<in> (\<lambda>r. (rxr_scope r, rxr_destination r)) ` R \<longleftrightarrow> r \<in> R"
  for r :: remote_requirement
  by (auto dest: same_requirement)

lemma abs_grant_remote:
  "abs_grants (snd (grant_remote_exec_session rs g)) = authority_step (Grant_Remote rs) (abs_grants g)"
proof -
  let ?d = "snd (fold (\<lambda>r. grant_one (rxr_scope r) (rxr_destination r)) rs (False, gst_remote g))"
  have "pairs ?d = pairs (gst_remote g) \<union> (\<lambda>r. (rxr_scope r, rxr_destination r)) ` set rs"
    using fold_grants [of rxr_scope rxr_destination rs] by simp
  then have "(rxr_scope r, rxr_destination r) \<in> pairs ?d \<longleftrightarrow>
    (rxr_scope r, rxr_destination r) \<in> pairs (gst_remote g) \<or> r \<in> set rs" for r
    by (simp only: Un_iff same_requirement_iff)
  then show ?thesis by (auto simp: grant_remote_exec_session_def abs_grants_def case_prod_beta)
qed

lemma abs_revoke_remote:
  "abs_grants (snd (revoke_remote_exec_session rs g)) = authority_step (Revoke_Remote rs) (abs_grants g)"
proof -
  let ?d = "snd (fold (\<lambda>r. revoke_one (rxr_scope r) (rxr_destination r)) rs (False, gst_remote g))"
  have "pairs ?d = pairs (gst_remote g) - (\<lambda>r. (rxr_scope r, rxr_destination r)) ` set rs"
    using fold_revokes [of rxr_scope rxr_destination rs] by simp
  then have "(rxr_scope r, rxr_destination r) \<in> pairs ?d \<longleftrightarrow>
    (rxr_scope r, rxr_destination r) \<in> pairs (gst_remote g) \<and> r \<notin> set rs" for r
    by (simp only: Diff_iff same_requirement_iff)
  then show ?thesis by (auto simp: revoke_remote_exec_session_def abs_grants_def case_prod_beta)
qed

lemma abs_revoke_session: "abs_grants (snd (revoke_session rs g)) = authority_step (Revoke_Session rs) (abs_grants g)"
  by (auto simp: revoke_session_def abs_grants_def case_prod_beta fold_revoke_turns)

lemma abs_invalidate: "abs_grants (snd (invalidate_pending rs g)) = authority_step (Invalidate_Pending rs) (abs_grants g)"
proof -
  have "(rxr_scope r \<in> snd ` {q \<in> rs. fst q = remote_exec_operation_id}) = ((remote_exec_operation_id, rxr_scope r) \<in> rs)"
    for r :: remote_requirement by force
  then have "(\<lambda>p :: remote_requirement set. \<forall>r \<in> p. rxr_scope r \<notin> snd ` {q \<in> rs. fst q = remote_exec_operation_id}) =
    (\<lambda>p. \<forall>r \<in> p. (remote_exec_operation_id, rxr_scope r) \<notin> rs)" by simp
  then show ?thesis unfolding invalidate_pending_def remote_scopes_filter
    by (simp only: Let_def snd_conv abs_grants_def bump_when_fields authority_step.simps) (simp add: abs_grants_def)
qed

lemma abs_step: "abs_grants (grant_step p g) = authority_step p (abs_grants g)"
proof (cases p)
  case (Invalidate_Destinations xs)
  have "(\<not> (\<exists>r \<in> q. rxr_destination r \<in> xs)) = (rxr_destination ` q \<inter> xs = {})" for q :: "remote_requirement set" by blast
  then show ?thesis using Invalidate_Destinations
    by (simp add: invalidate_pending_destinations_def Let_def abs_grants_def)
qed (simp_all add: abs_grant_session abs_grant_remote abs_revoke_remote abs_revoke_session abs_invalidate
    record_refusal_def install_once_def destroy_once_def install_remote_exec_once_def destroy_remote_exec_once_def
    clear_session_state_def, auto simp: abs_grants_def held_def)

section \<open>Well-formed stores\<close>

definition grants_wf :: "grant_store \<Rightarrow> bool" where
  "grants_wf g \<longleftrightarrow> dict_wf (gst_session g) \<and> dict_wf (gst_remote g)"

lemma grants_wf_empty: "grants_wf empty_grants"
  by (simp add: grants_wf_def empty_grants_def)

lemma grants_wf_step: "grants_wf g \<Longrightarrow> grants_wf (grant_step p g)"
proof (cases p)
  case (Grant_Session rs)
  assume "grants_wf g"
  then show ?thesis using fold_grants_wf [of "(False, gst_session g)" snd fst rs] Grant_Session
    by (simp add: grants_wf_def grant_session_def case_prod_beta' case_prod_beta Let_def)
next
  case (Revoke_Session rs)
  assume "grants_wf g"
  then show ?thesis using fold_revoke_turns_wf [of "(False, gst_session g, gst_remote g)" rs] Revoke_Session
    by (simp add: grants_wf_def revoke_session_def case_prod_beta Let_def)
next
  case (Grant_Remote rs)
  assume "grants_wf g"
  then show ?thesis using fold_grants_wf [of "(False, gst_remote g)" rxr_scope rxr_destination rs] Grant_Remote
    by (simp add: grants_wf_def grant_remote_exec_session_def case_prod_beta Let_def)
next
  case (Revoke_Remote rs)
  assume "grants_wf g"
  then show ?thesis using fold_revokes_wf [of "(False, gst_remote g)" rxr_scope rxr_destination rs] Revoke_Remote
    by (simp add: grants_wf_def revoke_remote_exec_session_def case_prod_beta Let_def)
qed (simp_all add: grants_wf_def record_refusal_def install_once_def destroy_once_def install_remote_exec_once_def
    destroy_remote_exec_once_def invalidate_pending_def invalidate_pending_destinations_def clear_session_state_def Let_def)

lemma grants_wf_run: "grants_wf g \<Longrightarrow> grants_wf (run_grants ops g)"
  unfolding run_grants_def by (induction ops arbitrary: g) (auto intro: grants_wf_step)

lemma abs_run: "abs_grants (run_grants ops g) = fold authority_step ops (abs_grants g)"
  unfolding run_grants_def by (induction ops arbitrary: g) (simp_all add: abs_step)

section \<open>What is admitted\<close>

definition abs_admits :: "authority_state \<Rightarrow> string \<Rightarrow> repository_scope \<Rightarrow> remote_destination option \<Rightarrow> bool" where
  "abs_admits a i s x \<longleftrightarrow>
     (if i = remote_exec_operation_id
      then (case x of None \<Rightarrow> False
            | Some y \<Rightarrow> \<lparr>rxr_scope = s, rxr_destination = y\<rparr> \<in> aus_remote a \<or>
                (\<exists>p \<in># aus_remote_once a. \<lparr>rxr_scope = s, rxr_destination = y\<rparr> \<in> p))
      else (i, s) \<in> aus_session a \<or> (\<exists>p \<in># aus_once a. (i, s) \<in> p))"

lemma authorities_for_admits:
  "(\<exists>a \<in> authorities_for p. authority_admits a i s x) \<longleftrightarrow> i \<noteq> remote_exec_operation_id \<and> (i, s) \<in> p"
  by (force simp: authorities_for_def authority_admits_def)

lemma remote_authority_admits:
  "authority_admits (remote_authority s y) i t x \<longleftrightarrow> i = remote_exec_operation_id \<and> s = t \<and> x = Some y"
  by (auto simp: remote_authority_def authority_admits_def)

lemma mem_requirement:
  "\<lparr>rxr_scope = s, rxr_destination = y\<rparr> \<in> p \<longleftrightarrow> (\<exists>r \<in> p. rxr_scope r = s \<and> rxr_destination r = y)"
proof -
  have "r = \<lparr>rxr_scope = s, rxr_destination = y\<rparr> \<longleftrightarrow> rxr_scope r = s \<and> rxr_destination r = y" for r :: remote_requirement
    by (cases r) auto
  then show ?thesis by metis
qed

lemma remote_exec_admits:
  assumes "dict_wf (gst_remote g)"
  shows "(\<exists>a \<in> remote_exec_authorities g. authority_admits a i s x) \<longleftrightarrow>
    i = remote_exec_operation_id \<and>
    (\<exists>y. x = Some y \<and> (y \<in> held (gst_remote g) s \<or> (\<exists>p \<in> set (gst_remote_once g). \<lparr>rxr_scope = s, rxr_destination = y\<rparr> \<in> p)))"
    (is "?l \<longleftrightarrow> ?r")
proof -
  have all: "?l \<longleftrightarrow> (\<exists>(t, xs) \<in> set (gst_remote g). \<exists>y \<in> xs. authority_admits (remote_authority t y) i s x) \<or>
      (\<exists>p \<in> set (gst_remote_once g). \<exists>r \<in> p. authority_admits (remote_authority (rxr_scope r) (rxr_destination r)) i s x)"
    unfolding remote_exec_authorities_def by fastforce
  have granted: "(\<exists>(t, xs) \<in> set (gst_remote g). \<exists>y \<in> xs. authority_admits (remote_authority t y) i s x) \<longleftrightarrow>
      i = remote_exec_operation_id \<and> (\<exists>y. x = Some y \<and> y \<in> held (gst_remote g) s)"
    using dict_wf_mem [OF assms] by (fastforce simp: remote_authority_admits)
  have pending: "(\<exists>r \<in> p. authority_admits (remote_authority (rxr_scope r) (rxr_destination r)) i s x) \<longleftrightarrow>
      i = remote_exec_operation_id \<and> (\<exists>y. x = Some y \<and> \<lparr>rxr_scope = s, rxr_destination = y\<rparr> \<in> p)"
    for p :: "remote_requirement set"
    unfolding remote_authority_admits mem_requirement by blast
  show ?thesis unfolding all granted pending by blast
qed

lemma live_admits_abs:
  assumes "grants_wf g"
  shows "live_admits g i s x \<longleftrightarrow> abs_admits (abs_grants g) i s x"
proof -
  have mem: "(t, ops) \<in> set (gst_session g) \<longleftrightarrow> ops \<noteq> {} \<and> held (gst_session g) t = ops" for t ops
    using assms by (simp add: grants_wf_def dict_wf_mem)
  have sess: "(\<exists>a \<in> (\<Union>(t, ops) \<in> set (gst_session g). if ops = {} then {} else
        {\<lparr>cau_operations = ops, cau_scope = t, cau_source = Runtime_Grant, cau_destination = None\<rparr>}).
        authority_admits a i s x) \<longleftrightarrow> i \<noteq> remote_exec_operation_id \<and> i \<in> held (gst_session g) s"
  proof -
    have one: "(\<exists>a \<in> (if ops = {} then {} else
        {\<lparr>cau_operations = ops, cau_scope = t, cau_source = Runtime_Grant, cau_destination = None\<rparr>}).
        authority_admits a i s x) \<longleftrightarrow> ops \<noteq> {} \<and> t = s \<and> i \<in> ops \<and> i \<noteq> remote_exec_operation_id" for t ops
      by (auto simp: authority_admits_def)
    have "(\<exists>a \<in> (\<Union>(t, ops) \<in> set (gst_session g). if ops = {} then {} else
        {\<lparr>cau_operations = ops, cau_scope = t, cau_source = Runtime_Grant, cau_destination = None\<rparr>}).
        authority_admits a i s x) \<longleftrightarrow>
      (\<exists>t ops. (t, ops) \<in> set (gst_session g) \<and> ops \<noteq> {} \<and> t = s \<and> i \<in> ops \<and> i \<noteq> remote_exec_operation_id)"
      unfolding UN_ball_bex_simps bex_simps case_prod_beta one by (simp add: Bex_def)
    then show ?thesis unfolding mem by auto
  qed
  have "live_admits g i s x \<longleftrightarrow> (i \<noteq> remote_exec_operation_id \<and> i \<in> held (gst_session g) s) \<or>
      (\<exists>p \<in> set (gst_once g). \<exists>a \<in> authorities_for p. authority_admits a i s x) \<or>
      (\<exists>a \<in> remote_exec_authorities g. authority_admits a i s x)"
    unfolding live_admits_def dangerous_command_authorities_def bex_Un sess by blast
  then show ?thesis using assms
    by (cases x) (auto simp: authorities_for_admits remote_exec_admits grants_wf_def abs_admits_def abs_grants_def)
qed

section \<open>The generation\<close>

lemma session_walk_ok: "walk_ok st (fold (\<lambda>(i, s). grant_one s i) rs st)"
  by (rule fold_walk_ok) (auto simp: case_prod_beta intro: grant_one_ok)

lemma turns_walk_ok: "walk_ok st (fold revoke_turn rs st)"
  by (rule fold_walk_ok) (rule revoke_turn_ok)

lemma remote_walks_ok:
  "walk_ok st (fold (\<lambda>r. grant_one (k r) (v r)) rs st)" "walk_ok st (fold (\<lambda>r. revoke_one (k r) (v r)) rs st)"
  by (rule fold_walk_ok, rule grant_one_ok) (rule fold_walk_ok, rule revoke_one_ok)

lemma filter_same_length: "\<not> length (filter f ps) < length ps \<Longrightarrow> filter f ps = ps"
  using length_filter_less [of _ ps f] by (auto simp: filter_id_conv)

lemma filters_same_length:
  assumes "length ps + length qs \<le> length (filter f ps) + length (filter h qs)"
  shows "filter f ps = ps \<and> filter h qs = qs"
  using assms length_filter_le [of f ps] length_filter_le [of h qs]
  by (intro conjI filter_same_length) linarith+

lemma unchanged_walk: "walk_ok (c, d) st \<Longrightarrow> \<not> fst st \<Longrightarrow> snd st = d"
  by (simp add: walk_ok_def)

lemma step_generation:
  "gst_generation g \<le> gst_generation (grant_step p g) \<and>
     (gst_generation (grant_step p g) = gst_generation g \<longrightarrow> grant_step p g = g)"
proof (cases p)
  case (Grant_Session rs)
  show ?thesis using unchanged_walk [OF session_walk_ok [of "(False, gst_session g)" rs]] Grant_Session
    by (simp add: grant_session_def case_prod_beta bump_when_def)
next
  case (Revoke_Session rs)
  show ?thesis using unchanged_walk [OF turns_walk_ok [of "(False, gst_session g, gst_remote g)" rs]] Revoke_Session
    by (simp add: revoke_session_def case_prod_beta bump_when_def)
next
  case (Grant_Remote rs)
  show ?thesis using unchanged_walk [OF remote_walks_ok(1) [of "(False, gst_remote g)" rxr_scope rxr_destination rs]] Grant_Remote
    by (simp add: grant_remote_exec_session_def case_prod_beta bump_when_def)
next
  case (Revoke_Remote rs)
  show ?thesis using unchanged_walk [OF remote_walks_ok(2) [of "(False, gst_remote g)" rxr_scope rxr_destination rs]] Revoke_Remote
    by (simp add: revoke_remote_exec_session_def case_prod_beta bump_when_def)
next
  case (Invalidate_Pending rs)
  show ?thesis unfolding Invalidate_Pending grant_step.simps invalidate_pending_def remote_scopes_filter Let_def snd_conv
    by (auto simp: bump_when_def dest!: filters_same_length)
next
  case (Invalidate_Destinations xs)
  show ?thesis using Invalidate_Destinations
    by (auto simp: invalidate_pending_destinations_def Let_def bump_when_def dest!: filter_same_length)
qed (simp_all add: record_refusal_def install_once_def destroy_once_def install_remote_exec_once_def
    destroy_remote_exec_once_def clear_session_state_def)

lemma run_generation_le: "gst_generation g \<le> gst_generation (run_grants ops g)"
proof (induction ops arbitrary: g)
  case (Cons p ops)
  show ?case using Cons.IH [of "grant_step p g"] step_generation [of g p] by (simp add: run_grants_def)
qed (simp add: run_grants_def)

text \<open>
  C25. The generation number stands for the content of the store: whatever operations run, when the
  generation is what it was, every grant, permit and refusal is what it was.
\<close>

theorem same_generation_same_store:
  "gst_generation (run_grants ops g) = gst_generation g \<Longrightarrow> run_grants ops g = g"
proof (induction ops arbitrary: g)
  case (Cons p ops)
  have run: "run_grants (p # ops) g = run_grants ops (grant_step p g)" by (simp add: run_grants_def)
  have "gst_generation (grant_step p g) = gst_generation g"
    using Cons.prems run_generation_le [of "grant_step p g" ops] step_generation [of g p] unfolding run by linarith
  with step_generation [of g p] have "grant_step p g = g" by blast
  with Cons.IH [of g] Cons.prems show ?case unfolding run by simp
qed (simp add: run_grants_def)

definition sample_scope :: repository_scope where
  "sample_scope = \<lparr>rpo_git_dir = ''/w/.git'', rpo_work_tree = Some ''/w''\<rparr>"

definition sample_grants :: grant_store where
  "sample_grants = empty_grants\<lparr>gst_session := [(sample_scope, {''git.push''})]\<rparr>"

lemma same_generation_same_store_witness:
  "run_grants [Grant_Session [(''git.push'', sample_scope)], Destroy_Once {}] sample_grants = sample_grants"
  by (rule same_generation_same_store)
     (simp add: run_grants_def sample_grants_def empty_grants_def grant_session_def grant_one_def held_def destroy_once_def
       bump_when_def)

section \<open>Refinement\<close>

text \<open>
  C23. After any operations on a new store, a call is admitted exactly when the abstract store admits
  it: the operation is granted at the scope by a grant not revoked since, or by a permit not consumed
  or invalidated, and a remote command only for the one destination granted.
\<close>

theorem live_authority_refines:
  "live_admits (run_grants ops empty_grants) i s x \<longleftrightarrow>
     abs_admits (fold authority_step ops \<lparr>aus_session = {}, aus_once = {#}, aus_remote = {}, aus_remote_once = {#},
       aus_refusals = {}\<rparr>) i s x"
proof -
  have "abs_grants empty_grants = \<lparr>aus_session = {}, aus_once = {#}, aus_remote = {}, aus_remote_once = {#}, aus_refusals = {}\<rparr>"
    by (simp add: abs_grants_def empty_grants_def held_def)
  then show ?thesis by (simp add: live_admits_abs grants_wf_run grants_wf_empty abs_run)
qed

section \<open>Revocation\<close>

lemma abs_admits_remote:
  "abs_admits a remote_exec_operation_id s (Some y) \<longleftrightarrow>
     \<lparr>rxr_scope = s, rxr_destination = y\<rparr> \<in> aus_remote a \<or>
     (\<exists>p \<in># aus_remote_once a. \<lparr>rxr_scope = s, rxr_destination = y\<rparr> \<in> p)"
  by (simp add: abs_admits_def)

lemma revoked_requirements_iff:
  "(j, s) \<in> revoked_requirements i g \<longleftrightarrow> j = i \<and> (\<exists>a \<in> dangerous_command_authorities g. i \<in> cau_operations a \<and> cau_scope a = s)"
  by (auto simp: revoked_requirements_def)

lemma revoked_covers_session:
  assumes "grants_wf g" "i \<in> held (gst_session g) s"
  shows "(i, s) \<in> revoked_requirements i g"
proof -
  have entry: "(s, held (gst_session g) s) \<in> set (gst_session g)"
    using assms dict_wf_mem [of "gst_session g" s] by (auto simp: grants_wf_def)
  have "\<lparr>cau_operations = held (gst_session g) s, cau_scope = s, cau_source = Runtime_Grant, cau_destination = None\<rparr>
      \<in> dangerous_command_authorities g"
    unfolding dangerous_command_authorities_def by (rule UnI1, rule UnI1, rule UN_I [OF entry]) (use assms(2) in auto)
  then show ?thesis using assms(2) unfolding revoked_requirements_iff by (auto intro!: bexI)
qed

lemma revoked_covers_permit:
  assumes "p \<in> set (gst_once g)" "(i, s) \<in> p"
  shows "(i, s) \<in> revoked_requirements i g"
proof -
  have "\<lparr>cau_operations = fst ` {r \<in> p. snd r = s}, cau_scope = s, cau_source = Runtime_Grant, cau_destination = None\<rparr>
      \<in> dangerous_command_authorities g"
    unfolding dangerous_command_authorities_def authorities_for_def
    by (rule UnI1, rule UnI2, rule UN_I [OF assms(1)], rule image_eqI [OF _ image_eqI [OF _ assms(2)]]) simp_all
  moreover have "i \<in> fst ` {r \<in> p. snd r = s}" by (rule image_eqI [of _ _ "(i, s)"]) (use assms(2) in auto)
  ultimately show ?thesis unfolding revoked_requirements_iff by (intro conjI refl bexI) simp_all
qed

lemma revoked_covers_remote:
  assumes "remote_authority s y \<in> remote_exec_authorities g"
  shows "(remote_exec_operation_id, s) \<in> revoked_requirements remote_exec_operation_id g"
proof -
  have "remote_authority s y \<in> dangerous_command_authorities g" using assms by (simp add: dangerous_command_authorities_def)
  then show ?thesis unfolding revoked_requirements_iff by (force simp: remote_authority_def)
qed

lemma remote_authority_of_grant:
  assumes "grants_wf g" "y \<in> held (gst_remote g) s"
  shows "remote_authority s y \<in> remote_exec_authorities g"
proof -
  have entry: "(s, held (gst_remote g) s) \<in> set (gst_remote g)"
    using assms dict_wf_mem [of "gst_remote g" s] by (auto simp: grants_wf_def)
  show ?thesis unfolding remote_exec_authorities_def
    by (rule UnI1, rule UN_I [OF entry]) (use assms(2) in simp)
qed

lemma remote_authority_of_permit:
  assumes "p \<in> set (gst_remote_once g)" "r \<in> p"
  shows "remote_authority (rxr_scope r) (rxr_destination r) \<in> remote_exec_authorities g"
  unfolding remote_exec_authorities_def by (rule UnI2, rule UN_I [OF assms(1)]) (use assms(2) in simp)

lemma grants_wf_removal: "grants_wf g \<Longrightarrow> grants_wf (apply_live_removal walk i x g)"
  using grants_wf_step [of _ "Revoke_Session (walk (revoked_requirements i g))"]
    grants_wf_step [of _ "Revoke_Remote _"] grants_wf_step [of _ "Invalidate_Pending _"] grants_wf_step [of _ "Invalidate_Destinations _"]
  by (simp add: apply_live_removal_def Let_def split: option.split)

lemma abs_removal:
  "abs_grants (apply_live_removal walk i None g) =
     authority_step (Invalidate_Pending (revoked_requirements i g))
       (authority_step (Revoke_Session (walk (revoked_requirements i g))) (abs_grants g))"
  by (simp add: apply_live_removal_def Let_def abs_invalidate abs_revoke_session del: authority_step.simps)

lemma surviving_permit:
  assumes "p \<in> set (gst_once g)"
  shows "p \<inter> revoked_requirements i g = {} \<longleftrightarrow> i \<notin> fst ` p"
proof
  show "i \<notin> fst ` p" if "p \<inter> revoked_requirements i g = {}"
  proof
    assume "i \<in> fst ` p"
    then obtain t where "(i, t) \<in> p" by auto
    with that revoked_covers_permit [OF assms] show False by blast
  qed
  show "p \<inter> revoked_requirements i g = {}" if "i \<notin> fst ` p"
  proof -
    have "fst r = i" if "r \<in> revoked_requirements i g" for r using that by (auto simp: revoked_requirements_def)
    with that show ?thesis by blast
  qed
qed

lemma removal_admits_scoped:
  assumes "grants_wf g" "set (walk (revoked_requirements i g)) = revoked_requirements i g" "j \<noteq> remote_exec_operation_id"
  shows "live_admits (apply_live_removal walk i None g) j s x \<longleftrightarrow>
    j \<noteq> i \<and> (j \<in> held (gst_session g) s \<or> (\<exists>p \<in> set (gst_once g). (j, s) \<in> p \<and> i \<notin> fst ` p))"
proof -
  let ?R = "revoked_requirements i g"
  have "live_admits (apply_live_removal walk i None g) j s x \<longleftrightarrow>
      (j \<in> held (gst_session g) s \<and> (j, s) \<notin> ?R) \<or> (\<exists>p \<in> set (gst_once g). p \<inter> ?R = {} \<and> (j, s) \<in> p)"
    unfolding live_admits_abs [OF grants_wf_removal [OF assms(1)]] abs_removal abs_admits_def
    using assms(3) by (simp add: abs_grants_def assms(2) conj_assoc) blast
  also have "\<dots> \<longleftrightarrow> (j \<in> held (gst_session g) s \<and> (j, s) \<notin> ?R) \<or> (\<exists>p \<in> set (gst_once g). i \<notin> fst ` p \<and> (j, s) \<in> p)"
    by (intro arg_cong2 [where f = "(\<or>)"] refl bex_cong) (simp add: surviving_permit)
  also have "\<dots> \<longleftrightarrow> j \<noteq> i \<and> (j \<in> held (gst_session g) s \<or> (\<exists>p \<in> set (gst_once g). (j, s) \<in> p \<and> i \<notin> fst ` p))"
  proof (cases "j = i")
    case True
    have "(i, s) \<notin> p" if "i \<notin> fst ` p" for p using that by (metis fst_conv image_eqI)
    moreover have "(i, s) \<in> ?R" if "i \<in> held (gst_session g) s" using that by (rule revoked_covers_session [OF assms(1)])
    ultimately show ?thesis unfolding True by blast
  next
    case False
    then have "(j, s) \<notin> ?R" by (simp add: revoked_requirements_iff)
    with False show ?thesis by blast
  qed
  finally show ?thesis .
qed

lemma removal_admits_remote:
  assumes "grants_wf g" "set (walk (revoked_requirements i g)) = revoked_requirements i g"
  shows "live_admits (apply_live_removal walk i None g) remote_exec_operation_id s x \<longleftrightarrow>
    remote_exec_operation_id \<noteq> i \<and> live_admits g remote_exec_operation_id s x"
proof (cases "i = remote_exec_operation_id")
  case False
  then have none: "(remote_exec_operation_id, t) \<notin> revoked_requirements i g" for t by (simp add: revoked_requirements_iff)
  show ?thesis using assms False none
    by (simp add: live_admits_abs grants_wf_removal abs_removal abs_admits_def cong: option.case_cong)
next
  case True
  let ?R = "revoked_requirements i g"
  have gone: "(remote_exec_operation_id, s) \<in> ?R" if "\<lparr>rxr_scope = s, rxr_destination = y\<rparr> \<in> aus_remote (abs_grants g)" for y
    using that revoked_covers_remote [OF remote_authority_of_grant [OF assms(1)]] True by (simp add: abs_grants_def)
  have dropped: "(remote_exec_operation_id, s) \<in> ?R"
    if "p \<in># aus_remote_once (abs_grants g)" "\<lparr>rxr_scope = s, rxr_destination = y\<rparr> \<in> p" for y p
    using revoked_covers_remote [OF remote_authority_of_permit, of p g "\<lparr>rxr_scope = s, rxr_destination = y\<rparr>"] that True
    by (simp add: abs_grants_def)
  have "\<not> abs_admits (abs_grants (apply_live_removal walk i None g)) remote_exec_operation_id s x"
    using assms(2) gone dropped by (auto simp: abs_removal abs_admits_def split: option.splits) 
  then show ?thesis using True by (simp add: live_admits_abs grants_wf_removal assms(1))
qed

text \<open>
  C24. Revoking an operation removes it at every scope and leaves the rest: what is admitted
  afterwards is exactly what was granted for other operations, with the pending permits that do not
  contain the revoked operation.
\<close>

theorem revocation_exact:
  assumes "grants_wf g" "set (walk (revoked_requirements i g)) = revoked_requirements i g"
  shows "live_admits (apply_live_removal walk i None g) j s x \<longleftrightarrow>
    j \<noteq> i \<and>
    (if j = remote_exec_operation_id then live_admits g j s x
     else j \<in> held (gst_session g) s \<or> (\<exists>p \<in> set (gst_once g). (j, s) \<in> p \<and> i \<notin> fst ` p))"
proof (cases "j = remote_exec_operation_id")
  case True
  then show ?thesis unfolding True removal_admits_remote [of g walk i, OF assms] by auto
next
  case False
  then show ?thesis unfolding removal_admits_scoped [of g walk i, OF assms False] using False by simp
qed

definition sample_permits :: grant_store where
  "sample_permits = sample_grants\<lparr>gst_once := [{(''git.push'', sample_scope), (''git.checkout'', sample_scope)},
     {(''git.checkout'', sample_scope)}]\<rparr>"

lemma sample_permits_wf: "grants_wf sample_permits"
  by (simp add: grants_wf_def dict_wf_def sample_permits_def sample_grants_def empty_grants_def)

lemma sample_revoked: "revoked_requirements ''git.push'' sample_permits = {(''git.push'', sample_scope)}"
proof -
  have "cau_scope a = sample_scope" if "a \<in> dangerous_command_authorities sample_permits" for a
    using that by (auto simp: dangerous_command_authorities_def authorities_for_def remote_exec_authorities_def
      sample_permits_def sample_grants_def empty_grants_def)
  moreover have "(''git.push'', sample_scope) \<in> revoked_requirements ''git.push'' sample_permits"
    by (rule revoked_covers_session [OF sample_permits_wf])
       (simp add: sample_permits_def sample_grants_def held_def)
  ultimately show ?thesis by (auto simp: revoked_requirements_def)
qed

lemma revocation_exact_witness:
  "live_admits (apply_live_removal (\<lambda>_. [(''git.push'', sample_scope)]) ''git.push'' None sample_permits) ''git.checkout'' sample_scope None
   \<and> \<not> live_admits (apply_live_removal (\<lambda>_. [(''git.push'', sample_scope)]) ''git.push'' None sample_permits) ''git.push'' sample_scope None"
proof -
  have walk: "set ((\<lambda>_. [(''git.push'', sample_scope)]) (revoked_requirements ''git.push'' sample_permits)) =
      revoked_requirements ''git.push'' sample_permits"
    by (simp add: sample_revoked)
  show ?thesis unfolding revocation_exact [of sample_permits "\<lambda>_. [(''git.push'', sample_scope)]", OF sample_permits_wf walk]
    by (auto simp: sample_permits_def sample_grants_def empty_grants_def held_def remote_exec_operation_id_def)
qed

end
