(* ===== verification/Grant_Approval.thy ===== *)
theory Grant_Approval
  imports Grant_Props Replacement
begin

text \<open>
  The approval of a dangerous command: the answer of the user, the decision on the call, what is
  saved, and the last check before execution (\<open>core/agent_loop/_tool_decisions.py\<close>,
  \<open>core/agent_loop/_execution_admission.py\<close> and the parser of
  \<open>core/agent_loop/_dangerous_command_grants.py\<close>).  What a coroutine waits for is a function of the store
  that also gives the store other coroutines leave: \<open>aen_prompt\<close> and \<open>apw_persist\<close>.  The resolution
  of the permission is a function of the store, for each time it is asked.
\<close>

section \<open>Answers\<close>

datatype answer_disposition = Was_Answered | Was_Cancelled | Was_Unanswered

record question_result =
  qrs_client :: bool
  qrs_answers :: "string list"
  qrs_cancelled :: bool
  qrs_disposition :: "answer_disposition option"

text \<open>
  \<open>_normalize_disposition\<close>; \<open>qrs_client\<close> holds when the type is exactly \<open>UserQuestionResult\<close>, \<open>None\<close> is
  the \<open>ValueError\<close>.
\<close>

definition normalize_disposition :: "question_result \<Rightarrow> question_result option" where
  "normalize_disposition q =
     (if \<not> qrs_client q then Some q
      else case qrs_disposition q of
        Some Was_Unanswered \<Rightarrow> None
      | None \<Rightarrow> Some (q\<lparr>qrs_disposition := Some (if qrs_cancelled q then Was_Cancelled else Was_Answered)\<rparr>)
      | Some Was_Cancelled \<Rightarrow> if qrs_cancelled q then Some q else None
      | Some Was_Answered \<Rightarrow> if qrs_cancelled q then None else Some q)"

fun choice_label :: "grant_choice \<Rightarrow> string" where
  "choice_label Deny = ''Deny''"
| "choice_label Allow_Once = ''Allow once''"
| "choice_label Allow_Session = ''Allow this session''"
| "choice_label Allow_Project = ''Always for this project''"

definition label_choice :: "string \<Rightarrow> grant_choice option" where
  "label_choice s = map_of (map (\<lambda>c. (choice_label c, c)) [Deny, Allow_Once, Allow_Session, Allow_Project]) s"

fun first_choice :: "string list \<Rightarrow> string list \<Rightarrow> grant_choice" where
  "first_choice operations [] = Deny"
| "first_choice operations (a # as) =
     (case label_choice a of
        None \<Rightarrow> first_choice operations as
      | Some c \<Rightarrow> if list_all (\<lambda>i. is_grant_choice_valid i c) operations then c else first_choice operations as)"

text \<open>\<open>None\<close> is a result that is no \<open>UserQuestionResult\<close>.\<close>

definition parse_dangerous_command_result :: "question_result option \<Rightarrow> string list \<Rightarrow> grant_choice" where
  "parse_dangerous_command_result r operations =
     (case r of
        None \<Rightarrow> Deny
      | Some q \<Rightarrow>
          if qrs_disposition q = Some Was_Answered \<and> \<not> qrs_cancelled q then first_choice operations (qrs_answers q)
          else Deny)"

text \<open>The labels of the options of the question.\<close>

definition persistable_offer :: "string list \<Rightarrow> bool" where
  "persistable_offer operations \<longleftrightarrow>
     (let es = List.map_filter operation_named operations in es \<noteq> [] \<and> list_all dop_persistable es)"

definition offered_labels :: "command_proposal \<Rightarrow> string list" where
  "offered_labels p =
     (if cpr_destination p \<noteq> None
      then [choice_label Deny, choice_label Allow_Once, choice_label Allow_Session, choice_label Allow_Project]
      else [choice_label Deny, choice_label Allow_Once, choice_label Allow_Session] @
        (if persistable_offer (cpr_operations p) then [choice_label Allow_Project] else []))"

section \<open>Decisions\<close>

datatype tool_permission = Always | Never
datatype execution_response = Skip_Call | Execute_Call

record execution_admission =
  exa_once :: "requirement set option"
  exa_remote :: "remote_requirement set option"

record tool_decision =
  tdn_verdict :: execution_response
  tdn_approval :: tool_permission
  tdn_feedback :: "string option"
  tdn_note :: "string option"
  tdn_admission :: "execution_admission option"

definition skip_decision :: "string \<Rightarrow> tool_decision" where
  "skip_decision feedback =
     \<lparr>tdn_verdict = Skip_Call, tdn_approval = Never, tdn_feedback = Some feedback, tdn_note = None, tdn_admission = None\<rparr>"

definition execute_decision :: "string option \<Rightarrow> execution_admission option \<Rightarrow> tool_decision" where
  "execute_decision note admission =
     \<lparr>tdn_verdict = Execute_Call, tdn_approval = Always, tdn_feedback = None, tdn_note = note, tdn_admission = admission\<rparr>"

definition quoted :: "string \<Rightarrow> string" where
  "quoted s = [CHR 0x27] @ s @ [CHR 0x27]"

text \<open>\<open>reason or f"Tool '{tool_name}' is disabled by policy"\<close>\<close>

definition policy_feedback :: "string option \<Rightarrow> string \<Rightarrow> string" where
  "policy_feedback reason tool =
     (case reason of
        Some r \<Rightarrow> if r \<noteq> [] then r else ''Tool '' @ quoted tool @ '' is disabled by policy''
      | None \<Rightarrow> ''Tool '' @ quoted tool @ '' is disabled by policy'')"

definition operation_persistable :: "string \<Rightarrow> bool" where
  "operation_persistable i \<longleftrightarrow> (case operation_named i of None \<Rightarrow> False | Some e \<Rightarrow> dop_persistable e)"

definition dangerous_command_denial :: "string option \<Rightarrow> string \<Rightarrow> command_proposal \<Rightarrow> tool_decision" where
  "dangerous_command_denial reason tool p =
     (let why = policy_feedback reason tool;
          persistable = filter operation_persistable (cpr_operations p);
          blocked = filter (\<lambda>i. \<not> operation_persistable i) (cpr_operations p)
      in case cpr_destination p of
           Some x \<Rightarrow> skip_decision (why @ '' Add the destination '' @ destination_key x @
             '' to remote_exec_grants_by_project for this project in your user config.toml to authorize it.'')
         | None \<Rightarrow>
             skip_decision (why @ '' '' @
               (if persistable \<noteq> [] \<and> blocked = [] then
                  ''Add '' @ join_with '', '' persistable @
                  '' to dangerous_command_grants_by_project for this project in your user config.toml to authorize it.''
                else if persistable \<noteq> [] then
                  ''Add '' @ join_with '', '' persistable @
                  '' to dangerous_command_grants_by_project for this project in your user config.toml to pre-authorize only part of this call; the remaining operations ('' @
                  join_with '', '' blocked @
                  '') cannot be pre-authorized and require approval in an interactive session.''
                else ''This operation cannot be pre-authorized; it requires approval in an interactive session.'')))"

definition declined_dangerous_command_decision :: tool_decision where
  "declined_dangerous_command_decision = skip_decision ''user declined; do not retry this command''"

section \<open>Saving a grant\<close>

datatype save_persistence = Not_Saved | Saved | Durability_Uncertain
datatype save_error = Validation_Error | Conflict_Error | Write_Error | Application_Error | Cancelled_Error | Notification_Error

record config_save_result =
  csr_persistence :: save_persistence
  csr_error :: "save_error option"

record saved_grants_read =
  sgr_unavailable :: bool
  sgr_revision :: "string option"

datatype saved_answer = Read_Cancelled | Read_Raised | Read_Answer saved_grants_read
datatype save_answer = Save_Cancelled | Save_Raised | Save_Answer config_save_result

definition scope_repository :: "repository_scope \<Rightarrow> string" where
  "scope_repository s = (case rpo_work_tree s of Some w \<Rightarrow> w | None \<Rightarrow> rpo_git_dir s)"

text \<open>
  What follows \<open>applies to this session\<close> in a note; the two notes differ in the name of the grants.
\<close>

definition save_outcome_text :: "string \<Rightarrow> string \<Rightarrow> config_save_result option \<Rightarrow> string" where
  "save_outcome_text grants project result =
     (case result of
        None \<Rightarrow> '' only; saving it to your user config failed.''
      | Some r \<Rightarrow>
          if csr_error r = Some Write_Error then '' only; saving it to your user config failed.''
          else if csr_error r = Some Cancelled_Error then
            ''; the save to your user config was cancelled before it could be confirmed, so treat the grant as session-only.''
          else if csr_persistence r = Durability_Uncertain then
            ''; the save to your user config could not be confirmed, so treat the grant as session-only.''
          else if csr_persistence r = Saved \<and> csr_error r = None then
            '' and is saved in your user config for project '' @ project @ ''. The running session'' @ [CHR 0x27] @
            ''s config is unchanged; future sessions start with the saved grant.''
          else if csr_error r = Some Conflict_Error then
            '' only; saving it to your user config was rejected because the config changed since it was read. You can retry '' @
            quoted ''Always for this project'' @ '' to save it.''
          else if csr_persistence r = Not_Saved \<and> csr_error r = None then
            ''; this session does not save '' @ grants @ '' grants to your user config.''
          else '' only; saving it to your user config was rejected.'')"

definition dangerous_command_grant_save_note ::
  "string \<Rightarrow> repository_scope \<Rightarrow> (string \<times> config_save_result option) list \<Rightarrow> string" where
  "dangerous_command_grant_save_note project s outcomes =
     join_with '' '' (map (\<lambda>(i, r).
       ''Dangerous-command grant for '' @ i @ '' in '' @ scope_repository s @ '' applies to this session'' @
       save_outcome_text ''dangerous-command'' project r) outcomes)"

definition remote_exec_grant_save_note ::
  "string \<Rightarrow> repository_scope \<Rightarrow> remote_destination \<Rightarrow> config_save_result option \<Rightarrow> string" where
  "remote_exec_grant_save_note project s x r =
     ''Remote-exec grant for '' @ destination_key x @ '' in '' @ scope_repository s @ '' applies to this session'' @
     save_outcome_text ''remote-exec'' project r"

text \<open>The loop over the operations; \<open>None\<close> is a cancellation.\<close>

fun save_outcomes :: "(string \<Rightarrow> save_answer) \<Rightarrow> string list \<Rightarrow> (string \<times> config_save_result option) list option" where
  "save_outcomes save [] = Some []"
| "save_outcomes save (i # is) =
     (if \<not> operation_persistable i then save_outcomes save is
      else case save i of
        Save_Cancelled \<Rightarrow> None
      | Save_Raised \<Rightarrow> map_option ((#) (i, None)) (save_outcomes save is)
      | Save_Answer r \<Rightarrow> map_option ((#) (i, Some r)) (save_outcomes save is))"

text \<open>The revision that was read; \<open>Inl\<close> is a cancellation, \<open>Inr None\<close> a read that cannot be used.\<close>

definition usable_revision :: "saved_answer \<Rightarrow> unit + string option" where
  "usable_revision a =
     (case a of
        Read_Cancelled \<Rightarrow> Inl ()
      | Read_Raised \<Rightarrow> Inr None
      | Read_Answer s \<Rightarrow>
          Inr (if sgr_unavailable s then None
               else case sgr_revision s of None \<Rightarrow> None | Some v \<Rightarrow> if v = [] then None else Some v))"

text \<open>
  \<open>save revision operation\<close> is the answer of the port.  The result is the note, \<open>None\<close> for a
  cancellation.
\<close>

definition persist_project_dangerous_command_grant ::
  "bool \<Rightarrow> saved_answer \<Rightarrow> (string \<Rightarrow> string \<Rightarrow> save_answer) \<Rightarrow> command_proposal \<Rightarrow> string option" where
  "persist_project_dangerous_command_grant port saved save p =
     (let start = ''Dangerous-command grant for '' @ join_with '', '' (cpr_operations p) @ '' in '' @
            scope_repository (cpr_scope p) @ '' applies to this session''
      in if \<not> port then
           Some (start @ ''; this session cannot save dangerous-command grants to your user config.'')
         else case usable_revision saved of
           Inl _ \<Rightarrow> None
         | Inr None \<Rightarrow>
             Some (start @ '' only; your saved grants could not be read, so it was not saved to your config.'')
         | Inr (Some v) \<Rightarrow>
             map_option (\<lambda>outcomes.
               if outcomes = [] then start @ ''; no persistable operation was saved to your user config.''
               else dangerous_command_grant_save_note (cpr_project p) (cpr_scope p) outcomes)
             (save_outcomes (save v) (cpr_operations p)))"

definition persist_project_remote_exec_grant ::
  "bool \<Rightarrow> saved_answer \<Rightarrow> (string \<Rightarrow> string \<Rightarrow> save_answer) \<Rightarrow> command_proposal \<Rightarrow> string option" where
  "persist_project_remote_exec_grant port saved save p =
     (case cpr_destination p of
        None \<Rightarrow> Some ''Remote-exec grant applies to this session only.''
      | Some x \<Rightarrow>
          (let start = ''Remote-exec grant for '' @ destination_key x @ '' applies to this session''
           in if \<not> port then
                Some (start @ ''; this session cannot save remote-exec grants to your user config.'')
              else case usable_revision saved of
                Inl _ \<Rightarrow> None
              | Inr None \<Rightarrow>
                  Some (start @ '' only; your saved grants could not be read, so it was not saved to your config.'')
              | Inr (Some v) \<Rightarrow>
                  (case save v (destination_key x) of
                     Save_Cancelled \<Rightarrow> None
                   | Save_Raised \<Rightarrow> Some (remote_exec_grant_save_note (cpr_project p) (cpr_scope p) x None)
                   | Save_Answer r \<Rightarrow> Some (remote_exec_grant_save_note (cpr_project p) (cpr_scope p) x (Some r)))))"

section \<open>Resuming an approved call\<close>

text \<open>\<open>Resolve_Passed\<close> is every answer that is not a denial.\<close>

datatype permission_answer = Resolve_Raised | Resolve_Passed | Resolve_Denied "string option"

record approval_world =
  apw_resolve :: "grant_store \<Rightarrow> permission_answer"
  apw_port :: bool
  apw_saved :: saved_answer
  apw_save :: "string \<Rightarrow> string \<Rightarrow> save_answer"
  apw_persist :: "grant_store \<Rightarrow> grant_store"
  apw_recheck :: "grant_store \<Rightarrow> permission_answer"

datatype flow_result = Flow_Raised | Flow_Decided "tool_decision option"

text \<open>
  The course the two methods share: \<open>install\<close>, \<open>destroy\<close> and \<open>grant\<close> are the calls on the store,
  \<open>needed\<close> says that there is something to permit, \<open>note\<close> is the result of the save.
\<close>

definition resume_flow ::
  "(grant_store \<Rightarrow> grant_store) \<Rightarrow> (grant_store \<Rightarrow> grant_store) \<Rightarrow> (grant_store \<Rightarrow> grant_store) \<Rightarrow> bool \<Rightarrow>
     execution_admission \<Rightarrow> string option \<Rightarrow> approval_world \<Rightarrow> string \<Rightarrow> grant_choice \<Rightarrow> grant_store \<Rightarrow>
     flow_result \<times> grant_store" where
  "resume_flow install destroy grant needed admission note w tool choice g =
     (let permit = (choice = Allow_Once \<and> needed);
          g1 = (if choice = Allow_Once then (if needed then install g else g) else grant g);
          g2 = (if permit then destroy g1 else g1)
      in case apw_resolve w g1 of
           Resolve_Raised \<Rightarrow> (Flow_Raised, g2)
         | Resolve_Denied r \<Rightarrow> (Flow_Decided (Some (skip_decision (policy_feedback r tool))), g2)
         | Resolve_Passed \<Rightarrow>
             if choice \<noteq> Allow_Project
             then (Flow_Decided (Some (execute_decision None (if choice = Allow_Once then Some admission else None))), g2)
             else (let g3 = apw_persist w g2 in
               case note of
                 None \<Rightarrow> (Flow_Raised, g3)
               | Some n \<Rightarrow>
                   (case apw_recheck w g3 of
                      Resolve_Raised \<Rightarrow> (Flow_Raised, g3)
                    | Resolve_Denied r \<Rightarrow> (Flow_Decided (Some (skip_decision (policy_feedback r tool))), g3)
                    | Resolve_Passed \<Rightarrow> (Flow_Decided (Some (execute_decision (Some n) None)), g3))))"

definition resume_after_dangerous_command_grant ::
  "(requirement set \<Rightarrow> requirement list) \<Rightarrow> approval_world \<Rightarrow> string \<Rightarrow> command_proposal \<Rightarrow> grant_choice \<Rightarrow>
     requirement set \<Rightarrow> grant_store \<Rightarrow> flow_result \<times> grant_store" where
  "resume_after_dangerous_command_grant walk w tool p choice reqs g =
     resume_flow (install_once reqs) (destroy_once reqs) (\<lambda>g. snd (grant_session (walk reqs) g)) (reqs \<noteq> {})
       \<lparr>exa_once = Some reqs, exa_remote = None\<rparr>
       (persist_project_dangerous_command_grant (apw_port w) (apw_saved w) (apw_save w) p) w tool choice g"

definition resume_after_remote_exec_grant ::
  "approval_world \<Rightarrow> string \<Rightarrow> command_proposal \<Rightarrow> grant_choice \<Rightarrow> remote_requirement \<Rightarrow> grant_store \<Rightarrow>
     flow_result \<times> grant_store" where
  "resume_after_remote_exec_grant w tool p choice r g =
     resume_flow (install_remote_exec_once {r}) (destroy_remote_exec_once {r})
       (\<lambda>g. snd (grant_remote_exec_session [r] g)) True
       \<lparr>exa_once = None, exa_remote = Some {r}\<rparr>
       (persist_project_remote_exec_grant (apw_port w) (apw_saved w) (apw_save w) p) w tool choice g"

section \<open>Asking\<close>

datatype prompt_answer = Prompt_Cancelled | Prompt_Failed | Prompt_Answer "question_result option"

record approval_env =
  aen_subagent :: bool
  aen_user_input :: bool
  aen_prompt :: "grant_store \<Rightarrow> prompt_answer \<times> grant_store"
  aen_world :: approval_world

text \<open>A denied call: the proposal, what its derivation gives, and the reason of the denial.\<close>

record denied_call =
  dnc_tool :: string
  dnc_reason :: "string option"
  dnc_proposal :: "command_proposal option"
  dnc_requirements :: "requirement set option"

definition call_identity_of :: "command_proposal \<Rightarrow> call_identity" where
  "call_identity_of p = \<lparr>cid_scope = cpr_scope p, cid_command = cpr_command p\<rparr>"

text \<open>The part after the requirements, the same in both methods; \<open>resume\<close> is the call that resumes.\<close>

definition ask_and_resume ::
  "(grant_choice \<Rightarrow> grant_store \<Rightarrow> flow_result \<times> grant_store) \<Rightarrow> approval_env \<Rightarrow> denied_call \<Rightarrow> command_proposal \<Rightarrow>
     grant_store \<Rightarrow> flow_result \<times> grant_store" where
  "ask_and_resume resume e c p g =
     (if aen_subagent e \<or> \<not> aen_user_input e
      then (Flow_Decided (if apw_port (aen_world e) then Some (dangerous_command_denial (dnc_reason c) (dnc_tool c) p) else None), g)
      else if is_refused (call_identity_of p) g then (Flow_Decided (Some declined_dangerous_command_decision), g)
      else case aen_prompt e g of
        (Prompt_Cancelled, g') \<Rightarrow> (Flow_Raised, g')
      | (Prompt_Failed, g') \<Rightarrow> (Flow_Decided (Some (dangerous_command_denial (dnc_reason c) (dnc_tool c) p)), g')
      | (Prompt_Answer r, g') \<Rightarrow>
          (let choice = parse_dangerous_command_result r (cpr_operations p)
           in if choice = Deny
              then (Flow_Decided (Some declined_dangerous_command_decision), record_refusal (call_identity_of p) g')
              else resume choice g'))"

definition resolve_remote_exec_grant :: "approval_env \<Rightarrow> denied_call \<Rightarrow> grant_store \<Rightarrow> flow_result \<times> grant_store" where
  "resolve_remote_exec_grant e c g =
     (case dnc_proposal c of
        None \<Rightarrow> (Flow_Decided None, g)
      | Some p \<Rightarrow>
          (case cpr_destination p of
             None \<Rightarrow> (Flow_Decided None, g)
           | Some x \<Rightarrow>
               ask_and_resume (\<lambda>choice. resume_after_remote_exec_grant (aen_world e) (dnc_tool c) p choice
                 \<lparr>rxr_scope = cpr_scope p, rxr_destination = x\<rparr>) e c p g))"

definition resolve_dangerous_command_grant ::
  "(requirement set \<Rightarrow> requirement list) \<Rightarrow> approval_env \<Rightarrow> denied_call \<Rightarrow> grant_store \<Rightarrow> flow_result \<times> grant_store" where
  "resolve_dangerous_command_grant walk e c g =
     (case dnc_proposal c of
        None \<Rightarrow> (Flow_Decided None, g)
      | Some p \<Rightarrow>
          if cpr_destination p \<noteq> None then resolve_remote_exec_grant e c g
          else case dnc_requirements c of
            None \<Rightarrow> (Flow_Decided None, g)
          | Some reqs \<Rightarrow>
              ask_and_resume (\<lambda>choice. resume_after_dangerous_command_grant walk (aen_world e) (dnc_tool c) p choice reqs)
                e c p g)"

section \<open>The last check before execution\<close>

text \<open>
  \<open>disabled\<close> is what the configuration of the tool says, \<open>False\<close> when it cannot be read; \<open>bound\<close>
  holds when there is a grant store.  The feedback of a denial, and the store.
\<close>

definition revalidate_execution_admission ::
  "bool \<Rightarrow> (grant_store \<Rightarrow> permission_answer) \<Rightarrow> bool \<Rightarrow> string \<Rightarrow> execution_admission option \<Rightarrow> grant_store \<Rightarrow>
     string option \<times> grant_store" where
  "revalidate_execution_admission disabled resolve bound tool admission g =
     (if disabled then (Some (policy_feedback None tool), g)
      else let once = (case Option.bind admission exa_once of None \<Rightarrow> {} | Some reqs \<Rightarrow> if bound then reqs else {});
               remote = (case Option.bind admission exa_remote of None \<Rightarrow> {} | Some reqs \<Rightarrow> if bound then reqs else {});
               g1 = (if once \<noteq> {} then install_once once g else g);
               g2 = (if remote \<noteq> {} then install_remote_exec_once remote g1 else g1);
               g3 = (if once \<noteq> {} then destroy_once once g2 else g2);
               g4 = (if remote \<noteq> {} then destroy_remote_exec_once remote g3 else g3)
           in (case resolve g2 of
                 Resolve_Raised \<Rightarrow> Some (policy_feedback None tool)
               | Resolve_Denied r \<Rightarrow> Some (policy_feedback r tool)
               | Resolve_Passed \<Rightarrow> None, g4))"

end
