(* ===== verification/Approval_Props.thy ===== *)
theory Approval_Props
  imports Grant_Approval Endpoint_Props
begin

text \<open>
  What an approval leaves behind and when it lets a call run; the key of a destination names it.
\<close>

section \<open>Permits are spent\<close>

text \<open>
  The contract of a once permit: destroying it right after it was installed leaves the authority as
  it was.  Both flows and the last check rely on it.
\<close>

locale once_permits =
  fixes install :: "grant_store \<Rightarrow> grant_store" and destroy :: "grant_store \<Rightarrow> grant_store"
  assumes undone: "abs_grants (destroy (install g)) = abs_grants g"
begin

lemma once_leaves_nothing:
  "abs_grants (snd (resume_flow install destroy grant needed admission note w tool Allow_Once g)) = abs_grants g"
  by (simp add: resume_flow_def Let_def undone split: permission_answer.split)

end

lemma abs_install_destroy: "abs_grants (destroy_once p (install_once p g)) = abs_grants g"
  using abs_step [of "Destroy_Once p" "install_once p g"] abs_step [of "Install_Once p" g] by simp

lemma abs_install_destroy_remote: "abs_grants (destroy_remote_exec_once p (install_remote_exec_once p g)) = abs_grants g"
  using abs_step [of "Destroy_Remote_Once p" "install_remote_exec_once p g"] abs_step [of "Install_Remote_Once p" g] by simp

interpretation scoped: once_permits "install_once p" "destroy_once p" for p
  by unfold_locales (rule abs_install_destroy)

interpretation remote: once_permits "install_remote_exec_once p" "destroy_remote_exec_once p" for p
  by unfold_locales (rule abs_install_destroy_remote)

lemma remote_once_leaves_nothing:
  "abs_grants (snd (resume_after_remote_exec_grant w tool p Allow_Once r g)) = abs_grants g"
  unfolding resume_after_remote_exec_grant_def by (rule remote.once_leaves_nothing)

lemma gate_leaves_nothing:
  "abs_grants (snd (revalidate_execution_admission disabled resolve bound tool admission g)) = abs_grants g"
proof -
  have step: "abs_grants (install_once p h) = authority_step (Install_Once p) (abs_grants h)"
    "abs_grants (destroy_once p h) = authority_step (Destroy_Once p) (abs_grants h)"
    "abs_grants (install_remote_exec_once q h) = authority_step (Install_Remote_Once q) (abs_grants h)"
    "abs_grants (destroy_remote_exec_once q h) = authority_step (Destroy_Remote_Once q) (abs_grants h)" for p q h
    using abs_step [of "Install_Once p" h] abs_step [of "Destroy_Once p" h]
      abs_step [of "Install_Remote_Once q" h] abs_step [of "Destroy_Remote_Once q" h] by simp_all
  show ?thesis by (simp add: revalidate_execution_admission_def Let_def step)
qed

text \<open>
  C27. An approval for one call leaves no authority behind: whatever the checks answer, after the flow
  and the last check before execution the store holds exactly the grants, permits and refusals it
  held before.
\<close>

theorem once_approval_is_spent:
  "abs_grants (snd (revalidate_execution_admission disabled resolve bound tool admission
     (snd (resume_after_dangerous_command_grant walk w tool p Allow_Once reqs g)))) = abs_grants g"
  unfolding gate_leaves_nothing resume_after_dangerous_command_grant_def by (rule scoped.once_leaves_nothing)

text \<open>
  The check puts the permit of its admission back before it asks, so what was revoked between the
  approval and the execution is admitted for this one call.
\<close>

lemma gate_rearms:
  assumes "grants_wf g" "(i, s) \<in> reqs" "i \<noteq> remote_exec_operation_id"
  shows "live_admits (install_once reqs g) i s x"
proof -
  have "grants_wf (install_once reqs g)" using grants_wf_step [OF assms(1), of "Install_Once reqs"] by simp
  then show ?thesis using abs_step [of "Install_Once reqs" g] assms(2,3) by (simp add: live_admits_abs abs_admits_def)
qed

section \<open>When a dangerous command runs\<close>

definition executed :: "flow_result \<times> grant_store \<Rightarrow> bool" where
  "executed r \<longleftrightarrow> (case fst r of Flow_Decided (Some d) \<Rightarrow> tdn_verdict d = Execute_Call | _ \<Rightarrow> False)"

text \<open>The checks of the resumed call, given the store under the new authority.\<close>

definition checks_pass :: "approval_world \<Rightarrow> grant_choice \<Rightarrow> string option \<Rightarrow> grant_store \<Rightarrow> bool" where
  "checks_pass w choice note granted \<longleftrightarrow>
     apw_resolve w granted = Resolve_Passed \<and>
     (if choice = Allow_Project then note \<noteq> None \<and> apw_recheck w (apw_persist w granted) = Resolve_Passed else True)"

lemma executed_simps [simp]:
  "\<not> executed (Flow_Raised, g)" "\<not> executed (Flow_Decided None, g)" "\<not> executed (Flow_Decided (Some (skip_decision f)), g)"
  "executed (Flow_Decided (Some (execute_decision n a)), g)"
  by (simp_all add: executed_def skip_decision_def execute_decision_def)

lemma denial_not_executed [simp]:
  "\<not> executed (Flow_Decided (Some (dangerous_command_denial r t p)), g)"
  "\<not> executed (Flow_Decided (Some declined_dangerous_command_decision), g)"
  by (simp_all add: dangerous_command_denial_def declined_dangerous_command_decision_def Let_def split: option.split)

lemma resume_executed:
  "executed (resume_flow install destroy grant needed admission note w tool choice g) \<longleftrightarrow>
     (if choice = Allow_Once then apw_resolve w (if needed then install g else g) = Resolve_Passed
      else checks_pass w choice note (grant g))"
  by (auto simp: resume_flow_def Let_def checks_pass_def split: permission_answer.split option.split)

text \<open>The authority an approval installs before the first check.\<close>

definition approved_store ::
  "(requirement set \<Rightarrow> requirement list) \<Rightarrow> command_proposal \<Rightarrow> requirement set \<Rightarrow> grant_choice \<Rightarrow> grant_store \<Rightarrow> grant_store" where
  "approved_store walk p reqs choice g =
     (case cpr_destination p of
        None \<Rightarrow>
          if choice = Allow_Once then (if reqs \<noteq> {} then install_once reqs g else g) else snd (grant_session (walk reqs) g)
      | Some x \<Rightarrow>
          (let r = \<lparr>rxr_scope = cpr_scope p, rxr_destination = x\<rparr>
           in if choice = Allow_Once then install_remote_exec_once {r} g else snd (grant_remote_exec_session [r] g)))"

definition saved_note :: "approval_world \<Rightarrow> command_proposal \<Rightarrow> string option" where
  "saved_note w p =
     (if cpr_destination p = None then persist_project_dangerous_command_grant (apw_port w) (apw_saved w) (apw_save w) p
      else persist_project_remote_exec_grant (apw_port w) (apw_saved w) (apw_save w) p)"

lemma asked_executed:
  "executed (ask_and_resume resume e c p g) \<longleftrightarrow>
     \<not> aen_subagent e \<and> aen_user_input e \<and> \<not> is_refused (call_identity_of p) g \<and>
     (\<exists>r g'. aen_prompt e g = (Prompt_Answer r, g') \<and>
        parse_dangerous_command_result r (cpr_operations p) \<noteq> Deny \<and>
        executed (resume (parse_dangerous_command_result r (cpr_operations p)) g'))"
  by (cases "aen_prompt e g") (auto simp: ask_and_resume_def Let_def split: option.split prompt_answer.split)

text \<open>
  C26. A dangerous command runs exactly when a user could be asked, had not refused the call before,
  answered with a choice valid for every operation, and the full resolution under exactly the
  authority that choice installs lets it pass; for a saved grant, again after the save.
\<close>

theorem dangerous_command_runs_exactly:
  "executed (resolve_dangerous_command_grant walk e c g) \<longleftrightarrow>
     (\<exists>p reqs r g' choice.
        dnc_proposal c = Some p \<and>
        (if cpr_destination p = None then dnc_requirements c = Some reqs else True) \<and>
        \<not> aen_subagent e \<and> aen_user_input e \<and> \<not> is_refused (call_identity_of p) g \<and>
        aen_prompt e g = (Prompt_Answer r, g') \<and>
        choice = parse_dangerous_command_result r (cpr_operations p) \<and> choice \<noteq> Deny \<and>
        checks_pass (aen_world e) choice (saved_note (aen_world e) p)
          (approved_store walk p reqs choice g'))"
proof (cases "dnc_proposal c")
  case None
  then show ?thesis by (simp add: resolve_dangerous_command_grant_def)
next
  case (Some p)
  show ?thesis
  proof (cases "cpr_destination p")
    case None
    have "executed (resume_after_dangerous_command_grant walk w t p choice reqs h) \<longleftrightarrow>
        checks_pass w choice (saved_note w p) (approved_store walk p reqs choice h)"
      for w t choice reqs h
      by (simp add: resume_after_dangerous_command_grant_def resume_executed checks_pass_def approved_store_def saved_note_def None)
    then show ?thesis using Some None
      by (auto simp: resolve_dangerous_command_grant_def asked_executed split: option.split)
  next
    case (Some x)
    let ?r = "\<lparr>rxr_scope = cpr_scope p, rxr_destination = x\<rparr>"
    define A where "A = approved_store walk p {}"
    have resumed: "executed (resume_after_remote_exec_grant w t p choice ?r h) \<longleftrightarrow>
        checks_pass w choice (saved_note w p) (A choice h)" for w t choice h
      by (simp add: A_def resume_after_remote_exec_grant_def resume_executed checks_pass_def approved_store_def saved_note_def Some Let_def)
    have no_reqs: "approved_store walk p reqs choice h = A choice h" for reqs choice h
      by (simp add: A_def approved_store_def Some)
    show ?thesis using \<open>dnc_proposal c = Some p\<close> Some
      by (simp add: resolve_dangerous_command_grant_def resolve_remote_exec_grant_def asked_executed resumed no_reqs)
  qed
qed

section \<open>Choices and refusals\<close>

lemma label_choice_Some: "label_choice a = Some c \<longleftrightarrow> a = choice_label c"
  by (cases c) (auto simp: label_choice_def)

lemma label_choice_label [simp]: "label_choice (choice_label c) = Some c"
  by (simp add: label_choice_Some)

lemma choice_label_inject [simp]: "choice_label c = choice_label d \<longleftrightarrow> c = d"
  by (cases c; cases d) auto

lemma first_choice_valid:
  "first_choice ops as \<noteq> Deny \<Longrightarrow>
     choice_label (first_choice ops as) \<in> set as \<and> list_all (\<lambda>i. is_grant_choice_valid i (first_choice ops as)) ops"
  by (induction as) (auto simp: label_choice_Some split: option.splits if_splits)

lemma answered_choice_valid:
  assumes "parse_dangerous_command_result r ops \<noteq> Deny" "i \<in> set ops"
  shows "is_grant_choice_valid i (parse_dangerous_command_result r ops)"
  using assms first_choice_valid [of ops]
  by (auto simp: parse_dangerous_command_result_def list_all_iff split: option.splits if_splits)

text \<open>A grant is saved only where every operation may be.\<close>

lemma saved_choice_persistable:
  assumes "parse_dangerous_command_result r ops = Allow_Project" "i \<in> set ops"
  shows "operation_persistable i"
  using answered_choice_valid [of r ops i] assms by (simp add: project_choice_iff operation_persistable_def)

lemma accepted_choice_offered:
  assumes "parse_dangerous_command_result r (cpr_operations p) \<noteq> Deny" "cpr_operations p \<noteq> []"
  shows "choice_label (parse_dangerous_command_result r (cpr_operations p)) \<in> set (offered_labels p)"
proof (cases "parse_dangerous_command_result r (cpr_operations p)")
  case Allow_Project
  have all: "\<forall>i \<in> set (cpr_operations p). \<exists>e. operation_named i = Some e \<and> dop_persistable e"
  proof
    fix i assume "i \<in> set (cpr_operations p)"
    with saved_choice_persistable [OF Allow_Project] have "operation_persistable i" by blast
    then show "\<exists>e. operation_named i = Some e \<and> dop_persistable e"
      by (cases "operation_named i") (simp_all add: operation_persistable_def)
  qed
  then have "list_all dop_persistable (List.map_filter operation_named (cpr_operations p))"
    by (fastforce simp: map_filter_def list_all_iff)
  moreover have "List.map_filter operation_named (cpr_operations p) \<noteq> []"
    using all assms(2) by (cases "cpr_operations p") (auto simp: map_filter_def)
  ultimately have "persistable_offer (cpr_operations p)" by (simp add: persistable_offer_def Let_def)
  with Allow_Project show ?thesis by (simp add: offered_labels_def)
qed (use assms in \<open>auto simp: offered_labels_def\<close>)

lemma refused_stays: "is_refused c g \<Longrightarrow> Clear_Session \<notin> set ops \<Longrightarrow> is_refused c (run_grants ops g)"
proof (induction ops arbitrary: g)
  case (Cons q ops)
  have "c \<in> aus_refusals (authority_step q (abs_grants g))"
    using Cons.prems by (cases q) (simp_all add: is_refused_def abs_grants_def)
  then have "is_refused c (grant_step q g)" unfolding abs_step [symmetric] by (simp add: is_refused_def abs_grants_def)
  with Cons show ?case by (simp add: run_grants_def)
qed (simp add: run_grants_def)

lemma refused_not_asked:
  assumes "is_refused (call_identity_of p) g" "Clear_Session \<notin> set ops" "\<not> aen_subagent e" "aen_user_input e"
  shows "ask_and_resume resume e c p (run_grants ops g) =
    (Flow_Decided (Some declined_dangerous_command_decision), run_grants ops g)"
  using refused_stays [OF assms(1,2)] assms(3,4) by (simp add: ask_and_resume_def)

end
