(* ===== verification/Destination_Props.thy ===== *)
theory Destination_Props
  imports Dangerous_Commands Endpoint_Props
begin

text \<open>
  The key of a destination names it: parsing the key of a parsed destination gives it back.
\<close>

section \<open>Characters\<close>

lemma is_alnum_code: "is_alnum c \<longleftrightarrow>
    (48 \<le> (of_char c :: nat) \<and> (of_char c :: nat) \<le> 57) \<or> (65 \<le> (of_char c :: nat) \<and> (of_char c :: nat) \<le> 90) \<or>
    (97 \<le> (of_char c :: nat) \<and> (of_char c :: nat) \<le> 122)"
  by (simp add: is_alnum_def less_eq_char_def)

lemma char_is: "c = d \<longleftrightarrow> (of_char c :: nat) = of_char d"
  by simp

lemma user_char_code: "is_user_char c \<Longrightarrow> \<not> is_space c \<and> c \<noteq> CHR ''@''"
  by (auto simp: is_user_char_def is_alnum_code is_space_def Let_def)

lemma host_char_code: "is_host_char c \<Longrightarrow> \<not> is_space c \<and> c \<noteq> CHR '':'' \<and> c \<noteq> CHR ''[''"
  by (auto simp: is_host_char_def is_alnum_code is_space_def Let_def)

lemma ipv6_char_code: "is_ipv6_char c \<Longrightarrow> \<not> is_space c \<and> c \<noteq> CHR '']''"
  by (auto simp: is_ipv6_char_def is_alnum_code is_space_def Let_def)

lemma digit_code: "is_digit c \<Longrightarrow> \<not> is_space c"
  by (auto simp: is_digit_def is_space_def Let_def)

lemma lower_alnum: "is_alnum c \<Longrightarrow> is_alnum (lower_char c)"
  unfolding is_alnum_code lower_char_code by (auto simp: Let_def)

lemma lower_named_char: "is_host_char c \<Longrightarrow> is_host_char (lower_char c)"
  using lower_alnum [of c] by (auto simp: is_host_char_def lower_char_def)

lemma lower_host_name: "is_host_name h \<Longrightarrow> is_host_name (py_lower h)"
  by (auto simp: is_host_name_def py_lower_def list_all_iff hd_map last_map lower_alnum lower_named_char)

lemma short_number: "n < 100000 \<Longrightarrow> length (show_nat n) \<le> 5"
proof -
  have step: "length (show_nat m) \<le> Suc k" if "m div 10 < b" "\<And>j. j < b \<Longrightarrow> length (show_nat j) \<le> k" for m b k
    using that(2) [OF that(1)] by (simp add: show_nat.simps [of m])
  have one: "length (show_nat j) \<le> 1" if "j < 10" for j using that by (simp add: show_nat.simps [of j])
  have two: "length (show_nat j) \<le> 2" if "j < 100" for j using step [of j 10 1] one that by (simp add: numeral_2_eq_2)
  have three: "length (show_nat j) \<le> 3" if "j < 1000" for j using step [of j 100 2] two that by simp
  have four: "length (show_nat j) \<le> 4" if "j < 10000" for j using step [of j 1000 3] three that by simp
  show "n < 100000 \<Longrightarrow> length (show_nat n) \<le> 5" using step [of n 10000 4] four by simp
qed

section \<open>Cutting a key\<close>

lemma takeWhile_stop: "c \<notin> set s \<Longrightarrow> takeWhile (\<lambda>x. x \<noteq> c) (s @ c # t) = s"
  by (induction s) auto

lemma split_name:
  assumes "CHR ''@'' \<notin> set u" "h \<noteq> []" "CHR '':'' \<notin> set h" "hd h \<noteq> CHR ''[''"
  shows "split_destination (u @ ''@'' @ h @ '':'' @ p) = Some (u, h, Some p)"
proof -
  obtain a r where h: "h = a # r" "a \<noteq> CHR ''[''" using assms(2,4) by (cases h) auto
  have "takeWhile (\<lambda>c. c \<noteq> CHR '':'') (h @ CHR '':'' # p) = h" by (rule takeWhile_stop [OF assms(3)])
  then show ?thesis using h by (simp add: split_destination_def takeWhile_stop [OF assms(1)] Let_def)
qed

lemma split_literal:
  assumes "CHR ''@'' \<notin> set u" "CHR '']'' \<notin> set h"
  shows "split_destination (u @ ''@'' @ ''['' @ h @ '']:'' @ p) = Some (u, ''['' @ h @ '']'', Some p)"
proof -
  have "takeWhile (\<lambda>c. c \<noteq> CHR '']'') (CHR ''['' # h @ CHR '']'' # t) = CHR ''['' # h" for t
    using takeWhile_stop [of "CHR '']''" h t] assms(2) by simp
  then show ?thesis by (simp add: split_destination_def takeWhile_stop [OF assms(1)] Let_def)
qed

section \<open>The round trip\<close>

text \<open>
  What the library documents of the compressed form of an IPv6 literal, for the texts the code passes
  to it: those of the characters the regular expression admits, which write no scope id.
\<close>

definition compresses :: "(string \<Rightarrow> string option) \<Rightarrow> bool" where
  "compresses ipv6 \<longleftrightarrow>
     (\<forall>s t. list_all is_ipv6_char s \<longrightarrow> ipv6 s = Some t \<longrightarrow> ipv6 t = Some t \<and> CHR '':'' \<in> set t \<and> list_all is_ipv6_char t)"

definition destination_wf :: "(string \<Rightarrow> string option) \<Rightarrow> remote_destination \<Rightarrow> bool" where
  "destination_wf ipv6 d \<longleftrightarrow>
     rdn_user d \<noteq> [] \<and> list_all is_user_char (rdn_user d) \<and> 1 \<le> rdn_port d \<and> rdn_port d \<le> max_tcp_port \<and>
     ((is_host_name (rdn_host d) \<and> py_lower (rdn_host d) = rdn_host d) \<or>
      (ipv6 (rdn_host d) = Some (rdn_host d) \<and> CHR '':'' \<in> set (rdn_host d) \<and> list_all is_ipv6_char (rdn_host d)))"

lemma canonical_wf:
  assumes "compresses ipv6" "canonical_remote_destination ipv6 v = Some d"
  shows "destination_wf ipv6 d"
proof -
  obtain user raw raw_port where sp: "split_destination (py_strip v) = Some (user, raw, raw_port)"
    using assms(2) by (cases "split_destination (py_strip v)") (auto simp: canonical_remote_destination_def)
  let ?host = "if take 1 raw = ''['' then
      (let body = butlast (tl raw) in if body = [] \<or> \<not> list_all is_ipv6_char body then None else ipv6 body)
    else if is_host_name raw then Some (py_lower raw) else None"
  have parse: "canonical_remote_destination ipv6 v =
      (if user = [] \<or> \<not> list_all is_user_char user \<or> (case raw_port of None \<Rightarrow> False | Some p \<Rightarrow> \<not> port_digits p) then None
       else case ?host of None \<Rightarrow> None
         | Some host \<Rightarrow>
             (let port = (case raw_port of None \<Rightarrow> 22 | Some p \<Rightarrow> decimal_value p)
              in if 1 \<le> port \<and> port \<le> max_tcp_port
                 then Some \<lparr>rdn_user = user, rdn_host = host, rdn_port = port\<rparr> else None))"
    unfolding canonical_remote_destination_def sp option.case prod.case ..
  have user: "user \<noteq> []" "list_all is_user_char user" using assms(2) unfolding parse by (auto split: if_splits)
  obtain host where host: "?host = Some host"
    using assms(2) unfolding parse by (cases ?host) (auto split: if_splits)
  have d: "1 \<le> rdn_port d" "rdn_port d \<le> max_tcp_port" "rdn_user d = user" "rdn_host d = host"
    using assms(2) unfolding parse host by (auto simp: Let_def split: if_splits)
  show ?thesis
  proof (cases "take 1 raw = ''[''")
    case True
    let ?body = "butlast (tl raw)"
    from host True have "list_all is_ipv6_char ?body" "ipv6 ?body = Some host" by (auto simp: Let_def split: if_splits)
    with assms(1) have "ipv6 host = Some host" "CHR '':'' \<in> set host" "list_all is_ipv6_char host"
      unfolding compresses_def by blast+
    with user d show ?thesis by (simp add: destination_wf_def)
  next
    case False
    with host have "is_host_name raw" "host = py_lower raw" by (auto split: if_splits)
    with user d lower_host_name show ?thesis by (simp add: destination_wf_def)
  qed
qed

lemma port_text:
  assumes "1 \<le> n" "n \<le> max_tcp_port"
  shows "port_digits (show_nat n)"
proof -
  have "length (show_nat n) \<le> 5" by (rule short_number) (use assms in \<open>simp add: max_tcp_port_def\<close>)
  then show ?thesis using show_nat_digits [of n] by (cases "show_nat n") (auto simp: port_digits_def)
qed

lemma key_parses:
  assumes "destination_wf ipv6 d"
  shows "canonical_remote_destination ipv6 (destination_key d) = Some d"
proof -
  let ?u = "rdn_user d" and ?h = "rdn_host d" and ?p = "show_nat (rdn_port d)"
  have u: "list_all is_user_char ?u" "?u \<noteq> []" and port: "1 \<le> rdn_port d" "rdn_port d \<le> max_tcp_port"
    using assms by (auto simp: destination_wf_def)
  have no_at: "CHR ''@'' \<notin> set ?u" using u(1) user_char_code by (auto simp: list_all_iff)
  have solid: "list_all (\<lambda>c. \<not> is_space c) ?u" "list_all (\<lambda>c. \<not> is_space c) ?p"
    using u(1) user_char_code show_nat_digits [of "rdn_port d"] digit_code by (auto simp: list_all_iff)
  have whole: "\<lparr>rdn_user = ?u, rdn_host = ?h, rdn_port = rdn_port d\<rparr> = d" by simp
  consider (name) "is_host_name ?h" "py_lower ?h = ?h" "CHR '':'' \<notin> set ?h"
    | (literal) "ipv6 ?h = Some ?h" "CHR '':'' \<in> set ?h" "list_all is_ipv6_char ?h"
    using assms host_char_code by (fastforce simp: destination_wf_def is_host_name_def list_all_iff)
  then show ?thesis
  proof cases
    case name
    have h: "?h \<noteq> []" "hd ?h \<noteq> CHR ''[''" "list_all (\<lambda>c. \<not> is_space c) ?h"
      using name(1) host_char_code by (auto simp: is_host_name_def list_all_iff)
    have key: "destination_key d = ?u @ ''@'' @ ?h @ '':'' @ ?p" using name(3) by (simp add: destination_key_def)
    have "py_strip (?u @ ''@'' @ ?h @ '':'' @ ?p) = ?u @ ''@'' @ ?h @ '':'' @ ?p"
      by (rule is_space_no) (use solid h(3) in \<open>simp add: is_space_def\<close>)
    moreover have "take 1 ?h \<noteq> ''[''" using h(1,2) by (cases ?h) auto
    ultimately show ?thesis unfolding key canonical_remote_destination_def
      by (simp only: split_name [OF no_at h(1) name(3) h(2)]) (simp add: u port port [simplified] name port_text Let_def)
  next
    case literal
    have h: "CHR '']'' \<notin> set ?h" "list_all (\<lambda>c. \<not> is_space c) ?h"
      using literal(3) ipv6_char_code unfolding list_all_iff by blast+
    have some: "?h \<noteq> []" using literal(2) by (cases ?h) simp_all
    have key: "destination_key d = ?u @ ''@'' @ ''['' @ ?h @ '']:'' @ ?p" using literal(2) by (simp add: destination_key_def)
    have "py_strip (?u @ ''@'' @ ''['' @ ?h @ '']:'' @ ?p) = ?u @ ''@'' @ ''['' @ ?h @ '']:'' @ ?p"
      by (rule is_space_no) (use solid h(2) in \<open>simp add: is_space_def\<close>)
    then show ?thesis unfolding key canonical_remote_destination_def
      by (simp only: split_literal [OF no_at h(1)]) (simp add: u port port [simplified] literal some port_text Let_def)
  qed
qed

text \<open>
  C28. The text a grant of a destination is reported and saved under, \<open>user@host:port\<close>, is read back
  as the same destination, however the destination was first spelled.
\<close>

theorem destination_key_roundtrip:
  assumes "compresses ipv6" "canonical_remote_destination ipv6 v = Some d"
  shows "canonical_remote_destination ipv6 (destination_key d) = Some d"
  by (rule key_parses [OF canonical_wf [OF assms]])

definition sample_ipv6 :: "string \<Rightarrow> string option" where
  "sample_ipv6 s = (if s \<in> {''2001:DB8:0::1'', ''2001:db8::1''} then Some ''2001:db8::1'' else None)"

lemma destination_key_roundtrip_witness:
  "canonical_remote_destination sample_ipv6 ''ops@[2001:db8::1]:22'' =
     Some \<lparr>rdn_user = ''ops'', rdn_host = ''2001:db8::1'', rdn_port = 22\<rparr>"
proof -
  let ?d = "\<lparr>rdn_user = ''ops'', rdn_host = ''2001:db8::1'', rdn_port = 22\<rparr>"
  have ok: "list_all is_ipv6_char ''2001:db8::1''" by (simp add: is_ipv6_char_def is_alnum_code less_eq_char_def)
  have "compresses sample_ipv6" using ok by (simp add: compresses_def sample_ipv6_def)
  moreover have "canonical_remote_destination sample_ipv6 ''ops@[2001:DB8:0::1]'' = Some ?d"
    by (simp add: canonical_remote_destination_def py_strip_def is_space_def split_destination_def is_user_char_def
        is_ipv6_char_def is_alnum_code sample_ipv6_def max_tcp_port_def Let_def)
  ultimately have "canonical_remote_destination sample_ipv6 (destination_key ?d) = Some ?d"
    by (rule destination_key_roundtrip)
  moreover have "destination_key ?d = ''ops@[2001:db8::1]:22''"
    by (simp add: destination_key_def show_nat.simps digit_char_def)
  ultimately show ?thesis by simp
qed

end
