(* ===== verification/Spec2Isabelle.thy ===== *)
theory Spec2Isabelle
  imports Provider_Ready Archive_Props Admission Report Queue_Props Completion_Props Checkpoint_Props
    Job_Props Archive_Read_Props Rewind_Props Recovery_Props Endpoint_Props Recovery_Machine_Props Suspension_Props Controller_Props Ledger_Props
    Availability_Wait Probe_Claims Resolver_Props Root_Decisions Approval_Props Destination_Props
begin

text \<open>
  A verification development of the session core of chartreux, a coding agent
  (\<open>src/chartreux\<close>).  It models the state that survives between model calls and that every
  front end relies on: the transcript and the contracts on it, its archive on disk, the file
  checkpoints and the rewind built on both, the queue of waiting turns, the background jobs,
  the audit of a subagent's claim of completion, the catalog of models with the choice of a
  deployment and the registry of cooldowns, and the classification of failures with the policies
  that continue a failed turn and that resume or replace a failed subagent.

  \<^bold>\<open>The program.\<close>  The agent loop appends messages to a \<open>MessageList\<close>.  The append boundary and
  the save boundary check the transcript (\<open>core/agent_loop/_transcript_integrity.py\<close>); a request
  to a model is built from the list after a reorder that makes every tool call adjacent to its
  results (\<open>core/compaction/context.py\<close>).  Compaction seals a settled prefix of the list in the
  file of the session, of which the list keeps a descriptor (\<open>core/message_list.py\<close>,
  \<open>core/session/transcript_archive.py\<close>); reading the history back hydrates the sealed prefix.
  File edits of a turn are logged by the \<open>Checkpointer\<close> and read through \<open>History\<close>
  (\<open>core/checkpoints\<close>); \<open>RewindManager\<close> (\<open>core/rewind/manager.py\<close>) truncates the list, drops the
  turns of the log and restores the files through a \<open>FileStore\<close>.  The app server queues turns
  (\<open>app_server/_turn_queue.py\<close>); commands started in the background live in a bounded registry
  (\<open>core/background_jobs.py\<close>); a subagent's result is classified against its mandate
  (\<open>core/completion_contract.py\<close>).  A failed model call is observed where it is caught, classified
  over its cause graph and published as a failure envelope, from which the recovery of the
  subagent starts: a resumption of the same agent or a replacement on another endpoint.  A failed
  turn of the root goes to the gate of root recovery (\<open>app_server/_root_recovery.py\<close>), which asks
  the model catalog (\<open>core/model_catalog\<close>) what is available now.  A dangerous command runs under
  the authority the user granted to the loop.

  \<^bold>\<open>Theories.\<close>  \<open>Prelude\<close> holds the generic lemmas and the named collections; \<open>Py_Value\<close> the
  values of JSON and their validators.

  \<^item> \<open>Messages\<close>: the message record (\<open>core/llm_models.py\<close>).  \<open>Tool_Order\<close>: owner groups,
    shadowed placeholders and the reorder.  \<open>Settled\<close>, \<open>Integrity\<close>: the violations, the repair
    and the report.  \<open>Validators\<close>: each executable scan is equivalent to a declarative contract.
    \<open>Provider_Ready\<close>, \<open>Admission\<close>, \<open>Report\<close>: what the boundaries guarantee.
  \<^item> \<open>Message_List\<close>, \<open>Archive_Props\<close>: the list, the ownership of its archive descriptor and the
    epoch.  \<open>Archive_Read\<close>, \<open>Archive_Read_Props\<close>: the eligible prefix, the reader and the
    hydration proof.
  \<^item> \<open>Turn_Queue\<close>, \<open>Queue_Props\<close>: the queue as operations on an explicit store of shared
    records; a locale of queues with its interpretation gives the order of service.
  \<^item> \<open>Completion\<close>, \<open>Completion_Props\<close>: the grammar of envelopes and receipts, the typed
    validators, the classification.
  \<^item> \<open>Difflib\<close>: the sequence matcher of the Python library the history calls.  \<open>Text_IO\<close>:
    decoding and newlines (\<open>utils/io.py\<close>).  \<open>Checkpoint_Log\<close>, \<open>History\<close>, \<open>Checkpointer\<close>: the data,
    the read model and the operations that write the log.  \<open>Log_Order\<close>, \<open>Checkpoint_Inv\<close>,
    \<open>Checkpoint_Props\<close>: the log stays well formed, decisions cascade along dependencies and
    projections are closed under them.
  \<^item> \<open>File_Store\<close>: the port to the disk as a locale, interpreted on the disk.  \<open>Rewind\<close>,
    \<open>Rewind_Props\<close>: the complete history and the rewind transaction.
  \<^item> \<open>Background_Jobs\<close>, \<open>Background_Props\<close>, \<open>Job_Props\<close>: the registry, its bounds, the capture of
    output and its pages.
  \<^item> \<open>Failures\<close>, \<open>Failure_Props\<close>: one exception and the bounded walk of its cause graph
    (\<open>core/llm/failures.py\<close>).  \<open>Endpoint\<close>, \<open>Endpoint_Props\<close>: the canonical identity of a URL.
    \<open>Recovery_Models\<close>: the vocabulary, the measured evidence, the observation of an exception
    (\<open>core/recovery_models.py\<close>, \<open>core/recovery_observation.py\<close>).  \<open>Envelope\<close>: the failure envelope of
    a run and the projection of a failed root turn.  \<open>Replacement\<close>: candidates, the decision
    procedure, the blocker report (\<open>core/recovery_policy.py\<close>).  \<open>Recovery_Props\<close>: which failures
    are resumed or replaced, and that protected ones never are.
  \<^item> \<open>Recovery_Records\<close>: the agents, runs, episodes and the registry the recovery of subagents
    shares (\<open>app_server/_subagent_records.py\<close>), and the answers of its ports (\<open>core/subagents.py\<close>).
    \<open>Recovery_Controller\<close>: the automatic controller (\<open>app_server/_recovery_controller.py\<close>).
    \<open>Suspension\<close>: warm suspension (\<open>app_server/_suspension_lifecycle.py\<close>).  \<open>Subagent_Recovery\<close>:
    resume and reconciliation (\<open>app_server/_subagent_recovery.py\<close>).  \<open>Replacement_Claim\<close>: the
    admission of a replacement (\<open>app_server/_subagent_launch.py\<close>).
  \<^item> \<open>Recovery_Machine\<close>: those sections and the sections of the background executor
    (\<open>app_server/_subagent_execution.py\<close>) as an inductive step relation over a machine in which
    resumes are coroutines in flight.  \<open>Recovery_Inv\<close>: its invariant; a locale of calm sections is
    interpreted on every section that leaves the flights alone.  \<open>Recovery_Log\<close>: the invariant of
    the milestones, with a locale of reporting sections.  \<open>Recovery_Samples\<close>: a concrete machine
    that resumes an agent.  \<open>Recovery_Machine_Props\<close>, \<open>Controller_Props\<close>, \<open>Suspension_Props\<close>: what
    holds of every reachable machine, when the controller arms a timer, the caps on suspension, and
    the interleavings the code does not defend against.
  \<^item> \<open>Override_Ledger\<close>, \<open>Ledger_Props\<close>: the ledger that meters forced attempts past a cooldown
    (\<open>core/recovery_override.py\<close>) and what any sequence of its calls guarantees.

  \<^item> \<open>Thinking_Levels\<close>: the levels of thinking and the nearest one a model declares
    (\<open>core/llm/thinking_levels.py\<close>).  \<open>Catalog\<close>: providers, deployments, models and presets with their
    validators (\<open>core/model_catalog/schema.py\<close>).  \<open>Glob\<close>: patterns of names (\<open>core/utils/matching.py\<close>).
    \<open>Model_Resolver\<close>, \<open>Resolver_Props\<close>: the resolution of model expressions
    (\<open>core/model_catalog/resolver.py\<close>): what is chosen, and that a stored choice is read back.
  \<^item> \<open>Availability\<close>, \<open>Availability_Props\<close>: the registry of cooldowns and recovery probes
    (\<open>core/model_catalog/availability.py\<close>); a claimed probe is single-flight until its
    token settles it, a user resets its base or its time to live passes.
    \<open>Eligibility\<close>: the pass over the deployments of a base and the read-only view.
    \<open>Eligibility_Props\<close>: requests over a validated catalog are answered when the compaction base
    is a name (a role expression raises), the view changes nothing.
    \<open>Probe_Claims\<close>: no claim is stranded.  \<open>Availability_Wait\<close>: the delay of the view is not too long.
  \<^item> \<open>Root_Recovery\<close>: the gate of root recovery, each method cut where it waits for the delivery of
    a notice.  \<open>Root_Recovery_Props\<close>: a machine that interleaves those sections, its invariant and
    the budget of an episode.  \<open>Root_Decisions\<close>: when a turn is scheduled and a continuation
    admitted, and that protected failures are not continued.
  \<^item> \<open>Dangerous_Commands\<close>: the operations a user can be asked to authorize, the destination of a
    remote command, the locality of an address (\<open>core/dangerous_commands.py\<close>).  \<open>Grant_Store\<close>: the
    store of session grants, once permits and refusals
    (\<open>core/agent_loop/_dangerous_command_grants.py\<close>) with the removal of live authority
    (\<open>app_server/_subagent_authority.py\<close>).  \<open>Grant_Props\<close>: the store refines sets of grants and
    multisets of permits, a revocation is complete and exact, the generation stands for the content.
    \<open>Grant_Approval\<close>: the flow of a denied command from the question to the last check before
    execution (\<open>core/agent_loop/_tool_decisions.py\<close>, \<open>core/agent_loop/_execution_admission.py\<close>).
    \<open>Approval_Props\<close>: when such a command runs, and, through a locale of permits interpreted on both
    kinds, that an approval for one call leaves nothing behind.  \<open>Destination_Props\<close>: the key of a
    destination is read back.

  \<^bold>\<open>Correspondence.\<close>  A class is a record, an enumeration or a union a datatype, an operation a
  function from the state to the result and the next state; a raised exception is an \<open>Inl\<close>, a
  \<open>None\<close> or a \<open>False\<close>, with the state as the code leaves it.  Dictionaries whose order matters are
  association lists.  Bytes and texts are lists of characters.  Python integers are \<open>int\<close>, or
  \<open>nat\<close> for a length or a position.

  \<^bold>\<open>Parameters.\<close>  What is not code of the repository is an argument of the definitions: the
  codecs of the platform (\<open>codecs\<close>), \<open>json.loads\<close>, \<open>sha256\<close> and the pydantic validator of messages
  (\<open>archive_env\<close>), the callbacks of persistence (\<open>callbacks\<close>), the operations of the disk
  (\<open>fs_port\<close>), clocks and fresh identifiers; for failures the number, date and JSON readers of
  the library (\<open>py_lib\<close>), the secret redactor (\<open>redact\<close>), the check \<open>urlsplit\<close> makes of a bracketed or
  non-ASCII host (\<open>netloc_ok\<close>), and the format of a price (\<open>money\<close>).  A section of recovery reads
  the clocks, the uniform draw, the exclusions of the model catalog, the policy and the sizes of
  the message fields that are not modelled from \<open>recovery_env\<close>; a claim asks \<open>claim_env\<close> for the
  resolved model and for the check of the launch identity.  Regular expressions are \<open>regex\<close>; the
  clock of the availability registry is a function of the number of its readings, and the
  collaborators of the root gate answer through \<open>root_env\<close>.  The readers of IP addresses are \<open>ipv6\<close>
  and \<open>parse_ip\<close>; the order in which a set is walked is \<open>walk\<close>; the user, the resolution of
  permissions and the port that saves a grant answer through \<open>approval_env\<close>.  Exceptions live in a heap from
  addresses to records, so their cause graphs may share members and have cycles.  Seconds and
  prices are rationals.

  \<^bold>\<open>Bounds.\<close>  Every loop is a total function.  The only fuel is the number of pages a reader
  asks for, which the paging property bounds by the number of retained records.  The bounds of the code (eight
  jobs, 4096 records, the page size, the queue's length) are the constants of the source.

  \<^bold>\<open>Not modelled.\<close>  The coroutines of the agent loop and of the app server, whose interleaving is
  that of calls to the modelled operations; network clients, subprocesses, terminal user
  interfaces and widgets; the layered settings; the durable writes of the session logger; the
  analysis of shell commands, which gives the requirements of a dangerous command; the layout of
  its question; the grants of paths outside the roots.  Of the model catalog: its files, their merge, network discovery and
  migrations.  Of the root gate: the texts of its notices and the turn controller that feeds it.
  The registry of jobs is modelled at its synchronous boundary:
  a call of \<open>asyncio\<close> splits an operation into the steps between its suspensions.  Of the recovery
  of subagents: the tombstones of expired agents, stored results and notifications; a change of
  the policy while the machine runs; the hand-over of a busy agent to new work (the flag that
  reserves a record for it is read, never set); a cancellation of the admission coroutine after the
  successor was accepted; override permits.  A launch and the reuse of an idle agent are one step.
\<close>

end
